(* ===== verification/Prelude.thy ===== *)
theory Prelude
  imports Complex_Main "HOL-Library.Multiset"
begin

text \<open>
  Shared ground of the development: the exceptions of the Python code as values, sequential
  evaluation with early exit, the list idioms (slices, running sums, strided chunks) the sources
  use, and rank-2 tensors with their shapes.

  A rank-2 tensor is its width and its list of rows, so that a tensor with no rows still has a
  shape, as in the source. Moves between devices and dtypes and \<open>detach\<close> do not change values and
  are not written. Guards of the source on the rank of a tensor (\<open>ndim != 2\<close>) are carried by the
  type.
\<close>

named_theorems tensor_simps \<open>shape, well-formedness and entry equations of tensor operations\<close>
named_theorems res_simps \<open>inversion equations for computations that may raise\<close>

section \<open>Exceptions as values\<close>

datatype pyerr =
    ValueError string
  | AssertionError string
  | TypeError string
  | KeyError string
  | IndexError
  | RuntimeError string
  | NotImplementedError string
  | ZeroDivisionError
  | SystemExit string

type_synonym 'a res = "pyerr + 'a"

definition bind_res :: "'e + 'a \<Rightarrow> ('a \<Rightarrow> 'e + 'b) \<Rightarrow> 'e + 'b" where
  "bind_res m f = (case m of Inl e \<Rightarrow> Inl e | Inr x \<Rightarrow> f x)"

text \<open>A loop that raises at its first failing element, and collects the results otherwise.\<close>

fun map_res :: "('a \<Rightarrow> 'e + 'b) \<Rightarrow> 'a list \<Rightarrow> 'e + 'b list" where
  "map_res f [] = Inr []"
| "map_res f (x # xs) =
     (case f x of
        Inl e \<Rightarrow> Inl e
      | Inr y \<Rightarrow> (case map_res f xs of Inl e \<Rightarrow> Inl e | Inr ys \<Rightarrow> Inr (y # ys)))"

lemma bind_res_simps [simp]:
  "bind_res (Inl e) f = Inl e"
  "bind_res (Inr x) f = f x"
  by (simp_all add: bind_res_def)

lemma bind_res_Inr [res_simps]:
  "bind_res m f = Inr y \<longleftrightarrow> (\<exists>x. m = Inr x \<and> f x = Inr y)"
  by (cases m) auto

lemma map_res_Inr_iff: "map_res f xs = Inr ys \<longleftrightarrow> list_all2 (\<lambda>x y. f x = Inr y) xs ys"
proof (induction xs arbitrary: ys)
  case Nil
  then show ?case by auto
next
  case (Cons x xs)
  have tail: "map_res f xs = Inr zs \<longleftrightarrow> list_all2 (\<lambda>x y. f x = Inr y) xs zs" for zs
    by (rule Cons.IH)
  show ?case
  proof (cases "f x")
    case (Inl e)
    then show ?thesis by (simp add: list_all2_Cons1)
  next
    case (Inr y)
    show ?thesis
    proof (cases "map_res f xs")
      case (Inl e)
      then have "\<not> list_all2 (\<lambda>x y. f x = Inr y) xs zs" for zs using tail[of zs] by simp
      with Inl Inr show ?thesis by (simp add: list_all2_Cons1)
    next
      case (Inr zs)
      then have "list_all2 (\<lambda>x y. f x = Inr y) xs ws \<longleftrightarrow> ws = zs" for ws using tail[of ws] by auto
      with Inr \<open>f x = Inr y\<close> show ?thesis by (auto simp: list_all2_Cons1)
    qed
  qed
qed

lemma map_res_pure: "(\<And>x. x \<in> set xs \<Longrightarrow> f x = Inr (g x)) \<Longrightarrow> map_res f xs = Inr (map g xs)"
  by (induction xs) auto

lemma map_res_map: "map_res f (map g xs) = map_res (\<lambda>x. f (g x)) xs"
  by (induction xs) (simp_all split: sum.splits)

lemma map_res_length: "map_res f xs = Inr ys \<Longrightarrow> length ys = length xs"
  by (auto simp: map_res_Inr_iff dest: list_all2_lengthD)

lemma map_res_nth: "map_res f xs = Inr ys \<Longrightarrow> i < length xs \<Longrightarrow> f (xs ! i) = Inr (ys ! i)"
  by (auto simp: map_res_Inr_iff list_all2_conv_all_nth)

text \<open>A loop that updates a state and raises at its first failing step.\<close>

fun fold_res :: "('s \<Rightarrow> 'a \<Rightarrow> 's res) \<Rightarrow> 's \<Rightarrow> 'a list \<Rightarrow> 's res" where
  "fold_res f s [] = Inr s"
| "fold_res f s (x # xs) = bind_res (f s x) (\<lambda>t. fold_res f t xs)"

lemma fold_res_append:
  "fold_res f s (xs @ ys) = bind_res (fold_res f s xs) (\<lambda>t. fold_res f t ys)"
proof (induction xs arbitrary: s)
  case (Cons x xs)
  then show ?case by (cases "f s x") auto
qed simp

definition the_default :: "'a \<Rightarrow> 'a option \<Rightarrow> 'a" where
  "the_default d x = (case x of None \<Rightarrow> d | Some y \<Rightarrow> y)"

lemma the_default_simps [simp]: "the_default d None = d" "the_default d (Some y) = y"
  by (simp_all add: the_default_def)

section \<open>List idioms\<close>

text \<open>\<open>xs[a:b]\<close> with \<open>0 <= a\<close> and \<open>0 <= b\<close>.\<close>

definition slice :: "nat \<Rightarrow> nat \<Rightarrow> 'a list \<Rightarrow> 'a list" where
  "slice a b xs = take (b - a) (drop a xs)"

text \<open>\<open>torch.cumsum\<close> of a vector, with the running sum as accumulator.\<close>

fun cumsum :: "int \<Rightarrow> int list \<Rightarrow> int list" where
  "cumsum acc [] = []"
| "cumsum acc (x # xs) = (acc + x) # cumsum (acc + x) xs"

lemma length_cumsum [simp]: "length (cumsum a xs) = length xs"
  by (induction xs arbitrary: a) auto

lemma nth_cumsum: "j < length xs \<Longrightarrow> cumsum a xs ! j = a + sum_list (take (Suc j) xs)"
proof (induction xs arbitrary: a j)
  case (Cons x xs)
  then show ?case by (cases j) auto
qed simp

lemma cumsum_append: "cumsum a (xs @ ys) = cumsum a xs @ cumsum (a + sum_list xs) ys"
  by (induction xs arbitrary: a) (auto simp: add.assoc)

lemma cumsum_replicate0 [simp]: "cumsum a (replicate n 0) = replicate n a"
  by (induction n) auto

text \<open>\<open>for start in range(0, n, size)\<close>: the starts of the chunks (\<open>size > 0\<close>).\<close>

fun chunks_of :: "nat \<Rightarrow> 'a list \<Rightarrow> 'a list list" where
  "chunks_of n [] = []"
| "chunks_of n (x # xs) =
     (if n = 0 then [] else take n (x # xs) # chunks_of n (drop n (x # xs)))"

declare chunks_of.simps(2) [simp del]

lemma chunks_of_Nil_iff: "0 < n \<Longrightarrow> chunks_of n xs = [] \<longleftrightarrow> xs = []"
  by (cases xs) (auto simp: chunks_of.simps)

lemma concat_chunks_of: "0 < n \<Longrightarrow> concat (chunks_of n xs) = xs"
proof (induction n xs rule: chunks_of.induct)
  case (2 n x xs)
  then show ?case by (simp add: chunks_of.simps(2)[of n x xs])
qed simp

lemma chunks_of_unfold:
  "0 < n \<Longrightarrow> xs \<noteq> [] \<Longrightarrow> chunks_of n xs = take n xs # chunks_of n (drop n xs)"
  by (cases xs) (auto simp: chunks_of.simps)

lemma chunks_of_lengths:
  "0 < n \<Longrightarrow> n dvd length xs \<Longrightarrow> ys \<in> set (chunks_of n xs) \<Longrightarrow> length ys = n"
proof (induction n xs rule: chunks_of.induct)
  case (2 n x xs)
  let ?l = "x # xs"
  have le: "n \<le> length ?l" using "2.prems" by (auto dest: dvd_imp_le)
  have dvd: "n dvd length (drop n ?l)"
    using "2.prems"(2) le by (simp add: dvd_minus_self del: length_Cons)
  from "2.prems"(1,3) consider "ys = take n ?l" | "ys \<in> set (chunks_of n (drop n ?l))"
    by (auto simp: chunks_of.simps(2)[of n x xs] split: if_splits)
  then show ?case
  proof cases
    case 1
    with le show ?thesis by (simp add: min_absorb2)
  next
    case 2
    with "2.IH"[OF _ "2.prems"(1) dvd] "2.prems"(1) show ?thesis by simp
  qed
qed simp

lemma length_chunks_of:
  "0 < n \<Longrightarrow> n dvd length xs \<Longrightarrow> length (chunks_of n xs) * n = length xs"
proof -
  assume n: "0 < n" "n dvd length xs"
  have "length xs = length (concat (chunks_of n xs))"
    using n by (simp add: concat_chunks_of)
  also have "\<dots> = sum_list (map length (chunks_of n xs))" by (simp add: length_concat)
  also have "\<dots> = sum_list (map (\<lambda>_. n) (chunks_of n xs))"
    using n by (intro arg_cong[where f = sum_list] map_cong) (auto dest: chunks_of_lengths)
  also have "\<dots> = length (chunks_of n xs) * n" by (simp add: sum_list_triv)
  finally show ?thesis by simp
qed

lemma map_map_chunks: "map (map f) (chunks_of n xs) = chunks_of n (map f xs)"
proof (induction n xs rule: chunks_of.induct)
  case (2 n x xs)
  have "chunks_of n (map f (x # xs)) =
      (if n = 0 then [] else map f (take n (x # xs)) # chunks_of n (map f (drop n (x # xs))))"
    unfolding list.map chunks_of.simps(2)[of n "f x" "map f xs"]
    by (simp flip: list.map(2) take_map drop_map)
  with 2 show ?case by (simp add: chunks_of.simps(2)[of n x xs])
qed simp

text \<open>Membership in order of first occurrence: \<open>list(dict.fromkeys(xs))\<close>.\<close>

fun dict_keys :: "'a list \<Rightarrow> 'a list \<Rightarrow> 'a list" where
  "dict_keys seen [] = rev seen"
| "dict_keys seen (x # xs) = dict_keys (if x \<in> set seen then seen else x # seen) xs"

lemma set_dict_keys: "set (dict_keys seen xs) = set seen \<union> set xs"
  by (induction xs arbitrary: seen) auto

lemma distinct_dict_keys: "distinct seen \<Longrightarrow> distinct (dict_keys seen xs)"
  by (induction xs arbitrary: seen) auto

lemma sum_list_replicate_int [simp]: "sum_list (replicate n (c::int)) = int n * c"
  by (induction n) (auto simp: algebra_simps)

lemma sum_list_0_1_bounds:
  "set xs \<subseteq> {0, 1::int} \<Longrightarrow> 0 \<le> sum_list xs \<and> sum_list xs \<le> int (length xs)"
  by (induction xs) auto

lemma map_fix_iff: "map f xs = xs \<longleftrightarrow> (\<forall>x \<in> set xs. f x = x)"
  by (induction xs) auto

section \<open>Rank-2 tensors\<close>

datatype 'a tensor2 = Tensor2 (tcols: nat) (trows: "'a list list")

definition tshape :: "'a tensor2 \<Rightarrow> nat \<times> nat" where
  "tshape t = (length (trows t), tcols t)"

definition twf :: "'a tensor2 \<Rightarrow> bool" where
  "twf t \<longleftrightarrow> list_all (\<lambda>r. length r = tcols t) (trows t)"

text \<open>\<open>tin t i j\<close>: the index \<open>[i, j]\<close> is within the tensor; \<open>tnth t i j\<close> is the entry.\<close>

definition tin :: "'a tensor2 \<Rightarrow> nat \<Rightarrow> nat \<Rightarrow> bool" where
  "tin t i j \<longleftrightarrow> i < length (trows t) \<and> j < tcols t"

definition tnth :: "'a tensor2 \<Rightarrow> nat \<Rightarrow> nat \<Rightarrow> 'a" where
  "tnth t i j = trows t ! i ! j"

text \<open>Elementwise operation on two tensors of one shape.\<close>

definition tmap2 :: "('a \<Rightarrow> 'b \<Rightarrow> 'c) \<Rightarrow> 'a tensor2 \<Rightarrow> 'b tensor2 \<Rightarrow> 'c tensor2" where
  "tmap2 f s t = Tensor2 (tcols s) (map2 (map2 f) (trows s) (trows t))"

text \<open>An operation that broadcasts one value per row (\<open>keepdim=True\<close>) over the columns.\<close>

definition trow_map :: "('r \<Rightarrow> 'a \<Rightarrow> 'b) \<Rightarrow> 'r list \<Rightarrow> 'a tensor2 \<Rightarrow> 'b tensor2" where
  "trow_map f rs t = Tensor2 (tcols t) (map2 (\<lambda>r row. map (f r) row) rs (trows t))"

text \<open>\<open>torch.cat([s, t], dim=1)\<close> and all entries in row-major order.\<close>

definition tcat1 :: "'a tensor2 \<Rightarrow> 'a tensor2 \<Rightarrow> 'a tensor2" where
  "tcat1 s t = Tensor2 (tcols s + tcols t) (map2 (@) (trows s) (trows t))"

definition tflat :: "'a tensor2 \<Rightarrow> 'a list" where
  "tflat t = concat (trows t)"

definition tslice_rows :: "nat \<Rightarrow> nat \<Rightarrow> 'a tensor2 \<Rightarrow> 'a tensor2" where
  "tslice_rows a b t = Tensor2 (tcols t) (slice a b (trows t))"

definition ttake_cols :: "nat \<Rightarrow> 'a tensor2 \<Rightarrow> 'a tensor2" where
  "ttake_cols n t = Tensor2 (min n (tcols t)) (map (take n) (trows t))"

lemma tshape_eqD: "tshape s = tshape t \<Longrightarrow> tin s i j \<longleftrightarrow> tin t i j"
  by (simp add: tshape_def tin_def)

lemma twf_row: "twf t \<Longrightarrow> i < length (trows t) \<Longrightarrow> length (trows t ! i) = tcols t"
  by (simp add: twf_def list_all_length)

lemma twf_rowD: "twf t \<Longrightarrow> r \<in> set (trows t) \<Longrightarrow> length r = tcols t"
  by (simp add: twf_def list_all_iff)

lemma trows_map [simp]: "trows (map_tensor2 f t) = map (map f) (trows t)"
  and tcols_map [simp]: "tcols (map_tensor2 f t) = tcols t"
  by (cases t; simp)+

lemma tshape_map [tensor_simps, simp]: "tshape (map_tensor2 f t) = tshape t"
  by (simp add: tshape_def)

lemma twf_map [tensor_simps, simp]: "twf (map_tensor2 f t) \<longleftrightarrow> twf t"
  by (simp add: twf_def list_all_iff)

lemma tin_map [tensor_simps, simp]: "tin (map_tensor2 f t) i j \<longleftrightarrow> tin t i j"
  by (simp add: tin_def)

lemma tnth_map [tensor_simps]: "twf t \<Longrightarrow> tin t i j \<Longrightarrow> tnth (map_tensor2 f t) i j = f (tnth t i j)"
  by (simp add: tnth_def tin_def twf_row)

lemma tshape_tmap2 [tensor_simps]: "tshape s = tshape t \<Longrightarrow> tshape (tmap2 f s t) = tshape t"
  by (simp add: tmap2_def tshape_def)

lemma twf_tmap2 [tensor_simps]:
  "twf s \<Longrightarrow> twf t \<Longrightarrow> tshape s = tshape t \<Longrightarrow> twf (tmap2 f s t)"
  unfolding twf_def tmap2_def tshape_def list_all_length by simp

lemma tnth_tmap2 [tensor_simps]:
  "twf s \<Longrightarrow> twf t \<Longrightarrow> tshape s = tshape t \<Longrightarrow> tin t i j \<Longrightarrow>
   tnth (tmap2 f s t) i j = f (tnth s i j) (tnth t i j)"
  unfolding tnth_def tin_def tmap2_def tshape_def by (simp add: twf_row)

lemma tin_tmap2 [tensor_simps]: "tshape s = tshape t \<Longrightarrow> tin (tmap2 f s t) i j \<longleftrightarrow> tin t i j"
  by (simp add: tmap2_def tshape_def tin_def)

lemma tshape_trow_map [tensor_simps]:
  "length rs = length (trows t) \<Longrightarrow> tshape (trow_map f rs t) = tshape t"
  by (simp add: trow_map_def tshape_def)

lemma tin_trow_map [tensor_simps]:
  "length rs = length (trows t) \<Longrightarrow> tin (trow_map f rs t) i j \<longleftrightarrow> tin t i j"
  by (simp add: trow_map_def tin_def)

lemma twf_trow_map [tensor_simps]:
  "length rs = length (trows t) \<Longrightarrow> twf t \<Longrightarrow> twf (trow_map f rs t)"
  unfolding twf_def trow_map_def list_all_length by simp

lemma tnth_trow_map [tensor_simps]:
  "twf t \<Longrightarrow> tin t i j \<Longrightarrow> length rs = length (trows t) \<Longrightarrow>
   tnth (trow_map f rs t) i j = f (rs ! i) (tnth t i j)"
  unfolding tnth_def tin_def trow_map_def by (simp add: twf_row)

lemma tshape_tcat1 [tensor_simps]:
  "length (trows s) = length (trows t) \<Longrightarrow>
   tshape (tcat1 s t) = (length (trows t), tcols s + tcols t)"
  by (simp add: tcat1_def tshape_def)

lemma twf_tcat1 [tensor_simps]:
  "twf s \<Longrightarrow> twf t \<Longrightarrow> length (trows s) = length (trows t) \<Longrightarrow> twf (tcat1 s t)"
  unfolding twf_def tcat1_def list_all_length by simp

lemma trows_tcat1:
  "length (trows s) = length (trows t) \<Longrightarrow> i < length (trows t) \<Longrightarrow>
   trows (tcat1 s t) ! i = trows s ! i @ trows t ! i"
  by (simp add: tcat1_def)

lemma tnth_in_tflat: "twf t \<Longrightarrow> tin t i j \<Longrightarrow> tnth t i j \<in> set (tflat t)"
  unfolding tnth_def tin_def tflat_def by (auto simp: twf_row intro!: nth_mem bexI[of _ "trows t ! i"])

lemma tflat_nthE:
  assumes "twf t" "x \<in> set (tflat t)"
  obtains i j where "tin t i j" "x = tnth t i j"
proof -
  from assms(2) obtain r where r: "r \<in> set (trows t)" "x \<in> set r" by (auto simp: tflat_def)
  then obtain i j where "i < length (trows t)" "r = trows t ! i" "j < length r" "x = r ! j"
    by (auto simp: in_set_conv_nth)
  with assms(1) that show ?thesis by (auto simp: tin_def tnth_def twf_row)
qed

end
