(* ===== verification/Floats.thy ===== *)
theory Floats
  imports Prelude
begin

text \<open>
  Floating-point values of tensors. Rounding is not modelled: a finite value is a real number.
  What the sources test for is modelled, namely the two infinities and NaN with their
  propagation through arithmetic, and comparisons that are false on NaN.
\<close>

datatype fl = Fin real | PInf | NInf | NaN

instantiation fl :: "{zero, one, plus, uminus, minus, times, ord}"
begin

definition zero_fl :: fl where "zero_fl = Fin 0"

definition one_fl :: fl where "one_fl = Fin 1"

fun plus_fl :: "fl \<Rightarrow> fl \<Rightarrow> fl" where
  "plus_fl (Fin a) (Fin b) = Fin (a + b)"
| "plus_fl NaN _ = NaN"
| "plus_fl _ NaN = NaN"
| "plus_fl PInf NInf = NaN"
| "plus_fl NInf PInf = NaN"
| "plus_fl PInf _ = PInf"
| "plus_fl _ PInf = PInf"
| "plus_fl NInf _ = NInf"
| "plus_fl _ NInf = NInf"

fun uminus_fl :: "fl \<Rightarrow> fl" where
  "uminus_fl (Fin a) = Fin (- a)"
| "uminus_fl PInf = NInf"
| "uminus_fl NInf = PInf"
| "uminus_fl NaN = NaN"

definition minus_fl :: "fl \<Rightarrow> fl \<Rightarrow> fl" where "minus_fl x y = x + (- y)"

definition inf_times :: "bool \<Rightarrow> real \<Rightarrow> fl" where
  "inf_times pos r = (if r = 0 then NaN else if (0 < r) = pos then PInf else NInf)"

fun times_fl :: "fl \<Rightarrow> fl \<Rightarrow> fl" where
  "times_fl (Fin a) (Fin b) = Fin (a * b)"
| "times_fl NaN _ = NaN"
| "times_fl _ NaN = NaN"
| "times_fl PInf (Fin b) = inf_times True b"
| "times_fl NInf (Fin b) = inf_times False b"
| "times_fl (Fin a) PInf = inf_times True a"
| "times_fl (Fin a) NInf = inf_times False a"
| "times_fl PInf PInf = PInf"
| "times_fl NInf NInf = PInf"
| "times_fl _ _ = NInf"

fun less_fl :: "fl \<Rightarrow> fl \<Rightarrow> bool" where
  "less_fl (Fin a) (Fin b) = (a < b)"
| "less_fl NaN _ = False"
| "less_fl _ NaN = False"
| "less_fl PInf _ = False"
| "less_fl _ NInf = False"
| "less_fl _ _ = True"

definition less_eq_fl :: "fl \<Rightarrow> fl \<Rightarrow> bool" where
  "less_eq_fl x y \<longleftrightarrow> x < y \<or> (x = y \<and> x \<noteq> NaN)"

instance ..

end

fun isfinite :: "fl \<Rightarrow> bool" where
  "isfinite (Fin _) = True"
| "isfinite _ = False"

text \<open>\<open>x != y\<close>: true when either side is NaN.\<close>

definition fneq :: "fl \<Rightarrow> fl \<Rightarrow> bool" where
  "fneq x y \<longleftrightarrow> x = NaN \<or> y = NaN \<or> x \<noteq> y"

text \<open>
  \<open>torch.sign\<close>. Its value on NaN is never observed by the modelled code: a NaN advantage on a
  valid token raises before the sign is used.
\<close>

fun fsign :: "fl \<Rightarrow> fl" where
  "fsign (Fin r) = Fin (sgn r)"
| "fsign PInf = Fin 1"
| "fsign NInf = Fin (- 1)"
| "fsign NaN = NaN"

fun fabs :: "fl \<Rightarrow> fl" where
  "fabs (Fin r) = Fin \<bar>r\<bar>"
| "fabs PInf = PInf"
| "fabs NInf = PInf"
| "fabs NaN = NaN"

text \<open>\<open>x.clamp(min=lo, max=hi)\<close> and \<open>x.clamp_min(lo)\<close> with finite bounds.\<close>

fun fclamp :: "real \<Rightarrow> real \<Rightarrow> fl \<Rightarrow> fl" where
  "fclamp lo hi (Fin r) = Fin (min hi (max lo r))"
| "fclamp lo hi PInf = Fin hi"
| "fclamp lo hi NInf = Fin (min hi lo)"
| "fclamp lo hi NaN = NaN"

fun fclamp_min :: "real \<Rightarrow> fl \<Rightarrow> fl" where
  "fclamp_min lo (Fin r) = Fin (max lo r)"
| "fclamp_min lo PInf = PInf"
| "fclamp_min lo NInf = Fin lo"
| "fclamp_min lo NaN = NaN"

fun fexp :: "fl \<Rightarrow> fl" where
  "fexp (Fin r) = Fin (exp r)"
| "fexp PInf = PInf"
| "fexp NInf = Fin 0"
| "fexp NaN = NaN"

text \<open>\<open>torch.sqrt\<close>: NaN below zero.\<close>

fun fsqrt :: "fl \<Rightarrow> fl" where
  "fsqrt (Fin r) = (if r < 0 then NaN else Fin (sqrt r))"
| "fsqrt PInf = PInf"
| "fsqrt _ = NaN"

text \<open>Division by a finite divisor; a zero divisor is taken as positive zero.\<close>

fun fdiv :: "fl \<Rightarrow> real \<Rightarrow> fl" where
  "fdiv (Fin a) d =
     (if d \<noteq> 0 then Fin (a / d) else if a = 0 then NaN else if 0 < a then PInf else NInf)"
| "fdiv PInf d = (if d < 0 then NInf else PInf)"
| "fdiv NInf d = (if d < 0 then PInf else NInf)"
| "fdiv NaN d = NaN"

text \<open>Division of two tensor values.\<close>

fun fdivf :: "fl \<Rightarrow> fl \<Rightarrow> fl" where
  "fdivf x (Fin d) = fdiv x d"
| "fdivf x NaN = NaN"
| "fdivf x y = (if isfinite x then Fin 0 else NaN)"

definition fsum :: "fl list \<Rightarrow> fl" where
  "fsum xs = foldr (+) xs 0"

text \<open>The finite value of an entry (0 for a non-finite one), for stating properties.\<close>

fun fval :: "fl \<Rightarrow> real" where
  "fval (Fin r) = r"
| "fval _ = 0"

lemma isfinite_iff: "isfinite x \<longleftrightarrow> (\<exists>r. x = Fin r)"
  by (cases x) auto

lemma Fin_fval: "isfinite x \<Longrightarrow> Fin (fval x) = x"
  by (cases x) auto

lemma fl_const_simps [simp]: "(0::fl) = Fin 0" "(1::fl) = Fin 1"
  by (simp_all add: zero_fl_def one_fl_def)

lemma minus_Fin [simp]: "Fin a - Fin b = Fin (a - b)"
  by (simp add: minus_fl_def)

lemma less_eq_Fin [simp]: "Fin a \<le> Fin b \<longleftrightarrow> a \<le> b"
  by (auto simp: less_eq_fl_def)

lemma fneq_Fin [simp]: "fneq (Fin a) (Fin b) \<longleftrightarrow> a \<noteq> b"
  by (simp add: fneq_def)

lemma fsum_simps [simp]: "fsum [] = Fin 0" "fsum (x # xs) = x + fsum xs"
  by (simp_all add: fsum_def)

lemma fsum_Fin: "list_all isfinite xs \<Longrightarrow> fsum xs = Fin (sum_list (map fval xs))"
proof (induction xs)
  case (Cons x xs)
  then show ?case by (cases x) auto
qed simp

lemma isfinite_arith:
  "isfinite x \<Longrightarrow> isfinite y \<Longrightarrow> isfinite (x + y)"
  "isfinite x \<Longrightarrow> isfinite y \<Longrightarrow> isfinite (x - y)"
  "isfinite x \<Longrightarrow> isfinite y \<Longrightarrow> isfinite (x * y)"
  "isfinite x \<Longrightarrow> isfinite (fsign x)"
  by (auto simp: isfinite_iff)

lemma fval_arith:
  "isfinite x \<Longrightarrow> isfinite y \<Longrightarrow> fval (x + y) = fval x + fval y"
  "isfinite x \<Longrightarrow> isfinite y \<Longrightarrow> fval (x - y) = fval x - fval y"
  "isfinite x \<Longrightarrow> isfinite y \<Longrightarrow> fval (x * y) = fval x * fval y"
  by (auto simp: isfinite_iff)

end
