(* ===== verification/Rlsd.thy ===== *)
theory Rlsd
  imports Floats
begin

text \<open>
  \<open>verl/trainer/extpi_rlsd/rlsd.py\<close>: the token-level reweighting of GRPO advantages by the evidence
  of the privileged teacher, and the sampled-token OPD-PG advantages. The lemmas show when the
  reweighting raises, that it keeps the sign of every valid advantage, stays within the clip
  range, and writes nothing outside the response mask.
\<close>

section \<open>Configuration and masked statistics\<close>

record RLSDConfig =
  lam :: real
  clip_range :: real
  negative_only :: bool

definition default_RLSDConfig :: RLSDConfig where
  "default_RLSDConfig = \<lparr>lam = 1/2, clip_range = 1/5, negative_only = False\<rparr>"

definition validate :: "RLSDConfig \<Rightarrow> unit res" where
  "validate c =
     (if \<not> (0 \<le> lam c \<and> lam c \<le> 1) then Inl (ValueError ''lam must be in [0, 1]'')
      else if \<not> (0 \<le> clip_range c \<and> clip_range c < 1)
        then Inl (ValueError ''clip_range must be in [0, 1)'')
      else Inr ())"

definition as_mask :: "int tensor2 \<Rightarrow> fl tensor2" where
  "as_mask m = map_tensor2 (\<lambda>k. Fin (of_int k)) m"

text \<open>\<open>tensor.bool()\<close> of one entry.\<close>

definition mbool :: "fl \<Rightarrow> bool" where
  "mbool x \<longleftrightarrow> fneq x 0"

definition masked_mean :: "fl tensor2 \<Rightarrow> fl tensor2 \<Rightarrow> fl" where
  "masked_mean v msk =
     (let denom = fclamp_min 1 (fsum (tflat msk));
          masked_value = tmap2 (\<lambda>m x. if mbool m then x else 0) msk v
      in fdivf (fsum (tflat masked_value)) denom)"

definition masked_std :: "fl tensor2 \<Rightarrow> fl tensor2 \<Rightarrow> fl" where
  "masked_std v msk =
     (let mean = masked_mean v msk
      in fsqrt (fclamp_min 0
           (masked_mean (map_tensor2 (\<lambda>x. (x - mean) * (x - mean)) v) msk)))"

section \<open>RLSD reweighting\<close>

text \<open>\<open>tensor[valid]\<close>: the entries selected by a boolean mask.\<close>

definition tsel :: "fl tensor2 \<Rightarrow> 'a tensor2 \<Rightarrow> 'a list" where
  "tsel valid t = map snd (filter (\<lambda>(v, _). mbool v) (zip (tflat valid) (tflat t)))"

fun first_nonfinite :: "fl tensor2 \<Rightarrow> (string \<times> fl tensor2) list \<Rightarrow> unit res" where
  "first_nonfinite msk [] = Inr ()"
| "first_nonfinite msk ((name, t) # rest) =
     (if \<not> list_all isfinite (tsel msk t)
      then Inl (ValueError (''RLSD found non-finite '' @ name))
      else first_nonfinite msk rest)"

definition rlsd_credit_mask :: "fl tensor2 \<Rightarrow> int tensor2 option \<Rightarrow> fl tensor2" where
  "rlsd_credit_mask msk tok =
     (case tok of None \<Rightarrow> msk | Some m \<Rightarrow> tmap2 (*) (as_mask m) msk)"

definition rlsd_signed_delta :: "fl tensor2 \<Rightarrow> fl tensor2 \<Rightarrow> fl tensor2 \<Rightarrow> fl tensor2" where
  "rlsd_signed_delta teacher student adv =
     tmap2 (*) (map_tensor2 fsign adv) (tmap2 (-) teacher student)"

definition rlsd_clipped_weights :: "RLSDConfig \<Rightarrow> fl tensor2 \<Rightarrow> fl tensor2" where
  "rlsd_clipped_weights c sd =
     (let log_low = ln (1 - clip_range c); log_high = ln (1 + clip_range c)
      in map_tensor2 fexp (map_tensor2 (fclamp log_low log_high) sd))"

text \<open>With \<open>negative_only\<close>, rows whose masked advantages sum to a non-negative value keep weight 1.\<close>

definition rlsd_negative_mix :: "fl tensor2 \<Rightarrow> fl tensor2 \<Rightarrow> fl tensor2 \<Rightarrow> fl tensor2" where
  "rlsd_negative_mix adv msk reweight =
     (let seq_adv = map fsum (trows (tmap2 (*) adv msk));
          negative_seq = map (\<lambda>s. if s < 0 then Fin 1 else Fin 0) seq_adv
      in tmap2 (+) (trow_map (*) negative_seq reweight)
           (trow_map (\<lambda>n m. (1 - n) * m) negative_seq msk))"

definition rlsd_reweight ::
  "RLSDConfig \<Rightarrow> fl tensor2 \<Rightarrow> fl tensor2 \<Rightarrow> fl tensor2 \<Rightarrow> fl tensor2 \<Rightarrow> fl tensor2" where
  "rlsd_reweight c sd credit msk adv =
     (let rlsd_rw = map_tensor2 (\<lambda>w. Fin (1 - lam c) + Fin (lam c) * w) (rlsd_clipped_weights c sd);
          reweight = tmap2 (*) (tmap2 (\<lambda>cr r. if mbool cr then r else 1) credit rlsd_rw) msk
      in if negative_only c then rlsd_negative_mix adv msk reweight else reweight)"

definition rlsd_output :: "fl tensor2 \<Rightarrow> fl tensor2 \<Rightarrow> fl tensor2 \<Rightarrow> fl tensor2" where
  "rlsd_output adv reweight msk = tmap2 (*) (tmap2 (*) adv reweight) msk"

definition rlsd_sign_flips :: "fl tensor2 \<Rightarrow> fl tensor2 \<Rightarrow> fl tensor2 \<Rightarrow> nat" where
  "rlsd_sign_flips out adv msk =
     (let valid_nonzero = tmap2 (\<lambda>m a. 0 < m \<and> fneq a 0) msk adv;
          flips = tmap2 (\<and>) (tmap2 (\<lambda>r a. fneq (fsign r) (fsign a)) out adv) valid_nonzero
      in length (filter id (tflat flips)))"

record rlsd_metrics =
  delta_mean :: fl
  delta_std :: fl
  log_weight_mean :: fl
  log_weight_std :: fl
  weight_mean :: fl
  weight_std :: fl
  clip_low_ratio :: fl
  clip_high_ratio :: fl
  token_mask_ratio :: fl
  effective_lambda :: real
  adv_abs_mean_before :: fl
  adv_abs_mean_after :: fl
  sign_flip_count :: nat
  delta_pos_adv_mean :: fl
  delta_neg_adv_mean :: fl

definition b2f :: "bool \<Rightarrow> fl" where
  "b2f b = (if b then Fin 1 else Fin 0)"

definition rlsd_metrics_of ::
  "RLSDConfig \<Rightarrow> fl tensor2 \<Rightarrow> fl tensor2 \<Rightarrow> fl tensor2 \<Rightarrow> fl tensor2 \<Rightarrow> fl tensor2 \<Rightarrow> fl tensor2
   \<Rightarrow> rlsd_metrics" where
  "rlsd_metrics_of c delta sd credit msk adv out =
     (let weights = rlsd_clipped_weights c sd;
          log_low = Fin (ln (1 - clip_range c)); log_high = Fin (ln (1 + clip_range c))
      in \<lparr>delta_mean = masked_mean delta msk,
          delta_std = masked_std delta msk,
          log_weight_mean = masked_mean sd credit,
          log_weight_std = masked_std sd credit,
          weight_mean = masked_mean weights credit,
          weight_std = masked_std weights credit,
          clip_low_ratio = masked_mean (map_tensor2 (\<lambda>x. b2f (x < log_low)) sd) credit,
          clip_high_ratio = masked_mean (map_tensor2 (\<lambda>x. b2f (log_high < x)) sd) credit,
          token_mask_ratio = fdivf (fsum (tflat credit)) (fclamp_min 1 (fsum (tflat msk))),
          effective_lambda = lam c,
          adv_abs_mean_before = masked_mean (map_tensor2 fabs adv) msk,
          adv_abs_mean_after = masked_mean (map_tensor2 fabs out) msk,
          sign_flip_count = rlsd_sign_flips out adv msk,
          delta_pos_adv_mean =
            masked_mean delta (tmap2 (*) msk (map_tensor2 (\<lambda>a. b2f (0 < a)) adv)),
          delta_neg_adv_mean =
            masked_mean delta (tmap2 (*) msk (map_tensor2 (\<lambda>a. b2f (a < 0)) adv))\<rparr>)"

definition compute_rlsd_advantages ::
  "fl tensor2 \<Rightarrow> fl tensor2 \<Rightarrow> fl tensor2 \<Rightarrow> int tensor2 \<Rightarrow> int tensor2 option \<Rightarrow> RLSDConfig
   \<Rightarrow> (fl tensor2 \<times> rlsd_metrics) res" where
  "compute_rlsd_advantages teacher student adv response_mask tok c =
     bind_res (validate c) (\<lambda>_.
     if \<not> (tshape teacher = tshape student \<and> tshape student = tshape adv
            \<and> tshape adv = tshape response_mask)
     then Inl (ValueError ''inputs must share the same shape'')
     else if (case tok of None \<Rightarrow> False | Some m \<Rightarrow> tshape m \<noteq> tshape response_mask)
     then Inl (ValueError ''rlsd_token_mask must share the same shape as response_mask'')
     else
       let msk = as_mask response_mask;
           credit = rlsd_credit_mask msk tok;
           delta = tmap2 (-) teacher student;
           sd = rlsd_signed_delta teacher student adv
       in bind_res
            (if \<exists>m \<in> set (tflat msk). mbool m
             then first_nonfinite msk
                    [(''teacher_log_probs'', teacher), (''student_log_probs'', student),
                     (''advantages'', adv), (''signed_delta'', sd)]
             else Inr ())
            (\<lambda>_. let out = rlsd_output adv (rlsd_reweight c sd credit msk adv) msk
                  in Inr (out, rlsd_metrics_of c delta sd credit msk adv out)))"

section \<open>OPD-PG advantages\<close>

definition opd_raw_logratio :: "fl tensor2 \<Rightarrow> fl tensor2 \<Rightarrow> fl tensor2 \<Rightarrow> fl tensor2" where
  "opd_raw_logratio teacher student_old msk = tmap2 (*) (tmap2 (-) teacher student_old) msk"

record opd_metrics =
  logratio_mean :: fl
  logratio_abs_mean :: fl
  logratio_p99 :: fl
  logratio_clamp_ratio :: fl
  teacher_logp_mean :: fl
  student_old_logp_mean :: fl

text \<open>\<open>quantile\<close> is \<open>torch.quantile(xs, 0.99)\<close> on a non-empty vector.\<close>

definition compute_opd_pg_advantages ::
  "(fl list \<Rightarrow> fl) \<Rightarrow> fl tensor2 \<Rightarrow> fl tensor2 \<Rightarrow> int tensor2 \<Rightarrow> real
   \<Rightarrow> (fl tensor2 \<times> opd_metrics) res" where
  "compute_opd_pg_advantages quantile teacher student_old response_mask clip_abs =
     (if tshape teacher \<noteq> tshape student_old \<or> tshape teacher \<noteq> tshape response_mask
      then Inl (ValueError ''inputs must share the same shape'')
      else if clip_abs \<le> 0 then Inl (ValueError ''logratio_clip_abs must be positive'')
      else
        let msk = as_mask response_mask;
            raw = opd_raw_logratio teacher student_old msk;
            token_adv = tmap2 (*) (map_tensor2 (fclamp (- clip_abs) clip_abs) raw) msk
        in Inr (token_adv,
             \<lparr>logratio_mean = masked_mean raw msk,
              logratio_abs_mean = masked_mean (map_tensor2 fabs raw) msk,
              logratio_p99 =
                (if \<exists>m \<in> set (tflat msk). mbool m
                 then quantile (map fabs (tsel msk raw)) else Fin 0),
              logratio_clamp_ratio =
                masked_mean (map_tensor2 (\<lambda>x. b2f (Fin clip_abs < fabs x)) raw) msk,
              teacher_logp_mean = masked_mean teacher msk,
              student_old_logp_mean = masked_mean student_old msk\<rparr>))"

section \<open>Lemmas\<close>

text \<open>
  What every caller has: tensors are well-formed, the mask is made of zeros and ones.
\<close>

definition binary_mask :: "int tensor2 \<Rightarrow> bool" where
  "binary_mask m \<longleftrightarrow> set (tflat m) \<subseteq> {0, 1}"

lemma validate_Inr [res_simps]:
  "validate c = Inr u \<longleftrightarrow> 0 \<le> lam c \<and> lam c \<le> 1 \<and> 0 \<le> clip_range c \<and> clip_range c < 1"
  by (auto simp: validate_def)

lemma as_mask_shape [tensor_simps, simp]:
  "tshape (as_mask m) = tshape m" "twf (as_mask m) \<longleftrightarrow> twf m" "tin (as_mask m) i j \<longleftrightarrow> tin m i j"
  by (simp_all add: as_mask_def)

lemma as_mask_nth [tensor_simps]:
  "twf m \<Longrightarrow> tin m i j \<Longrightarrow> tnth (as_mask m) i j = Fin (of_int (tnth m i j))"
  by (simp add: as_mask_def tensor_simps)

lemma mbool_Fin [simp]: "mbool (Fin r) \<longleftrightarrow> r \<noteq> 0"
  by (simp add: mbool_def)

lemma clipped_weight_bounds:
  fixes c d :: real
  assumes "0 \<le> c" "c < 1"
  shows "1 - c \<le> exp (min (ln (1 + c)) (max (ln (1 - c)) d))"
    and "exp (min (ln (1 + c)) (max (ln (1 - c)) d)) \<le> 1 + c"
proof -
  let ?x = "min (ln (1 + c)) (max (ln (1 - c)) d)"
  have "ln (1 - c) \<le> ln (1 + c)" using assms by (intro ln_mono) auto
  then have "ln (1 - c) \<le> ?x" and "?x \<le> ln (1 + c)" by auto
  then have "exp (ln (1 - c)) \<le> exp ?x" and "exp ?x \<le> exp (ln (1 + c))"
    by (simp_all del: exp_ln)
  with assms show "1 - c \<le> exp ?x" and "exp ?x \<le> 1 + c" by simp_all
qed

lemma convex_weight_bounds:
  fixes l c w :: real
  assumes "0 \<le> l" "1 - c \<le> w" "w \<le> 1 + c"
  shows "1 - l * c \<le> (1 - l) + l * w" and "(1 - l) + l * w \<le> 1 + l * c"
  using mult_left_mono[OF assms(2,1)] mult_left_mono[OF assms(3,1)]
  by (simp_all add: algebra_simps)

lemma negative_mix_entry:
  assumes wf: "twf rw" "twf msk" "twf adv"
    and sh: "tshape rw = tshape adv" "tshape msk = tshape adv"
    and ij: "tin adv i j" and m: "tnth msk i j = Fin m" and r: "tnth rw i j = Fin r"
  shows "tnth (rlsd_negative_mix adv msk rw) i j =
    Fin (if fsum (trows (tmap2 (*) adv msk) ! i) < 0 then r else m)"
proof -
  let ?s = "map fsum (trows (tmap2 (*) adv msk))"
  define n where "n = map (\<lambda>s. if s < 0 then Fin 1 else Fin 0) ?s"
  have len: "length n = length (trows rw)" "length n = length (trows msk)" "length n = length (trows adv)"
    using sh by (simp_all add: n_def tmap2_def tshape_def)
  have ij': "tin rw i j" "tin msk i j" using ij sh tshape_eqD by metis+
  have "tnth (tmap2 (+) (trow_map (*) n rw) (trow_map (\<lambda>n m. (1 - n) * m) n msk)) i j
     = n ! i * Fin r + (1 - n ! i) * Fin m"
    using wf sh len ij' m r by (simp add: tensor_simps)
  moreover have "i < length ?s" using ij len by (simp add: tin_def n_def)
  ultimately show ?thesis
    by (simp add: rlsd_negative_mix_def Let_def n_def)
qed

lemma reweight_entry:
  assumes wf: "twf sd" "twf credit" "twf msk" "twf adv"
    and sh: "tshape sd = tshape adv" "tshape credit = tshape adv" "tshape msk = tshape adv"
    and ij: "tin adv i j" and m: "tnth msk i j = Fin m"
    and r: "(if mbool (tnth credit i j)
             then Fin (1 - lam c) + Fin (lam c) * tnth (rlsd_clipped_weights c sd) i j else 1) * Fin m
       = Fin r"
  shows "tnth (rlsd_reweight c sd credit msk adv) i j =
    Fin (if negative_only c \<and> \<not> fsum (trows (tmap2 (*) adv msk) ! i) < 0 then m else r)"
proof -
  define rw where "rw = tmap2 (*) (tmap2 (\<lambda>cr r. if mbool cr then r else 1) credit
    (map_tensor2 (\<lambda>w. Fin (1 - lam c) + Fin (lam c) * w) (rlsd_clipped_weights c sd))) msk"
  have w: "twf (rlsd_clipped_weights c sd)" "tshape (rlsd_clipped_weights c sd) = tshape adv"
    using wf sh by (simp_all add: rlsd_clipped_weights_def)
  have ij': "tin (rlsd_clipped_weights c sd) i j" "tin credit i j" "tin msk i j"
    using ij sh w tshape_eqD by metis+
  have "twf rw" "tshape rw = tshape adv" and rwij: "tnth rw i j = Fin r"
    using wf sh w ij' m r by (simp_all add: rw_def tensor_simps)
  from negative_mix_entry[OF this(1) wf(3,4) this(2) sh(3) ij m rwij] rwij
  show ?thesis by (simp add: rlsd_reweight_def Let_def flip: rw_def)
qed

text \<open>When the reweighting succeeds, and the entries of its result.\<close>

lemma tsel_all:
  assumes "twf v" "twf t" "tshape v = tshape t"
  shows "list_all P (tsel v t) \<longleftrightarrow> (\<forall>i j. tin t i j \<longrightarrow> mbool (tnth v i j) \<longrightarrow> P (tnth t i j))"
proof -
  let ?V = "trows v" and ?T = "trows t"
  have len: "length ?V = length ?T" and cols: "tcols v = tcols t"
    using assms(3) by (simp_all add: tshape_def)
  have rows: "list_all2 (\<lambda>r s. length r = length s) ?V ?T"
    using assms len cols by (simp add: list_all2_conv_all_nth twf_row)
  have "zip (concat ?V) (concat ?T) = concat (map2 zip ?V ?T)"
    using rows by (induction rule: list_all2_induct) (simp_all add: zip_append)
  then have "set (zip (tflat v) (tflat t)) = (\<Union>i<length ?T. set (zip (?V ! i) (?T ! i)))"
    using len by (auto simp: tflat_def set_zip; force)
  also have "\<dots> = {(tnth v i j, tnth t i j) | i j. tin t i j}"
    using assms len cols by (fastforce simp: set_zip tin_def tnth_def twf_row)
  finally show ?thesis
    by (simp add: tsel_def list_all_iff) blast
qed

lemma first_nonfinite_Inr [res_simps]:
  "first_nonfinite m ts = Inr u \<longleftrightarrow> (\<forall>(n, t) \<in> set ts. list_all isfinite (tsel m t))"
  by (induction m ts rule: first_nonfinite.induct) auto

definition rlsd_wf ::
  "fl tensor2 \<Rightarrow> fl tensor2 \<Rightarrow> fl tensor2 \<Rightarrow> int tensor2 \<Rightarrow> int tensor2 option \<Rightarrow> bool" where
  "rlsd_wf t s a m tok \<longleftrightarrow> twf t \<and> twf s \<and> twf a \<and> twf m \<and> pred_option twf tok"

definition rlsd_shapes ::
  "fl tensor2 \<Rightarrow> fl tensor2 \<Rightarrow> fl tensor2 \<Rightarrow> int tensor2 \<Rightarrow> int tensor2 option \<Rightarrow> bool" where
  "rlsd_shapes t s a m tok \<longleftrightarrow> tshape t = tshape m \<and> tshape s = tshape m \<and> tshape a = tshape m
     \<and> pred_option (\<lambda>k. tshape k = tshape m) tok"

definition rlsd_finite :: "fl tensor2 \<Rightarrow> fl tensor2 \<Rightarrow> fl tensor2 \<Rightarrow> int tensor2 \<Rightarrow> bool" where
  "rlsd_finite t s a m \<longleftrightarrow> (\<forall>i j. tin m i j \<longrightarrow> tnth m i j \<noteq> 0 \<longrightarrow>
     isfinite (tnth t i j) \<and> isfinite (tnth s i j) \<and> isfinite (tnth a i j))"

lemma signed_delta_shape [tensor_simps]:
  assumes "rlsd_wf t s a m tok" "rlsd_shapes t s a m tok"
  shows "twf (rlsd_signed_delta t s a)" "tshape (rlsd_signed_delta t s a) = tshape m"
    and "tin m i j \<Longrightarrow> tnth (rlsd_signed_delta t s a) i j = fsign (tnth a i j) * (tnth t i j - tnth s i j)"
  using assms tshape_eqD[of a m] tshape_eqD[of s m] tshape_eqD[of t m]
  by (simp_all add: rlsd_signed_delta_def rlsd_wf_def rlsd_shapes_def tensor_simps)

lemma credit_mask_facts:
  assumes "rlsd_wf t s a m tok" "rlsd_shapes t s a m tok"
  shows "twf (rlsd_credit_mask (as_mask m) tok)
    \<and> tshape (rlsd_credit_mask (as_mask m) tok) = tshape m
    \<and> (tin m i j \<longrightarrow> tnth m i j = 0 \<longrightarrow> \<not> mbool (tnth (rlsd_credit_mask (as_mask m) tok) i j))"
proof (cases tok)
  case None
  with assms show ?thesis by (auto simp: rlsd_credit_mask_def rlsd_wf_def tensor_simps)
next
  case (Some k)
  with assms have k: "twf k" "tshape k = tshape m" "twf m" "tin k i j \<longleftrightarrow> tin m i j"
    using tshape_eqD[of k m] by (auto simp: rlsd_wf_def rlsd_shapes_def)
  with Some show ?thesis by (auto simp: rlsd_credit_mask_def tensor_simps)
qed

lemma rlsd_finite_check:
  assumes wf: "rlsd_wf t s a m tok" and sh: "rlsd_shapes t s a m tok"
  shows "(if \<exists>x \<in> set (tflat (as_mask m)). mbool x
       then first_nonfinite (as_mask m) [(n1, t), (n2, s), (n3, a), (n4, rlsd_signed_delta t s a)]
       else Inr ()) = Inr u \<longleftrightarrow> rlsd_finite t s a m" (is "?L \<longleftrightarrow> ?R")
proof -
  have wm: "twf (as_mask m)" "twf m" using wf by (simp_all add: rlsd_wf_def)
  have sel: "list_all isfinite (tsel (as_mask m) x) \<longleftrightarrow>
      (\<forall>i j. tin m i j \<longrightarrow> tnth m i j \<noteq> 0 \<longrightarrow> isfinite (tnth x i j))"
    if "twf x" "tshape x = tshape m" for x :: "fl tensor2"
    using tsel_all[OF wm(1) that(1), of isfinite] that wm tshape_eqD[of x m]
    by (auto simp: as_mask_nth)
  have w4: "twf t" "twf s" "twf a" using wf by (auto simp: rlsd_wf_def)
  have s4: "tshape t = tshape m" "tshape s = tshape m" "tshape a = tshape m"
    using sh by (auto simp: rlsd_shapes_def)
  note sd = signed_delta_shape[OF wf sh]
  have dfin: "isfinite (tnth t i j) \<Longrightarrow> isfinite (tnth s i j) \<Longrightarrow> isfinite (tnth a i j)
      \<Longrightarrow> tin m i j \<Longrightarrow> isfinite (tnth (rlsd_signed_delta t s a) i j)" for i j
    by (simp add: sd isfinite_arith)
  have all: "first_nonfinite (as_mask m) [(n1, t), (n2, s), (n3, a), (n4, rlsd_signed_delta t s a)] = Inr u
      \<longleftrightarrow> ?R"
    using dfin
    by (simp add: first_nonfinite_Inr sel[OF w4(1) s4(1)] sel[OF w4(2) s4(2)] sel[OF w4(3) s4(3)]
        sel[OF sd(1,2)] rlsd_finite_def) blast
  show ?thesis
  proof (cases "\<exists>x \<in> set (tflat (as_mask m)). mbool x")
    case True
    with all show ?thesis by (simp only: if_True)
  next
    case False
    then have "tin m i j \<Longrightarrow> tnth m i j = 0" for i j
      using tnth_in_tflat[OF wm(1), of i j] wm by (auto simp: as_mask_nth)
    with False show ?thesis by (auto simp: rlsd_finite_def)
  qed
qed

lemma compute_rlsd_Inr:
  assumes wf: "rlsd_wf t s a m tok"
  shows "compute_rlsd_advantages t s a m tok c = Inr (out, mt) \<longleftrightarrow>
     validate c = Inr () \<and> rlsd_shapes t s a m tok \<and> rlsd_finite t s a m
     \<and> out = rlsd_output a (rlsd_reweight c (rlsd_signed_delta t s a)
               (rlsd_credit_mask (as_mask m) tok) (as_mask m) a) (as_mask m)
     \<and> mt = rlsd_metrics_of c (tmap2 (-) t s) (rlsd_signed_delta t s a)
               (rlsd_credit_mask (as_mask m) tok) (as_mask m) a out"
proof (cases "rlsd_shapes t s a m tok")
  case True
  have nn: "(tshape t = tshape s \<and> tshape s = tshape a \<and> tshape a = tshape m)"
    "\<not> (case tok of None \<Rightarrow> False | Some k \<Rightarrow> tshape k \<noteq> tshape m)"
    using True by (auto simp: rlsd_shapes_def split: option.splits)
  show ?thesis
    unfolding compute_rlsd_advantages_def Let_def bind_res_Inr rlsd_finite_check[OF wf True]
    using True nn by (auto simp: res_simps rlsd_finite_check[OF wf True])
next
  case False
  then show ?thesis
    by (auto simp: compute_rlsd_advantages_def rlsd_shapes_def res_simps split: option.splits if_splits)
qed

lemma binary_maskD: "binary_mask m \<Longrightarrow> twf m \<Longrightarrow> tin m i j \<Longrightarrow> tnth m i j = 0 \<or> tnth m i j = 1"
  using tnth_in_tflat[of m i j] by (auto simp: binary_mask_def)

lemma rlsd_out_entry:
  assumes wf: "rlsd_wf t s a m tok" and ok: "compute_rlsd_advantages t s a m tok c = Inr (out, mt)"
    and ij: "tin m i j"
    and k: "tnth (rlsd_reweight c (rlsd_signed_delta t s a)
               (rlsd_credit_mask (as_mask m) tok) (as_mask m) a) i j = Fin r"
    and rwf: "twf (rlsd_reweight c (rlsd_signed_delta t s a)
               (rlsd_credit_mask (as_mask m) tok) (as_mask m) a)"
    and rsh: "tshape (rlsd_reweight c (rlsd_signed_delta t s a)
               (rlsd_credit_mask (as_mask m) tok) (as_mask m) a) = tshape m"
  shows "tnth out i j = tnth a i j * Fin r * Fin (of_int (tnth m i j))"
proof -
  from ok have sh: "rlsd_shapes t s a m tok" and out: "out = rlsd_output a
     (rlsd_reweight c (rlsd_signed_delta t s a) (rlsd_credit_mask (as_mask m) tok) (as_mask m) a) (as_mask m)"
    by (simp_all add: compute_rlsd_Inr[OF wf])
  have "twf a" "tshape a = tshape m" "twf m"
    using wf sh by (simp_all add: rlsd_wf_def rlsd_shapes_def)
  then show ?thesis
    using k rwf rsh ij tshape_eqD[OF rsh, of i j]
    by (simp add: out rlsd_output_def tensor_simps)
qed

lemma negative_mix_shape:
  assumes "twf rw" "twf msk" "tshape rw = tshape msk" "tshape adv = tshape msk"
  shows "twf (rlsd_negative_mix adv msk rw) \<and> tshape (rlsd_negative_mix adv msk rw) = tshape msk"
proof -
  define n where "n = map (\<lambda>s. if s < 0 then Fin 1 else Fin 0) (map fsum (trows (tmap2 (*) adv msk)))"
  have "length n = length (trows rw)" "length n = length (trows msk)"
    using assms by (simp_all add: n_def tmap2_def tshape_def)
  with assms show ?thesis
    unfolding rlsd_negative_mix_def Let_def n_def[symmetric] by (simp add: tensor_simps)
qed

lemma reweight_shape:
  assumes "twf sd" "twf credit" "twf msk"
    and "tshape sd = tshape msk" "tshape credit = tshape msk" "tshape adv = tshape msk"
  shows "twf (rlsd_reweight c sd credit msk adv) \<and> tshape (rlsd_reweight c sd credit msk adv) = tshape msk"
  unfolding rlsd_reweight_def Let_def
  using assms by (simp add: rlsd_clipped_weights_def Let_def tensor_simps negative_mix_shape)

lemma rlsd_entry:
  assumes wf: "rlsd_wf t s a m tok" and ok: "compute_rlsd_advantages t s a m tok c = Inr (out, mt)"
    and ij: "tin m i j"
  shows "tnth m i j = 1 \<Longrightarrow> \<exists>x r. tnth a i j = Fin x \<and> tnth out i j = Fin (x * r)
      \<and> 1 - lam c * clip_range c \<le> r \<and> r \<le> 1 + lam c * clip_range c
      \<and> (negative_only c \<and> \<not> fsum (trows (tmap2 (*) a (as_mask m)) ! i) < 0 \<longrightarrow> r = 1)"
    and "tnth m i j = 0 \<Longrightarrow> isfinite (tnth a i j) \<Longrightarrow> tnth out i j = Fin 0"
proof -
  let ?sd = "rlsd_signed_delta t s a" and ?cr = "rlsd_credit_mask (as_mask m) tok" and ?m = "as_mask m"
  from ok have val: "validate c = Inr ()" and sh: "rlsd_shapes t s a m tok" and fin: "rlsd_finite t s a m"
    by (simp_all add: compute_rlsd_Inr[OF wf])
  have ws: "twf ?sd" "twf ?cr" "twf ?m" "twf a" "tshape ?sd = tshape a" "tshape ?cr = tshape a"
    "tshape ?m = tshape a" "tin a i j" "twf m"
    using wf sh ij signed_delta_shape[OF wf sh] credit_mask_facts[OF wf sh] tshape_eqD[of a m]
    by (auto simp: rlsd_wf_def rlsd_shapes_def)
  have mij: "tnth ?m i j = Fin (of_int (tnth m i j))" using ws ij by (simp add: as_mask_nth)
  note rsh = reweight_shape[OF ws(1-3), of a c]
  note out = rlsd_out_entry[OF wf ok ij]
  {
    assume m1: "tnth m i j = 1"
    with fin ij obtain x d1 d2 where x: "tnth a i j = Fin x" and "tnth t i j = Fin d1" "tnth s i j = Fin d2"
      unfolding rlsd_finite_def isfinite_iff by (metis zero_neq_one)
    then have sd: "tnth ?sd i j = Fin (sgn x * (d1 - d2))"
      using signed_delta_shape(3)[OF wf sh ij] by simp
    define w where "w = exp (min (ln (1 + clip_range c)) (max (ln (1 - clip_range c)) (sgn x * (d1 - d2))))"
    define r where "r = (if mbool (tnth ?cr i j) then (1 - lam c) + lam c * w else 1)"
    have cw: "tnth (rlsd_clipped_weights c ?sd) i j = Fin w"
      using ws sd tshape_eqD[of ?sd a] by (simp add: rlsd_clipped_weights_def Let_def tensor_simps w_def)
    have c: "0 \<le> lam c" "0 \<le> clip_range c" "clip_range c < 1" using val by (simp_all add: validate_Inr)
    have b: "1 - lam c * clip_range c \<le> r" "r \<le> 1 + lam c * clip_range c"
      using clipped_weight_bounds[OF c(2,3), of "sgn x * (d1 - d2)"] c
        convex_weight_bounds[OF c(1), of "clip_range c" w] by (auto simp: r_def w_def)
    let ?neg = "negative_only c \<and> \<not> fsum (trows (tmap2 (*) a ?m) ! i) < 0"
    have "tnth (rlsd_reweight c ?sd ?cr ?m a) i j = Fin (if ?neg then 1 else r)"
      using reweight_entry[OF ws(1-8) mij, of c r] cw m1 by (simp add: r_def)
    from out[OF this] rsh ws x m1
    have "tnth out i j = Fin (x * (if ?neg then 1 else r))" by simp
    with x b c show "\<exists>x r. tnth a i j = Fin x \<and> tnth out i j = Fin (x * r)
      \<and> 1 - lam c * clip_range c \<le> r \<and> r \<le> 1 + lam c * clip_range c
      \<and> (?neg \<longrightarrow> r = 1)"
      by (intro exI[of _ x] exI[of _ "if ?neg then 1 else r"]) simp
  next
    assume m0: "tnth m i j = 0" and f: "isfinite (tnth a i j)"
    with credit_mask_facts[OF wf sh] ij have "\<not> mbool (tnth ?cr i j)" by blast
    then have "tnth (rlsd_reweight c ?sd ?cr ?m a) i j = Fin 0"
      using reweight_entry[OF ws(1-8) mij, of c 0] m0 by simp
    from out[OF this] rsh ws f m0 show "tnth out i j = Fin 0" by (auto simp: isfinite_iff)
  }
qed

lemma sign_flips_zero:
  assumes wf: "twf a" "twf m" "twf out" and sh: "tshape a = tshape m" "tshape out = tshape m"
    and bin: "binary_mask m"
    and same: "\<And>i j. tin m i j \<Longrightarrow> tnth m i j = 1 \<Longrightarrow>
      \<exists>x y. tnth a i j = Fin x \<and> tnth out i j = Fin y \<and> sgn y = sgn x"
  shows "rlsd_sign_flips out a (as_mask m) = 0"
proof -
  let ?T = "tmap2 (\<and>) (tmap2 (\<lambda>r x. fneq (fsign r) (fsign x)) out a)
    (tmap2 (\<lambda>k x. 0 < k \<and> fneq x 0) (as_mask m) a)"
  have T: "twf ?T" "tin ?T i j \<longleftrightarrow> tin m i j" for i j
    using wf sh tshape_eqD[OF sh(1), of i j] by (simp_all add: tensor_simps)
  have flip: "\<not> b" if inb: "b \<in> set (tflat ?T)" for b
  proof -
    obtain i j where Tij: "tin ?T i j" and b: "b = tnth ?T i j"
      using T(1) inb by (rule tflat_nthE)
    from Tij have ij: "tin m i j" by (simp only: T(2))
    have b': "b \<longleftrightarrow> fneq (fsign (tnth out i j)) (fsign (tnth a i j))
        \<and> 0 < tnth (as_mask m) i j \<and> fneq (tnth a i j) 0"
      using wf sh ij tshape_eqD[OF sh(1), of i j] by (simp add: b tensor_simps)
    show ?thesis
      using binary_maskD[OF bin wf(2) ij] same[OF ij] wf ij by (auto simp: b' as_mask_nth)
  qed
  then show ?thesis
    unfolding rlsd_sign_flips_def Let_def length_0_conv filter_empty_conv id_apply by blast
qed

section \<open>Properties\<close>

text \<open>A concrete call: one valid token, one padded position where the teacher's entry is NaN.\<close>

definition ex_teacher :: "fl tensor2" where "ex_teacher = Tensor2 2 [[Fin 10, NaN]]"

definition ex_student :: "fl tensor2" where "ex_student = Tensor2 2 [[Fin 2, Fin 3]]"

definition ex_adv :: "fl tensor2" where "ex_adv = Tensor2 2 [[Fin (- 1), Fin 5]]"

definition ex_mask :: "int tensor2" where "ex_mask = Tensor2 2 [[1, 0]]"

lemmas ex_defs = ex_teacher_def ex_student_def ex_adv_def ex_mask_def tin_def tnth_def tshape_def twf_def tflat_def

lemma ex_wf: "rlsd_wf ex_teacher ex_student ex_adv ex_mask None"
  by (simp add: rlsd_wf_def ex_defs)

lemma ex_binary: "binary_mask ex_mask"
  by (simp add: binary_mask_def ex_defs)

lemma ex_valid: "tin ex_mask 0 0" "tnth ex_mask 0 0 = 1"
  by (simp_all add: ex_defs)

lemma ex_returns:
  "\<exists>out mt. compute_rlsd_advantages ex_teacher ex_student ex_adv ex_mask None default_RLSDConfig = Inr (out, mt)"
proof -
  have "rlsd_shapes ex_teacher ex_student ex_adv ex_mask None" "rlsd_finite ex_teacher ex_student ex_adv ex_mask"
    by (auto simp: rlsd_shapes_def rlsd_finite_def ex_defs less_Suc_eq numeral_2_eq_2)
  with compute_rlsd_Inr[OF ex_wf] show ?thesis by (auto simp: validate_def default_RLSDConfig_def)
qed

text \<open>
  C1. the reweighting keeps the sign of every valid advantage. Whenever the function returns, the
  new advantage of a valid token has the sign of the old one, differs from it by at most
  \<open>lam * clip_range\<close> of its size, and the reported count of sign flips is zero.
\<close>

theorem rlsd_sign_preserved:
  assumes wf: "rlsd_wf t s a m tok" and bin: "binary_mask m"
    and ok: "compute_rlsd_advantages t s a m tok c = Inr (out, mt)"
  shows "sign_flip_count mt = 0 \<and>
    (\<forall>i j. tin m i j \<longrightarrow> tnth m i j = 1 \<longrightarrow>
      (\<exists>x y. tnth a i j = Fin x \<and> tnth out i j = Fin y \<and> sgn y = sgn x
         \<and> \<bar>y - x\<bar> \<le> lam c * clip_range c * \<bar>x\<bar>))"
proof -
  from ok have val: "validate c = Inr ()" and sh: "rlsd_shapes t s a m tok"
    and outd: "out = rlsd_output a (rlsd_reweight c (rlsd_signed_delta t s a)
               (rlsd_credit_mask (as_mask m) tok) (as_mask m) a) (as_mask m)"
    and mt: "sign_flip_count mt = rlsd_sign_flips out a (as_mask m)"
    by (simp_all add: compute_rlsd_Inr[OF wf] rlsd_metrics_of_def Let_def)
  have lc: "lam c * clip_range c < 1"
  proof -
    have "lam c * clip_range c \<le> 1 * clip_range c" using val by (intro mult_right_mono) (auto simp: validate_Inr)
    with val show ?thesis by (auto simp: validate_Inr)
  qed
  have valid: "\<exists>x y. tnth a i j = Fin x \<and> tnth out i j = Fin y \<and> sgn y = sgn x
         \<and> \<bar>y - x\<bar> \<le> lam c * clip_range c * \<bar>x\<bar>" if ij: "tin m i j" and m1: "tnth m i j = 1" for i j
  proof -
    obtain x r where e: "tnth a i j = Fin x" "tnth out i j = Fin (x * r)"
      "1 - lam c * clip_range c \<le> r" "r \<le> 1 + lam c * clip_range c"
      using rlsd_entry(1)[OF wf ok ij m1] by blast
    have "0 < r" using e(3) lc by linarith
    then have "sgn (x * r) = sgn x" by (simp add: sgn_mult)
    moreover have "x * r - x = (r - 1) * x" by (simp add: algebra_simps)
    then have "\<bar>x * r - x\<bar> = \<bar>r - 1\<bar> * \<bar>x\<bar>" by (simp add: abs_mult)
    moreover have "\<bar>r - 1\<bar> * \<bar>x\<bar> \<le> lam c * clip_range c * \<bar>x\<bar>"
      using e(3,4) by (intro mult_right_mono) auto
    ultimately show ?thesis using e(1,2) by auto
  qed
  have ws: "twf a" "twf m" "tshape a = tshape m"
    using wf sh by (simp_all add: rlsd_wf_def rlsd_shapes_def)
  have outs: "twf out" "tshape out = tshape m"
    using ws reweight_shape[of "rlsd_signed_delta t s a" "rlsd_credit_mask (as_mask m) tok" "as_mask m" a c]
      signed_delta_shape[OF wf sh] credit_mask_facts[OF wf sh]
    by (auto simp: outd rlsd_output_def tensor_simps)
  have "\<exists>x y. tnth a i j = Fin x \<and> tnth out i j = Fin y \<and> sgn y = sgn x"
    if "tin m i j" "tnth m i j = 1" for i j
    using valid[OF that] by blast
  then have "rlsd_sign_flips out a (as_mask m) = 0"
    by (intro sign_flips_zero[OF ws(1,2) outs(1) ws(3) outs(2) bin]) blast
  with mt valid show ?thesis by simp
qed

theorem rlsd_sign_preserved_witness:
  "\<exists>out mt. compute_rlsd_advantages ex_teacher ex_student ex_adv ex_mask None default_RLSDConfig = Inr (out, mt)
     \<and> sign_flip_count mt = 0
     \<and> (\<exists>y. tnth out 0 0 = Fin y \<and> sgn y = - 1 \<and> \<bar>y - (- 1)\<bar> \<le> 1/10)"
proof -
  obtain out mt where ok:
    "compute_rlsd_advantages ex_teacher ex_student ex_adv ex_mask None default_RLSDConfig = Inr (out, mt)"
    using ex_returns by blast
  from rlsd_sign_preserved[OF ex_wf ex_binary ok]
  have z: "sign_flip_count mt = 0" and e: "\<exists>x y. tnth ex_adv 0 0 = Fin x \<and> tnth out 0 0 = Fin y \<and> sgn y = sgn x
      \<and> \<bar>y - x\<bar> \<le> lam default_RLSDConfig * clip_range default_RLSDConfig * \<bar>x\<bar>"
    using ex_valid by blast+
  from e obtain y where "tnth out 0 0 = Fin y \<and> sgn y = - 1 \<and> \<bar>y - (- 1)\<bar> \<le> 1/10"
    by (auto simp: ex_defs default_RLSDConfig_def)
  with ok z show ?thesis by blast
qed

text \<open>
  Nothing is written outside the response mask. At a position whose mask is zero the new
  advantage is zero whenever the old one is finite, even if the teacher's or the student's log
  probability there is NaN or infinite.
\<close>

theorem rlsd_masked_positions_zero:
  assumes "rlsd_wf t s a m tok" and "compute_rlsd_advantages t s a m tok c = Inr (out, mt)"
    and "tin m i j" and "tnth m i j = 0" and "isfinite (tnth a i j)"
  shows "tnth out i j = Fin 0"
  using assms by (rule rlsd_entry(2))

theorem rlsd_masked_positions_zero_example:
  "\<exists>out mt. compute_rlsd_advantages ex_teacher ex_student ex_adv ex_mask None default_RLSDConfig = Inr (out, mt)
     \<and> tnth ex_teacher 0 1 = NaN \<and> tnth out 0 1 = Fin 0"
proof -
  obtain out mt where ok:
    "compute_rlsd_advantages ex_teacher ex_student ex_adv ex_mask None default_RLSDConfig = Inr (out, mt)"
    using ex_returns by blast
  have "tin ex_mask 0 1" "tnth ex_mask 0 1 = 0" "isfinite (tnth ex_adv 0 1)"
    by (simp_all add: ex_defs)
  from rlsd_masked_positions_zero[OF ex_wf ok this] ok show ?thesis by (auto simp: ex_defs)
qed

text \<open>
  C2. the reweighting raises exactly when the configuration is out of range, the shapes differ, or
  a teacher log probability, a student log probability or an advantage on a valid token is not
  finite.
\<close>

theorem rlsd_returns_iff:
  assumes "rlsd_wf t s a m tok"
  shows "(\<exists>r. compute_rlsd_advantages t s a m tok c = Inr r) \<longleftrightarrow>
     (0 \<le> lam c \<and> lam c \<le> 1 \<and> 0 \<le> clip_range c \<and> clip_range c < 1)
     \<and> rlsd_shapes t s a m tok \<and> rlsd_finite t s a m"
  using compute_rlsd_Inr[OF assms, of c] by (auto simp: validate_Inr)

theorem rlsd_returns_iff_witness:
  "rlsd_wf ex_teacher ex_student ex_adv ex_mask None
   \<and> (\<exists>r. compute_rlsd_advantages ex_teacher ex_student ex_adv ex_mask None default_RLSDConfig = Inr r)
   \<and> \<not> (\<exists>r. compute_rlsd_advantages ex_student ex_student ex_teacher (Tensor2 2 [[1, 1]]) None
             default_RLSDConfig = Inr r)"
proof -
  have w: "rlsd_wf ex_student ex_student ex_teacher (Tensor2 2 [[1, 1]]) None"
    by (simp add: rlsd_wf_def ex_defs)
  have "\<not> rlsd_finite ex_student ex_student ex_teacher (Tensor2 2 [[1, 1]])"
    unfolding rlsd_finite_def by (auto simp: ex_defs intro!: exI[of _ 0] exI[of _ 1])
  with rlsd_returns_iff[OF w, of default_RLSDConfig] rlsd_returns_iff[OF ex_wf, of default_RLSDConfig]
    ex_wf ex_returns show ?thesis by auto
qed

text \<open>
  With \<open>negative_only\<close>, a sequence whose masked advantages do not sum to a negative value
  keeps every valid advantage unchanged.
\<close>

theorem rlsd_negative_only_keeps:
  assumes "rlsd_wf t s a m tok" and "compute_rlsd_advantages t s a m tok c = Inr (out, mt)"
    and "negative_only c" and "\<not> fsum (trows (tmap2 (*) a (as_mask m)) ! i) < 0"
    and "tin m i j" and "tnth m i j = 1"
  shows "tnth out i j = tnth a i j"
  using rlsd_entry(1)[OF assms(1,2,5,6)] assms(3,4) by auto

theorem rlsd_negative_only_keeps_example:
  "\<exists>out mt. compute_rlsd_advantages ex_teacher ex_student ex_student (Tensor2 2 [[1, 0]]) None
     (default_RLSDConfig\<lparr>negative_only := True\<rparr>) = Inr (out, mt) \<and> tnth out 0 0 = tnth ex_student 0 0"
proof -
  have wf: "rlsd_wf ex_teacher ex_student ex_student (Tensor2 2 [[1, 0]]) None"
    by (simp add: rlsd_wf_def ex_defs)
  have "rlsd_shapes ex_teacher ex_student ex_student (Tensor2 2 [[1, 0]]) None"
    "rlsd_finite ex_teacher ex_student ex_student (Tensor2 2 [[1, 0]])"
    by (auto simp: rlsd_shapes_def rlsd_finite_def ex_defs less_Suc_eq numeral_2_eq_2)
  with compute_rlsd_Inr[OF wf] obtain out mt where ok:
    "compute_rlsd_advantages ex_teacher ex_student ex_student (Tensor2 2 [[1, 0]]) None
       (default_RLSDConfig\<lparr>negative_only := True\<rparr>) = Inr (out, mt)"
    by (auto simp: validate_def default_RLSDConfig_def)
  have h: "negative_only (default_RLSDConfig\<lparr>negative_only := True\<rparr>)"
    "\<not> fsum (trows (tmap2 (*) ex_student (as_mask (Tensor2 2 [[1, 0]]))) ! 0) < 0"
    "tin (Tensor2 2 [[1, 0 :: int]]) 0 0" "tnth (Tensor2 2 [[1, 0 :: int]]) 0 0 = 1"
    by (simp_all add: ex_defs tmap2_def as_mask_def)
  from rlsd_negative_only_keeps[OF wf ok h] ok show ?thesis by blast
qed

text \<open>
  The OPD-PG advantages of valid tokens with finite log probabilities are the log-ratio
  limited to the clip range, and masked positions with finite log probabilities are zero.
\<close>

theorem opd_pg_entries:
  assumes "twf t" "twf s" "twf m" and "binary_mask m"
    and "compute_opd_pg_advantages q t s m k = Inr (out, mt)"
    and "tin m i j" and "tnth t i j = Fin x" and "tnth s i j = Fin y"
  shows "tnth out i j = Fin (if tnth m i j = 0 then 0 else min k (max (- k) (x - y)))
    \<and> \<bar>fval (tnth out i j)\<bar> \<le> k"
proof -
  let ?raw = "opd_raw_logratio t s (as_mask m)"
  from assms(5) have sh: "tshape t = tshape m" "tshape s = tshape m" and k: "0 < k"
    and out: "out = tmap2 (*) (map_tensor2 (fclamp (- k) k) ?raw) (as_mask m)"
    by (auto simp: compute_opd_pg_advantages_def Let_def split: if_splits)
  have r: "twf ?raw" "tshape ?raw = tshape m" "tin ?raw i j"
    using assms sh by (simp_all add: opd_raw_logratio_def tensor_simps)
  have "tnth ?raw i j = Fin ((x - y) * of_int (tnth m i j))"
    using assms sh tshape_eqD[OF sh(2), of i j] by (simp add: opd_raw_logratio_def tensor_simps)
  then have "tnth out i j = Fin (min k (max (- k) ((x - y) * of_int (tnth m i j))) * of_int (tnth m i j))"
    using assms r by (simp add: out tensor_simps)
  with binary_maskD[OF assms(4,3,6)] k show ?thesis by auto
qed

theorem opd_pg_entries_example:
  "\<exists>out mt. compute_opd_pg_advantages (\<lambda>_. Fin 0) ex_student ex_adv ex_mask 2 = Inr (out, mt)
     \<and> tnth out 0 0 = Fin 2 \<and> tnth out 0 1 = Fin 0"
proof -
  obtain out mt where ok: "compute_opd_pg_advantages (\<lambda>_. Fin 0) ex_student ex_adv ex_mask 2 = Inr (out, mt)"
    by (simp add: compute_opd_pg_advantages_def Let_def ex_defs)
  have w: "twf ex_student" "twf ex_adv" "twf ex_mask" by (simp_all add: ex_defs)
  have "tin ex_mask 0 0" "tnth ex_student 0 0 = Fin 2" "tnth ex_adv 0 0 = Fin (- 1)"
    and "tin ex_mask 0 1" "tnth ex_student 0 1 = Fin 3" "tnth ex_adv 0 1 = Fin 5"
    by (simp_all add: ex_defs)
  from opd_pg_entries[OF w ex_binary ok this(1-3)] opd_pg_entries[OF w ex_binary ok this(4-6)] ok
  show ?thesis by (auto simp: ex_defs)
qed

end
