(* ===== verification/PyStrings.thy ===== *)
theory PyStrings
  imports Prelude
begin

text \<open>
  The string operations of Python the sources use. A string is a list of characters, read as the
  code points below 256; the classes below (white space, letters and digits, case) are those
  Python gives these code points.
\<close>

definition nl :: string where "nl = [CHR 0x0A]"

definition backslash :: string where "backslash = [CHR 0x5C]"

definition in_range :: "nat \<Rightarrow> nat \<Rightarrow> nat \<Rightarrow> bool" where
  "in_range lo hi n \<longleftrightarrow> lo \<le> n \<and> n \<le> hi"

definition is_space :: "char \<Rightarrow> bool" where
  "is_space c = (let n = of_char c :: nat
     in in_range 9 13 n \<or> in_range 28 32 n \<or> n = 133 \<or> n = 160)"

text \<open>\<open>\w\<close>: letters, digits, other numeric characters and the underscore.\<close>

definition is_word :: "char \<Rightarrow> bool" where
  "is_word c = (let n = of_char c :: nat
     in in_range 48 57 n \<or> in_range 65 90 n \<or> n = 95 \<or> in_range 97 122 n
        \<or> n = 170 \<or> n = 178 \<or> n = 179 \<or> n = 181 \<or> n = 185 \<or> n = 186 \<or> in_range 188 190 n
        \<or> in_range 192 214 n \<or> in_range 216 246 n \<or> in_range 248 255 n)"

definition lower_char :: "char \<Rightarrow> char" where
  "lower_char c = (let n = of_char c :: nat
     in if in_range 65 90 n \<or> in_range 192 214 n \<or> in_range 216 222 n then char_of (n + 32) else c)"

definition py_lower :: "string \<Rightarrow> string" where
  "py_lower s = map lower_char s"

text \<open>Two characters have a capital outside this range (181 and 255) and are kept.\<close>

definition upper_char :: "char \<Rightarrow> string" where
  "upper_char c = (let n = of_char c :: nat
     in if n = 223 then ''SS''
        else if in_range 97 122 n \<or> in_range 224 246 n \<or> in_range 248 254 n then [char_of (n - 32)] else [c])"

definition py_upper :: "string \<Rightarrow> string" where
  "py_upper s = concat (map upper_char s)"

definition lstrip :: "string \<Rightarrow> string" where
  "lstrip s = dropWhile is_space s"

definition py_strip :: "string \<Rightarrow> string" where
  "py_strip s = rev (lstrip (rev (lstrip s)))"

definition starts_with :: "string \<Rightarrow> string \<Rightarrow> bool" where
  "starts_with p s \<longleftrightarrow> take (length p) s = p"

definition ends_with :: "string \<Rightarrow> string \<Rightarrow> bool" where
  "ends_with p s \<longleftrightarrow> starts_with (rev p) (rev s)"

text \<open>\<open>p in s\<close>, \<open>s.find(p)\<close> and \<open>s.rfind(p)\<close> (\<open>None\<close> for -1).\<close>

fun contains :: "string \<Rightarrow> string \<Rightarrow> bool" where
  "contains p [] \<longleftrightarrow> p = []"
| "contains p (c # cs) \<longleftrightarrow> starts_with p (c # cs) \<or> contains p cs"

fun py_find :: "string \<Rightarrow> string \<Rightarrow> nat option" where
  "py_find p [] = (if p = [] then Some 0 else None)"
| "py_find p (c # cs) = (if starts_with p (c # cs) then Some 0 else map_option Suc (py_find p cs))"

fun py_rfind :: "string \<Rightarrow> string \<Rightarrow> nat option" where
  "py_rfind p [] = (if p = [] then Some 0 else None)"
| "py_rfind p (c # cs) =
     (case py_rfind p cs of
        Some k \<Rightarrow> Some (Suc k)
      | None \<Rightarrow> (if starts_with p (c # cs) then Some 0 else None))"

text \<open>\<open>s.replace(p, r)\<close> for a non-empty \<open>p\<close>: left to right, without overlaps.\<close>

function py_replace :: "string \<Rightarrow> string \<Rightarrow> string \<Rightarrow> string" where
  "py_replace p r [] = []"
| "py_replace p r (c # cs) =
     (if p \<noteq> [] \<and> starts_with p (c # cs) then r @ py_replace p r (drop (length p) (c # cs))
      else c # py_replace p r cs)"
  by pat_completeness auto
termination
  by (relation "measure (\<lambda>(p, r, s). length s)") (auto simp: length_greater_0_conv)

declare py_replace.simps(2) [simp del]

text \<open>\<open>sep.join(xs)\<close>, \<open>s.split(sep)\<close> for one character, and \<open>s.split()\<close>.\<close>

fun py_join :: "string \<Rightarrow> string list \<Rightarrow> string" where
  "py_join sep [] = []"
| "py_join sep [x] = x"
| "py_join sep (x # y # zs) = x @ sep @ py_join sep (y # zs)"

fun split_char :: "char \<Rightarrow> string \<Rightarrow> string list" where
  "split_char sep [] = [[]]"
| "split_char sep (c # cs) =
     (if c = sep then [] # split_char sep cs
      else (case split_char sep cs of [] \<Rightarrow> [[c]] | w # ws \<Rightarrow> (c # w) # ws))"

text \<open>The maximal runs of characters satisfying \<open>P\<close>: \<open>s.split()\<close> and \<open>re.findall\<close> of a class.\<close>

function runs :: "(char \<Rightarrow> bool) \<Rightarrow> string \<Rightarrow> string list" where
  "runs P s =
     (case dropWhile (\<lambda>c. \<not> P c) s of
        [] \<Rightarrow> []
      | c # cs \<Rightarrow> (c # takeWhile P cs) # runs P (dropWhile P cs))"
  by pat_completeness auto
termination
proof (relation "measure (\<lambda>(P, s). length s)", goal_cases)
  case 1
  then show ?case by simp
next
  case (2 P s c cs)
  have "length (dropWhile P cs) \<le> length cs" by (rule length_dropWhile_le)
  also have "\<dots> < length (dropWhile (\<lambda>c. \<not> P c) s)" using 2 by simp
  also have "\<dots> \<le> length s" by (rule length_dropWhile_le)
  finally show ?case by simp
qed

declare runs.simps [simp del]

definition py_split :: "string \<Rightarrow> string list" where
  "py_split s = runs (\<lambda>c. \<not> is_space c) s"

text \<open>\<open>str.format\<close> with named fields: doubled braces are literal, a field is replaced by its value.\<close>

fun py_format :: "(string \<Rightarrow> string option) \<Rightarrow> string \<Rightarrow> string res"
  and py_format_field :: "(string \<Rightarrow> string option) \<Rightarrow> string \<Rightarrow> string \<Rightarrow> string res" where
  "py_format env [] = Inr []"
| "py_format env (c # cs) =
     (if c = CHR ''{'' then
        (case cs of
           [] \<Rightarrow> Inl (ValueError ''single brace in format string'')
         | d # ds \<Rightarrow>
             if d = CHR ''{'' then bind_res (py_format env ds) (\<lambda>t. Inr (CHR ''{'' # t))
             else py_format_field env [] cs)
      else if c = CHR ''}'' then
        (case cs of
           d # ds \<Rightarrow>
             if d = CHR ''}'' then bind_res (py_format env ds) (\<lambda>t. Inr (CHR ''}'' # t))
             else Inl (ValueError ''single brace in format string'')
         | [] \<Rightarrow> Inl (ValueError ''single brace in format string''))
      else bind_res (py_format env cs) (\<lambda>t. Inr (c # t)))"
| "py_format_field env name [] = Inl (ValueError ''expected closing brace'')"
| "py_format_field env name (c # cs) =
     (if c = CHR ''}'' then
        (case env (rev name) of
           None \<Rightarrow> Inl (KeyError (rev name))
         | Some v \<Rightarrow> bind_res (py_format env cs) (\<lambda>t. Inr (v @ t)))
      else py_format_field env (c # name) cs)"

section \<open>Lemmas\<close>

lemma starts_with_iff: "starts_with p s \<longleftrightarrow> (\<exists>t. s = p @ t)"
  unfolding starts_with_def by (metis append_eq_conv_conj append_take_drop_id)

lemma starts_with_append [simp]: "starts_with p (p @ t)"
  by (simp add: starts_with_def)

lemma contains_iff: "contains p s \<longleftrightarrow> (\<exists>a b. s = a @ p @ b)"
proof (induction s)
  case (Cons c cs)
  have "(\<exists>a b. c # cs = a @ p @ b) \<longleftrightarrow> (\<exists>b. c # cs = p @ b) \<or> (\<exists>a b. cs = a @ p @ b)"
    by (metis Cons_eq_append_conv append_Cons append_Nil)
  with Cons show ?case by (simp add: starts_with_iff)
qed auto

lemma contains_trans: "contains p q \<Longrightarrow> contains q s \<Longrightarrow> contains p s"
  unfolding contains_iff by (metis append.assoc)

lemma py_find_Some:
  "py_find p s = Some k \<Longrightarrow> \<exists>b. s = take k s @ p @ b \<and> k + length p \<le> length s"
proof (induction s arbitrary: k)
  case (Cons c cs)
  show ?case
  proof (cases "starts_with p (c # cs)")
    case True
    then obtain t where t: "c # cs = p @ t" by (auto simp: starts_with_iff)
    have "k = 0" using Cons.prems True by simp
    with t show ?thesis by simp
  next
    case False
    then show ?thesis using Cons by auto
  qed
qed (auto split: if_splits)

lemma py_rfind_Some: "py_rfind p s = Some k \<Longrightarrow> starts_with p (drop k s) \<and> k \<le> length s"
  by (induction s arbitrary: k) (auto split: if_splits option.splits simp: starts_with_def)

lemma py_rfind_None: "py_rfind p s = None \<longleftrightarrow> \<not> contains p s"
  by (induction s) (auto split: option.splits)

lemma py_rfind_append:
  "\<not> contains p t \<Longrightarrow> p \<noteq> [] \<Longrightarrow> starts_with p (c # t) \<Longrightarrow> py_rfind p (a @ c # t) = Some (length a)"
proof (induction a)
  case Nil
  then show ?case using py_rfind_None[of p t] by simp
qed simp

lemma py_format_literal_append:
  assumes "list_all (\<lambda>c. c \<noteq> CHR ''{'' \<and> c \<noteq> CHR ''}'') s"
  shows "py_format env (s @ t) = bind_res (py_format env t) (\<lambda>u. Inr (s @ u))"
  using assms
proof (induction s)
  case Nil
  then show ?case by (cases "py_format env t") auto
next
  case (Cons c s)
  then show ?case by (cases "py_format env t") auto
qed

lemma py_format_literal:
  "list_all (\<lambda>c. c \<noteq> CHR ''{'' \<and> c \<noteq> CHR ''}'') s \<Longrightarrow> py_format env s = Inr s"
  using py_format_literal_append[of s env "[]"] by simp

lemma lower_char_idem: "lower_char (lower_char c) = lower_char c"
  by (auto simp: lower_char_def Let_def in_range_def)

lemma py_lower_idem [simp]: "py_lower (py_lower s) = py_lower s"
  by (simp add: py_lower_def lower_char_idem)

end
