(* ===== verification/PyValues.thy ===== *)
theory PyValues
  imports PyStrings "HOL-Library.AList"
begin

text \<open>
  The dynamically typed values of the data rows and of the configuration: JSON values, plus the
  two wrappers that readers of parquet files leave around them (an Arrow scalar, whose \<open>as_py\<close>
  gives the value, and an array, whose \<open>tolist\<close> gives a list). A dictionary is the list of its
  entries in insertion order. Text of floats, lists and dictionaries (\<open>repr\<close>) and the parsing of
  numbers from text are parameters of the operations that need them.
\<close>

datatype pyval =
    PNone
  | PBool bool
  | PInt int
  | PFloat real
  | PStr string
  | PList "pyval list"
  | PDict "(string \<times> pyval) list"
  | PArrow pyval
  | PArray "pyval list"

type_synonym pydict = "(string \<times> pyval) list"

fun truthy :: "pyval \<Rightarrow> bool" where
  "truthy PNone = False"
| "truthy (PBool b) = b"
| "truthy (PInt i) = (i \<noteq> 0)"
| "truthy (PFloat r) = (r \<noteq> 0)"
| "truthy (PStr s) = (s \<noteq> [])"
| "truthy (PList xs) = (xs \<noteq> [])"
| "truthy (PDict d) = (d \<noteq> [])"
| "truthy (PArrow v) = True"
| "truthy (PArray xs) = True"

text \<open>\<open>d.get(k)\<close>, \<open>d.get(k, default)\<close>, \<open>d[k]\<close>, \<open>d[k] = v\<close>, \<open>d.update(e)\<close>.\<close>

definition d_get :: "string \<Rightarrow> pydict \<Rightarrow> pyval" where
  "d_get k d = (case map_of d k of None \<Rightarrow> PNone | Some v \<Rightarrow> v)"

definition d_get_or :: "string \<Rightarrow> pyval \<Rightarrow> pydict \<Rightarrow> pyval" where
  "d_get_or k v d = (case map_of d k of None \<Rightarrow> v | Some w \<Rightarrow> w)"

definition d_index :: "string \<Rightarrow> pydict \<Rightarrow> pyval res" where
  "d_index k d = (case map_of d k of None \<Rightarrow> Inl (KeyError k) | Some v \<Rightarrow> Inr v)"

definition d_set :: "string \<Rightarrow> 'v \<Rightarrow> (string \<times> 'v) list \<Rightarrow> (string \<times> 'v) list" where
  "d_set k v d = AList.update k v d"

definition d_update :: "(string \<times> 'v) list \<Rightarrow> (string \<times> 'v) list \<Rightarrow> (string \<times> 'v) list" where
  "d_update d e = fold (\<lambda>(k, v). d_set k v) e d"

text \<open>\<open>str(v)\<close>; \<open>rp\<close> gives the text of a float, a list or a dictionary.\<close>

function nat_text :: "nat \<Rightarrow> string" where
  "nat_text n = (if n < 10 then [char_of (48 + n)] else nat_text (n div 10) @ [char_of (48 + n mod 10)])"
  by pat_completeness auto
termination
  by (relation "measure id") auto

declare nat_text.simps [simp del]

definition int_text :: "int \<Rightarrow> string" where
  "int_text i = (if i < 0 then ''-'' @ nat_text (nat (- i)) else nat_text (nat i))"

fun py_str :: "(pyval \<Rightarrow> string) \<Rightarrow> pyval \<Rightarrow> string" where
  "py_str rp PNone = ''None''"
| "py_str rp (PBool b) = (if b then ''True'' else ''False'')"
| "py_str rp (PInt i) = int_text i"
| "py_str rp (PStr s) = s"
| "py_str rp v = rp v"

text \<open>\<open>float(v)\<close>; \<open>parse\<close> reads a number from a text.\<close>

fun py_float :: "(string \<Rightarrow> real option) \<Rightarrow> pyval \<Rightarrow> real res" where
  "py_float parse (PBool b) = Inr (if b then 1 else 0)"
| "py_float parse (PInt i) = Inr (of_int i)"
| "py_float parse (PFloat r) = Inr r"
| "py_float parse (PStr s) =
     (case parse s of None \<Rightarrow> Inl (ValueError ''could not convert string to float'') | Some r \<Rightarrow> Inr r)"
| "py_float parse _ = Inl (TypeError ''float() argument must be a string or a real number'')"

text \<open>\<open>a or b\<close>.\<close>

definition py_or :: "pyval \<Rightarrow> pyval \<Rightarrow> pyval" where
  "py_or a b = (if truthy a then a else b)"

lemma d_set_new: "k \<notin> fst ` set xs \<Longrightarrow> d_set k v xs = xs @ [(k, v)]"
  unfolding d_set_def by (induction xs) auto

lemma map_of_d_set [simp]: "map_of (d_set k v d) = (map_of d)(k \<mapsto> v)"
  by (simp add: d_set_def update_conv')

lemma d_get_set: "d_get k (d_set k' v d) = (if k = k' then v else d_get k d)"
  by (simp add: d_get_def)

lemma map_of_d_update: "distinct (map fst e) \<Longrightarrow> map_of (d_update d e) = map_of d ++ map_of e"
proof (induction e arbitrary: d)
  case (Cons x e)
  obtain k v where x: "x = (k, v)" by force
  then have "map_of (d_update d (x # e)) = (map_of d)(k \<mapsto> v) ++ map_of e"
    using Cons by (simp add: d_update_def)
  moreover have "k \<notin> dom (map_of e)" using Cons.prems x by (simp add: dom_map_of_conv_image_fst)
  ultimately show ?case using x by (auto simp: map_add_def fun_eq_iff split: option.splits)
qed (simp add: d_update_def)

lemma distinct_d_set: "distinct (map fst d) \<Longrightarrow> distinct (map fst (d_set k v d))"
  by (simp add: d_set_def distinct_update)

text \<open>
  \<open>a == b\<close> read as a condition. Numbers compare by value across their types, dictionaries without
  regard to order. Comparing arrays gives an array; as a condition it is only defined for one element,
  and raises otherwise (here: not equal).
\<close>

fun py_num :: "pyval \<Rightarrow> real option" where
  "py_num (PBool b) = Some (if b then 1 else 0)"
| "py_num (PInt i) = Some (of_int i)"
| "py_num (PFloat r) = Some r"
| "py_num _ = None"

fun py_eq :: "pyval \<Rightarrow> pyval \<Rightarrow> bool"
  and py_eq_all :: "pyval list \<Rightarrow> pyval list \<Rightarrow> bool"
  and py_eq_dict :: "(string \<times> pyval) list \<Rightarrow> (string \<times> pyval) list \<Rightarrow> bool" where
  "py_eq (PList xs) w = (case w of PList ys \<Rightarrow> length xs = length ys \<and> py_eq_all xs ys | _ \<Rightarrow> False)"
| "py_eq (PDict d) w = (case w of PDict e \<Rightarrow> length d = length e \<and> py_eq_dict d e | _ \<Rightarrow> False)"
| "py_eq (PArray xs) w = (case w of PArray ys \<Rightarrow> length xs = 1 \<and> length ys = 1 \<and> py_eq_all xs ys | _ \<Rightarrow> False)"
| "py_eq (PArrow v) w = (case w of PArrow u \<Rightarrow> py_eq v u | _ \<Rightarrow> False)"
| "py_eq (PStr s) w = (w = PStr s)"
| "py_eq PNone w = (w = PNone)"
| "py_eq v w = (py_num w \<noteq> None \<and> py_num v = py_num w)"
| "py_eq_all [] ys = True"
| "py_eq_all (x # xs) ys = (case ys of [] \<Rightarrow> False | y # ys' \<Rightarrow> py_eq x y \<and> py_eq_all xs ys')"
| "py_eq_dict [] e = True"
| "py_eq_dict ((k, v) # d) e = ((case map_of e k of None \<Rightarrow> False | Some w \<Rightarrow> py_eq v w) \<and> py_eq_dict d e)"

end
