(* ===== verification/Prompt.thy ===== *)
theory Prompt
  imports PyStrings
begin

text \<open>
  \<open>verl/trainer/extpi_rlsd/prompt_assembly.py\<close>: the prompt templates, the chat rendering with its
  fallback, the prompts of the student, the direct teacher and the privileged teacher, and the
  check that no privileged text is in a student prompt. The tokenizer's chat template is a
  parameter: a function of the messages and of the optional \<open>enable_thinking\<close> argument.
\<close>

section \<open>Templates\<close>

definition DEFAULT_PI_TRACE_FIELD :: string where
  "DEFAULT_PI_TRACE_FIELD = ''qwen32b_pi_trace''"

definition SOLVE_HEADER :: string where
  "SOLVE_HEADER =
     ''Solve the following mathematics problem. Give a concise, self-contained derivation.'' @ nl
     @ ''End with the final answer in '' @ backslash @ ''boxed{{...}}.'' @ nl @ nl"

definition STUDENT_USER_TEMPLATE :: string where
  "STUDENT_USER_TEMPLATE = SOLVE_HEADER @ ''{problem}''"

definition PI_TEACHER_USER_TEMPLATE :: string where
  "PI_TEACHER_USER_TEMPLATE = SOLVE_HEADER @ ''{problem}'' @ nl @ nl
     @ ''A verified reference solution from another solver is provided below. Use it only as'' @ nl
     @ ''private guidance. Do not quote it or mention that a reference was provided.'' @ nl @ nl
     @ ''<reference_solution>'' @ nl @ ''{pi_trace}'' @ nl @ ''</reference_solution>''"

definition CLOSED_TEACHER_USER_TEMPLATE :: string where
  "CLOSED_TEACHER_USER_TEMPLATE = SOLVE_HEADER
     @ ''Do not provide hidden chain-of-thought. Provide only visible reasoning that can be audited.''
     @ nl @ nl @ ''{problem}''"

section \<open>Rendering\<close>

type_synonym chat_template = "(string \<times> string) list \<Rightarrow> bool option \<Rightarrow> string res"

definition render_chat :: "chat_template \<Rightarrow> string \<Rightarrow> bool option \<Rightarrow> string res" where
  "render_chat apply user_text enable_thinking =
     (let messages = [(''user'', user_text)]
      in case apply messages enable_thinking of
           Inl (TypeError m) \<Rightarrow> apply messages None
         | r \<Rightarrow> r)"

definition problem_env :: "string \<Rightarrow> string \<Rightarrow> string option" where
  "problem_env problem = [''problem'' \<mapsto> problem]"

definition build_student_prompt :: "chat_template \<Rightarrow> string \<Rightarrow> bool \<Rightarrow> string res" where
  "build_student_prompt apply problem thinking =
     bind_res (py_format (problem_env problem) STUDENT_USER_TEMPLATE)
       (\<lambda>t. render_chat apply t (Some thinking))"

definition build_direct_opd_teacher_prompt :: "chat_template \<Rightarrow> string \<Rightarrow> bool \<Rightarrow> string res" where
  "build_direct_opd_teacher_prompt apply problem thinking = build_student_prompt apply problem thinking"

definition build_pi_teacher_prompt :: "chat_template \<Rightarrow> string \<Rightarrow> string \<Rightarrow> bool \<Rightarrow> string res" where
  "build_pi_teacher_prompt apply problem pi_trace thinking =
     bind_res (py_format ((problem_env problem)(''pi_trace'' \<mapsto> pi_trace)) PI_TEACHER_USER_TEMPLATE)
       (\<lambda>t. render_chat apply t (Some thinking))"

record PromptBundle =
  pb_student_prompt :: string
  pb_direct_opd_teacher_prompt :: string
  pb_pi_teacher_prompt :: "string option"

definition build_prompt_bundle ::
  "chat_template \<Rightarrow> string \<Rightarrow> string option \<Rightarrow> bool \<Rightarrow> bool \<Rightarrow> PromptBundle res" where
  "build_prompt_bundle apply problem pi_trace student_thinking teacher_thinking =
     bind_res (build_student_prompt apply problem student_thinking) (\<lambda>sp.
     bind_res (build_direct_opd_teacher_prompt apply problem teacher_thinking) (\<lambda>dp.
     bind_res
       (case pi_trace of
          Some (c # cs) \<Rightarrow>
            bind_res (build_pi_teacher_prompt apply problem (c # cs) teacher_thinking) (\<lambda>p. Inr (Some p))
        | _ \<Rightarrow> Inr None)
       (\<lambda>pp. Inr \<lparr>pb_student_prompt = sp, pb_direct_opd_teacher_prompt = dp, pb_pi_teacher_prompt = pp\<rparr>)))"

definition assert_no_pi_in_student_prompt :: "string \<Rightarrow> string option \<Rightarrow> unit res" where
  "assert_no_pi_in_student_prompt student_prompt pi_trace =
     (if contains ''<reference_solution>'' student_prompt \<or> contains ''</reference_solution>'' student_prompt
      then Inl (ValueError ''Student prompt contains PI reference tags'')
      else if (case pi_trace of
                 None \<Rightarrow> False
               | Some t \<Rightarrow> t \<noteq> [] \<and> py_strip t \<noteq> [] \<and> contains (py_strip t) student_prompt)
      then Inl (ValueError ''Student prompt contains privileged trace text'')
      else Inr ())"

section \<open>Lemmas\<close>

text \<open>The header as it appears in a prompt, with its doubled braces resolved.\<close>

definition header_text :: string where
  "header_text =
     ''Solve the following mathematics problem. Give a concise, self-contained derivation.'' @ nl
     @ ''End with the final answer in '' @ backslash @ ''boxed{...}.'' @ nl @ nl"

definition pi_text :: "string \<Rightarrow> string" where
  "pi_text pi_trace = nl @ nl
     @ ''A verified reference solution from another solver is provided below. Use it only as'' @ nl
     @ ''private guidance. Do not quote it or mention that a reference was provided.'' @ nl @ nl
     @ ''<reference_solution>'' @ nl @ pi_trace @ nl @ ''</reference_solution>''"

lemma format_header:
  "py_format env (SOLVE_HEADER @ t) = bind_res (py_format env t) (\<lambda>u. Inr (header_text @ u))"
  by (cases "py_format env t") (simp_all add: SOLVE_HEADER_def header_text_def nl_def backslash_def)

lemma format_field_problem:
  "py_format env (''{problem}'' @ t) =
     (case env ''problem'' of None \<Rightarrow> Inl (KeyError ''problem'')
      | Some v \<Rightarrow> bind_res (py_format env t) (\<lambda>u. Inr (v @ u)))"
  by (simp split: option.split)

lemma student_text: "py_format (problem_env problem) STUDENT_USER_TEMPLATE = Inr (header_text @ problem)"
  using format_field_problem[of "problem_env problem" "[]"]
  by (simp only: STUDENT_USER_TEMPLATE_def format_header append_Nil2) (simp add: problem_env_def)

lemma pi_teacher_text:
  "py_format ((problem_env problem)(''pi_trace'' \<mapsto> pi_trace)) PI_TEACHER_USER_TEMPLATE
     = Inr (header_text @ problem @ pi_text pi_trace)"
  unfolding PI_TEACHER_USER_TEMPLATE_def format_header format_field_problem
  by (simp add: problem_env_def pi_text_def nl_def)

lemma build_prompts_simps:
  "build_student_prompt apply problem th = render_chat apply (header_text @ problem) (Some th)"
  "build_pi_teacher_prompt apply problem tr th =
     render_chat apply (header_text @ problem @ pi_text tr) (Some th)"
  by (simp_all add: build_student_prompt_def student_text build_pi_teacher_prompt_def pi_teacher_text)

lemma assert_no_pi_Inr:
  "assert_no_pi_in_student_prompt s tr = Inr u \<longleftrightarrow>
     \<not> contains ''<reference_solution>'' s \<and> \<not> contains ''</reference_solution>'' s
     \<and> (\<forall>t. tr = Some t \<longrightarrow> t \<noteq> [] \<longrightarrow> py_strip t \<noteq> [] \<longrightarrow> \<not> contains (py_strip t) s)"
  by (auto simp: assert_no_pi_in_student_prompt_def split: option.splits)

text \<open>A chat template that quotes each message's content verbatim somewhere in its output.\<close>

definition embeds_content :: "chat_template \<Rightarrow> bool" where
  "embeds_content apply \<longleftrightarrow>
     (\<forall>role content th p. apply [(role, content)] th = Inr p \<longrightarrow> contains content p)"

lemma render_embeds: "embeds_content apply \<Longrightarrow> render_chat apply t th = Inr p \<Longrightarrow> contains t p"
  unfolding render_chat_def Let_def embeds_content_def
  by (auto split: sum.splits pyerr.splits)

section \<open>Properties\<close>

text \<open>
  C9. the privileged trace reaches only the scorer's prompt. In a bundle the student prompt and
  the direct teacher prompt are those of the same call with any other trace, and with a chat
  template that quotes its messages the privileged prompt, built exactly when the trace is
  non-empty, quotes both the problem and the trace.
\<close>

theorem prompt_bundle_confines_trace:
  assumes "build_prompt_bundle apply problem tr sth tth = Inr b" and "embeds_content apply"
  shows "(\<forall>tr' b'. build_prompt_bundle apply problem tr' sth tth = Inr b' \<longrightarrow>
            pb_student_prompt b' = pb_student_prompt b
          \<and> pb_direct_opd_teacher_prompt b' = pb_direct_opd_teacher_prompt b)
    \<and> contains problem (pb_student_prompt b)
    \<and> (pb_pi_teacher_prompt b = None \<longleftrightarrow> tr = None \<or> tr = Some [])
    \<and> (\<forall>p. pb_pi_teacher_prompt b = Some p \<longrightarrow> contains problem p \<and> contains (the tr) p)"
proof -
  have q: "contains q (header_text @ problem @ pi_text q)" "contains problem (header_text @ problem @ pi_text q)"
    "contains problem (header_text @ problem)" for q
    unfolding contains_iff pi_text_def
    by (metis append.assoc append_Nil2)+
  from assms(1) have sp: "render_chat apply (header_text @ problem) (Some sth) = Inr (pb_student_prompt b)"
    and dp: "render_chat apply (header_text @ problem) (Some tth) = Inr (pb_direct_opd_teacher_prompt b)"
    by (auto simp: build_prompt_bundle_def build_direct_opd_teacher_prompt_def build_prompts_simps res_simps)
  have pi: "pb_pi_teacher_prompt b = None \<and> (tr = None \<or> tr = Some []) \<or>
      (\<exists>p. pb_pi_teacher_prompt b = Some p \<and> tr \<noteq> None \<and> tr \<noteq> Some []
         \<and> render_chat apply (header_text @ problem @ pi_text (the tr)) (Some tth) = Inr p)"
    using assms(1)
    by (auto simp: build_prompt_bundle_def build_direct_opd_teacher_prompt_def build_prompts_simps
        res_simps split: option.splits list.splits)
  show ?thesis
  proof (intro conjI allI impI)
    fix tr' b' assume "build_prompt_bundle apply problem tr' sth tth = Inr b'"
    then show "pb_student_prompt b' = pb_student_prompt b"
      "pb_direct_opd_teacher_prompt b' = pb_direct_opd_teacher_prompt b"
      using sp dp by (auto simp: build_prompt_bundle_def build_direct_opd_teacher_prompt_def
          build_prompts_simps res_simps)
  next
    show "contains problem (pb_student_prompt b)"
      using render_embeds[OF assms(2) sp] q(3) contains_trans by blast
  next
    show "pb_pi_teacher_prompt b = None \<longleftrightarrow> tr = None \<or> tr = Some []" using pi by auto
  next
    fix p assume "pb_pi_teacher_prompt b = Some p"
    with pi have "render_chat apply (header_text @ problem @ pi_text (the tr)) (Some tth) = Inr p" by auto
    from render_embeds[OF assms(2) this] q show "contains problem p" "contains (the tr) p"
      using contains_trans by blast+
  qed
qed

definition ex_template :: chat_template where
  "ex_template ms th = (case th of Some True \<Rightarrow> Inl (TypeError ''enable_thinking'')
     | _ \<Rightarrow> Inr (concat (map snd ms) @ ''#''))"

lemma ex_embeds: "embeds_content ex_template"
  by (auto simp: embeds_content_def ex_template_def contains_iff split: option.splits bool.splits)

theorem prompt_bundle_confines_trace_witness:
  "\<exists>b p. build_prompt_bundle ex_template ''1+1'' (Some ''it is 2'') False True = Inr b
     \<and> pb_pi_teacher_prompt b = Some p \<and> contains ''it is 2'' p"
proof -
  obtain b where b: "build_prompt_bundle ex_template ''1+1'' (Some ''it is 2'') False True = Inr b"
    by (simp add: build_prompt_bundle_def build_direct_opd_teacher_prompt_def build_prompts_simps
        render_chat_def ex_template_def)
  note th = prompt_bundle_confines_trace[OF b ex_embeds, THEN conjunct2, THEN conjunct2]
  have none: "pb_pi_teacher_prompt b \<noteq> None" using th[THEN conjunct1] by simp
  note all = th[THEN conjunct2]
  from none obtain p where p: "pb_pi_teacher_prompt b = Some p" by blast
  with all have "contains ''it is 2'' p" by (metis option.sel)
  with b p show ?thesis by blast
qed

text \<open>
  The leak check is exact. It accepts a prompt if and only if no reference tag occurs in it
  and, for a trace that is not blank, the trace without its surrounding white space does not occur
  in it either; so a prompt that quotes a problem which already contains the trace is refused.
\<close>

theorem leak_check_exact:
  assumes "embeds_content apply" and "build_student_prompt apply problem th = Inr sp"
    and "assert_no_pi_in_student_prompt sp (Some trace) = Inr ()" and "py_strip trace \<noteq> []"
  shows "(\<nexists>a b. sp = a @ py_strip trace @ b) \<and> (\<nexists>a b. sp = a @ ''<reference_solution>'' @ b)
     \<and> (\<nexists>a b. problem = a @ py_strip trace @ b)"
proof -
  have "trace \<noteq> []" using assms(4) by (auto simp: py_strip_def lstrip_def)
  then have n: "\<not> contains (py_strip trace) sp" "\<not> contains ''<reference_solution>'' sp"
    using assms(3,4) by (auto simp: assert_no_pi_Inr)
  have "contains (header_text @ problem) sp"
    using render_embeds[OF assms(1)] assms(2) by (simp add: build_prompts_simps)
  moreover have "contains problem (header_text @ problem)"
    unfolding contains_iff by (metis append_Nil2)
  ultimately have "\<not> contains (py_strip trace) problem" using n contains_trans by blast
  with n show ?thesis by (simp add: contains_iff)
qed

theorem leak_check_exact_example:
  "\<exists>sp. build_student_prompt ex_template ''1+1'' False = Inr sp
     \<and> assert_no_pi_in_student_prompt sp (Some ''it is 2 '') = Inr () \<and> (\<nexists>a b. sp = a @ ''it is 2'' @ b)"
proof -
  obtain sp where sp: "build_student_prompt ex_template ''1+1'' False = Inr sp" "sp = header_text @ ''1+1#''"
    by (simp add: build_prompts_simps render_chat_def ex_template_def)
  have st: "py_strip ''it is 2 '' = ''it is 2''"
    by (simp add: py_strip_def lstrip_def is_space_def in_range_def)
  have ok: "assert_no_pi_in_student_prompt sp (Some ''it is 2 '') = Inr ()"
    unfolding assert_no_pi_Inr sp(2)
    by (simp add: st) (simp add: header_text_def nl_def backslash_def starts_with_def)
  from leak_check_exact[OF ex_embeds sp(1) ok] st sp(1) ok show ?thesis by auto
qed

end
