(* ===== verification/Scorer.thy ===== *)
theory Scorer
  imports Prelude
begin

text \<open>
  \<open>verl/trainer/extpi_rlsd/scorer.py\<close>: exact-token teacher scoring. The left-padding check, the
  assembly of prefix and response into causal inputs, the gathering of response log
  probabilities, the tokenizer compatibility check, and the scorer object with the two pieces of
  model state it touches (training mode, adapters). The forward pass of the model, the tokenizers
  and the hash are parameters.
\<close>

section \<open>Left-padded prefixes\<close>

definition to_bool :: "int \<Rightarrow> bool" where
  "to_bool k \<longleftrightarrow> k \<noteq> 0"

definition count_true :: "bool list \<Rightarrow> nat" where
  "count_true r = length (filter id r)"

text \<open>The row that the check expects for \<open>n\<close> real tokens: \<open>col_idx >= width - n\<close>.\<close>

definition expected_row :: "nat \<Rightarrow> nat \<Rightarrow> bool list" where
  "expected_row w n = map (\<lambda>col. int w - int n \<le> int col) [0..<w]"

definition assert_left_padded_prefix_mask :: "int tensor2 \<Rightarrow> unit res" where
  "assert_left_padded_prefix_mask prefix_attention_mask =
     (let rows = map (map to_bool) (trows prefix_attention_mask);
          width = tcols prefix_attention_mask
      in if \<exists>r \<in> set rows. count_true r = 0
         then Inl (ValueError ''Teacher scorer found an empty prompt prefix'')
         else if width = 0 then Inl IndexError
         else if \<not> (\<forall>r \<in> set rows. last r)
         then Inl (ValueError ''Teacher scorer requires left-padded prompt prefixes'')
         else if map (\<lambda>r. expected_row width (count_true r)) rows \<noteq> rows
         then Inl (ValueError ''Teacher scorer requires contiguous left-padded prompt prefixes'')
         else Inr ())"

section \<open>Causal scoring inputs\<close>

record causal_inputs =
  ci_input_ids :: "int tensor2"
  ci_attention_mask :: "bool tensor2"
  ci_position_ids :: "int tensor2"
  ci_response_ids :: "int tensor2"
  ci_response_mask :: "bool tensor2"
  ci_response_logit_positions :: "int tensor2"

definition b2i :: "bool \<Rightarrow> int" where
  "b2i b = (if b then 1 else 0)"

definition position_row :: "bool list \<Rightarrow> int list" where
  "position_row am = map (\<lambda>x. max 0 (x - 1)) (cumsum 0 (map b2i am))"

definition build_causal_score_inputs ::
  "int tensor2 \<Rightarrow> int tensor2 \<Rightarrow> int tensor2 \<Rightarrow> int tensor2 \<Rightarrow> int \<Rightarrow> causal_inputs res" where
  "build_causal_score_inputs prefix_ids prefix_mask response_ids response_mask pad_token_id =
     (if tshape prefix_ids \<noteq> tshape prefix_mask
      then Inl (ValueError ''prefix_input_ids and prefix_attention_mask shapes differ'')
      else if tshape response_ids \<noteq> tshape response_mask
      then Inl (ValueError ''response_ids and response_mask shapes differ'')
      else if length (trows prefix_ids) \<noteq> length (trows response_ids)
      then Inl (ValueError ''prefix and response batch sizes differ'')
      else bind_res (assert_left_padded_prefix_mask prefix_mask) (\<lambda>_.
        let rmask = map_tensor2 to_bool response_mask;
            ids_for_input = tmap2 (\<lambda>m i. if m then i else pad_token_id) rmask response_ids;
            full_ids = tcat1 prefix_ids ids_for_input;
            full_mask = tcat1 (map_tensor2 to_bool prefix_mask) rmask;
            position_ids = Tensor2 (tcols full_mask) (map position_row (trows full_mask));
            prefix_width = int (tcols prefix_ids);
            response_len = tcols response_ids;
            positions = map (\<lambda>k. prefix_width - 1 + int k) [0..<response_len]
        in Inr \<lparr>ci_input_ids = full_ids, ci_attention_mask = full_mask,
                ci_position_ids = position_ids, ci_response_ids = response_ids,
                ci_response_mask = rmask,
                ci_response_logit_positions =
                  Tensor2 response_len (replicate (length (trows response_ids)) positions)\<rparr>))"

section \<open>Gathering response log probabilities\<close>

text \<open>Logits are batch, sequence, vocabulary. Indexing with a tensor wraps negative indices once.\<close>

type_synonym logits = "real list list list"

definition tidx :: "'a list \<Rightarrow> int \<Rightarrow> 'a res" where
  "tidx xs i =
     (let n = int (length xs); j = (if i < 0 then n + i else i)
      in if 0 \<le> j \<and> j < n then Inr (xs ! nat j) else Inl IndexError)"

definition log_softmax :: "real list \<Rightarrow> real list" where
  "log_softmax xs = map (\<lambda>x. x - ln (sum_list (map exp xs))) xs"

definition gather_token :: "real list list \<Rightarrow> real \<Rightarrow> int \<Rightarrow> int \<Rightarrow> real res" where
  "gather_token seq temperature pos tok =
     bind_res (tidx seq pos) (\<lambda>row.
       if 0 \<le> tok \<and> tok < int (length row)
       then Inr (log_softmax (map (\<lambda>x. x / temperature) row) ! nat tok)
       else Inl (RuntimeError ''index out of bounds''))"

definition gather_response_log_probs ::
  "logits \<Rightarrow> int tensor2 \<Rightarrow> int tensor2 \<Rightarrow> real \<Rightarrow> real tensor2 res" where
  "gather_response_log_probs logits response_ids positions temperature =
     (if temperature \<le> 0 then Inl (ValueError ''temperature must be positive'')
      else if tshape response_ids \<noteq> tshape positions
      then Inl (ValueError ''response_ids and response_logit_positions shapes differ'')
      else
        let l = length logits; b = length (trows positions)
        in if \<not> (l = b \<or> l = 1 \<or> b = 1) then Inl IndexError
           else bind_res
             (map_res
               (\<lambda>(row, ids, ps).
                  map_res (\<lambda>(p, tok).
                      bind_res (tidx logits (if l = 1 \<or> b = 1 then 0 else row))
                        (\<lambda>seq. gather_token seq temperature p tok))
                    (zip ps ids))
               (zip (map int [0..<b]) (zip (trows response_ids) (trows positions))))
             (\<lambda>rows. Inr (Tensor2 (tcols response_ids) rows)))"

section \<open>Tokenizer compatibility\<close>

text \<open>
  What the check reads of a tokenizer. A missing attribute is \<open>None\<close> (\<open>get_vocab\<close>,
  \<open>chat_template\<close>, \<open>vocab_size\<close>).
\<close>

record tokenizer_info =
  tk_vocab_size :: "int option"
  tk_bos :: "int option"
  tk_eos :: "int option"
  tk_pad :: "int option"
  tk_special_tokens_map :: "string \<Rightarrow> string option"
  tk_chat_template :: "string option"
  tk_get_vocab :: "(string \<Rightarrow> int option) option"
  tk_encode :: "string \<Rightarrow> int list"

definition hash_text :: "(string \<Rightarrow> string) \<Rightarrow> string option \<Rightarrow> string option" where
  "hash_text sha256 v = map_option sha256 v"

definition default_sample_strings :: "string list" where
  "default_sample_strings =
     [''x'', [CHR 0x5C] @ ''boxed{1}'', ''Solve the problem.'', ''<|im_start|>user'']"

fun first_encode_mismatch :: "tokenizer_info \<Rightarrow> tokenizer_info \<Rightarrow> string list \<Rightarrow> string list" where
  "first_encode_mismatch st te [] = []"
| "first_encode_mismatch st te (x # xs) =
     (if tk_encode st x \<noteq> tk_encode te x then [''token_mapping:'' @ x]
      else first_encode_mismatch st te xs)"

definition tokenizer_failures ::
  "(string \<Rightarrow> string) \<Rightarrow> tokenizer_info \<Rightarrow> tokenizer_info \<Rightarrow> string list option \<Rightarrow> string list" where
  "tokenizer_failures sha256 st te sample_strings =
     (let checks =
        [(''vocab_size'', tk_vocab_size st = tk_vocab_size te),
         (''bos_token_id'', tk_bos st = tk_bos te),
         (''eos_token_id'', tk_eos st = tk_eos te),
         (''pad_token_id'', tk_pad st = tk_pad te),
         (''special_tokens_map'', tk_special_tokens_map st = tk_special_tokens_map te),
         (''chat_template_hash'',
            hash_text sha256 (tk_chat_template st) = hash_text sha256 (tk_chat_template te))];
        vocab = (case (tk_get_vocab st, tk_get_vocab te) of
                   (Some v, Some w) \<Rightarrow> (if v \<noteq> w then [''full_vocab_mapping''] else [])
                 | _ \<Rightarrow> []);
        samples = (case sample_strings of
                     Some (x # xs) \<Rightarrow> x # xs | _ \<Rightarrow> default_sample_strings)
      in map fst (filter (\<lambda>(_, same). \<not> same) checks) @ vocab @ first_encode_mismatch st te samples)"

definition join_with :: "string \<Rightarrow> string list \<Rightarrow> string" where
  "join_with sep xs = (case xs of [] \<Rightarrow> [] | y # ys \<Rightarrow> y @ concat (map (\<lambda>z. sep @ z) ys))"

definition assert_tokenizer_compatible ::
  "(string \<Rightarrow> string) \<Rightarrow> tokenizer_info \<Rightarrow> tokenizer_info \<Rightarrow> string list option \<Rightarrow> unit res" where
  "assert_tokenizer_compatible sha256 st te sample_strings =
     (let failures = tokenizer_failures sha256 st te sample_strings
      in if failures \<noteq> []
         then Inl (ValueError (''Teacher tokenizer is not exact-token compatible: ''
                     @ join_with '', '' failures))
         else Inr ())"

section \<open>The scorer and the model state it touches\<close>

text \<open>
  The adapter interface a model exposes: PEFT's context manager, a pair of switches, or none.
\<close>

datatype adapter_api = ContextApi | SwitchApi | NoAdapterApi

record model_state =
  ms_training :: bool
  ms_adapters_on :: bool

definition peft_adapter_disabled ::
  "adapter_api \<Rightarrow> (model_state \<Rightarrow> 'r res \<times> model_state) \<Rightarrow> model_state \<Rightarrow> 'r res \<times> model_state" where
  "peft_adapter_disabled api body st =
     (case api of
        ContextApi \<Rightarrow>
          (let (r, st') = body (st\<lparr>ms_adapters_on := False\<rparr>)
           in (r, st'\<lparr>ms_adapters_on := ms_adapters_on st\<rparr>))
      | SwitchApi \<Rightarrow>
          (let (r, st') = body (st\<lparr>ms_adapters_on := False\<rparr>)
           in (r, st'\<lparr>ms_adapters_on := True\<rparr>))
      | NoAdapterApi \<Rightarrow> body st)"

record TeacherScoreRequest =
  rq_prompt_input_ids :: "int tensor2"
  rq_prompt_attention_mask :: "int tensor2"
  rq_response_ids :: "int tensor2"
  rq_response_mask :: "int tensor2"
  rq_temperature :: real

record TeacherScoreOutput =
  so_response_log_probs :: "real tensor2"
  so_response_mask :: "bool tensor2"
  so_tokens_scored :: nat

text \<open>
  A scorer: the model's forward pass (which sees whether it is in training mode and whether the
  adapters are on, and may raise), its adapter interface, the tokenizer's pad token and whether
  adapters are to be disabled.
\<close>

record teacher_scorer =
  sc_forward :: "model_state \<Rightarrow> causal_inputs \<Rightarrow> logits res"
  sc_api :: adapter_api
  sc_pad_token_id :: "int option"
  sc_disable_adapter :: bool

definition score_body ::
  "teacher_scorer \<Rightarrow> causal_inputs \<Rightarrow> real \<Rightarrow> model_state \<Rightarrow> real tensor2 res \<times> model_state" where
  "score_body sc tensors temperature st =
     (bind_res (sc_forward sc st tensors) (\<lambda>logits.
        gather_response_log_probs logits (ci_response_ids tensors)
          (ci_response_logit_positions tensors) temperature), st)"

definition score ::
  "teacher_scorer \<Rightarrow> TeacherScoreRequest \<Rightarrow> model_state \<Rightarrow> TeacherScoreOutput res \<times> model_state" where
  "score sc rq st =
     (case build_causal_score_inputs (rq_prompt_input_ids rq) (rq_prompt_attention_mask rq)
             (rq_response_ids rq) (rq_response_mask rq)
             (case sc_pad_token_id sc of None \<Rightarrow> 0 | Some p \<Rightarrow> p) of
        Inl e \<Rightarrow> (Inl e, st)
      | Inr tensors \<Rightarrow>
          let was_training = ms_training st;
              st1 = st\<lparr>ms_training := False\<rparr>;
              body = score_body sc tensors (rq_temperature rq);
              (r, st2) = (if sc_disable_adapter sc then peft_adapter_disabled (sc_api sc) body st1
                          else body st1)
          in (case r of
                Inl e \<Rightarrow> (Inl e, st2)
              | Inr lp \<Rightarrow>
                  (Inr \<lparr>so_response_log_probs = lp, so_response_mask = ci_response_mask tensors,
                        so_tokens_scored = count_true (tflat (ci_response_mask tensors))\<rparr>,
                   if was_training then st2\<lparr>ms_training := True\<rparr> else st2)))"

section \<open>Lemmas\<close>

definition left_padded :: "nat \<Rightarrow> bool list \<Rightarrow> bool" where
  "left_padded w r \<longleftrightarrow> (\<exists>n. 0 < n \<and> n \<le> w \<and> r = replicate (w - n) False @ replicate n True)"

lemma count_true_simps [simp]:
  "count_true [] = 0" "count_true (x # xs) = (if x then Suc (count_true xs) else count_true xs)"
  "count_true (xs @ ys) = count_true xs + count_true ys"
  "count_true (replicate n True) = n" "count_true (replicate n False) = 0"
  by (simp_all add: count_true_def)

lemma count_true_le: "count_true r \<le> length r"
  by (simp add: count_true_def)

lemma sum_b2i: "sum_list (map b2i r) = int (count_true r)"
  by (induction r) (auto simp: b2i_def)

lemma expected_row_split: "n \<le> w \<Longrightarrow> expected_row w n = replicate (w - n) False @ replicate n True"
  by (rule nth_equalityI) (auto simp: expected_row_def nth_append)

lemma left_padded_iff:
  assumes "length r = w"
  shows "left_padded w r \<longleftrightarrow> count_true r \<noteq> 0 \<and> expected_row w (count_true r) = r"
proof
  assume "left_padded w r"
  then show "count_true r \<noteq> 0 \<and> expected_row w (count_true r) = r"
    by (auto simp: left_padded_def expected_row_split)
next
  assume r: "count_true r \<noteq> 0 \<and> expected_row w (count_true r) = r"
  have "count_true r \<le> w" using assms count_true_le by blast
  with r show "left_padded w r"
    by (auto simp: left_padded_def expected_row_split[OF \<open>count_true r \<le> w\<close>] intro!: exI[of _ "count_true r"])
qed

lemma left_padded_last: "left_padded w r \<Longrightarrow> last r \<and> r \<noteq> []"
  by (auto simp: left_padded_def)

lemma assert_left_padded_iff:
  assumes "twf m"
  shows "assert_left_padded_prefix_mask m = Inr u \<longleftrightarrow>
    0 < tcols m \<and> (\<forall>r \<in> set (trows m). left_padded (tcols m) (map to_bool r))"
proof -
  let ?R = "map (map to_bool) (trows m)"
  have len: "r \<in> set ?R \<Longrightarrow> length r = tcols m" for r
    using twf_rowD[OF assms] by auto
  have eq: "map (\<lambda>r. expected_row (tcols m) (count_true r)) ?R = ?R \<longleftrightarrow>
      (\<forall>r \<in> set ?R. expected_row (tcols m) (count_true r) = r)"
    by (rule map_fix_iff)
  have "assert_left_padded_prefix_mask m = Inr u \<longleftrightarrow>
      (\<forall>r \<in> set ?R. count_true r \<noteq> 0 \<and> last r \<and> expected_row (tcols m) (count_true r) = r) \<and> tcols m \<noteq> 0"
    unfolding assert_left_padded_prefix_mask_def Let_def eq by auto
  also have "\<dots> \<longleftrightarrow> (\<forall>r \<in> set ?R. left_padded (tcols m) r) \<and> tcols m \<noteq> 0"
    using len left_padded_iff left_padded_last by blast
  finally show ?thesis by auto
qed

lemma length_position_row [simp]: "length (position_row am) = length am"
  by (simp add: position_row_def)

lemma position_row_nth:
  assumes "j < length am"
  shows "position_row am ! j = (if count_true (take (Suc j) am) = 0 then 0
     else int (count_true (take (Suc j) am)) - 1)"
  using assms by (simp add: position_row_def nth_cumsum take_map sum_b2i del: take_Suc)

lemma position_row_attended:
  assumes "j < length am" "am ! j"
  shows "position_row am ! j = int (count_true (take j am))"
  using assms by (simp add: position_row_nth take_Suc_conv_app_nth)

lemma build_causal_Inr:
  assumes wf: "twf pri" "twf pm" "twf ri" "twf rm"
    and ok: "build_causal_score_inputs pri pm ri rm pad = Inr ci"
  shows "tshape pri = tshape pm \<and> tshape ri = tshape rm \<and> length (trows pri) = length (trows ri)
     \<and> assert_left_padded_prefix_mask pm = Inr ()
     \<and> ci_response_ids ci = ri \<and> ci_response_mask ci = map_tensor2 to_bool rm
     \<and> ci_input_ids ci = tcat1 pri (tmap2 (\<lambda>m i. if m then i else pad) (map_tensor2 to_bool rm) ri)
     \<and> ci_attention_mask ci = tcat1 (map_tensor2 to_bool pm) (map_tensor2 to_bool rm)
     \<and> ci_position_ids ci = Tensor2 (tcols pri + tcols ri) (map position_row (trows (ci_attention_mask ci)))
     \<and> ci_response_logit_positions ci = Tensor2 (tcols ri)
         (replicate (length (trows ri)) (map (\<lambda>k. int (tcols pri) - 1 + int k) [0..<tcols ri]))"
  using ok unfolding build_causal_score_inputs_def Let_def
  by (auto simp: res_simps tcat1_def tshape_def split: if_splits)

lemma tidx_Inr_nat: "tidx xs (int k) = Inr x \<longleftrightarrow> k < length xs \<and> x = xs ! k"
  by (auto simp: tidx_def Let_def)

lemma gather_shape: "gather_response_log_probs lg ri ps T = Inr lp \<Longrightarrow> tshape lp = tshape ri"
  unfolding gather_response_log_probs_def Let_def
  by (auto simp: res_simps tshape_def dest!: map_res_length split: if_splits)

lemma gather_entry:
  assumes ok: "gather_response_log_probs lg ri ps T = Inr lp" and wf: "twf ri" "twf ps"
    and ij: "tin ri i j"
  shows "0 < T \<and> tshape lp = tshape ri \<and>
    (\<exists>row. tidx (lg ! (if length lg = 1 then 0 else i)) (tnth ps i j) = Inr row
       \<and> 0 \<le> tnth ri i j \<and> tnth ri i j < int (length row)
       \<and> tnth lp i j = log_softmax (map (\<lambda>x. x / T) row) ! nat (tnth ri i j))"
proof -
  let ?l = "length lg" and ?b = "length (trows ps)"
  let ?f = "\<lambda>row. \<lambda>(p, tok). bind_res (tidx lg (if ?l = 1 \<or> ?b = 1 then 0 else row))
              (\<lambda>seq. gather_token seq T p tok)"
  from ok obtain rows where T: "0 < T" and sh: "tshape ri = tshape ps" and lb: "?l = ?b \<or> ?l = 1 \<or> ?b = 1"
    and rows: "map_res (\<lambda>(row, ids, ps). map_res (?f row) (zip ps ids))
        (zip (map int [0..<?b]) (zip (trows ri) (trows ps))) = Inr rows"
    and lp: "lp = Tensor2 (tcols ri) rows"
    by (auto simp: gather_response_log_probs_def Let_def res_simps split: if_splits)
  have bl: "length (trows ri) = ?b" "tcols ri = tcols ps" using sh by (simp_all add: tshape_def)
  have i: "i < ?b" "j < tcols ps" using ij bl by (auto simp: tin_def)
  have len: "length rows = ?b" using map_res_length[OF rows] bl by simp
  have ri: "map_res (?f (int i)) (zip (trows ps ! i) (trows ri ! i)) = Inr (rows ! i)"
    using map_res_nth[OF rows, of i] i bl by simp
  have "?f (int i) (tnth ps i j, tnth ri i j) = Inr (rows ! i ! j)"
    using map_res_nth[OF ri, of j] i bl wf by (simp add: twf_row tnth_def)
  then obtain seq where seq: "tidx lg (int (if ?l = 1 \<or> ?b = 1 then 0 else i)) = Inr seq"
    and g: "gather_token seq T (tnth ps i j) (tnth ri i j) = Inr (rows ! i ! j)"
    by (auto simp: res_simps split: if_splits)
  have "seq = lg ! (if ?l = 1 then 0 else i)"
    using seq i unfolding tidx_Inr_nat by (auto split: if_splits)
  with g T lp len bl show ?thesis
    by (auto simp: gather_token_def res_simps tnth_def tshape_def split: if_splits)
qed

text \<open>The state in which the model is run, and what is left of the state afterwards.\<close>

definition run_state :: "teacher_scorer \<Rightarrow> model_state \<Rightarrow> model_state" where
  "run_state sc st =
     (let st1 = st\<lparr>ms_training := False\<rparr>
      in if sc_disable_adapter sc \<and> sc_api sc \<noteq> NoAdapterApi then st1\<lparr>ms_adapters_on := False\<rparr> else st1)"

lemma score_Inr:
  assumes "score sc rq st = (Inr out, st')"
  obtains ci lg where
    "build_causal_score_inputs (rq_prompt_input_ids rq) (rq_prompt_attention_mask rq)
       (rq_response_ids rq) (rq_response_mask rq)
       (case sc_pad_token_id sc of None \<Rightarrow> 0 | Some p \<Rightarrow> p) = Inr ci"
    "sc_forward sc (run_state sc st) ci = Inr lg"
    "gather_response_log_probs lg (ci_response_ids ci) (ci_response_logit_positions ci) (rq_temperature rq)
       = Inr (so_response_log_probs out)"
    "so_response_mask out = ci_response_mask ci"
    "ms_training st' = ms_training st"
    "ms_adapters_on st' = (if sc_disable_adapter sc \<and> sc_api sc = SwitchApi then True else ms_adapters_on st)"
  using assms unfolding score_def
  by (auto simp: score_body_def peft_adapter_disabled_def run_state_def Let_def res_simps
      split: sum.splits if_splits adapter_api.splits)

section \<open>Properties\<close>

text \<open>
  The prefix check accepts exactly the masks in which every row is padding followed by at
  least one real token, the last column included.
\<close>

theorem left_padded_check_exact:
  assumes "twf m"
  shows "assert_left_padded_prefix_mask m = Inr () \<longleftrightarrow>
    0 < tcols m \<and> (\<forall>r \<in> set (trows m). \<exists>n. 0 < n \<and> n \<le> tcols m
       \<and> map to_bool r = replicate (tcols m - n) False @ replicate n True)"
  using assert_left_padded_iff[OF assms] by (simp add: left_padded_def)

theorem left_padded_check_example:
  "assert_left_padded_prefix_mask (Tensor2 3 [[0, 1, 1], [1, 1, 1]]) = Inr ()
   \<and> assert_left_padded_prefix_mask (Tensor2 3 [[1, 0, 1]]) \<noteq> Inr ()"
proof -
  have "\<not> (\<exists>n. 0 < n \<and> n \<le> 3 \<and> [True, False, True] = replicate (3 - n) False @ replicate n True)"
  proof
    assume "\<exists>n. 0 < n \<and> n \<le> 3 \<and> [True, False, True] = replicate (3 - n) False @ replicate n True"
    then obtain n :: nat where "0 < n" "n \<le> 3" "[True, False, True] = replicate (3 - n) False @ replicate n True"
      by blast
    moreover then have "n = 1 \<or> n = 2 \<or> n = 3" by linarith
    ultimately show False by (auto simp: numeral_eq_Suc)
  qed
  moreover have "\<exists>n. 0 < n \<and> n \<le> 3 \<and> [False, True, True] = replicate (3 - n) False @ replicate n True"
    by (rule exI[of _ 2]) (simp add: numeral_eq_Suc)
  moreover have "\<exists>n. 0 < n \<and> n \<le> 3 \<and> [True, True, True] = replicate (3 - n) False @ replicate n True"
    by (rule exI[of _ 3]) (simp add: numeral_eq_Suc)
  ultimately show ?thesis
    using left_padded_check_exact[of "Tensor2 3 [[0, 1, 1], [1, 1, 1]]"]
      left_padded_check_exact[of "Tensor2 3 [[1, 0, 1]]"]
    by (simp add: twf_def to_bool_def)
qed

text \<open>
  The causal inputs append the original response ids to the prefix without changing a valid
  one, every attended token gets the number of attended tokens before it as position, and the
  logits read for response token \<open>t\<close> are those of the token just before it.
\<close>

theorem causal_inputs_exact:
  assumes wf: "twf pri" "twf pm" "twf ri" "twf rm"
    and ok: "build_causal_score_inputs pri pm ri rm pad = Inr ci"
    and i: "i < length (trows ri)"
  shows "take (tcols pri) (trows (ci_input_ids ci) ! i) = trows pri ! i
    \<and> (\<forall>k < tcols ri. trows (ci_input_ids ci) ! i ! (tcols pri + k) =
          (if tnth rm i k \<noteq> 0 then tnth ri i k else pad)
        \<and> tnth (ci_response_logit_positions ci) i k = int (tcols pri + k) - 1)
    \<and> (\<forall>p < tcols pri + tcols ri. tnth (ci_attention_mask ci) i p \<longrightarrow>
          tnth (ci_position_ids ci) i p = int (count_true (take p (trows (ci_attention_mask ci) ! i))))"
proof -
  note b = build_causal_Inr[OF wf ok]
  let ?r = "tmap2 (\<lambda>m i. if m then i else pad) (map_tensor2 to_bool rm) ri"
  have sh: "tshape ri = tshape rm" "length (trows pri) = length (trows ri)" "tshape pri = tshape pm"
    using b by simp_all
  have lens: "i < length (trows pri)" "i < length (trows rm)" "i < length (trows pm)" "tcols rm = tcols ri"
    "tcols pm = tcols pri"
    using sh i by (simp_all add: tshape_def)
  have lr: "length (trows ?r) = length (trows ri)" using sh by (simp add: tmap2_def tshape_def)
  have rk: "trows ?r ! i ! k = (if tnth rm i k \<noteq> 0 then tnth ri i k else pad)" if "k < tcols ri" for k
    using tnth_tmap2[of "map_tensor2 to_bool rm" ri i k "\<lambda>m i. if m then i else pad"] that i sh wf lens
    by (simp add: tnth_def tin_def to_bool_def twf_row)
  have row: "trows (ci_input_ids ci) ! i = trows pri ! i @ trows ?r ! i"
    using b lr i sh by (simp add: trows_tcat1)
  have am: "trows (ci_attention_mask ci) ! i = map to_bool (trows pm ! i) @ map to_bool (trows rm ! i)"
    "length (trows (ci_attention_mask ci)) = length (trows rm)"
    using b lens sh by (simp_all add: tcat1_def tshape_def)
  have lam: "length (trows (ci_attention_mask ci) ! i) = tcols pri + tcols ri"
    using am wf lens by (simp add: twf_row)
  show ?thesis
    using row rk wf lens i b am lam by (auto simp: twf_row nth_append tnth_def position_row_attended)
qed

theorem causal_inputs_exact_example:
  "\<exists>ci. build_causal_score_inputs (Tensor2 2 [[9, 7]]) (Tensor2 2 [[0, 1]]) (Tensor2 2 [[5, 6]]) (Tensor2 2 [[1, 0]]) 0
      = Inr ci \<and> trows (ci_input_ids ci) ! 0 ! 2 = 5 \<and> trows (ci_input_ids ci) ! 0 ! 3 = 0
      \<and> tnth (ci_response_logit_positions ci) 0 1 = 2"
proof -
  obtain ci where ok: "build_causal_score_inputs (Tensor2 2 [[9, 7]]) (Tensor2 2 [[0, 1]])
      (Tensor2 2 [[5, 6]]) (Tensor2 2 [[1, 0]]) 0 = Inr ci"
    by (simp add: build_causal_score_inputs_def assert_left_padded_prefix_mask_def Let_def tshape_def
        to_bool_def expected_row_def upt_rec)
  have "twf (Tensor2 2 [[9, 7 :: int]])" "twf (Tensor2 2 [[0, 1 :: int]])"
    "twf (Tensor2 2 [[5, 6 :: int]])" "twf (Tensor2 2 [[1, 0 :: int]])" by (simp_all add: twf_def)
  from causal_inputs_exact[OF this ok, of 0] have
    all: "\<forall>k < 2. trows (ci_input_ids ci) ! 0 ! (2 + k) = (if [1, 0 :: int] ! k \<noteq> 0 then [5, 6] ! k else 0)
       \<and> tnth (ci_response_logit_positions ci) 0 k = int (2 + k) - 1"
    by (simp add: tnth_def)
  from all[rule_format, of 0] all[rule_format, of 1] ok show ?thesis
    by (auto simp: numeral_eq_Suc)
qed

text \<open>
  C7. a successful call of the scorer returns, for every response token, the log-softmax at the
  request's temperature of the logits the model gives at the position before that token, taken at
  the token's id. The model is run out of training mode and, when the scorer disables adapters and
  the model has an interface for it, with its adapters off.
\<close>

theorem score_exact:
  assumes wf: "twf (rq_prompt_input_ids rq)" "twf (rq_prompt_attention_mask rq)"
      "twf (rq_response_ids rq)" "twf (rq_response_mask rq)"
    and ok: "score sc rq st = (Inr out, st')"
  shows "\<exists>ci lg stm. build_causal_score_inputs (rq_prompt_input_ids rq) (rq_prompt_attention_mask rq)
         (rq_response_ids rq) (rq_response_mask rq)
         (case sc_pad_token_id sc of None \<Rightarrow> 0 | Some p \<Rightarrow> p) = Inr ci
     \<and> sc_forward sc stm ci = Inr lg \<and> \<not> ms_training stm
     \<and> (sc_disable_adapter sc \<and> sc_api sc \<noteq> NoAdapterApi \<longrightarrow> \<not> ms_adapters_on stm)
     \<and> tshape (so_response_log_probs out) = tshape (rq_response_ids rq)
     \<and> (\<forall>i t. tin (rq_response_ids rq) i t \<longrightarrow>
          tnth (so_response_log_probs out) i t =
            log_softmax (map (\<lambda>x. x / rq_temperature rq)
              (lg ! (if length lg = 1 then 0 else i) ! (tcols (rq_prompt_input_ids rq) + t - 1)))
              ! nat (tnth (rq_response_ids rq) i t))"
proof -
  let ?w = "tcols (rq_prompt_input_ids rq)"
  from ok obtain ci lg where
    ci: "build_causal_score_inputs (rq_prompt_input_ids rq) (rq_prompt_attention_mask rq)
       (rq_response_ids rq) (rq_response_mask rq) (case sc_pad_token_id sc of None \<Rightarrow> 0 | Some p \<Rightarrow> p) = Inr ci"
    and fwd: "sc_forward sc (run_state sc st) ci = Inr lg"
    and g: "gather_response_log_probs lg (ci_response_ids ci) (ci_response_logit_positions ci)
       (rq_temperature rq) = Inr (so_response_log_probs out)"
    by (rule score_Inr)
  note b = build_causal_Inr[OF wf ci]
  have w: "0 < ?w"
    using b assert_left_padded_iff[OF wf(2)] by (auto simp: tshape_def)
  have rid: "ci_response_ids ci = rq_response_ids rq" using b by simp
  have wps: "twf (ci_response_logit_positions ci)"
    using b by (auto simp: twf_def list_all_iff)
  have pos: "tnth (ci_response_logit_positions ci) i t = int (?w + t - 1)" if "tin (rq_response_ids rq) i t" for i t
    using that b w by (simp add: tnth_def tin_def)
  have sh: "tshape (so_response_log_probs out) = tshape (rq_response_ids rq)"
    using gather_shape[OF g] rid by simp
  have "tnth (so_response_log_probs out) i t =
      log_softmax (map (\<lambda>x. x / rq_temperature rq) (lg ! (if length lg = 1 then 0 else i) ! (?w + t - 1)))
        ! nat (tnth (rq_response_ids rq) i t)" if "tin (rq_response_ids rq) i t" for i t
    using gather_entry[OF g _ wps, of i t] that wf(3) unfolding rid pos[OF that] tidx_Inr_nat by blast
  moreover have "\<not> ms_training (run_state sc st)"
    "sc_disable_adapter sc \<and> sc_api sc \<noteq> NoAdapterApi \<longrightarrow> \<not> ms_adapters_on (run_state sc st)"
    by (simp_all add: run_state_def Let_def)
  ultimately show ?thesis using ci fwd sh by blast
qed

text \<open>A scorer for examples: a model whose logits are all zero over a vocabulary of two.\<close>

definition ex_scorer :: teacher_scorer where
  "ex_scorer = \<lparr>sc_forward = (\<lambda>_ ci. Inr (map (map (\<lambda>_. [0, 0])) (trows (ci_input_ids ci)))),
     sc_api = ContextApi, sc_pad_token_id = None, sc_disable_adapter = True\<rparr>"

definition ex_request :: TeacherScoreRequest where
  "ex_request = \<lparr>rq_prompt_input_ids = Tensor2 1 [[1]], rq_prompt_attention_mask = Tensor2 1 [[1]],
     rq_response_ids = Tensor2 1 [[1]], rq_response_mask = Tensor2 1 [[1]], rq_temperature = 1\<rparr>"

definition ex_state :: model_state where
  "ex_state = \<lparr>ms_training = True, ms_adapters_on = True\<rparr>"

lemmas ex_score_defs = ex_scorer_def ex_request_def ex_state_def build_causal_score_inputs_def
  assert_left_padded_prefix_mask_def expected_row_def to_bool_def tshape_def tmap2_def tcat1_def

lemma ex_score: "\<exists>out st'. score ex_scorer ex_request ex_state = (Inr out, st')"
  by (simp add: score_def ex_score_defs Let_def peft_adapter_disabled_def score_body_def
      gather_response_log_probs_def gather_token_def tidx_def split: prod.split sum.split)

theorem score_exact_witness:
  "\<exists>out st'. score ex_scorer ex_request ex_state = (Inr out, st')
     \<and> tnth (so_response_log_probs out) 0 0 = - ln 2"
proof -
  obtain out st' where ok: "score ex_scorer ex_request ex_state = (Inr out, st')"
    using ex_score by blast
  have wf: "twf (rq_prompt_input_ids ex_request)" "twf (rq_prompt_attention_mask ex_request)"
    "twf (rq_response_ids ex_request)" "twf (rq_response_mask ex_request)"
    and in0: "tin (rq_response_ids ex_request) 0 0"
    by (simp_all add: ex_request_def twf_def tin_def)
  from score_exact[OF wf ok] in0 obtain ci lg stm where
    ci: "build_causal_score_inputs (Tensor2 1 [[1]]) (Tensor2 1 [[1]]) (Tensor2 1 [[1]]) (Tensor2 1 [[1]]) 0 = Inr ci"
    and lg: "sc_forward ex_scorer stm ci = Inr lg"
    and e: "tnth (so_response_log_probs out) 0 0 =
        log_softmax (map (\<lambda>x. x / 1) (lg ! (if length lg = 1 then 0 else 0) ! (1 + 0 - 1))) ! nat 1"
    by (fastforce simp: ex_request_def ex_scorer_def tnth_def)
  from ci lg have "lg = [[[0, 0], [0, 0]]]" by (auto simp: ex_score_defs Let_def)
  with e have "tnth (so_response_log_probs out) 0 0 = - ln 2" by (simp add: log_softmax_def)
  with ok show ?thesis by blast
qed

text \<open>
  A call of the scorer that returns leaves the model in the mode it found it in, training mode
  and adapters both, provided the adapters were on or are not switched by hand.
\<close>

theorem score_restores_model_state:
  assumes "score sc rq st = (Inr out, st')"
    and "ms_adapters_on st \<or> sc_api sc \<noteq> SwitchApi \<or> \<not> sc_disable_adapter sc"
  shows "st' = st"
  using score_Inr[OF assms(1)] assms(2) by (metis (full_types) model_state.equality old.unit.exhaust)

theorem score_restores_model_state_example:
  "\<exists>out st'. score ex_scorer ex_request ex_state = (Inr out, st') \<and> st' = ex_state"
proof -
  obtain out st' where ok: "score ex_scorer ex_request ex_state = (Inr out, st')"
    using ex_score by blast
  have "ms_adapters_on ex_state \<or> sc_api ex_scorer \<noteq> SwitchApi \<or> \<not> sc_disable_adapter ex_scorer"
    by (simp add: ex_state_def)
  from score_restores_model_state[OF ok this] ok show ?thesis by blast
qed

text \<open>
  A student and a teacher tokenizer that pass the check agree on the end and pad tokens, on
  the vocabulary when both expose it, and on the encoding of every sample string; and when the hash
  does not collide on the two templates, on the chat template.
\<close>

theorem tokenizer_check_sound:
  assumes "assert_tokenizer_compatible sha256 st te samples = Inr ()"
  shows "tk_eos st = tk_eos te \<and> tk_pad st = tk_pad te \<and> tk_vocab_size st = tk_vocab_size te
    \<and> (\<forall>v w. tk_get_vocab st = Some v \<longrightarrow> tk_get_vocab te = Some w \<longrightarrow> v = w)
    \<and> (\<forall>x \<in> set (case samples of Some (y # ys) \<Rightarrow> y # ys | _ \<Rightarrow> default_sample_strings).
          tk_encode st x = tk_encode te x)
    \<and> (inj sha256 \<longrightarrow> tk_chat_template st = tk_chat_template te)"
proof -
  have enc: "first_encode_mismatch st te xs = [] \<Longrightarrow> \<forall>x \<in> set xs. tk_encode st x = tk_encode te x" for xs
    by (induction xs) (auto split: if_splits)
  from assms have f: "tokenizer_failures sha256 st te samples = []"
    by (simp add: assert_tokenizer_compatible_def Let_def split: if_splits)
  then have "hash_text sha256 (tk_chat_template st) = hash_text sha256 (tk_chat_template te)"
    by (simp add: tokenizer_failures_def Let_def split: if_splits)
  then have "inj sha256 \<longrightarrow> tk_chat_template st = tk_chat_template te"
    by (auto simp: hash_text_def dest: injD[OF option.inj_map])
  with f enc show ?thesis
    by (simp add: tokenizer_failures_def Let_def split: if_splits option.splits)
qed

definition ex_tokenizer :: tokenizer_info where
  "ex_tokenizer = \<lparr>tk_vocab_size = Some 128, tk_bos = None, tk_eos = Some 2, tk_pad = Some 0,
     tk_special_tokens_map = (\<lambda>_. None), tk_chat_template = Some ''t'', tk_get_vocab = None,
     tk_encode = map (\<lambda>c. int (of_char c))\<rparr>"

theorem tokenizer_check_sound_example:
  "assert_tokenizer_compatible id ex_tokenizer ex_tokenizer None = Inr ()
   \<and> tk_eos ex_tokenizer = tk_eos ex_tokenizer"
proof -
  have "assert_tokenizer_compatible id ex_tokenizer ex_tokenizer None = Inr ()"
    by (simp add: assert_tokenizer_compatible_def tokenizer_failures_def default_sample_strings_def
        ex_tokenizer_def)
  with tokenizer_check_sound[OF this] show ?thesis by blast
qed

end
