(* ===== verification/ScoreBatch.thy ===== *)
theory ScoreBatch
  imports Floats PyValues Prompt Scorer
begin

text \<open>
  The first half of \<open>verl/trainer/extpi_rlsd/trainer.py\<close>: the temporary scoring batches of the
  privileged and of the direct teacher, the group diagnostics and the token mask of the RLSD credit.
  The tokenizer is a parameter (its encoding of a list of prompts, its pad and end tokens, its
  truncation side).
\<close>

section \<open>Reading the source batch\<close>

definition as_dict :: "pyval \<Rightarrow> pydict res" where
  "as_dict v =
     (case v of
        PDict d \<Rightarrow> Inr d
      | PArrow (PDict d) \<Rightarrow> Inr d
      | _ \<Rightarrow> Inl (TypeError ''Expected extra_info dict''))"

definition raw_prompt_part :: "(pyval \<Rightarrow> string) \<Rightarrow> pyval \<Rightarrow> string" where
  "raw_prompt_part rp item =
     (case item of
        PDict d \<Rightarrow> py_str rp (d_get_or ''content'' (PStr []) d)
      | v \<Rightarrow> py_str rp v)"

definition raw_prompt_to_text :: "(pyval \<Rightarrow> string) \<Rightarrow> pyval \<Rightarrow> string option" where
  "raw_prompt_to_text rp raw_prompt =
     (case raw_prompt of
        PNone \<Rightarrow> None
      | PStr s \<Rightarrow> Some s
      | PList items \<Rightarrow> Some (py_join nl (map (raw_prompt_part rp) items))
      | v \<Rightarrow> Some (py_str rp v))"

section \<open>Tokenising prefixes\<close>

record prefix_tokenizer =
  pt_encode :: "string list \<Rightarrow> int list list"
  pt_pad_token_id :: "int option"
  pt_eos_token_id :: "int option"
  pt_truncation_side :: string
  pt_chat_template :: chat_template

text \<open>\<open>ids[-max_length:]\<close> or \<open>ids[:max_length]\<close>; note that \<open>ids[-0:]\<close> is all of \<open>ids\<close>.\<close>

definition truncate_ids :: "string \<Rightarrow> nat \<Rightarrow> int list \<Rightarrow> int list" where
  "truncate_ids side max_length ids =
     (if side = ''left'' then (if max_length = 0 then ids else drop (length ids - max_length) ids)
      else take max_length ids)"

definition normalize_ids :: "string \<Rightarrow> nat \<Rightarrow> bool \<Rightarrow> int list \<Rightarrow> int list res" where
  "normalize_ids side max_length allow_truncation ids =
     (if max_length < length ids then
        (if \<not> allow_truncation
         then Inl (ValueError ''PI teacher prompt exceeds teacher_max_prompt_length'')
         else Inr (truncate_ids side max_length ids))
      else Inr ids)"

definition fill_prefix :: "nat \<Rightarrow> int \<Rightarrow> int list \<Rightarrow> (int list \<times> int list) res" where
  "fill_prefix max_length pad ids =
     (if ids = [] then Inl (ValueError ''PI teacher prompt tokenized to an empty prefix'')
      else if max_length < length ids then Inl (RuntimeError ''shape mismatch'')
      else let start = max_length - length ids
           in Inr (replicate start pad @ ids, replicate start 0 @ replicate (length ids) 1))"

definition tokenize_prefixes ::
  "prefix_tokenizer \<Rightarrow> string list \<Rightarrow> nat \<Rightarrow> int \<Rightarrow> bool \<Rightarrow> (int tensor2 \<times> int tensor2 \<times> nat) res" where
  "tokenize_prefixes tk prompts max_length pad_token_id allow_truncation =
     (let encoded = pt_encode tk prompts;
          truncated = length (filter (\<lambda>ids. max_length < length ids) encoded)
      in bind_res (map_res (normalize_ids (pt_truncation_side tk) max_length allow_truncation) encoded)
           (\<lambda>normalized.
         bind_res (map_res (fill_prefix max_length pad_token_id) normalized) (\<lambda>rows.
           Inr (Tensor2 max_length (map fst rows), Tensor2 max_length (map snd rows), truncated))))"

section \<open>The privileged teacher's batch\<close>

text \<open>What the hook reads of a training batch; a missing key is \<open>None\<close>.\<close>

record source_batch =
  sb_prompts :: "int tensor2 option"
  sb_responses :: "int tensor2 option"
  sb_attention_mask :: "int tensor2 option"
  sb_response_mask :: "int tensor2 option"
  sb_extra_info :: "pyval list option"
  sb_raw_prompt :: "pyval list option"

record score_batch =
  bt_prompts :: "int tensor2"
  bt_responses :: "int tensor2"
  bt_input_ids :: "int tensor2"
  bt_attention_mask :: "int tensor2"
  bt_position_ids :: "int tensor2"
  bt_response_mask :: "int tensor2"

type_synonym metrics = "(string \<times> fl) list"

record PiTeacherBatchBuild =
  bb_batch :: score_batch
  bb_metrics :: metrics
  bb_prompts :: "string list"

definition pad_id_of :: "prefix_tokenizer \<Rightarrow> int" where
  "pad_id_of tk =
     (case pt_pad_token_id tk of
        Some p \<Rightarrow> p
      | None \<Rightarrow> (case pt_eos_token_id tk of Some e \<Rightarrow> e | None \<Rightarrow> 0))"

text \<open>
  The loop over the rows: the prompts built, the ids of rows without a trace, and how many rows the
  leak check has seen. A missing problem or a leak raises at once, missing traces at the end.
\<close>

fun pi_rows ::
  "(pyval \<Rightarrow> string) \<Rightarrow> chat_template \<Rightarrow> bool \<Rightarrow> string \<Rightarrow> pyval list option \<Rightarrow> nat \<Rightarrow> pydict list
   \<Rightarrow> (string list \<times> string list \<times> nat) res" where
  "pi_rows rp apply thinking fld raws idx [] = Inr ([], [], 0)"
| "pi_rows rp apply thinking fld raws idx (extra # rest) =
     (let problem = d_get ''problem'' extra; trace = d_get fld extra;
          sample_id = py_str rp (d_get_or ''id'' (PInt (int idx)) extra)
      in if \<not> truthy problem
         then Inl (ValueError (''ExtPI-RLSD sample '' @ sample_id @ '' is missing extra_info.problem''))
         else if \<not> truthy trace then
           bind_res (pi_rows rp apply thinking fld raws (Suc idx) rest)
             (\<lambda>(ps, ms, n). Inr (ps, sample_id # ms, n))
         else
           bind_res
             (case raws of
                None \<Rightarrow> Inr 0
              | Some rs \<Rightarrow>
                  (if length rs \<le> idx then Inl IndexError
                   else bind_res (assert_no_pi_in_student_prompt
                          (case raw_prompt_to_text rp (rs ! idx) of None \<Rightarrow> [] | Some t \<Rightarrow> t)
                          (Some (py_str rp trace)))
                        (\<lambda>_. Inr (1::nat))))
             (\<lambda>checked.
           bind_res (build_pi_teacher_prompt apply (py_str rp problem) (py_str rp trace) thinking) (\<lambda>p.
           bind_res (pi_rows rp apply thinking fld raws (Suc idx) rest) (\<lambda>(ps, ms, n).
             Inr (p # ps, ms, checked + n)))))"

text \<open>\<open>float(x.mean())\<close> of row counts: NaN for an empty batch.\<close>

definition mean_count :: "int tensor2 \<Rightarrow> fl" where
  "mean_count m = fdiv (Fin (of_int (sum_list (tflat m)))) (real (length (trows m)))"

text \<open>Prefix and response joined; masks of another shape than the responses are refused.\<close>

definition assemble_score_batch ::
  "int tensor2 \<Rightarrow> int tensor2 \<Rightarrow> int tensor2 \<Rightarrow> int tensor2 \<Rightarrow> int \<Rightarrow> score_batch res" where
  "assemble_score_batch prefix_ids prefix_mask responses response_mask pad =
     (if tshape responses \<noteq> tshape response_mask \<or> length (trows prefix_ids) \<noteq> length (trows responses)
         \<or> length (trows prefix_mask) \<noteq> length (trows responses)
      then Inl (RuntimeError ''shape mismatch'')
      else
        let rmb = map_tensor2 to_bool response_mask;
            response_input_ids = tmap2 (\<lambda>m i. if m then i else pad) rmb responses;
            input_ids = tcat1 prefix_ids response_input_ids;
            attention_mask = tcat1 prefix_mask (map_tensor2 b2i rmb);
            position_ids = Tensor2 (tcols attention_mask)
              (map (\<lambda>r. map (\<lambda>x. max 0 (x - 1)) (cumsum 0 r)) (trows attention_mask))
        in Inr \<lparr>bt_prompts = prefix_ids, bt_responses = responses, bt_input_ids = input_ids,
                bt_attention_mask = attention_mask, bt_position_ids = position_ids,
                bt_response_mask = response_mask\<rparr>)"

definition require_key :: "string \<Rightarrow> 'a option \<Rightarrow> 'a res" where
  "require_key k v =
     (case v of
        None \<Rightarrow> Inl (ValueError (''source batch is missing required tensor key '' @ k))
      | Some x \<Rightarrow> Inr x)"

definition build_pi_teacher_score_batch ::
  "(pyval \<Rightarrow> string) \<Rightarrow> source_batch \<Rightarrow> prefix_tokenizer \<Rightarrow> nat \<Rightarrow> bool \<Rightarrow> bool \<Rightarrow> string
   \<Rightarrow> PiTeacherBatchBuild res" where
  "build_pi_teacher_score_batch rp sb tk max_prompt_length allow_trunc thinking fld =
     bind_res (require_key ''responses'' (sb_responses sb)) (\<lambda>responses.
     bind_res (require_key ''response_mask'' (sb_response_mask sb)) (\<lambda>response_mask.
     case sb_extra_info sb of
       None \<Rightarrow> Inl (ValueError (''ExtPI-RLSD requires extra_info with problem and '' @ fld))
     | Some infos \<Rightarrow>
         bind_res (map_res as_dict infos) (\<lambda>extras.
         bind_res (pi_rows rp (pt_chat_template tk) thinking fld (sb_raw_prompt sb) 0 extras)
           (\<lambda>(prompts, missing, checked).
         if missing \<noteq> []
         then Inl (ValueError (''ExtPI-RLSD requires '' @ fld @ '' for every sample; missing ids: ''
                     @ py_join '', '' (take 5 missing)))
         else
           let pad = pad_id_of tk
           in bind_res (tokenize_prefixes tk prompts max_prompt_length pad allow_trunc)
                (\<lambda>(prefix_ids, prefix_mask, truncated).
              if length (trows prefix_ids) \<noteq> length (trows responses)
              then Inl (ValueError ''PI prompt batch size does not match response batch size'')
              else bind_res (assemble_score_batch prefix_ids prefix_mask responses response_mask pad)
                (\<lambda>batch. Inr
                  \<lparr>bb_batch = batch,
                   bb_metrics =
                     [(''extpi/pi_teacher_prompt_truncated_count'', Fin (real truncated)),
                      (''extpi/pi_teacher_prompt_tokens_mean'', mean_count prefix_mask),
                      (''extpi/pi_teacher_response_tokens'', Fin (of_int (sum_list (tflat response_mask)))),
                      (''privacy/student_prompt_pi_leak_checked_count'', Fin (real checked)),
                      (''privacy/student_prompt_pi_leak_count'', Fin 0)],
                   bb_prompts = prompts\<rparr>))))))"

section \<open>The direct teacher's batch\<close>

definition build_direct_opd_teacher_score_batch ::
  "source_batch \<Rightarrow> prefix_tokenizer \<Rightarrow> nat \<Rightarrow> bool \<Rightarrow> bool \<Rightarrow> PiTeacherBatchBuild res" where
  "build_direct_opd_teacher_score_batch sb tk max_prompt_length allow_trunc thinking =
     bind_res (require_key ''prompts'' (sb_prompts sb)) (\<lambda>prefix_ids.
     bind_res (require_key ''responses'' (sb_responses sb)) (\<lambda>responses.
     bind_res (require_key ''attention_mask'' (sb_attention_mask sb)) (\<lambda>full_mask.
     bind_res (require_key ''response_mask'' (sb_response_mask sb)) (\<lambda>response_mask.
     if thinking
     then Inl (ValueError ''direct_opd_teacher_thinking=True is incompatible with exact student prompt reuse'')
     else
       let pad = pad_id_of tk; prefix_width = tcols prefix_ids
       in if tcols full_mask < prefix_width
          then Inl (ValueError ''Direct OPD-PG requires attention_mask to include the prompt segment'')
          else
            let prefix_mask = ttake_cols prefix_width full_mask
            in bind_res (assert_left_padded_prefix_mask prefix_mask) (\<lambda>_.
               if max_prompt_length < prefix_width
               then Inl (ValueError ''Direct OPD-PG requires the exact student prompt prefix'')
               else bind_res (assemble_score_batch prefix_ids prefix_mask responses response_mask pad)
                 (\<lambda>batch. Inr
                   \<lparr>bb_batch = batch,
                    bb_metrics =
                      [(''opd/teacher_prompt_truncated_count'', Fin 0),
                       (''opd/teacher_prompt_tokens_mean'', mean_count prefix_mask),
                       (''opd/teacher_response_tokens'', Fin (of_int (sum_list (tflat response_mask))))],
                    bb_prompts = []\<rparr>))))))"

section \<open>Group diagnostics\<close>

text \<open>Population standard deviation of a group (\<open>std(unbiased=False)\<close>).\<close>

definition pop_std :: "real list \<Rightarrow> real" where
  "pop_std xs =
     (let m = sum_list xs / real (length xs)
      in sqrt (sum_list (map (\<lambda>x. (x - m)\<^sup>2) xs) / real (length xs)))"

definition ratio :: "('a \<Rightarrow> bool) \<Rightarrow> 'a list \<Rightarrow> real" where
  "ratio P xs = real (length (filter P xs)) / real (length xs)"

text \<open>Scores grouped by uid, groups in the order of their first member.\<close>

definition group_by :: "string list \<Rightarrow> real list \<Rightarrow> real list list" where
  "group_by uids scores =
     map (\<lambda>u. map snd (filter (\<lambda>(v, _). v = u) (zip uids scores))) (dict_keys [] uids)"

definition group_ratios :: "real list list \<Rightarrow> metrics" where
  "group_ratios groups =
     [(''train/group_nonzero_std_ratio'', Fin (ratio (\<lambda>g. 0 < pop_std g) groups)),
      (''train/group_all_correct_ratio'', Fin (ratio (list_all (\<lambda>x. 1 \<le> x)) groups)),
      (''train/group_all_wrong_ratio'', Fin (ratio (list_all (\<lambda>x. x < 1)) groups))]"

definition group_diagnostic_metrics ::
  "real list \<Rightarrow> string list option \<Rightarrow> int \<Rightarrow> metrics \<times> bool \<times> bool" where
  "group_diagnostic_metrics scores uids rollout_n =
     (case uids of
        Some us \<Rightarrow>
          if length us \<noteq> length scores
          then ([(''train/group_metric_uid_mismatch'', Fin 1)], True, False)
          else
            let groups = filter (\<lambda>g. 2 \<le> length g) (group_by us scores)
            in if groups = [] then ([], True, True) else (group_ratios groups, True, True)
      | None \<Rightarrow>
          if rollout_n \<le> 0 then ([], False, False)
          else
            let usable = (length scores div nat rollout_n) * nat rollout_n
            in if usable = 0 then ([], False, False)
               else (group_ratios (chunks_of (nat rollout_n) (take usable scores)), False, True))"

section \<open>The token mask of the RLSD credit\<close>

definition token_mask_aliases :: "(string \<times> nat option) list" where
  "token_mask_aliases =
     [(''all'', None), (''all8k'', None), (''all-8k'', None),
      (''2k+ans'', Some 2048), (''first2k+tail256'', Some 2048), (''first-2k+tail-256'', Some 2048),
      (''4k+ans'', Some 4096), (''first4k+tail256'', Some 4096), (''first-4k+tail-256'', Some 4096),
      (''6k+ans'', Some 6144), (''first6k+tail256'', Some 6144), (''first-6k+tail-256'', Some 6144)]"

definition token_mask_row :: "nat \<Rightarrow> bool list \<Rightarrow> bool list" where
  "token_mask_row first_k row =
     (let token_index = cumsum 0 (map b2i row);
          valid_length = sum_list (map b2i row)
      in map2 (\<lambda>m t. m \<and> (t \<le> int first_k \<or> max 0 (valid_length - 256) < t)) row token_index)"

definition normalize_spec :: "string \<Rightarrow> string" where
  "normalize_spec spec =
     py_replace ''_'' ''-'' (py_lower (py_strip (if spec = [] then ''all'' else spec)))"

definition build_rlsd_token_mask :: "int tensor2 \<Rightarrow> string \<Rightarrow> int tensor2 res" where
  "build_rlsd_token_mask response_mask spec =
     (case map_of token_mask_aliases (normalize_spec spec) of
        None \<Rightarrow> Inl (ValueError ''actor.policy_loss.rlsd_token_mask must be one of all, all8k, 2k+ans, 4k+ans, or 6k+ans'')
      | Some None \<Rightarrow> Inr (map_tensor2 b2i (map_tensor2 to_bool response_mask))
      | Some (Some first_k) \<Rightarrow>
          Inr (map_tensor2 b2i (Tensor2 (tcols response_mask)
                 (map (token_mask_row first_k) (trows (map_tensor2 to_bool response_mask))))))"

section \<open>Lemmas\<close>

lemma normalize_ids_Inr:
  assumes "normalize_ids side n allow ids = Inr out"
  shows "out = (if n < length ids then truncate_ids side n ids else ids) \<and> (n < length ids \<longrightarrow> allow)"
  using assms by (auto simp: normalize_ids_def split: if_splits)

lemma fill_prefix_Inr:
  "fill_prefix n pad ids = Inr (r, m) \<longleftrightarrow>
     ids \<noteq> [] \<and> length ids \<le> n \<and> r = replicate (n - length ids) pad @ ids
     \<and> m = replicate (n - length ids) 0 @ replicate (length ids) 1"
  by (auto simp: fill_prefix_def Let_def)

lemma filled_mask_left_padded:
  "ids \<noteq> [] \<Longrightarrow> length ids \<le> n \<Longrightarrow>
   left_padded n (map to_bool (replicate (n - length ids) 0 @ replicate (length ids) 1))"
  by (auto simp: left_padded_def to_bool_def intro!: exI[of _ "length ids"])

lemma tokenize_prefixes_Inr:
  assumes "tokenize_prefixes tk prompts n pad allow = Inr (ids, msk, k)"
  obtains norm where
    "map_res (normalize_ids (pt_truncation_side tk) n allow) (pt_encode tk prompts) = Inr norm"
    "list_all (\<lambda>x. x \<noteq> [] \<and> length x \<le> n) norm"
    "ids = Tensor2 n (map (\<lambda>x. replicate (n - length x) pad @ x) norm)"
    "msk = Tensor2 n (map (\<lambda>x. replicate (n - length x) 0 @ replicate (length x) 1) norm)"
proof -
  from assms obtain norm rows where
    a: "map_res (normalize_ids (pt_truncation_side tk) n allow) (pt_encode tk prompts) = Inr norm"
    and r: "map_res (fill_prefix n pad) norm = Inr rows"
    and t: "ids = Tensor2 n (map fst rows)" "msk = Tensor2 n (map snd rows)"
    by (auto simp: tokenize_prefixes_def Let_def res_simps)
  from r have "list_all2 (\<lambda>x y. fill_prefix n pad x = Inr y) norm rows" by (simp add: map_res_Inr_iff)
  then have "list_all (\<lambda>x. x \<noteq> [] \<and> length x \<le> n) norm
      \<and> map fst rows = map (\<lambda>x. replicate (n - length x) pad @ x) norm
      \<and> map snd rows = map (\<lambda>x. replicate (n - length x) 0 @ replicate (length x) 1) norm"
  proof (induction rule: list_all2_induct)
    case (Cons x xs y ys)
    then show ?case by (cases y) (auto simp: fill_prefix_Inr)
  qed simp
  with a t that show ?thesis by blast
qed

lemma token_mask_row_nth:
  assumes "j < length row"
  shows "token_mask_row k row ! j \<longleftrightarrow> row ! j \<and>
     (count_true (take (Suc j) row) \<le> k \<or> count_true row < count_true (take (Suc j) row) + 256)"
proof -
  have pos: "0 < count_true (take (Suc j) row)" if "row ! j"
    using assms that by (simp add: take_Suc_conv_app_nth)
  have "cumsum 0 (map b2i row) ! j = int (count_true (take (Suc j) row))"
    using assms by (simp add: nth_cumsum take_map sum_b2i del: take_Suc)
  then show ?thesis
    using assms pos by (auto simp: token_mask_row_def Let_def sum_b2i)
qed

lemma length_token_mask_row [simp]: "length (token_mask_row k row) = length row"
  by (simp add: token_mask_row_def Let_def)

lemma sum_list_sq_zero:
  fixes m :: real
  shows "sum_list (map (\<lambda>x. (x - m)\<^sup>2) xs) = 0 \<longleftrightarrow> (\<forall>x \<in> set xs. x = m)"
  by (subst sum_list_nonneg_eq_0_iff) auto

lemma pop_std_pos_iff: "xs \<noteq> [] \<Longrightarrow> 0 < pop_std xs \<longleftrightarrow> (\<exists>x \<in> set xs. \<exists>y \<in> set xs. x \<noteq> y)"
proof -
  assume ne: "xs \<noteq> []"
  let ?m = "sum_list xs / real (length xs)"
  have nn: "0 \<le> sum_list (map (\<lambda>x. (x - ?m)\<^sup>2) xs)" by (rule sum_list_nonneg) auto
  have "0 < pop_std xs \<longleftrightarrow> 0 < sum_list (map (\<lambda>x. (x - ?m)\<^sup>2) xs)"
    using ne by (simp add: pop_std_def Let_def zero_less_divide_iff)
  also have "\<dots> \<longleftrightarrow> sum_list (map (\<lambda>x. (x - ?m)\<^sup>2) xs) \<noteq> 0" using nn by auto
  also have "\<dots> \<longleftrightarrow> (\<exists>x \<in> set xs. x \<noteq> ?m)" by (simp add: sum_list_sq_zero)
  also have "\<dots> \<longleftrightarrow> (\<exists>x \<in> set xs. \<exists>y \<in> set xs. x \<noteq> y)"
  proof
    assume "\<exists>x \<in> set xs. x \<noteq> ?m"
    then obtain x where x: "x \<in> set xs" "x \<noteq> ?m" by blast
    show "\<exists>x \<in> set xs. \<exists>y \<in> set xs. x \<noteq> y"
    proof (rule ccontr)
      assume "\<not> ?thesis"
      then have "\<forall>y \<in> set xs. y = x" using x by metis
      then have "xs = replicate (length xs) x" by (simp add: replicate_length_same)
      then have "sum_list xs = real (length xs) * x" by (metis sum_list_replicate)
      with x(2) ne show False by simp
    qed
  next
    assume "\<exists>x \<in> set xs. \<exists>y \<in> set xs. x \<noteq> y"
    then show "\<exists>x \<in> set xs. x \<noteq> ?m" by metis
  qed
  finally show ?thesis .
qed

text \<open>A group of zeros and ones is mixed, all correct or all wrong, and only one of them.\<close>

lemma binary_group_cases:
  assumes "g \<noteq> []" "set g \<subseteq> {0, 1}"
  shows "0 < pop_std g \<longleftrightarrow> \<not> list_all (\<lambda>x. 1 \<le> x) g \<and> \<not> list_all (\<lambda>x. x < 1) g"
    and "\<not> (list_all (\<lambda>x. 1 \<le> x) g \<and> list_all (\<lambda>x. x < 1) g)"
proof -
  show "0 < pop_std g \<longleftrightarrow> \<not> list_all (\<lambda>x. 1 \<le> x) g \<and> \<not> list_all (\<lambda>x. x < 1) g"
    using assms unfolding pop_std_pos_iff[OF assms(1)] list_all_iff
    by (metis insert_iff less_numeral_extra(1,3) order_refl singletonD subsetD zero_neq_one not_le)
  show "\<not> (list_all (\<lambda>x. 1 \<le> x) g \<and> list_all (\<lambda>x. x < 1) g)"
    using assms(1) by (cases g) auto
qed

lemma ratio_partition:
  assumes "xs \<noteq> []" "\<And>x. x \<in> set xs \<Longrightarrow> P x \<longleftrightarrow> \<not> Q x \<and> \<not> R x" "\<And>x. x \<in> set xs \<Longrightarrow> \<not> (Q x \<and> R x)"
  shows "ratio P xs + ratio Q xs + ratio R xs = 1"
proof -
  have "length (filter P xs) + length (filter Q xs) + length (filter R xs) = length xs"
    using assms(2,3) by (induction xs) auto
  then have "real (length (filter P xs)) + real (length (filter Q xs)) + real (length (filter R xs)) = real (length xs)"
    by (metis of_nat_add)
  with assms(1) show ?thesis by (simp add: ratio_def add_divide_distrib[symmetric])
qed

lemma assemble_Inr:
  assumes "assemble_score_batch pids pm rs rm pad = Inr b"
  shows "tshape rs = tshape rm \<and> length (trows pids) = length (trows rs)
     \<and> length (trows pm) = length (trows rs)
     \<and> bt_prompts b = pids \<and> bt_responses b = rs \<and> bt_response_mask b = rm
     \<and> bt_input_ids b = tcat1 pids (tmap2 (\<lambda>m i. if m then i else pad) (map_tensor2 to_bool rm) rs)
     \<and> bt_attention_mask b = tcat1 pm (map_tensor2 b2i (map_tensor2 to_bool rm))"
  using assms by (auto simp: assemble_score_batch_def Let_def split: if_splits)

lemma pi_rows_Inr:
  assumes "pi_rows rp app th fld raws idx extras = Inr (ps, [], n)"
  shows "length ps = length extras \<and> (\<forall>i < length extras.
      truthy (d_get ''problem'' (extras ! i)) \<and> truthy (d_get fld (extras ! i))
      \<and> build_pi_teacher_prompt app (py_str rp (d_get ''problem'' (extras ! i)))
           (py_str rp (d_get fld (extras ! i))) th = Inr (ps ! i)
      \<and> (\<forall>rs. raws = Some rs \<longrightarrow> idx + i < length rs \<and>
           assert_no_pi_in_student_prompt
             (case raw_prompt_to_text rp (rs ! (idx + i)) of None \<Rightarrow> [] | Some t \<Rightarrow> t)
             (Some (py_str rp (d_get fld (extras ! i)))) = Inr ()))"
  using assms
proof (induction rp app th fld raws idx extras arbitrary: ps n rule: pi_rows.induct)
  case (2 rp app th fld raws idx extra rest)
  let ?pr = "d_get ''problem'' extra" and ?tr = "d_get fld extra"
  from "2.prems" have tr: "truthy ?pr" "truthy ?tr"
    by (auto simp: Let_def res_simps split: if_splits)
  from "2.prems" tr obtain p ps' n' where
    p: "build_pi_teacher_prompt app (py_str rp ?pr) (py_str rp ?tr) th = Inr p"
    and rest: "pi_rows rp app th fld raws (Suc idx) rest = Inr (ps', [], n')" and ps: "ps = p # ps'"
    by (auto simp: Let_def res_simps split: if_splits)
  have leak: "idx < length rs \<and> assert_no_pi_in_student_prompt
        (case raw_prompt_to_text rp (rs ! idx) of None \<Rightarrow> [] | Some t \<Rightarrow> t) (Some (py_str rp ?tr)) = Inr ()"
    if "raws = Some rs" for rs
    using "2.prems" tr that by (auto simp: Let_def res_simps split: if_splits)
  note IH = "2.IH"(2)[OF refl refl refl _ _ rest]
  show ?case
    using IH tr p ps leak by (auto simp: nth_Cons split: nat.split)
qed simp

lemma pi_rows_checked:
  "pi_rows rp app th fld raws idx extras = Inr (ps, [], n) \<Longrightarrow> n = (if raws = None then 0 else length extras)"
proof (induction rp app th fld raws idx extras arbitrary: ps n rule: pi_rows.induct)
  case (2 rp app th fld raws idx extra rest)
  let ?pr = "d_get ''problem'' extra" and ?tr = "d_get fld extra"
  from "2.prems" have tr: "truthy ?pr" "truthy ?tr"
    by (auto simp: Let_def res_simps split: if_splits)
  from "2.prems" tr obtain ps' n' where rest: "pi_rows rp app th fld raws (Suc idx) rest = Inr (ps', [], n')"
    and n: "n = (if raws = None then 0 else 1) + n'"
    by (auto simp: Let_def res_simps split: if_splits option.splits)
  from "2.IH"(2)[OF refl refl refl _ _ rest] tr n show ?case by simp
qed simp

text \<open>A text gives nothing away: no reference tag and, unless the trace is blank, no copy of it without its outer white space.\<close>

definition leak_free :: "string \<Rightarrow> string \<Rightarrow> bool" where
  "leak_free trace prompt \<longleftrightarrow>
     (\<nexists>a b. prompt = a @ ''<reference_solution>'' @ b) \<and> (\<nexists>a b. prompt = a @ ''</reference_solution>'' @ b)
     \<and> (py_strip trace \<noteq> [] \<longrightarrow> (\<nexists>a b. prompt = a @ py_strip trace @ b))"

lemma accepted_leak_free: "assert_no_pi_in_student_prompt prompt (Some trace) = Inr u \<Longrightarrow> leak_free trace prompt"
  by (cases "trace = []") (auto simp: assert_no_pi_Inr leak_free_def contains_iff py_strip_def lstrip_def)

section \<open>Properties\<close>

text \<open>
  Tokenised prefixes are what the scorer requires. Whenever prefixes are built for at least
  one prompt, the mask passes the scorer's left-padding check, and each row is padding followed by
  the prompt's tokens: all of them, or their last or first \<open>max_length\<close> when truncation is allowed.
\<close>

theorem tokenize_prefixes_accepted:
  assumes ok: "tokenize_prefixes tk prompts n pad allow = Inr (ids, msk, k)"
    and ne: "pt_encode tk prompts \<noteq> []"
  shows "assert_left_padded_prefix_mask msk = Inr ()
    \<and> length (trows ids) = length (pt_encode tk prompts)
    \<and> (\<forall>i < length (pt_encode tk prompts).
        let e = pt_encode tk prompts ! i;
            x = (if n < length e then truncate_ids (pt_truncation_side tk) n e else e)
        in trows ids ! i = replicate (n - length x) pad @ x \<and> x \<noteq> [] \<and> length x \<le> n
           \<and> (n < length e \<longrightarrow> allow))"
proof -
  from ok obtain norm where
    m: "map_res (normalize_ids (pt_truncation_side tk) n allow) (pt_encode tk prompts) = Inr norm"
    and all: "list_all (\<lambda>x. x \<noteq> [] \<and> length x \<le> n) norm"
    and ids: "ids = Tensor2 n (map (\<lambda>x. replicate (n - length x) pad @ x) norm)"
    and msk: "msk = Tensor2 n (map (\<lambda>x. replicate (n - length x) 0 @ replicate (length x) 1) norm)"
    by (rule tokenize_prefixes_Inr)
  have len: "length norm = length (pt_encode tk prompts)" using map_res_length[OF m] .
  then have "norm \<noteq> []" using ne by auto
  with all have "hd norm \<noteq> [] \<and> length (hd norm) \<le> n" by (cases norm) auto
  then have n: "0 < n" by (cases n) auto
  have wf: "twf msk" using all by (auto simp: msk twf_def list_all_iff)
  have lp: "left_padded n (map to_bool r)" if r: "r \<in> set (trows msk)" for r
  proof -
    from r obtain x where x: "x \<in> set norm" "r = replicate (n - length x) 0 @ replicate (length x) 1"
      unfolding msk by auto
    have "x \<noteq> []" "length x \<le> n" using all x(1) by (auto simp: list_all_iff)
    then show ?thesis unfolding x(2) by (rule filled_mask_left_padded)
  qed
  have acc: "assert_left_padded_prefix_mask msk = Inr ()"
    using wf n lp by (simp add: assert_left_padded_iff msk)
  have norm: "norm ! i = (let e = pt_encode tk prompts ! i in
        if n < length e then truncate_ids (pt_truncation_side tk) n e else e)
      \<and> (n < length (pt_encode tk prompts ! i) \<longrightarrow> allow)" if "i < length (pt_encode tk prompts)" for i
    using normalize_ids_Inr[OF map_res_nth[OF m that]] by (simp add: Let_def)
  have in_all: "norm ! i \<noteq> [] \<and> length (norm ! i) \<le> n" if "i < length (pt_encode tk prompts)" for i
    using all that len by (simp add: list_all_length)
  show ?thesis
    using acc len norm in_all by (auto simp: ids Let_def)
qed

definition ex_prefix_tokenizer :: prefix_tokenizer where
  "ex_prefix_tokenizer = \<lparr>pt_encode = map (map (\<lambda>c. int (of_char c))), pt_pad_token_id = None,
     pt_eos_token_id = Some 2, pt_truncation_side = ''left'', pt_chat_template = ex_template\<rparr>"

theorem tokenize_prefixes_accepted_example:
  "\<exists>ids msk. tokenize_prefixes ex_prefix_tokenizer [''abc'', ''d''] 2 0 True = Inr (ids, msk, 1)
     \<and> assert_left_padded_prefix_mask msk = Inr () \<and> trows ids ! 0 = [98, 99]"
proof -
  obtain ids msk where ok: "tokenize_prefixes ex_prefix_tokenizer [''abc'', ''d''] 2 0 True = Inr (ids, msk, 1)"
    by (simp add: tokenize_prefixes_def ex_prefix_tokenizer_def normalize_ids_def truncate_ids_def
        fill_prefix_def)
  have ne: "pt_encode ex_prefix_tokenizer [''abc'', ''d''] \<noteq> []" by (simp add: ex_prefix_tokenizer_def)
  from tokenize_prefixes_accepted[OF ok ne]
  have "assert_left_padded_prefix_mask msk = Inr ()" "trows ids ! 0 = [98, 99]"
    by (auto simp: ex_prefix_tokenizer_def truncate_ids_def Let_def)
  with ok show ?thesis by blast
qed

text \<open>
  C8. a privileged scoring batch is built only from complete rows, and only when no student prompt it was given shows
  privileged text. If it is built, every row has a problem and a trace and its prompt is the privileged prompt of exactly
  these; the response ids and masks are those of the training batch. If the training batch has raw prompts, there is one
  for every row, none of them contains a reference tag or the stripped trace of its row as a substring, and the reported
  number of checked prompts is the number of rows; without raw prompts it is zero. The reported leak count is zero.
\<close>

theorem pi_batch_sound:
  assumes ok: "build_pi_teacher_score_batch rp sb tk n allow th fld = Inr b"
    and infos: "sb_extra_info sb = Some infos" "map_res as_dict infos = Inr extras"
  shows "Some (bt_responses (bb_batch b)) = sb_responses sb
    \<and> Some (bt_response_mask (bb_batch b)) = sb_response_mask sb
    \<and> map_of (bb_metrics b) ''privacy/student_prompt_pi_leak_count'' = Some (Fin 0)
    \<and> map_of (bb_metrics b) ''privacy/student_prompt_pi_leak_checked_count''
        = Some (Fin (case sb_raw_prompt sb of None \<Rightarrow> 0 | Some _ \<Rightarrow> real (length extras)))
    \<and> length (bb_prompts b) = length extras
    \<and> (\<forall>i < length extras. truthy (d_get fld (extras ! i)) \<and> truthy (d_get ''problem'' (extras ! i))
        \<and> build_pi_teacher_prompt (pt_chat_template tk) (py_str rp (d_get ''problem'' (extras ! i)))
             (py_str rp (d_get fld (extras ! i))) th = Inr (bb_prompts b ! i)
        \<and> (\<forall>raws. sb_raw_prompt sb = Some raws \<longrightarrow> i < length raws
             \<and> leak_free (py_str rp (d_get fld (extras ! i)))
                 (case raw_prompt_to_text rp (raws ! i) of None \<Rightarrow> [] | Some t \<Rightarrow> t)))"
proof -
  from ok infos obtain rs rm ps checked pids pm k batch where
    r: "sb_responses sb = Some rs" "sb_response_mask sb = Some rm"
    and rows: "pi_rows rp (pt_chat_template tk) th fld (sb_raw_prompt sb) 0 extras = Inr (ps, [], checked)"
    and asm: "assemble_score_batch pids pm rs rm (pad_id_of tk) = Inr batch"
    and b: "bb_batch b = batch" "bb_prompts b = ps"
      "map_of (bb_metrics b) ''privacy/student_prompt_pi_leak_count'' = Some (Fin 0)"
      "map_of (bb_metrics b) ''privacy/student_prompt_pi_leak_checked_count'' = Some (Fin (real checked))"
    unfolding build_pi_teacher_score_batch_def Let_def
    by (auto simp: res_simps require_key_def split: option.splits if_splits)
  note R = pi_rows_Inr[OF rows]
  have "i < length raws \<and> leak_free (py_str rp (d_get fld (extras ! i)))
      (case raw_prompt_to_text rp (raws ! i) of None \<Rightarrow> [] | Some t \<Rightarrow> t)"
    if "i < length extras" "sb_raw_prompt sb = Some raws" for i raws
    using R that accepted_leak_free by fastforce
  with R pi_rows_checked[OF rows] assemble_Inr[OF asm] r b show ?thesis
    by (intro conjI) (auto split: option.split)
qed

definition ex_source :: source_batch where
  "ex_source = \<lparr>sb_prompts = Some (Tensor2 1 [[7]]), sb_responses = Some (Tensor2 2 [[5, 6]]),
     sb_attention_mask = Some (Tensor2 3 [[1, 1, 0]]), sb_response_mask = Some (Tensor2 2 [[1, 0]]),
     sb_extra_info = Some [PDict [(''problem'', PStr ''p''), (''t'', PStr ''abc'')]],
     sb_raw_prompt = Some [PStr ''solve p'']\<rparr>"

definition ex_const_tokenizer :: prefix_tokenizer where
  "ex_const_tokenizer = ex_prefix_tokenizer\<lparr>pt_encode := map (\<lambda>_. [1, 2, 3])\<rparr>"

lemma ex_pi_batch:
  "\<exists>b. build_pi_teacher_score_batch (\<lambda>_. []) ex_source ex_const_tokenizer 4 True False ''t'' = Inr b"
  by (simp add: build_pi_teacher_score_batch_def ex_source_def ex_const_tokenizer_def ex_prefix_tokenizer_def
      require_key_def as_dict_def d_get_def d_get_or_def assert_no_pi_in_student_prompt_def
      raw_prompt_to_text_def py_strip_def lstrip_def is_space_def in_range_def starts_with_def
      build_prompts_simps render_chat_def ex_template_def tokenize_prefixes_def normalize_ids_def
      fill_prefix_def assemble_score_batch_def tshape_def Let_def)

theorem pi_batch_sound_witness:
  "\<exists>b. build_pi_teacher_score_batch (\<lambda>_. []) ex_source ex_const_tokenizer 4 True False ''t'' = Inr b
     \<and> bt_responses (bb_batch b) = Tensor2 2 [[5, 6]] \<and> length (bb_prompts b) = 1
     \<and> leak_free ''abc'' ''solve p'' \<and> py_strip ''abc'' = ''abc''"
proof -
  obtain b where b: "build_pi_teacher_score_batch (\<lambda>_. []) ex_source ex_const_tokenizer 4 True False ''t'' = Inr b"
    using ex_pi_batch by blast
  have i: "sb_extra_info ex_source = Some [PDict [(''problem'', PStr ''p''), (''t'', PStr ''abc'')]]"
    "map_res as_dict [PDict [(''problem'', PStr ''p''), (''t'', PStr ''abc'')]]
       = Inr [[(''problem'', PStr ''p''), (''t'', PStr ''abc'')]]"
    by (simp_all add: ex_source_def as_dict_def)
  have "Some (bt_responses (bb_batch b)) = sb_responses ex_source" "length (bb_prompts b) = 1"
    "leak_free ''abc'' ''solve p''"
    using pi_batch_sound[OF b i] by (simp_all add: ex_source_def d_get_def raw_prompt_to_text_def)
  moreover have "py_strip ''abc'' = ''abc''" by (simp add: py_strip_def lstrip_def is_space_def in_range_def)
  ultimately show ?thesis using b by (simp add: ex_source_def)
qed

text \<open>
  The direct teacher scores the student's own prompt. If the batch is built, its prefix and
  its responses are those of the training batch unchanged, its prompt segment passes the scorer's
  left-padding check, fits the length limit, and nothing was truncated.
\<close>

theorem direct_batch_exact:
  assumes "build_direct_opd_teacher_score_batch sb tk n allow th = Inr b"
  shows "\<not> th \<and> Some (bt_prompts (bb_batch b)) = sb_prompts sb
    \<and> Some (bt_responses (bb_batch b)) = sb_responses sb
    \<and> tcols (bt_prompts (bb_batch b)) \<le> n
    \<and> assert_left_padded_prefix_mask
        (ttake_cols (tcols (bt_prompts (bb_batch b))) (the (sb_attention_mask sb))) = Inr ()
    \<and> map_of (bb_metrics b) ''opd/teacher_prompt_truncated_count'' = Some (Fin 0)"
  using assms unfolding build_direct_opd_teacher_score_batch_def Let_def
  by (auto simp: res_simps require_key_def split: option.splits if_splits dest!: assemble_Inr)

theorem direct_batch_exact_example:
  "\<exists>b. build_direct_opd_teacher_score_batch ex_source ex_prefix_tokenizer 4 True False = Inr b
     \<and> bt_prompts (bb_batch b) = Tensor2 1 [[7]]"
proof -
  obtain b where b: "build_direct_opd_teacher_score_batch ex_source ex_prefix_tokenizer 4 True False = Inr b"
    by (simp add: build_direct_opd_teacher_score_batch_def ex_source_def require_key_def ttake_cols_def
        assert_left_padded_prefix_mask_def expected_row_def to_bool_def assemble_score_batch_def
        tshape_def Let_def)
  from direct_batch_exact[OF b] b show ?thesis by (auto simp: ex_source_def)
qed

text \<open>
  The RLSD token mask selects, among the valid response tokens and only among them, the first
  \<open>first_k\<close> and the last 256; with the specifications for all tokens it selects every valid token.
\<close>

theorem rlsd_token_mask_exact:
  assumes "build_rlsd_token_mask m spec = Inr out" and wf: "twf m" and ij: "tin m i j"
  shows "tshape out = tshape m \<and>
    (case the (map_of token_mask_aliases (normalize_spec spec)) of
       None \<Rightarrow> tnth out i j = b2i (to_bool (tnth m i j))
     | Some k \<Rightarrow>
        (let row = map to_bool (trows m ! i); t = count_true (take (Suc j) row)
         in tnth out i j = b2i (row ! j \<and> (t \<le> k \<or> count_true row < t + 256))))"
proof (cases "the (map_of token_mask_aliases (normalize_spec spec))")
  case None
  with assms show ?thesis
    by (auto simp: build_rlsd_token_mask_def tensor_simps split: option.splits)
next
  case (Some k)
  with assms(1) have out: "out = map_tensor2 b2i (Tensor2 (tcols m)
      (map (token_mask_row k) (trows (map_tensor2 to_bool m))))"
    by (auto simp: build_rlsd_token_mask_def split: option.splits)
  have j: "j < length (trows m ! i)" "i < length (trows m)" using wf ij by (auto simp: tin_def twf_row)
  then have "tnth out i j = b2i (token_mask_row k (map to_bool (trows m ! i)) ! j)"
    by (simp add: out tnth_def)
  also have "\<dots> = b2i (map to_bool (trows m ! i) ! j \<and>
      (count_true (take (Suc j) (map to_bool (trows m ! i))) \<le> k \<or>
       count_true (map to_bool (trows m ! i)) < count_true (take (Suc j) (map to_bool (trows m ! i))) + 256))"
    using j by (simp only: token_mask_row_nth length_map)
  finally show ?thesis using Some by (simp add: Let_def out tshape_def)
qed

lemma ex_spec: "map_of token_mask_aliases (normalize_spec ''2K+Ans '') = Some (Some 2048)"
proof -
  have "normalize_spec ''2K+Ans '' = ''2k+ans''"
    by code_simp
  then show ?thesis by (simp add: token_mask_aliases_def)
qed

theorem rlsd_token_mask_exact_example:
  "\<exists>out. build_rlsd_token_mask (Tensor2 2 [[1, 0]]) ''2K+Ans '' = Inr out
     \<and> tnth out 0 0 = 1 \<and> tnth out 0 1 = 0"
proof -
  obtain out where out: "build_rlsd_token_mask (Tensor2 2 [[1, 0]]) ''2K+Ans '' = Inr out"
    by (simp add: build_rlsd_token_mask_def ex_spec)
  have t: "twf (Tensor2 2 [[1, 0 :: int]])" "tin (Tensor2 2 [[1, 0 :: int]]) 0 0" "tin (Tensor2 2 [[1, 0 :: int]]) 0 1"
    by (simp_all add: twf_def tin_def)
  from rlsd_token_mask_exact[OF out t(1,2)] rlsd_token_mask_exact[OF out t(1,3)]
  have "tnth out 0 0 = 1" "tnth out 0 1 = 0"
    by (simp_all add: ex_spec Let_def to_bool_def b2i_def)
  with out show ?thesis by blast
qed

text \<open>
  With scores of zero and one and groups given by uid, the group diagnostics partition the
  groups: the ratios of mixed, all-correct and all-wrong groups add up to one.
\<close>

theorem group_ratios_partition:
  assumes "set scores \<subseteq> {0, 1}" and "length us = length scores"
    and "group_diagnostic_metrics scores (Some us) n = (ms, seen, ready)" and "ms \<noteq> []"
  shows "\<exists>a b c. ms = [(''train/group_nonzero_std_ratio'', Fin a), (''train/group_all_correct_ratio'', Fin b),
      (''train/group_all_wrong_ratio'', Fin c)] \<and> a + b + c = 1 \<and> seen \<and> ready"
proof -
  let ?g = "filter (\<lambda>g. 2 \<le> length g) (group_by us scores)"
  have ms: "ms = group_ratios ?g" "?g \<noteq> []" "seen" "ready"
    using assms(2-4) by (auto simp: group_diagnostic_metrics_def Let_def split: if_splits)
  have sub: "set g \<subseteq> {0, 1}" if "g \<in> set ?g" for g
    using that by (auto simp: group_by_def dest!: set_zip_rightD subsetD[OF assms(1)])
  have ne: "g \<noteq> []" if "g \<in> set ?g" for g using that by auto
  have "ratio (\<lambda>g. 0 < pop_std g) ?g + ratio (list_all (\<lambda>x. 1 \<le> x)) ?g + ratio (list_all (\<lambda>x. x < 1)) ?g = 1"
    by (rule ratio_partition[OF ms(2)]) (use binary_group_cases sub ne in blast)+
  with ms show ?thesis by (auto simp: group_ratios_def)
qed

theorem group_ratios_partition_example:
  "\<exists>ms seen ready a b c. group_diagnostic_metrics [1, 0, 1, 1] (Some [''u'', ''u'', ''v'', ''v'']) 2 = (ms, seen, ready)
     \<and> ms = [(''train/group_nonzero_std_ratio'', Fin a), (''train/group_all_correct_ratio'', Fin b),
      (''train/group_all_wrong_ratio'', Fin c)] \<and> a + b + c = 1"
proof -
  obtain ms seen ready where g:
    "group_diagnostic_metrics [1, 0, 1, 1] (Some [''u'', ''u'', ''v'', ''v'']) 2 = (ms, seen, ready)"
    by (cases "group_diagnostic_metrics [1, 0, 1, 1] (Some [''u'', ''u'', ''v'', ''v'']) 2") auto
  have "ms \<noteq> []"
    using g by (auto simp: group_diagnostic_metrics_def group_by_def group_ratios_def Let_def)
  with group_ratios_partition[OF _ _ g] g show ?thesis by fastforce
qed

end
