(* ===== verification/Padding.thy ===== *)
theory Padding
  imports Prelude
begin

text \<open>
  \<open>verl/workers/utils/padding.py\<close>: conversions between left-right padded batches and the jagged
  layout the engines compute on. A nested (jagged) tensor is the list of its rows, its flat
  values are their concatenation and its offsets the running sums of their lengths. Token values
  are of any type with a zero, so that one definition serves ids, masks and log probabilities.
\<close>

section \<open>Left-right padding to no padding\<close>

text \<open>The entries of a row whose mask is not zero, in order (\<open>unpad_input\<close>, \<open>row[mask.bool()]\<close>).\<close>

definition unpad_row :: "int list \<Rightarrow> 'a list \<Rightarrow> 'a list" where
  "unpad_row msk row = map snd (filter (\<lambda>(m, _). m \<noteq> 0) (zip msk row))"

text \<open>Position ids: one row per sequence, or several (multi-modal rotary positions).\<close>

datatype position_ids = Pos2 "int list list" | Pos3 "int list list list"

record padded_batch =
  pd_input_ids :: "int tensor2 option"
  pd_attention_mask :: "int tensor2 option"
  pd_response_mask :: "int tensor2 option"
  pd_position_ids :: "position_ids option"
  pd_routed_experts :: "int list list list option"
  pd_teacher_logprobs :: "real list list list option"
  pd_teacher_ids :: "int list list list option"

record jagged_batch =
  jg_input_ids :: "int list list"
  jg_position_ids :: position_ids
  jg_loss_mask :: "int tensor2"
  jg_max_seq_len :: nat
  jg_max_response_len :: nat
  jg_indices :: "nat list"
  jg_routed_experts :: "int list list list option"
  jg_teacher_logprobs :: "real list list list option"
  jg_teacher_ids :: "int list list list option"

text \<open>Flat positions of the attended tokens, in row-major order.\<close>

definition flat_indices :: "int tensor2 \<Rightarrow> nat list" where
  "flat_indices m = map fst (filter (\<lambda>(_, k). k \<noteq> 0) (enumerate 0 (tflat m)))"

definition unpad_positions :: "int list list \<Rightarrow> position_ids \<Rightarrow> position_ids" where
  "unpad_positions msks p =
     (case p of
        Pos2 rows \<Rightarrow> Pos2 (map2 unpad_row msks rows)
      | Pos3 planes \<Rightarrow> Pos3 (map2 (\<lambda>m chans. map (unpad_row m) chans) msks planes))"

definition require_field :: "string \<Rightarrow> 'a option \<Rightarrow> 'a res" where
  "require_field k v =
     (case v of
        None \<Rightarrow> Inl (AssertionError (k @ '' is required in left-right padding data''))
      | Some x \<Rightarrow> Inr x)"

definition left_right_2_no_padding :: "padded_batch \<Rightarrow> jagged_batch res" where
  "left_right_2_no_padding data =
     bind_res (require_field ''input_ids'' (pd_input_ids data)) (\<lambda>input_ids.
     bind_res (require_field ''attention_mask'' (pd_attention_mask data)) (\<lambda>attention_mask.
     bind_res (require_field ''response_mask'' (pd_response_mask data)) (\<lambda>response_mask.
     bind_res (require_field ''position_ids'' (pd_position_ids data)) (\<lambda>position_ids.
       let msks = trows attention_mask;
           both = pd_teacher_logprobs data \<noteq> None \<and> pd_teacher_ids data \<noteq> None
       in Inr \<lparr>jg_input_ids = map2 unpad_row msks (trows input_ids),
               jg_position_ids = unpad_positions msks position_ids,
               jg_loss_mask = response_mask,
               jg_max_seq_len = tcols input_ids,
               jg_max_response_len = tcols response_mask,
               jg_indices = flat_indices attention_mask,
               jg_routed_experts = map_option (map2 unpad_row msks) (pd_routed_experts data),
               jg_teacher_logprobs =
                 (if both then map_option (map2 unpad_row msks) (pd_teacher_logprobs data)
                  else pd_teacher_logprobs data),
               jg_teacher_ids =
                 (if both then map_option (map2 unpad_row msks) (pd_teacher_ids data)
                  else pd_teacher_ids data)\<rparr>))))"

section \<open>No padding to padded responses\<close>

text \<open>Prompts and responses of the batch: nested, or padded with the attention mask beside them.\<close>

datatype prompt_layout =
    NestedLayout "int list list" "int list list"
  | PaddedLayout "int tensor2" "int tensor2" "int tensor2"

text \<open>Prompt lengths, response lengths and the width of the result.\<close>

definition layout_lens :: "prompt_layout \<Rightarrow> int \<Rightarrow> (int list \<times> int list \<times> int) res" where
  "layout_lens lay max_response_len =
     (case lay of
        NestedLayout prompts responses \<Rightarrow>
          (let pl = map (int \<circ> length) prompts; rl = map (int \<circ> length) responses
           in if max_response_len < 0
              then (if rl = [] then Inl (RuntimeError ''max of an empty tensor'')
                    else Inr (pl, rl, foldr max rl 0))
              else Inr (pl, rl, max_response_len))
      | PaddedLayout prompts responses attention_mask \<Rightarrow>
          Inr (map (\<lambda>r. sum_list (take (tcols prompts) r)) (trows attention_mask),
               map (\<lambda>r. sum_list (drop (tcols prompts) r)) (trows attention_mask),
               int (tcols responses)))"

text \<open>\<open>xs[a:b]\<close> for any integers: a negative bound counts from the end.\<close>

definition py_bound :: "int \<Rightarrow> nat \<Rightarrow> nat" where
  "py_bound k n = (if k < 0 then nat (k + int n) else nat k)"

definition py_slice :: "int \<Rightarrow> int \<Rightarrow> 'a list \<Rightarrow> 'a list" where
  "py_slice a b xs = slice (py_bound a (length xs)) (py_bound b (length xs)) xs"

text \<open>\<open>F.pad(row, (0, k))\<close>: zeros on the right, or a crop when \<open>k\<close> is negative.\<close>

definition pad_right :: "int \<Rightarrow> ('a::zero) list \<Rightarrow> 'a list" where
  "pad_right k row =
     (if k < 0 then take (length row - nat (- k)) row else row @ replicate (nat k) 0)"

text \<open>\<open>F.pad(values[off - len - 1 : off - 1], (0, pad))\<close>: the outputs one token to the left.\<close>

definition response_slice :: "('a::zero) list \<Rightarrow> int \<Rightarrow> int \<Rightarrow> int \<Rightarrow> 'a list" where
  "response_slice values max_response_len resp_len seq_offset =
     pad_right (max_response_len - resp_len)
       (py_slice (seq_offset - resp_len - 1) (seq_offset - 1) values)"

definition no_padding_2_padding ::
  "('a::zero) list \<Rightarrow> prompt_layout \<Rightarrow> int \<Rightarrow> 'a list list res" where
  "no_padding_2_padding values lay max_len =
     bind_res (layout_lens lay max_len) (\<lambda>(prompt_lens, response_lens, max_response_len).
       let sequence_lens = map2 (+) prompt_lens response_lens;
           sequence_offsets = cumsum 0 sequence_lens
       in if sequence_offsets = [] then Inl IndexError
          else if last sequence_offsets \<noteq> int (length values)
          then Inl (AssertionError ''sequence_offsets[-1] == values.shape[0]'')
          else if \<exists>p \<in> set prompt_lens. p = 0
          then Inl (AssertionError ''seq_offset - resp_len - 1 assumes prompt_len > 0'')
          else Inr (map2 (response_slice values max_response_len) response_lens sequence_offsets))"

section \<open>Helpers on nested tensors\<close>

definition build_attention_mask_from_nested :: "int list list \<Rightarrow> nat option \<Rightarrow> int tensor2 res" where
  "build_attention_mask_from_nested input_ids max_seq_len =
     (let seq_lens = map length input_ids
      in if max_seq_len = None \<and> seq_lens = [] then Inl (RuntimeError ''max of an empty tensor'')
         else let w = (case max_seq_len of Some n \<Rightarrow> n | None \<Rightarrow> foldr max seq_lens 0)
              in Inr (Tensor2 w (map (\<lambda>n. map (\<lambda>p. if p < n then 1 else 0) [0..<w]) seq_lens)))"

definition response_from_nested :: "'a list list \<Rightarrow> nat list \<Rightarrow> 'a list list" where
  "response_from_nested rows response_lens =
     (let values = concat rows;
          offsets = cumsum 0 (map (int \<circ> length) rows)
      in map2 (\<lambda>rl off. py_slice (off - int rl - 1) (off - 1) values) response_lens offsets)"

definition response_to_nested :: "'a tensor2 \<Rightarrow> nat list \<Rightarrow> 'a list list" where
  "response_to_nested t response_lens = map2 take response_lens (trows t)"

definition embeds_to_nested :: "'a list list \<Rightarrow> int list list \<Rightarrow> 'a list list \<times> bool list list" where
  "embeds_to_nested embeds msks =
     (map2 unpad_row msks embeds, map (\<lambda>m. filter id (map (\<lambda>k. k \<noteq> 0) m)) msks)"

definition embeds_padding_2_no_padding ::
  "'a list list \<times> int list list \<Rightarrow> ('a list list \<times> int list list) option
   \<Rightarrow> ('a list list \<times> bool list list) \<times> ('a list list \<times> bool list list) option" where
  "embeds_padding_2_no_padding prompt negative =
     (embeds_to_nested (fst prompt) (snd prompt),
      map_option (\<lambda>(e, m). embeds_to_nested e m) negative)"

section \<open>Lemmas\<close>

text \<open>One sequence of a jagged batch: its slice among the concatenated values.\<close>

lemma slice_concat_row:
  assumes "i < length rows" "a + n \<le> length (rows ! i)"
  shows "slice (length (concat (take i rows)) + a) (length (concat (take i rows)) + a + n) (concat rows)
    = take n (drop a (rows ! i))"
proof -
  have "concat rows = concat (take i rows) @ rows ! i @ concat (drop (Suc i) rows)"
    using assms(1) by (metis append_take_drop_id concat.simps(2) concat_append id_take_nth_drop)
  with assms(2) show ?thesis by (simp add: slice_def)
qed

lemma sum_int_lengths: "sum_list (map (int \<circ> length) rows) = int (length (concat rows))"
  by (induction rows) auto

lemma nth_cumsum_lengths:
  "i < length rows \<Longrightarrow> cumsum 0 (map (int \<circ> length) rows) ! i
     = int (length (concat (take i rows)) + length (rows ! i))"
  by (simp add: nth_cumsum take_map sum_int_lengths take_Suc_conv_app_nth del: length_concat)

lemma last_cumsum_lengths:
  assumes "rows \<noteq> []"
  shows "last (cumsum 0 (map (int \<circ> length) rows)) = int (length (concat rows))"
proof -
  let ?c = "cumsum 0 (map (int \<circ> length) rows)"
  have ne: "?c \<noteq> []" using assms by (metis length_0_conv length_cumsum length_map)
  have "last ?c = 0 + sum_list (take (length rows) (map (int \<circ> length) rows))"
    using assms by (subst last_conv_nth[OF ne]) (simp add: nth_cumsum Suc_diff_1)
  then show ?thesis by (simp add: sum_int_lengths del: length_concat)
qed

text \<open>The slice of one sequence, when its prompt has a token.\<close>

lemma py_slice_response:
  assumes "i < length rows" "int (length (rows ! i)) = p + r" "0 < p" "0 \<le> r"
  shows "py_slice (cumsum 0 (map (int \<circ> length) rows) ! i - r - 1)
           (cumsum 0 (map (int \<circ> length) rows) ! i - 1) (concat rows)
       = take (nat r) (drop (nat p - 1) (rows ! i))"
proof -
  let ?b = "length (concat (take i rows))"
  let ?o = "cumsum 0 (map (int \<circ> length) rows) ! i"
  have o: "?o = int ?b + p + r" using assms nth_cumsum_lengths[OF assms(1)] by simp
  have lo: "py_bound (?o - r - 1) n = ?b + (nat p - 1)" for n
    using assms(3) unfolding o py_bound_def by auto
  have hi: "py_bound (?o - 1) n = ?b + (nat p - 1) + nat r" for n
    using assms(3,4) unfolding o py_bound_def by auto
  show ?thesis
    unfolding py_slice_def lo hi using assms by (intro slice_concat_row) auto
qed

lemma nth_response_row:
  assumes "int (length v) = p + r" "0 < p" "0 \<le> r" "r \<le> w"
  shows "length (pad_right (w - r) (take (nat r) (drop (nat p - 1) v))) = nat w"
    and "t < nat w \<Longrightarrow> pad_right (w - r) (take (nat r) (drop (nat p - 1) v)) ! t
           = (if int t < r then v ! (nat p - 1 + t) else 0)"
  using assms by (auto simp: pad_right_def nth_append)

text \<open>A left-padded prompt and a right-padded response select a contiguous block of the row.\<close>

definition lr_mask_row :: "nat \<Rightarrow> nat \<Rightarrow> nat \<Rightarrow> nat \<Rightarrow> int list" where
  "lr_mask_row P p r R = replicate (P - p) 0 @ replicate p 1 @ replicate r 1 @ replicate (R - r) 0"

lemma unpad_row_append:
  "length m = length x \<Longrightarrow> unpad_row (m @ m') (x @ x') = unpad_row m x @ unpad_row m' x'"
  by (simp add: unpad_row_def)

lemma unpad_row_replicate [simp]:
  "unpad_row (replicate n 0) x = []"
  "length x = n \<Longrightarrow> unpad_row (replicate n 1) x = x"
proof -
  show "unpad_row (replicate n 0) x = []"
    by (auto simp: unpad_row_def filter_empty_conv set_zip)
next
  assume l: "length x = n"
  have "filter (\<lambda>(m, _). m \<noteq> 0) (zip (replicate n (1::int)) x) = zip (replicate n 1) x"
    by (auto simp: filter_id_conv set_zip)
  with l show "unpad_row (replicate n 1) x = x" by (simp add: unpad_row_def)
qed

lemma unpad_lr_mask_row:
  assumes "p \<le> P" "r \<le> R" "length x = P + R"
  shows "unpad_row (lr_mask_row P p r R) x = take (p + r) (drop (P - p) x)"
proof -
  define a where "a = take (P - p) x"
  define b where "b = take (p + r) (drop (P - p) x)"
  define c where "c = drop (P + r) x"
  have x: "x = a @ b @ c"
  proof -
    have "p + r + (P - p) = P + r" using assms(1) by simp
    then have "drop (P - p) x = b @ c"
      unfolding b_def c_def by (metis append_take_drop_id drop_drop)
    then show ?thesis unfolding a_def by (metis append_take_drop_id)
  qed
  have l: "length a = P - p" "length b = p + r"
    using assms by (auto simp: a_def b_def)
  have m: "lr_mask_row P p r R = replicate (P - p) 0 @ replicate (p + r) 1 @ replicate (R - r) 0"
    by (simp add: lr_mask_row_def replicate_add)
  have "unpad_row (lr_mask_row P p r R) (a @ b @ c) = b"
    unfolding m using l by (simp add: unpad_row_append)
  then have "unpad_row (lr_mask_row P p r R) x = b" by (simp only: x[symmetric])
  then show ?thesis by (simp only: b_def)
qed

lemma lr_mask_row_sums:
  assumes "p \<le> P" "r \<le> R"
  shows "sum_list (take P (lr_mask_row P p r R)) = int p"
    and "sum_list (drop P (lr_mask_row P p r R)) = int r"
    and "length (lr_mask_row P p r R) = P + R"
  using assms by (auto simp: lr_mask_row_def)

text \<open>The padded responses of any values, one per attended token.\<close>

lemma no_padding_2_padding_vals:
  fixes p r :: "nat list" and v :: "('a::zero) list list"
  assumes n: "0 < n" "length p = n" "length r = n" "length v = n" "length (trows am) = n"
    and row: "\<And>i. i < n \<Longrightarrow> trows am ! i = lr_mask_row (tcols prompts) (p ! i) (r ! i) (tcols responses)
                \<and> 0 < p ! i \<and> p ! i \<le> tcols prompts \<and> r ! i \<le> tcols responses"
    and vl: "\<And>i. i < n \<Longrightarrow> length (v ! i) = p ! i + r ! i"
  shows "no_padding_2_padding (concat v) (PaddedLayout prompts responses am) k
       = Inr (map (\<lambda>i. pad_right (int (tcols responses) - int (r ! i))
                 (take (r ! i) (drop (p ! i - 1) (v ! i)))) [0..<n])"
proof -
  let ?P = "tcols prompts" and ?R = "tcols responses"
  have pl: "map (\<lambda>m. sum_list (take ?P m)) (trows am) = map int p"
    using n row by (intro nth_equalityI) (auto simp: lr_mask_row_sums)
  have rl: "map (\<lambda>m. sum_list (drop ?P m)) (trows am) = map int r"
    using n row by (intro nth_equalityI) (auto simp: lr_mask_row_sums)
  have sl: "map2 (+) (map int p) (map int r) = map (int \<circ> length) v"
    using n vl by (intro nth_equalityI) auto
  have ne: "v \<noteq> []" using n by auto
  have nz: "\<not> (\<exists>q \<in> set (map int p). q = 0)"
    using n row by (fastforce simp: in_set_conv_nth)
  let ?o = "cumsum 0 (map (int \<circ> length) v)"
  have one: "?o \<noteq> []" using ne by (metis length_0_conv length_cumsum length_map)
  have sli: "response_slice (concat v) (int ?R) (int (r ! i)) (?o ! i)
      = pad_right (int ?R - int (r ! i)) (take (r ! i) (drop (p ! i - 1) (v ! i)))" if i: "i < n" for i
  proof -
    have "py_slice (?o ! i - int (r ! i) - 1) (?o ! i - 1) (concat v)
        = take (nat (int (r ! i))) (drop (nat (int (p ! i)) - 1) (v ! i))"
      using i row[OF i] vl[OF i] n by (intro py_slice_response) auto
    then show ?thesis by (simp add: response_slice_def)
  qed
  have out: "map2 (response_slice (concat v) (int ?R)) (map int r) ?o
      = map (\<lambda>i. pad_right (int ?R - int (r ! i)) (take (r ! i) (drop (p ! i - 1) (v ! i)))) [0..<n]"
    using n by (intro nth_equalityI) (auto simp: sli)
  show ?thesis
    using out one nz last_cumsum_lengths[OF ne]
    by (simp add: no_padding_2_padding_def layout_lens_def pl rl sl Let_def del: length_concat)
qed

lemma no_padding_2_padding_lr:
  fixes p r :: "nat list" and x :: "('a::zero) list list"
  assumes n: "0 < n" "length p = n" "length r = n" "length x = n" "length (trows am) = n"
    and row: "\<And>i. i < n \<Longrightarrow> trows am ! i = lr_mask_row (tcols prompts) (p ! i) (r ! i) (tcols responses)
                \<and> 0 < p ! i \<and> p ! i \<le> tcols prompts \<and> r ! i \<le> tcols responses
                \<and> length (x ! i) = tcols prompts + tcols responses"
  shows "no_padding_2_padding (concat (map2 unpad_row (trows am) x)) (PaddedLayout prompts responses am) k
       = Inr (map (\<lambda>i. pad_right (int (tcols responses) - int (r ! i))
                 (take (r ! i) (drop (tcols prompts - 1) (x ! i)))) [0..<n])"
proof -
  let ?P = "tcols prompts"
  define v where "v = map2 unpad_row (trows am) x"
  have v: "length v = n" "\<And>i. i < n \<Longrightarrow> v ! i = take (p ! i + r ! i) (drop (?P - p ! i) (x ! i))"
    unfolding v_def using n row by (auto simp: unpad_lr_mask_row)
  have vl: "length (v ! i) = p ! i + r ! i" if "i < n" for i
    using row[OF that] v(2)[OF that] by simp
  have "take (r ! i) (drop (p ! i - 1) (v ! i)) = take (r ! i) (drop (?P - 1) (x ! i))" if "i < n" for i
    using row[OF that] by (simp add: v(2)[OF that] drop_take min_def)
  then show ?thesis
    using no_padding_2_padding_vals[OF n(1-3) v(1) n(5) _ vl, of prompts responses k] row
    by (simp add: v_def[symmetric] cong: map_cong)
qed

section \<open>Alignment of the outputs\<close>

text \<open>
  C6. Take a left-right padded batch of at least one row, in which row \<open>i\<close> has \<open>p ! i > 0\<close> prompt
  tokens right before the response columns and \<open>r ! i\<close> response tokens right after them. Strip it
  with \<open>left_right_2_no_padding\<close>, compute any per-token output \<open>f\<close> on the packed tokens, and call
  \<open>no_padding_2_padding\<close>. Neither conversion raises; the result is a full \<open>bsz\<close> by
  \<open>max_response_len\<close> matrix whose entry \<open>t\<close> of row \<open>i\<close> is the output at the token that precedes
  response token \<open>t\<close> in the padded input (the last prompt token for \<open>t = 0\<close>), and zero on the
  padding. So log probabilities line up with the response whatever the paddings of the other rows.
\<close>

theorem padding_roundtrip_aligned:
  fixes f :: "int \<Rightarrow> 'a::zero" and p r :: "nat list"
  assumes n: "0 < n" "length p = n" "length r = n" "length (trows ids) = n" "length (trows am) = n"
    and twf: "twf ids" "tcols ids = tcols prompts + tcols responses"
    and row: "\<forall>i < n. trows am ! i = lr_mask_row (tcols prompts) (p ! i) (r ! i) (tcols responses)
                \<and> 0 < p ! i \<and> p ! i \<le> tcols prompts \<and> r ! i \<le> tcols responses"
    and data: "pd_input_ids data = Some ids" "pd_attention_mask data = Some am"
      "pd_response_mask data = Some rm" "pd_position_ids data = Some pos"
  shows "\<exists>jg out. left_right_2_no_padding data = Inr jg \<and>
     no_padding_2_padding (map f (concat (jg_input_ids jg))) (PaddedLayout prompts responses am) k = Inr out \<and>
     length out = n \<and>
     (\<forall>i < n. length (out ! i) = tcols responses \<and>
        (\<forall>t < tcols responses. out ! i ! t =
           (if t < r ! i then f (tnth ids i (tcols prompts - 1 + t)) else 0)))"
proof -
  let ?P = "tcols prompts" and ?R = "tcols responses"
  let ?x = "map (map f) (trows ids)"
  obtain jg where jg: "left_right_2_no_padding data = Inr jg"
      and ids: "jg_input_ids jg = map2 unpad_row (trows am) (trows ids)"
    using data by (simp add: left_right_2_no_padding_def require_field_def Let_def)
  have unpad: "map f (unpad_row m xs) = unpad_row m (map f xs)" for m and xs :: "int list"
    unfolding unpad_row_def zip_map2 filter_map by (auto simp: o_def split_def)
  have vals: "map f (concat (jg_input_ids jg)) = concat (map2 unpad_row (trows am) ?x)"
    unfolding ids map_concat by (simp add: zip_map2 unpad split_def o_def)
  define out where "out = map (\<lambda>i. pad_right (int ?R - int (r ! i))
      (take (r ! i) (drop (?P - 1) (?x ! i)))) [0..<n]"
  have ret: "no_padding_2_padding (concat (map2 unpad_row (trows am) ?x))
      (PaddedLayout prompts responses am) k = Inr out"
    unfolding out_def using n row twf by (intro no_padding_2_padding_lr) (auto simp: twf_row)
  have lens: "length (out ! i) = ?R" and
    nth: "t < ?R \<Longrightarrow> out ! i ! t = (if t < r ! i then f (tnth ids i (?P - 1 + t)) else 0)"
    if i: "i < n" for i t
  proof -
    have b: "0 < p ! i" "p ! i \<le> ?P" "r ! i \<le> ?R" "length (trows ids ! i) = ?P + ?R"
      using row i n twf by (auto simp: twf_row)
    then show "length (out ! i) = ?R"
      using i n by (simp add: out_def pad_right_def)
    show "out ! i ! t = (if t < r ! i then f (tnth ids i (?P - 1 + t)) else 0)" if "t < ?R"
      using that b i n by (simp add: out_def pad_right_def nth_append tnth_def)
  qed
  show ?thesis using jg ret lens nth by (auto simp: vals out_def)
qed

lemma padding_roundtrip_aligned_witness:
  "\<exists>jg out. left_right_2_no_padding
       \<lparr>pd_input_ids = Some (Tensor2 5 [[0, 7, 8, 9, 0], [4, 5, 6, 3, 2]]),
        pd_attention_mask = Some (Tensor2 5 [[0, 1, 1, 1, 0], [1, 1, 1, 1, 1]]),
        pd_response_mask = Some (Tensor2 2 [[1, 0], [1, 1]]),
        pd_position_ids = Some (Pos2 [[0, 0, 1, 2, 2], [0, 1, 2, 3, 4]]),
        pd_routed_experts = None, pd_teacher_logprobs = None, pd_teacher_ids = None\<rparr> = Inr jg
     \<and> no_padding_2_padding (map (\<lambda>k. 10 * k) (concat (jg_input_ids jg)))
         (PaddedLayout (Tensor2 3 [[0, 7, 8], [4, 5, 6]]) (Tensor2 2 [[9, 0], [3, 2]])
            (Tensor2 5 [[0, 1, 1, 1, 0], [1, 1, 1, 1, 1]])) (- 1) = Inr out
     \<and> out ! 0 ! 0 = 80 \<and> out ! 0 ! 1 = 0 \<and> out ! 1 ! 1 = (30 :: int)"
    (is "\<exists>jg out. left_right_2_no_padding ?data = _ \<and> no_padding_2_padding _ (PaddedLayout ?ps ?rs ?am) _ = _ \<and> _")
proof -
  have rows: "(\<forall>i < 2. Q i) \<longleftrightarrow> Q 0 \<and> Q 1" for Q :: "nat \<Rightarrow> bool"
    by (auto simp: less_2_cases_iff)
  have inst: "\<exists>jg out. left_right_2_no_padding ?data = Inr jg \<and>
     no_padding_2_padding (map (\<lambda>k. 10 * k) (concat (jg_input_ids jg))) (PaddedLayout ?ps ?rs ?am) (- 1) = Inr out \<and>
     length out = 2 \<and>
     (\<forall>i < 2. length (out ! i) = tcols ?rs \<and>
        (\<forall>t < tcols ?rs. out ! i ! t =
           (if t < [1, 2] ! i
            then 10 * tnth (Tensor2 5 [[0, 7, 8, 9, 0], [4, 5, 6, 3, 2]]) i (tcols ?ps - 1 + t) else (0 :: int))))"
    by (rule padding_roundtrip_aligned
          [where p = "[2, 3]" and rm = "Tensor2 2 [[1, 0], [1, 1]]"
             and pos = "Pos2 [[0, 0, 1, 2, 2], [0, 1, 2, 3, 4]]"])
       (simp_all add: rows twf_def lr_mask_row_def numeral_eq_Suc All_less_Suc)
  then obtain jg out where
    "left_right_2_no_padding ?data = Inr jg"
    "no_padding_2_padding (map (\<lambda>k. 10 * k) (concat (jg_input_ids jg))) (PaddedLayout ?ps ?rs ?am) (- 1) = Inr out"
    "out ! 0 ! 0 = 80" "out ! 0 ! 1 = 0" "out ! 1 ! 1 = 30"
    by (auto simp: rows tnth_def)
  then show ?thesis by blast
qed

end
