(* ===== verification/TrainerHook.thy ===== *)
theory TrainerHook
  imports Rlsd ScoreBatch Padding
begin

text \<open>
  The trainer of \<open>verl/trainer/extpi_rlsd/trainer.py\<close>: the hook that runs before every actor update
  and adds the teacher's log probabilities to the batch. The state is what the trainer keeps
  between steps (step counter, step of the last teacher snapshot, cached inline scorer with its
  model state, timings). The worker groups, the loading of a teacher model, the clock and the GPU
  counters are parameters.

  A call that raises ends the training run, so the state of a failed call is not modelled.
\<close>

section \<open>Configuration and state\<close>

text \<open>An absent key is \<open>None\<close>; the defaults are those of the code.\<close>

definition conf :: "'a option \<Rightarrow> 'a \<Rightarrow> 'a" where
  "conf v d = (case v of None \<Rightarrow> d | Some x \<Rightarrow> x)"

record policy_loss =
  pl_rlsd_enabled :: "bool option"
  pl_opd_pg_enabled :: "bool option"
  pl_rlsd_lambda :: "real option"
  pl_warmup_steps :: "int option"
  pl_decay_steps :: "int option"
  pl_rlsd_token_mask :: "string option"

record extpi_config =
  xc_backend :: "string option"
  xc_direct_max_prompt_length :: "nat option"
  xc_allow_truncation :: "bool option"
  xc_direct_thinking :: "bool option"
  xc_teacher_update_mode :: "string option"
  xc_teacher_max_prompt_length :: "nat option"
  xc_online_thinking :: "bool option"
  xc_pi_trace_field :: "string option"
  xc_teacher_sync_interval :: "int option"
  xc_teacher_model_path :: "string option"
  xc_teacher_device :: "string option"
  xc_teacher_dtype :: "string option"
  xc_trust_remote_code :: "bool option"
  xc_attn_implementation :: "string option"
  xc_micro_batch_size :: "int option"
  xc_temperature :: "real option"

record trainer_config =
  tc_policy_loss :: policy_loss
  tc_extpi :: extpi_config
  tc_max_prompt_length :: nat
  tc_rollout_n :: int
  tc_temperature :: real
  tc_ref_in_actor :: bool
  tc_extpi_teacher_adapter :: bool

text \<open>Metadata sent with a batch: temperature and which adapter computes.\<close>

record actor_meta =
  am_temperature :: real
  am_no_lora_adapter :: bool
  am_lora_adapter_name :: "string option"

text \<open>
  A worker group in state \<open>'w\<close>: log probabilities of a jagged batch (one list per sequence), the
  snapshot of one adapter into another, and the separate reference policy.
\<close>

record 'w workers =
  wk_compute_log_prob :: "'w \<Rightarrow> jagged_batch \<Rightarrow> actor_meta \<Rightarrow> fl list list res"
  wk_compute_ref_log_prob :: "'w \<Rightarrow> jagged_batch \<Rightarrow> actor_meta \<Rightarrow> fl list list res"
  wk_sync_snapshot :: "'w \<Rightarrow> string \<Rightarrow> string \<Rightarrow> 'w"

record 'w trainer =
  tr_global_steps :: int
  tr_last_sync_step :: "int option"
  tr_worker :: 'w
  tr_scorer :: "(teacher_scorer \<times> model_state) option"
  tr_load_gb :: real
  tr_score_time :: real
  tr_max_memory_gb :: real
  tr_memory_gb :: real
  tr_reserved_gb :: real

section \<open>Log probabilities from the workers\<close>

definition score_to_padded :: "score_batch \<Rightarrow> padded_batch" where
  "score_to_padded b =
     \<lparr>pd_input_ids = Some (bt_input_ids b), pd_attention_mask = Some (bt_attention_mask b),
      pd_response_mask = Some (bt_response_mask b), pd_position_ids = Some (Pos2 (trows (bt_position_ids b))),
      pd_routed_experts = None, pd_teacher_logprobs = None, pd_teacher_ids = None\<rparr>"

text \<open>The rows that come back: one per sequence, as wide as the response (stacked, so rectangular).\<close>

definition run_log_prob ::
  "(jagged_batch \<Rightarrow> fl list list res) \<Rightarrow> score_batch \<Rightarrow> fl tensor2 res" where
  "run_log_prob forward b =
     bind_res (left_right_2_no_padding (score_to_padded b)) (\<lambda>jg.
     bind_res (forward jg) (\<lambda>log_probs.
     bind_res (no_padding_2_padding (concat log_probs)
                (PaddedLayout (bt_prompts b) (bt_responses b) (bt_attention_mask b))
                (int (jg_max_response_len jg))) (\<lambda>rows.
       Inr (Tensor2 (tcols (bt_responses b)) rows))))"

definition compute_actor_log_prob ::
  "'w workers \<Rightarrow> trainer_config \<Rightarrow> 'w \<Rightarrow> score_batch \<Rightarrow> bool \<Rightarrow> string option \<Rightarrow> fl tensor2 res" where
  "compute_actor_log_prob wk cfg w b no_lora_adapter lora_adapter_name =
     (if no_lora_adapter \<and> lora_adapter_name \<noteq> None
      then Inl (ValueError ''no_lora_adapter and lora_adapter_name are mutually exclusive'')
      else run_log_prob (\<lambda>jg. wk_compute_log_prob wk w jg
             \<lparr>am_temperature = tc_temperature cfg, am_no_lora_adapter = no_lora_adapter,
              am_lora_adapter_name = lora_adapter_name\<rparr>) b)"

text \<open>\<open>_compute_ref_log_prob\<close> of the base trainer (\<open>verl/trainer/ppo/ray_trainer.py\<close>).\<close>

definition compute_ref_log_prob ::
  "'w workers \<Rightarrow> trainer_config \<Rightarrow> 'w \<Rightarrow> score_batch \<Rightarrow> fl tensor2 res" where
  "compute_ref_log_prob wk cfg w b =
     (let meta = \<lparr>am_temperature = tc_temperature cfg, am_no_lora_adapter = tc_ref_in_actor cfg,
                  am_lora_adapter_name = None\<rparr>
      in run_log_prob (\<lambda>jg. if tc_ref_in_actor cfg then wk_compute_log_prob wk w jg meta
                            else wk_compute_ref_log_prob wk w jg meta) b)"

section \<open>Schedules\<close>

definition compute_effective_rlsd_lambda :: "policy_loss \<Rightarrow> int \<Rightarrow> real res" where
  "compute_effective_rlsd_lambda pl step =
     (let target = conf (pl_rlsd_lambda pl) (1/2);
          warmup = conf (pl_warmup_steps pl) 0;
          decay = conf (pl_decay_steps pl) 0
      in if warmup < 0 then Inl (ValueError ''actor.policy_loss.rlsd_lambda_warmup_steps must be non-negative'')
         else if decay < 0 then Inl (ValueError ''actor.policy_loss.rlsd_lambda_decay_steps must be non-negative'')
         else if 0 < warmup \<and> step < warmup then Inr (target * (of_int step / of_int warmup))
         else if 0 < decay \<and> warmup \<le> step
         then Inr (target * max (1 - (of_int (step - warmup) / of_int decay)) 0)
         else Inr target)"

definition TEACHER_SNAPSHOT_ADAPTER :: string where
  "TEACHER_SNAPSHOT_ADAPTER = ''extpi_teacher''"

definition maybe_sync_teacher_snapshot ::
  "'w workers \<Rightarrow> extpi_config \<Rightarrow> 'w trainer \<Rightarrow> metrics \<Rightarrow> ('w trainer \<times> metrics) res" where
  "maybe_sync_teacher_snapshot wk xc tr ms =
     (let interval = conf (xc_teacher_sync_interval xc) 20
      in if interval \<le> 0
         then Inl (ValueError ''extpi_rlsd.teacher_sync_interval must be positive for periodic_snapshot'')
         else
           let step = tr_global_steps tr;
               should_sync = (case tr_last_sync_step tr of None \<Rightarrow> True | Some l \<Rightarrow> interval \<le> step - l);
               tr' = (if should_sync
                      then tr\<lparr>tr_worker := wk_sync_snapshot wk (tr_worker tr) ''default'' TEACHER_SNAPSHOT_ADAPTER,
                              tr_last_sync_step := Some step\<rparr>
                      else tr)
           in Inr (tr', d_update ms
                [(''extpi/teacher_snapshot_synced'', if should_sync then Fin 1 else Fin 0),
                 (''extpi/teacher_snapshot_step'', Fin (of_int (conf (tr_last_sync_step tr') (- 1)))),
                 (''extpi/teacher_sync_interval'', Fin (of_int interval))]))"

definition compute_pi_teacher_log_prob ::
  "'w workers \<Rightarrow> trainer_config \<Rightarrow> 'w trainer \<Rightarrow> score_batch \<Rightarrow> string \<Rightarrow> metrics
   \<Rightarrow> (fl tensor2 \<times> 'w trainer \<times> metrics) res" where
  "compute_pi_teacher_log_prob wk cfg tr b mode ms =
     (if mode = ''base_no_adapter'' then
        (if \<not> tc_ref_in_actor cfg
         then Inl (ValueError ''teacher_update_mode=base_no_adapter requires a LoRA actor so the base model is in actor'')
         else bind_res (compute_ref_log_prob wk cfg (tr_worker tr) b) (\<lambda>lp. Inr (lp, tr, ms)))
      else if mode = ''current_no_grad'' then
        bind_res (compute_actor_log_prob wk cfg (tr_worker tr) b False None) (\<lambda>lp. Inr (lp, tr, ms))
      else if mode = ''periodic_snapshot'' then
        (if \<not> tc_ref_in_actor cfg
         then Inl (ValueError ''teacher_update_mode=periodic_snapshot requires a LoRA actor'')
         else if \<not> tc_extpi_teacher_adapter cfg
         then Inl (ValueError ''teacher_update_mode=periodic_snapshot requires actor_rollout_ref.model.extpi_teacher_adapter=True'')
         else bind_res (maybe_sync_teacher_snapshot wk (tc_extpi cfg) tr ms) (\<lambda>(tr', ms').
              bind_res (compute_actor_log_prob wk cfg (tr_worker tr') b False (Some TEACHER_SNAPSHOT_ADAPTER))
                (\<lambda>lp. Inr (lp, tr', ms'))))
      else Inl (ValueError ''extpi_rlsd.teacher_update_mode must be one of base_no_adapter, current_no_grad, periodic_snapshot''))"

section \<open>Diagnostics\<close>

text \<open>The training batch: what the builders read and what the hook reads and adds.\<close>

record training_batch =
  tb_source :: source_batch
  tb_old_log_probs :: "fl tensor2 option"
  tb_token_level_scores :: "real tensor2 option"
  tb_uid :: "string list option"
  tb_teacher_opd_log_probs :: "fl tensor2 option"
  tb_teacher_pi_log_probs :: "fl tensor2 option"
  tb_rlsd_token_mask :: "int tensor2 option"
  tb_rlsd_effective_lambda :: "real option"

definition mean_of :: "int list \<Rightarrow> fl" where
  "mean_of xs = fdiv (Fin (of_int (sum_list xs))) (real (length xs))"

definition masked_scores :: "real tensor2 \<Rightarrow> int tensor2 \<Rightarrow> real list" where
  "masked_scores scores msk = map sum_list (trows (tmap2 (\<lambda>x m. x * of_int m) scores msk))"

definition add_training_diagnostics :: "trainer_config \<Rightarrow> training_batch \<Rightarrow> metrics \<Rightarrow> metrics res" where
  "add_training_diagnostics cfg b ms =
     bind_res
       (case sb_response_mask (tb_source b) of
          None \<Rightarrow> Inr ms
        | Some m \<Rightarrow>
            let bm = map (map to_bool) (trows m);
                lengths = map (\<lambda>r. int (count_true r)) bm
            in if tcols m = 0 then Inl IndexError
               else let lm = mean_of lengths; tr = mean_of (map (b2i \<circ> last) bm)
                    in Inr (d_update ms
                        [(''train/step_student_tokens'', Fin (of_int (sum_list lengths))),
                         (''train/response_length_mean'', lm),
                         (''train/truncation_proxy_last_token_ratio'', tr),
                         (''response_length/mean'', lm),
                         (''response_length/clip_ratio'', tr)]))
       (\<lambda>ms1.
        case (tb_token_level_scores b, sb_response_mask (tb_source b)) of
          (Some scores, Some m) \<Rightarrow>
            if tshape scores \<noteq> tshape m then Inl (RuntimeError ''shape mismatch'')
            else
              let (gm, uid_seen, ready) =
                    group_diagnostic_metrics (masked_scores scores m) (tb_uid b) (tc_rollout_n cfg);
                  ms2 = d_update ms1 gm
              in Inr (if ready
                      then d_set ''train/group_metrics_uid_based'' (if uid_seen then Fin 1 else Fin 0) ms2
                      else ms2)
        | _ \<Rightarrow> Inr ms1)"

section \<open>The inline teacher\<close>

text \<open>
  The environment: whether CUDA is visible, how a teacher is loaded (model path, dtype name,
  device, flags; unknown dtypes raise), the hash, and the readings of the GPU counters and the
  clock around loading and scoring.
\<close>

record teacher_env =
  te_cuda :: bool
  te_load :: "string \<Rightarrow> string \<Rightarrow> string \<Rightarrow> bool \<Rightarrow> string
              \<Rightarrow> (teacher_scorer \<times> tokenizer_info \<times> model_state) res"
  te_sha256 :: "string \<Rightarrow> string"
  te_load_before :: real
  te_load_after :: real
  te_score_seconds :: real
  te_max_memory :: real
  te_memory :: real
  te_reserved :: real

definition on_cuda :: "extpi_config \<Rightarrow> bool" where
  "on_cuda xc = starts_with ''cuda'' (conf (xc_teacher_device xc) ''cuda'')"

definition get_direct_opd_scorer ::
  "teacher_env \<Rightarrow> tokenizer_info \<Rightarrow> extpi_config \<Rightarrow> 'w trainer
   \<Rightarrow> ((teacher_scorer \<times> model_state) \<times> 'w trainer) res" where
  "get_direct_opd_scorer env tok xc tr =
     (case tr_scorer tr of
        Some sc \<Rightarrow> Inr (sc, tr)
      | None \<Rightarrow>
          (let path = conf (xc_teacher_model_path xc) [];
               device = conf (xc_teacher_device xc) ''cuda''
           in if path = []
              then Inl (ValueError ''direct_opd_teacher_model_path is required when direct_opd_enabled=True'')
              else if on_cuda xc \<and> \<not> te_cuda env
              then Inl (RuntimeError ''inline_external_hf requires CUDA visible in the trainer actor.'')
              else
                let before = (if on_cuda xc \<and> te_cuda env then te_load_before env else 0)
                in bind_res (te_load env path (conf (xc_teacher_dtype xc) ''bfloat16'') device
                       (conf (xc_trust_remote_code xc) True)
                       (conf (xc_attn_implementation xc) ''flash_attention_2''))
                     (\<lambda>(sc, teacher_tok, mst).
                   bind_res (assert_tokenizer_compatible (te_sha256 env) tok teacher_tok None) (\<lambda>_.
                     let after = (if on_cuda xc \<and> te_cuda env then te_load_after env else 0)
                     in Inr ((sc, mst), tr\<lparr>tr_load_gb := max 0 (after - before),
                                           tr_scorer := Some (sc, mst)\<rparr>)))))"

text \<open>The requests of \<open>range(0, n, micro_batch_size)\<close>, scored one after the other.\<close>

function chunk_starts :: "nat \<Rightarrow> nat \<Rightarrow> nat \<Rightarrow> nat list" where
  "chunk_starts mbs start n =
     (if mbs = 0 \<or> n \<le> start then [] else start # chunk_starts mbs (start + mbs) n)"
  by pat_completeness auto
termination by (relation "measure (\<lambda>(_, start, n). n - start)") auto

declare chunk_starts.simps [simp del]

definition micro_request :: "score_batch \<Rightarrow> real \<Rightarrow> nat \<Rightarrow> nat \<Rightarrow> TeacherScoreRequest" where
  "micro_request b temperature mbs start =
     \<lparr>rq_prompt_input_ids = tslice_rows start (start + mbs) (bt_prompts b),
      rq_prompt_attention_mask =
        ttake_cols (tcols (bt_prompts b)) (tslice_rows start (start + mbs) (bt_attention_mask b)),
      rq_response_ids = tslice_rows start (start + mbs) (bt_responses b),
      rq_response_mask = tslice_rows start (start + mbs) (bt_response_mask b),
      rq_temperature = temperature\<rparr>"

fun score_all ::
  "teacher_scorer \<Rightarrow> TeacherScoreRequest list \<Rightarrow> model_state \<Rightarrow> (real tensor2 list \<times> model_state) res" where
  "score_all sc [] st = Inr ([], st)"
| "score_all sc (rq # rqs) st =
     (case score sc rq st of
        (Inl e, _) \<Rightarrow> Inl e
      | (Inr out, st') \<Rightarrow>
          bind_res (score_all sc rqs st') (\<lambda>(outs, st'').
            Inr (so_response_log_probs out # outs, st'')))"

definition tcat0 :: "'a tensor2 list \<Rightarrow> 'a tensor2 res" where
  "tcat0 ts =
     (case ts of
        [] \<Rightarrow> Inl (RuntimeError ''torch.cat(): expected a non-empty list of Tensors'')
      | t # _ \<Rightarrow> if \<forall>u \<in> set ts. tcols u = tcols t
                 then Inr (Tensor2 (tcols t) (concat (map trows ts)))
                 else Inl (RuntimeError ''sizes of tensors must match except in dimension 0''))"

definition score_direct_opd_inline ::
  "teacher_env \<Rightarrow> tokenizer_info \<Rightarrow> extpi_config \<Rightarrow> score_batch \<Rightarrow> 'w trainer
   \<Rightarrow> (real tensor2 \<times> 'w trainer) res" where
  "score_direct_opd_inline env tok xc b tr =
     bind_res (get_direct_opd_scorer env tok xc tr) (\<lambda>((sc, mst), tr1).
       let mbs = conf (xc_micro_batch_size xc) 1;
           n = length (trows (bt_responses b));
           track = (on_cuda xc \<and> te_cuda env);
           temperature = conf (xc_temperature xc) 1
       in if mbs = 0 then Inl (ValueError ''range() arg 3 must not be zero'')
          else
            let starts = (if mbs < 0 then [] else chunk_starts (nat mbs) 0 n)
            in bind_res (score_all sc (map (micro_request b temperature (nat mbs)) starts) mst)
                 (\<lambda>(outs, mst').
               bind_res (tcat0 outs) (\<lambda>lp.
                 Inr (lp, tr1\<lparr>tr_scorer := Some (sc, mst'), tr_score_time := te_score_seconds env,
                              tr_max_memory_gb := if track then te_max_memory env else 0,
                              tr_memory_gb := if track then te_memory env else 0,
                              tr_reserved_gb := if track then te_reserved env else 0\<rparr>))))"

section \<open>Before every actor update\<close>

definition require_tensor :: "string \<Rightarrow> 'a option \<Rightarrow> 'a res" where
  "require_tensor k v = (case v of None \<Rightarrow> Inl (KeyError k) | Some x \<Rightarrow> Inr x)"

definition m_index :: "string \<Rightarrow> metrics \<Rightarrow> fl res" where
  "m_index k ms = (case map_of ms k of None \<Rightarrow> Inl (KeyError k) | Some v \<Rightarrow> Inr v)"

text \<open>Teacher log probabilities of the shape of the mask, and their masked copy.\<close>

definition masked_teacher ::
  "string \<Rightarrow> fl tensor2 \<Rightarrow> int tensor2 \<Rightarrow> fl tensor2 res" where
  "masked_teacher what lp m =
     (if tshape lp \<noteq> tshape m then Inl (ValueError (what @ '' shape mismatch''))
      else Inr (tmap2 (*) lp (as_mask m)))"

definition opd_branch ::
  "teacher_env \<Rightarrow> tokenizer_info \<Rightarrow> prefix_tokenizer \<Rightarrow> trainer_config \<Rightarrow> 'w trainer \<Rightarrow> training_batch
   \<Rightarrow> metrics \<Rightarrow> (training_batch \<times> 'w trainer \<times> metrics) res" where
  "opd_branch env tok ptk cfg tr b ms =
     (let xc = tc_extpi cfg
      in if conf (xc_backend xc) ''inline_external_hf'' \<noteq> ''inline_external_hf''
         then Inl (NotImplementedError ''Direct OPD-PG MVP only supports direct_opd_teacher_backend=inline_external_hf'')
         else
           bind_res (build_direct_opd_teacher_score_batch (tb_source b) ptk
               (conf (xc_direct_max_prompt_length xc) (tc_max_prompt_length cfg))
               (conf (xc_allow_truncation xc) True) (conf (xc_direct_thinking xc) False)) (\<lambda>build.
           bind_res (score_direct_opd_inline env tok xc (bb_batch build) tr) (\<lambda>(lp_real, tr').
           bind_res (require_tensor ''old_log_probs'' (tb_old_log_probs b)) (\<lambda>old.
           bind_res (require_tensor ''response_mask'' (sb_response_mask (tb_source b))) (\<lambda>m.
             let lp = map_tensor2 Fin lp_real
             in bind_res (masked_teacher ''teacher_opd_log_probs'' lp m) (\<lambda>masked.
                let boolmask = map_tensor2 (b2f \<circ> to_bool) m; ms1 = d_update ms (bb_metrics build)
                in bind_res (m_index ''opd/teacher_response_tokens'' ms1) (\<lambda>tokens.
                   if tshape old \<noteq> tshape lp then Inl (RuntimeError ''shape mismatch'')
                   else Inr (b\<lparr>tb_teacher_opd_log_probs := Some masked\<rparr>, tr',
                     d_update ms1
                       [(''train/step_teacher_tokens'', tokens),
                        (''opd/teacher_logp_mean'', masked_mean lp boolmask),
                        (''opd/teacher_delta_mean'', masked_mean (tmap2 (-) lp old) boolmask),
                        (''opd/inline_teacher_load_gb'', Fin (tr_load_gb tr')),
                        (''opd/inline_teacher_score_time'', Fin (tr_score_time tr')),
                        (''opd/inline_teacher_max_memory_allocated_gb'', Fin (tr_max_memory_gb tr')),
                        (''opd/inline_teacher_memory_allocated_gb'', Fin (tr_memory_gb tr')),
                        (''opd/inline_teacher_memory_reserved_gb'', Fin (tr_reserved_gb tr'))]))))))))"

definition token_mask_ratio_of :: "int tensor2 \<Rightarrow> int tensor2 \<Rightarrow> fl" where
  "token_mask_ratio_of tok m =
     fdivf (Fin (of_int (sum_list (tflat tok)))) (fclamp_min 1 (Fin (of_int (sum_list (tflat m)))))"

definition rlsd_branch ::
  "(pyval \<Rightarrow> string) \<Rightarrow> 'w workers \<Rightarrow> prefix_tokenizer \<Rightarrow> trainer_config \<Rightarrow> 'w trainer \<Rightarrow> training_batch
   \<Rightarrow> metrics \<Rightarrow> (training_batch \<times> 'w trainer \<times> metrics) res" where
  "rlsd_branch rp wk ptk cfg tr b ms =
     (let xc = tc_extpi cfg; pl = tc_policy_loss cfg in
      bind_res (compute_effective_rlsd_lambda pl (tr_global_steps tr)) (\<lambda>eff.
      bind_res (require_tensor ''response_mask'' (sb_response_mask (tb_source b))) (\<lambda>m.
      bind_res (build_rlsd_token_mask m (conf (pl_rlsd_token_mask pl) ''all'')) (\<lambda>tok.
        let ms1 = d_update ms [(''rlsd/effective_lambda'', Fin eff),
                               (''rlsd/token_mask_ratio'', token_mask_ratio_of tok m)];
            fld = conf (xc_pi_trace_field xc) DEFAULT_PI_TRACE_FIELD
        in bind_res (build_pi_teacher_score_batch rp (tb_source b) ptk
               (conf (xc_teacher_max_prompt_length xc) (tc_max_prompt_length cfg))
               (conf (xc_allow_truncation xc) True) (conf (xc_online_thinking xc) False) fld) (\<lambda>build.
           bind_res (compute_pi_teacher_log_prob wk cfg tr (bb_batch build)
               (py_lower (conf (xc_teacher_update_mode xc) ''base_no_adapter'')) ms1) (\<lambda>(lp, tr', ms2).
           bind_res (require_tensor ''old_log_probs'' (tb_old_log_probs b)) (\<lambda>old.
           bind_res (masked_teacher ''teacher_pi_log_probs'' lp m) (\<lambda>masked.
             let boolmask = map_tensor2 (b2f \<circ> to_bool) m; ms3 = d_update ms2 (bb_metrics build)
             in bind_res (m_index ''extpi/pi_teacher_prompt_tokens_mean'' ms3) (\<lambda>mean.
                bind_res (m_index ''extpi/pi_teacher_response_tokens'' ms3) (\<lambda>resp.
                if tshape old \<noteq> tshape lp then Inl (RuntimeError ''shape mismatch'')
                else
                  let prompt_total = mean * Fin (real (length (trows m)))
                  in Inr (b\<lparr>tb_rlsd_effective_lambda := Some eff, tb_rlsd_token_mask := Some tok,
                            tb_teacher_pi_log_probs := Some masked\<rparr>, tr',
                       d_update ms3
                         [(''extpi/pi_trace_field_is_qwen32b'',
                            if fld = DEFAULT_PI_TRACE_FIELD then Fin 1 else Fin 0),
                          (''extpi/pi_teacher_prompt_tokens_total'', prompt_total),
                          (''train/step_teacher_tokens'', prompt_total + resp),
                          (''extpi/teacher_pi_logp_mean'', masked_mean lp boolmask),
                          (''extpi/teacher_pi_delta_mean'', masked_mean (tmap2 (-) lp old) boolmask)])))))))))))"

definition before_actor_update ::
  "(pyval \<Rightarrow> string) \<Rightarrow> 'w workers \<Rightarrow> teacher_env \<Rightarrow> tokenizer_info \<Rightarrow> prefix_tokenizer \<Rightarrow> trainer_config
   \<Rightarrow> 'w trainer \<Rightarrow> training_batch \<Rightarrow> metrics \<Rightarrow> (training_batch \<times> 'w trainer \<times> metrics) res" where
  "before_actor_update rp wk env tok ptk cfg tr b ms =
     (let pl = tc_policy_loss cfg;
          rlsd_enabled = conf (pl_rlsd_enabled pl) False;
          opd_pg_enabled = conf (pl_opd_pg_enabled pl) False
      in if rlsd_enabled \<and> opd_pg_enabled
         then Inl (ValueError ''RLSD and direct OPD-PG modes are mutually exclusive'')
         else bind_res (add_training_diagnostics cfg b ms) (\<lambda>ms1.
           if \<not> rlsd_enabled \<and> \<not> opd_pg_enabled then Inr (b, tr, ms1)
           else if opd_pg_enabled then opd_branch env tok ptk cfg tr b ms1
           else rlsd_branch rp wk ptk cfg tr b ms1))"

section \<open>The schedule of the mixing weight\<close>

text \<open>
  The effective lambda is defined exactly when warm-up and decay lengths are not negative. For a
  target that is not negative and a step that is not negative it lies between zero and the target;
  with a warm-up it starts at zero and reaches the target at its last step, where it stays without
  a decay; with a decay it is zero from the end of the decay on, and never grows after the warm-up.
\<close>

theorem effective_lambda_schedule:
  assumes pl: "conf (pl_rlsd_lambda pl) (1/2) = lam0" "conf (pl_warmup_steps pl) 0 = w" "conf (pl_decay_steps pl) 0 = d"
  shows "((\<exists>x. compute_effective_rlsd_lambda pl s = Inr x) \<longleftrightarrow> 0 \<le> w \<and> 0 \<le> d) \<and>
    (\<forall>x. compute_effective_rlsd_lambda pl s = Inr x \<longrightarrow> 0 \<le> lam0 \<longrightarrow> 0 \<le> s \<longrightarrow>
       0 \<le> x \<and> x \<le> lam0 \<and> (s = 0 \<and> 0 < w \<longrightarrow> x = 0) \<and> (s = w \<longrightarrow> x = lam0) \<and>
       (w \<le> s \<and> d = 0 \<longrightarrow> x = lam0) \<and> (0 < d \<and> w + d \<le> s \<longrightarrow> x = 0) \<and>
       (\<forall>t y. w \<le> s \<longrightarrow> s \<le> t \<longrightarrow> compute_effective_rlsd_lambda pl t = Inr y \<longrightarrow> y \<le> x))"
proof -
  have eq: "compute_effective_rlsd_lambda pl s =
      (if w < 0 then Inl (ValueError ''actor.policy_loss.rlsd_lambda_warmup_steps must be non-negative'')
       else if d < 0 then Inl (ValueError ''actor.policy_loss.rlsd_lambda_decay_steps must be non-negative'')
       else if 0 < w \<and> s < w then Inr (lam0 * (of_int s / of_int w))
       else if 0 < d \<and> w \<le> s then Inr (lam0 * max (1 - (of_int (s - w) / of_int d)) 0)
       else Inr lam0)" for s
    unfolding compute_effective_rlsd_lambda_def pl Let_def ..
  have ret: "(\<exists>x. compute_effective_rlsd_lambda pl s = Inr x) \<longleftrightarrow> 0 \<le> w \<and> 0 \<le> d"
    unfolding eq by auto
  have up: "lam0 * (of_int s / of_int w) \<le> lam0" if "0 \<le> lam0" "0 < w" "s < w"
    using that by (intro mult_left_le) auto
  have down: "lam0 * max (1 - (of_int (s - w) / of_int d)) 0 \<le> lam0"
    if "0 \<le> lam0" "0 < d" "w \<le> s" for s
    using that by (intro mult_left_le) auto
  have decr: "lam0 * max (1 - (of_int (t - w) / of_int d)) 0 \<le> lam0 * max (1 - (of_int (s - w) / of_int d)) 0"
    if "0 \<le> lam0" "0 < d" "s \<le> t" for t
    using that by (intro mult_left_mono max.mono) (auto intro!: divide_right_mono)
  have "0 \<le> x \<and> x \<le> lam0 \<and> (s = 0 \<and> 0 < w \<longrightarrow> x = 0) \<and> (s = w \<longrightarrow> x = lam0) \<and>
       (w \<le> s \<and> d = 0 \<longrightarrow> x = lam0) \<and> (0 < d \<and> w + d \<le> s \<longrightarrow> x = 0) \<and>
       (\<forall>t y. w \<le> s \<longrightarrow> s \<le> t \<longrightarrow> compute_effective_rlsd_lambda pl t = Inr y \<longrightarrow> y \<le> x)"
    if x: "compute_effective_rlsd_lambda pl s = Inr x" and nn: "0 \<le> lam0" "0 \<le> s" for x
  proof -
    have wd: "0 \<le> w" "0 \<le> d" using x ret by auto
    consider "s < w" | "w \<le> s" "0 < d" | "w \<le> s" "d = 0" using wd by fastforce
    then show ?thesis
    proof cases
      case 1
      then have "x = lam0 * (of_int s / of_int w)" using x wd nn unfolding eq by (auto split: if_splits)
      with 1 nn wd up show ?thesis by auto
    next
      case 2
      then have xv: "x = lam0 * max (1 - (of_int (s - w) / of_int d)) 0"
        using x wd unfolding eq by (auto split: if_splits)
      have "y \<le> x" if "s \<le> t" "compute_effective_rlsd_lambda pl t = Inr y" for t y
      proof -
        have "y = lam0 * max (1 - (of_int (t - w) / of_int d)) 0"
          using that 2 wd unfolding eq by (auto split: if_splits)
        with decr[OF nn(1) 2(2) that(1)] xv show ?thesis by simp
      qed
      moreover have "x = 0" if "w + d \<le> s"
      proof -
        have "of_int d \<le> (of_int (s - w) :: real)" using that by linarith
        then have "1 - of_int (s - w) / of_int d \<le> (0 :: real)" using 2(2) by (simp add: le_divide_eq)
        then show ?thesis by (simp add: xv max_absorb2)
      qed
      moreover have "0 \<le> x" using nn by (simp add: xv)
      moreover have "x \<le> lam0" using down[OF nn(1) 2(2,1)] by (simp add: xv)
      moreover have "s = w \<longrightarrow> x = lam0" by (simp add: xv)
      moreover have "s = 0 \<and> 0 < w \<longrightarrow> x = 0" using 2 by simp
      ultimately show ?thesis using 2 by auto
    next
      case 3
      then have "x = lam0" using x wd unfolding eq by (auto split: if_splits)
      moreover have "y = lam0" if "s \<le> t" "compute_effective_rlsd_lambda pl t = Inr y" for t y
        using that 3 wd unfolding eq by (auto split: if_splits)
      ultimately show ?thesis using 3 nn by auto
    qed
  qed
  with ret show ?thesis by blast
qed

lemma effective_lambda_schedule_example:
  "\<exists>x. compute_effective_rlsd_lambda
     \<lparr>pl_rlsd_enabled = Some True, pl_opd_pg_enabled = None, pl_rlsd_lambda = Some (4/5),
      pl_warmup_steps = Some 10, pl_decay_steps = Some 20, pl_rlsd_token_mask = None\<rparr> 15 = Inr x
     \<and> 0 \<le> x \<and> x \<le> 4/5"
  using effective_lambda_schedule
    [of "\<lparr>pl_rlsd_enabled = Some True, pl_opd_pg_enabled = None, pl_rlsd_lambda = Some (4/5),
          pl_warmup_steps = Some 10, pl_decay_steps = Some 20, pl_rlsd_token_mask = None\<rparr>" "4/5" 10 20 15]
  by (auto simp: conf_def)

section \<open>Teacher snapshots\<close>

text \<open>
  What the snapshot of the worker does: the adapters of a worker are read by \<open>ad\<close> (parameters by adapter name), and the
  target adapter becomes a copy of the source adapter, all others stay. Training changes the adapter \<open>default\<close> only.
\<close>

definition snapshot_law :: "'w workers \<Rightarrow> ('w \<Rightarrow> string \<Rightarrow> 'p) \<Rightarrow> bool" where
  "snapshot_law wk ad \<longleftrightarrow>
     (\<forall>w source target name. ad (wk_sync_snapshot wk w source target) name = ad w (if name = target then source else name))"

text \<open>
  A run of the trainer in the mode \<open>periodic_snapshot\<close>: every call scores a batch with the teacher; between two calls the
  step counter does not go back and training changes the worker except for the teacher's adapter. Two histories are kept,
  the newest entry first: step and parameters of the actor at every call, and the steps at which the metrics report a
  synchronisation.
\<close>

inductive snapshot_run ::
  "'w workers \<Rightarrow> ('w \<Rightarrow> string \<Rightarrow> 'p) \<Rightarrow> trainer_config \<Rightarrow> 'w trainer \<Rightarrow> (int \<times> 'p) list \<Rightarrow> int list \<Rightarrow> bool"
  for wk :: "'w workers" and ad :: "'w \<Rightarrow> string \<Rightarrow> 'p" and cfg :: trainer_config where
  start: "tr_last_sync_step tr = None \<Longrightarrow> snapshot_run wk ad cfg tr [] []"
| step: "snapshot_run wk ad cfg tr calls syncs \<Longrightarrow> tr_global_steps tr \<le> g \<Longrightarrow>
    ad w TEACHER_SNAPSHOT_ADAPTER = ad (tr_worker tr) TEACHER_SNAPSHOT_ADAPTER \<Longrightarrow>
    compute_pi_teacher_log_prob wk cfg (tr\<lparr>tr_global_steps := g, tr_worker := w\<rparr>) b ''periodic_snapshot'' ms
      = Inr (lp, tr', ms') \<Longrightarrow>
    snapshot_run wk ad cfg tr' ((g, ad w ''default'') # calls)
      (if map_of ms' ''extpi/teacher_snapshot_synced'' = Some (Fin 1) then g # syncs else syncs)"

inductive_cases snapshot_runE: "snapshot_run wk ad cfg tr calls syncs"

lemma periodic_call:
  assumes "compute_pi_teacher_log_prob wk cfg tr b ''periodic_snapshot'' ms = Inr (lp, tr', ms')"
  shows "maybe_sync_teacher_snapshot wk (tc_extpi cfg) tr ms = Inr (tr', ms')"
    and "compute_actor_log_prob wk cfg (tr_worker tr') b False (Some TEACHER_SNAPSHOT_ADAPTER) = Inr lp"
  using assms by (auto simp: compute_pi_teacher_log_prob_def bind_res_Inr split: if_splits)

lemma maybe_sync_cases:
  assumes "maybe_sync_teacher_snapshot wk xc tr ms = Inr (tr', ms')"
  obtains "0 < conf (xc_teacher_sync_interval xc) 20"
    "\<forall>l. tr_last_sync_step tr = Some l \<longrightarrow> conf (xc_teacher_sync_interval xc) 20 \<le> tr_global_steps tr - l"
    "map_of ms' ''extpi/teacher_snapshot_synced'' = Some (Fin 1)"
    "tr' = tr\<lparr>tr_worker := wk_sync_snapshot wk (tr_worker tr) ''default'' TEACHER_SNAPSHOT_ADAPTER,
              tr_last_sync_step := Some (tr_global_steps tr)\<rparr>"
  | l where "0 < conf (xc_teacher_sync_interval xc) 20" "tr_last_sync_step tr = Some l"
    "tr_global_steps tr - l < conf (xc_teacher_sync_interval xc) 20"
    "map_of ms' ''extpi/teacher_snapshot_synced'' = Some (Fin 0)" "tr' = tr"
proof -
  let ?i = "conf (xc_teacher_sync_interval xc) 20"
  let ?s = "case tr_last_sync_step tr of None \<Rightarrow> True | Some l \<Rightarrow> ?i \<le> tr_global_steps tr - l"
  have pos: "0 < ?i" using assms by (auto simp: maybe_sync_teacher_snapshot_def Let_def split: if_splits)
  have synced: "map_of ms' ''extpi/teacher_snapshot_synced'' = Some (if ?s then Fin 1 else Fin 0)"
    using assms pos
    by (auto simp: maybe_sync_teacher_snapshot_def Let_def d_update_def map_of_d_set)
  show thesis
  proof (cases ?s)
    case True
    then have "tr' = tr\<lparr>tr_worker := wk_sync_snapshot wk (tr_worker tr) ''default'' TEACHER_SNAPSHOT_ADAPTER,
              tr_last_sync_step := Some (tr_global_steps tr)\<rparr>"
      using assms pos by (simp add: maybe_sync_teacher_snapshot_def Let_def)
    moreover have "\<forall>l. tr_last_sync_step tr = Some l \<longrightarrow> ?i \<le> tr_global_steps tr - l" using True by auto
    ultimately show thesis using that(1) pos synced True by simp
  next
    case False
    then obtain l where "tr_last_sync_step tr = Some l" "tr_global_steps tr - l < ?i"
      by (auto split: option.splits)
    moreover have "tr' = tr" using assms pos False by (simp add: maybe_sync_teacher_snapshot_def Let_def)
    ultimately show thesis using that(2) pos synced False by simp
  qed
qed

lemma snapshot_run_inv:
  "snapshot_run wk ad cfg tr calls syncs \<Longrightarrow> snapshot_law wk ad \<Longrightarrow>
   (case tr_last_sync_step tr of
      None \<Rightarrow> syncs = [] \<and> calls = []
    | Some l \<Rightarrow> (\<exists>rest. syncs = l # rest) \<and> l \<le> tr_global_steps tr
        \<and> tr_global_steps tr - l < conf (xc_teacher_sync_interval (tc_extpi cfg)) 20
        \<and> (l, ad (tr_worker tr) TEACHER_SNAPSHOT_ADAPTER) \<in> set calls
        \<and> hd calls = (tr_global_steps tr, ad (tr_worker tr) ''default'')) \<and>
   sorted_wrt (\<lambda>a b. conf (xc_teacher_sync_interval (tc_extpi cfg)) 20 \<le> a - b) syncs"
proof (induction rule: snapshot_run.induct)
  case (step tr calls syncs g w b ms lp tr' ms')
  let ?i = "conf (xc_teacher_sync_interval (tc_extpi cfg)) 20"
  note IH = step.IH[OF step.prems]
  from periodic_call(1)[OF step(4)] show ?case
  proof (cases rule: maybe_sync_cases)
    case 1
    have "?i \<le> g - b" if "b \<in> set syncs" for b
    proof (cases "tr_last_sync_step tr")
      case None
      with IH that show ?thesis by simp
    next
      case (Some l)
      with IH obtain rest where r: "syncs = l # rest" "sorted_wrt (\<lambda>a b. ?i \<le> a - b) (l # rest)" by auto
      have "?i \<le> g - l" using 1(2) Some by simp
      with r that 1(1) show ?thesis by (cases "b = l") auto
    qed
    with 1 IH step.prems show ?thesis by (simp add: snapshot_law_def TEACHER_SNAPSHOT_ADAPTER_def)
  next
    case (2 l)
    then have "tr_last_sync_step tr = Some l" by simp
    with 2 IH step(2,3) show ?thesis by auto
  qed
qed simp

text \<open>
  C4. In the mode \<open>periodic_snapshot\<close>, along any run in which the teacher was called: the adapter the teacher scores with
  holds exactly the parameters that the actor had at the call of the recorded step, which is the newest synchronisation,
  is not in the future and less than one interval old; the actor's own adapter is left as training made it; and any two
  synchronisations are at least one interval apart. The next call is answered by the worker with this adapter.
\<close>

theorem teacher_snapshot_staleness:
  assumes "snapshot_run wk ad cfg tr calls syncs" and "snapshot_law wk ad"
  shows "(case tr_last_sync_step tr of
      None \<Rightarrow> syncs = [] \<and> calls = []
    | Some l \<Rightarrow> syncs \<noteq> [] \<and> hd syncs = l \<and> l \<le> tr_global_steps tr \<and>
        tr_global_steps tr < l + conf (xc_teacher_sync_interval (tc_extpi cfg)) 20 \<and>
        (l, ad (tr_worker tr) TEACHER_SNAPSHOT_ADAPTER) \<in> set calls \<and>
        hd calls = (tr_global_steps tr, ad (tr_worker tr) ''default'')) \<and>
    sorted_wrt (\<lambda>a b. b + conf (xc_teacher_sync_interval (tc_extpi cfg)) 20 \<le> a) syncs \<and>
    (\<forall>b ms lp tr' ms'. compute_pi_teacher_log_prob wk cfg tr b ''periodic_snapshot'' ms = Inr (lp, tr', ms') \<longrightarrow>
       run_log_prob (\<lambda>jg. wk_compute_log_prob wk (tr_worker tr') jg
         \<lparr>am_temperature = tc_temperature cfg, am_no_lora_adapter = False,
          am_lora_adapter_name = Some TEACHER_SNAPSHOT_ADAPTER\<rparr>) b = Inr lp)"
proof -
  have "sorted_wrt (\<lambda>a b. b + conf (xc_teacher_sync_interval (tc_extpi cfg)) 20 \<le> a) syncs"
    using snapshot_run_inv[OF assms] by (auto elim!: sorted_wrt_mono_rel[rotated])
  moreover have "run_log_prob (\<lambda>jg. wk_compute_log_prob wk (tr_worker tr') jg
         \<lparr>am_temperature = tc_temperature cfg, am_no_lora_adapter = False,
          am_lora_adapter_name = Some TEACHER_SNAPSHOT_ADAPTER\<rparr>) b = Inr lp"
    if "compute_pi_teacher_log_prob wk cfg tr b ''periodic_snapshot'' ms = Inr (lp, tr', ms')" for b ms lp tr' ms'
    using periodic_call(2)[OF that] by (simp add: compute_actor_log_prob_def)
  ultimately show ?thesis using snapshot_run_inv[OF assms] by (auto split: option.splits)
qed

definition ex_xc :: extpi_config where
  "ex_xc = \<lparr>xc_backend = None, xc_direct_max_prompt_length = None, xc_allow_truncation = None,
     xc_direct_thinking = None, xc_teacher_update_mode = Some ''periodic_snapshot'',
     xc_teacher_max_prompt_length = None, xc_online_thinking = None, xc_pi_trace_field = None,
     xc_teacher_sync_interval = Some 5, xc_teacher_model_path = Some ''m'', xc_teacher_device = Some ''cpu'',
     xc_teacher_dtype = None, xc_trust_remote_code = None, xc_attn_implementation = None,
     xc_micro_batch_size = Some 1, xc_temperature = None\<rparr>"

definition ex_workers :: "nat workers" where
  "ex_workers = \<lparr>wk_compute_log_prob = (\<lambda>w jg am. Inr (map (map (\<lambda>k. Fin (of_int k))) (jg_input_ids jg))),
     wk_compute_ref_log_prob = (\<lambda>w jg am. Inr (map (map (\<lambda>k. Fin 0)) (jg_input_ids jg))),
     wk_sync_snapshot = (\<lambda>w a b. w + 1)\<rparr>"

definition ex_trainer :: "nat trainer" where
  "ex_trainer = \<lparr>tr_global_steps = 0, tr_last_sync_step = None, tr_worker = 0, tr_scorer = None,
     tr_load_gb = 0, tr_score_time = 0, tr_max_memory_gb = 0, tr_memory_gb = 0, tr_reserved_gb = 0\<rparr>"

section \<open>Actor log probabilities\<close>

text \<open>
  Log probabilities of a scoring batch. Let row \<open>i\<close> of a non-empty batch be a left-padded prefix
  of \<open>p ! i > 0\<close> tokens and a right-padded response of \<open>r ! i\<close>, and let the worker return one value
  per packed token of each sequence, \<open>F\<close> of the sequence. Then \<open>_compute_actor_log_prob\<close> returns, in
  the shape of the responses, at response token \<open>t\<close> of row \<open>i\<close> the value at the token before it,
  and zero on the padding; whatever adapter is asked for, but never with both an adapter name
  and no adapter.
\<close>

theorem actor_log_prob_aligned:
  fixes p r :: "nat list"
  assumes n: "0 < n" "length p = n" "length r = n" "length (trows (bt_input_ids b)) = n"
      "length (trows (bt_attention_mask b)) = n"
    and ids: "twf (bt_input_ids b)" "tcols (bt_input_ids b) = tcols (bt_prompts b) + tcols (bt_responses b)"
    and row: "\<forall>i < n. trows (bt_attention_mask b) ! i
          = lr_mask_row (tcols (bt_prompts b)) (p ! i) (r ! i) (tcols (bt_responses b))
        \<and> 0 < p ! i \<and> p ! i \<le> tcols (bt_prompts b) \<and> r ! i \<le> tcols (bt_responses b)"
    and worker: "\<forall>jg am. wk_compute_log_prob wk w jg am = Inr (map F (jg_input_ids jg))"
      "\<forall>xs. length (F xs) = length xs"
  shows "if no_lora \<and> adapter \<noteq> None
    then compute_actor_log_prob wk cfg w b no_lora adapter
           = Inl (ValueError ''no_lora_adapter and lora_adapter_name are mutually exclusive'')
    else \<exists>out. compute_actor_log_prob wk cfg w b no_lora adapter = Inr out \<and>
      length (trows out) = n \<and> tcols out = tcols (bt_responses b) \<and> twf out \<and>
      (\<forall>i < n. \<forall>t < tcols (bt_responses b). tnth out i t =
         (if t < r ! i
          then F (take (p ! i + r ! i) (drop (tcols (bt_prompts b) - p ! i) (trows (bt_input_ids b) ! i))) ! (p ! i - 1 + t)
          else 0))"
proof (cases "no_lora \<and> adapter \<noteq> None")
  case True
  then show ?thesis by (simp add: compute_actor_log_prob_def)
next
  case False
  let ?P = "tcols (bt_prompts b)" and ?R = "tcols (bt_responses b)" and ?am = "bt_attention_mask b"
  define ids where "ids = map2 unpad_row (trows ?am) (trows (bt_input_ids b))"
  have idn: "length ids = n" "\<And>i. i < n \<Longrightarrow> ids ! i = take (p ! i + r ! i) (drop (?P - p ! i) (trows (bt_input_ids b) ! i))"
    unfolding ids_def using n row assms(6,7) by (auto simp: unpad_lr_mask_row twf_row)
  have idl: "length (ids ! i) = p ! i + r ! i" if "i < n" for i
    using row idn(2)[OF that] that assms(6,7) n by (simp add: twf_row)
  obtain jg where jg: "left_right_2_no_padding (score_to_padded b) = Inr jg" "jg_input_ids jg = ids"
      "jg_max_response_len jg = tcols (bt_response_mask b)"
    by (simp add: left_right_2_no_padding_def score_to_padded_def require_field_def ids_def Let_def)
  define out where "out = map (\<lambda>i. pad_right (int ?R - int (r ! i))
      (take (r ! i) (drop (p ! i - 1) (map F ids ! i)))) [0..<n]"
  have "no_padding_2_padding (concat (map F ids)) (PaddedLayout (bt_prompts b) (bt_responses b) ?am) k = Inr out" for k
    unfolding out_def using n row idn(1) idl worker(2)
    by (intro no_padding_2_padding_vals) auto
  then have ret: "compute_actor_log_prob wk cfg w b no_lora adapter = Inr (Tensor2 ?R out)"
    using False jg worker(1) by (auto simp: compute_actor_log_prob_def run_log_prob_def)
  have vals: "length (out ! i) = ?R \<and> (\<forall>t < ?R. out ! i ! t = (if t < r ! i then F (ids ! i) ! (p ! i - 1 + t) else 0))"
    if i: "i < n" for i
  proof -
    have b: "0 < p ! i" "r ! i \<le> ?R" using row i by auto
    have l: "int (length (F (ids ! i))) = int (p ! i) + int (r ! i)" using idl[OF i] worker(2) by simp
    have "out ! i = pad_right (int ?R - int (r ! i)) (take (nat (int (r ! i))) (drop (nat (int (p ! i)) - 1) (F (ids ! i))))"
      using i idn(1) by (simp add: out_def)
    with nth_response_row[OF l _ _ , of "int ?R"] b show ?thesis by auto
  qed
  have "twf (Tensor2 ?R out)" using vals by (auto simp: twf_def list_all_length out_def)
  with ret vals idn show ?thesis unfolding if_not_P[OF False]
    by (intro exI[of _ "Tensor2 ?R out"]) (auto simp: tnth_def out_def)
qed

definition ex_score_batch :: score_batch where
  "ex_score_batch = \<lparr>bt_prompts = Tensor2 2 [[0, 7]], bt_responses = Tensor2 2 [[8, 9]],
     bt_input_ids = Tensor2 4 [[0, 7, 8, 9]], bt_attention_mask = Tensor2 4 [[0, 1, 1, 0]],
     bt_position_ids = Tensor2 4 [[0, 0, 1, 1]], bt_response_mask = Tensor2 2 [[1, 0]]\<rparr>"

definition ex_config :: trainer_config where
  "ex_config = \<lparr>tc_policy_loss = \<lparr>pl_rlsd_enabled = Some True, pl_opd_pg_enabled = None,
       pl_rlsd_lambda = None, pl_warmup_steps = None, pl_decay_steps = None, pl_rlsd_token_mask = None\<rparr>,
     tc_extpi = ex_xc, tc_max_prompt_length = 4, tc_rollout_n = 1, tc_temperature = 1,
     tc_ref_in_actor = True, tc_extpi_teacher_adapter = True\<rparr>"

text \<open>Workers whose state is the version of each adapter.\<close>

definition ex_adapter_workers :: "(string \<Rightarrow> int) workers" where
  "ex_adapter_workers = \<lparr>
     wk_compute_log_prob = (\<lambda>w jg am. Inr (map (map (\<lambda>k. Fin (of_int (w (conf (am_lora_adapter_name am) ''default''))))) (jg_input_ids jg))),
     wk_compute_ref_log_prob = (\<lambda>w jg am. Inr (map (map (\<lambda>k. Fin 0)) (jg_input_ids jg))),
     wk_sync_snapshot = (\<lambda>w a b. w(b := w a))\<rparr>"

definition ex_adapter_trainer :: "(string \<Rightarrow> int) trainer" where
  "ex_adapter_trainer = \<lparr>tr_global_steps = 0, tr_last_sync_step = None, tr_worker = (\<lambda>_. 0), tr_scorer = None,
     tr_load_gb = 0, tr_score_time = 0, tr_max_memory_gb = 0, tr_memory_gb = 0, tr_reserved_gb = 0\<rparr>"

lemma ex_adapter_call:
  "compute_actor_log_prob ex_adapter_workers ex_config w ex_score_batch False (Some TEACHER_SNAPSHOT_ADAPTER)
     = Inr (Tensor2 2 [[Fin (of_int (w TEACHER_SNAPSHOT_ADAPTER)), 0]])"
  by (simp add: compute_actor_log_prob_def run_log_prob_def left_right_2_no_padding_def score_to_padded_def
      ex_score_batch_def require_field_def ex_adapter_workers_def unpad_row_def no_padding_2_padding_def conf_def
      layout_lens_def response_slice_def py_slice_def py_bound_def slice_def pad_right_def Let_def numeral_eq_Suc)

lemma ex_adapter_step:
  assumes "snapshot_run ex_adapter_workers (\<lambda>w. w) ex_config tr calls syncs" "tr_global_steps tr \<le> g"
    and "w TEACHER_SNAPSHOT_ADAPTER = tr_worker tr TEACHER_SNAPSHOT_ADAPTER"
  shows "snapshot_run ex_adapter_workers (\<lambda>w. w) ex_config
     (case tr_last_sync_step tr of
        Some l \<Rightarrow> if g - l < 5 then tr\<lparr>tr_global_steps := g, tr_worker := w\<rparr>
          else tr\<lparr>tr_global_steps := g, tr_worker := w(TEACHER_SNAPSHOT_ADAPTER := w ''default''), tr_last_sync_step := Some g\<rparr>
      | None \<Rightarrow> tr\<lparr>tr_global_steps := g, tr_worker := w(TEACHER_SNAPSHOT_ADAPTER := w ''default''), tr_last_sync_step := Some g\<rparr>)
     ((g, w ''default'') # calls)
     (case tr_last_sync_step tr of Some l \<Rightarrow> if g - l < 5 then syncs else g # syncs | None \<Rightarrow> g # syncs)"
proof -
  let ?tr = "tr\<lparr>tr_global_steps := g, tr_worker := w\<rparr>"
  have i: "conf (xc_teacher_sync_interval (tc_extpi ex_config)) 20 = 5"
    by (simp add: ex_config_def ex_xc_def conf_def)
  obtain tr' ms' where m: "maybe_sync_teacher_snapshot ex_adapter_workers (tc_extpi ex_config) ?tr [] = Inr (tr', ms')"
    by (simp add: maybe_sync_teacher_snapshot_def i Let_def)
  have "compute_pi_teacher_log_prob ex_adapter_workers ex_config ?tr ex_score_batch ''periodic_snapshot'' []
      = Inr (Tensor2 2 [[Fin (of_int (tr_worker tr' TEACHER_SNAPSHOT_ADAPTER)), 0]], tr', ms')"
    by (simp add: compute_pi_teacher_log_prob_def m ex_adapter_call) (simp add: ex_config_def)
  note s = snapshot_run.step[OF assms this]
  from m show ?thesis
    by (cases rule: maybe_sync_cases)
      (use s in \<open>auto simp: i ex_adapter_workers_def split: option.splits\<close>)
qed

text \<open>
  Two calls, with actor versions 7 and 8 at the steps 3 and 4: the teacher of the second one is version 7.
\<close>

lemma ex_snapshot_run:
  "snapshot_run ex_adapter_workers (\<lambda>w. w) ex_config
     (ex_adapter_trainer\<lparr>tr_global_steps := 4, tr_last_sync_step := Some 3,
        tr_worker := (\<lambda>_. 0)(''default'' := 8, TEACHER_SNAPSHOT_ADAPTER := 7)\<rparr>) [(4, 8), (3, 7)] [3]"
proof -
  have s: "snapshot_run ex_adapter_workers (\<lambda>w. w) ex_config ex_adapter_trainer [] []"
    by (rule snapshot_run.start) (simp add: ex_adapter_trainer_def)
  have d: "''default'' \<noteq> TEACHER_SNAPSHOT_ADAPTER" by (simp add: TEACHER_SNAPSHOT_ADAPTER_def)
  note s1 = ex_adapter_step[OF s, of 3 "(\<lambda>_. 0)(''default'' := 7)"]
  from s1 d have s1: "snapshot_run ex_adapter_workers (\<lambda>w. w) ex_config
     (ex_adapter_trainer\<lparr>tr_global_steps := 3, tr_last_sync_step := Some 3,
        tr_worker := (\<lambda>_. 0)(''default'' := 7, TEACHER_SNAPSHOT_ADAPTER := 7)\<rparr>) [(3, 7)] [3]"
    by (simp add: ex_adapter_trainer_def)
  show ?thesis
    using ex_adapter_step[OF s1, of 4 "(\<lambda>_. 0)(''default'' := 8, TEACHER_SNAPSHOT_ADAPTER := 7)"] d
    by (simp add: ex_adapter_trainer_def)
qed

lemma teacher_snapshot_staleness_witness:
  "\<exists>tr. snapshot_run ex_adapter_workers (\<lambda>w. w) ex_config tr [(4, 8), (3, 7)] [3]
     \<and> tr_last_sync_step tr = Some 3 \<and> (3, tr_worker tr TEACHER_SNAPSHOT_ADAPTER) \<in> set [(4, 8), (3, 7)]
     \<and> tr_worker tr ''default'' = 8"
proof -
  have "snapshot_law ex_adapter_workers (\<lambda>w. w)" by (simp add: snapshot_law_def ex_adapter_workers_def)
  from teacher_snapshot_staleness[OF ex_snapshot_run this] ex_snapshot_run show ?thesis
    by (intro exI[of _ "ex_adapter_trainer\<lparr>tr_global_steps := 4, tr_last_sync_step := Some 3,
        tr_worker := (\<lambda>_. 0)(''default'' := 8, TEACHER_SNAPSHOT_ADAPTER := 7)\<rparr>"]) simp
qed

lemma actor_log_prob_aligned_example:
  "\<exists>out. compute_actor_log_prob ex_workers ex_config 0 ex_score_batch False (Some ''extpi_teacher'') = Inr out
     \<and> tnth out 0 0 = Fin 7 \<and> tnth out 0 1 = 0"
proof -
  have w: "\<forall>jg am. wk_compute_log_prob ex_workers 0 jg am = Inr (map (map (\<lambda>k. Fin (of_int k))) (jg_input_ids jg))"
    by (simp add: ex_workers_def)
  have m: "[0, 1, 1, 0] = lr_mask_row (Suc (Suc 0)) (Suc 0) (Suc 0) (Suc (Suc 0))"
    by (simp add: lr_mask_row_def)
  show ?thesis
    using actor_log_prob_aligned
      [of 1 "[1]" "[1]" ex_score_batch ex_workers 0 "map (\<lambda>k. Fin (of_int k))" False "Some ''extpi_teacher''" ex_config,
       OF _ _ _ _ _ _ _ _ w]
    by (force simp: ex_score_batch_def twf_def m numeral_2_eq_2)
qed

section \<open>What the hook changes\<close>

lemma masked_teacher_Inr:
  "masked_teacher what lp m = Inr t \<longleftrightarrow> tshape lp = tshape m \<and> t = tmap2 (*) lp (as_mask m)"
  by (auto simp: masked_teacher_def)

lemma masked_teacher_entry:
  assumes "tshape lp = tshape m" "twf lp" "twf m" "tin m i j" "tnth m i j \<in> {0, 1}" "isfinite (tnth lp i j)"
  shows "tnth (tmap2 (*) lp (as_mask m)) i j = (if tnth m i j = 1 then tnth lp i j else 0)"
proof -
  have "tnth (tmap2 (*) lp (as_mask m)) i j = tnth lp i j * Fin (of_int (tnth m i j))"
    using assms by (simp add: tensor_simps)
  with assms(5,6) show ?thesis by (cases "tnth lp i j") (auto simp: zero_fl_def)
qed

lemma rlsd_branch_Inr:
  assumes "rlsd_branch rp wk ptk cfg tr b ms = Inr (b', tr', ms')"
  obtains eff m tok build lp ms1 ms2 where
    "compute_effective_rlsd_lambda (tc_policy_loss cfg) (tr_global_steps tr) = Inr eff"
    "sb_response_mask (tb_source b) = Some m"
    "build_rlsd_token_mask m (conf (pl_rlsd_token_mask (tc_policy_loss cfg)) ''all'') = Inr tok"
    "build_pi_teacher_score_batch rp (tb_source b) ptk
       (conf (xc_teacher_max_prompt_length (tc_extpi cfg)) (tc_max_prompt_length cfg))
       (conf (xc_allow_truncation (tc_extpi cfg)) True) (conf (xc_online_thinking (tc_extpi cfg)) False)
       (conf (xc_pi_trace_field (tc_extpi cfg)) DEFAULT_PI_TRACE_FIELD) = Inr build"
    "compute_pi_teacher_log_prob wk cfg tr (bb_batch build)
       (py_lower (conf (xc_teacher_update_mode (tc_extpi cfg)) ''base_no_adapter'')) ms1 = Inr (lp, tr', ms2)"
    "tshape lp = tshape m"
    "b' = b\<lparr>tb_rlsd_effective_lambda := Some eff, tb_rlsd_token_mask := Some tok,
            tb_teacher_pi_log_probs := Some (tmap2 (*) lp (as_mask m))\<rparr>"
  using assms unfolding rlsd_branch_def Let_def
  by (auto simp: bind_res_Inr require_tensor_def masked_teacher_Inr split: option.splits if_splits)

lemma opd_branch_Inr:
  assumes "opd_branch env tok ptk cfg tr b ms = Inr (b', tr', ms')"
  obtains build lp m where
    "build_direct_opd_teacher_score_batch (tb_source b) ptk
       (conf (xc_direct_max_prompt_length (tc_extpi cfg)) (tc_max_prompt_length cfg))
       (conf (xc_allow_truncation (tc_extpi cfg)) True) (conf (xc_direct_thinking (tc_extpi cfg)) False) = Inr build"
    "score_direct_opd_inline env tok (tc_extpi cfg) (bb_batch build) tr = Inr (lp, tr')"
    "sb_response_mask (tb_source b) = Some m" "tshape lp = tshape m"
    "b' = b\<lparr>tb_teacher_opd_log_probs := Some (tmap2 (*) (map_tensor2 Fin lp) (as_mask m))\<rparr>"
  using assms unfolding opd_branch_def Let_def
  by (auto simp: bind_res_Inr require_tensor_def masked_teacher_Inr split: option.splits if_splits)

text \<open>The adapter that a teacher mode computes with.\<close>

definition teacher_meta :: "trainer_config \<Rightarrow> string \<Rightarrow> actor_meta" where
  "teacher_meta cfg mode =
     \<lparr>am_temperature = tc_temperature cfg, am_no_lora_adapter = (mode = ''base_no_adapter''),
      am_lora_adapter_name = (if mode = ''periodic_snapshot'' then Some TEACHER_SNAPSHOT_ADAPTER else None)\<rparr>"

lemma pi_teacher_call:
  assumes "compute_pi_teacher_log_prob wk cfg tr b mode ms = Inr (lp, tr', ms')"
  shows "mode \<in> {''base_no_adapter'', ''current_no_grad'', ''periodic_snapshot''}
    \<and> run_log_prob (\<lambda>jg. wk_compute_log_prob wk (tr_worker tr') jg (teacher_meta cfg mode)) b = Inr lp
    \<and> (mode = ''periodic_snapshot'' \<longrightarrow> (\<exists>ms'. maybe_sync_teacher_snapshot wk (tc_extpi cfg) tr ms = Inr (tr', ms')))
    \<and> (mode \<noteq> ''periodic_snapshot'' \<longrightarrow> tr' = tr)"
  using assms
  by (auto simp: compute_pi_teacher_log_prob_def compute_ref_log_prob_def compute_actor_log_prob_def teacher_meta_def
      bind_res_Inr Let_def split: if_splits)

text \<open>
  C3. When the hook returns, the two modes are not both on, and it has changed only what its mode
  is for. With neither, the batch and the trainer are untouched. In the RLSD mode it adds the
  scheduled lambda, the token mask of the configured specification and the teacher's log
  probabilities: what the worker computes, with the adapter of the configured teacher mode, on the
  privileged batch built from this batch. In the OPD mode it adds what the inline teacher scores on
  the direct batch built from this batch. These have the shape of
  the response mask and, where they are finite and the mask is zero or one, are the teacher's on
  valid tokens and zero elsewhere. Prompts, responses, masks, old log probabilities and scores stay.
\<close>

theorem before_actor_update_effect:
  assumes "before_actor_update rp wk env tk ptk cfg tr b ms = Inr (b', tr', ms')"
    and "conf (pl_rlsd_enabled (tc_policy_loss cfg)) False = rlsd"
    and "conf (pl_opd_pg_enabled (tc_policy_loss cfg)) False = opd"
  shows "\<not> (rlsd \<and> opd) \<and> (\<not> rlsd \<and> \<not> opd \<longrightarrow> b' = b \<and> tr' = tr) \<and>
    (rlsd \<longrightarrow> (\<exists>eff m tok build mode lp.
       build_pi_teacher_score_batch rp (tb_source b) ptk
         (conf (xc_teacher_max_prompt_length (tc_extpi cfg)) (tc_max_prompt_length cfg))
         (conf (xc_allow_truncation (tc_extpi cfg)) True) (conf (xc_online_thinking (tc_extpi cfg)) False)
         (conf (xc_pi_trace_field (tc_extpi cfg)) DEFAULT_PI_TRACE_FIELD) = Inr build \<and>
       mode = py_lower (conf (xc_teacher_update_mode (tc_extpi cfg)) ''base_no_adapter'') \<and>
       mode \<in> {''base_no_adapter'', ''current_no_grad'', ''periodic_snapshot''} \<and>
       (if mode = ''periodic_snapshot''
        then \<exists>ms1 ms2. maybe_sync_teacher_snapshot wk (tc_extpi cfg) tr ms1 = Inr (tr', ms2) else tr' = tr) \<and>
       run_log_prob (\<lambda>jg. wk_compute_log_prob wk (tr_worker tr') jg (teacher_meta cfg mode)) (bb_batch build) = Inr lp \<and>
       compute_effective_rlsd_lambda (tc_policy_loss cfg) (tr_global_steps tr) = Inr eff \<and>
       sb_response_mask (tb_source b) = Some m \<and>
       build_rlsd_token_mask m (conf (pl_rlsd_token_mask (tc_policy_loss cfg)) ''all'') = Inr tok \<and>
       b' = b\<lparr>tb_rlsd_effective_lambda := Some eff, tb_rlsd_token_mask := Some tok,
              tb_teacher_pi_log_probs := tb_teacher_pi_log_probs b'\<rparr> \<and>
       tshape lp = tshape m \<and> tb_teacher_pi_log_probs b' = Some (tmap2 (*) lp (as_mask m)) \<and>
       (twf lp \<and> twf m \<longrightarrow> (\<forall>i j. tin m i j \<and> tnth m i j \<in> {0, 1} \<and> isfinite (tnth lp i j) \<longrightarrow>
          tnth (the (tb_teacher_pi_log_probs b')) i j = (if tnth m i j = 1 then tnth lp i j else 0))))) \<and>
    (opd \<longrightarrow> (\<exists>m build lp.
       build_direct_opd_teacher_score_batch (tb_source b) ptk
         (conf (xc_direct_max_prompt_length (tc_extpi cfg)) (tc_max_prompt_length cfg))
         (conf (xc_allow_truncation (tc_extpi cfg)) True) (conf (xc_direct_thinking (tc_extpi cfg)) False) = Inr build \<and>
       score_direct_opd_inline env tk (tc_extpi cfg) (bb_batch build) tr = Inr (lp, tr') \<and>
       sb_response_mask (tb_source b) = Some m \<and>
       b' = b\<lparr>tb_teacher_opd_log_probs := tb_teacher_opd_log_probs b'\<rparr> \<and>
       tshape lp = tshape m \<and> tb_teacher_opd_log_probs b' = Some (tmap2 (*) (map_tensor2 Fin lp) (as_mask m)) \<and>
       (twf lp \<and> twf m \<longrightarrow> (\<forall>i j. tin m i j \<and> tnth m i j \<in> {0, 1} \<longrightarrow>
          tnth (the (tb_teacher_opd_log_probs b')) i j = (if tnth m i j = 1 then Fin (tnth lp i j) else 0)))))"
proof -
  have not_both: "\<not> (rlsd \<and> opd)" using assms by (auto simp: before_actor_update_def Let_def)
  obtain ms1 where ms1: "(if \<not> rlsd \<and> \<not> opd then Inr (b, tr, ms1)
      else if opd then opd_branch env tk ptk cfg tr b ms1 else rlsd_branch rp wk ptk cfg tr b ms1) = Inr (b', tr', ms')"
    using assms not_both by (auto simp: before_actor_update_def Let_def bind_res_Inr)
  consider (none) "\<not> rlsd" "\<not> opd" | (rlsd) "rlsd" "\<not> opd" | (opd) "opd" "\<not> rlsd" using not_both by blast
  then show ?thesis
  proof cases
    case none
    with ms1 show ?thesis by auto
  next
    case rlsd
    with ms1 have "rlsd_branch rp wk ptk cfg tr b ms1 = Inr (b', tr', ms')" by simp
    then show ?thesis
    proof (cases rule: rlsd_branch_Inr)
      case (1 eff m tok build lp ms1 ms2)
      note e = masked_teacher_entry[OF 1(6)]
      let ?mode = "py_lower (conf (xc_teacher_update_mode (tc_extpi cfg)) ''base_no_adapter'')"
      note call = pi_teacher_call[OF 1(5)]
      then have sync: "if ?mode = ''periodic_snapshot''
          then \<exists>ms1 ms2. maybe_sync_teacher_snapshot wk (tc_extpi cfg) tr ms1 = Inr (tr', ms2) else tr' = tr"
        by auto
      from call have "?mode \<in> {''base_no_adapter'', ''current_no_grad'', ''periodic_snapshot''}"
        "run_log_prob (\<lambda>jg. wk_compute_log_prob wk (tr_worker tr') jg (teacher_meta cfg ?mode)) (bb_batch build) = Inr lp"
        by blast+
      with sync show ?thesis using rlsd 1(1-4,6,7)
        by (intro conjI impI exI[of _ eff] exI[of _ m] exI[of _ tok] exI[of _ build] exI[of _ ?mode] exI[of _ lp])
          (simp_all add: e)
    qed
  next
    case opd
    with ms1 have "opd_branch env tk ptk cfg tr b ms1 = Inr (b', tr', ms')" by simp
    then show ?thesis
    proof (cases rule: opd_branch_Inr)
      case (1 build lp m)
      have sh: "tshape (map_tensor2 Fin lp) = tshape m" using 1(4) by simp
      have fin: "tnth (map_tensor2 Fin lp) i j = Fin (tnth lp i j)" if "twf lp" "tin m i j" for i j
        using that tshape_eqD[OF 1(4)] by (simp add: tnth_map)
      note e = masked_teacher_entry[OF sh]
      show ?thesis using opd 1
        by (intro conjI impI exI[of _ m] exI[of _ build] exI[of _ lp]) (simp_all add: e fin)
    qed
  qed
qed

text \<open>A run of the hook in the RLSD mode, with the base model as teacher.\<close>

definition ex_built :: score_batch where
  "ex_built = \<lparr>bt_prompts = Tensor2 4 [[2, 1, 2, 3]], bt_responses = Tensor2 2 [[5, 6]],
     bt_input_ids = Tensor2 6 [[2, 1, 2, 3, 5, 2]], bt_attention_mask = Tensor2 6 [[0, 1, 1, 1, 1, 0]],
     bt_position_ids = Tensor2 6 [[0, 0, 1, 2, 3, 3]], bt_response_mask = Tensor2 2 [[1, 0]]\<rparr>"

lemma ex_hook_build:
  "\<exists>ps. build_pi_teacher_score_batch (\<lambda>_. []) ex_source ex_const_tokenizer 4 True False ''t''
     = Inr \<lparr>bb_batch = ex_built,
         bb_metrics = [(''extpi/pi_teacher_prompt_truncated_count'', Fin 0), (''extpi/pi_teacher_prompt_tokens_mean'', Fin 3),
           (''extpi/pi_teacher_response_tokens'', Fin 1), (''privacy/student_prompt_pi_leak_checked_count'', Fin 1),
           (''privacy/student_prompt_pi_leak_count'', Fin 0)], bb_prompts = ps\<rparr>"
  by (simp add: build_pi_teacher_score_batch_def ex_source_def ex_const_tokenizer_def ex_prefix_tokenizer_def
      require_key_def as_dict_def d_get_def d_get_or_def assert_no_pi_in_student_prompt_def
      raw_prompt_to_text_def py_strip_def lstrip_def is_space_def in_range_def starts_with_def
      build_prompts_simps render_chat_def ex_template_def tokenize_prefixes_def normalize_ids_def
      fill_prefix_def assemble_score_batch_def tshape_def Let_def ex_built_def pad_id_of_def
      tmap2_def tcat1_def to_bool_def b2i_def mean_count_def tflat_def numeral_eq_Suc)

lemma ex_hook_ref:
  "compute_ref_log_prob ex_workers ex_config 0 ex_built = Inr (Tensor2 2 [[Fin 3, 0]])"
  by (simp add: compute_ref_log_prob_def ex_config_def run_log_prob_def left_right_2_no_padding_def
      score_to_padded_def ex_built_def require_field_def ex_workers_def unpad_row_def no_padding_2_padding_def
      layout_lens_def response_slice_def py_slice_def py_bound_def slice_def pad_right_def Let_def numeral_eq_Suc)

definition ex_batch :: training_batch where
  "ex_batch = \<lparr>tb_source = ex_source, tb_old_log_probs = Some (Tensor2 2 [[Fin 1, Fin 1]]),
     tb_token_level_scores = None, tb_uid = None, tb_teacher_opd_log_probs = None,
     tb_teacher_pi_log_probs = None, tb_rlsd_token_mask = None, tb_rlsd_effective_lambda = None\<rparr>"

definition ex_hook_config :: trainer_config where
  "ex_hook_config = ex_config\<lparr>tc_extpi := ex_xc\<lparr>xc_teacher_update_mode := None, xc_pi_trace_field := Some ''t''\<rparr>\<rparr>"

lemma ex_texts: "py_lower ''base_no_adapter'' = ''base_no_adapter''" "normalize_spec ''all'' = ''all''"
  by code_simp+

lemma ex_diagnostics: "\<exists>ms. add_training_diagnostics ex_hook_config ex_batch [] = Inr ms"
  by (simp add: add_training_diagnostics_def ex_batch_def ex_source_def Let_def)

lemma ex_hook_pi:
  "compute_pi_teacher_log_prob ex_workers ex_hook_config ex_trainer ex_built ''base_no_adapter'' ms
     = Inr (Tensor2 2 [[Fin 3, 0]], ex_trainer, ms)"
proof -
  have "compute_ref_log_prob ex_workers ex_hook_config 0 ex_built = compute_ref_log_prob ex_workers ex_config 0 ex_built"
    by (simp add: compute_ref_log_prob_def ex_hook_config_def ex_config_def)
  moreover have "tc_ref_in_actor ex_hook_config" "tr_worker ex_trainer = 0"
    by (simp_all add: ex_trainer_def ex_hook_config_def ex_config_def)
  ultimately show ?thesis by (simp add: compute_pi_teacher_log_prob_def ex_hook_ref)
qed

lemma ex_hook_mask: "build_rlsd_token_mask (Tensor2 2 [[1, 0]]) ''all'' = Inr (Tensor2 2 [[1, 0]])"
  by (simp add: build_rlsd_token_mask_def ex_texts token_mask_aliases_def to_bool_def b2i_def)

lemma ex_hook_lambda: "compute_effective_rlsd_lambda (tc_policy_loss ex_hook_config) 0 = Inr (1/2)"
  by (simp add: compute_effective_rlsd_lambda_def ex_hook_config_def ex_config_def conf_def)

lemma ex_hook_runs:
  "\<exists>b' ms'. rlsd_branch (\<lambda>_. []) ex_workers ex_const_tokenizer ex_hook_config ex_trainer ex_batch ms
     = Inr (b', ex_trainer, ms')"
proof -
  obtain ps where ps: "build_pi_teacher_score_batch (\<lambda>_. []) ex_source ex_const_tokenizer 4 True False ''t''
     = Inr \<lparr>bb_batch = ex_built,
         bb_metrics = [(''extpi/pi_teacher_prompt_truncated_count'', Fin 0), (''extpi/pi_teacher_prompt_tokens_mean'', Fin 3),
           (''extpi/pi_teacher_response_tokens'', Fin 1), (''privacy/student_prompt_pi_leak_checked_count'', Fin 1),
           (''privacy/student_prompt_pi_leak_count'', Fin 0)], bb_prompts = ps\<rparr>"
    using ex_hook_build by blast
  have c: "tb_source ex_batch = ex_source" "sb_response_mask ex_source = Some (Tensor2 2 [[1, 0]])"
    "tb_old_log_probs ex_batch = Some (Tensor2 2 [[Fin 1, Fin 1]])" "tr_global_steps ex_trainer = 0"
    "conf (pl_rlsd_token_mask (tc_policy_loss ex_hook_config)) ''all'' = ''all''"
    "conf (xc_pi_trace_field (tc_extpi ex_hook_config)) DEFAULT_PI_TRACE_FIELD = ''t''"
    "conf (xc_teacher_max_prompt_length (tc_extpi ex_hook_config)) (tc_max_prompt_length ex_hook_config) = 4"
    "conf (xc_allow_truncation (tc_extpi ex_hook_config)) True"
    "\<not> conf (xc_online_thinking (tc_extpi ex_hook_config)) False"
    "conf (xc_teacher_update_mode (tc_extpi ex_hook_config)) ''base_no_adapter'' = ''base_no_adapter''"
    by (simp_all add: ex_batch_def ex_source_def ex_trainer_def ex_hook_config_def ex_config_def ex_xc_def conf_def)
  have hp: "compute_pi_teacher_log_prob ex_workers ex_hook_config ex_trainer ex_built ''base_no_adapter'' ms
     = Inr (Tensor2 2 [[Fin 3, 0]], ex_trainer, ms)" for ms by (rule ex_hook_pi)
  show ?thesis
    unfolding rlsd_branch_def Let_def c(1) c(4) ex_hook_lambda bind_res_simps c(2) require_tensor_def
    by (simp add: c ps ex_texts ex_hook_mask hp masked_teacher_def tshape_def m_index_def d_update_def map_of_d_set)
qed

lemma before_actor_update_effect_witness:
  "\<forall>env tk. \<exists>b' ms'. before_actor_update (\<lambda>_. []) ex_workers env tk ex_const_tokenizer ex_hook_config ex_trainer ex_batch []
       = Inr (b', ex_trainer, ms')
     \<and> tb_rlsd_effective_lambda b' = Some (1/2) \<and> tb_rlsd_token_mask b' = Some (Tensor2 2 [[1, 0]])
     \<and> tb_teacher_pi_log_probs b' = Some (Tensor2 2 [[Fin 3, 0]])"
proof (intro allI)
  fix env tk
  have on: "conf (pl_rlsd_enabled (tc_policy_loss ex_hook_config)) False = True"
    "conf (pl_opd_pg_enabled (tc_policy_loss ex_hook_config)) False = False"
    by (simp_all add: ex_hook_config_def ex_config_def conf_def)
  obtain ms0 where "add_training_diagnostics ex_hook_config ex_batch [] = Inr ms0"
    using ex_diagnostics by blast
  moreover obtain b' ms' where "rlsd_branch (\<lambda>_. []) ex_workers ex_const_tokenizer ex_hook_config ex_trainer ex_batch ms0
      = Inr (b', ex_trainer, ms')" using ex_hook_runs by blast
  ultimately have ok: "before_actor_update (\<lambda>_. []) ex_workers env tk ex_const_tokenizer ex_hook_config ex_trainer ex_batch []
       = Inr (b', ex_trainer, ms')"
    by (simp add: before_actor_update_def on)
  obtain eff m tok build mode lp where
    build: "build_pi_teacher_score_batch (\<lambda>_. []) (tb_source ex_batch) ex_const_tokenizer
         (conf (xc_teacher_max_prompt_length (tc_extpi ex_hook_config)) (tc_max_prompt_length ex_hook_config))
         (conf (xc_allow_truncation (tc_extpi ex_hook_config)) True) (conf (xc_online_thinking (tc_extpi ex_hook_config)) False)
         (conf (xc_pi_trace_field (tc_extpi ex_hook_config)) DEFAULT_PI_TRACE_FIELD) = Inr build"
    and mode: "mode = py_lower (conf (xc_teacher_update_mode (tc_extpi ex_hook_config)) ''base_no_adapter'')"
    and run: "run_log_prob (\<lambda>jg. wk_compute_log_prob ex_workers (tr_worker ex_trainer) jg (teacher_meta ex_hook_config mode))
         (bb_batch build) = Inr lp"
    and eff: "compute_effective_rlsd_lambda (tc_policy_loss ex_hook_config) (tr_global_steps ex_trainer) = Inr eff"
    and m: "sb_response_mask (tb_source ex_batch) = Some m"
    and tok: "build_rlsd_token_mask m (conf (pl_rlsd_token_mask (tc_policy_loss ex_hook_config)) ''all'') = Inr tok"
    and b': "b' = ex_batch\<lparr>tb_rlsd_effective_lambda := Some eff, tb_rlsd_token_mask := Some tok,
              tb_teacher_pi_log_probs := tb_teacher_pi_log_probs b'\<rparr>"
    and lp: "tb_teacher_pi_log_probs b' = Some (tmap2 (*) lp (as_mask m))"
    using before_actor_update_effect[OF ok on] by blast
  have "bb_batch build = ex_built"
    using build ex_hook_build by (auto simp: ex_batch_def ex_hook_config_def ex_config_def ex_xc_def conf_def)
  moreover have "mode = ''base_no_adapter''"
    using mode ex_texts by (simp add: ex_hook_config_def ex_config_def ex_xc_def conf_def)
  ultimately have "lp = Tensor2 2 [[Fin 3, 0]]"
    using run ex_hook_pi[of "[]"]
    by (auto simp: compute_pi_teacher_log_prob_def compute_ref_log_prob_def teacher_meta_def bind_res_Inr Let_def
        split: if_splits)
  have m1: "m = Tensor2 2 [[1, 0]]" using m by (simp add: ex_batch_def ex_source_def)
  with lp \<open>lp = _\<close> have lpb: "tb_teacher_pi_log_probs b' = Some (Tensor2 2 [[Fin 3, 0]])"
    by (simp add: tmap2_def as_mask_def zero_fl_def)
  have "conf (pl_rlsd_token_mask (tc_policy_loss ex_hook_config)) ''all'' = ''all''"
    by (simp add: ex_hook_config_def ex_config_def conf_def)
  then have "tok = Tensor2 2 [[1, 0]]" using tok m1 ex_hook_mask by simp
  moreover have "eff = 1/2" using eff ex_hook_lambda by (simp add: ex_trainer_def)
  moreover have "tb_rlsd_effective_lambda b' = Some eff" "tb_rlsd_token_mask b' = Some tok"
    by (subst b', simp)+
  ultimately show "\<exists>b' ms'. before_actor_update (\<lambda>_. []) ex_workers env tk ex_const_tokenizer ex_hook_config ex_trainer ex_batch []
       = Inr (b', ex_trainer, ms')
     \<and> tb_rlsd_effective_lambda b' = Some (1/2) \<and> tb_rlsd_token_mask b' = Some (Tensor2 2 [[1, 0]])
     \<and> tb_teacher_pi_log_probs b' = Some (Tensor2 2 [[Fin 3, 0]])"
    using ok lpb by blast
qed

end
