(* ===== verification/MicroBatch.thy ===== *)
theory MicroBatch
  imports TrainerHook
begin

text \<open>
  Micro-batches of the inline teacher (\<open>_score_direct_opd_inline\<close>, \<open>trainer.py\<close>): for a model that
  scores the sequences of a batch independently of each other, splitting the batch into requests
  of any size gives the log probabilities of one request for the whole batch.
\<close>

section \<open>Slices of rows\<close>

lemma length_slice [simp]: "length (slice a b xs) = min (b - a) (length xs - a)"
  by (simp add: slice_def)

lemma slice_map: "slice a b (map f xs) = map f (slice a b xs)"
  by (simp add: slice_def take_map drop_map)

lemma slice_zip: "slice a b (zip xs ys) = zip (slice a b xs) (slice a b ys)"
  by (simp add: slice_def take_zip drop_zip)

lemma set_slice: "set (slice a b xs) \<subseteq> set xs"
  unfolding slice_def by (meson order_trans set_drop_subset set_take_subset)

lemma slice_replicate: "slice a b (replicate n x) = replicate (min (b - a) (n - a)) x"
  by (simp add: slice_def)

lemma map_res_slice: "map_res f xs = Inr ys \<Longrightarrow> map_res f (slice a b xs) = Inr (slice a b ys)"
  by (auto simp: map_res_Inr_iff slice_def list_all2_takeI list_all2_dropI)

lemma tslice_simps [simp]:
  "tcols (tslice_rows a b t) = tcols t" "trows (tslice_rows a b t) = slice a b (trows t)"
  by (simp_all add: tslice_rows_def)

lemma tslice_shape: "tshape s = tshape t \<Longrightarrow> tshape (tslice_rows a b s) = tshape (tslice_rows a b t)"
  by (simp add: tshape_def)

lemma tslice_tmap2: "tslice_rows a b (tmap2 f s t) = tmap2 f (tslice_rows a b s) (tslice_rows a b t)"
  by (simp add: tslice_rows_def tmap2_def slice_map slice_zip)

lemma tslice_tcat1: "tslice_rows a b (tcat1 s t) = tcat1 (tslice_rows a b s) (tslice_rows a b t)"
  by (simp add: tslice_rows_def tcat1_def slice_map slice_zip)

lemma tslice_map: "tslice_rows a b (map_tensor2 f t) = map_tensor2 f (tslice_rows a b t)"
  by (cases t) (simp add: tslice_rows_def slice_map)

lemma tslice_take_cols: "tslice_rows a b (ttake_cols n t) = ttake_cols n (tslice_rows a b t)"
  by (simp add: tslice_rows_def ttake_cols_def slice_map)

section \<open>Scoring a slice\<close>

lemma left_padded_slice:
  assumes "assert_left_padded_prefix_mask m = Inr ()"
  shows "assert_left_padded_prefix_mask (tslice_rows a b m) = Inr ()"
proof -
  have "set (slice a b (trows m)) \<subseteq> set (trows m)" by (rule set_slice)
  with assms show ?thesis
    by (auto simp: assert_left_padded_prefix_mask_def Let_def map_fix_iff split: if_splits)
qed

definition slice_inputs :: "nat \<Rightarrow> nat \<Rightarrow> causal_inputs \<Rightarrow> causal_inputs" where
  "slice_inputs a b ci =
     \<lparr>ci_input_ids = tslice_rows a b (ci_input_ids ci),
      ci_attention_mask = tslice_rows a b (ci_attention_mask ci),
      ci_position_ids = tslice_rows a b (ci_position_ids ci),
      ci_response_ids = tslice_rows a b (ci_response_ids ci),
      ci_response_mask = tslice_rows a b (ci_response_mask ci),
      ci_response_logit_positions = tslice_rows a b (ci_response_logit_positions ci)\<rparr>"

lemma build_slice:
  assumes "build_causal_score_inputs pri pm ri rm pad = Inr ci"
  shows "build_causal_score_inputs (tslice_rows a b pri) (tslice_rows a b pm)
           (tslice_rows a b ri) (tslice_rows a b rm) pad = Inr (slice_inputs a b ci)"
proof -
  have sh: "tshape pri = tshape pm" "tshape ri = tshape rm" "length (trows pri) = length (trows ri)"
      and lp: "assert_left_padded_prefix_mask pm = Inr ()"
    using assms by (auto simp: build_causal_score_inputs_def bind_res_Inr split: if_splits)
  have s: "tshape (tslice_rows a b pri) = tshape (tslice_rows a b pm)"
    "tshape (tslice_rows a b ri) = tshape (tslice_rows a b rm)"
    using sh tslice_shape by blast+
  have cols: "Tensor2 n (map f (trows (tslice_rows a b t))) = tslice_rows a b (Tensor2 n (map f (trows t)))"
    for n and f :: "'x list \<Rightarrow> 'y list" and t
    by (simp add: tslice_rows_def slice_map)
  have pos: "Tensor2 n (replicate (length (trows (tslice_rows a b t))) ps)
      = tslice_rows a b (Tensor2 n (replicate (length (trows t)) ps))" for n ps and t :: "int tensor2"
    by (simp add: tslice_rows_def slice_replicate)
  show ?thesis
    using assms sh s lp left_padded_slice[OF lp, of a b]
    by (simp add: build_causal_score_inputs_def Let_def slice_inputs_def tslice_tcat1 tslice_tmap2 tslice_map
        cols pos tcat1_def tslice_rows_def slice_map slice_zip slice_replicate) (auto simp: slice_inputs_def tslice_rows_def tcat1_def tmap2_def slice_map slice_zip slice_replicate)
qed

text \<open>Gathering, one row of logits per row of ids.\<close>

definition gather_row :: "real \<Rightarrow> real list list \<times> int list \<times> int list \<Rightarrow> real list res" where
  "gather_row temperature = (\<lambda>(seq, ids, ps). map_res (\<lambda>(p, tok). gather_token seq temperature p tok) (zip ps ids))"

lemma gather_rows:
  assumes "length lg = length (trows ps)" "tshape ids = tshape ps"
  shows "gather_response_log_probs lg ids ps T =
    (if T \<le> 0 then Inl (ValueError ''temperature must be positive'')
     else bind_res (map_res (gather_row T) (zip lg (zip (trows ids) (trows ps))))
            (\<lambda>rows. Inr (Tensor2 (tcols ids) rows)))"
proof -
  let ?n = "length (trows ps)"
  let ?f = "\<lambda>(row, ids, ps). map_res (\<lambda>(p, tok). bind_res (tidx lg (if length lg = 1 \<or> ?n = 1 then 0 else row))
      (\<lambda>seq. gather_token seq T p tok)) (zip ps ids)"
  have one: "?f (int i, z) = gather_row T (lg ! i, z)" if "i < ?n" for i and z :: "int list \<times> int list"
  proof -
    have "tidx lg (if length lg = 1 \<or> ?n = 1 then 0 else int i) = Inr (lg ! i)"
      using that assms(1) by (auto simp: tidx_def Let_def)
    then show ?thesis by (cases z) (simp add: gather_row_def)
  qed
  have "zip (map int [0..<?n]) zs = map (\<lambda>i. (int i, zs ! i)) [0..<?n]" if "length zs = ?n" for zs :: "(int list \<times> int list) list"
    using that by (intro nth_equalityI) auto
  moreover have "zip lg zs = map (\<lambda>i. (lg ! i, zs ! i)) [0..<?n]" if "length zs = ?n" for zs :: "(int list \<times> int list) list"
    using that assms(1) by (intro nth_equalityI) auto
  moreover have "length (zip (trows ids) (trows ps)) = ?n" using assms(2) by (simp add: tshape_def)
  moreover have "map_res ?f (map (\<lambda>i. (int i, zs ! i)) [0..<?n]) = map_res (gather_row T) (map (\<lambda>i. (lg ! i, zs ! i)) [0..<?n])"
    for zs :: "(int list \<times> int list) list"
  proof -
    have "map_res f (map g is) = map_res f' (map g' is)" if "\<And>i. i \<in> set is \<Longrightarrow> f (g i) = f' (g' i)"
      for f f' g g' and "is" :: "nat list"
      using that by (induction "is") (auto split: sum.splits)
    then show ?thesis by this (rule one, simp)
  qed
  ultimately show ?thesis
    using assms by (simp add: gather_response_log_probs_def Let_def)
qed

lemma build_rows:
  assumes "build_causal_score_inputs pri pm ri rm pad = Inr ci"
  shows "length (trows (ci_input_ids ci)) = length (trows ri)"
    "length (trows (ci_attention_mask ci)) = length (trows ri)"
    "length (trows (ci_position_ids ci)) = length (trows ri)"
    "ci_response_ids ci = ri" "tshape ri = tshape (ci_response_logit_positions ci)"
  using assms by (auto simp: build_causal_score_inputs_def Let_def bind_res_Inr tcat1_def tmap2_def tshape_def
      split: if_splits)

text \<open>A model that scores each sequence on its own, and the request for some of the rows.\<close>

definition rowwise :: "teacher_scorer \<Rightarrow> (model_state \<Rightarrow> int list \<times> bool list \<times> int list \<Rightarrow> real list list) \<Rightarrow> bool" where
  "rowwise sc f \<longleftrightarrow> (\<forall>st ci. sc_forward sc st ci =
     Inr (map (f st) (zip (trows (ci_input_ids ci)) (zip (trows (ci_attention_mask ci)) (trows (ci_position_ids ci))))))"

definition slice_request :: "nat \<Rightarrow> nat \<Rightarrow> TeacherScoreRequest \<Rightarrow> TeacherScoreRequest" where
  "slice_request a b rq =
     \<lparr>rq_prompt_input_ids = tslice_rows a b (rq_prompt_input_ids rq),
      rq_prompt_attention_mask = tslice_rows a b (rq_prompt_attention_mask rq),
      rq_response_ids = tslice_rows a b (rq_response_ids rq),
      rq_response_mask = tslice_rows a b (rq_response_mask rq), rq_temperature = rq_temperature rq\<rparr>"

lemma score_returns:
  assumes "build_causal_score_inputs (rq_prompt_input_ids rq) (rq_prompt_attention_mask rq)
       (rq_response_ids rq) (rq_response_mask rq) (case sc_pad_token_id sc of None \<Rightarrow> 0 | Some p \<Rightarrow> p) = Inr ci"
    "sc_forward sc (run_state sc st) ci = Inr lg"
    "gather_response_log_probs lg (ci_response_ids ci) (ci_response_logit_positions ci) (rq_temperature rq) = Inr lp"
    "ms_adapters_on st \<or> sc_api sc \<noteq> SwitchApi \<or> \<not> sc_disable_adapter sc"
  shows "\<exists>out. score sc rq st = (Inr out, st) \<and> so_response_log_probs out = lp"
  using assms
  by (cases "sc_api sc"; cases "sc_disable_adapter sc"; cases "ms_training st")
     (auto simp: score_def score_body_def peft_adapter_disabled_def run_state_def Let_def)

lemma score_slice:
  assumes sc: "rowwise sc f" and ok: "score sc rq st = (Inr out, st')"
    and st: "ms_adapters_on st \<or> sc_api sc \<noteq> SwitchApi \<or> \<not> sc_disable_adapter sc"
  shows "\<exists>o'. score sc (slice_request a b rq) st = (Inr o', st) \<and>
    so_response_log_probs o' = tslice_rows a b (so_response_log_probs out)"
proof -
  obtain ci lg where ci: "build_causal_score_inputs (rq_prompt_input_ids rq) (rq_prompt_attention_mask rq)
       (rq_response_ids rq) (rq_response_mask rq) (case sc_pad_token_id sc of None \<Rightarrow> 0 | Some p \<Rightarrow> p) = Inr ci"
    and fwd: "sc_forward sc (run_state sc st) ci = Inr lg"
    and g: "gather_response_log_probs lg (ci_response_ids ci) (ci_response_logit_positions ci) (rq_temperature rq)
       = Inr (so_response_log_probs out)"
    using ok by (rule score_Inr)
  let ?g = "f (run_state sc st)" and ?T = "rq_temperature rq"
  note r = build_rows[OF ci]
  have lg: "lg = map ?g (zip (trows (ci_input_ids ci)) (zip (trows (ci_attention_mask ci)) (trows (ci_position_ids ci))))"
    using fwd sc by (simp add: rowwise_def)
  have ll: "length lg = length (trows (ci_response_logit_positions ci))"
    using r by (simp add: lg tshape_def)
  have sh: "tshape (ci_response_ids ci) = tshape (ci_response_logit_positions ci)" using r(4,5) by simp
  obtain rows where T: "0 < ?T"
    and rows: "map_res (gather_row ?T) (zip lg (zip (trows (ci_response_ids ci)) (trows (ci_response_logit_positions ci)))) = Inr rows"
    and lp: "so_response_log_probs out = Tensor2 (tcols (ci_response_ids ci)) rows"
    using g unfolding gather_rows[OF ll sh] by (auto simp: bind_res_Inr split: if_splits)
  let ?ci = "slice_inputs a b ci"
  have fwd': "sc_forward sc (run_state sc st) ?ci = Inr (slice a b lg)"
    using sc by (simp add: rowwise_def slice_inputs_def lg slice_map slice_zip)
  have ll': "length (slice a b lg) = length (trows (ci_response_logit_positions ?ci))"
    using ll by (simp add: slice_inputs_def)
  have sh': "tshape (ci_response_ids ?ci) = tshape (ci_response_logit_positions ?ci)"
    using tslice_shape[OF sh] by (simp add: slice_inputs_def)
  have "gather_response_log_probs (slice a b lg) (ci_response_ids ?ci) (ci_response_logit_positions ?ci) ?T
      = Inr (tslice_rows a b (so_response_log_probs out))"
    unfolding gather_rows[OF ll' sh']
    using T map_res_slice[OF rows, of a b]
    by (simp add: slice_inputs_def slice_zip lp) (simp add: tslice_rows_def)
  then show ?thesis
    using score_returns[of "slice_request a b rq" sc ?ci st "slice a b lg"] build_slice[OF ci, of a b] fwd' st
    by (simp add: slice_request_def)
qed

section \<open>All requests together\<close>

lemma concat_chunk_starts:
  "0 < k \<Longrightarrow> concat (map (\<lambda>s. slice s (s + k) xs) (chunk_starts k start (length xs))) = drop start xs"
proof (induction k start "length xs" rule: chunk_starts.induct)
  case (1 k start)
  show ?case
  proof (cases "length xs \<le> start")
    case True
    then show ?thesis by (simp add: chunk_starts.simps)
  next
    case False
    then have "concat (map (\<lambda>s. slice s (s + k) xs) (chunk_starts k start (length xs)))
        = slice start (start + k) xs @ drop (start + k) xs"
      using 1 by (simp add: chunk_starts.simps[of k start])
    also have "\<dots> = drop start xs"
      by (simp add: slice_def) (metis add.commute append_take_drop_id drop_drop)
    finally show ?thesis .
  qed
qed

lemma score_all_slices:
  assumes "rowwise sc f" "score sc rq st = (Inr out, st')"
    "ms_adapters_on st \<or> sc_api sc \<noteq> SwitchApi \<or> \<not> sc_disable_adapter sc"
  shows "score_all sc (map (\<lambda>s. slice_request s (s + k) rq) starts) st
    = Inr (map (\<lambda>s. tslice_rows s (s + k) (so_response_log_probs out)) starts, st)"
proof (induction starts)
  case (Cons s starts)
  obtain o' where "score sc (slice_request s (s + k) rq) st = (Inr o', st)"
    "so_response_log_probs o' = tslice_rows s (s + k) (so_response_log_probs out)"
    using score_slice[OF assms] by blast
  with Cons show ?case by simp
qed simp

definition whole_request :: "score_batch \<Rightarrow> real \<Rightarrow> TeacherScoreRequest" where
  "whole_request b temperature =
     \<lparr>rq_prompt_input_ids = bt_prompts b,
      rq_prompt_attention_mask = ttake_cols (tcols (bt_prompts b)) (bt_attention_mask b),
      rq_response_ids = bt_responses b, rq_response_mask = bt_response_mask b, rq_temperature = temperature\<rparr>"

lemma micro_request_slice: "micro_request b T k s = slice_request s (s + k) (whole_request b T)"
  by (simp add: micro_request_def slice_request_def whole_request_def tslice_take_cols)

text \<open>
  C5. The micro-batch size of the inline teacher does not matter. Let the cached scorer run a model
  that scores sequences independently, on a batch of at least one row that it can score as a whole.
  Then for every positive micro-batch size \<open>_score_direct_opd_inline\<close> returns exactly the log
  probabilities of the single request for the whole batch, and leaves the model state unchanged.
\<close>

theorem micro_batches_equal_whole:
  assumes sc: "tr_scorer tr = Some (sc, mst)" "rowwise sc f"
    and mst: "ms_adapters_on mst \<or> sc_api sc \<noteq> SwitchApi \<or> \<not> sc_disable_adapter sc"
    and k: "0 < conf (xc_micro_batch_size xc) 1" and n: "0 < length (trows (bt_responses b))"
    and whole: "score sc (whole_request b (conf (xc_temperature xc) 1)) mst = (Inr out, mst')"
  shows "\<exists>tr'. score_direct_opd_inline env tok xc b tr = Inr (so_response_log_probs out, tr') \<and>
    tr_scorer tr' = Some (sc, mst)"
proof -
  let ?k = "nat (conf (xc_micro_batch_size xc) 1)" and ?lp = "so_response_log_probs out"
  let ?starts = "chunk_starts ?k 0 (length (trows (bt_responses b)))"
  have kp: "0 < ?k" using k by simp
  obtain ci lg where ci: "build_causal_score_inputs (bt_prompts b) (ttake_cols (tcols (bt_prompts b)) (bt_attention_mask b))
       (bt_responses b) (bt_response_mask b) (case sc_pad_token_id sc of None \<Rightarrow> 0 | Some p \<Rightarrow> p) = Inr ci"
    and g: "gather_response_log_probs lg (ci_response_ids ci) (ci_response_logit_positions ci) (conf (xc_temperature xc) 1) = Inr ?lp"
    using whole by (rule score_Inr) (simp add: whole_request_def)
  have shape: "tshape ?lp = tshape (bt_responses b)" using gather_shape[OF g] build_rows(4)[OF ci] by simp
  then have len: "length (trows ?lp) = length (trows (bt_responses b))" by (simp add: tshape_def)
  have all: "score_all sc (map (micro_request b (conf (xc_temperature xc) 1) ?k) ?starts) mst
      = Inr (map (\<lambda>s. tslice_rows s (s + ?k) ?lp) ?starts, mst)"
  proof -
    have "micro_request b T ?k = (\<lambda>s. slice_request s (s + ?k) (whole_request b T))" for T
      by (rule ext) (rule micro_request_slice)
    then show ?thesis by (simp only: score_all_slices[OF sc(2) whole mst])
  qed
  have cat: "concat (map (\<lambda>s. slice s (s + ?k) (trows ?lp)) ?starts) = trows ?lp"
    using concat_chunk_starts[OF kp, of "trows ?lp" 0] len by simp
  have ne: "?starts \<noteq> []" using n kp by (simp add: chunk_starts.simps)
  then have "tcat0 (map (\<lambda>s. tslice_rows s (s + ?k) ?lp) ?starts) = Inr ?lp"
    using cat by (cases ?lp; cases ?starts) (auto simp: tcat0_def o_def)
  with all k show ?thesis
    by (simp add: score_direct_opd_inline_def get_direct_opd_scorer_def sc(1) Let_def)
qed

definition ex_row_scorer :: teacher_scorer where
  "ex_row_scorer = \<lparr>sc_forward = (\<lambda>st ci. Inr (map (\<lambda>_. [[0, 0], [0, 0]])
       (zip (trows (ci_input_ids ci)) (zip (trows (ci_attention_mask ci)) (trows (ci_position_ids ci)))))),
     sc_api = NoAdapterApi, sc_pad_token_id = Some 0, sc_disable_adapter = False\<rparr>"

definition ex_pair :: score_batch where
  "ex_pair = \<lparr>bt_prompts = Tensor2 1 [[1], [1]], bt_responses = Tensor2 1 [[1], [0]],
     bt_input_ids = Tensor2 2 [[1, 1], [1, 0]], bt_attention_mask = Tensor2 2 [[1, 1], [1, 1]],
     bt_position_ids = Tensor2 2 [[0, 1], [0, 1]], bt_response_mask = Tensor2 1 [[1], [1]]\<rparr>"

lemma ex_pair_score:
  "\<exists>out mst'. score ex_row_scorer (whole_request ex_pair 1) mst = (Inr out, mst')"
  by (simp add: ex_row_scorer_def ex_pair_def whole_request_def score_def score_body_def Let_def
      build_causal_score_inputs_def assert_left_padded_prefix_mask_def expected_row_def to_bool_def
      ttake_cols_def tshape_def tmap2_def tcat1_def gather_response_log_probs_def gather_token_def
      tidx_def log_softmax_def upt_rec numeral_2_eq_2)

lemma micro_batches_equal_whole_witness:
  "\<forall>env tok. \<exists>(out :: TeacherScoreOutput) tr'. score_direct_opd_inline env tok ex_xc ex_pair
     (ex_trainer\<lparr>tr_scorer := Some (ex_row_scorer, \<lparr>ms_training = False, ms_adapters_on = True\<rparr>)\<rparr>)
     = Inr (so_response_log_probs out, tr')"
proof (intro allI)
  fix env tok
  let ?st = "\<lparr>ms_training = False, ms_adapters_on = True\<rparr>"
  obtain out mst' where w: "score ex_row_scorer (whole_request ex_pair (conf (xc_temperature ex_xc) 1)) ?st = (Inr out, mst')"
  proof -
    have "conf (xc_temperature ex_xc) 1 = 1" by (simp add: ex_xc_def conf_def)
    then show thesis using ex_pair_score[of ?st] that by auto
  qed
  have r: "rowwise ex_row_scorer (\<lambda>_ _. [[0, 0], [0, 0]])"
    by (simp add: rowwise_def ex_row_scorer_def)
  have "\<exists>tr'. score_direct_opd_inline env tok ex_xc ex_pair (ex_trainer\<lparr>tr_scorer := Some (ex_row_scorer, ?st)\<rparr>)
      = Inr (so_response_log_probs out, tr') \<and> tr_scorer tr' = Some (ex_row_scorer, ?st)"
    by (rule micro_batches_equal_whole[OF _ r _ _ _ w]) (simp_all add: ex_xc_def conf_def ex_pair_def)
  then show "\<exists>(out :: TeacherScoreOutput) tr'. score_direct_opd_inline env tok ex_xc ex_pair
     (ex_trainer\<lparr>tr_scorer := Some (ex_row_scorer, ?st)\<rparr>) = Inr (so_response_log_probs out, tr')" by blast
qed

end
