(* ===== verification/Reward.thy ===== *)
theory Reward
  imports PyStrings
begin

text \<open>
  \<open>recipes/extpi_rlsd/rewards/math_verify_reward.py\<close>: extraction of the last boxed answer, its
  verification, and the score. The \<open>math_verify\<close> package is a parameter: it maps the two texts to
  a verdict or raises (an unavailable package raises as well), and the code falls back to a
  normalised comparison.
\<close>

definition boxed_marker :: string where
  "boxed_marker = backslash @ ''boxed''"

text \<open>
  The loop over \<open>text[brace_idx:]\<close>: the position at which the depth returns to zero. The depth is an
  integer, as in the source.
\<close>

fun close_brace :: "int \<Rightarrow> nat \<Rightarrow> string \<Rightarrow> nat option" where
  "close_brace depth pos [] = None"
| "close_brace depth pos (c # cs) =
     (if c = CHR ''{'' then close_brace (depth + 1) (Suc pos) cs
      else if c = CHR ''}'' then
        (if depth - 1 = 0 then Some pos else close_brace (depth - 1) (Suc pos) cs)
      else close_brace depth (Suc pos) cs)"

definition find_from :: "string \<Rightarrow> string \<Rightarrow> nat \<Rightarrow> nat option" where
  "find_from p s start = map_option (\<lambda>k. start + k) (py_find p (drop start s))"

definition extract_boxed_answer :: "string \<Rightarrow> string option" where
  "extract_boxed_answer text =
     (case py_rfind boxed_marker text of
        None \<Rightarrow> None
      | Some idx \<Rightarrow>
          (case find_from ''{'' text idx of
             None \<Rightarrow> None
           | Some brace_idx \<Rightarrow>
               (case close_brace 0 brace_idx (drop brace_idx text) of
                  None \<Rightarrow> None
                | Some pos \<Rightarrow> Some (py_strip (slice (brace_idx + 1) pos text)))))"

definition normalize_string :: "string \<Rightarrow> string" where
  "normalize_string v = py_lower (filter (\<lambda>c. \<not> is_space c) (py_replace ''$'' [] v))"

definition dollar_wrap :: "string \<Rightarrow> string" where
  "dollar_wrap s = (if contains ''$'' s then s else ''$'' @ s @ ''$'')"

definition verify_answer :: "(string \<Rightarrow> string \<Rightarrow> bool res) \<Rightarrow> string option \<Rightarrow> string \<Rightarrow> bool" where
  "verify_answer math_verify predicted ground_truth =
     (case predicted of
        None \<Rightarrow> False
      | Some p \<Rightarrow>
          (case math_verify (dollar_wrap ground_truth) (dollar_wrap p) of
             Inr b \<Rightarrow> b
           | Inl _ \<Rightarrow> normalize_string p = normalize_string ground_truth))"

record score_result =
  sr_score :: real
  sr_accuracy :: real
  sr_format :: real
  sr_boxed_answer :: string

definition compute_score ::
  "(string \<Rightarrow> string \<Rightarrow> bool res) \<Rightarrow> string \<Rightarrow> string \<Rightarrow> string \<Rightarrow> score_result" where
  "compute_score math_verify data_source solution_str ground_truth =
     (let boxed = extract_boxed_answer solution_str;
          correct = verify_answer math_verify boxed ground_truth;
          formatted = boxed \<noteq> None
      in \<lparr>sr_score = (if correct then 1 else if formatted then 1/20 else 0),
          sr_accuracy = (if correct then 1 else 0),
          sr_format = (if formatted then 1 else 0),
          sr_boxed_answer = (case boxed of None \<Rightarrow> [] | Some b \<Rightarrow> b)\<rparr>)"

section \<open>Lemmas\<close>

text \<open>The depth of nesting after reading a text, and texts whose braces match.\<close>

fun depth_after :: "int \<Rightarrow> string \<Rightarrow> int" where
  "depth_after d [] = d"
| "depth_after d (c # cs) =
     depth_after (if c = CHR ''{'' then d + 1 else if c = CHR ''}'' then d - 1 else d) cs"

definition balanced :: "string \<Rightarrow> bool" where
  "balanced s \<longleftrightarrow> depth_after 0 s = 0 \<and> (\<forall>a b. s = a @ b \<longrightarrow> 0 \<le> depth_after 0 a)"

lemma depth_after_shift: "depth_after (d + e) s = depth_after d s + e"
proof (induction s arbitrary: d)
  case (Cons c s)
  have "depth_after (d + e + 1) s = depth_after (d + 1) s + e" "depth_after (d + e - 1) s = depth_after (d - 1) s + e"
    using Cons.IH[of "d + 1"] Cons.IH[of "d - 1"] by (simp_all add: algebra_simps)
  with Cons.IH[of d] show ?case by simp
qed simp

lemma close_brace_skip:
  assumes "\<And>a b. s = a @ b \<Longrightarrow> 0 < depth_after d a"
  shows "close_brace d pos (s @ t) = close_brace (depth_after d s) (pos + length s) t"
  using assms
proof (induction s arbitrary: d pos)
  case (Cons c s)
  let ?d = "if c = CHR ''{'' then d + 1 else if c = CHR ''}'' then d - 1 else d"
  have pos: "0 < depth_after ?d a" if "s = a @ b" for a b
    using Cons.prems[of "c # a" b] that by simp
  have d: "0 < ?d" using pos[of "[]" s] by simp
  have "close_brace d pos ((c # s) @ t) = close_brace ?d (Suc pos) (s @ t)"
    using d by (auto split: if_splits)
  also have "\<dots> = close_brace (depth_after ?d s) (Suc pos + length s) t"
    by (rule Cons.IH) (rule pos)
  finally show ?case by simp
qed simp

lemma close_brace_Some:
  assumes "close_brace d pos s = Some q" "0 < d"
  shows "\<exists>body rest. s = body @ CHR ''}'' # rest \<and> q = pos + length body
     \<and> depth_after d body = 1 \<and> (\<forall>a b. body = a @ b \<longrightarrow> 0 < depth_after d a)"
  using assms
proof (induction s arbitrary: d pos)
  case (Cons c s)
  let ?d = "if c = CHR ''{'' then d + 1 else if c = CHR ''}'' then d - 1 else d"
  show ?case
  proof (cases "c = CHR ''}'' \<and> d = 1")
    case True
    with Cons.prems show ?thesis by (intro exI[of _ "[]"] exI[of _ s]) auto
  next
    case False
    then have "close_brace ?d (Suc pos) s = Some q" "0 < ?d" using Cons.prems by (auto split: if_splits)
    from Cons.IH[OF this] obtain body rest where b: "s = body @ CHR ''}'' # rest" "q = Suc pos + length body"
      "depth_after ?d body = 1" "\<forall>a b. body = a @ b \<longrightarrow> 0 < depth_after ?d a" by blast
    have "0 < depth_after d a" if "c # body = a @ b'" for a b'
      using that b(4) Cons.prems(2) by (cases a) auto
    with b show ?thesis by (intro exI[of _ "c # body"] exI[of _ rest]) auto
  qed
qed simp

lemma balanced_positive: "balanced s \<Longrightarrow> s = a @ b \<Longrightarrow> 0 < depth_after 1 a"
  using depth_after_shift[of 0 1 a] by (force simp: balanced_def)

lemma balanced_depth: "balanced s \<longleftrightarrow> depth_after 1 s = 1 \<and> (\<forall>a b. s = a @ b \<longrightarrow> 0 < depth_after 1 a)"
  using depth_after_shift[of 0 1] by (auto simp: balanced_def algebra_simps int_one_le_iff_zero_less)

lemma py_find_brace:
  assumes "py_find [c] s = Some k"
  shows "\<exists>v. s = take k s @ c # v \<and> c \<notin> set (take k s) \<and> k < length s"
  using assms
proof (induction s arbitrary: k)
  case (Cons d s)
  show ?case
  proof (cases "d = c")
    case True
    then have "k = 0" using Cons.prems by (simp add: starts_with_def)
    with True show ?thesis by simp
  next
    case False
    then obtain k' where k': "py_find [c] s = Some k'" "k = Suc k'" using Cons.prems by (auto simp: starts_with_def)
    from Cons.IH[OF k'(1)] False k'(2) show ?thesis by auto
  qed
qed simp

section \<open>Properties\<close>

text \<open>
  C10. a boxed answer is read back. If the last occurrence of the marker is followed at once by a
  brace group whose braces match, the extraction returns the content of that group without its
  surrounding white space, whatever precedes and follows it.
\<close>

theorem extract_boxed_roundtrip:
  assumes bal: "balanced body"
    and last: "\<not> contains boxed_marker (tl (boxed_marker @ ''{'' @ body @ ''}'' @ post))"
  shows "extract_boxed_answer (pre @ boxed_marker @ ''{'' @ body @ ''}'' @ post) = Some (py_strip body)"
proof -
  let ?t = "pre @ boxed_marker @ ''{'' @ body @ ''}'' @ post"
  let ?b = "length pre + 6"
  have m: "boxed_marker = CHR 0x5C # ''boxed''" by (simp add: boxed_marker_def backslash_def)
  have len: "length boxed_marker = 6" by (simp add: m)
  have "py_rfind boxed_marker ?t = Some (length pre)"
    using py_rfind_append[of boxed_marker "tl (boxed_marker @ ''{'' @ body @ ''}'' @ post)" "CHR 0x5C" pre]
      last by (simp add: m starts_with_def)
  moreover have "find_from ''{'' ?t (length pre) = Some ?b"
    by (simp add: find_from_def m starts_with_def)
  moreover have d: "drop ?b ?t = CHR ''{'' # body @ ''}'' @ post"
    using len by simp
  moreover have "close_brace 0 ?b (CHR ''{'' # body @ ''}'' @ post) = Some (?b + 1 + length body)"
    using close_brace_skip[of body 1 "Suc ?b" "''}'' @ post"] balanced_positive[OF bal] bal
    by (simp add: balanced_depth)
  moreover have "slice (?b + 1) (?b + 1 + length body) ?t = body"
  proof -
    have "drop (?b + 1) ?t = drop 1 (drop ?b ?t)" by (simp only: drop_drop add.commute)
    also have "\<dots> = body @ ''}'' @ post" unfolding d by simp
    finally show ?thesis by (simp add: slice_def)
  qed
  ultimately show ?thesis by (simp add: extract_boxed_answer_def)
qed

theorem extract_boxed_roundtrip_witness:
  "extract_boxed_answer (''so '' @ boxed_marker @ ''{ '' @ ''x{1}'' @ ''}'' @ ''.'') = Some ''x{1}''"
proof -
  have bal: "balanced '' x{1}''"
    unfolding balanced_depth
    by (auto simp: Cons_eq_append_conv)
  have nc: "\<not> contains boxed_marker (tl (boxed_marker @ ''{'' @ '' x{1}'' @ ''}'' @ ''.''))"
    by (simp add: boxed_marker_def backslash_def starts_with_def)
  from extract_boxed_roundtrip[OF bal nc, of "''so ''"] show ?thesis
    by (simp add: py_strip_def lstrip_def is_space_def in_range_def)
qed

text \<open>
  Whatever is extracted is the content of a brace group of the response whose braces match
  and which follows the last marker.
\<close>

theorem extract_boxed_sound:
  assumes "extract_boxed_answer text = Some r"
  shows "\<exists>pre mid body post. text = pre @ boxed_marker @ mid @ ''{'' @ body @ ''}'' @ post
     \<and> balanced body \<and> r = py_strip body \<and> CHR ''{'' \<notin> set mid"
proof -
  from assms obtain idx bi pos where idx: "py_rfind boxed_marker text = Some idx"
    and bi: "find_from ''{'' text idx = Some bi"
    and pos: "close_brace 0 bi (drop bi text) = Some pos"
    and r: "r = py_strip (slice (bi + 1) pos text)"
    by (auto simp: extract_boxed_answer_def split: option.splits)
  from py_rfind_Some[OF idx] obtain u where u: "drop idx text = boxed_marker @ u" and il: "idx \<le> length text"
    by (auto simp: starts_with_iff)
  from bi obtain k where k: "py_find ''{'' (drop idx text) = Some k" and bik: "bi = idx + k"
    by (auto simp: find_from_def)
  from py_find_brace[OF k] obtain v where v: "drop idx text = take k (drop idx text) @ CHR ''{'' # v"
    and nb: "CHR ''{'' \<notin> set (take k (drop idx text))" and kl: "k < length (drop idx text)" by blast
  have k6: "length boxed_marker \<le> k"
  proof (rule ccontr)
    assume "\<not> length boxed_marker \<le> k"
    then have "drop idx text ! k \<in> set boxed_marker" using u by (simp add: nth_append)
    moreover have "drop idx text ! k = CHR ''{''" using v kl by (metis append_take_drop_id nth_append_length length_take min.absorb2 less_imp_le)
    ultimately show False by (simp add: boxed_marker_def backslash_def)
  qed
  have db: "drop bi text = CHR ''{'' # v"
    using v kl bik by (metis append_eq_conv_conj drop_drop add.commute length_take min.absorb2 less_imp_le)
  with pos have "close_brace 1 (Suc bi) v = Some pos" by simp
  from close_brace_Some[OF this] obtain body rest where b: "v = body @ CHR ''}'' # rest"
    "pos = Suc bi + length body" "depth_after 1 body = 1" "\<forall>a b. body = a @ b \<longrightarrow> 0 < depth_after 1 a" by auto
  have bal: "balanced body" using b(3,4) by (simp add: balanced_depth)
  have "drop (Suc bi) text = v" using db by (metis drop_Suc list.sel(3) tl_drop)
  then have body: "slice (bi + 1) pos text = body" using b(1,2) by (simp add: slice_def)
  define mid where "mid = drop (length boxed_marker) (take k (drop idx text))"
  have tk: "take k (drop idx text) = boxed_marker @ mid"
    using u k6 by (simp add: mid_def)
  have "text = take idx text @ boxed_marker @ mid @ ''{'' @ body @ ''}'' @ rest"
    using v b(1) tk append_take_drop_id[of idx "text"] by simp
  moreover have "CHR ''{'' \<notin> set mid" using nb tk by simp
  ultimately show ?thesis using bal r body by blast
qed

theorem extract_boxed_sound_example:
  "extract_boxed_answer (boxed_marker @ '' {a}'') = Some ''a'' \<and>
   (\<exists>pre mid body post. boxed_marker @ '' {a}'' = pre @ boxed_marker @ mid @ ''{'' @ body @ ''}'' @ post
     \<and> balanced body \<and> ''a'' = py_strip body \<and> CHR ''{'' \<notin> set mid)"
proof -
  have "extract_boxed_answer (boxed_marker @ '' {a}'') = Some ''a''"
    by (simp add: extract_boxed_answer_def boxed_marker_def backslash_def starts_with_def find_from_def
        slice_def py_strip_def lstrip_def is_space_def in_range_def)
  with extract_boxed_sound[OF this] show ?thesis by blast
qed

text \<open>
  The score is 1, 0.05 or 0. It is 1 exactly when the accuracy is 1, which needs an extracted
  answer that the verifier accepts (or, when the verifier raises, one that equals the ground truth
  up to white space, dollar signs and case); a response with an extracted answer never scores 0.
\<close>

theorem compute_score_levels:
  "sr_score (compute_score mv ds sol gt) \<in> {0, 1/20, 1}
   \<and> (sr_score (compute_score mv ds sol gt) = 1 \<longleftrightarrow>
        (\<exists>p. extract_boxed_answer sol = Some p \<and>
           (case mv (dollar_wrap gt) (dollar_wrap p) of Inr b \<Rightarrow> b
            | Inl _ \<Rightarrow> normalize_string p = normalize_string gt)))
   \<and> (sr_score (compute_score mv ds sol gt) = 0 \<longleftrightarrow> extract_boxed_answer sol = None)
   \<and> sr_accuracy (compute_score mv ds sol gt) \<le> sr_format (compute_score mv ds sol gt)"
  by (auto simp: compute_score_def verify_answer_def Let_def split: option.splits sum.splits)

end
