(* ===== verification/Heapq.thy ===== *)
theory Heapq
  imports Prelude
begin

text \<open>
  The binary heap of Python's \<open>heapq\<close> module on a list, as \<open>verl/utils/seqlen_balancing.py\<close> uses it:
  \<open>heappush\<close>, \<open>heappop\<close> and their two sifting loops, for any comparison \<open>lt\<close> (the \<open>__lt__\<close> of the
  elements). A locale states what a client of a priority queue may rely on; the heap is shown to
  provide it whenever \<open>lt\<close> is a strict weak order.
\<close>

section \<open>Operations\<close>

text \<open>\<open>_siftdown\<close>: move a new item from \<open>pos\<close> towards the root while it is less than its parent.\<close>

function heap_siftdown :: "('a \<Rightarrow> 'a \<Rightarrow> bool) \<Rightarrow> 'a list \<Rightarrow> nat \<Rightarrow> nat \<Rightarrow> 'a \<Rightarrow> 'a list" where
  "heap_siftdown lt heap startpos pos newitem =
     (if startpos < pos
      then let parentpos = (pos - 1) div 2; parent = heap ! parentpos
           in if lt newitem parent
              then heap_siftdown lt (heap[pos := parent]) startpos parentpos newitem
              else heap[pos := newitem]
      else heap[pos := newitem])"
  by pat_completeness auto
termination by (relation "measure (\<lambda>(_, _, _, pos, _). pos)") auto

declare heap_siftdown.simps [simp del]

text \<open>\<open>_siftup\<close>, first loop: bubble the smaller child up until the hole is at a leaf.\<close>

definition heap_child :: "('a \<Rightarrow> 'a \<Rightarrow> bool) \<Rightarrow> 'a list \<Rightarrow> nat \<Rightarrow> nat" where
  "heap_child lt heap pos =
     (let childpos = 2 * pos + 1; rightpos = childpos + 1
      in if rightpos < length heap \<and> \<not> lt (heap ! childpos) (heap ! rightpos)
         then rightpos else childpos)"

lemma heap_child_cases: "heap_child lt h p = 2 * p + 1 \<or> heap_child lt h p = 2 * p + 2 \<and> 2 * p + 2 < length h"
  by (simp add: heap_child_def Let_def)

function heap_bubble :: "('a \<Rightarrow> 'a \<Rightarrow> bool) \<Rightarrow> 'a list \<Rightarrow> nat \<Rightarrow> 'a list \<times> nat" where
  "heap_bubble lt heap pos =
     (if 2 * pos + 1 < length heap
      then let c = heap_child lt heap pos in heap_bubble lt (heap[pos := heap ! c]) c
      else (heap, pos))"
  by pat_completeness auto
termination
proof (relation "measure (\<lambda>(_, heap, pos). length heap - pos)")
  fix lt and heap :: "'a list" and pos c
  assume "2 * pos + 1 < length heap" "c = heap_child lt heap pos"
  then show "((lt, heap[pos := heap ! c], c), lt, heap, pos) \<in> measure (\<lambda>(_, heap, pos). length heap - pos)"
    using heap_child_cases[of lt heap pos] by auto
qed simp

declare heap_bubble.simps [simp del]

definition heap_siftup :: "('a \<Rightarrow> 'a \<Rightarrow> bool) \<Rightarrow> 'a list \<Rightarrow> nat \<Rightarrow> 'a list" where
  "heap_siftup lt heap pos =
     (let newitem = heap ! pos; (heap', pos') = heap_bubble lt heap pos
      in heap_siftdown lt (heap'[pos' := newitem]) pos pos' newitem)"

definition heappush :: "('a \<Rightarrow> 'a \<Rightarrow> bool) \<Rightarrow> 'a list \<Rightarrow> 'a \<Rightarrow> 'a list" where
  "heappush lt heap item = heap_siftdown lt (heap @ [item]) 0 (length heap) item"

definition heappop :: "('a \<Rightarrow> 'a \<Rightarrow> bool) \<Rightarrow> 'a list \<Rightarrow> ('a \<times> 'a list) res" where
  "heappop lt heap =
     (if heap = [] then Inl IndexError
      else let lastelt = last heap; rest = butlast heap
           in if rest = [] then Inr (lastelt, [])
              else Inr (rest ! 0, heap_siftup lt (rest[0 := lastelt]) 0))"

section \<open>The interface of a priority queue\<close>

locale priority_queue =
  fixes lt :: "'a \<Rightarrow> 'a \<Rightarrow> bool"
    and elems :: "'q \<Rightarrow> 'a multiset"
    and inv :: "'q \<Rightarrow> bool"
    and push :: "'q \<Rightarrow> 'a \<Rightarrow> 'q"
    and pop :: "'q \<Rightarrow> ('a \<times> 'q) res"
  assumes elems_push: "elems (push q x) = add_mset x (elems q)"
    and inv_push: "inv q \<Longrightarrow> inv (push q x)"
    and pop_empty: "elems q = {#} \<Longrightarrow> pop q = Inl IndexError"
    and pop_some: "elems q \<noteq> {#} \<Longrightarrow> \<exists>x q'. pop q = Inr (x, q')"
    and elems_pop: "pop q = Inr (x, q') \<Longrightarrow> elems q = add_mset x (elems q')"
    and inv_pop: "inv q \<Longrightarrow> pop q = Inr (x, q') \<Longrightarrow> inv q'"
    and pop_least: "inv q \<Longrightarrow> pop q = Inr (x, q') \<Longrightarrow> y \<in># elems q \<Longrightarrow> \<not> lt y x"
begin

text \<open>Two pops in a row on a queue of two or more elements: the two least, in order.\<close>

lemma pop2:
  assumes "1 < size (elems q)"
  obtains x y q1 q2 where "pop q = Inr (x, q1)" "pop q1 = Inr (y, q2)"
    "elems q = add_mset x (add_mset y (elems q2))"
proof -
  from assms have "elems q \<noteq> {#}" by auto
  then obtain x q1 where 1: "pop q = Inr (x, q1)" using pop_some by blast
  then have e1: "elems q = add_mset x (elems q1)" by (rule elems_pop)
  with assms have "elems q1 \<noteq> {#}" by auto
  then obtain y q2 where 2: "pop q1 = Inr (y, q2)" using pop_some by blast
  then have "elems q1 = add_mset y (elems q2)" by (rule elems_pop)
  with 1 2 e1 that show thesis by simp
qed

lemma pop2_least:
  assumes "inv q" "pop q = Inr (x, q1)" "pop q1 = Inr (y, q2)" "z \<in># elems q2"
  shows "\<not> lt y x" "\<not> lt z x" "\<not> lt z y"
proof -
  have e: "elems q = add_mset x (elems q1)" "elems q1 = add_mset y (elems q2)"
    using assms(2,3) by (auto dest: elems_pop)
  show "\<not> lt y x" "\<not> lt z x"
    using pop_least[OF assms(1,2)] e assms(4) by auto
  show "\<not> lt z y"
    using pop_least[OF inv_pop[OF assms(1,2)] assms(3)] e assms(4) by auto
qed

end

section \<open>The heap keeps its elements\<close>

lemma length_heap_siftdown [simp]: "length (heap_siftdown lt h s p x) = length h"
proof (induction lt h s p x rule: heap_siftdown.induct)
  case (1 lt h s p x)
  then show ?case by (subst heap_siftdown.simps) (auto simp: Let_def)
qed

lemma mset_update_swap:
  assumes "i < length h" "j < length h" "i \<noteq> j"
  shows "mset ((h[i := h ! j])[j := x]) = mset (h[i := x])"
proof -
  let ?l = "h[i := x]"
  have "mset (?l[j := ?l ! i, i := ?l ! j]) = mset ?l"
    using assms by (intro mset_swap) auto
  moreover have "?l[j := ?l ! i, i := ?l ! j] = h[i := h ! j, j := x]"
    using assms by (auto simp: list_update_swap nth_list_update intro!: nth_equalityI)
  ultimately show ?thesis by simp
qed

lemma mset_heap_siftdown: "p < length h \<Longrightarrow> mset (heap_siftdown lt h s p x) = mset (h[p := x])"
proof (induction lt h s p x rule: heap_siftdown.induct)
  case (1 lt h s p x)
  then show ?case by (subst heap_siftdown.simps) (auto simp: Let_def mset_update_swap)
qed

lemma heap_bubble_mset:
  "p < length h \<Longrightarrow> heap_bubble lt h p = (h', p') \<Longrightarrow>
   length h' = length h \<and> p' < length h \<and> mset (h'[p' := x]) = mset (h[p := x])"
proof (induction lt h p rule: heap_bubble.induct)
  case (1 lt h p)
  show ?case
  proof (cases "2 * p + 1 < length h")
    case True
    let ?c = "heap_child lt h p"
    have c: "?c < length h" "?c \<noteq> p" using True heap_child_cases[of lt h p] by auto
    have step: "heap_bubble lt (h[p := h ! ?c]) ?c = (h', p')"
      using True "1.prems"(2) by (simp add: heap_bubble.simps[of lt h] Let_def)
    have "length h' = length (h[p := h ! ?c]) \<and> p' < length (h[p := h ! ?c]) \<and>
        mset (h'[p' := x]) = mset (h[p := h ! ?c, ?c := x])"
      using c by (intro "1.IH"[OF True refl _ step]) auto
    then show ?thesis using c "1.prems"(1) by (simp add: mset_update_swap)
  next
    case False
    then show ?thesis using "1.prems" by (simp add: heap_bubble.simps[of lt h])
  qed
qed

lemma mset_heap_siftup:
  assumes "p < length h"
  shows "mset (heap_siftup lt h p) = mset h"
proof -
  obtain h' p' where b: "heap_bubble lt h p = (h', p')" by (cases "heap_bubble lt h p")
  from heap_bubble_mset[OF assms b, of "h ! p"] show ?thesis
    by (simp add: heap_siftup_def b mset_heap_siftdown Let_def)
qed

lemma length_heap_siftup: "p < length h \<Longrightarrow> length (heap_siftup lt h p) = length h"
  by (metis mset_heap_siftup size_mset)

lemma mset_heappush: "mset (heappush lt h x) = add_mset x (mset h)"
  by (simp add: heappush_def mset_heap_siftdown)

text \<open>The two shapes of a successful \<open>heappop\<close>.\<close>

lemma heappop_cases:
  assumes "heappop lt h = Inr (x, h')"
  obtains "h = [x]" "h' = []"
  | a l where "h = x # l @ [a]" "h' = heap_siftup lt (a # l) 0"
proof -
  have ne: "h \<noteq> []" using assms by (auto simp: heappop_def)
  then obtain g a where h: "h = g @ [a]" by (metis append_butlast_last_id)
  show thesis
  proof (cases g)
    case Nil
    then show ?thesis using assms h that(1) by (simp add: heappop_def Let_def)
  next
    case (Cons b l)
    then show ?thesis using assms h that(2)[of l a] by (simp add: heappop_def Let_def)
  qed
qed

lemma mset_heappop: "heappop lt h = Inr (x, h') \<Longrightarrow> mset h = add_mset x (mset h')"
  by (erule heappop_cases) (simp_all add: mset_heap_siftup)

lemma length_heappush: "length (heappush lt h x) = Suc (length h)"
  by (metis mset_heappush size_add_mset size_mset)

lemma length_heappop: "heappop lt h = Inr (x, h') \<Longrightarrow> length h = Suc (length h')"
  by (metis mset_heappop size_add_mset size_mset)

lemma heappop_some: "h \<noteq> [] \<Longrightarrow> \<exists>x h'. heappop lt h = Inr (x, h')"
  by (simp add: heappop_def Let_def)

section \<open>The heap order\<close>

definition heap_inv :: "('a \<Rightarrow> 'a \<Rightarrow> bool) \<Rightarrow> 'a list \<Rightarrow> bool" where
  "heap_inv lt h \<longleftrightarrow> (\<forall>i < length h. 0 < i \<longrightarrow> \<not> lt (h ! i) (h ! ((i - 1) div 2)))"

text \<open>
  The order holds but between \<open>p\<close> and its parent; and the children of \<open>p\<close> are in order with the
  parent of \<open>p\<close>, so that exchanging \<open>p\<close> and its parent cannot break them.
\<close>

definition heap_but :: "('a \<Rightarrow> 'a \<Rightarrow> bool) \<Rightarrow> nat \<Rightarrow> 'a list \<Rightarrow> bool" where
  "heap_but lt p h \<longleftrightarrow>
     (\<forall>i < length h. 0 < i \<longrightarrow> i \<noteq> p \<longrightarrow> \<not> lt (h ! i) (h ! ((i - 1) div 2))) \<and>
     (\<forall>i < length h. 0 < i \<longrightarrow> (i - 1) div 2 = p \<longrightarrow> 0 < p \<longrightarrow> \<not> lt (h ! i) (h ! ((p - 1) div 2)))"

text \<open>The same with a hole at \<open>p\<close>, whose own entry does not count.\<close>

definition heap_hole :: "('a \<Rightarrow> 'a \<Rightarrow> bool) \<Rightarrow> nat \<Rightarrow> 'a list \<Rightarrow> bool" where
  "heap_hole lt p h \<longleftrightarrow>
     (\<forall>i < length h. 0 < i \<longrightarrow> i \<noteq> p \<longrightarrow> (i - 1) div 2 \<noteq> p \<longrightarrow> \<not> lt (h ! i) (h ! ((i - 1) div 2))) \<and>
     (\<forall>i < length h. 0 < i \<longrightarrow> (i - 1) div 2 = p \<longrightarrow> 0 < p \<longrightarrow> \<not> lt (h ! i) (h ! ((p - 1) div 2)))"

locale weak_order =
  fixes lt :: "'a \<Rightarrow> 'a \<Rightarrow> bool"
  assumes asym: "lt x y \<Longrightarrow> \<not> lt y x"
    and ntrans: "\<not> lt y x \<Longrightarrow> \<not> lt z y \<Longrightarrow> \<not> lt z x"
begin

lemma siftdown_step:
  assumes "heap_but lt p (h[p := x])" "0 < p" "p < length h" "lt x (h ! ((p - 1) div 2))"
  shows "heap_but lt ((p - 1) div 2) (h[p := h ! ((p - 1) div 2), (p - 1) div 2 := x])"
proof -
  let ?q = "(p - 1) div 2"
  let ?H = "h[p := x]" and ?N = "h[p := h ! ?q, ?q := x]"
  have q: "?q < p" "?q < length h" using assms by auto
  have P: "\<not> lt (?H ! i) (?H ! ((i - 1) div 2))" if "i < length h" "0 < i" "i \<noteq> p" for i
    using assms(1) that by (simp add: heap_but_def)
  have C: "\<not> lt (?H ! i) (?H ! ?q)" if "i < length h" "0 < i" "(i - 1) div 2 = p" for i
    using assms(1,2) that by (simp add: heap_but_def)
  have xp: "\<not> lt (h ! ?q) x" using assms(4) by (rule asym)
  have sib: "\<not> lt (h ! i) (h ! ?q)" if "i < length h" "0 < i" "i \<noteq> p" "(i - 1) div 2 = ?q" for i
    using P[OF that(1-3)] that q by (simp add: nth_list_update)
  have up: "\<not> lt (h ! ?q) (h ! ((?q - 1) div 2))" if "0 < ?q"
    using P[OF q(2) that] q by (simp add: nth_list_update)
  have 1: "\<not> lt (?N ! i) (?N ! ((i - 1) div 2))" if i: "i < length h" "0 < i" "i \<noteq> ?q" for i
  proof -
    have ip: "(i - 1) div 2 < i" using i by auto
    consider "i = p" | "i \<noteq> p" "(i - 1) div 2 = p" | "i \<noteq> p" "(i - 1) div 2 = ?q"
      | "i \<noteq> p" "(i - 1) div 2 \<noteq> p" "(i - 1) div 2 \<noteq> ?q" by blast
    then show ?thesis
    proof cases
      case 1
      then show ?thesis using xp q assms(3) by (simp add: nth_list_update)
    next
      case 2
      then show ?thesis using C[OF i(1,2)] q i by (simp add: nth_list_update)
    next
      case 3
      then show ?thesis using ntrans[OF xp sib[OF i(1,2)]] q i by (simp add: nth_list_update)
    next
      case 4
      then show ?thesis using P[OF i(1,2)] q i ip by (simp add: nth_list_update)
    qed
  qed
  have 2: "\<not> lt (?N ! i) (?N ! ((?q - 1) div 2))"
    if i: "i < length h" "0 < i" "(i - 1) div 2 = ?q" "0 < ?q" for i
  proof (cases "i = p")
    case True
    have "(?q - 1) div 2 < ?q" using i(4) by auto
    then have "(?q - 1) div 2 \<noteq> ?q" "(?q - 1) div 2 \<noteq> p" using q by auto
    with True show ?thesis using up[OF i(4)] q i by (simp add: nth_list_update)
  next
    case False
    have "(?q - 1) div 2 < ?q" "(i - 1) div 2 < i" using i(2,4) by auto
    then have iq: "i \<noteq> ?q" "(?q - 1) div 2 \<noteq> ?q" "(?q - 1) div 2 \<noteq> p" using i q by auto
    have "?N ! i = h ! i" "?N ! ((?q - 1) div 2) = h ! ((?q - 1) div 2)" using iq False by auto
    with ntrans[OF up[OF i(4)] sib[OF i(1,2) False i(3)]] show ?thesis by (simp only: not_False_eq_True)
  qed
  show ?thesis using 1 2 by (simp add: heap_but_def)
qed

lemma heap_siftdown_inv:
  "p < length h \<Longrightarrow> heap_but lt p (h[p := x]) \<Longrightarrow> heap_inv lt (heap_siftdown lt h 0 p x)"
proof (induction p arbitrary: h rule: less_induct)
  case (less p)
  let ?q = "(p - 1) div 2"
  consider "p = 0" | "0 < p" "lt x (h ! ?q)" | "0 < p" "\<not> lt x (h ! ?q)" by blast
  then show ?case
  proof cases
    case 1
    then show ?thesis using less.prems by (simp add: heap_siftdown.simps[of lt h] heap_inv_def heap_but_def)
  next
    case 2
    have "heap_inv lt (heap_siftdown lt (h[p := h ! ?q]) 0 ?q x)"
      using 2 less.prems siftdown_step by (intro less.IH) auto
    with 2 show ?thesis by (simp add: heap_siftdown.simps[of lt h] Let_def)
  next
    case 3
    have "\<not> lt (h[p := x] ! i) (h[p := x] ! ((i - 1) div 2))" if "i < length h" "0 < i" for i
    proof (cases "i = p")
      case True
      have "?q \<noteq> p" using 3(1) by auto
      with True 3 that show ?thesis by simp
    next
      case False
      with less.prems(2) that show ?thesis by (simp add: heap_but_def)
    qed
    with 3 show ?thesis by (simp add: heap_siftdown.simps[of lt h] Let_def heap_inv_def)
  qed
qed


lemma bubble_step:
  assumes "heap_hole lt p h" "2 * p + 1 < length h"
  shows "heap_hole lt (heap_child lt h p) (h[p := h ! heap_child lt h p])"
proof -
  let ?c = "heap_child lt h p"
  let ?N = "h[p := h ! ?c]"
  have c: "?c < length h" "p < ?c" "(?c - 1) div 2 = p" "p < length h" "0 < ?c"
    using assms(2) heap_child_cases[of lt h p] by auto
  have P: "\<not> lt (h ! i) (h ! ((i - 1) div 2))" if "i < length h" "0 < i" "i \<noteq> p" "(i - 1) div 2 \<noteq> p" for i
    using assms(1) that by (simp add: heap_hole_def)
  have C: "\<not> lt (h ! i) (h ! ((p - 1) div 2))" if "i < length h" "0 < i" "(i - 1) div 2 = p" "0 < p" for i
    using assms(1) that by (simp add: heap_hole_def)
  have least: "\<not> lt (h ! i) (h ! ?c)" if i: "i < length h" "0 < i" "(i - 1) div 2 = p" for i
  proof -
    have "i = 2 * p + 1 \<or> i = 2 * p + 2" using i(2,3) by auto
    then show ?thesis
      using i(1) asym[of "h ! (2 * p + 1)" "h ! (2 * p + 2)"] asym[of "h ! i" "h ! i"]
      by (auto simp: heap_child_def Let_def)
  qed
  have 1: "\<not> lt (?N ! i) (?N ! ((i - 1) div 2))"
    if i: "i < length h" "0 < i" "i \<noteq> ?c" "(i - 1) div 2 \<noteq> ?c" for i
  proof -
    consider "i = p" | "i \<noteq> p" "(i - 1) div 2 = p" | "i \<noteq> p" "(i - 1) div 2 \<noteq> p" by blast
    then show ?thesis
    proof cases
      case 1
      have "(p - 1) div 2 \<noteq> p" using 1 i by auto
      with 1 i c C[OF c(1,5,3)] show ?thesis by (simp add: nth_list_update)
    next
      case 2
      with i c least[OF i(1,2)] show ?thesis by (simp add: nth_list_update)
    next
      case 3
      with i c P[OF i(1,2)] show ?thesis by (simp add: nth_list_update)
    qed
  qed
  have 2: "\<not> lt (?N ! i) (?N ! ((?c - 1) div 2))" if i: "i < length h" "0 < i" "(i - 1) div 2 = ?c" for i
  proof -
    have "i \<noteq> p" "(i - 1) div 2 \<noteq> p" using i c by auto
    with i c P[OF i(1,2)] show ?thesis by (simp add: nth_list_update)
  qed
  show ?thesis using 1 2 by (simp add: heap_hole_def)
qed

lemma heap_bubble_but:
  "p < length h \<Longrightarrow> heap_hole lt p h \<Longrightarrow> heap_bubble lt h p = (h', p') \<Longrightarrow>
   p' < length h' \<and> heap_but lt p' (h'[p' := x])"
proof (induction "length h - p" arbitrary: h p rule: less_induct)
  case less
  show ?case
  proof (cases "2 * p + 1 < length h")
    case True
    let ?c = "heap_child lt h p"
    have c: "?c < length h" "p < ?c" using True heap_child_cases[of lt h p] by auto
    have step: "heap_bubble lt (h[p := h ! ?c]) ?c = (h', p')"
      using True less.prems(3) by (simp add: heap_bubble.simps[of lt h] Let_def)
    show ?thesis
      by (rule less.hyps[OF _ _ bubble_step[OF less.prems(2) True] step]) (use c in auto)
  next
    case False
    then have e: "h' = h" "p' = p" using less.prems by (simp_all add: heap_bubble.simps[of lt h])
    have leaf: "(i - 1) div 2 \<noteq> p" if "i < length h" "0 < i" for i using False that by auto
    then have "heap_but lt p (h[p := x])"
      using less.prems(1,2) unfolding heap_but_def heap_hole_def by (auto simp: nth_list_update)
    with e less.prems(1) show ?thesis by simp
  qed
qed

lemma heap_siftup_inv:
  assumes "heap_hole lt 0 h" "h \<noteq> []"
  shows "heap_inv lt (heap_siftup lt h 0)"
proof -
  obtain h' p' where b: "heap_bubble lt h 0 = (h', p')" by (cases "heap_bubble lt h 0")
  from heap_bubble_but[OF _ assms(1) b, of "h ! 0"] assms(2)
  show ?thesis by (simp add: heap_siftup_def b heap_siftdown_inv Let_def)
qed

lemma heap_inv_least: "heap_inv lt h \<Longrightarrow> i < length h \<Longrightarrow> \<not> lt (h ! i) (h ! 0)"
proof (induction i rule: less_induct)
  case (less i)
  show ?case
  proof (cases "i = 0")
    case True
    then show ?thesis using asym by blast
  next
    case False
    then have "\<not> lt (h ! ((i - 1) div 2)) (h ! 0)" using less by auto
    moreover have "\<not> lt (h ! i) (h ! ((i - 1) div 2))"
      using less.prems False by (simp add: heap_inv_def)
    ultimately show ?thesis by (rule ntrans)
  qed
qed

lemma heappush_inv:
  assumes "heap_inv lt h"
  shows "heap_inv lt (heappush lt h x)"
proof -
  let ?n = "length h"
  have "heap_but lt ?n ((h @ [x])[?n := x])"
  proof -
    have "\<not> lt ((h @ [x]) ! i) ((h @ [x]) ! ((i - 1) div 2))" if "i < length h" "0 < i" for i
    proof -
      have "(i - 1) div 2 < length h" using that by auto
      with that assms show ?thesis by (simp add: heap_inv_def nth_append)
    qed
    moreover have "(i - 1) div 2 \<noteq> length h" if "i < Suc (length h)" "0 < i" for i using that by auto
    ultimately show ?thesis by (auto simp: heap_but_def less_Suc_eq)
  qed
  then show ?thesis unfolding heappush_def by (intro heap_siftdown_inv) auto
qed

lemma heappop_inv:
  assumes "heap_inv lt h" "heappop lt h = Inr (x, h')"
  shows "heap_inv lt h'"
  using assms(2)
proof (cases rule: heappop_cases)
  case 1
  then show ?thesis by (simp add: heap_inv_def)
next
  case (2 a l)
  have "\<not> lt ((a # l) ! i) ((a # l) ! ((i - 1) div 2))"
    if i: "i < length (a # l)" "0 < i" "(i - 1) div 2 \<noteq> 0" for i
  proof -
    have same: "(a # l) ! j = h ! j" if "0 < j" "j < length (a # l)" for j
      using that 2(1) by (cases j) (auto simp: nth_append)
    have "\<not> lt (h ! i) (h ! ((i - 1) div 2))"
      using assms(1) i unfolding heap_inv_def 2(1) by (metis add_Suc_right length_Cons length_append less_SucI list.size(3) add_0_right)
    with same[of i] same[of "(i - 1) div 2"] i show ?thesis by auto
  qed
  then have "heap_hole lt 0 (a # l)" by (simp add: heap_hole_def)
  with 2(2) show ?thesis by (simp add: heap_siftup_inv)
qed

lemma heappop_least:
  assumes "heap_inv lt h" "heappop lt h = Inr (x, h')" "y \<in> set h"
  shows "\<not> lt y x"
proof -
  have "x = h ! 0" using assms(2) by (cases rule: heappop_cases) auto
  with assms(1,3) heap_inv_least show ?thesis by (auto simp: in_set_conv_nth)
qed

end

text \<open>Every strict weak order makes the list heap a priority queue.\<close>

sublocale weak_order \<subseteq> heap: priority_queue lt mset "heap_inv lt" "heappush lt" "heappop lt"
proof unfold_locales
  show "mset (heappush lt q x) = add_mset x (mset q)" for q x by (rule mset_heappush)
  show "heap_inv lt q \<Longrightarrow> heap_inv lt (heappush lt q x)" for q x by (rule heappush_inv)
  show "mset q = {#} \<Longrightarrow> heappop lt q = Inl IndexError" for q by (simp add: heappop_def)
  show "mset q \<noteq> {#} \<Longrightarrow> \<exists>x q'. heappop lt q = Inr (x, q')" for q by (rule heappop_some) auto
  show "heappop lt q = Inr (x, q') \<Longrightarrow> mset q = add_mset x (mset q')" for q x q' by (rule mset_heappop)
  show "heap_inv lt q \<Longrightarrow> heappop lt q = Inr (x, q') \<Longrightarrow> heap_inv lt q'" for q x q' by (rule heappop_inv)
  show "heap_inv lt q \<Longrightarrow> heappop lt q = Inr (x, q') \<Longrightarrow> y \<in># mset q \<Longrightarrow> \<not> lt y x" for q x q' y
    by (simp add: heappop_least)
qed

end
