(* ===== verification/Seqlen.thy ===== *)
theory Seqlen
  imports Heapq "HOL-Library.Product_Lexorder" "HOL-Library.List_Lexorder"
begin

text \<open>
  \<open>verl/utils/seqlen_balancing.py\<close>: balanced partitions of a batch over data-parallel ranks and
  micro-batches, by the Karmarkar-Karp differencing method, and the dynamic batching built on it.
  Lengths and workloads are Python integers (\<open>calculate_workload\<close> is computed in int64; the
  overflow at lengths of about \<open>2 ^ 31\<close> tokens is not modelled). Indices are natural numbers.
\<close>

section \<open>Karmarkar-Karp\<close>

definition calculate_workload :: "int \<Rightarrow> int" where
  "calculate_workload seqlen = 24576 * seqlen + seqlen ^ 2"

text \<open>\<open>class Set\<close>: a candidate partition, with its running sum.\<close>

record kset =
  ks_sum :: int
  ks_items :: "(nat \<times> int) list"

definition empty_set :: kset where
  "empty_set = \<lparr>ks_sum = 0, ks_items = []\<rparr>"

definition set_add :: "kset \<Rightarrow> nat \<times> int \<Rightarrow> kset" where
  "set_add s it = \<lparr>ks_sum = ks_sum s + snd it, ks_items = ks_items s @ [it]\<rparr>"

definition set_merge :: "kset \<Rightarrow> kset \<Rightarrow> kset" where
  "set_merge s other = foldl set_add s (ks_items other)"

text \<open>\<open>Set.__lt__\<close>: by sum, then by number of items, then by the items.\<close>

definition set_key :: "kset \<Rightarrow> int \<times> nat \<times> (nat \<times> int) list" where
  "set_key s = (ks_sum s, length (ks_items s), ks_items s)"

definition set_lt :: "kset \<Rightarrow> kset \<Rightarrow> bool" where
  "set_lt a b =
     (if ks_sum a \<noteq> ks_sum b then ks_sum a < ks_sum b
      else if length (ks_items a) \<noteq> length (ks_items b)
      then length (ks_items a) < length (ks_items b)
      else ks_items a < ks_items b)"

text \<open>\<open>sorted(xs, key=f, reverse=True)\<close>, which keeps the order of equal keys.\<close>

definition sorted_desc :: "('a \<Rightarrow> 'k::linorder) \<Rightarrow> 'a list \<Rightarrow> 'a list" where
  "sorted_desc f xs = rev (sort_key f (rev xs))"

text \<open>\<open>class State\<close>: \<open>k\<close> sets in decreasing order.\<close>

record kstate =
  kt_k :: nat
  kt_sets :: "kset list"

definition new_state :: "(nat \<times> int) list \<Rightarrow> nat \<Rightarrow> kstate res" where
  "new_state items k =
     (if length items \<noteq> 1 \<and> length items \<noteq> k then Inl (AssertionError ''len(items) not in [1, k]'')
      else if k < length items then Inl IndexError
      else let sets = map (set_add empty_set) items @ replicate (k - length items) empty_set
           in Inr \<lparr>kt_k = k, kt_sets = sorted_desc set_key sets\<rparr>)"

definition get_partitions :: "kstate \<Rightarrow> nat list list" where
  "get_partitions st = map (\<lambda>s. map fst (ks_items s)) (kt_sets st)"

definition state_merge :: "kstate \<Rightarrow> kstate \<Rightarrow> kstate" where
  "state_merge st other =
     st\<lparr>kt_sets := sorted_desc set_key
          (map (\<lambda>i. set_merge (kt_sets st ! i) (kt_sets other ! (kt_k st - 1 - i))) [0..<kt_k st])\<rparr>"

definition spread :: "kstate \<Rightarrow> int" where
  "spread st = ks_sum (hd (kt_sets st)) - ks_sum (last (kt_sets st))"

text \<open>\<open>State.__lt__\<close>: the larger spread first, then the larger first set.\<close>

definition state_lt :: "kstate \<Rightarrow> kstate \<Rightarrow> bool" where
  "state_lt a b =
     (if spread a \<noteq> spread b then spread b < spread a
      else set_lt (hd (kt_sets b)) (hd (kt_sets a)))"

definition push_states :: "kstate list \<Rightarrow> kstate list" where
  "push_states sts = foldl (heappush state_lt) [] sts"

text \<open>The initial states: one per item, or one per \<open>k\<close> consecutive items of the sorted list.\<close>

definition initial_states :: "int list \<Rightarrow> nat \<Rightarrow> bool \<Rightarrow> kstate list res" where
  "initial_states seqlen_list k equal_size =
     (let sorted_items = map (\<lambda>(v, i). (i, v)) (sort (map (\<lambda>(i, v). (v, i)) (enumerate 0 seqlen_list)))
      in if equal_size
         then if k = 0 then Inl ZeroDivisionError
              else if length seqlen_list mod k \<noteq> 0 then Inl (AssertionError ''len(seqlen_list) % k_partitions == 0'')
              else map_res (\<lambda>items. new_state items k) (chunks_of k sorted_items)
         else map_res (\<lambda>it. new_state [it] k) sorted_items)"

text \<open>The loop: pop two states, merge, push. Every round leaves one state less.\<close>

function merge_loop :: "kstate list \<Rightarrow> kstate list res" where
  "merge_loop pq =
     (if 1 < length pq
      then case heappop state_lt pq of
             Inl e \<Rightarrow> Inl e
           | Inr (state0, pq1) \<Rightarrow>
               (case heappop state_lt pq1 of
                  Inl e \<Rightarrow> Inl e
                | Inr (state1, pq2) \<Rightarrow> merge_loop (heappush state_lt pq2 (state_merge state0 state1)))
      else Inr pq)"
  by pat_completeness auto
termination by (relation "measure length") (auto dest!: length_heappop simp: length_heappush)

declare merge_loop.simps [simp del]

definition all_equal_size :: "nat list list \<Rightarrow> nat \<Rightarrow> nat \<Rightarrow> bool" where
  "all_equal_size partitions k n = list_all (\<lambda>p. length p * k = n) partitions"

definition karmarkar_karp :: "int list \<Rightarrow> nat \<Rightarrow> bool \<Rightarrow> nat list list res" where
  "karmarkar_karp seqlen_list k equal_size =
     bind_res (initial_states seqlen_list k equal_size) (\<lambda>sts.
     bind_res (merge_loop (push_states sts)) (\<lambda>pq.
       if pq = [] then Inl IndexError
       else let partitions = get_partitions (pq ! 0)
            in if equal_size \<and> \<not> all_equal_size partitions k (length seqlen_list)
               then Inl (AssertionError ''len(partition) * k_partitions != len(seqlen_list)'')
               else Inr partitions))"

section \<open>Greedy partition\<close>

text \<open>The first index of least sum, by the scan over \<open>range(k_partitions)\<close>.\<close>

fun argmin_scan :: "int list \<Rightarrow> nat \<Rightarrow> nat option \<Rightarrow> nat \<Rightarrow> nat option" where
  "argmin_scan psums j best 0 = best"
| "argmin_scan psums j best (Suc n) =
     argmin_scan psums (Suc j)
       (case best of None \<Rightarrow> Some j | Some m \<Rightarrow> if psums ! j < psums ! m then Some j else Some m) n"

fun greedy_loop :: "nat list list \<Rightarrow> int list \<Rightarrow> (int \<times> nat) list \<Rightarrow> nat list list res" where
  "greedy_loop partitions psums [] = Inr partitions"
| "greedy_loop partitions psums ((seqlen, i) # rest) =
     (case argmin_scan psums 0 None (length partitions) of
        None \<Rightarrow> Inl (TypeError ''list indices must be integers or slices, not NoneType'')
      | Some m \<Rightarrow> greedy_loop (partitions[m := partitions ! m @ [i]]) (psums[m := psums ! m + seqlen]) rest)"

definition greedy_partition :: "int list \<Rightarrow> nat \<Rightarrow> bool \<Rightarrow> nat list list res" where
  "greedy_partition seqlen_list k equal_size =
     (let bias = (if equal_size then sum_list seqlen_list + 1 else 0);
          sorted_seqlen = map (\<lambda>(i, v). (v + bias, i)) (enumerate 0 seqlen_list)
      in bind_res (greedy_loop (replicate k []) (replicate k 0) sorted_seqlen) (\<lambda>partitions.
           if equal_size \<and> \<not> all_equal_size partitions k (length seqlen_list)
           then Inl (AssertionError ''len(partition) * k_partitions != len(seqlen_list)'')
           else Inr partitions))"

section \<open>Checked partitions\<close>

definition check_and_sort_partitions :: "nat \<Rightarrow> nat \<Rightarrow> nat list list \<Rightarrow> nat list list res" where
  "check_and_sort_partitions n k partitions =
     (if length partitions \<noteq> k then Inl (AssertionError ''len(partitions) != k_partitions'')
      else if \<exists>p \<in> set partitions. p = [] then Inl (AssertionError ''the i-th partition is empty'')
      else if set (concat partitions) \<noteq> set [0..<n]
      then Inl (AssertionError ''seen_idx == set(range(len(seqlen_list)))'')
      else Inr (map sort partitions))"

definition get_seqlen_balanced_partitions :: "int list \<Rightarrow> nat \<Rightarrow> bool \<Rightarrow> nat list list res" where
  "get_seqlen_balanced_partitions seqlen_list k equal_size =
     (if length seqlen_list < k then Inl (AssertionError ''number of items < k_partitions'')
      else bind_res (karmarkar_karp seqlen_list k equal_size)
             (check_and_sort_partitions (length seqlen_list) k))"

section \<open>Orders\<close>

lemma set_lt_key: "set_lt a b \<longleftrightarrow> set_key a < set_key b"
  by (auto simp: set_lt_def set_key_def)

interpretation kk: weak_order state_lt
proof unfold_locales
  show "state_lt x y \<Longrightarrow> \<not> state_lt y x" for x y
    by (auto simp: state_lt_def set_lt_key split: if_splits)
  show "\<not> state_lt y x \<Longrightarrow> \<not> state_lt z y \<Longrightarrow> \<not> state_lt z x" for x y z
    by (auto simp: state_lt_def set_lt_key split: if_splits)
qed

lemma mset_sorted_desc [simp]: "mset (sorted_desc f xs) = mset xs"
  by (simp add: sorted_desc_def)

lemma length_sorted_desc [simp]: "length (sorted_desc f xs) = length xs"
  by (simp add: sorted_desc_def)

lemma set_sorted_desc [simp]: "set (sorted_desc f xs) = set xs"
  by (simp add: sorted_desc_def)

lemma sorted_desc_nth:
  assumes "i \<le> j" "j < length xs"
  shows "f (sorted_desc f xs ! j) \<le> f (sorted_desc f xs ! i)"
proof -
  let ?s = "sort_key f (rev xs)"
  have "sorted (map f ?s)" by simp
  then have "map f ?s ! (length xs - Suc j) \<le> map f ?s ! (length xs - Suc i)"
    using assms by (intro sorted_nth_mono) auto
  with assms show ?thesis by (simp add: sorted_desc_def rev_nth)
qed

section \<open>Merging states\<close>

definition state_ok :: "nat \<Rightarrow> kstate \<Rightarrow> bool" where
  "state_ok k st \<longleftrightarrow> kt_k st = k \<and> length (kt_sets st) = k \<and>
     (\<forall>s \<in> set (kt_sets st). ks_sum s = sum_list (map snd (ks_items s))) \<and>
     (\<forall>i j. i \<le> j \<longrightarrow> j < k \<longrightarrow> set_key (kt_sets st ! j) \<le> set_key (kt_sets st ! i))"

definition state_items :: "kstate \<Rightarrow> (nat \<times> int) multiset" where
  "state_items st = sum_list (map (\<lambda>s. mset (ks_items s)) (kt_sets st))"

lemma set_merge_items: "ks_items (set_merge s t) = ks_items s @ ks_items t"
  and set_merge_sum: "ks_sum (set_merge s t) = ks_sum s + sum_list (map snd (ks_items t))"
proof -
  have "ks_items (foldl set_add s its) = ks_items s @ its \<and>
        ks_sum (foldl set_add s its) = ks_sum s + sum_list (map snd its)" for its
    by (induction its arbitrary: s) (auto simp: set_add_def)
  then show "ks_items (set_merge s t) = ks_items s @ ks_items t"
    "ks_sum (set_merge s t) = ks_sum s + sum_list (map snd (ks_items t))"
    by (simp_all add: set_merge_def)
qed

definition merged :: "kstate \<Rightarrow> kstate \<Rightarrow> kset list" where
  "merged a b = map2 set_merge (kt_sets a) (rev (kt_sets b))"

lemma state_merge_merged:
  assumes "state_ok k a" "state_ok k b"
  shows "state_merge a b = \<lparr>kt_k = k, kt_sets = sorted_desc set_key (merged a b)\<rparr>"
proof -
  have "map (\<lambda>i. set_merge (kt_sets a ! i) (kt_sets b ! (kt_k a - 1 - i))) [0..<kt_k a] = merged a b"
    using assms by (intro nth_equalityI) (auto simp: merged_def state_ok_def rev_nth)
  with assms show ?thesis by (simp add: state_merge_def state_ok_def)
qed

lemma length_merged: "state_ok k a \<Longrightarrow> state_ok k b \<Longrightarrow> length (merged a b) = k"
  by (simp add: merged_def state_ok_def)

lemma merged_setE:
  assumes "s \<in> set (merged a b)"
  obtains x y where "x \<in> set (kt_sets a)" "y \<in> set (kt_sets b)" "s = set_merge x y"
proof -
  from assms obtain x y where "(x, y) \<in> set (zip (kt_sets a) (rev (kt_sets b)))" "s = set_merge x y"
    by (auto simp: merged_def)
  with that[of x y] set_zip_leftD set_zip_rightD show thesis by fastforce
qed

lemma nth_merged:
  "state_ok k a \<Longrightarrow> state_ok k b \<Longrightarrow> i < k \<Longrightarrow>
   merged a b ! i = set_merge (kt_sets a ! i) (kt_sets b ! (k - 1 - i))"
  by (simp add: merged_def state_ok_def rev_nth)

lemma sum_items_map2_merge:
  "length xs = length ys \<Longrightarrow>
   sum_list (map (\<lambda>s. mset (ks_items s)) (map2 set_merge xs ys))
     = sum_list (map (\<lambda>s. mset (ks_items s)) xs) + sum_list (map (\<lambda>s. mset (ks_items s)) ys)"
  by (induction xs ys rule: list_induct2) (auto simp: set_merge_items)

lemma state_items_sets:
  "mset (kt_sets st) = mset xs \<Longrightarrow> state_items st = sum_list (map (\<lambda>s. mset (ks_items s)) xs)"
proof -
  assume "mset (kt_sets st) = mset xs"
  then have "mset (map (\<lambda>s. mset (ks_items s)) (kt_sets st)) = mset (map (\<lambda>s. mset (ks_items s)) xs)"
    by (simp only: mset_map)
  then have "sum_mset (mset (map (\<lambda>s. mset (ks_items s)) (kt_sets st)))
      = sum_mset (mset (map (\<lambda>s. mset (ks_items s)) xs))" by (rule arg_cong)
  then show ?thesis unfolding state_items_def sum_mset_sum_list .
qed

lemma state_ok_sorted:
  assumes "length xs = k" "\<forall>s \<in> set xs. ks_sum s = sum_list (map snd (ks_items s))"
  shows "state_ok k \<lparr>kt_k = k, kt_sets = sorted_desc set_key xs\<rparr>"
  using assms by (auto simp: state_ok_def intro: sorted_desc_nth)

lemma state_merge_ok:
  assumes "state_ok k a" "state_ok k b"
  shows "state_ok k (state_merge a b)"
    and "state_items (state_merge a b) = state_items a + state_items b"
proof -
  have wf: "\<forall>s \<in> set (merged a b). ks_sum s = sum_list (map snd (ks_items s))"
    using assms by (auto simp: merged_def set_merge_items set_merge_sum state_ok_def
        dest!: set_zip_leftD)
  show "state_ok k (state_merge a b)"
    unfolding state_merge_merged[OF assms] by (intro state_ok_sorted length_merged[OF assms] wf)
  have "state_items (state_merge a b) = sum_list (map (\<lambda>s. mset (ks_items s)) (merged a b))"
    by (intro state_items_sets) (simp add: state_merge_merged[OF assms])
  also have "\<dots> = state_items a + sum_list (map (\<lambda>s. mset (ks_items s)) (rev (kt_sets b)))"
    using assms unfolding merged_def state_items_def
    by (intro sum_items_map2_merge) (simp add: state_ok_def)
  finally show "state_items (state_merge a b) = state_items a + state_items b"
    by (simp add: state_items_sets[of b "rev (kt_sets b)"])
qed

text \<open>
  The loop, for any predicate of states that merging keeps and any quantity that merging adds up:
  it returns a single state.
\<close>

lemma merge_loop_single:
  fixes T :: "kstate \<Rightarrow> 'm::comm_monoid_add"
  assumes step: "\<And>a b. P a \<Longrightarrow> P b \<Longrightarrow> P (state_merge a b) \<and> T (state_merge a b) = T a + T b"
  shows "\<forall>s \<in> set pq. P s \<Longrightarrow> pq \<noteq> [] \<Longrightarrow>
    \<exists>st. merge_loop pq = Inr [st] \<and> P st \<and> T st = sum_mset (image_mset T (mset pq))"
proof (induction pq rule: measure_induct_rule[of length])
  case (less pq)
  show ?case
  proof (cases "1 < length pq")
    case False
    with less.prems obtain s where "pq = [s]" by (cases pq) auto
    with less.prems show ?thesis by (simp add: merge_loop.simps)
  next
    case True
    then have "1 < size (mset pq)" by simp
    then obtain x y q1 q2 where q: "heappop state_lt pq = Inr (x, q1)" "heappop state_lt q1 = Inr (y, q2)"
        and e: "mset pq = add_mset x (add_mset y (mset q2))"
      by (rule kk.heap.pop2)
    let ?n = "heappush state_lt q2 (state_merge x y)"
    have set: "set pq = insert x (insert y (set q2))" by (metis e set_mset_add_mset_insert set_mset_mset)
    then have xy: "P (state_merge x y)" "T (state_merge x y) = T x + T y"
      using step less.prems(1) by auto
    have en: "mset ?n = add_mset (state_merge x y) (mset q2)" by (rule kk.heap.elems_push)
    then have setn: "set ?n = insert (state_merge x y) (set q2)"
      by (metis set_mset_add_mset_insert set_mset_mset)
    have "length ?n < length pq" using q by (auto dest!: length_heappop simp: length_heappush)
    moreover have "\<forall>s \<in> set ?n. P s" using xy(1) less.prems(1) set setn by auto
    moreover have "?n \<noteq> []" using setn by auto
    ultimately obtain st where "merge_loop ?n = Inr [st]" "P st"
        "T st = sum_mset (image_mset T (mset ?n))"
      using less.IH by blast
    moreover have "merge_loop pq = merge_loop ?n" using True q by (simp add: merge_loop.simps[of pq])
    ultimately show ?thesis using e en xy(2) by (simp add: add.assoc)
  qed
qed

subsection \<open>No set stays empty\<close>

abbreviation busy :: "kset \<Rightarrow> bool" where
  "busy s \<equiv> ks_items s \<noteq> []"

definition nonneg :: "kstate \<Rightarrow> bool" where
  "nonneg st \<longleftrightarrow> (\<forall>s \<in> set (kt_sets st). \<forall>it \<in> set (ks_items s). 0 \<le> snd it)"

text \<open>The busy sets number as many as there are items, up to \<open>k\<close>.\<close>

definition spread_out :: "nat \<Rightarrow> kstate \<Rightarrow> bool" where
  "spread_out k st \<longleftrightarrow> length (filter busy (kt_sets st)) = min k (size (state_items st))"

lemma prefix_filter:
  "sorted_wrt (\<lambda>x y. Q y \<longrightarrow> Q x) xs \<Longrightarrow> i < length xs \<Longrightarrow> Q (xs ! i) \<longleftrightarrow> i < length (filter Q xs)"
proof (induction xs arbitrary: i)
  case (Cons x xs)
  show ?case
  proof (cases "Q x")
    case True
    with Cons show ?thesis by (cases i) auto
  next
    case False
    with Cons.prems(1) have "filter Q (x # xs) = []" by (auto simp: filter_empty_conv)
    moreover have "\<not> Q ((x # xs) ! i)"
      using False Cons.prems by (cases i) auto
    ultimately show ?thesis by simp
  qed
qed simp

text \<open>Busy sets come before idle ones: the key of an idle set is the least.\<close>

lemma busy_prefix:
  assumes "state_ok k st" "nonneg st" "i < k"
  shows "busy (kt_sets st ! i) \<longleftrightarrow> i < length (filter busy (kt_sets st))"
proof -
  let ?S = "kt_sets st"
  have len: "length ?S = k" using assms(1) by (simp add: state_ok_def)
  have "busy (?S ! a)" if ab: "a < b" "b < k" "busy (?S ! b)" for a b
  proof (rule ccontr)
    assume idle: "\<not> busy (?S ! a)"
    have sum: "ks_sum s = sum_list (map snd (ks_items s))" if "s \<in> set ?S" for s
      using assms(1) that by (simp add: state_ok_def)
    have "0 \<le> ks_sum (?S ! b)"
      using assms(2) ab len unfolding sum[OF nth_mem[of b ?S, unfolded len, OF ab(2)]] nonneg_def
      by (intro sum_list_nonneg) auto
    moreover have "ks_sum (?S ! a) = 0"
      using idle sum[OF nth_mem[of a ?S, unfolded len]] ab by simp
    ultimately have "set_key (?S ! a) < set_key (?S ! b)"
      using idle ab(3) by (auto simp: set_key_def)
    moreover have "set_key (?S ! b) \<le> set_key (?S ! a)" using assms(1) ab by (simp add: state_ok_def)
    ultimately show False by simp
  qed
  then have "sorted_wrt (\<lambda>x y. busy y \<longrightarrow> busy x) ?S"
    by (auto simp: sorted_wrt_iff_nth_less len)
  then show ?thesis using prefix_filter[of busy ?S i] assms(3) len by simp
qed

lemma card_two_ends:
  assumes "a \<le> k" "b \<le> (k::nat)"
  shows "card {i. i < k \<and> (i < a \<or> k - 1 - i < b)} = min k (a + b)"
proof (cases "k \<le> a + b")
  case True
  then have "{i. i < k \<and> (i < a \<or> k - 1 - i < b)} = {..<k}" by auto
  with True show ?thesis by simp
next
  case False
  then have "{i. i < k \<and> (i < a \<or> k - 1 - i < b)} = {..<a} \<union> {k - b..<k}" using assms by auto
  moreover have "card ({..<a} \<union> {k - b..<k}) = a + b"
    using False assms by (subst card_Un_disjoint) auto
  ultimately show ?thesis using False by simp
qed

lemma spread_out_merge:
  assumes ok: "state_ok k a" "state_ok k b" and nn: "nonneg a" "nonneg b"
    and so: "spread_out k a" "spread_out k b"
  shows "nonneg (state_merge a b)" "spread_out k (state_merge a b)"
proof -
  show "nonneg (state_merge a b)"
    using nn unfolding state_merge_merged[OF ok] nonneg_def
    by (fastforce simp: set_merge_items elim!: merged_setE)
  let ?a = "length (filter busy (kt_sets a))" and ?b = "length (filter busy (kt_sets b))"
  have "length (filter busy (kt_sets (state_merge a b))) = length (filter busy (merged a b))"
    unfolding state_merge_merged[OF ok] by (simp flip: size_mset)
  also have "\<dots> = card {i. i < k \<and> (i < ?a \<or> k - 1 - i < ?b)}"
  proof -
    have "busy (merged a b ! i) \<longleftrightarrow> i < ?a \<or> k - 1 - i < ?b" if "i < k" for i
      using that busy_prefix[OF ok(1) nn(1) that] busy_prefix[OF ok(2) nn(2), of "k - 1 - i"]
      by (simp add: nth_merged[OF ok that] set_merge_items)
    then show ?thesis unfolding length_filter_conv_card length_merged[OF ok] by (auto intro!: arg_cong[where f = card])
  qed
  also have "\<dots> = min k (?a + ?b)"
    using so by (intro card_two_ends) (auto simp: spread_out_def)
  also have "\<dots> = min k (size (state_items a) + size (state_items b))"
    using so by (auto simp: spread_out_def min_def)
  finally show "spread_out k (state_merge a b)"
    by (simp add: spread_out_def state_merge_ok(2)[OF ok])
qed

subsection \<open>Equal sizes\<close>

definition even_state :: "kstate \<Rightarrow> bool" where
  "even_state st \<longleftrightarrow> (\<exists>m. \<forall>s \<in> set (kt_sets st). length (ks_items s) = m)"

lemma even_state_merge:
  assumes "state_ok k a" "state_ok k b" "even_state a" "even_state b"
  shows "even_state (state_merge a b)"
proof -
  from assms(3,4) obtain m n where "\<forall>s \<in> set (kt_sets a). length (ks_items s) = m"
    "\<forall>s \<in> set (kt_sets b). length (ks_items s) = n" by (auto simp: even_state_def)
  then have "\<forall>s \<in> set (merged a b). length (ks_items s) = m + n"
    by (auto simp: set_merge_items elim!: merged_setE)
  then show ?thesis by (auto simp: even_state_def state_merge_merged[OF assms(1,2)])
qed

subsection \<open>The spread never grows\<close>

definition gap_le :: "int \<Rightarrow> kstate \<Rightarrow> bool" where
  "gap_le B st \<longleftrightarrow> (\<forall>s \<in> set (kt_sets st). \<forall>t \<in> set (kt_sets st). ks_sum s - ks_sum t \<le> B)"

lemma state_ok_sums: "state_ok k st \<Longrightarrow> i \<le> j \<Longrightarrow> j < k \<Longrightarrow> ks_sum (kt_sets st ! j) \<le> ks_sum (kt_sets st ! i)"
  unfolding state_ok_def set_key_def by (metis fst_conv less_eq_prod_def order.strict_implies_order order_refl)

lemma gap_le_merge:
  assumes ok: "state_ok k a" "state_ok k b" and w: "gap_le B a" "gap_le B b"
  shows "gap_le B (state_merge a b)"
proof -
  have len: "length (kt_sets a) = k" "length (kt_sets b) = k" using ok by (auto simp: state_ok_def)
  have sum: "ks_sum (merged a b ! i) = ks_sum (kt_sets a ! i) + ks_sum (kt_sets b ! (k - 1 - i))" if "i < k" for i
  proof -
    have "kt_sets b ! (k - 1 - i) \<in> set (kt_sets b)" using that len by simp
    then show ?thesis using ok(2) by (simp add: nth_merged[OF ok that] set_merge_sum state_ok_def)
  qed
  have "ks_sum (merged a b ! i) - ks_sum (merged a b ! j) \<le> B" if ij: "i < k" "j < k" for i j
  proof (cases "i \<le> j")
    case True
    have "ks_sum (kt_sets a ! i) - ks_sum (kt_sets a ! j) \<le> B" using w(1) ij len by (simp add: gap_le_def)
    moreover have "ks_sum (kt_sets b ! (k - 1 - i)) \<le> ks_sum (kt_sets b ! (k - 1 - j))"
      using True ij by (intro state_ok_sums[OF ok(2)]) auto
    ultimately show ?thesis using ij by (simp add: sum)
  next
    case False
    have "ks_sum (kt_sets b ! (k - 1 - i)) - ks_sum (kt_sets b ! (k - 1 - j)) \<le> B"
      using w(2) ij len by (simp add: gap_le_def)
    moreover have "ks_sum (kt_sets a ! i) \<le> ks_sum (kt_sets a ! j)"
      using False ij by (intro state_ok_sums[OF ok(1)]) auto
    ultimately show ?thesis using ij by (simp add: sum)
  qed
  then show ?thesis
    unfolding gap_le_def state_merge_merged[OF ok] by (auto simp: in_set_conv_nth length_merged[OF ok])
qed

section \<open>The partitions\<close>

definition good_state :: "nat \<Rightarrow> bool \<Rightarrow> int \<Rightarrow> kstate \<Rightarrow> bool" where
  "good_state k equal_size B st \<longleftrightarrow>
     state_ok k st \<and> nonneg st \<and> spread_out k st \<and> (equal_size \<longrightarrow> even_state st) \<and> gap_le B st"

lemma good_state_merge:
  "good_state k e B a \<Longrightarrow> good_state k e B b \<Longrightarrow>
   good_state k e B (state_merge a b) \<and> state_items (state_merge a b) = state_items a + state_items b"
  unfolding good_state_def
  by (elim conjE) (simp add: state_merge_ok spread_out_merge even_state_merge gap_le_merge)

lemma sum_list_empties: "sum_list (replicate n {#}) = {#}"
  by (induction n) auto

lemma new_state_good:
  assumes len: "length items = 1 \<and> \<not> e \<or> length items = k" "length items \<le> k"
    and val: "\<forall>it \<in> set items. 0 \<le> snd it \<and> snd it \<le> B" and B: "0 \<le> B"
  shows "\<exists>st. new_state items k = Inr st \<and> good_state k e B st \<and> state_items st = mset items"
proof -
  let ?S = "map (set_add empty_set) items @ replicate (k - length items) empty_set"
  let ?st = "\<lparr>kt_k = k, kt_sets = sorted_desc set_key ?S\<rparr>"
  have st: "new_state items k = Inr ?st" using len by (auto simp: new_state_def Let_def)
  have in_S: "(\<exists>it \<in> set items. s = set_add empty_set it) \<or> s = empty_set" if "s \<in> set ?S" for s
    using that by auto
  have add: "ks_items (set_add empty_set it) = [it]" "ks_sum (set_add empty_set it) = snd it"
    "ks_items empty_set = []" "ks_sum empty_set = 0" for it
    by (auto simp: set_add_def empty_set_def)
  have ok: "state_ok k ?st" using len by (intro state_ok_sorted) (auto simp: add)
  have items: "state_items ?st = mset items"
  proof -
    have "state_items ?st = sum_list (map (\<lambda>s. mset (ks_items s)) ?S)"
      by (rule state_items_sets) simp
    also have "\<dots> = sum_list (map (\<lambda>it. {#it#}) items)"
      by (simp add: add o_def sum_list_empties)
    also have "\<dots> = mset items" by (induction items) auto
    finally show ?thesis .
  qed
  have nn: "nonneg ?st" using val by (auto simp: nonneg_def add)
  have "length (filter busy (kt_sets ?st)) = length (filter busy ?S)"
    by (simp flip: size_mset)
  also have "\<dots> = length items" by (simp add: add filter_map o_def)
  finally have so: "spread_out k ?st" using len by (simp add: spread_out_def items)
  have ev: "e \<Longrightarrow> even_state ?st"
    using len by (auto simp: even_state_def add intro!: exI[of _ 1])
  have "0 \<le> ks_sum s \<and> ks_sum s \<le> B" if "s \<in> set ?S" for s
    using in_S[OF that] val B by (auto simp: add)
  then have "gap_le B ?st" unfolding gap_le_def by (simp del: set_append set_map) (smt (verit))
  with st ok items nn so ev show ?thesis by (auto simp: good_state_def)
qed

lemma mset_push_states: "mset (push_states sts) = mset sts"
proof -
  have "mset (foldl (heappush state_lt) q sts) = mset q + mset sts" for q
    by (induction sts arbitrary: q) (auto simp: mset_heappush)
  then show ?thesis by (simp add: push_states_def)
qed

text \<open>The items in increasing order of value.\<close>

definition sorted_items :: "int list \<Rightarrow> (nat \<times> int) list" where
  "sorted_items xs = map (\<lambda>(v, i). (i, v)) (sort (map (\<lambda>(i, v). (v, i)) (enumerate 0 xs)))"

lemma mset_sorted_items: "mset (sorted_items xs) = mset (enumerate 0 xs)"
proof -
  have "mset (sorted_items xs) = image_mset (\<lambda>(v, i). (i, v)) (image_mset (\<lambda>(i, v). (v, i)) (mset (enumerate 0 xs)))"
    by (simp add: sorted_items_def)
  also have "\<dots> = mset (enumerate 0 xs)" by (simp add: multiset.map_comp o_def split_def)
  finally show ?thesis .
qed

lemma length_sorted_items [simp]: "length (sorted_items xs) = length xs"
  by (simp add: sorted_items_def)

lemma set_sorted_items: "(i, v) \<in> set (sorted_items xs) \<longleftrightarrow> i < length xs \<and> v = xs ! i"
proof -
  have "set (sorted_items xs) = set (enumerate 0 xs)" by (metis mset_sorted_items set_mset_mset)
  then show ?thesis by (auto simp: in_set_enumerate_eq)
qed

lemma initial_states_good:
  assumes k: "0 < k" "e \<Longrightarrow> k dvd length xs" and val: "\<forall>v \<in> set xs. 0 \<le> v \<and> v \<le> B" "0 \<le> B"
  shows "\<exists>sts. initial_states xs k e = Inr sts \<and> (\<forall>s \<in> set sts. good_state k e B s) \<and>
           sum_mset (image_mset state_items (mset sts)) = mset (enumerate 0 xs) \<and> (sts = [] \<longleftrightarrow> xs = [])"
proof -
  let ?groups = "if e then chunks_of k (sorted_items xs) else map (\<lambda>it. [it]) (sorted_items xs)"
  have init: "initial_states xs k e = map_res (\<lambda>items. new_state items k) ?groups"
    unfolding initial_states_def sorted_items_def[symmetric] Let_def
    using k by (auto simp: map_res_map dvd_eq_mod_eq_0)
  have con: "concat ?groups = sorted_items xs" using k by (auto simp: concat_chunks_of)
  have vals: "0 \<le> snd it \<and> snd it \<le> B" if "g \<in> set ?groups" "it \<in> set g" for g it
  proof -
    have "it \<in> set (concat ?groups)" using that by (simp only: set_concat) blast
    then have "it \<in> set (sorted_items xs)" by (simp only: con)
    then show ?thesis using val set_sorted_items[of "fst it" "snd it" xs] by simp
  qed
  have lens: "length g = 1 \<and> \<not> e \<or> length g = k" "length g \<le> k" if "g \<in> set ?groups" for g
    using that k chunks_of_lengths[of k "sorted_items xs" g] by (auto split: if_splits)
  have "\<forall>g \<in> set ?groups. \<exists>st. new_state g k = Inr st \<and> good_state k e B st \<and> state_items st = mset g"
    by (intro ballI new_state_good lens vals val)
  then obtain F where F: "\<forall>g \<in> set ?groups. new_state g k = Inr (F g) \<and> good_state k e B (F g) \<and> state_items (F g) = mset g"
    by metis
  then have "initial_states xs k e = Inr (map F ?groups)"
    unfolding init by (intro map_res_pure) auto
  moreover have "\<forall>s \<in> set (map F ?groups). good_state k e B s" using F by auto
  moreover have "sum_mset (image_mset state_items (mset (map F ?groups))) = mset (enumerate 0 xs)"
  proof -
    have "sum_mset (image_mset state_items (mset (map F ?groups))) = sum_list (map mset ?groups)"
      using F by (simp only: mset_map[symmetric] sum_mset_sum_list map_map)
        (intro arg_cong[where f = sum_list] map_cong refl, simp)
    also have "\<dots> = mset (concat ?groups)" by (simp only: mset_concat)
    finally show ?thesis by (simp only: con mset_sorted_items)
  qed
  moreover have "map F ?groups = [] \<longleftrightarrow> xs = []"
    using k(1) chunks_of_Nil_iff[of k "sorted_items xs"] by (auto simp flip: length_0_conv)
  ultimately show ?thesis by blast
qed

text \<open>What Karmarkar-Karp returns, in terms of the final state.\<close>

lemma karmarkar_karp_state:
  assumes k: "0 < k" "k \<le> length xs" "e \<Longrightarrow> k dvd length xs"
    and val: "\<forall>v \<in> set xs. 0 \<le> v \<and> v \<le> B"
  obtains st where "karmarkar_karp xs k e = Inr (get_partitions st)" "good_state k e B st"
    "state_items st = mset (enumerate 0 xs)" "\<forall>s \<in> set (kt_sets st). busy s"
    "e \<Longrightarrow> \<forall>s \<in> set (kt_sets st). length (ks_items s) * k = length xs"
proof -
  have ne: "xs \<noteq> []" using k by auto
  then have B: "0 \<le> B" using val by (cases xs) auto
  obtain sts where sts: "initial_states xs k e = Inr sts" "\<forall>s \<in> set sts. good_state k e B s"
      "sum_mset (image_mset state_items (mset sts)) = mset (enumerate 0 xs)" "sts \<noteq> []"
    using initial_states_good[OF k(1) k(3) val B] ne by blast
  have "\<forall>s \<in> set (push_states sts). good_state k e B s"
    using sts(2) by (metis mset_push_states set_mset_mset)
  moreover have "push_states sts \<noteq> []"
    using sts(4) by (metis mset_push_states mset_zero_iff)
  ultimately obtain st where st: "merge_loop (push_states sts) = Inr [st]" "good_state k e B st"
      "state_items st = sum_mset (image_mset state_items (mset (push_states sts)))"
    using merge_loop_single[of "good_state k e B" state_items] good_state_merge by blast
  have items: "state_items st = mset (enumerate 0 xs)"
    using st(3) sts(3) by (simp add: mset_push_states)
  have ok: "state_ok k st" using st(2) by (simp add: good_state_def)
  then have len: "length (kt_sets st) = k" by (simp add: state_ok_def)
  have size: "size (state_items st) = length xs" by (simp add: items)
  have "length (filter busy (kt_sets st)) = length (kt_sets st)"
    using st(2) size k(2) len by (simp add: good_state_def spread_out_def)
  then have busy: "\<forall>s \<in> set (kt_sets st). busy s"
    using length_filter_less[of _ "kt_sets st" busy] by fastforce
  have total: "size (state_items st) = sum_list (map (\<lambda>s. length (ks_items s)) (kt_sets st))"
  proof -
    have "size (sum_list (map (\<lambda>s. mset (ks_items s)) l)) = sum_list (map (\<lambda>s. length (ks_items s)) l)"
      for l :: "kset list" by (induction l) auto
    then show ?thesis by (simp add: state_items_def)
  qed
  have even: "\<forall>s \<in> set (kt_sets st). length (ks_items s) * k = length xs" if e: e
  proof -
    from e st(2) obtain m where m: "\<forall>s \<in> set (kt_sets st). length (ks_items s) = m"
      by (auto simp: good_state_def even_state_def)
    then have "map (\<lambda>s. length (ks_items s)) (kt_sets st) = map (\<lambda>s. m) (kt_sets st)" by simp
    then have "length xs = k * m"
      using total size len by (simp add: map_replicate_const sum_list_replicate)
    with m show ?thesis by (simp add: mult.commute)
  qed
  have "e \<Longrightarrow> all_equal_size (get_partitions st) k (length xs)"
    using even by (auto simp: all_equal_size_def get_partitions_def list_all_iff)
  then have "karmarkar_karp xs k e = Inr (get_partitions st)"
    using sts(1) st(1) by (auto simp: karmarkar_karp_def Let_def)
  with st(2) items busy even that show thesis by blast
qed

lemma mset_concat_partitions:
  "mset (concat (get_partitions st)) = image_mset fst (state_items st)"
proof -
  have "mset (concat (map (\<lambda>s. map fst (ks_items s)) l))
      = image_mset fst (sum_list (map (\<lambda>s. mset (ks_items s)) l))" for l :: "kset list"
    by (induction l) auto
  then show ?thesis by (simp add: get_partitions_def state_items_def)
qed

lemma map_fst_enumerate_mset: "image_mset fst (mset (enumerate 0 xs)) = mset [0..<length xs]"
  by (simp flip: mset_map)

text \<open>The sum of a set is the sum of the values at its indices.\<close>

lemma set_sum_values:
  assumes "state_ok k st" "state_items st = mset (enumerate 0 xs)" "s \<in> set (kt_sets st)"
  shows "ks_sum s = (\<Sum>i\<leftarrow>map fst (ks_items s). xs ! i)"
proof -
  have "set_mset (state_items st) = (\<Union>s \<in> set (kt_sets st). set (ks_items s))"
  proof -
    have "set_mset (sum_list (map (\<lambda>s. mset (ks_items s)) l)) = (\<Union>s \<in> set l. set (ks_items s))"
      for l :: "kset list" by (induction l) auto
    then show ?thesis by (simp add: state_items_def)
  qed
  then have "set (ks_items s) \<subseteq> set (enumerate 0 xs)" using assms(2,3) by auto
  then have "map snd (ks_items s) = map (\<lambda>it. xs ! fst it) (ks_items s)"
    by (intro map_cong refl) (auto simp: in_set_enumerate_eq)
  then have "sum_list (map snd (ks_items s)) = (\<Sum>i\<leftarrow>map fst (ks_items s). xs ! i)"
    by (simp only: map_map o_def)
  then show ?thesis using assms(1,3) by (simp add: state_ok_def)
qed

lemma sorted_partitions_concat: "mset (concat (map sort ps)) = mset (concat ps)"
  by (induction ps) auto

lemma balanced_partitions_returns:
  assumes "0 < k" "k \<le> length xs" "e \<Longrightarrow> k dvd length xs" "\<forall>v \<in> set xs. 0 \<le> v"
  obtains st where "get_seqlen_balanced_partitions xs k e = Inr (map sort (get_partitions st))"
    "length (get_partitions st) = k" "mset (concat (get_partitions st)) = mset [0..<length xs]"
    "\<forall>s \<in> set (kt_sets st). busy s"
    "e \<Longrightarrow> \<forall>s \<in> set (kt_sets st). length (ks_items s) * k = length xs"
proof -
  have "\<forall>v \<in> set xs. 0 \<le> v \<and> v \<le> Max (set xs)" using assms(4) by simp
  then obtain st where st: "karmarkar_karp xs k e = Inr (get_partitions st)"
      "good_state k e (Max (set xs)) st" "state_items st = mset (enumerate 0 xs)"
      "\<forall>s \<in> set (kt_sets st). busy s"
      "e \<Longrightarrow> \<forall>s \<in> set (kt_sets st). length (ks_items s) * k = length xs"
    using karmarkar_karp_state[OF assms(1,2,3)] by blast
  let ?g = "get_partitions st"
  have len: "length ?g = k"
    using st(2) by (simp add: get_partitions_def good_state_def state_ok_def)
  have con: "mset (concat ?g) = mset [0..<length xs]"
    by (simp only: mset_concat_partitions st(3) map_fst_enumerate_mset)
  then have seen: "set (concat ?g) = set [0..<length xs]" by (metis set_mset_mset)
  have "get_seqlen_balanced_partitions xs k e = Inr (map sort ?g)"
    using assms(2) st(1,4) len seen
    by (auto simp: get_seqlen_balanced_partitions_def check_and_sort_partitions_def get_partitions_def)
  with len con st(4,5) that show thesis by blast
qed

text \<open>
  C11. For sequence lengths (or workloads) that are not negative and \<open>0 < k <= n\<close>, with \<open>k\<close> dividing
  \<open>n\<close> when equal sizes are asked for, \<open>get_seqlen_balanced_partitions\<close> returns: none of its
  assertions fires, nor one of \<open>karmarkar_karp\<close>. It gives \<open>k\<close> non-empty index lists, each sorted
  increasingly, which together hold every index below \<open>n\<close> exactly once, and of size \<open>n / k\<close> each in
  the equal-size mode.
\<close>

theorem balanced_partitions_exact:
  assumes "0 < k" "k \<le> length xs" "equal_size \<Longrightarrow> k dvd length xs" "\<forall>v \<in> set xs. 0 \<le> v"
  shows "\<exists>ps. get_seqlen_balanced_partitions xs k equal_size = Inr ps \<and> length ps = k \<and>
     mset (concat ps) = mset [0..<length xs] \<and>
     (\<forall>p \<in> set ps. p \<noteq> [] \<and> sorted p \<and> (equal_size \<longrightarrow> length p * k = length xs))"
proof -
  obtain st where ret: "get_seqlen_balanced_partitions xs k equal_size = Inr (map sort (get_partitions st))"
      and len: "length (get_partitions st) = k"
      and con: "mset (concat (get_partitions st)) = mset [0..<length xs]"
      and busy: "\<forall>s \<in> set (kt_sets st). busy s"
      and size: "equal_size \<Longrightarrow> \<forall>s \<in> set (kt_sets st). length (ks_items s) * k = length xs"
    using balanced_partitions_returns[OF assms] by blast
  let ?g = "get_partitions st"
  have "mset (concat (map sort ?g)) = mset [0..<length xs]" by (simp only: sorted_partitions_concat con)
  moreover have "p \<noteq> [] \<and> sorted p \<and> (equal_size \<longrightarrow> length p * k = length xs)"
    if "p \<in> set (map sort ?g)" for p
  proof -
    from that obtain s where s: "s \<in> set (kt_sets st)" "p = sort (map fst (ks_items s))"
      by (auto simp: get_partitions_def)
    have "length p = length (ks_items s)" by (simp add: s(2))
    moreover have "ks_items s \<noteq> []" using busy s(1) by blast
    ultimately have "p \<noteq> []" by auto
    then show ?thesis using size s(1) \<open>length p = length (ks_items s)\<close> by (simp add: s(2))
  qed
  ultimately show ?thesis using ret len by (metis length_map)
qed

lemma balanced_partitions_exact_witness:
  "\<exists>ps. get_seqlen_balanced_partitions [7, 3, 5, 0] 2 True = Inr ps \<and> length ps = 2 \<and>
     mset (concat ps) = mset [0..<4] \<and> (\<forall>p \<in> set ps. p \<noteq> [] \<and> sorted p \<and> length p * 2 = 4)"
proof -
  have four: "length [7, 3, 5, 0 :: int] = 4" by simp
  show ?thesis using balanced_partitions_exact[of 2 "[7, 3, 5, 0]" True] unfolding four by simp
qed

text \<open>
  C12. The balance that the differencing method guarantees: the sums of any two of the returned
  partitions differ by at most the largest single value of the batch, whatever the number of
  items and of partitions.
\<close>

theorem balanced_partitions_gap:
  assumes "0 < k" "k \<le> length xs" "equal_size \<Longrightarrow> k dvd length xs" "\<forall>v \<in> set xs. 0 \<le> v \<and> v \<le> B"
    and "get_seqlen_balanced_partitions xs k equal_size = Inr ps" "p \<in> set ps" "q \<in> set ps"
  shows "(\<Sum>i\<leftarrow>p. xs ! i) - (\<Sum>i\<leftarrow>q. xs ! i) \<le> B"
proof -
  obtain st where st: "karmarkar_karp xs k equal_size = Inr (get_partitions st)"
      "good_state k equal_size B st" "state_items st = mset (enumerate 0 xs)"
    using karmarkar_karp_state[OF assms(1,2,3,4)] by blast
  have ok: "state_ok k st" and gap: "gap_le B st" using st(2) by (auto simp: good_state_def)
  have ps: "ps = map sort (get_partitions st)"
    using assms(2,5) st(1)
    by (auto simp: get_seqlen_balanced_partitions_def check_and_sort_partitions_def split: if_splits)
  have sum: "\<exists>s \<in> set (kt_sets st). ks_sum s = (\<Sum>i\<leftarrow>r. xs ! i)" if "r \<in> set ps" for r
  proof -
    from that obtain s where s: "s \<in> set (kt_sets st)" "r = sort (map fst (ks_items s))"
      by (auto simp: ps get_partitions_def)
    have "mset (map ((!) xs) r) = mset (map ((!) xs) (map fst (ks_items s)))" 
      by (simp add: s(2) multiset.map_comp)
    then have "sum_list (map ((!) xs) r) = sum_list (map ((!) xs) (map fst (ks_items s)))"
      by (metis sum_mset_sum_list)
    with s(1) set_sum_values[OF ok st(3) s(1)] show ?thesis by auto
  qed
  from sum[OF assms(6)] sum[OF assms(7)] obtain s t where
    "s \<in> set (kt_sets st)" "ks_sum s = (\<Sum>i\<leftarrow>p. xs ! i)" "t \<in> set (kt_sets st)" "ks_sum t = (\<Sum>i\<leftarrow>q. xs ! i)"
    by blast
  with gap show ?thesis unfolding gap_le_def by metis
qed

lemma ex_partitions: "get_seqlen_balanced_partitions [7, 3, 5] 2 False = Inr [[1, 2], [0]]"
  by code_simp

lemma balanced_partitions_gap_witness:
  "get_seqlen_balanced_partitions [7, 3, 5] 2 False = Inr [[1, 2], [0]] \<and>
   (\<Sum>i\<leftarrow>[1, 2 :: nat]. [7, 3, 5] ! i) - (\<Sum>i\<leftarrow>[0 :: nat]. [7, 3, 5] ! i) \<le> (7 :: int)"
  using ex_partitions balanced_partitions_gap[OF _ _ _ _ ex_partitions, of 7 "[1, 2]" "[0]"] by simp

section \<open>Logging the balance\<close>

definition py_min :: "int option \<Rightarrow> int \<Rightarrow> int option" where
  "py_min best x = (case best of None \<Rightarrow> Some x | Some m \<Rightarrow> if x < m then Some x else Some m)"

definition py_max :: "int option \<Rightarrow> int \<Rightarrow> int option" where
  "py_max best x = (case best of None \<Rightarrow> Some x | Some m \<Rightarrow> if m < x then Some x else Some m)"

record seqlen_balance =
  sb_min :: "int option"
  sb_max :: "int option"
  sb_minmax_diff :: int
  sb_balanced_min :: int
  sb_balanced_max :: int
  sb_mean :: real

text \<open>An index list applied to a list, raising \<open>IndexError\<close> out of range.\<close>

definition gather_idx :: "'a list \<Rightarrow> nat list \<Rightarrow> 'a list res" where
  "gather_idx xs idx = map_res (\<lambda>i. if i < length xs then Inr (xs ! i) else Inl IndexError) idx"

definition log_seqlen_unbalance :: "int list \<Rightarrow> nat list list \<Rightarrow> seqlen_balance res" where
  "log_seqlen_unbalance seqlen_list partitions =
     (if partitions = [] then Inl ZeroDivisionError
      else let batch_size = length seqlen_list div length partitions
        in if batch_size = 0 then Inl (ValueError ''range() arg 3 must not be zero'')
        else let psums = map sum_list (chunks_of batch_size seqlen_list);
                 mn = foldl py_min None psums;
                 mx = foldl py_max None psums;
                 total_len = foldl (+) 0 psums
          in bind_res (map_res (\<lambda>p. map_sum id sum_list (gather_idx seqlen_list p)) partitions) (\<lambda>balanced.
               Inr \<lparr>sb_min = mn, sb_max = mx, sb_minmax_diff = the mx - the mn,
                    sb_balanced_min = foldl min (hd balanced) (tl balanced),
                    sb_balanced_max = foldl max (hd balanced) (tl balanced),
                    sb_mean = real_of_int total_len / real (length partitions)\<rparr>))"

section \<open>Dynamic micro-batches\<close>

text \<open>Floor division of Python; a zero divisor is checked by the callers.\<close>

definition ceildiv :: "int \<Rightarrow> int \<Rightarrow> int" where
  "ceildiv a b = - (a div - b)"

definition roundup_divisible :: "int \<Rightarrow> int \<Rightarrow> int" where
  "roundup_divisible a b = ((a + b - 1) div b) * b"

text \<open>
  The lengths of a batch: the jagged lengths of nested ids, or the row sums of a padded attention
  mask of a given width.
\<close>

datatype seq_lengths = NestedLens "int list" | MaskLens nat "int list"

record rearrange_args =
  ra_max_token_len :: int
  ra_num_batches_divided_by :: "int option"
  ra_same_micro_num_in_dp :: bool
  ra_min_num_micro_batch :: "int option"
  ra_use_dynamic_bsz_balance :: bool
  ra_force_group_size :: nat

text \<open>\<open>xs[::2]\<close> and \<open>xs[1::2]\<close>.\<close>

fun every_other :: "'a list \<Rightarrow> 'a list" where
  "every_other [] = []"
| "every_other [x] = [x]"
| "every_other (x # y # xs) = x # every_other xs"

text \<open>Smaller micro-batches at both ends: \<open>xs[::2][::-1] + xs[1::2]\<close> of the decreasing order.\<close>

definition ends_small :: "'a list \<Rightarrow> 'a list" where
  "ends_small xs = rev (every_other xs) @ every_other (drop 1 xs)"

definition expand_groups :: "nat \<Rightarrow> nat list list \<Rightarrow> nat list list" where
  "expand_groups gsize ps = map (\<lambda>p. concat (map (\<lambda>g. [g * gsize..<g * gsize + gsize]) p)) ps"

text \<open>The number of micro-batches; \<open>sync\<close> is the maximum over the data-parallel group, if any.\<close>

definition num_micro_batches ::
  "rearrange_args \<Rightarrow> (int \<Rightarrow> int) option \<Rightarrow> int \<Rightarrow> nat \<Rightarrow> int res" where
  "num_micro_batches args sync total_len num_groups =
     (if ra_max_token_len args = 0 then Inl ZeroDivisionError
      else let n0 = min (int num_groups) (ceildiv total_len (ra_max_token_len args));
               n1 = (case ra_min_num_micro_batch args of None \<Rightarrow> n0 | Some m \<Rightarrow> max m n0);
               n2 = (case sync of Some f \<Rightarrow> if ra_same_micro_num_in_dp args then f n1 else n1
                     | None \<Rightarrow> n1)
           in case ra_num_batches_divided_by args of
                None \<Rightarrow> Inr n2
              | Some d \<Rightarrow> if d = 0 then Inl ZeroDivisionError else Inr (roundup_divisible n2 d))"

definition partition_key :: "int list \<Rightarrow> nat \<Rightarrow> nat list \<Rightarrow> int \<times> nat" where
  "partition_key workloads gsize p =
     (\<Sum>i\<leftarrow>map hd (chunks_of gsize p). workloads ! (i div gsize),
      (case p of [] \<Rightarrow> 0 | i # _ \<Rightarrow> i))"

text \<open>The workloads that are partitioned: one per sample or one per group.\<close>

definition group_workloads :: "nat \<Rightarrow> int list \<Rightarrow> int list" where
  "group_workloads s lens =
     (if 1 < s then map sum_list (chunks_of s (map calculate_workload lens)) else map calculate_workload lens)"

definition micro_bsz_idx ::
  "rearrange_args \<Rightarrow> int list \<Rightarrow> int \<Rightarrow> nat list list res" where
  "micro_bsz_idx args lens n =
     (let gsize = ra_force_group_size args;
          workloads = group_workloads gsize lens
      in bind_res (get_seqlen_balanced_partitions workloads (nat n) False) (\<lambda>ps.
           let idx = (if 1 < gsize then expand_groups gsize ps else ps)
           in Inr (if ra_use_dynamic_bsz_balance args
                   then ends_small (sorted_desc (partition_key workloads gsize) idx)
                   else idx)))"

definition rearrange_micro_batches ::
  "'a list \<Rightarrow> seq_lengths \<Rightarrow> rearrange_args \<Rightarrow> (int \<Rightarrow> int) option
   \<Rightarrow> ('a list list \<times> nat list list) res" where
  "rearrange_micro_batches batch seqs args sync =
     (let lens = (case seqs of NestedLens l \<Rightarrow> l | MaskLens w l \<Rightarrow> l);
          gsize = ra_force_group_size args
      in bind_res (case seqs of
            NestedLens l \<Rightarrow> (if l = [] then Inl (ValueError ''max() arg is an empty sequence'')
                            else Inr (foldl max (hd l) (tl l)))
          | MaskLens w _ \<Rightarrow> Inr (int w)) (\<lambda>max_seq_len.
         if ra_max_token_len args < max_seq_len
         then Inl (AssertionError ''max_token_len must be greater than the sequence length'')
         else if gsize = 0 then Inl ZeroDivisionError
         else if length lens mod gsize \<noteq> 0
         then Inl (AssertionError ''Batch gsize must be divisible by force_group_size'')
         else let num_groups = length lens div gsize
           in bind_res (num_micro_batches args sync (sum_list lens) num_groups) (\<lambda>n.
                if int num_groups < n then Inl (AssertionError ''num_micro_batches <= num_groups'')
                else bind_res (micro_bsz_idx args lens n) (\<lambda>idx.
                  bind_res (map_res (gather_idx batch) idx) (\<lambda>mbs. Inr (mbs, idx))))))"

definition get_reverse_idx :: "nat list \<Rightarrow> nat list res" where
  "get_reverse_idx idx_map =
     foldl (\<lambda>acc (i, idx). bind_res acc (\<lambda>r.
        if idx < length r then Inr (r[idx := i]) else Inl IndexError))
       (Inr idx_map) (enumerate 0 idx_map)"

definition restore_dynamic_batch :: "'a list \<Rightarrow> nat list list \<Rightarrow> 'a list res" where
  "restore_dynamic_batch data batch_idx_list =
     (let indices = concat batch_idx_list
      in if length indices \<noteq> length data then Inl (AssertionError ''len(indices) vs. batch_size'')
         else bind_res (get_reverse_idx indices) (gather_idx data))"

text \<open>\<open>prepare_dynamic_batch\<close>: tensors by row, the other columns indexed alike.\<close>

definition prepare_dynamic_batch ::
  "'a list \<Rightarrow> (string \<times> 'b list) list \<Rightarrow> 'm \<Rightarrow> seq_lengths \<Rightarrow> rearrange_args \<Rightarrow> (int \<Rightarrow> int) option
   \<Rightarrow> (('a list \<times> (string \<times> 'b list) list \<times> 'm) list \<times> nat list list) res" where
  "prepare_dynamic_batch batch non_tensors meta seqs args sync =
     bind_res (rearrange_micro_batches batch seqs (args\<lparr>ra_force_group_size := 1\<rparr>) sync) (\<lambda>(mbs, idx).
     bind_res (map_res (\<lambda>(mb, p).
         bind_res (map_res (\<lambda>(k, v). map_sum id (Pair k) (gather_idx v p)) non_tensors) (\<lambda>cols.
           Inr (mb, cols, meta))) (zip mbs idx)) (\<lambda>out. Inr (out, idx)))"

section \<open>Partitions by group\<close>

text \<open>
  Runs of equal consecutive uids with their indices and total length; \<open>None\<close> is Python's \<open>None\<close>,
  the initial \<open>current_uid\<close>.
\<close>

fun group_runs :: "'u option \<Rightarrow> nat list \<Rightarrow> int \<Rightarrow> (nat \<times> int \<times> 'u option) list
                   \<Rightarrow> (nat list \<times> int) list" where
  "group_runs current idxs total_len [] = (if idxs = [] then [] else [(idxs, total_len)])"
| "group_runs current idxs total_len ((i, seqlen, uid) # rest) =
     (if uid \<noteq> current
      then (if idxs = [] then [] else [(idxs, total_len)]) @ group_runs uid [i] seqlen rest
      else group_runs current (idxs @ [i]) (total_len + seqlen) rest)"

definition get_group_balanced_partitions ::
  "int list \<Rightarrow> 'u option list \<Rightarrow> nat \<Rightarrow> nat list list res" where
  "get_group_balanced_partitions seqlen_list uid_list k =
     (if length seqlen_list \<noteq> length uid_list
      then Inl (AssertionError ''seqlen_list and uid_list must have same length'')
      else let groups = group_runs None [] 0 (zip [0..<length seqlen_list] (zip seqlen_list uid_list))
        in if length groups < k
           then Inl (AssertionError ''Number of uid groups must be >= k_partitions'')
           else let workloads = map (\<lambda>(idxs, _). \<Sum>i\<leftarrow>idxs. calculate_workload (seqlen_list ! i)) groups
             in bind_res (get_seqlen_balanced_partitions workloads k True) (\<lambda>ps.
                  Inr (map (\<lambda>p. sort (concat (map (\<lambda>g. fst (groups ! g)) p))) ps)))"

section \<open>Lemmas on micro-batches\<close>

lemma gather_idx_ok: "\<forall>i \<in> set idx. i < length xs \<Longrightarrow> gather_idx xs idx = Inr (map ((!) xs) idx)"
  unfolding gather_idx_def by (rule map_res_pure) auto

lemma balanced_partitions_k:
  assumes "get_seqlen_balanced_partitions xs k e = Inr ps"
  shows "0 < k" "k \<le> length xs"
proof -
  show "k \<le> length xs"
    using assms by (auto simp: get_seqlen_balanced_partitions_def split: if_splits)
  show "0 < k"
  proof (rule ccontr)
    assume "\<not> 0 < k"
    then have k: "k = 0" by simp
    from assms obtain qs where qs: "karmarkar_karp xs k e = Inr qs"
        "check_and_sort_partitions (length xs) k qs = Inr ps"
      by (auto simp: get_seqlen_balanced_partitions_def bind_res_Inr split: if_splits)
    then have "xs = []" by (auto simp: check_and_sort_partitions_def k split: if_splits)
    with qs(1) show False
      by (auto simp: karmarkar_karp_def initial_states_def push_states_def k merge_loop.simps
          split: if_splits)
  qed
qed

lemma balanced_partitions_perm:
  assumes "get_seqlen_balanced_partitions xs k e = Inr ps" "\<forall>v \<in> set xs. 0 \<le> v"
  shows "mset (concat ps) = mset [0..<length xs]" "length ps = k" "\<forall>p \<in> set ps. p \<noteq> []"
proof -
  have dvd: "k dvd length xs" if e
    using assms(1) that
    by (auto simp: get_seqlen_balanced_partitions_def karmarkar_karp_def initial_states_def Let_def bind_res_Inr
        dvd_eq_mod_eq_0 split: if_splits)
  have k: "0 < k" "k \<le> length xs" using balanced_partitions_k[OF assms(1)] by auto
  obtain st where st: "karmarkar_karp xs k e = Inr (get_partitions st)"
      "state_items st = mset (enumerate 0 xs)"
  proof -
    have "\<forall>v \<in> set xs. 0 \<le> v \<and> v \<le> Max (set xs)" using assms(2) by simp
    then show ?thesis using karmarkar_karp_state[where e = e and B = "Max (set xs)", OF k dvd] that by blast
  qed
  have "check_and_sort_partitions (length xs) k (get_partitions st) = Inr ps"
    using assms(1) k(2) st(1) by (simp add: get_seqlen_balanced_partitions_def)
  then have ps: "ps = map sort (get_partitions st)" and len: "length (get_partitions st) = k"
      and ne: "\<forall>p \<in> set (get_partitions st). p \<noteq> []"
    by (auto simp: check_and_sort_partitions_def split: if_splits)
  show "mset (concat ps) = mset [0..<length xs]"
    by (simp only: ps sorted_partitions_concat mset_concat_partitions st(2) map_fst_enumerate_mset)
  show "length ps = k" by (simp add: ps len)
  show "\<forall>p \<in> set ps. p \<noteq> []"
  proof
    fix p assume "p \<in> set ps"
    then obtain q where "q \<in> set (get_partitions st)" "p = sort q" by (auto simp: ps)
    with ne have "length p \<noteq> 0" by auto
    then show "p \<noteq> []" by simp
  qed
qed

lemma mset_every_other: "mset (every_other xs) + mset (every_other (drop 1 xs)) = mset xs"
proof (induction xs rule: every_other.induct)
  case (3 x y xs)
  then show ?case by (cases xs) auto
qed auto

lemma mset_ends_small [simp]: "mset (ends_small xs) = mset xs"
  using mset_every_other[of xs] by (simp add: ends_small_def)

lemma mset_concat_perm: "mset ps = mset qs \<Longrightarrow> mset (concat ps) = mset (concat qs)"
  unfolding mset_concat by (metis mset_map sum_mset_sum_list)

lemma concat_groups: "concat (map (\<lambda>g. [g * s..<g * s + s]) [0..<m]) = [0..<m * s]"
proof (induction m)
  case (Suc m)
  have "[0..<Suc m * s] = [0..<m * s] @ [m * s..<m * s + s]"
    using upt_add_eq_append[of 0 "m * s" s] by (simp add: add.commute)
  with Suc show ?case by simp
qed simp

lemma mset_concat_map_perm: "mset xs = mset ys \<Longrightarrow> mset (concat (map f xs)) = mset (concat (map f ys))"
  by (intro mset_concat_perm) simp

lemma mset_expand_groups:
  assumes "mset (concat ps) = mset [0..<m]"
  shows "mset (concat (expand_groups s ps)) = mset [0..<m * s]"
proof -
  have "concat (expand_groups s ps) = concat (map (\<lambda>g. [g * s..<g * s + s]) (concat ps))"
    by (induction ps) (auto simp: expand_groups_def)
  then have "mset (concat (expand_groups s ps)) = mset (concat (map (\<lambda>g. [g * s..<g * s + s]) [0..<m]))"
    using mset_concat_map_perm[OF assms] by simp
  then show ?thesis by (simp only: concat_groups)
qed

lemma calculate_workload_nonneg: "0 \<le> v \<Longrightarrow> 0 \<le> calculate_workload v"
  by (simp add: calculate_workload_def)

lemma group_workloads_props:
  assumes "0 < s" "s dvd length lens" "\<forall>v \<in> set lens. 0 \<le> v"
  shows "length (group_workloads s lens) * s = length lens" "\<forall>v \<in> set (group_workloads s lens). 0 \<le> v"
proof -
  show "length (group_workloads s lens) * s = length lens"
    using assms length_chunks_of[of s "map calculate_workload lens"]
    by (cases "s = 1") (auto simp: group_workloads_def)
  have "0 \<le> sum_list c" if c: "c \<in> set (chunks_of s (map calculate_workload lens))" for c
  proof -
    have "set c \<subseteq> set (concat (chunks_of s (map calculate_workload lens)))" using c by auto
    then have "set c \<subseteq> calculate_workload ` set lens" using assms(1) by (simp add: concat_chunks_of)
    then show ?thesis using assms(3) by (intro sum_list_nonneg) (auto simp: calculate_workload_nonneg)
  qed
  then show "\<forall>v \<in> set (group_workloads s lens). 0 \<le> v"
    using assms(3) by (auto simp: group_workloads_def calculate_workload_nonneg)
qed

lemma micro_bsz_idx_perm:
  assumes "micro_bsz_idx args lens n = Inr idx" "0 < ra_force_group_size args"
    "ra_force_group_size args dvd length lens" "\<forall>v \<in> set lens. 0 \<le> v"
  shows "mset (concat idx) = mset [0..<length lens]" "length idx = nat n" "\<forall>p \<in> set idx. p \<noteq> []"
proof -
  let ?s = "ra_force_group_size args"
  let ?w = "group_workloads ?s lens"
  obtain ps where ps: "get_seqlen_balanced_partitions ?w (nat n) False = Inr ps"
      and idx: "mset idx = mset (if 1 < ?s then expand_groups ?s ps else ps)"
    using assms(1) by (auto simp: micro_bsz_idx_def Let_def bind_res_Inr)
  note w = group_workloads_props[OF assms(2-4)]
  note p = balanced_partitions_perm[OF ps w(2)]
  have "mset (concat (if 1 < ?s then expand_groups ?s ps else ps)) = mset [0..<length ?w * ?s]"
    using mset_expand_groups[OF p(1), of ?s] p(1) assms(2) by (cases "?s = 1") auto
  then show "mset (concat idx) = mset [0..<length lens]"
    using mset_concat_perm[OF idx] w(1) by simp
  have "length idx = length (if 1 < ?s then expand_groups ?s ps else ps)" using idx by (metis size_mset)
  then show "length idx = nat n" using p(2) by (simp add: expand_groups_def)
  have "set idx = set (if 1 < ?s then expand_groups ?s ps else ps)" using idx by (metis set_mset_mset)
  then show "\<forall>p \<in> set idx. p \<noteq> []"
    using p(3) assms(2) by (auto simp: expand_groups_def split: if_splits)
qed

subsection \<open>Restoring the order\<close>

lemma get_reverse_idx_prefix:
  assumes "distinct xs" "\<forall>i \<in> set xs. i < length r0"
  shows "\<exists>r. foldl (\<lambda>acc (i, idx). bind_res acc (\<lambda>r.
        if idx < length r then Inr (r[idx := i]) else Inl IndexError)) (Inr r0) (enumerate 0 xs) = Inr r
      \<and> length r = length r0 \<and> (\<forall>i < length xs. r ! (xs ! i) = i)"
  using assms
proof (induction xs rule: rev_induct)
  case (snoc x xs)
  then obtain r where r: "foldl (\<lambda>acc (i, idx). bind_res acc (\<lambda>r.
        if idx < length r then Inr (r[idx := i]) else Inl IndexError)) (Inr r0) (enumerate 0 xs) = Inr r"
      "length r = length r0" "\<forall>i < length xs. r ! (xs ! i) = i" by auto
  have "r[x := length xs] ! ((xs @ [x]) ! i) = i" if "i < length (xs @ [x])" for i
  proof (cases "i = length xs")
    case True
    with snoc.prems r(2) show ?thesis by simp
  next
    case False
    with that have i: "i < length xs" by simp
    then have "xs ! i \<noteq> x" using snoc.prems(1) by (auto simp: in_set_conv_nth)
    with i r(3) show ?thesis by (simp add: nth_append)
  qed
  with r snoc.prems(2) show ?case by (simp add: enumerate_append_eq)
qed simp

lemma restore_gathered:
  assumes perm: "mset (concat idx) = mset [0..<n]" and n: "length rows = n"
  shows "restore_dynamic_batch (map f (map ((!) rows) (concat idx))) idx = Inr (map f rows)"
proof -
  let ?c = "concat idx"
  have len: "length ?c = n" by (metis perm size_mset length_upt diff_zero)
  have set: "set ?c = {..<n}" by (metis perm set_mset_mset atLeast_upt)
  have dist: "distinct ?c" by (metis perm mset_eq_imp_distinct_iff distinct_upt)
  obtain r where r: "get_reverse_idx ?c = Inr r" "length r = n" "\<forall>i < n. r ! (?c ! i) = i"
    using get_reverse_idx_prefix[OF dist, of ?c] set len by (auto simp: get_reverse_idx_def)
  let ?d = "map f (map ((!) rows) ?c)"
  have at: "r ! j < n \<and> ?d ! (r ! j) = f (rows ! j)" if "j < n" for j
  proof -
    from that set obtain i where "i < n" "j = ?c ! i"
      by (metis in_set_conv_nth lessThan_iff len)
    with r(3) len show ?thesis by simp
  qed
  have "\<forall>i \<in> set r. i < length ?d" using at r(2) len by (auto simp: in_set_conv_nth)
  then have "gather_idx ?d r = Inr (map ((!) ?d) r)" by (rule gather_idx_ok)
  moreover have "map ((!) ?d) r = map f rows"
    using at r(2) n by (intro nth_equalityI) (simp_all del: map_map)
  ultimately show ?thesis using len r(1) by (simp add: restore_dynamic_batch_def del: map_map)
qed

text \<open>What a successful rearrangement is made of.\<close>

lemma rearrange_parts:
  assumes "rearrange_micro_batches batch seqs args sync = Inr (mbs, idx)"
    and lens: "(case seqs of NestedLens l \<Rightarrow> l | MaskLens w l \<Rightarrow> l) = lens"
    and len: "length batch = length lens" and nn: "\<forall>v \<in> set lens. 0 \<le> v"
  shows "mset (concat idx) = mset [0..<length batch]" "mbs = map (map ((!) batch)) idx"
    "\<forall>p \<in> set idx. p \<noteq> []"
proof -
  let ?s = "ra_force_group_size args"
  obtain n where s: "0 < ?s" "?s dvd length lens" and idx: "micro_bsz_idx args lens n = Inr idx"
      and mbs: "map_res (gather_idx batch) idx = Inr mbs"
    using assms(1) unfolding rearrange_micro_batches_def Let_def lens
    by (auto simp: bind_res_Inr dvd_eq_mod_eq_0 split: if_splits)
  note p = micro_bsz_idx_perm[OF idx s nn]
  show "mset (concat idx) = mset [0..<length batch]" "\<forall>p \<in> set idx. p \<noteq> []" using p len by simp_all
  have "set (concat idx) = {0..<length batch}" by (metis p(1) set_mset_mset set_upt len)
  then have "map_res (gather_idx batch) idx = Inr (map (map ((!) batch)) idx)"
    by (intro map_res_pure gather_idx_ok) auto
  with mbs show "mbs = map (map ((!) batch)) idx" by simp
qed

text \<open>
  C13. Dynamic batching loses and reorders nothing: when \<open>rearrange_micro_batches\<close> returns, for
  any grouping, balancing and data-parallel setting, no micro-batch is empty, every row of the
  batch is in exactly one of them, and \<open>restore_dynamic_batch\<close> puts any per-row results \<open>f\<close>,
  concatenated in the order of the micro-batches, back in the order of the batch.
\<close>

theorem dynamic_batch_roundtrip:
  fixes f :: "'a \<Rightarrow> 'b"
  assumes "rearrange_micro_batches batch seqs args sync = Inr (mbs, idx)"
    and "length batch = length (case seqs of NestedLens l \<Rightarrow> l | MaskLens w l \<Rightarrow> l)"
    and "\<forall>v \<in> set (case seqs of NestedLens l \<Rightarrow> l | MaskLens w l \<Rightarrow> l). 0 \<le> v"
  shows "restore_dynamic_batch (concat (map (map f) mbs)) idx = Inr (map f batch) \<and>
    mset (concat mbs) = mset batch \<and> (\<forall>mb \<in> set mbs. mb \<noteq> [])"
proof -
  note r = rearrange_parts[OF assms(1) refl assms(2,3)]
  have con: "concat mbs = map ((!) batch) (concat idx)" by (simp only: r(2) map_concat)
  have "concat (map (map f) mbs) = map f (map ((!) batch) (concat idx))"
    by (simp only: con map_concat[symmetric])
  moreover have "mset (concat mbs) = mset batch"
  proof -
    have "mset (concat mbs) = image_mset ((!) batch) (mset [0..<length batch])"
      by (simp only: con mset_map r(1))
    also have "\<dots> = mset (map ((!) batch) [0..<length batch])" by (simp only: mset_map)
    finally show ?thesis by (simp only: map_nth)
  qed
  ultimately show ?thesis using restore_gathered[OF r(1) refl, of f] r(2,3) by auto
qed

lemma dynamic_batch_roundtrip_witness:
  "restore_dynamic_batch (concat (map (map (\<lambda>c. 2 * c)) [[10, 11], [12 :: nat]])) [[0, 1], [2]]
     = Inr [20, 22, 24]"
proof -
  have "rearrange_micro_batches [10, 11, 12 :: nat] (NestedLens [3, 3, 3])
      \<lparr>ra_max_token_len = 5, ra_num_batches_divided_by = None, ra_same_micro_num_in_dp = True,
       ra_min_num_micro_batch = None, ra_use_dynamic_bsz_balance = True, ra_force_group_size = 1\<rparr> None
     = Inr ([[10, 11], [12]], [[0, 1], [2]])"
    by code_simp
  from dynamic_batch_roundtrip[OF this, of "\<lambda>c. 2 * c"] show ?thesis by simp
qed

text \<open>
  The budget \<open>max_token_len\<close> bounds a single sequence and the average, not every micro-batch: with
  three sequences of 3 tokens and a budget of 5, one micro-batch has 6 tokens.
\<close>

lemma micro_batch_may_exceed_budget:
  "rearrange_micro_batches [3, 3, 3 :: int] (NestedLens [3, 3, 3])
      \<lparr>ra_max_token_len = 5, ra_num_batches_divided_by = None, ra_same_micro_num_in_dp = True,
       ra_min_num_micro_batch = None, ra_use_dynamic_bsz_balance = False, ra_force_group_size = 1\<rparr> None
     = Inr ([[3, 3], [3]], [[0, 1], [2]])"
  by code_simp

subsection \<open>The number of micro-batches\<close>

lemma ceildiv_ceiling: "0 < b \<Longrightarrow> ceildiv a b = \<lceil>real_of_int a / real_of_int b\<rceil>"
  unfolding ceildiv_def ceiling_divide_eq_div by (simp add: div_minus_right)

lemma roundup_divisible_least:
  assumes "0 < b"
  shows "b dvd roundup_divisible a b" "a \<le> roundup_divisible a b" "roundup_divisible a b < a + b"
proof -
  have e: "(a + b - 1) div b * b = a + b - 1 - (a + b - 1) mod b"
    by (simp add: minus_mod_eq_div_mult)
  have m: "0 \<le> (a + b - 1) mod b" "(a + b - 1) mod b < b" using assms by simp_all
  show "b dvd roundup_divisible a b" by (simp add: roundup_divisible_def)
  show "a \<le> roundup_divisible a b" "roundup_divisible a b < a + b"
    using e m unfolding roundup_divisible_def by linarith+
qed

lemma sum_list_pos_max:
  "\<forall>v \<in> set (xs :: int list). v \<le> B \<Longrightarrow> 0 < sum_list xs \<Longrightarrow> 0 < B"
proof (rule ccontr)
  assume "\<forall>v \<in> set xs. v \<le> B" "0 < sum_list xs" "\<not> 0 < B"
  then have "\<forall>v \<in> set xs. v \<le> 0" by auto
  then have "sum_list xs \<le> 0" by (intro sum_list_nonpos) auto
  with \<open>0 < sum_list xs\<close> show False by simp
qed

lemma foldl_max_bound: "x \<le> B \<Longrightarrow> \<forall>v \<in> set xs. v \<le> B \<Longrightarrow> foldl max x xs \<le> (B :: int)"
  by (induction xs arbitrary: x) auto

lemma micro_bsz_idx_returns:
  assumes "0 < n" "n \<le> int (length (group_workloads s lens))" "s = ra_force_group_size args"
    "0 < s" "s dvd length lens" "\<forall>v \<in> set lens. 0 \<le> v"
  shows "\<exists>idx. micro_bsz_idx args lens n = Inr idx"
proof -
  let ?w = "group_workloads s lens"
  have k: "0 < nat n" "nat n \<le> length ?w" using assms(1,2) by auto
  obtain ps where "get_seqlen_balanced_partitions ?w (nat n) False = Inr ps"
    using balanced_partitions_returns[OF k _ group_workloads_props(2)[OF assms(4-6)], of False] by blast
  then show ?thesis by (auto simp: micro_bsz_idx_def Let_def simp flip: assms(3))
qed

text \<open>
  With lengths that are not negative, at most \<open>max_token_len\<close> each and not all zero, a group
  size that divides the batch, and neither synchronisation, a minimum count nor a divisor,
  \<open>rearrange_micro_batches\<close> returns, and the number of micro-batches is exactly the ceiling of the
  total length over the budget, capped by the number of groups.
\<close>

theorem num_micro_batches_exact:
  assumes lens: "(case seqs of NestedLens l \<Rightarrow> l | MaskLens w l \<Rightarrow> l) = lens"
    and width: "case seqs of NestedLens l \<Rightarrow> True | MaskLens w l \<Rightarrow> int w \<le> ra_max_token_len args"
    and val: "\<forall>v \<in> set lens. 0 \<le> v \<and> v \<le> ra_max_token_len args" "0 < sum_list lens"
    and args: "ra_min_num_micro_batch args = None" "ra_num_batches_divided_by args = None"
      "0 < ra_force_group_size args" "ra_force_group_size args dvd length lens"
    and len: "length batch = length lens"
  shows "\<exists>mbs idx. rearrange_micro_batches batch seqs args None = Inr (mbs, idx) \<and>
     int (length mbs) = min (int (length lens div ra_force_group_size args))
        \<lceil>real_of_int (sum_list lens) / real_of_int (ra_max_token_len args)\<rceil>"
proof -
  let ?s = "ra_force_group_size args" and ?M = "ra_max_token_len args"
  let ?g = "length lens div ?s"
  let ?n = "min (int ?g) (ceildiv (sum_list lens) ?M)"
  have M: "0 < ?M" using sum_list_pos_max[of lens ?M] val by auto
  have nn: "\<forall>v \<in> set lens. 0 \<le> v" using val by simp
  have ne: "lens \<noteq> []" using val(2) by auto
  have "?s \<le> length lens" using args(4) ne by (auto intro: dvd_imp_le)
  then have g: "0 < ?g" using args(3) by (simp add: div_greater_zero_iff)
  have "0 < \<lceil>real_of_int (sum_list lens) / real_of_int ?M\<rceil>"
    using val(2) M by simp
  then have n: "0 < ?n" using g by (simp add: ceildiv_ceiling[OF M])
  have wl: "length (group_workloads ?s lens) = ?g"
    using group_workloads_props(1)[OF args(3,4) nn] args(3)
    by (metis nonzero_mult_div_cancel_right less_irrefl)
  obtain idx where idx: "micro_bsz_idx args lens ?n = Inr idx"
    using micro_bsz_idx_returns[OF n _ refl args(3,4) nn] wl by auto
  note p = micro_bsz_idx_perm[OF idx args(3,4) nn]
  have "set (concat idx) = {0..<length batch}" by (metis p(1) set_mset_mset set_upt len)
  then have mbs: "map_res (gather_idx batch) idx = Inr (map (map ((!) batch)) idx)"
    by (intro map_res_pure gather_idx_ok) auto
  have num: "num_micro_batches args None (sum_list lens) ?g = Inr ?n"
    using M args(1,2) by (simp add: num_micro_batches_def)
  have "foldl max (hd lens) (tl lens) \<le> ?M"
    using val(1) ne by (intro foldl_max_bound) (auto dest: list.set_sel)
  then have "rearrange_micro_batches batch seqs args None = Inr (map (map ((!) batch)) idx, idx)"
    using lens width ne args(3,4) num idx mbs
    by (cases seqs) (auto simp: rearrange_micro_batches_def Let_def dvd_eq_mod_eq_0)
  moreover have "int (length idx) = ?n" using p(2) n by simp
  ultimately show ?thesis by (auto simp: ceildiv_ceiling[OF M])
qed

lemma num_micro_batches_exact_example:
  "\<exists>mbs idx. rearrange_micro_batches ''abcd'' (MaskLens 4 [4, 2, 3, 1])
      \<lparr>ra_max_token_len = 4, ra_num_batches_divided_by = None, ra_same_micro_num_in_dp = True,
       ra_min_num_micro_batch = None, ra_use_dynamic_bsz_balance = True, ra_force_group_size = 1\<rparr> None
     = Inr (mbs, idx) \<and> int (length mbs) = min 4 \<lceil>10 / 4 :: real\<rceil>"
  using num_micro_batches_exact
    [of "MaskLens 4 [4, 2, 3, 1]" "[4, 2, 3, 1]"
        "\<lparr>ra_max_token_len = 4, ra_num_batches_divided_by = None, ra_same_micro_num_in_dp = True,
          ra_min_num_micro_batch = None, ra_use_dynamic_bsz_balance = True, ra_force_group_size = 1\<rparr>"
        "''abcd''"]
  by simp

section \<open>Lemmas on partitions by group\<close>

lemma group_runs_concat: "concat (map fst (group_runs cur idxs t rest)) = idxs @ map fst rest"
  by (induction cur idxs t rest rule: group_runs.induct) auto

lemma group_runs_prefix:
  "idxs \<noteq> [] \<Longrightarrow> \<exists>g \<in> set (group_runs cur idxs t rest). set idxs \<subseteq> set (fst g)"
  by (induction cur idxs t rest rule: group_runs.induct) auto

lemma group_runs_adjacent:
  "\<exists>g \<in> set (group_runs cur idxs t (xs @ (i, a, u) # (j, b, u) # ys)). i \<in> set (fst g) \<and> j \<in> set (fst g)"
proof (induction xs arbitrary: cur idxs t)
  case Nil
  have "\<exists>g \<in> set (group_runs u js t' ((j, b, u) # ys)). i \<in> set (fst g) \<and> j \<in> set (fst g)"
    if "i \<in> set js" for js t'
    using that group_runs_prefix[of "js @ [j]" u "t' + b" ys] by auto
  from this[of "[i]" a] this[of "idxs @ [i]" "t + a"] show ?case by auto
next
  case (Cons x xs)
  obtain k c v where "x = (k, c, v)" by (cases x)
  with Cons show ?case by auto
qed

lemma split_at_two: "Suc i < length l \<Longrightarrow> l = take i l @ l ! i # l ! Suc i # drop (Suc (Suc i)) l"
  by (metis Cons_nth_drop_Suc Suc_lessD append_take_drop_id)

text \<open>
  Partitioning by uid: when \<open>get_group_balanced_partitions\<close> returns, there are \<open>k\<close> index lists,
  each sorted, which hold every sample exactly once, and two consecutive samples of one uid are
  always in the same list; so a prompt's rollouts, which are contiguous, stay on one rank.
\<close>

theorem group_partitions_keep_uids:
  assumes ret: "get_group_balanced_partitions xs uids k = Inr ps"
    and nn: "\<forall>v \<in> set xs. 0 \<le> v"
  shows "length ps = k \<and> mset (concat ps) = mset [0..<length xs] \<and> (\<forall>p \<in> set ps. sorted p) \<and>
    (\<forall>i. Suc i < length xs \<longrightarrow> uids ! i = uids ! Suc i \<longrightarrow> (\<exists>p \<in> set ps. i \<in> set p \<and> Suc i \<in> set p))"
proof -
  let ?n = "length xs"
  let ?zs = "zip [0..<?n] (zip xs uids)"
  define gs where "gs = group_runs None [] 0 ?zs"
  let ?w = "map (\<lambda>(idxs, _). \<Sum>i\<leftarrow>idxs. calculate_workload (xs ! i)) gs"
  let ?F = "\<lambda>g. fst (gs ! g)"
  have len: "length uids = ?n"
    using ret by (auto simp: get_group_balanced_partitions_def split: if_splits)
  obtain qs where qs: "get_seqlen_balanced_partitions ?w k True = Inr qs"
      and ps: "ps = map (\<lambda>p. sort (concat (map ?F p))) qs"
  proof -
    have "get_group_balanced_partitions xs uids k =
        (if length gs < k then Inl (AssertionError ''Number of uid groups must be >= k_partitions'')
         else bind_res (get_seqlen_balanced_partitions ?w k True) (\<lambda>ps. Inr (map (\<lambda>p. sort (concat (map ?F p))) ps)))"
      using len by (simp add: get_group_balanced_partitions_def Let_def gs_def)
    with ret that show thesis by (auto simp: bind_res_Inr split: if_splits)
  qed
  have cat: "concat (map fst gs) = [0..<?n]"
    using len by (simp add: gs_def group_runs_concat)
  have "0 \<le> (\<Sum>i\<leftarrow>idxs. calculate_workload (xs ! i))" if "(idxs, t) \<in> set gs" for idxs t
  proof -
    have "set idxs \<subseteq> set (concat (map fst gs))" using that by force
    then have "set idxs \<subseteq> {..<?n}" by (simp add: cat lessThan_atLeast0)
    then show ?thesis using nn by (intro sum_list_nonneg) (auto intro!: calculate_workload_nonneg)
  qed
  then have wnn: "\<forall>v \<in> set ?w. 0 \<le> v" by auto
  note p = balanced_partitions_perm[OF qs wnn]
  have "mset (concat ps) = mset (concat (map ?F (concat qs)))"
    unfolding ps by (induction qs) auto
  also have "\<dots> = mset (concat (map ?F [0..<length gs]))"
    using p(1) by (intro mset_concat_map_perm) simp
  also have "map ?F [0..<length gs] = map fst gs" by (intro nth_equalityI) auto
  finally have perm: "mset (concat ps) = mset [0..<?n]" by (simp only: cat)
  have adj: "\<exists>p \<in> set ps. i \<in> set p \<and> Suc i \<in> set p" if i: "Suc i < ?n" "uids ! i = uids ! Suc i" for i
  proof -
    have "?zs = take i ?zs @ ?zs ! i # ?zs ! Suc i # drop (Suc (Suc i)) ?zs"
      using i(1) len by (intro split_at_two) simp
    also have "?zs ! i = (i, xs ! i, uids ! i)" using i(1) len by simp
    also have "?zs ! Suc i = (Suc i, xs ! Suc i, uids ! i)" using i len by simp
    finally have "\<exists>g \<in> set gs. i \<in> set (fst g) \<and> Suc i \<in> set (fst g)"
      unfolding gs_def using group_runs_adjacent by metis
    then obtain g where g: "g < length gs" "i \<in> set (?F g)" "Suc i \<in> set (?F g)"
      by (metis in_set_conv_nth)
    have "mset (concat qs) = mset [0..<length gs]" using p(1) by (simp only: length_map)
    then have "set (concat qs) = set [0..<length gs]" by (rule mset_eq_setD)
    then have "g \<in> set (concat qs)" using g(1) by (simp only: set_upt) simp
    then obtain q where "q \<in> set qs" "g \<in> set q" by (simp only: set_concat) blast
    with g(2,3) show ?thesis unfolding ps by auto
  qed
  show ?thesis using p(2) perm adj by (auto simp: ps)
qed

lemma group_partitions_keep_uids_example:
  "get_group_balanced_partitions [1, 2, 9, 9] [Some ''p'', Some ''p'', Some ''q'', Some ''q''] 2
     = Inr [[2, 3], [0, 1]] \<and>
   (\<exists>p \<in> set [[2, 3], [0, 1 :: nat]]. 2 \<in> set p \<and> Suc 2 \<in> set p)"
proof -
  have ret: "get_group_balanced_partitions [1, 2, 9, 9] [Some ''p'', Some ''p'', Some ''q'', Some ''q''] 2
    = Inr [[2, 3], [0, 1]]"
    by code_simp
  from group_partitions_keep_uids[OF ret] have
    "Suc 2 < 4 \<longrightarrow> [Some ''p'', Some ''p'', Some ''q'', Some ''q''] ! 2 = [Some ''p'', Some ''p'', Some ''q'', Some ''q''] ! Suc 2
       \<longrightarrow> (\<exists>p \<in> set [[2, 3], [0, 1 :: nat]]. 2 \<in> set p \<and> Suc 2 \<in> set p)"
    by simp
  with ret show ?thesis by simp
qed

end
