(* ===== verification/MsgQueue.thy ===== *)
theory MsgQueue
  imports Prelude
begin

text \<open>
  \<open>verl/experimental/fully_async_policy/message_queue.py\<close>: the queue between the rollouter and the
  trainer. Every method of the actor runs under one lock, so it is one step; \<open>get_sample\<close> gives the
  lock up only while it waits on the condition. The state carries the consumers that wait
  (\<open>mq_waiting\<close>) and those that were notified and have to take the lock again (\<open>mq_notified\<close>), as the
  condition object does. Log messages are not modelled.
\<close>

section \<open>State and operations\<close>

record 'a message_queue =
  mq_max_queue_size :: nat
  mq_queue :: "'a list"
  mq_val_queue :: "'a list"
  mq_running :: bool
  mq_total_produced :: nat
  mq_total_consumed :: nat
  mq_dropped_samples :: nat
  mq_waiting :: "nat set"
  mq_notified :: "nat set"

text \<open>\<open>__init__\<close>; \<open>deque(maxlen=n)\<close> refuses a negative \<open>n\<close>.\<close>

definition mq_init :: "int option \<Rightarrow> 'a message_queue res" where
  "mq_init max_queue_size =
     (case max_queue_size of
        None \<Rightarrow> Inl (ValueError ''max_queue_size cannot be None, got: None'')
      | Some n \<Rightarrow>
          if n < 0 then Inl (ValueError ''maxlen must be non-negative'')
          else Inr \<lparr>mq_max_queue_size = nat n, mq_queue = [], mq_val_queue = [], mq_running = True,
                    mq_total_produced = 0, mq_total_consumed = 0, mq_dropped_samples = 0,
                    mq_waiting = {}, mq_notified = {}\<rparr>)"

definition notify_all :: "'a message_queue \<Rightarrow> 'a message_queue" where
  "notify_all q = q\<lparr>mq_notified := mq_notified q \<union> mq_waiting q, mq_waiting := {}\<rparr>"

text \<open>
  \<open>put_sample\<close>: drop the oldest sample of a full queue, append, notify. \<open>popleft\<close> of an empty deque
  raises, and \<open>append\<close> on a deque at its \<open>maxlen\<close> drops from the left.
\<close>

definition deque_append :: "nat \<Rightarrow> 'a list \<Rightarrow> 'a \<Rightarrow> 'a list" where
  "deque_append maxlen xs x = (let ys = xs @ [x] in drop (length ys - maxlen) ys)"

definition put_sample :: "'a message_queue \<Rightarrow> 'a \<Rightarrow> (bool \<times> 'a message_queue) res" where
  "put_sample q sample =
     (let is_drop = mq_max_queue_size q \<le> length (mq_queue q)
      in if is_drop \<and> mq_queue q = [] then Inl IndexError
         else let q1 = (if is_drop
                        then q\<lparr>mq_queue := tl (mq_queue q), mq_dropped_samples := mq_dropped_samples q + 1\<rparr>
                        else q);
                  q2 = q1\<lparr>mq_queue := deque_append (mq_max_queue_size q1) (mq_queue q1) sample,
                          mq_total_produced := mq_total_produced q1 + 1\<rparr>
              in Inr (\<not> is_drop, notify_all q2))"

text \<open>
  \<open>get_sample\<close> of consumer \<open>c\<close> from the test of its loop on: wait, find the queue closed and empty,
  or take the oldest sample with the number of those left.
\<close>

datatype 'a get_outcome = Blocked | Closed | Got 'a nat

definition get_sample :: "nat \<Rightarrow> 'a message_queue \<Rightarrow> 'a get_outcome \<times> 'a message_queue" where
  "get_sample c q =
     (if mq_queue q = [] \<and> mq_running q then (Blocked, q\<lparr>mq_waiting := insert c (mq_waiting q)\<rparr>)
      else if \<not> mq_running q \<and> mq_queue q = [] then (Closed, q)
      else (Got (hd (mq_queue q)) (length (tl (mq_queue q))),
            q\<lparr>mq_queue := tl (mq_queue q), mq_total_consumed := mq_total_consumed q + 1\<rparr>))"

text \<open>A notified consumer holds the lock again and repeats the test.\<close>

definition resume_get :: "nat \<Rightarrow> 'a message_queue \<Rightarrow> 'a get_outcome \<times> 'a message_queue" where
  "resume_get c q = get_sample c (q\<lparr>mq_notified := mq_notified q - {c}\<rparr>)"

definition get_queue_size :: "'a message_queue \<Rightarrow> nat" where
  "get_queue_size q = length (mq_queue q)"

definition get_statistics :: "'a message_queue \<Rightarrow> (string \<times> nat) list" where
  "get_statistics q =
     [(''queue_size'', length (mq_queue q)), (''total_produced'', mq_total_produced q),
      (''total_consumed'', mq_total_consumed q), (''dropped_samples'', mq_dropped_samples q),
      (''max_queue_size'', mq_max_queue_size q)]"

definition clear_queue :: "'a message_queue \<Rightarrow> 'a message_queue" where
  "clear_queue q = q\<lparr>mq_queue := []\<rparr>"

definition shutdown :: "'a message_queue \<Rightarrow> 'a message_queue" where
  "shutdown q = notify_all (q\<lparr>mq_running := False\<rparr>)"

text \<open>
  \<open>get_memory_usage\<close>: the estimate from the first sample. \<open>sample_size\<close> stands for \<open>sys.getsizeof\<close> and
  the attribute probes of the sample, with the number of entries of its batch and whether it has an
  agent loop output; \<open>None\<close> when a probe raises.
\<close>

definition get_memory_usage ::
  "('a \<Rightarrow> (nat \<times> nat option \<times> bool) option) \<Rightarrow> 'a message_queue \<Rightarrow> nat \<times> nat \<times> real" where
  "get_memory_usage sample_size q =
     (let sample_count = length (mq_queue q);
          total_size =
            (if sample_count = 0 then 0
             else case sample_size (hd (mq_queue q)) of
                    None \<Rightarrow> sample_count * 15000
                  | Some (base, entries, agent) \<Rightarrow>
                      (base + (case entries of None \<Rightarrow> 0 | Some n \<Rightarrow> n * 1000)
                        + (if agent then 5000 else 0)) * sample_count)
      in (sample_count, total_size, real total_size / (1024 * 1024)))"

definition put_validate :: "'a message_queue \<Rightarrow> 'a \<Rightarrow> 'a message_queue" where
  "put_validate q x = q\<lparr>mq_val_queue := mq_val_queue q @ [x]\<rparr>"

definition get_validate :: "'a message_queue \<Rightarrow> 'a option \<times> 'a message_queue" where
  "get_validate q =
     (case mq_val_queue q of [] \<Rightarrow> (None, q) | x # xs \<Rightarrow> (Some x, q\<lparr>mq_val_queue := xs\<rparr>))"

section \<open>The client\<close>

text \<open>
  \<open>MessageQueueClient\<close>: each method forwards to the method of the same name of the actor and hands
  its answer back. The synchronous variants send the same requests.
\<close>

datatype 'a mq_request =
    PutSample 'a | PutValidate 'a | GetValidate | GetSample nat | GetQueueSize | GetStatistics
  | ClearQueue | Shutdown

datatype 'a mq_reply =
    BoolReply bool | NoneReply | ValueReply 'a | SampleReply 'a nat | SizeReply nat
  | StatsReply "(string \<times> nat) list" | PendingReply

definition client_call :: "'a mq_request \<Rightarrow> 'a message_queue \<Rightarrow> ('a mq_reply \<times> 'a message_queue) res" where
  "client_call r q =
     (case r of
        PutSample x \<Rightarrow> bind_res (put_sample q x) (\<lambda>(b, q'). Inr (BoolReply b, q'))
      | PutValidate x \<Rightarrow> Inr (NoneReply, put_validate q x)
      | GetValidate \<Rightarrow> (case get_validate q of (None, q') \<Rightarrow> Inr (NoneReply, q') | (Some x, q') \<Rightarrow> Inr (ValueReply x, q'))
      | GetSample c \<Rightarrow>
          (case get_sample c q of
             (Blocked, q') \<Rightarrow> Inr (PendingReply, q')
           | (Closed, q') \<Rightarrow> Inr (NoneReply, q')
           | (Got x n, q') \<Rightarrow> Inr (SampleReply x n, q'))
      | GetQueueSize \<Rightarrow> Inr (SizeReply (get_queue_size q), q)
      | GetStatistics \<Rightarrow> Inr (StatsReply (get_statistics q), q)
      | ClearQueue \<Rightarrow> Inr (NoneReply, clear_queue q)
      | Shutdown \<Rightarrow> Inr (NoneReply, shutdown q))"

section \<open>Runs\<close>

text \<open>What can happen to the queue, with the samples that enter and leave.\<close>

datatype 'a mq_event =
    EvPut 'a "'a option"
  | EvPutFailed
  | EvGot nat 'a
  | EvWait nat
  | EvClosed nat
  | EvClear "'a list"
  | EvShutdown
  | EvPutVal 'a
  | EvGetVal "'a option"

text \<open>A call of \<open>get_sample\<close>, new or resumed, as an event.\<close>

fun get_event :: "nat \<Rightarrow> 'a get_outcome \<Rightarrow> 'a mq_event" where
  "get_event c Blocked = EvWait c"
| "get_event c Closed = EvClosed c"
| "get_event c (Got x n) = EvGot c x"

inductive mq_step :: "'a message_queue \<Rightarrow> 'a mq_event \<Rightarrow> 'a message_queue \<Rightarrow> bool" where
  put: "put_sample q x = Inr (True, q') \<Longrightarrow> mq_step q (EvPut x None) q'"
| put_drop: "put_sample q x = Inr (False, q') \<Longrightarrow> mq_step q (EvPut x (Some (hd (mq_queue q)))) q'"
| put_fails: "put_sample q x = Inl e \<Longrightarrow> mq_step q EvPutFailed q"
| get: "c \<notin> mq_waiting q \<union> mq_notified q \<Longrightarrow> get_sample c q = (r, q') \<Longrightarrow> mq_step q (get_event c r) q'"
| resume: "c \<in> mq_notified q \<Longrightarrow> resume_get c q = (r, q') \<Longrightarrow> mq_step q (get_event c r) q'"
| clear: "mq_step q (EvClear (mq_queue q)) (clear_queue q)"
| shutdown: "mq_step q EvShutdown (shutdown q)"
| put_val: "mq_step q (EvPutVal x) (put_validate q x)"
| get_val: "get_validate q = (r, q') \<Longrightarrow> mq_step q (EvGetVal r) q'"

inductive mq_run :: "'a message_queue \<Rightarrow> 'a mq_event list \<Rightarrow> 'a message_queue \<Rightarrow> bool" where
  start: "mq_run q [] q"
| more: "mq_run q es q1 \<Longrightarrow> mq_step q1 e q2 \<Longrightarrow> mq_run q (es @ [e]) q2"

inductive_cases mq_stepE: "mq_step q e q'"

lemma put_sample_True:
  "put_sample q x = Inr (True, q') \<Longrightarrow>
   length (mq_queue q) < mq_max_queue_size q \<and>
   q' = notify_all (q\<lparr>mq_queue := mq_queue q @ [x], mq_total_produced := mq_total_produced q + 1\<rparr>)"
  by (auto simp: put_sample_def Let_def deque_append_def split: if_splits)

lemma put_sample_False:
  assumes "put_sample q x = Inr (False, q')"
  shows "mq_queue q \<noteq> [] \<and> mq_max_queue_size q \<le> length (mq_queue q) \<and>
    q' = notify_all (q\<lparr>mq_dropped_samples := mq_dropped_samples q + 1,
      mq_queue := deque_append (mq_max_queue_size q) (tl (mq_queue q)) x, mq_total_produced := mq_total_produced q + 1\<rparr>)"
  using assms by (auto simp: put_sample_def Let_def split: if_splits)

lemma notify_all_fields [simp]:
  "mq_queue (notify_all q) = mq_queue q" "mq_val_queue (notify_all q) = mq_val_queue q"
  "mq_running (notify_all q) = mq_running q" "mq_max_queue_size (notify_all q) = mq_max_queue_size q"
  "mq_total_produced (notify_all q) = mq_total_produced q"
  "mq_total_consumed (notify_all q) = mq_total_consumed q"
  "mq_dropped_samples (notify_all q) = mq_dropped_samples q"
  "mq_waiting (notify_all q) = {}"
  by (simp_all add: notify_all_def)

section \<open>Invariants\<close>

text \<open>
  The queue is within its bound, and a consumer waits unnotified only while the queue is empty and
  running: no wake-up is lost.
\<close>

definition mq_ok :: "'a message_queue \<Rightarrow> bool" where
  "mq_ok q \<longleftrightarrow> length (mq_queue q) \<le> mq_max_queue_size q \<and>
     (mq_waiting q \<noteq> {} \<longrightarrow> mq_queue q = [] \<and> mq_running q)"

lemma get_sample_cases:
  assumes "get_sample c q = (r, q')"
  obtains "r = Blocked" "mq_queue q = []" "mq_running q" "q' = q\<lparr>mq_waiting := insert c (mq_waiting q)\<rparr>"
  | "r = Closed" "mq_queue q = []" "\<not> mq_running q" "q' = q"
  | x xs where "r = Got x (length xs)" "mq_queue q = x # xs"
      "q' = q\<lparr>mq_queue := xs, mq_total_consumed := mq_total_consumed q + 1\<rparr>"
proof (cases "mq_queue q")
  case Nil
  show thesis
  proof (cases "mq_running q")
    case True
    with Nil assms show thesis by (intro that(1)) (simp_all add: get_sample_def)
  next
    case False
    with Nil assms show thesis by (intro that(2)) (simp_all add: get_sample_def)
  qed
next
  case (Cons x xs)
  with assms show thesis by (intro that(3)[OF _ Cons]) (simp_all add: get_sample_def)
qed

lemma put_drop_queue:
  assumes "put_sample q x = Inr (False, q')" "length (mq_queue q) \<le> mq_max_queue_size q"
  shows "mq_queue q' = tl (mq_queue q) @ [x]" "mq_queue q \<noteq> []"
  using put_sample_False[OF assms(1)] assms(2) by (cases "mq_queue q"; simp add: deque_append_def)+

lemma get_sample_ok: "get_sample c q = (r, q') \<Longrightarrow> mq_ok q \<Longrightarrow> mq_ok q'"
  by (erule get_sample_cases) (auto simp: mq_ok_def)

lemma get_validate_fields:
  assumes "get_validate q = (r, q')"
  shows "mq_queue q' = mq_queue q" "mq_waiting q' = mq_waiting q" "mq_running q' = mq_running q"
    "mq_max_queue_size q' = mq_max_queue_size q" "mq_total_produced q' = mq_total_produced q"
    "mq_total_consumed q' = mq_total_consumed q" "mq_dropped_samples q' = mq_dropped_samples q"
  using assms by (auto simp: get_validate_def split: list.splits)

lemma mq_step_ok: "mq_step q e q' \<Longrightarrow> mq_ok q \<Longrightarrow> mq_ok q' \<and> mq_max_queue_size q' = mq_max_queue_size q"
proof (induction rule: mq_step.induct)
  case (put q x q')
  then show ?case by (auto dest!: put_sample_True simp: mq_ok_def)
next
  case (put_drop q x q')
  have len: "length (mq_queue q) \<le> mq_max_queue_size q" using put_drop by (simp add: mq_ok_def)
  note d = put_drop_queue[OF put_drop(1) len]
  have "mq_waiting q' = {}" "mq_max_queue_size q' = mq_max_queue_size q"
    using put_sample_False[OF put_drop(1)] by auto
  moreover have "length (mq_queue q') = length (mq_queue q)" using d by simp
  ultimately show ?case using len by (simp add: mq_ok_def)
next
  case (get c q r q')
  then show ?case using get_sample_ok by (fastforce elim: get_sample_cases)
next
  case (resume c q r q')
  let ?q = "q\<lparr>mq_notified := mq_notified q - {c}\<rparr>"
  have "mq_ok ?q" using resume by (simp add: mq_ok_def)
  with resume(2) show ?case unfolding resume_get_def
    using get_sample_ok by (fastforce elim: get_sample_cases)
next
  case (get_val q r q')
  then show ?case using get_validate_fields[OF get_val(1)] by (simp add: mq_ok_def)
qed (auto simp: mq_ok_def clear_queue_def shutdown_def put_validate_def)

lemma mq_run_ok: "mq_run q es q' \<Longrightarrow> mq_ok q \<Longrightarrow> mq_ok q' \<and> mq_max_queue_size q' = mq_max_queue_size q"
  by (induction rule: mq_run.induct) (auto dest: mq_step_ok)

lemma mq_init_ok: "mq_init n = Inr q \<Longrightarrow> mq_ok q"
  by (auto simp: mq_init_def mq_ok_def split: option.splits if_splits)

section \<open>First in, first out\<close>

text \<open>
  The interface of a FIFO buffer: on the states \<open>ok\<close>, every step adds its insertions at the end and
  takes its removals from the front.
\<close>

locale fifo_buffer =
  fixes ok :: "'q \<Rightarrow> bool" and contents :: "'q \<Rightarrow> 'a list"
    and step :: "'q \<Rightarrow> 'e \<Rightarrow> 'q \<Rightarrow> bool" and run :: "'q \<Rightarrow> 'e list \<Rightarrow> 'q \<Rightarrow> bool"
    and inserted :: "'e \<Rightarrow> 'a list" and removed :: "'e \<Rightarrow> 'a list"
  assumes ok_step: "ok q \<Longrightarrow> step q e q' \<Longrightarrow> ok q'"
    and fifo_step: "ok q \<Longrightarrow> step q e q' \<Longrightarrow> contents q @ inserted e = removed e @ contents q'"
    and run_nil: "run q [] q' \<Longrightarrow> q' = q"
    and run_snoc: "run q (es @ [e]) q' \<Longrightarrow> \<exists>q1. run q es q1 \<and> step q1 e q'"
begin

lemma run_ok: "run q es q' \<Longrightarrow> ok q \<Longrightarrow> ok q'"
proof (induction es arbitrary: q' rule: rev_induct)
  case Nil
  then show ?case using run_nil by blast
next
  case (snoc e es)
  then show ?case using run_snoc ok_step by blast
qed

lemma run_fifo:
  "run q es q' \<Longrightarrow> ok q \<Longrightarrow>
   contents q @ concat (map inserted es) = concat (map removed es) @ contents q'"
proof (induction es arbitrary: q' rule: rev_induct)
  case Nil
  then show ?case using run_nil by fastforce
next
  case (snoc e es)
  then obtain q1 where q1: "run q es q1" "step q1 e q'" using run_snoc by blast
  with snoc.prems have "contents q1 @ inserted e = removed e @ contents q'"
    using run_ok fifo_step by blast
  with snoc.IH[OF q1(1) snoc.prems(2)] show ?case by (simp flip: append_assoc) simp
qed

text \<open>The \<open>k\<close>-th sample to leave an initially empty buffer is the \<open>k\<close>-th that entered it.\<close>

lemma removed_nth:
  assumes "run q es q'" "ok q" "contents q = []" "k < length (concat (map removed es))"
  shows "k < length (concat (map inserted es))"
    "concat (map removed es) ! k = concat (map inserted es) ! k"
proof -
  have e: "concat (map inserted es) = concat (map removed es) @ contents q'"
    using run_fifo[OF assms(1,2)] assms(3) by simp
  show "k < length (concat (map inserted es))"
    using assms(4) e by (metis length_append trans_less_add1)
  show "concat (map removed es) ! k = concat (map inserted es) ! k"
    using assms(4) e by (metis nth_append)
qed

end

text \<open>Samples entering and leaving the main queue, and the queue of validation data.\<close>

fun put_of :: "'a mq_event \<Rightarrow> 'a list" where
  "put_of (EvPut x _) = [x]"
| "put_of _ = []"

fun taken_of :: "'a mq_event \<Rightarrow> 'a list" where
  "taken_of (EvPut _ (Some d)) = [d]"
| "taken_of (EvGot _ x) = [x]"
| "taken_of (EvClear xs) = xs"
| "taken_of _ = []"

fun val_put_of :: "'a mq_event \<Rightarrow> 'a list" where
  "val_put_of (EvPutVal x) = [x]"
| "val_put_of _ = []"

fun val_taken_of :: "'a mq_event \<Rightarrow> 'a list" where
  "val_taken_of (EvGetVal (Some x)) = [x]"
| "val_taken_of _ = []"

lemma get_sample_fifo: "get_sample c q = (r, q') \<Longrightarrow> mq_queue q = taken_of (get_event c r) @ mq_queue q'"
  by (erule get_sample_cases) auto

lemma get_sample_val: "get_sample c q = (r, q') \<Longrightarrow>
    mq_val_queue q' = mq_val_queue q \<and> put_of (get_event c r) = [] \<and>
    val_put_of (get_event c r) = [] \<and> val_taken_of (get_event c r) = []"
  by (erule get_sample_cases) auto

lemma main_fifo_step: "mq_step q e q' \<Longrightarrow> mq_ok q \<Longrightarrow> mq_queue q @ put_of e = taken_of e @ mq_queue q'"
proof (induction rule: mq_step.induct)
  case (put q x q')
  then show ?case by (auto dest!: put_sample_True)
next
  case (put_drop q x q')
  then have "length (mq_queue q) \<le> mq_max_queue_size q" by (simp add: mq_ok_def)
  from put_drop_queue[OF put_drop(1) this] show ?case by simp
next
  case (get c q r q')
  then show ?case using get_sample_fifo get_sample_val by fastforce
next
  case (resume c q r q')
  then show ?case unfolding resume_get_def using get_sample_fifo get_sample_val by fastforce
next
  case (get_val q r q')
  then show ?case by (auto simp: get_validate_def split: list.splits)
qed (auto simp: clear_queue_def shutdown_def put_validate_def)

lemma val_fifo_step: "mq_step q e q' \<Longrightarrow> mq_val_queue q @ val_put_of e = val_taken_of e @ mq_val_queue q'"
proof (induction rule: mq_step.induct)
  case (get c q r q')
  then show ?case using get_sample_val[OF get(2)] by simp
next
  case (resume c q r q')
  then show ?case unfolding resume_get_def using get_sample_val by fastforce
next
  case (get_val q r q')
  then show ?case by (auto simp: get_validate_def split: list.splits)
qed (auto dest!: put_sample_True put_sample_False simp: clear_queue_def shutdown_def put_validate_def)

lemma mq_run_snocD: "mq_run q (es @ [e]) q' \<Longrightarrow> \<exists>q1. mq_run q es q1 \<and> mq_step q1 e q'"
  by (erule mq_run.cases) auto

lemma mq_run_nilD: "mq_run q [] q' \<Longrightarrow> q' = q"
  by (erule mq_run.cases) auto

interpretation samples: fifo_buffer mq_ok mq_queue mq_step mq_run put_of taken_of
  using mq_step_ok main_fifo_step mq_run_nilD mq_run_snocD by unfold_locales blast+

interpretation validation: fifo_buffer "\<lambda>_. True" mq_val_queue mq_step mq_run val_put_of val_taken_of
  using val_fifo_step mq_run_nilD mq_run_snocD by unfold_locales blast+

section \<open>Properties\<close>

text \<open>
  C14. Over any run of the queue from its creation, with any interleaving of producers, waiting and
  resumed consumers, clears and shutdown: the samples put, in order, are the samples that left
  (consumed, dropped or cleared), in order, followed by the samples still queued. So nothing is
  lost, duplicated or reordered. The queue never exceeds its bound, and the validation queue is
  first in, first out alike.
\<close>

theorem message_queue_fifo:
  assumes "mq_init n = Inr q0" "mq_run q0 es q"
  shows "concat (map put_of es) = concat (map taken_of es) @ mq_queue q \<and>
    length (mq_queue q) \<le> mq_max_queue_size q0 \<and>
    concat (map val_put_of es) = concat (map val_taken_of es) @ mq_val_queue q"
proof -
  have "mq_queue q0 = []" "mq_val_queue q0 = []"
    using assms(1) by (auto simp: mq_init_def split: option.splits if_splits)
  moreover have "mq_ok q0" using assms(1) by (rule mq_init_ok)
  ultimately show ?thesis
    using samples.run_fifo[OF assms(2)] validation.run_fifo[OF assms(2)] mq_run_ok[OF assms(2)]
    by (simp add: mq_ok_def)
qed

lemma mq_run_two:
  assumes "mq_step q a q1" "mq_step q1 b q2"
  shows "mq_run q [a, b] q2"
proof -
  have "mq_run q ([] @ [a]) q1" using mq_run.start assms(1) by (rule mq_run.more)
  then show ?thesis using mq_run.more[OF _ assms(2), of q "[a]"] by simp
qed

definition demo_queue :: "nat message_queue" where
  "demo_queue = \<lparr>mq_max_queue_size = 1, mq_queue = [], mq_val_queue = [], mq_running = True,
     mq_total_produced = 0, mq_total_consumed = 0, mq_dropped_samples = 0, mq_waiting = {}, mq_notified = {}\<rparr>"

lemma demo_init: "mq_init (Some 1) = Inr demo_queue"
  by (simp add: mq_init_def demo_queue_def)

text \<open>Two puts into a queue of one: the first sample is dropped.\<close>

lemma demo_run:
  "mq_run demo_queue [EvPut 7 None, EvPut 8 (Some 7)]
     (demo_queue\<lparr>mq_queue := [8], mq_total_produced := 2, mq_dropped_samples := 1\<rparr>)"
proof -
  have 1: "mq_step demo_queue (EvPut 7 None) (demo_queue\<lparr>mq_queue := [7], mq_total_produced := 1\<rparr>)"
    by (rule mq_step.put) (simp add: put_sample_def demo_queue_def deque_append_def notify_all_def)
  have 2: "mq_step (demo_queue\<lparr>mq_queue := [7], mq_total_produced := 1\<rparr>)
      (EvPut 8 (Some (hd (mq_queue (demo_queue\<lparr>mq_queue := [7], mq_total_produced := 1\<rparr>)))))
      (demo_queue\<lparr>mq_queue := [8], mq_total_produced := 2, mq_dropped_samples := 1\<rparr>)"
    by (rule mq_step.put_drop) (simp add: put_sample_def demo_queue_def deque_append_def notify_all_def)
  from mq_run_two[OF 1 2] show ?thesis by simp
qed

lemma message_queue_fifo_witness:
  "concat (map put_of [EvPut (7 :: nat) None, EvPut 8 (Some 7)])
     = concat (map taken_of [EvPut 7 None, EvPut 8 (Some 7)]) @ [8]"
  using message_queue_fifo[OF demo_init demo_run] by simp

text \<open>The samples of an event by the way they leave.\<close>

fun consumed_of :: "'a mq_event \<Rightarrow> 'a list" where
  "consumed_of (EvGot _ x) = [x]"
| "consumed_of _ = []"

fun dropped_of :: "'a mq_event \<Rightarrow> 'a list" where
  "dropped_of (EvPut _ (Some d)) = [d]"
| "dropped_of _ = []"

fun cleared_of :: "'a mq_event \<Rightarrow> 'a list" where
  "cleared_of (EvClear xs) = xs"
| "cleared_of _ = []"

lemma get_sample_counts:
  assumes "get_sample c q = (r, q')"
  shows "mq_total_produced q' = mq_total_produced q"
    "mq_total_consumed q' = mq_total_consumed q + length (consumed_of (get_event c r))"
    "mq_dropped_samples q' = mq_dropped_samples q" "dropped_of (get_event c r) = []"
    "mq_running q' = mq_running q"
  using assms by (auto elim!: get_sample_cases)

lemma mq_step_counts:
  "mq_step q e q' \<Longrightarrow>
   mq_total_produced q' = mq_total_produced q + length (put_of e) \<and>
   mq_total_consumed q' = mq_total_consumed q + length (consumed_of e) \<and>
   mq_dropped_samples q' = mq_dropped_samples q + length (dropped_of e) \<and>
   (mq_running q' \<longleftrightarrow> mq_running q \<and> e \<noteq> EvShutdown)"
proof (induction rule: mq_step.induct)
  case (get c q r q')
  then show ?case using get_sample_counts[OF get(2)] get_sample_val[OF get(2)] by (cases r) auto
next
  case (resume c q r q')
  then show ?case unfolding resume_get_def
    using get_sample_counts get_sample_val by (cases r) fastforce+
next
  case (get_val q r q')
  then show ?case using get_validate_fields[OF get_val(1)] by simp
qed (auto dest!: put_sample_True put_sample_False simp: clear_queue_def shutdown_def put_validate_def)

lemma mq_run_counts:
  "mq_run q es q' \<Longrightarrow>
   mq_total_produced q' = mq_total_produced q + length (concat (map put_of es)) \<and>
   mq_total_consumed q' = mq_total_consumed q + length (concat (map consumed_of es)) \<and>
   mq_dropped_samples q' = mq_dropped_samples q + length (concat (map dropped_of es)) \<and>
   (mq_running q' \<longleftrightarrow> mq_running q \<and> EvShutdown \<notin> set es)"
  by (induction rule: mq_run.induct) (auto dest!: mq_step_counts)

lemma length_taken_of: "length (taken_of e) = length (consumed_of e) + length (dropped_of e) + length (cleared_of e)"
  by (cases e rule: taken_of.cases) auto

lemma length_concat_taken:
  "length (concat (map taken_of es)) = length (concat (map consumed_of es))
     + length (concat (map dropped_of es)) + length (concat (map cleared_of es))"
  by (induction es) (auto simp: length_taken_of)

text \<open>
  The statistics are exact at every moment: the counters are the numbers of samples put,
  consumed and dropped so far; and the samples produced are those consumed, dropped, cleared and
  still queued. Samples removed by \<open>clear_queue\<close> are in none of the reported counters.
\<close>

theorem message_queue_statistics:
  assumes "mq_init n = Inr q0" "mq_run q0 es q"
  shows "get_statistics q =
      [(''queue_size'', length (mq_queue q)),
       (''total_produced'', length (concat (map put_of es))),
       (''total_consumed'', length (concat (map consumed_of es))),
       (''dropped_samples'', length (concat (map dropped_of es))),
       (''max_queue_size'', mq_max_queue_size q0)] \<and>
    mq_total_produced q = mq_total_consumed q + mq_dropped_samples q
      + length (concat (map cleared_of es)) + length (mq_queue q)"
proof -
  have zero: "mq_total_produced q0 = 0" "mq_total_consumed q0 = 0" "mq_dropped_samples q0 = 0"
      "mq_queue q0 = []"
    using assms(1) by (auto simp: mq_init_def split: option.splits if_splits)
  have ok: "mq_ok q0" using assms(1) by (rule mq_init_ok)
  have fifo: "concat (map put_of es) = concat (map taken_of es) @ mq_queue q"
    using samples.run_fifo[OF assms(2) ok] zero(4) by simp
  have "length (concat (map put_of es)) = length (concat (map taken_of es)) + length (mq_queue q)"
    unfolding fifo by simp
  then show ?thesis
    using mq_run_counts[OF assms(2)] mq_run_ok[OF assms(2) ok] zero
    unfolding get_statistics_def length_concat_taken by simp
qed

lemma message_queue_statistics_example:
  "get_statistics (demo_queue\<lparr>mq_queue := [8], mq_total_produced := 2, mq_dropped_samples := 1\<rparr>)
     = [(''queue_size'', 1), (''total_produced'', 2), (''total_consumed'', 0), (''dropped_samples'', 1),
        (''max_queue_size'', 1)]"
  using message_queue_statistics[OF demo_init demo_run] by (simp add: demo_queue_def)

text \<open>
  C15. No consumer sleeps through a sample or the shutdown: in every reachable state a consumer that
  waits without having been notified finds the queue empty and running. After a shutdown,
  \<open>get_sample\<close> never blocks again: it drains what is left in order and then answers that the queue
  is closed.
\<close>

theorem message_queue_no_lost_wakeup:
  assumes "mq_init n = Inr q0" "mq_run q0 es q"
  shows "(c \<in> mq_waiting q \<longrightarrow> mq_queue q = [] \<and> mq_running q) \<and>
    (EvShutdown \<in> set es \<longrightarrow> mq_waiting q = {} \<and>
       fst (get_sample d q) = (case mq_queue q of [] \<Rightarrow> Closed | x # xs \<Rightarrow> Got x (length xs)))"
proof -
  have "mq_ok q" using mq_run_ok[OF assms(2) mq_init_ok[OF assms(1)]] by simp
  then show ?thesis
    using mq_run_counts[OF assms(2)] by (auto simp: mq_ok_def get_sample_def split: list.splits)
qed

lemma message_queue_no_lost_wakeup_witness:
  "fst (get_sample 0 (shutdown (demo_queue\<lparr>mq_waiting := {5}\<rparr>))) = Closed"
proof -
  have 1: "mq_step demo_queue (get_event 5 Blocked) (demo_queue\<lparr>mq_waiting := {5}\<rparr>)"
    by (rule mq_step.get) (simp_all add: get_sample_def demo_queue_def)
  have r: "mq_run demo_queue [get_event 5 Blocked, EvShutdown] (shutdown (demo_queue\<lparr>mq_waiting := {5}\<rparr>))"
    by (rule mq_run_two[OF 1 mq_step.shutdown])
  from message_queue_no_lost_wakeup[OF demo_init r, of 5 0] show ?thesis
    by (simp add: shutdown_def demo_queue_def)
qed

text \<open>With a capacity of zero every \<open>put_sample\<close> raises \<open>IndexError\<close>.\<close>

lemma zero_capacity_put_raises:
  assumes "mq_init (Some 0) = Inr q0" "mq_run q0 es q"
  shows "put_sample q x = Inl IndexError"
proof -
  have "mq_max_queue_size q0 = 0" using assms(1) by (auto simp: mq_init_def)
  then have "mq_max_queue_size q = 0" "mq_queue q = []"
    using mq_run_ok[OF assms(2) mq_init_ok[OF assms(1)]] by (auto simp: mq_ok_def)
  then show ?thesis by (simp add: put_sample_def)
qed

end
