(* ===== verification/DataProto.thy ===== *)
theory DataProto
  imports PyValues
begin

text \<open>
  \<open>verl/protocol.py\<close>: the batch container that moves between the controller and the workers. A
  tensor of the batch is the list of its rows, the rows of any type; so is an array of the
  non-tensor batch. A tensordict is its batch size and its items. A device is not part of the model.
  Methods that update \<open>self\<close> return the new object; references shared between objects are not modelled.
\<close>

section \<open>The container\<close>

record 'a tensordict =
  td_batch_size :: nat
  td_items :: "(string \<times> 'a list) list"

record ('a, 'b) data_proto =
  dp_batch :: "'a tensordict option"
  dp_non_tensor :: "(string \<times> 'b list) list"
  dp_meta :: pydict

text \<open>\<open>TensorDict(source, batch_size)\<close> refuses items of another length.\<close>

definition mk_tensordict :: "(string \<times> 'a list) list \<Rightarrow> nat \<Rightarrow> 'a tensordict res" where
  "mk_tensordict items n =
     (if \<forall>(k, v) \<in> set items. length v = n then Inr \<lparr>td_batch_size = n, td_items = items\<rparr>
      else Inl (RuntimeError ''batch dimension mismatch''))"

text \<open>\<open>__post_init__\<close>: every object is checked when it is made.\<close>

definition check_consistency :: "('a, 'b) data_proto \<Rightarrow> unit res" where
  "check_consistency d =
     (case dp_batch d of
        None \<Rightarrow> Inr ()
      | Some b \<Rightarrow>
          if \<forall>(k, v) \<in> set (dp_non_tensor d). length v = td_batch_size b then Inr ()
          else Inl (AssertionError ''key length is not equal to batch size''))"

definition mk_proto ::
  "'a tensordict option \<Rightarrow> (string \<times> 'b list) list \<Rightarrow> pydict \<Rightarrow> ('a, 'b) data_proto res" where
  "mk_proto b nt meta =
     (let d = \<lparr>dp_batch = b, dp_non_tensor = nt, dp_meta = meta\<rparr>
      in bind_res (check_consistency d) (\<lambda>_. Inr d))"

definition dp_len :: "('a, 'b) data_proto \<Rightarrow> nat" where
  "dp_len d =
     (case dp_batch d of
        Some b \<Rightarrow> td_batch_size b
      | None \<Rightarrow> (case dp_non_tensor d of [] \<Rightarrow> 0 | (k, v) # _ \<Rightarrow> length v))"

definition auto_padding_key :: string where
  "auto_padding_key = ''_verl_auto_padding''"

text \<open>\<open>from_dict\<close> with one batch dimension: all tensors as long as the first.\<close>

definition from_dict ::
  "(string \<times> 'a list) list \<Rightarrow> (string \<times> 'b list) list \<Rightarrow> pydict \<Rightarrow> bool \<Rightarrow> ('a, 'b) data_proto res" where
  "from_dict tensors non_tensors meta auto_padding =
     (let meta' = (if auto_padding then d_set auto_padding_key (PBool True) meta else meta)
      in case tensors of
           [] \<Rightarrow> mk_proto None non_tensors meta'
         | (pivot, t) # _ \<Rightarrow>
             if \<forall>(k, v) \<in> set tensors. length v = length t
             then bind_res (mk_tensordict tensors (length t)) (\<lambda>b. mk_proto (Some b) non_tensors meta')
             else Inl (AssertionError ''Not all the tensor in tensors have the same batch size''))"

datatype ('a, 'b) single_value = TensorVal "'a list" | ArrayVal "'b list" | OtherVal

fun split_single :: "(string \<times> ('a, 'b) single_value) list
    \<Rightarrow> ((string \<times> 'a list) list \<times> (string \<times> 'b list) list) res" where
  "split_single [] = Inr ([], [])"
| "split_single ((k, v) # rest) =
     (case v of
        OtherVal \<Rightarrow> Inl (ValueError ''Unsupported type in data'')
      | TensorVal t \<Rightarrow> bind_res (split_single rest) (\<lambda>(ts, ns). Inr ((k, t) # ts, ns))
      | ArrayVal n \<Rightarrow> bind_res (split_single rest) (\<lambda>(ts, ns). Inr (ts, (k, n) # ns)))"

definition from_single_dict ::
  "(string \<times> ('a, 'b) single_value) list \<Rightarrow> pydict \<Rightarrow> bool \<Rightarrow> ('a, 'b) data_proto res" where
  "from_single_dict data meta auto_padding =
     bind_res (split_single data) (\<lambda>(ts, ns). from_dict ts ns meta auto_padding)"

section \<open>Selecting rows\<close>

definition map_values :: "('v \<Rightarrow> 'w) \<Rightarrow> (string \<times> 'v) list \<Rightarrow> (string \<times> 'w) list" where
  "map_values f d = map (\<lambda>(k, v). (k, f v)) d"

definition map_values_res :: "('v \<Rightarrow> 'w res) \<Rightarrow> (string \<times> 'v) list \<Rightarrow> (string \<times> 'w) list res" where
  "map_values_res f d = map_res (\<lambda>(k, v). map_sum id (Pair k) (f v)) d"

text \<open>
  The indices of a Python slice over a sequence of length \<open>n\<close>, as \<open>slice.indices\<close> computes them.
  Tensors refuse steps below one; an array takes any step but zero.
\<close>

definition slice_bounds :: "nat \<Rightarrow> int option \<Rightarrow> int option \<Rightarrow> int \<Rightarrow> int \<times> int" where
  "slice_bounds n start stop step =
     (let lo = (if step < 0 then - 1 else 0);
          hi = (if step < 0 then int n - 1 else int n);
          clip = (\<lambda>i. let j = (if i < 0 then i + int n else i) in max lo (min hi j))
      in ((case start of None \<Rightarrow> if step < 0 then hi else lo | Some i \<Rightarrow> clip i),
          (case stop of None \<Rightarrow> if step < 0 then lo else hi | Some i \<Rightarrow> clip i)))"

definition slice_indices :: "nat \<Rightarrow> int option \<Rightarrow> int option \<Rightarrow> int \<Rightarrow> nat list" where
  "slice_indices n start stop step =
     (let (a, b) = slice_bounds n start stop step;
          count = (if 0 < step then (b - a + step - 1) div step else (a - b - step - 1) div (- step))
      in map (\<lambda>k. nat (a + int k * step)) [0..<nat count])"

definition take_idx :: "nat list \<Rightarrow> 'a list \<Rightarrow> 'a list" where
  "take_idx is xs = map ((!) xs) is"

definition dp_slice ::
  "('a, 'b) data_proto \<Rightarrow> int option \<Rightarrow> int option \<Rightarrow> int option \<Rightarrow> ('a, 'b) data_proto res" where
  "dp_slice d start stop step =
     (let st = (case step of None \<Rightarrow> 1 | Some s \<Rightarrow> s);
          cut = (\<lambda>n. slice_indices n start stop st)
      in if st = 0 \<and> (dp_batch d \<noteq> None \<or> dp_non_tensor d \<noteq> [])
           \<or> st < 0 \<and> (\<exists>b. dp_batch d = Some b \<and> td_items b \<noteq> []) then Inl (ValueError ''slice step'')
         else mk_proto
           (map_option (\<lambda>b. let is = cut (td_batch_size b)
               in \<lparr>td_batch_size = length is, td_items = map_values (take_idx is) (td_items b)\<rparr>) (dp_batch d))
           (map_values (\<lambda>v. take_idx (cut (length v)) v) (dp_non_tensor d)) (dp_meta d))"

text \<open>Lists of indices, which wrap once below zero, or a mask of booleans.\<close>

datatype idxs = IntIdx "int list" | BoolIdx "bool list"

definition resolve_idxs :: "nat \<Rightarrow> idxs \<Rightarrow> nat list res" where
  "resolve_idxs n ix =
     (case ix of
        IntIdx is \<Rightarrow>
          map_res (\<lambda>i. let j = (if i < 0 then i + int n else i)
                       in if 0 \<le> j \<and> j < int n then Inr (nat j) else Inl IndexError) is
      | BoolIdx bs \<Rightarrow>
          if length bs = n then Inr (map fst (filter snd (zip [0..<n] bs))) else Inl IndexError)"

definition idx_count :: "idxs \<Rightarrow> nat" where
  "idx_count ix = (case ix of IntIdx is \<Rightarrow> length is | BoolIdx bs \<Rightarrow> length (filter id bs))"

definition select_rows :: "idxs \<Rightarrow> 'a list \<Rightarrow> 'a list res" where
  "select_rows ix v = map_sum id (\<lambda>is. take_idx is v) (resolve_idxs (length v) ix)"

definition select_idxs :: "('a, 'b) data_proto \<Rightarrow> idxs \<Rightarrow> ('a, 'b) data_proto res" where
  "select_idxs d ix =
     bind_res (case dp_batch d of
         None \<Rightarrow> Inr None
       | Some b \<Rightarrow> bind_res (map_values_res (select_rows ix) (td_items b))
                    (\<lambda>items. map_sum id Some (mk_tensordict items (idx_count ix)))) (\<lambda>b'.
     bind_res (map_values_res (select_rows ix) (dp_non_tensor d)) (\<lambda>nt.
       mk_proto b' nt (dp_meta d)))"

text \<open>\<open>d[i]\<close> with a single integer: one row of every column.\<close>

record ('a, 'b) proto_item =
  it_batch :: "(string \<times> 'a) list option"
  it_non_tensor :: "(string \<times> 'b) list"
  it_meta :: pydict

definition get_row :: "int \<Rightarrow> 'a list \<Rightarrow> 'a res" where
  "get_row i v =
     (let n = int (length v); j = (if i < 0 then i + n else i)
      in if 0 \<le> j \<and> j < n then Inr (v ! nat j) else Inl IndexError)"

definition get_item :: "('a, 'b) data_proto \<Rightarrow> int \<Rightarrow> ('a, 'b) proto_item res" where
  "get_item d i =
     bind_res (case dp_batch d of
         None \<Rightarrow> Inr None
       | Some b \<Rightarrow> map_sum id Some (map_values_res (get_row i) (td_items b))) (\<lambda>b.
     bind_res (map_values_res (get_row i) (dp_non_tensor d)) (\<lambda>nt.
       Inr \<lparr>it_batch = b, it_non_tensor = nt, it_meta = dp_meta d\<rparr>))"

section \<open>Selecting, moving and joining columns\<close>

definition keep_keys :: "string list option \<Rightarrow> (string \<times> 'v) list \<Rightarrow> (string \<times> 'v) list" where
  "keep_keys ks d = (case ks of None \<Rightarrow> d | Some l \<Rightarrow> filter (\<lambda>(k, _). k \<in> set l) d)"

text \<open>\<open>TensorDict.select\<close> refuses a key that is not there.\<close>

definition dp_select ::
  "('a, 'b) data_proto \<Rightarrow> string list option \<Rightarrow> string list option \<Rightarrow> string list option
   \<Rightarrow> ('a, 'b) data_proto res" where
  "dp_select d batch_keys nt_keys meta_keys =
     bind_res (case batch_keys of
         None \<Rightarrow> Inr (dp_batch d)
       | Some ks \<Rightarrow>
           (case dp_batch d of
              None \<Rightarrow> Inl (TypeError ''NoneType has no attribute select'')
            | Some b \<Rightarrow> if set ks \<subseteq> fst ` set (td_items b)
                        then Inr (Some (b\<lparr>td_items := keep_keys (Some ks) (td_items b)\<rparr>))
                        else Inl (KeyError ''key not in tensordict''))) (\<lambda>b.
       mk_proto b (keep_keys nt_keys (dp_non_tensor d)) (keep_keys meta_keys (dp_meta d)))"

fun pop_keys :: "string list \<Rightarrow> (string \<times> 'v) list \<Rightarrow> ((string \<times> 'v) list \<times> (string \<times> 'v) list) res" where
  "pop_keys [] d = Inr ([], d)"
| "pop_keys (k # ks) d =
     (case map_of d k of
        None \<Rightarrow> Inl (AssertionError k)
      | Some v \<Rightarrow> bind_res (pop_keys ks (filter (\<lambda>(j, _). j \<noteq> k) d)) (\<lambda>(out, rest).
                  Inr (d_set k v out, rest)))"

text \<open>The popped columns, and what is left of the object.\<close>

definition dp_pop ::
  "('a, 'b) data_proto \<Rightarrow> string list \<Rightarrow> string list \<Rightarrow> string list
   \<Rightarrow> (('a, 'b) data_proto \<times> ('a, 'b) data_proto) res" where
  "dp_pop d batch_keys nt_keys meta_keys =
     bind_res (case dp_batch d of
         None \<Rightarrow> if batch_keys = [] then Inr ([], None) else Inl (TypeError ''NoneType has no attribute keys'')
       | Some b \<Rightarrow> map_sum id (\<lambda>(out, rest). (out, Some (b\<lparr>td_items := rest\<rparr>))) (pop_keys batch_keys (td_items b)))
       (\<lambda>(tensors, b').
     bind_res (pop_keys nt_keys (dp_non_tensor d)) (\<lambda>(nts, nt').
     bind_res (pop_keys meta_keys (dp_meta d)) (\<lambda>(ms, m').
     bind_res (from_dict tensors nts ms False) (\<lambda>popped.
       Inr (popped, \<lparr>dp_batch = b', dp_non_tensor = nt', dp_meta = m'\<rparr>)))))"

definition rename_key :: "(string \<times> string) list \<Rightarrow> string \<Rightarrow> string" where
  "rename_key ren k = (case map_of ren k of None \<Rightarrow> k | Some j \<Rightarrow> j)"

text \<open>Renaming tensors; keys that are absent, or new names that are taken, are refused.\<close>

definition dp_rename ::
  "('a, 'b) data_proto \<Rightarrow> string list \<Rightarrow> string list \<Rightarrow> ('a, 'b) data_proto res" where
  "dp_rename d old_keys new_keys =
     (if length new_keys \<noteq> length old_keys
      then Inl (ValueError ''new_keys and old_keys must have the same length'')
      else case dp_batch d of
             None \<Rightarrow> Inl (TypeError ''NoneType has no attribute rename_key_'')
           | Some b \<Rightarrow>
               let keys = map fst (td_items b)
               in if \<not> set old_keys \<subseteq> set keys then Inl (KeyError ''key not in tensordict'')
                  else if \<exists>k \<in> set new_keys. k \<in> set keys \<and> k \<notin> set old_keys
                  then Inl (KeyError ''key already present in tensordict'')
                  else Inr (d\<lparr>dp_batch := Some (b\<lparr>td_items :=
                         map (\<lambda>(k, v). (rename_key (zip old_keys new_keys) k, v)) (td_items b)\<rparr>)\<rparr>))"

text \<open>
  The union keeps the first object's tensors. \<open>same w v\<close> is \<open>Tensor.equal\<close>, which for rows with NaN is
  not the identity.
\<close>

definition union_tensor_dict ::
  "('a list \<Rightarrow> 'a list \<Rightarrow> bool) \<Rightarrow> 'a tensordict \<Rightarrow> 'a tensordict \<Rightarrow> 'a tensordict res" where
  "union_tensor_dict same t1 t2 =
     (if td_batch_size t1 \<noteq> td_batch_size t2
      then Inl (AssertionError ''Two tensor dict must have identical batch size'')
      else if \<exists>(k, v) \<in> set (td_items t2). \<exists>w. map_of (td_items t1) k = Some w \<and> \<not> same w v
      then Inl (AssertionError ''key in tensor_dict1 and tensor_dict2 are not the same object'')
      else Inr (t1\<lparr>td_items := td_items t1 @ filter (\<lambda>(k, _). map_of (td_items t1) k = None) (td_items t2)\<rparr>))"

text \<open>
  The two other dictionaries: the values under a common key must be the same, else an assertion
  fails. \<open>same\<close> is \<open>_deep_equal\<close> for arrays and \<open>==\<close> for the meta information.
\<close>

definition union_dict ::
  "('v \<Rightarrow> 'v \<Rightarrow> bool) \<Rightarrow> (string \<times> 'v) list \<Rightarrow> (string \<times> 'v) list \<Rightarrow> (string \<times> 'v) list res" where
  "union_dict same d1 d2 =
     (if \<exists>(k, v) \<in> set d2. \<exists>w. map_of d1 k = Some w \<and> \<not> same w v
      then Inl (AssertionError ''key in dict1 and dict2 are not the same object'')
      else Inr (d_update d1 d2))"

definition dp_union ::
  "('a list \<Rightarrow> 'a list \<Rightarrow> bool) \<Rightarrow> ('b list \<Rightarrow> 'b list \<Rightarrow> bool) \<Rightarrow> ('a, 'b) data_proto
   \<Rightarrow> ('a, 'b) data_proto \<Rightarrow> ('a, 'b) data_proto res" where
  "dp_union same_t same_a d other =
     (case (dp_batch d, dp_batch other) of
        (Some b1, Some b2) \<Rightarrow>
          bind_res (union_tensor_dict same_t b1 b2) (\<lambda>b.
          bind_res (union_dict same_a (dp_non_tensor d) (dp_non_tensor other)) (\<lambda>nt.
          bind_res (union_dict py_eq (dp_meta d) (dp_meta other)) (\<lambda>m.
            Inr \<lparr>dp_batch = Some b, dp_non_tensor = nt, dp_meta = m\<rparr>)))
      | _ \<Rightarrow> Inl (TypeError ''NoneType has no attribute batch_size''))"

section \<open>Joining and splitting rows\<close>

text \<open>\<open>list_of_dict_to_dict_of_list\<close>: every key of a later dictionary must be in the first.\<close>

definition push_item :: "string \<Rightarrow> 'v \<Rightarrow> (string \<times> 'v list) list \<Rightarrow> (string \<times> 'v list) list res" where
  "push_item k v out =
     (case map_of out k of
        None \<Rightarrow> Inl (AssertionError ''Key is not present in the keys of the first dictionary'')
      | Some vs \<Rightarrow> Inr (d_set k (vs @ [v]) out))"

fun push_items :: "(string \<times> 'v) list \<Rightarrow> (string \<times> 'v list) list \<Rightarrow> (string \<times> 'v list) list res" where
  "push_items [] out = Inr out"
| "push_items ((k, v) # d) out = bind_res (push_item k v out) (push_items d)"

definition list_of_dict_to_dict_of_list :: "(string \<times> 'v) list list \<Rightarrow> (string \<times> 'v list) list res" where
  "list_of_dict_to_dict_of_list ds =
     (case ds of
        [] \<Rightarrow> Inr []
      | d0 # _ \<Rightarrow> push_items (concat ds) (map_values (\<lambda>_. []) d0))"

text \<open>\<open>torch.cat\<close> of tensordicts: the same keys in all of them, in the order of the first.\<close>

definition td_cat :: "'a tensordict list \<Rightarrow> 'a tensordict res" where
  "td_cat bs =
     (case bs of
        [] \<Rightarrow> Inl (RuntimeError ''expected a non-empty list of tensordicts'')
      | b0 # _ \<Rightarrow>
          if \<forall>b \<in> set bs. fst ` set (td_items b) = fst ` set (td_items b0)
          then Inr \<lparr>td_batch_size = sum_list (map td_batch_size bs),
                    td_items = map (\<lambda>(k, _). (k, concat (map (\<lambda>b. the_default [] (map_of (td_items b) k)) bs)))
                      (td_items b0)\<rparr>
          else Inl (KeyError ''the sets of keys in the tensordicts differ''))"

text \<open>
  The meta information of the parts: metrics are collected, other keys must agree. The state of the
  loop is the merged dictionary and the metrics collected so far.
\<close>

fun merge_entries ::
  "(string \<times> pyval) list \<Rightarrow> pydict \<times> pyval list \<Rightarrow> (pydict \<times> pyval list) res" where
  "merge_entries [] st = Inr st"
| "merge_entries ((k, v) # kvs) (m, ms) =
     (if k = ''metrics'' then
        merge_entries kvs (m, (case v of PNone \<Rightarrow> ms | PList vs \<Rightarrow> ms @ vs | _ \<Rightarrow> ms @ [v]))
      else case map_of m k of
             Some w \<Rightarrow> if py_eq w v then merge_entries kvs (m, ms)
                       else Inl (AssertionError ''Conflicting values for meta_info key'')
           | None \<Rightarrow> merge_entries kvs (d_set k v m, ms))"

definition metrics_dict :: "pyval \<Rightarrow> pydict res" where
  "metrics_dict v = (case v of PDict d \<Rightarrow> Inr d | _ \<Rightarrow> Inl (TypeError ''object has no attribute items''))"

definition merge_meta :: "pydict list \<Rightarrow> pydict res" where
  "merge_meta ds =
     bind_res (merge_entries (concat ds) ([], [])) (\<lambda>(m, ms).
       if ms = [] then Inr m
       else bind_res (map_res metrics_dict ms) (\<lambda>dicts.
            bind_res (list_of_dict_to_dict_of_list dicts) (\<lambda>out.
              Inr (d_set ''metrics'' (PDict (map_values PList out)) m))))"

definition need_batch :: "('a, 'b) data_proto \<Rightarrow> 'a tensordict res" where
  "need_batch d = (case dp_batch d of None \<Rightarrow> Inl (TypeError ''expected a TensorDict, got None'') | Some b \<Rightarrow> Inr b)"

definition dp_concat :: "('a, 'b) data_proto list \<Rightarrow> ('a, 'b) data_proto res" where
  "dp_concat ds =
     (case ds of
        [] \<Rightarrow> Inl IndexError
      | d0 # _ \<Rightarrow>
          bind_res (if dp_batch d0 = None then Inr None
                    else bind_res (map_res need_batch ds) (\<lambda>bs. map_sum id Some (td_cat bs))) (\<lambda>b.
          bind_res (list_of_dict_to_dict_of_list (map dp_non_tensor ds)) (\<lambda>nt.
          bind_res (merge_meta (map dp_meta ds)) (\<lambda>m.
            mk_proto b (map_values concat nt) m))))"

text \<open>
  Splitting. \<open>auto\<close> is the global \<open>DataProtoConfig.auto_padding\<close>. \<open>TensorDict.chunk\<close> splits by the rounded-up
  size and may give fewer chunks; \<open>np.array_split\<close> takes the starts of the chunks or their number. What
  the library does with a batch of no rows depends on its version; here it is an error.
\<close>

definition is_padding_enabled :: "bool \<Rightarrow> ('a, 'b) data_proto \<Rightarrow> bool" where
  "is_padding_enabled auto d \<longleftrightarrow> truthy (d_get_or auto_padding_key (PBool False) (dp_meta d)) \<or> auto"

definition chunk_lengths :: "nat \<Rightarrow> nat \<Rightarrow> nat list" where
  "chunk_lengths n k = (let c = (n + k - 1) div k in map length (chunks_of c [0..<n]))"

definition section_lengths :: "nat \<Rightarrow> nat \<Rightarrow> nat list" where
  "section_lengths n k = replicate (n mod k) (n div k + 1) @ replicate (k - n mod k) (n div k)"

fun split_lengths :: "nat list \<Rightarrow> 'v list \<Rightarrow> 'v list list" where
  "split_lengths [] xs = []"
| "split_lengths (n # ns) xs = take n xs # split_lengths ns (drop n xs)"

definition array_split :: "nat list \<Rightarrow> 'v list \<Rightarrow> 'v list list" where
  "array_split ns xs =
     (if ns = [] then [xs]
      else split_lengths (butlast ns) xs @ [drop (sum_list (butlast ns)) xs])"

definition nt_chunks ::
  "nat list \<Rightarrow> nat \<Rightarrow> (string \<times> 'b list) list \<Rightarrow> (string \<times> 'b list) list list res" where
  "nt_chunks ns k nt =
     (if \<forall>(key, v) \<in> set nt. length (array_split ns v) = k
      then Inr (map (\<lambda>i. map_values (\<lambda>v. array_split ns v ! i) nt) [0..<k])
      else Inl (AssertionError ''len(non_tensor_lst) == chunks''))"

definition dp_chunk :: "bool \<Rightarrow> ('a, 'b) data_proto \<Rightarrow> nat \<Rightarrow> ('a, 'b) data_proto list res" where
  "dp_chunk auto d k =
     (if \<not> is_padding_enabled auto d \<and> k = 0 then Inl ZeroDivisionError
      else if \<not> is_padding_enabled auto d \<and> dp_len d mod k \<noteq> 0
      then Inl (AssertionError ''only support equal chunk'')
      else case dp_batch d of
        Some b \<Rightarrow>
          if k = 0 then Inl (ValueError ''chunks must be a strictly positive integer'')
          else if td_batch_size b = 0 then Inl (RuntimeError ''split_size must be positive'')
          else
            let ns = chunk_lengths (td_batch_size b) k;
                bs = map (\<lambda>i. \<lparr>td_batch_size = ns ! i,
                       td_items = map_values (\<lambda>v. split_lengths ns v ! i) (td_items b)\<rparr>) [0..<length ns]
            in bind_res (nt_chunks ns k (dp_non_tensor d)) (\<lambda>nts.
                 map_res (\<lambda>i. if i < length bs then mk_proto (Some (bs ! i)) (nts ! i) (dp_meta d)
                              else Inl IndexError) [0..<k])
      | None \<Rightarrow>
          if k = 0 then (if dp_non_tensor d = [] then Inr [] else Inl (ValueError ''number sections must be larger than 0''))
          else map_res (\<lambda>i. mk_proto None
                 (map_values (\<lambda>v. split_lengths (section_lengths (length v) k) v ! i) (dp_non_tensor d)) (dp_meta d)) [0..<k])"

definition dp_split :: "('a, 'b) data_proto \<Rightarrow> nat \<Rightarrow> ('a, 'b) data_proto list res" where
  "dp_split d n =
     (if n = 0 then Inl (ValueError ''range() arg 3 must not be zero'')
      else map_res (\<lambda>i. dp_slice d (Some (int (i * n))) (Some (int (i * n + n))) None)
             [0..<(dp_len d + n - 1) div n])"

text \<open>Padding to a multiple: the rows from the front, as often as needed.\<close>

function pad_takes :: "nat \<Rightarrow> nat \<Rightarrow> nat list" where
  "pad_takes remaining n =
     (if 0 < remaining \<and> 0 < n
      then (let t = min remaining n in t # pad_takes (remaining - t) n) else [])"
  by pat_completeness auto
termination
  by (relation "measure fst") auto

declare pad_takes.simps [simp del]

definition pad_dataproto_to_divisor ::
  "('a, 'b) data_proto \<Rightarrow> nat \<Rightarrow> (('a, 'b) data_proto \<times> nat) res" where
  "pad_dataproto_to_divisor d n =
     (if n = 0 then Inl ZeroDivisionError
      else if dp_len d mod n \<noteq> 0 then
        let pad_size = n - dp_len d mod n
        in bind_res (map_res (\<lambda>t. dp_slice d None (Some (int t)) None) (pad_takes pad_size (dp_len d))) (\<lambda>ps.
           bind_res (dp_concat (d # ps)) (\<lambda>padded. Inr (padded, pad_size)))
      else Inr (d, 0))"

definition unpad_dataproto :: "('a, 'b) data_proto \<Rightarrow> nat \<Rightarrow> ('a, 'b) data_proto res" where
  "unpad_dataproto d pad_size =
     (if pad_size \<noteq> 0 then dp_slice d None (Some (- int pad_size)) None else Inr d)"

section \<open>Repeating and reordering rows\<close>

definition repeat_each :: "nat \<Rightarrow> 'v list \<Rightarrow> 'v list" where
  "repeat_each n xs = concat (map (replicate n) xs)"

definition tile :: "nat \<Rightarrow> 'v list \<Rightarrow> 'v list" where
  "tile n xs = concat (replicate n xs)"

definition dp_repeat :: "('a, 'b) data_proto \<Rightarrow> nat \<Rightarrow> bool \<Rightarrow> ('a, 'b) data_proto res" where
  "dp_repeat d n interleave =
     mk_proto
       (map_option (\<lambda>b. \<lparr>td_batch_size = td_batch_size b * n,
          td_items = map_values (if interleave then repeat_each n else tile n) (td_items b)\<rparr>) (dp_batch d))
       (map_values (if interleave then repeat_each n else tile n) (dp_non_tensor d)) (dp_meta d)"

text \<open>One count per row; a single count is used for all rows.\<close>

definition repeat_rows :: "pyerr \<Rightarrow> nat list \<Rightarrow> 'v list \<Rightarrow> 'v list res" where
  "repeat_rows e rs xs =
     (if length rs = length xs then Inr (concat (map2 replicate rs xs))
      else if length rs = 1 then Inr (repeat_each (hd rs) xs)
      else Inl e)"

definition sample_level_repeat :: "('a, 'b) data_proto \<Rightarrow> nat list \<Rightarrow> ('a, 'b) data_proto res" where
  "sample_level_repeat d rs =
     bind_res (case dp_batch d of
         None \<Rightarrow> Inr None
       | Some b \<Rightarrow>
           bind_res (map_values_res (repeat_rows (RuntimeError ''repeats must have the same size as input'') rs) (td_items b))
             (\<lambda>items. map_sum id Some (mk_tensordict items (sum_list rs)))) (\<lambda>b.
     bind_res (map_values_res (repeat_rows (ValueError ''operands could not be broadcast together'') rs) (dp_non_tensor d))
       (\<lambda>nt. mk_proto b nt (dp_meta d)))"

text \<open>\<open>padding\<close>: the first or the last row, repeated; only the batch and the arrays are replaced.\<close>

definition dp_padding :: "('a, 'b) data_proto \<Rightarrow> nat \<Rightarrow> string \<Rightarrow> ('a, 'b) data_proto res" where
  "dp_padding d padding_size candidate =
     (if padding_size = 0 then Inr d
      else bind_res (select_idxs d (IntIdx [if candidate = ''first'' then 0 else int (dp_len d) - 1])) (\<lambda>c.
           bind_res (dp_repeat c padding_size True) (\<lambda>part.
           bind_res (dp_concat [d, part]) (\<lambda>p.
             Inr (d\<lparr>dp_batch := dp_batch p, dp_non_tensor := dp_non_tensor p\<rparr>)))))"

text \<open>\<open>reorder\<close> works in place, without the check of the constructor.\<close>

definition reorder :: "('a, 'b) data_proto \<Rightarrow> int list \<Rightarrow> ('a, 'b) data_proto res" where
  "reorder d is =
     (case dp_batch d of
        None \<Rightarrow> Inl (TypeError ''NoneType object is not subscriptable'')
      | Some b \<Rightarrow>
          bind_res (map_values_res (select_rows (IntIdx is)) (td_items b)) (\<lambda>items.
          bind_res (map_values_res (select_rows (IntIdx is)) (dp_non_tensor d)) (\<lambda>nt.
            Inr (d\<lparr>dp_batch := Some \<lparr>td_batch_size = length is, td_items = items\<rparr>, dp_non_tensor := nt\<rparr>))))"

text \<open>
  \<open>unfold_column_chunks\<close>, for rows that are lists: a column in \<open>split_keys\<close> has each row cut into
  \<open>n\<close> rows, the others repeat each row. Without \<open>split_keys\<close>, the test \<open>key in split_keys\<close> on the arrays
  is a membership test in \<open>None\<close>.
\<close>

definition cut_row :: "nat \<Rightarrow> 'c list \<Rightarrow> 'c list list" where
  "cut_row n r = (let c = length r div n in map (\<lambda>j. slice (j * c) (j * c + c) r) [0..<n])"

definition cut_rows :: "pyerr \<Rightarrow> nat \<Rightarrow> 'c list list \<Rightarrow> 'c list list res" where
  "cut_rows e n v =
     (if n = 0 then Inl ZeroDivisionError
      else if \<exists>r \<in> set v. length r mod n \<noteq> 0 then Inl e
      else Inr (concat (map (cut_row n) v)))"

definition unfold_column_chunks ::
  "('c list, 'e list) data_proto \<Rightarrow> nat \<Rightarrow> string list option \<Rightarrow> ('c list, 'e list) data_proto res" where
  "unfold_column_chunks d n split_keys =
     bind_res (case dp_batch d of
         None \<Rightarrow> Inr None
       | Some b \<Rightarrow>
           bind_res (map_res (\<lambda>(k, v).
               if (case split_keys of None \<Rightarrow> False | Some ks \<Rightarrow> k \<in> set ks)
               then map_sum id (Pair k) (cut_rows (RuntimeError ''shape is invalid for input'') n v)
               else Inr (k, repeat_each n v)) (td_items b))
             (\<lambda>items. map_sum id Some (mk_tensordict items (td_batch_size b * n)))) (\<lambda>b.
     bind_res (map_res (\<lambda>(k, v).
         case split_keys of
           None \<Rightarrow> Inl (TypeError ''argument of type NoneType is not iterable'')
         | Some ks \<Rightarrow>
             if k \<in> set ks then map_sum id (Pair k) (cut_rows (ValueError ''cannot reshape array'') n v)
             else Inr (k, repeat_each n v)) (dp_non_tensor d)) (\<lambda>nt.
       mk_proto b nt (dp_meta d)))"

section \<open>Iterating\<close>

text \<open>\<open>torch.stack\<close> of the items' rows, and one array per key from the dictionaries.\<close>

definition stack_items :: "(string \<times> 'a) list list \<Rightarrow> (string \<times> 'a list) list res" where
  "stack_items rows =
     (case rows of
        [] \<Rightarrow> Inl (RuntimeError ''list of tensordicts must be non empty'')
      | r0 # _ \<Rightarrow>
          if \<forall>r \<in> set rows. fst ` set r = fst ` set r0
          then Inr (map (\<lambda>(k, x). (k, map (\<lambda>r. the_default x (map_of r k)) rows)) r0)
          else Inl (KeyError ''the sets of keys in the tensordicts differ''))"

definition collate_fn :: "('a, 'b) proto_item list \<Rightarrow> ('a, 'b) data_proto res" where
  "collate_fn items =
     bind_res (map_res (\<lambda>it. case it_batch it of
           None \<Rightarrow> Inl (TypeError ''expected TensorDict, got None'') | Some r \<Rightarrow> Inr r) items) (\<lambda>rows.
     bind_res (stack_items rows) (\<lambda>cols.
     bind_res (list_of_dict_to_dict_of_list (map it_non_tensor items)) (\<lambda>nt.
       mk_proto (Some \<lparr>td_batch_size = length items, td_items = cols\<rparr>) nt [])))"

text \<open>
  The batches of all epochs. \<open>order e\<close> is the order in which the sampler visits the rows in epoch \<open>e\<close>:
  \<open>[0..<len]\<close> unless the loader is told otherwise.
\<close>

definition make_iterator ::
  "(nat \<Rightarrow> nat list) \<Rightarrow> ('a, 'b) data_proto \<Rightarrow> nat \<Rightarrow> nat \<Rightarrow> ('a, 'b) data_proto list res" where
  "make_iterator order d mini_batch_size epochs =
     (case dp_batch d of
        None \<Rightarrow> Inl (TypeError ''NoneType has no attribute batch_size'')
      | Some b \<Rightarrow>
          if mini_batch_size = 0 then Inl ZeroDivisionError
          else if td_batch_size b mod mini_batch_size \<noteq> 0 then Inl (AssertionError ''batch size'')
          else map_res (\<lambda>is.
                 bind_res (map_res (\<lambda>i. get_item d (int i)) is) (\<lambda>items.
                   map_sum id (\<lambda>p. p\<lparr>dp_meta := dp_meta d\<rparr>) (collate_fn items)))
               (concat (map (\<lambda>e. chunks_of mini_batch_size (order e)) [0..<epochs])))"

section \<open>Futures and collection\<close>

text \<open>
  A future holds the results of the workers and, after \<open>chunk\<close>, which of how many chunks it stands
  for; \<open>get\<close> joins the results first and splits afterwards.
\<close>

record ('a, 'b) proto_future =
  fu_results :: "('a, 'b) data_proto list"
  fu_dispatch :: "(nat \<times> nat) option"

definition future_concat :: "('a, 'b) data_proto list \<Rightarrow> ('a, 'b) proto_future" where
  "future_concat rs = \<lparr>fu_results = rs, fu_dispatch = None\<rparr>"

definition future_chunk :: "('a, 'b) proto_future \<Rightarrow> nat \<Rightarrow> ('a, 'b) proto_future list" where
  "future_chunk fu k = map (\<lambda>i. \<lparr>fu_results = fu_results fu, fu_dispatch = Some (i, k)\<rparr>) [0..<k]"

definition future_get :: "bool \<Rightarrow> ('a, 'b) proto_future \<Rightarrow> ('a, 'b) data_proto res" where
  "future_get auto fu =
     bind_res (dp_concat (fu_results fu)) (\<lambda>d.
       case fu_dispatch fu of
         None \<Rightarrow> Inr d
       | Some (i, k) \<Rightarrow> bind_res (dp_chunk auto d k) (\<lambda>cs. if i < length cs then Inr (cs ! i) else Inl IndexError))"

text \<open>
  \<open>all_gather_data_proto\<close>: \<open>ranks\<close> are the objects of the group in rank order; the object of the
  calling rank, \<open>d\<close>, gets the rows of all of them.
\<close>

definition all_gather_data_proto ::
  "('a, 'b) data_proto list \<Rightarrow> ('a, 'b) data_proto \<Rightarrow> ('a, 'b) data_proto res" where
  "all_gather_data_proto ranks d =
     bind_res (map_res need_batch ranks) (\<lambda>bs.
     bind_res (td_cat bs) (\<lambda>b.
     bind_res (map_res (\<lambda>(k, _).
         map_sum id (\<lambda>vs. (k, concat vs))
           (map_res (\<lambda>r. case map_of (dp_non_tensor r) k of None \<Rightarrow> Inl (KeyError k) | Some v \<Rightarrow> Inr v) ranks))
         (dp_non_tensor d)) (\<lambda>nt.
       Inr (d\<lparr>dp_batch := Some b, dp_non_tensor := nt\<rparr>))))"

section \<open>The rows of an object\<close>

text \<open>
  The abstract view: an object is the sequence of its rows, a row one entry per column. An object is
  well formed when all columns have its length; with a batch, the constructors establish this.
\<close>

definition batch_cols :: "('a, 'b) data_proto \<Rightarrow> (string \<times> 'a list) list" where
  "batch_cols d = (case dp_batch d of None \<Rightarrow> [] | Some b \<Rightarrow> td_items b)"

definition cols_wf :: "nat \<Rightarrow> (string \<times> 'v list) list \<Rightarrow> bool" where
  "cols_wf n cols \<longleftrightarrow> distinct (map fst cols) \<and> (\<forall>(k, v) \<in> set cols. length v = n)"

definition dp_wf :: "('a, 'b) data_proto \<Rightarrow> bool" where
  "dp_wf d \<longleftrightarrow> cols_wf (dp_len d) (batch_cols d) \<and> cols_wf (dp_len d) (dp_non_tensor d)"

definition dp_row :: "('a, 'b) data_proto \<Rightarrow> nat \<Rightarrow> (string \<times> 'a) list \<times> (string \<times> 'b) list" where
  "dp_row d i = (map_values (\<lambda>v. v ! i) (batch_cols d), map_values (\<lambda>v. v ! i) (dp_non_tensor d))"

definition dp_rows :: "('a, 'b) data_proto \<Rightarrow> ((string \<times> 'a) list \<times> (string \<times> 'b) list) list" where
  "dp_rows d = map (dp_row d) [0..<dp_len d]"

text \<open>Taking rows by a list of indices: what all the row operations do.\<close>

definition dp_take :: "nat list \<Rightarrow> ('a, 'b) data_proto \<Rightarrow> ('a, 'b) data_proto" where
  "dp_take is d =
     d\<lparr>dp_batch := map_option (\<lambda>b. \<lparr>td_batch_size = length is, td_items = map_values (take_idx is) (td_items b)\<rparr>) (dp_batch d),
       dp_non_tensor := map_values (take_idx is) (dp_non_tensor d)\<rparr>"

named_theorems proto_simps \<open>columns, lengths and rows of data protos\<close>

lemma length_take_idx [simp]: "length (take_idx is xs) = length is"
  by (simp add: take_idx_def)

lemma take_idx_nth [simp]: "j < length is \<Longrightarrow> take_idx is xs ! j = xs ! (is ! j)"
  by (simp add: take_idx_def)

lemma take_idx_take_idx: "set js \<subseteq> {..<length is} \<Longrightarrow> take_idx js (take_idx is xs) = take_idx (take_idx js is) xs"
  by (auto simp: take_idx_def)

lemma take_idx_all: "length xs = n \<Longrightarrow> take_idx [0..<n] xs = xs"
  by (auto simp: take_idx_def map_nth)

lemma take_idx_append: "take_idx (is @ js) xs = take_idx is xs @ take_idx js xs"
  by (simp add: take_idx_def)

lemma take_idx_concat: "take_idx (concat iss) xs = concat (map (\<lambda>is. take_idx is xs) iss)"
  by (induction iss) (simp_all add: take_idx_def)

lemma map_values_map_values: "map_values f (map_values g d) = map_values (\<lambda>v. f (g v)) d"
  by (auto simp: map_values_def)

lemma map_values_cong: "(\<And>k v. (k, v) \<in> set d \<Longrightarrow> f v = g v) \<Longrightarrow> map_values f d = map_values g d"
  by (auto simp: map_values_def)

lemma map_values_id: "(\<And>k v. (k, v) \<in> set d \<Longrightarrow> f v = v) \<Longrightarrow> map_values f d = d"
  unfolding map_values_def by (induction d) auto

lemma keys_map_values [simp]: "map fst (map_values f d) = map fst d"
  by (auto simp: map_values_def)

lemma map_of_map_values [simp]: "map_of (map_values f d) k = map_option f (map_of d k)"
  by (auto simp: map_values_def map_of_map)

lemma set_map_values: "set (map_values f d) = (\<lambda>(k, v). (k, f v)) ` set d"
  by (simp add: map_values_def)

lemma map_values_Nil_iff [simp]: "map_values f d = [] \<longleftrightarrow> d = []"
  by (simp add: map_values_def)

lemma cols_wf_map: "cols_wf n d \<Longrightarrow> (\<And>v. length v = n \<Longrightarrow> length (f v) = m) \<Longrightarrow> cols_wf m (map_values f d)"
  unfolding cols_wf_def by (auto simp: set_map_values)

lemma cols_wf_take: "cols_wf n d \<Longrightarrow> cols_wf (length is) (map_values (take_idx is) d)"
  by (rule cols_wf_map) simp_all

lemma batch_cols_take [simp]: "batch_cols (dp_take is d) = map_values (take_idx is) (batch_cols d)"
  by (auto simp: dp_take_def batch_cols_def map_values_def split: option.splits)

lemma dp_take_fields [simp]:
  "dp_non_tensor (dp_take is d) = map_values (take_idx is) (dp_non_tensor d)"
  "dp_meta (dp_take is d) = dp_meta d"
  "dp_batch (dp_take is d) = None \<longleftrightarrow> dp_batch d = None"
  by (simp_all add: dp_take_def)

lemma dp_len_take:
  assumes "set is \<subseteq> {..<dp_len d}" shows "dp_len (dp_take is d) = length is"
  using assms
  by (auto simp: dp_take_def dp_len_def map_values_def split: option.splits list.splits)

lemma dp_wf_take: "dp_wf d \<Longrightarrow> set is \<subseteq> {..<dp_len d} \<Longrightarrow> dp_wf (dp_take is d)"
  by (auto simp: dp_wf_def dp_len_take intro: cols_wf_take)

lemma dp_rows_take:
  assumes "set is \<subseteq> {..<dp_len d}" shows "dp_rows (dp_take is d) = take_idx is (dp_rows d)"
  using assms
  by (intro nth_equalityI)
     (auto simp: dp_rows_def dp_row_def dp_len_take map_values_map_values subset_iff intro!: map_values_cong)

lemma dp_take_take:
  assumes "set js \<subseteq> {..<length is}" shows "dp_take js (dp_take is d) = dp_take (take_idx js is) d"
  using assms
  by (cases "dp_batch d") (auto simp: dp_take_def map_values_map_values take_idx_take_idx intro!: map_values_cong)

lemma cols_take_all: "cols_wf n c \<Longrightarrow> map_values (take_idx [0..<n]) c = c"
  by (intro map_values_id take_idx_all) (auto simp: cols_wf_def)

lemma dp_take_all: "dp_wf d \<Longrightarrow> dp_take [0..<dp_len d] d = d"
  by (cases d; cases "dp_batch d")
     (auto simp: dp_take_def dp_wf_def batch_cols_def dp_len_def cols_take_all split: option.splits
       intro!: data_proto.equality tensordict.equality)

lemma mk_proto_take:
  "mk_proto (dp_batch (dp_take is d)) (map_values (take_idx is) (dp_non_tensor d)) (dp_meta d) = Inr (dp_take is d)"
  by (cases d; cases "dp_batch d") (auto simp: mk_proto_def check_consistency_def dp_take_def set_map_values)

subsection \<open>Slices and repetitions\<close>

lemma slice_indices_bounds:
  assumes "0 < step" shows "set (slice_indices n a b step) \<subseteq> {..<n}"
proof
  fix i assume i: "i \<in> set (slice_indices n a b step)"
  obtain lo hi where b: "slice_bounds n a b step = (lo, hi)" by force
  have lh: "0 \<le> lo" "hi \<le> int n"
    using b assms by (auto simp: slice_bounds_def Let_def split: option.splits if_splits)
  from i b assms obtain k where "k < nat ((hi - lo + step - 1) div step)" and ki: "i = nat (lo + int k * step)"
    by (auto simp: slice_indices_def)
  then have k: "int k < (hi - lo + step - 1) div step" "i = nat (lo + int k * step)" by simp_all
  have "(int k + 1) * step \<le> (hi - lo + step - 1) div step * step"
    using k(1) assms by (intro mult_right_mono) auto
  also have "\<dots> \<le> hi - lo + step - 1"
    using pos_mod_sign[OF assms, of "hi - lo + step - 1"] minus_mod_eq_div_mult[of "hi - lo + step - 1" step] by linarith
  finally have "lo + int k * step < hi" by (simp add: distrib_right)
  then show "i \<in> {..<n}" using k(2) lh assms by (auto simp: nat_less_iff)
qed

lemma dp_slice_take:
  assumes wf: "dp_wf d" and st: "0 < the_default 1 step"
  shows "dp_slice d a b step = Inr (dp_take (slice_indices (dp_len d) a b (the_default 1 step)) d)"
proof -
  let ?is = "slice_indices (dp_len d) a b (the_default 1 step)"
  have nt: "map_values (\<lambda>v. take_idx (slice_indices (length v) a b (the_default 1 step)) v) (dp_non_tensor d)
      = map_values (take_idx ?is) (dp_non_tensor d)"
    using wf by (intro map_values_cong) (auto simp: dp_wf_def cols_wf_def)
  have s: "(case step of None \<Rightarrow> 1 | Some s \<Rightarrow> s) = the_default 1 step" by (simp add: the_default_def)
  have b: "map_option (\<lambda>b'. let is = slice_indices (td_batch_size b') a b (the_default 1 step)
               in \<lparr>td_batch_size = length is, td_items = map_values (take_idx is) (td_items b')\<rparr>) (dp_batch d)
      = dp_batch (dp_take ?is d)"
    by (cases "dp_batch d") (simp_all add: dp_take_def dp_len_def Let_def)
  show ?thesis unfolding dp_slice_def s Let_def
    using st mk_proto_take[of ?is d] b nt by (simp add: Let_def)
qed

lemma slice_prefix: "t \<le> n \<Longrightarrow> slice_indices n None (Some (int t)) 1 = [0..<t]"
  by (auto simp: slice_indices_def slice_bounds_def Let_def map_idI)

lemma slice_drop_last: "0 < p \<Longrightarrow> slice_indices (n + p) None (Some (- int p)) 1 = [0..<n]"
  by (auto simp: slice_indices_def slice_bounds_def Let_def map_idI)

lemma repeat_each_map: "repeat_each n (map f xs) = map f (repeat_each n xs)"
  by (induction xs) (auto simp: repeat_each_def)

lemma tile_map: "tile n (map f xs) = map f (tile n xs)"
  by (induction n) (auto simp: tile_def)

lemma repeat_as_take:
  "repeat_each n v = take_idx (repeat_each n [0..<length v]) v"
  "tile n v = take_idx (tile n [0..<length v]) v"
  unfolding take_idx_def by (metis repeat_each_map map_nth) (metis tile_map map_nth)

lemma length_repeat_each [simp]: "length (repeat_each n xs) = length xs * n"
  by (induction xs) (auto simp: repeat_each_def)

lemma length_tile [simp]: "length (tile n xs) = length xs * n"
  by (induction n) (auto simp: tile_def)

lemma set_repeats: "set (repeat_each n xs) \<subseteq> set xs" "set (tile n xs) \<subseteq> set xs"
  by (auto simp: repeat_each_def tile_def)

lemma dp_repeat_take:
  assumes wf: "dp_wf d"
  shows "dp_repeat d n interleave
     = Inr (dp_take ((if interleave then repeat_each n else tile n) [0..<dp_len d]) d)"
proof -
  have cols: "map_values (repeat_each n) c = map_values (take_idx (repeat_each n [0..<dp_len d])) c \<and>
      map_values (tile n) c = map_values (take_idx (tile n [0..<dp_len d])) c"
    if "cols_wf (dp_len d) c" for c :: "(string \<times> 'v list) list"
  proof -
    have "length v = dp_len d" if "(k, v) \<in> set c" for k v
      using that \<open>cols_wf (dp_len d) c\<close> by (auto simp: cols_wf_def)
    then show ?thesis by (metis (mono_tags, lifting) map_values_cong repeat_as_take)
  qed
  have nt: "cols_wf (dp_len d) (dp_non_tensor d)" using wf by (simp add: dp_wf_def)
  show ?thesis
  proof (cases "dp_batch d")
    case None
    then show ?thesis
      using nt mk_proto_take[of "repeat_each n [0..<dp_len d]" d] mk_proto_take[of "tile n [0..<dp_len d]" d]
      by (simp add: dp_repeat_def cols dp_take_def)
  next
    case (Some b)
    then have "cols_wf (dp_len d) (td_items b)" "dp_len d = td_batch_size b"
      using wf by (simp_all add: dp_wf_def batch_cols_def dp_len_def)
    then show ?thesis
      using Some nt mk_proto_take[of "repeat_each n [0..<dp_len d]" d] mk_proto_take[of "tile n [0..<dp_len d]" d]
      by (simp add: dp_repeat_def cols dp_take_def)
  qed
qed

subsection \<open>Concatenation\<close>

lemma push_items_append: "push_items (d @ e) out = bind_res (push_items d out) (push_items e)"
proof (induction d arbitrary: out)
  case (Cons x d)
  obtain k v where "x = (k, v)" by force
  then show ?case by (cases "push_item k v out") (simp_all add: Cons.IH)
qed simp

lemma d_set_middle: "k \<notin> fst ` set xs \<Longrightarrow> d_set k v (xs @ (k, w) # ys) = xs @ (k, v) # ys"
  unfolding d_set_def by (induction xs) auto

lemma push_items_same:
  assumes "distinct (map fst (pre @ post))"
  shows "push_items (map_values f post) (map_values (\<lambda>v. h v @ [f v]) pre @ map_values h post)
     = Inr (map_values (\<lambda>v. h v @ [f v]) (pre @ post))"
  using assms
proof (induction post arbitrary: pre)
  case Nil
  then show ?case by (simp add: map_values_def)
next
  case (Cons x post)
  obtain k v where x: "x = (k, v)" by force
  have k: "k \<notin> fst ` set (map_values (\<lambda>v. h v @ [f v]) pre)" "map_of pre k = None"
    using Cons.prems x by (auto simp: set_map_values map_of_eq_None_iff intro: rev_image_eqI)
  have "push_item k (f v) (map_values (\<lambda>v. h v @ [f v]) pre @ map_values h (x # post))
      = Inr (map_values (\<lambda>v. h v @ [f v]) (pre @ [x]) @ map_values h post)"
    using k d_set_middle[OF k(1)] x by (simp add: push_item_def map_add_def) (simp add: map_values_def)
  then show ?case using Cons.IH[of "pre @ [x]"] Cons.prems x by (simp add: map_values_def)
qed

lemma push_items_all:
  assumes "distinct (map fst nt)"
  shows "push_items (concat (map (\<lambda>i. map_values (g i) nt) is)) (map_values h nt)
     = Inr (map_values (\<lambda>v. h v @ map (\<lambda>i. g i v) is) nt)"
proof (induction "is" arbitrary: h)
  case (Cons i "is")
  have "push_items (map_values (g i) nt) (map_values h nt) = Inr (map_values (\<lambda>v. h v @ [g i v]) nt)"
    using push_items_same[of "[]" nt "g i" h] assms by (simp add: map_values_def)
  then show ?case by (simp add: push_items_append Cons.IH)
qed simp

lemma lists_of_same_keys:
  assumes "distinct (map fst nt)" "is \<noteq> []"
  shows "list_of_dict_to_dict_of_list (map (\<lambda>i. map_values (g i) nt) is)
     = Inr (map_values (\<lambda>v. map (\<lambda>i. g i v) is) nt)"
  using push_items_all[OF assms(1), of g "is" "\<lambda>_. []"] assms(2)
  by (cases "is") (simp_all add: list_of_dict_to_dict_of_list_def map_values_map_values)

lemma td_cat_takes:
  assumes "distinct (map fst (td_items b))" "iss \<noteq> []"
  shows "td_cat (map (\<lambda>is. \<lparr>td_batch_size = length is, td_items = map_values (take_idx is) (td_items b)\<rparr>) iss)
     = Inr \<lparr>td_batch_size = length (concat iss), td_items = map_values (take_idx (concat iss)) (td_items b)\<rparr>"
proof -
  let ?f = "\<lambda>is. \<lparr>td_batch_size = length is, td_items = map_values (take_idx is) (td_items b)\<rparr>"
  obtain i rest where i: "iss = i # rest" using assms(2) by (cases iss) auto
  have keys: "fst ` set (td_items (?f is)) = fst ` set (td_items b)" for "is"
    by (simp add: set_map_values image_image split_beta)
  have col: "the_default [] (map_of (map_values (take_idx is) (td_items b)) k) = take_idx is v"
    if "(k, v) \<in> set (td_items b)" for "is" k v
    using that assms(1) by simp
  have "map (\<lambda>(k, _). (k, concat (map (\<lambda>c. the_default [] (map_of (td_items c) k)) (map ?f iss)))) (td_items (?f i))
      = map_values (take_idx (concat iss)) (td_items b)"
  proof -
    have "concat (map (\<lambda>c. the_default [] (map_of (td_items c) k)) (map ?f iss)) = take_idx (concat iss) v"
      if "(k, v) \<in> set (td_items b)" for k v
      using col[OF that] by (simp add: take_idx_concat o_def)
    then show ?thesis by (auto simp: map_values_def)
  qed
  moreover have "sum_list (map td_batch_size (map ?f iss)) = length (concat iss)"
    by (simp add: length_concat o_def)
  ultimately show ?thesis using keys unfolding td_cat_def i by simp
qed

text \<open>Meta information without metrics, all of whose values equal themselves, survives a concatenation.\<close>

definition plain_meta :: "pydict \<Rightarrow> bool" where
  "plain_meta m \<longleftrightarrow> distinct (map fst m) \<and> ''metrics'' \<notin> fst ` set m \<and> (\<forall>(k, v) \<in> set m. py_eq v v)"

lemma merge_entries_append:
  "merge_entries (xs @ ys) st = bind_res (merge_entries xs st) (merge_entries ys)"
  by (induction xs st rule: merge_entries.induct) (auto split: option.splits)

lemma merge_entries_new:
  "plain_meta (pre @ post) \<Longrightarrow> merge_entries post (pre, []) = Inr (pre @ post, [])"
proof (induction post arbitrary: pre)
  case (Cons x post)
  obtain k v where x: "x = (k, v)" by force
  have "map_of pre k = None" "k \<notin> fst ` set pre" "k \<noteq> ''metrics''"
    using Cons.prems x by (auto simp: plain_meta_def map_of_eq_None_iff)
  then show ?case using Cons.IH[of "pre @ [x]"] Cons.prems x by (simp add: d_set_new)
qed simp

lemma merge_entries_again:
  "plain_meta m \<Longrightarrow> set xs \<subseteq> set m \<Longrightarrow> merge_entries xs (m, []) = Inr (m, [])"
proof (induction xs)
  case (Cons x xs)
  obtain k v where x: "x = (k, v)" by force
  have "map_of m k = Some v" "py_eq v v" "k \<noteq> ''metrics''"
    using Cons.prems x by (auto simp: plain_meta_def image_iff)
  then show ?case using Cons x by simp
qed simp

lemma merge_meta_same:
  assumes "plain_meta m" "n \<noteq> 0" shows "merge_meta (replicate n m) = Inr m"
proof -
  obtain j where n: "n = Suc j" using assms(2) not0_implies_Suc by blast
  have "merge_entries (concat (replicate n m)) ([], []) = Inr (m, [])"
  proof -
    have "set (concat (replicate j m)) \<subseteq> set m" by auto
    then show ?thesis
      using merge_entries_new[of "[]" m] merge_entries_again[OF assms(1)] assms(1)
      by (simp add: n merge_entries_append del: set_concat)
  qed
  then show ?thesis by (simp add: merge_meta_def)
qed

lemma dp_concat_takes:
  assumes wf: "dp_wf d" and m: "plain_meta (dp_meta d)" and iss: "iss \<noteq> []"
  shows "dp_concat (map (\<lambda>is. dp_take is d) iss) = Inr (dp_take (concat iss) d)"
proof -
  obtain i rest where i: "iss = i # rest" using iss by (cases iss) auto
  have dist: "distinct (map fst (batch_cols d))" "distinct (map fst (dp_non_tensor d))"
    using wf by (simp_all add: dp_wf_def cols_wf_def)
  have b: "(if dp_batch (dp_take i d) = None then Inr None
      else bind_res (map_res need_batch (map (\<lambda>is. dp_take is d) iss)) (\<lambda>bs. map_sum id Some (td_cat bs)))
      = Inr (dp_batch (dp_take (concat iss) d))"
  proof (cases "dp_batch d")
    case (Some b)
    then have "map_res need_batch (map (\<lambda>is. dp_take is d) iss)
        = Inr (map (\<lambda>is. \<lparr>td_batch_size = length is, td_items = map_values (take_idx is) (td_items b)\<rparr>) iss)"
      by (simp add: map_res_map need_batch_def dp_take_def map_res_pure)
    then show ?thesis using Some td_cat_takes[of b iss] dist(1) iss
      by (simp add: dp_take_def batch_cols_def)
  qed (simp add: dp_take_def)
  have nt: "list_of_dict_to_dict_of_list (map dp_non_tensor (map (\<lambda>is. dp_take is d) iss))
      = Inr (map_values (\<lambda>v. map (\<lambda>is. take_idx is v) iss) (dp_non_tensor d))"
    using lists_of_same_keys[OF dist(2) iss, of take_idx] by (simp add: o_def)
  have me: "merge_meta (map dp_meta (map (\<lambda>is. dp_take is d) iss)) = Inr (dp_meta d)"
    using merge_meta_same[OF m, of "length iss"] iss by (simp add: o_def map_replicate_const)
  have cat: "map_values concat (map_values (\<lambda>v. map (\<lambda>is. take_idx is v) iss) (dp_non_tensor d))
      = map_values (take_idx (concat iss)) (dp_non_tensor d)"
    unfolding map_values_map_values by (rule map_values_cong) (simp add: take_idx_concat)
  have "dp_concat (map (\<lambda>is. dp_take is d) iss)
      = mk_proto (dp_batch (dp_take (concat iss) d)) (map_values (take_idx (concat iss)) (dp_non_tensor d)) (dp_meta d)"
    using b nt me cat unfolding dp_concat_def i by simp
  then show ?thesis by (simp add: mk_proto_take)
qed

subsection \<open>Chunks\<close>

lemma split_lengths_const:
  "split_lengths (replicate k c) xs = map (\<lambda>i. take c (drop (i * c) xs)) [0..<k]"
proof (induction k arbitrary: xs)
  case (Suc k)
  have "[0..<Suc k] = 0 # map Suc [0..<k]" by (simp add: upt_conv_Cons map_Suc_upt del: upt_Suc)
  then show ?case using Suc.IH[of "drop c xs"] by (simp add: add.commute)
qed simp

lemma array_split_lengths:
  "ns \<noteq> [] \<Longrightarrow> sum_list ns = length xs \<Longrightarrow> array_split ns xs = split_lengths ns xs"
proof (induction ns arbitrary: xs)
  case (Cons n ns)
  show ?case
  proof (cases ns)
    case Nil
    then show ?thesis using Cons.prems by (simp add: array_split_def)
  next
    case (Cons m ms)
    then have "array_split ns (drop n xs) = split_lengths ns (drop n xs)"
      using Cons.prems by (intro Cons.IH) auto
    then show ?thesis using Cons by (simp add: array_split_def add.commute)
  qed
qed simp

lemma chunk_lengths_even:
  assumes "0 < k" "0 < n" "k dvd n" shows "chunk_lengths n k = replicate k (n div k)"
proof -
  obtain c where n: "n = k * c" using assms(3) by (elim dvdE)
  then have c: "0 < c" using assms(2) by simp
  have e: "(n + k - 1) div k = c"
    using assms(1) by (simp add: n div_nat_eqI algebra_simps)
  have dvd: "c dvd length [0..<n]" by (simp add: n)
  have "length (chunks_of c [0..<n]) = k" using length_chunks_of[OF c dvd] c by (simp add: n)
  then have "map length (chunks_of c [0..<n]) = replicate k c"
    using chunks_of_lengths[OF c dvd] by (auto simp: list_eq_iff_nth_eq)
  moreover have "n div k = c" using assms(1) by (simp add: n)
  ultimately show ?thesis unfolding chunk_lengths_def Let_def e by simp
qed

lemma section_lengths_even: "k dvd n \<Longrightarrow> section_lengths n k = replicate k (n div k)"
  by (simp add: section_lengths_def)

lemma take_drop_as_take_idx: "j + c \<le> length v \<Longrightarrow> take c (drop j v) = take_idx [j..<j + c] v"
  by (auto simp: take_idx_def list_eq_iff_nth_eq)

lemma chunk_within: "i < k \<Longrightarrow> k dvd n \<Longrightarrow> i * (n div k) + n div k \<le> (n :: nat)"
proof -
  assume "i < k" "k dvd n"
  then have "Suc i * (n div k) \<le> k * (n div k)" by (intro mult_le_mono1) simp
  then show ?thesis using \<open>k dvd n\<close> by simp
qed

definition even_chunk :: "nat \<Rightarrow> nat \<Rightarrow> nat \<Rightarrow> nat list" where
  "even_chunk n k i = [i * (n div k)..<i * (n div k) + n div k]"

lemma length_even_chunk [simp]: "length (even_chunk n k i) = n div k"
  by (simp add: even_chunk_def)

lemma even_chunks_cover:
  assumes "0 < k" "k dvd n" shows "concat (map (even_chunk n k) [0..<k]) = [0..<n]"
proof -
  have "concat (map (even_chunk n k) [0..<j]) = [0..<j * (n div k)]" for j
  proof (induction j)
    case (Suc j)
    then show ?case using upt_add_eq_append[of 0 "j * (n div k)" "n div k"] by (simp add: even_chunk_def add.commute)
  qed simp
  from this[of k] show ?thesis using assms by simp
qed

lemma split_lengths_even:
  assumes "i < k" "k dvd n" "length v = n"
  shows "split_lengths (replicate k (n div k)) v ! i = take_idx (even_chunk n k i) v"
  using assms chunk_within[OF assms(1,2)] take_drop_as_take_idx[of "i * (n div k)" "n div k" v]
  by (simp add: split_lengths_const even_chunk_def)

lemma dp_chunk_even:
  assumes wf: "dp_wf d" and k: "0 < k" "k dvd dp_len d" and n: "0 < dp_len d"
  shows "dp_chunk auto d k = Inr (map (\<lambda>i. dp_take (even_chunk (dp_len d) k i) d) [0..<k])"
proof -
  let ?n = "dp_len d"
  have nt_len: "length v = ?n" if "(key, v) \<in> set (dp_non_tensor d)" for key v
    using wf that by (auto simp: dp_wf_def cols_wf_def)
  have item_len: "length v = ?n" if "(key, v) \<in> set (batch_cols d)" for key v
    using wf that by (auto simp: dp_wf_def cols_wf_def)
  have take_i: "map_values (\<lambda>v. split_lengths (replicate k (?n div k)) v ! i) c = map_values (take_idx (even_chunk ?n k i)) c"
    if "i < k" "\<And>key v. (key, v) \<in> set c \<Longrightarrow> length v = ?n" for i and c :: "(string \<times> 'v list) list"
    using that k(2) by (intro map_values_cong split_lengths_even) auto
  have pos: "k \<noteq> 0" "?n mod k = 0" using k by (auto simp: mod_eq_0_iff_dvd)
  have mk: "mk_proto (dp_batch (dp_take (even_chunk ?n k i) d)) (map_values (take_idx (even_chunk ?n k i)) (dp_non_tensor d)) (dp_meta d)
      = Inr (dp_take (even_chunk ?n k i) d)" for i by (rule mk_proto_take)
  show ?thesis
  proof (cases "dp_batch d")
    case None
    have "map_values (\<lambda>v. split_lengths (section_lengths (length v) k) v ! i) (dp_non_tensor d)
        = map_values (take_idx (even_chunk ?n k i)) (dp_non_tensor d)" if "i < k" for i
      using nt_len k(2) that by (intro map_values_cong) (simp add: section_lengths_even split_lengths_even)
    then show ?thesis using None pos mk
      by (auto simp: dp_chunk_def dp_take_def intro!: map_res_pure)
  next
    case (Some b)
    then have b: "td_batch_size b = ?n" "td_items b = batch_cols d" by (simp_all add: dp_len_def batch_cols_def)
    let ?ns = "replicate k (?n div k)"
    have ns: "chunk_lengths ?n k = ?ns" using chunk_lengths_even k n by blast
    have split: "array_split ?ns v = split_lengths ?ns v" if "length v = ?n" for v :: "'b list"
      using that k by (intro array_split_lengths) (auto simp: sum_list_replicate)
    have "nt_chunks ?ns k (dp_non_tensor d) = Inr (map (\<lambda>i. map_values (take_idx (even_chunk ?n k i)) (dp_non_tensor d)) [0..<k])"
    proof -
      have "map_values (\<lambda>v. array_split ?ns v ! i) (dp_non_tensor d) = map_values (take_idx (even_chunk ?n k i)) (dp_non_tensor d)"
        if "i < k" for i
        using take_i[OF that, of "dp_non_tensor d"] nt_len split
        by (metis (mono_tags, lifting) map_values_cong)
      then show ?thesis using split nt_len by (auto simp: nt_chunks_def split_lengths_const)
    qed
    then show ?thesis using Some pos k n mk b item_len ns
      by (auto simp: dp_chunk_def take_i dp_take_def Let_def intro!: map_res_pure)
  qed
qed

subsection \<open>Padding\<close>

lemma pad_takes_cover:
  "0 < n \<Longrightarrow> j mod n = 0 \<Longrightarrow> concat (map (\<lambda>t. [0..<t]) (pad_takes r n)) = map (\<lambda>i. i mod n) [j..<j + r]"
proof (induction r n arbitrary: j rule: pad_takes.induct)
  case (1 r n)
  show ?case
  proof (cases "r = 0")
    case False
    let ?t = "min r n"
    have first: "map (\<lambda>i. i mod n) [j..<j + ?t] = [0..<?t]"
      using 1(2,3) by (auto simp: list_eq_iff_nth_eq mod_add_eq[symmetric] simp del: mod_add_left_eq mod_add_right_eq)
    show ?thesis
    proof (cases "r \<le> n")
      case True
      then show ?thesis using first False 1(2) by (simp add: pad_takes.simps[of r n] pad_takes.simps[of 0 n] min_def)
    next
      case False
      then have "concat (map (\<lambda>t. [0..<t]) (pad_takes (r - n) n)) = map (\<lambda>i. i mod n) [j + n..<j + n + (r - n)]"
        using 1 by (intro "1.IH"[of n "j + n"]) auto
      then show ?thesis using False first 1(2) upt_add_eq_append[of j "j + n" "r - n"]
        by (simp add: pad_takes.simps[of r n] min_def add.assoc[symmetric])
    qed
  qed (simp add: pad_takes.simps)
qed

lemma pad_takes_le: "t \<in> set (pad_takes r n) \<Longrightarrow> t \<le> n"
  by (induction r n rule: pad_takes.induct) (subst (asm) pad_takes.simps, auto simp: Let_def split: if_splits)

definition pad_idx :: "nat \<Rightarrow> nat \<Rightarrow> nat list" where
  "pad_idx n p = map (\<lambda>i. i mod n) [0..<n + p]"

lemma pad_takes_idx: "0 < n \<Longrightarrow> [0..<n] @ concat (map (\<lambda>t. [0..<t]) (pad_takes p n)) = pad_idx n p"
proof -
  assume n: "0 < n"
  have "map (\<lambda>i. i mod n) [0..<n] = [0..<n]" by (rule map_idI) simp
  then show ?thesis using pad_takes_cover[OF n, of n p] n upt_add_eq_append[of 0 n p] by (simp add: pad_idx_def)
qed

lemma pad_take:
  assumes wf: "dp_wf d" and m: "plain_meta (dp_meta d)" and n: "0 < n" and p: "dp_len d mod n \<noteq> 0"
  shows "pad_dataproto_to_divisor d n
     = Inr (dp_take (pad_idx (dp_len d) (n - dp_len d mod n)) d, n - dp_len d mod n)"
proof -
  let ?p = "n - dp_len d mod n" let ?ts = "pad_takes ?p (dp_len d)"
  have len: "0 < dp_len d" using p by (cases "dp_len d") auto
  have parts: "map_res (\<lambda>t. dp_slice d None (Some (int t)) None) ?ts = Inr (map (\<lambda>t. dp_take [0..<t] d) ?ts)"
    by (rule map_res_pure) (simp add: dp_slice_take[OF wf] slice_prefix pad_takes_le)
  have "d # map (\<lambda>t. dp_take [0..<t] d) ?ts = map (\<lambda>is. dp_take is d) ([0..<dp_len d] # map (\<lambda>t. [0..<t]) ?ts)"
    by (simp add: dp_take_all[OF wf])
  then have "dp_concat (d # map (\<lambda>t. dp_take [0..<t] d) ?ts) = Inr (dp_take (pad_idx (dp_len d) ?p) d)"
    using dp_concat_takes[OF wf m, of "[0..<dp_len d] # map (\<lambda>t. [0..<t]) ?ts"] pad_takes_idx[OF len] by (simp add: o_def)
  then show ?thesis using n p parts by (simp add: pad_dataproto_to_divisor_def Let_def)
qed

lemma unpad_take:
  assumes "dp_wf d" "0 < p" "0 < dp_len d"
  shows "unpad_dataproto (dp_take (pad_idx (dp_len d) p) d) p = Inr d"
proof -
  let ?d = "dp_take (pad_idx (dp_len d) p) d"
  have sub: "set (pad_idx (dp_len d) p) \<subseteq> {..<dp_len d}" using assms(3) by (auto simp: pad_idx_def)
  have len: "length (pad_idx (dp_len d) p) = dp_len d + p" by (simp add: pad_idx_def)
  have wf: "dp_wf ?d" using dp_wf_take[OF assms(1) sub] .
  have "take_idx [0..<dp_len d] (pad_idx (dp_len d) p) = [0..<dp_len d]"
    by (auto simp: take_idx_def pad_idx_def list_eq_iff_nth_eq)
  then have "dp_take [0..<dp_len d] ?d = d"
    using dp_take_take[of "[0..<dp_len d]" "pad_idx (dp_len d) p" d] dp_take_all[OF assms(1)] len by (auto simp: subset_iff)
  then show ?thesis
    using assms(2) dp_slice_take[OF wf, of None None "Some (- int p)"] slice_drop_last[OF assms(2), of "dp_len d"] dp_len_take[OF sub] len
    by (simp add: unpad_dataproto_def)
qed

section \<open>Properties\<close>

text \<open>
  Padding to a divisor and its inverse. For a well-formed object with plain meta information and
  a positive divisor, \<open>pad_dataproto_to_divisor\<close> returns; the padded object has the length rounded up
  to a multiple of the divisor, row \<open>i\<close> of it is row \<open>i mod n\<close> of the original, the meta information is kept,
  and \<open>unpad_dataproto\<close> with the returned size gives the original back.
\<close>

theorem pad_unpad_roundtrip:
  assumes wf: "dp_wf d" and m: "plain_meta (dp_meta d)" and n: "0 < n"
  shows "\<exists>q p. pad_dataproto_to_divisor d n = Inr (q, p) \<and> unpad_dataproto q p = Inr d \<and>
    n dvd dp_len q \<and> dp_len q = dp_len d + p \<and> p < n \<and> dp_meta q = dp_meta d \<and>
    dp_rows q = map (\<lambda>i. dp_rows d ! (i mod dp_len d)) [0..<dp_len q]"
proof (cases "dp_len d mod n = 0")
  case True
  have "dp_rows d = map (\<lambda>i. dp_rows d ! (i mod dp_len d)) [0..<dp_len d]"
    by (simp add: dp_rows_def)
  with True n show ?thesis by (auto simp: pad_dataproto_to_divisor_def unpad_dataproto_def)
next
  case False
  let ?p = "n - dp_len d mod n" let ?q = "dp_take (pad_idx (dp_len d) ?p) d"
  have len: "0 < dp_len d" using False by (cases "dp_len d") auto
  have p: "0 < ?p" "?p < n" using n False by auto
  have sub: "set (pad_idx (dp_len d) ?p) \<subseteq> {..<dp_len d}" using len by (auto simp: pad_idx_def)
  have q: "dp_len ?q = dp_len d + ?p" using dp_len_take[OF sub] by (simp add: pad_idx_def)
  have "dp_len d + ?p = (dp_len d div n + 1) * n"
  proof -
    have "dp_len d div n * n + dp_len d mod n = dp_len d" "dp_len d mod n < n" using n by simp_all
    then show ?thesis unfolding distrib_right mult_1_left by linarith
  qed
  then have "n dvd dp_len d + ?p" by (metis dvd_triv_right)
  moreover have "dp_rows ?q = map (\<lambda>i. dp_rows d ! (i mod dp_len d)) [0..<dp_len ?q]"
    using dp_rows_take[OF sub] q by (simp add: take_idx_def pad_idx_def)
  ultimately show ?thesis
    using pad_take[OF wf m n False] unpad_take[OF wf p(1) len] q p by (intro exI[of _ ?q] exI[of _ ?p]) simp
qed

definition ex_proto :: "(nat, nat) data_proto" where
  "ex_proto = \<lparr>dp_batch = Some \<lparr>td_batch_size = 3, td_items = [(''ids'', [7, 8, 9])]\<rparr>,
     dp_non_tensor = [(''uid'', [1, 2, 3])], dp_meta = [(''step'', PInt 4)]\<rparr>"

lemma ex_proto_ok: "dp_wf ex_proto" "plain_meta (dp_meta ex_proto)" "dp_len ex_proto = 3"
  by (simp_all add: ex_proto_def dp_wf_def cols_wf_def batch_cols_def dp_len_def plain_meta_def)

theorem pad_unpad_roundtrip_example:
  "\<exists>q p. pad_dataproto_to_divisor ex_proto 5 = Inr (q, p) \<and> unpad_dataproto q p = Inr ex_proto \<and> 5 dvd dp_len q"
  using pad_unpad_roundtrip[OF ex_proto_ok(1,2), of 5] by auto

subsection \<open>Index lists, splits and iterators as row operations\<close>

lemma resolve_within: "resolve_idxs n ix = Inr js \<Longrightarrow> set js \<subseteq> {..<n}"
proof (cases ix)
  case (IntIdx xs)
  assume r: "resolve_idxs n ix = Inr js"
  show ?thesis
  proof
    fix j assume "j \<in> set js"
    then obtain t where "t < length js" "j = js ! t" by (auto simp: in_set_conv_nth)
    moreover have "length js = length xs" using r IntIdx by (auto simp: resolve_idxs_def dest: map_res_length)
    ultimately show "j \<in> {..<n}"
      using r IntIdx map_res_nth[of _ xs js t] by (fastforce simp: resolve_idxs_def Let_def split: if_splits)
  qed
next
  case (BoolIdx bs)
  assume "resolve_idxs n ix = Inr js"
  then show ?thesis using BoolIdx by (auto simp: resolve_idxs_def set_zip split: if_splits)
qed

lemma resolve_count: "resolve_idxs n ix = Inr js \<Longrightarrow> length js = idx_count ix"
proof (cases ix)
  case (BoolIdx bs)
  assume "resolve_idxs n ix = Inr js"
  then have n: "n = length bs" and js: "js = map fst (filter snd (zip [0..<n] bs))"
    using BoolIdx by (auto simp: resolve_idxs_def split: if_splits)
  have "length js = length (filter id (map snd (zip [0..<n] bs)))"
    unfolding js by (simp add: filter_map o_def)
  then show ?thesis using n BoolIdx by (simp add: idx_count_def)
qed (auto simp: resolve_idxs_def idx_count_def dest: map_res_length)

lemma select_rows_take:
  assumes "resolve_idxs n ix = Inr js" "cols_wf n c"
  shows "map_values_res (select_rows ix) c = Inr (map_values (take_idx js) c)"
proof -
  have "map_sum id (Pair k) (select_rows ix v) = Inr (k, take_idx js v)" if "(k, v) \<in> set c" for k v
    using assms that by (auto simp: select_rows_def cols_wf_def)
  then show ?thesis unfolding map_values_res_def map_values_def by (intro map_res_pure) auto
qed

lemma select_idxs_take:
  assumes wf: "dp_wf d" and js: "resolve_idxs (dp_len d) ix = Inr js"
  shows "select_idxs d ix = Inr (dp_take js d)"
proof -
  have c: "map_values_res (select_rows ix) (batch_cols d) = Inr (map_values (take_idx js) (batch_cols d))"
    "map_values_res (select_rows ix) (dp_non_tensor d) = Inr (map_values (take_idx js) (dp_non_tensor d))"
    using wf js by (auto simp: dp_wf_def intro: select_rows_take)
  have n: "idx_count ix = length js" using resolve_count[OF js] by simp
  show ?thesis using c mk_proto_take[of js d]
    by (cases "dp_batch d")
       (auto simp: select_idxs_def batch_cols_def mk_tensordict_def set_map_values dp_take_def n)
qed

lemma reorder_take:
  assumes wf: "dp_wf d" and js: "resolve_idxs (dp_len d) (IntIdx is) = Inr js" and b: "dp_batch d \<noteq> None"
  shows "reorder d is = Inr (dp_take js d)"
proof -
  have c: "map_values_res (select_rows (IntIdx is)) (batch_cols d) = Inr (map_values (take_idx js) (batch_cols d))"
    "map_values_res (select_rows (IntIdx is)) (dp_non_tensor d) = Inr (map_values (take_idx js) (dp_non_tensor d))"
    using wf js by (auto simp: dp_wf_def intro: select_rows_take)
  have n: "length is = length js" using resolve_count[OF js] by (simp add: idx_count_def)
  show ?thesis using c b by (auto simp: reorder_def batch_cols_def dp_take_def n)
qed

lemma slice_window: "a < n \<Longrightarrow> a \<le> b \<Longrightarrow> slice_indices n (Some (int a)) (Some (int b)) 1 = [a..<min b n]"
  by (auto simp: slice_indices_def slice_bounds_def Let_def list_eq_iff_nth_eq min_def)

lemma chunks_of_as_map:
  "0 < m \<Longrightarrow> chunks_of m xs = map (\<lambda>i. take m (drop (i * m) xs)) [0..<(length xs + m - 1) div m]"
proof (induction m xs rule: chunks_of.induct)
  case (2 m x xs)
  let ?l = "x # xs"
  have "(length ?l + m - 1) div m = Suc ((length (drop m ?l) + m - 1) div m)"
  proof (cases "m \<le> length ?l")
    case True
    then have "length ?l + m - 1 = (length (drop m ?l) + m - 1) + m" using 2(2) by simp
    then show ?thesis using 2(2) by (metis Suc_eq_plus1 div_add_self2 nat_less_le)
  next
    case False
    then show ?thesis using 2(2) by (auto simp: div_nat_eqI)
  qed
  moreover have "[0..<Suc k] = 0 # map Suc [0..<k]" for k by (simp add: upt_conv_Cons map_Suc_upt del: upt_Suc)
  ultimately show ?case using "2.IH" 2(2)
    by (simp add: chunks_of.simps(2)[of m x xs] o_def add.commute del: upt_Suc length_Cons length_drop)
qed simp

lemma dp_split_take:
  assumes wf: "dp_wf d" and m: "0 < m"
  shows "dp_split d m = Inr (map (\<lambda>is. dp_take is d) (chunks_of m [0..<dp_len d]))"
proof -
  let ?n = "dp_len d"
  have "dp_slice d (Some (int (i * m))) (Some (int (i * m + m))) None = Inr (dp_take (take m (drop (i * m) [0..<?n])) d)"
    if "i < (?n + m - 1) div m" for i
  proof -
    have "Suc i * m \<le> ?n + m - 1" using Suc_leI[OF that] less_eq_div_iff_mult_less_eq[OF m, of "Suc i"] by blast
    then have "i * m < ?n" using m by simp
    then show ?thesis using dp_slice_take[OF wf, of None] slice_window[of "i * m" ?n "i * m + m"]
      by (auto simp: min_def)
  qed
  then have "map_res (\<lambda>i. dp_slice d (Some (int (i * m))) (Some (int (i * m + m))) None) [0..<(?n + m - 1) div m]
      = Inr (map (\<lambda>i. dp_take (take m (drop (i * m) [0..<?n])) d) [0..<(?n + m - 1) div m])"
    by (intro map_res_pure) simp
  then show ?thesis using m unfolding dp_split_def chunks_of_as_map[OF m] by (simp add: o_def)
qed

lemma get_rows_pure:
  assumes "i < n" "cols_wf n c"
  shows "map_values_res (get_row (int i)) c = Inr (map_values (\<lambda>v. v ! i) c)"
  unfolding map_values_res_def map_values_def
  using assms by (intro map_res_pure) (auto simp: get_row_def cols_wf_def)

definition item_at :: "('a, 'b) data_proto \<Rightarrow> nat \<Rightarrow> ('a, 'b) proto_item" where
  "item_at d i = \<lparr>it_batch = map_option (\<lambda>b. map_values (\<lambda>v. v ! i) (td_items b)) (dp_batch d),
     it_non_tensor = map_values (\<lambda>v. v ! i) (dp_non_tensor d), it_meta = dp_meta d\<rparr>"

lemma get_item_at: "dp_wf d \<Longrightarrow> i < dp_len d \<Longrightarrow> get_item d (int i) = Inr (item_at d i)"
  by (cases "dp_batch d") (auto simp: get_item_def item_at_def get_rows_pure dp_wf_def batch_cols_def)

lemma map_map_values: "map F (map_values g c) = map (\<lambda>(k, v). F (k, g v)) c"
  by (auto simp: map_values_def)

lemma stack_rows:
  assumes "distinct (map fst c)" "is \<noteq> []"
  shows "stack_items (map (\<lambda>i. map_values (\<lambda>v. v ! i) c) is) = Inr (map_values (take_idx is) c)"
proof -
  obtain i0 rest where i: "is = i0 # rest" using assms(2) by (cases "is") auto
  have keys: "fst ` set (map_values (\<lambda>v. v ! i) c) = fst ` set c" for i
    by (simp add: set_map_values image_image split_beta)
  have "map (\<lambda>(k, x). (k, map (\<lambda>r. the_default x (map_of r k)) (map (\<lambda>i. map_values (\<lambda>v. v ! i) c) is)))
      (map_values (\<lambda>v. v ! i0) c) = map_values (take_idx is) c"
  proof -
    have "map (\<lambda>r. the_default x (map_of r k)) (map (\<lambda>i. map_values (\<lambda>v. v ! i) c) is) = take_idx is v"
      if "(k, v) \<in> set c" for k v x
      using assms(1) that by (simp add: take_idx_def)
    then show ?thesis
      unfolding map_map_values by (auto simp: map_values_def[of "take_idx is"] simp del: map_map intro!: map_cong)
  qed
  then show ?thesis using keys unfolding stack_items_def i by simp
qed

lemma collate_items:
  assumes wf: "dp_wf d" and b: "dp_batch d \<noteq> None" and "is \<noteq> []"
  shows "collate_fn (map (item_at d) is) = Inr ((dp_take is d)\<lparr>dp_meta := []\<rparr>)"
proof -
  obtain t where t: "dp_batch d = Some t" using b by blast
  have dist: "distinct (map fst (td_items t))" "distinct (map fst (dp_non_tensor d))"
    using wf t by (simp_all add: dp_wf_def cols_wf_def batch_cols_def)
  have rows: "map_res (\<lambda>it. case it_batch it of None \<Rightarrow> Inl (TypeError ''expected TensorDict, got None'') | Some r \<Rightarrow> Inr r)
      (map (item_at d) is) = Inr (map (\<lambda>i. map_values (\<lambda>v. v ! i) (td_items t)) is)"
    by (simp add: map_res_map item_at_def t map_res_pure)
  have nt: "list_of_dict_to_dict_of_list (map it_non_tensor (map (item_at d) is))
      = Inr (map_values (take_idx is) (dp_non_tensor d))"
    using lists_of_same_keys[OF dist(2) assms(3), of "\<lambda>i v. v ! i"] by (simp add: item_at_def o_def take_idx_def[abs_def])
  show ?thesis unfolding collate_fn_def rows nt
    by (auto simp: stack_rows[OF dist(1) assms(3)] nt mk_proto_def check_consistency_def set_map_values dp_take_def t)
qed

lemma chunks_of_sub: "0 < m \<Longrightarrow> ys \<in> set (chunks_of m xs) \<Longrightarrow> set ys \<subseteq> set xs \<and> ys \<noteq> []"
proof (induction m xs rule: chunks_of.induct)
  case (2 m x xs)
  from 2(2,3) consider "ys = take m (x # xs)" | "ys \<in> set (chunks_of m (drop m (x # xs)))"
    by (auto simp: chunks_of.simps(2)[of m x xs] split: if_splits)
  then show ?case
  proof cases
    case 1
    then show ?thesis using 2(2) set_take_subset[of m "x # xs"] by (cases m) auto
  next
    case 2
    then show ?thesis using "2.IH" "2.prems"(1) set_drop_subset[of m "x # xs"] by blast
  qed
qed simp

lemma make_iterator_take:
  assumes wf: "dp_wf d" and b: "dp_batch d \<noteq> None" and m: "0 < m" "m dvd dp_len d"
    and order: "\<And>e. set (order e) \<subseteq> {..<dp_len d}"
  shows "make_iterator order d m epochs
     = Inr (map (\<lambda>is. dp_take is d) (concat (map (\<lambda>e. chunks_of m (order e)) [0..<epochs])))"
proof -
  obtain t where t: "dp_batch d = Some t" "td_batch_size t = dp_len d" using b by (auto simp: dp_len_def)
  have step: "bind_res (map_res (\<lambda>i. get_item d (int i)) is) (\<lambda>items.
        map_sum id (\<lambda>p. p\<lparr>dp_meta := dp_meta d\<rparr>) (collate_fn items)) = Inr (dp_take is d)"
    if i: "is \<in> set (concat (map (\<lambda>e. chunks_of m (order e)) [0..<epochs]))" for "is"
  proof -
    from i obtain e where "is \<in> set (chunks_of m (order e))" by auto
    then have "set is \<subseteq> {..<dp_len d}" "is \<noteq> []" using chunks_of_sub[OF m(1)] order by blast+
    moreover from this have "map_res (\<lambda>i. get_item d (int i)) is = Inr (map (item_at d) is)"
      using wf by (intro map_res_pure get_item_at) auto
    ultimately show ?thesis using collate_items[OF wf b] by (simp add: dp_take_def)
  qed
  have "map_res (\<lambda>is. bind_res (map_res (\<lambda>i. get_item d (int i)) is) (\<lambda>items.
        map_sum id (\<lambda>p. p\<lparr>dp_meta := dp_meta d\<rparr>) (collate_fn items)))
      (concat (map (\<lambda>e. chunks_of m (order e)) [0..<epochs]))
    = Inr (map (\<lambda>is. dp_take is d) (concat (map (\<lambda>e. chunks_of m (order e)) [0..<epochs])))"
    by (rule map_res_pure) (rule step)
  then show ?thesis using t m by (simp add: make_iterator_def dvd_eq_mod_eq_0)
qed

definition row_op :: "('a, 'b) data_proto \<Rightarrow> ('a, 'b) data_proto res
    \<Rightarrow> (((string \<times> 'a) list \<times> (string \<times> 'b) list) list \<Rightarrow> ((string \<times> 'a) list \<times> (string \<times> 'b) list) list) \<Rightarrow> bool" where
  "row_op d r f \<longleftrightarrow> (\<exists>d'. r = Inr d' \<and> dp_wf d' \<and> dp_meta d' = dp_meta d \<and> dp_rows d' = f (dp_rows d))"

lemma row_op_take: "dp_wf d \<Longrightarrow> set is \<subseteq> {..<dp_len d} \<Longrightarrow> row_op d (Inr (dp_take is d)) (take_idx is)"
  by (simp add: row_op_def dp_wf_take dp_rows_take)

lemma length_dp_rows [simp]: "length (dp_rows d) = dp_len d"
  by (simp add: dp_rows_def)

lemma row_op_cong: "row_op d r f \<Longrightarrow> f (dp_rows d) = g (dp_rows d) \<Longrightarrow> row_op d r g"
  by (simp add: row_op_def)

lemma rows_of_takes:
  assumes "\<And>is. is \<in> set iss \<Longrightarrow> set is \<subseteq> {..<dp_len d}"
  shows "map dp_rows (map (\<lambda>is. dp_take is d) iss) = map (\<lambda>is. take_idx is (dp_rows d)) iss"
  using assms by (auto simp: dp_rows_take)

lemma take_chunks: "map (\<lambda>is. take_idx is xs) (chunks_of m [0..<length xs]) = chunks_of m xs"
proof -
  have "map (\<lambda>is. take_idx is xs) (chunks_of m [0..<length xs]) = chunks_of m (map ((!) xs) [0..<length xs])"
    unfolding take_idx_def by (rule map_map_chunks)
  then show ?thesis by (simp add: map_nth)
qed

lemma repeat_refines: "dp_wf d \<Longrightarrow> row_op d (dp_repeat d n il) (if il then repeat_each n else tile n)"
proof -
  assume wf: "dp_wf d"
  have "set ((if il then repeat_each n else tile n) [0..<dp_len d]) \<subseteq> {..<dp_len d}"
    using set_repeats[of n "[0..<dp_len d]"] by auto
  then show ?thesis unfolding dp_repeat_take[OF wf]
    using repeat_as_take[of n "dp_rows d"] by (intro row_op_cong[OF row_op_take[OF wf]]) auto
qed

lemma split_refines:
  assumes "dp_wf d" "0 < m"
  shows "\<exists>ds. dp_split d m = Inr ds \<and> map dp_rows ds = chunks_of m (dp_rows d)"
proof -
  have "set is \<subseteq> {..<dp_len d}" if "is \<in> set (chunks_of m [0..<dp_len d])" for "is"
    using chunks_of_sub[OF assms(2) that] by auto
  then show ?thesis
    using rows_of_takes[of "chunks_of m [0..<dp_len d]" d] take_chunks[of "dp_rows d" m]
    by (simp add: dp_split_take[OF assms] del: map_map)
qed

lemma iterator_refines:
  assumes wf: "dp_wf d" and m: "0 < m" "m dvd dp_len d" and b: "dp_batch d \<noteq> None"
    and order: "\<forall>e. set (order e) \<subseteq> {..<dp_len d}"
  shows "\<exists>ds. make_iterator order d m epochs = Inr ds \<and> (\<forall>q \<in> set ds. dp_wf q \<and> dp_meta q = dp_meta d) \<and>
    map dp_rows ds = concat (map (\<lambda>e. chunks_of m (take_idx (order e) (dp_rows d))) [0..<epochs])"
proof -
  let ?iss = "concat (map (\<lambda>e. chunks_of m (order e)) [0..<epochs])"
  have sub: "set is \<subseteq> {..<dp_len d}" if "is \<in> set ?iss" for "is"
  proof -
    from that obtain e where "is \<in> set (chunks_of m (order e))" by auto
    then show ?thesis using chunks_of_sub[OF m(1)] order by blast
  qed
  have "map (\<lambda>is. take_idx is (dp_rows d)) ?iss
      = concat (map (\<lambda>e. chunks_of m (take_idx (order e) (dp_rows d))) [0..<epochs])"
    by (simp add: map_concat o_def take_idx_def[abs_def] map_map_chunks)
  then have "map dp_rows (map (\<lambda>is. dp_take is d) ?iss)
      = concat (map (\<lambda>e. chunks_of m (take_idx (order e) (dp_rows d))) [0..<epochs])"
    using rows_of_takes[of ?iss d, OF sub] by simp
  moreover have "\<forall>q \<in> set (map (\<lambda>is. dp_take is d) ?iss). dp_wf q \<and> dp_meta q = dp_meta d"
    using sub by (auto simp: dp_wf_take[OF wf] simp del: set_concat)
  moreover have "make_iterator order d m epochs = Inr (map (\<lambda>is. dp_take is d) ?iss)"
    using make_iterator_take[OF wf b m] order by blast
  ultimately show ?thesis by blast
qed

text \<open>
  C16. The row operations refine operations on the sequence of rows. On a well-formed object, a slice with
  a positive step, a selection by indices or by a mask, an in-place reordering and a repetition return,
  keep the object well formed and its meta information, and change its rows exactly as the operation on
  lists says; \<open>split\<close> cuts the rows into consecutive pieces, and an iterator of mini-batches that divide the
  length yields, in every epoch, the rows in the order of the sampler.
\<close>

theorem data_proto_refines_rows:
  assumes wf: "dp_wf d"
  shows "(0 < the_default 1 step \<longrightarrow>
      row_op d (dp_slice d a b step) (take_idx (slice_indices (dp_len d) a b (the_default 1 step)))) \<and>
    (resolve_idxs (dp_len d) ix = Inr js \<longrightarrow> row_op d (select_idxs d ix) (take_idx js)) \<and>
    (resolve_idxs (dp_len d) (IntIdx is) = Inr js \<longrightarrow> dp_batch d \<noteq> None \<longrightarrow> row_op d (reorder d is) (take_idx js)) \<and>
    row_op d (dp_repeat d n interleave) (if interleave then repeat_each n else tile n) \<and>
    (0 < m \<longrightarrow> (\<exists>ds. dp_split d m = Inr ds \<and> map dp_rows ds = chunks_of m (dp_rows d))) \<and>
    (0 < m \<longrightarrow> m dvd dp_len d \<longrightarrow> dp_batch d \<noteq> None \<longrightarrow> (\<forall>e. set (order e) \<subseteq> {..<dp_len d}) \<longrightarrow>
      (\<exists>ds. make_iterator order d m epochs = Inr ds \<and> (\<forall>q \<in> set ds. dp_wf q \<and> dp_meta q = dp_meta d) \<and>
        map dp_rows ds = concat (map (\<lambda>e. chunks_of m (take_idx (order e) (dp_rows d))) [0..<epochs])))"
  using split_refines[OF wf] iterator_refines[OF wf] repeat_refines[OF wf]
  by (simp add: dp_slice_take[OF wf] select_idxs_take[OF wf] reorder_take[OF wf] row_op_take[OF wf]
      slice_indices_bounds resolve_within)

theorem data_proto_refines_rows_witness:
  "row_op ex_proto (select_idxs ex_proto (IntIdx [2, - 3])) (take_idx [2, 0])"
  using data_proto_refines_rows[OF ex_proto_ok(1), where ix = "IntIdx [2, - 3]" and js = "[2, 0]"]
  by (simp add: ex_proto_ok(3) resolve_idxs_def)

text \<open>
  Chunks. A well-formed non-empty object whose length is a multiple of \<open>k\<close> splits into \<open>k\<close> well-formed
  objects of equal length that hold its rows in order and its meta information, whether or not padding is
  enabled. With plain meta information \<open>concat\<close> of the chunks gives the object back, and for the chunks as
  worker results chunk \<open>i\<close> of their future fetches the \<open>i\<close>th of them.
\<close>

theorem chunk_concat_roundtrip:
  assumes wf: "dp_wf d" and k: "0 < k" "k dvd dp_len d" and n: "0 < dp_len d"
  shows "\<exists>ds. dp_chunk auto d k = Inr ds \<and> length ds = k \<and> concat (map dp_rows ds) = dp_rows d \<and>
    (\<forall>q \<in> set ds. dp_wf q \<and> dp_len q = dp_len d div k \<and> dp_meta q = dp_meta d) \<and>
    (plain_meta (dp_meta d) \<longrightarrow> dp_concat ds = Inr d \<and>
      (\<forall>i < k. future_get auto (future_chunk (future_concat ds) k ! i) = Inr (ds ! i)))"
proof -
  let ?iss = "map (even_chunk (dp_len d) k) [0..<k]"
  let ?ds = "map (\<lambda>is. dp_take is d) ?iss"
  have sub: "set is \<subseteq> {..<dp_len d}" if "is \<in> set ?iss" for "is"
    using that chunk_within[OF _ k(2)] by (fastforce simp: even_chunk_def)
  have cover: "concat ?iss = [0..<dp_len d]" using even_chunks_cover[OF k] .
  have chunk: "dp_chunk auto d k = Inr ?ds" using dp_chunk_even[OF wf k n] by (simp add: o_def)
  have "concat (map dp_rows ?ds) = take_idx (concat ?iss) (dp_rows d)"
    using rows_of_takes[of ?iss d, OF sub] by (simp add: take_idx_concat del: map_map)
  then have rows: "concat (map dp_rows ?ds) = dp_rows d" unfolding cover by (simp add: take_idx_all)
  have cat: "dp_concat ?ds = Inr d" if "plain_meta (dp_meta d)"
    using dp_concat_takes[OF wf that, of ?iss] k(1) cover dp_take_all[OF wf] by (simp del: map_map)
  have "future_get auto (future_chunk (future_concat ?ds) k ! i) = Inr (?ds ! i)"
    if "i < k" "plain_meta (dp_meta d)" for i
    using cat[OF that(2)] chunk that(1) by (simp add: future_get_def future_chunk_def future_concat_def)
  then show ?thesis
    using chunk rows cat sub wf by (intro exI[of _ ?ds]) (auto simp: dp_wf_take dp_len_take)
qed

theorem chunk_concat_roundtrip_example:
  "\<exists>ds. dp_chunk False ex_proto 3 = Inr ds \<and> length ds = 3 \<and> dp_concat ds = Inr ex_proto"
  using chunk_concat_roundtrip[OF ex_proto_ok(1), of 3 False] ex_proto_ok by auto

text \<open>
  With padding enabled, \<open>chunk\<close> lets a length through that is no multiple of the number of chunks, but
  then raises: five rows in four chunks are three tensordicts only.
\<close>

lemma uneven_chunk_raises:
  "dp_chunk True \<lparr>dp_batch = Some \<lparr>td_batch_size = 5, td_items = [(''ids'', [1, 2, 3, 4, 5 :: nat])]\<rparr>,
     dp_non_tensor = [] :: (string \<times> nat list) list, dp_meta = []\<rparr> 4 = Inl IndexError"
  by (simp add: dp_chunk_def is_padding_enabled_def dp_len_def chunk_lengths_def chunks_of.simps upt_rec
      nt_chunks_def mk_proto_def check_consistency_def map_values_def)

lemma unfold_without_keys_raises:
  "\<exists>msg. unfold_column_chunks \<lparr>dp_batch = None :: nat list tensordict option,
     dp_non_tensor = [(''uid'', [[1 :: nat]])], dp_meta = []\<rparr> 1 None = Inl (TypeError msg)"
  by (simp add: unfold_column_chunks_def)

end
