(* ===== verification/TorchFn.thy ===== *)
theory TorchFn
  imports Floats
begin

text \<open>
  The masked statistics of \<open>verl/utils/torch_functional.py\<close> on rank-2 tensors of finite values. A mask holds
  numbers, zero or one in use. Both tensors of an elementwise operation have the same shape; the
  broadcasting of different shapes is not modelled. A division whose divisor can be zero for sensible
  input gives a floating-point value (\<open>fdiv\<close>).
\<close>

type_synonym rtensor = "real tensor2"

definition tsum :: "rtensor \<Rightarrow> real" where
  "tsum t = sum_list (map sum_list (trows t))"

definition masked_value :: "real \<Rightarrow> real \<Rightarrow> real" where
  "masked_value v m = (if m \<noteq> 0 then v else 0) * m"

definition masked_sum :: "rtensor \<Rightarrow> rtensor \<Rightarrow> real" where
  "masked_sum vs ms = tsum (tmap2 masked_value vs ms)"

definition verlF_masked_mean :: "rtensor \<Rightarrow> rtensor \<Rightarrow> real" where
  "verlF_masked_mean vs ms = masked_sum vs ms / (tsum ms + 1 / 10 ^ 8)"

definition masked_var :: "rtensor \<Rightarrow> rtensor \<Rightarrow> bool \<Rightarrow> real res" where
  "masked_var vs ms unbiased =
     (let mean = verlF_masked_mean vs ms;
          variance = verlF_masked_mean (map_tensor2 (\<lambda>v. (v - mean)\<^sup>2) vs) ms;
          n = tsum ms
      in if \<not> unbiased then Inr variance
         else if n = 0 then Inl (ValueError ''At least one element in the mask has to be 1.'')
         else if n = 1 then Inl (ValueError ''The sum of the mask is one'')
         else Inr (variance * (n / (n - 1))))"

definition rsqrt :: "real \<Rightarrow> real" where
  "rsqrt x = 1 / sqrt x"

definition masked_whiten :: "rtensor \<Rightarrow> rtensor \<Rightarrow> bool \<Rightarrow> rtensor res" where
  "masked_whiten vs ms shift_mean =
     bind_res (masked_var vs ms True) (\<lambda>var.
       let mean = verlF_masked_mean vs ms
       in Inr (map_tensor2 (\<lambda>v. (v - mean) * rsqrt (var + 1 / 10 ^ 8) + (if shift_mean then 0 else mean)) vs))"

definition clip_by_value :: "real \<Rightarrow> real \<Rightarrow> real \<Rightarrow> real" where
  "clip_by_value lo hi x = max (min x hi) lo"

text \<open>\<open>torch.clamp(x, lo, hi)\<close>: the upper bound wins.\<close>

definition clamp :: "real \<Rightarrow> real \<Rightarrow> real \<Rightarrow> real" where
  "clamp lo hi x = min hi (max lo x)"

definition mask01 :: "rtensor \<Rightarrow> bool" where
  "mask01 m \<longleftrightarrow> (\<forall>r \<in> set (trows m). set r \<subseteq> {0, 1})"

lemma sum_list_nonneg_mask: "set r \<subseteq> {0, 1 :: real} \<Longrightarrow> 0 \<le> sum_list r"
  by (induction r) auto

lemma tsum_mask_nonneg: "mask01 m \<Longrightarrow> 0 \<le> tsum m"
  unfolding mask01_def tsum_def by (intro sum_list_nonneg) (auto intro: sum_list_nonneg_mask)

lemma masked_value_bin [simp]: "masked_value v 0 = 0" "masked_value v 1 = v"
  by (simp_all add: masked_value_def)

lemma masked_value_mult: "masked_value v m = v * m"
  by (simp add: masked_value_def)

lemma masked_sum_mult: "masked_sum v m = tsum (tmap2 (*) v m)"
  by (simp add: masked_sum_def masked_value_mult[abs_def])

lemma tsum_map_mult: "tsum (map_tensor2 (\<lambda>x. x * c) t) = tsum t * c"
  by (simp add: tsum_def o_def sum_list_mult_const)

lemma sum_list_mask_nat: "set r \<subseteq> {0, 1 :: real} \<Longrightarrow> \<exists>n. sum_list r = of_nat n"
proof (induction r)
  case (Cons x r)
  then obtain n where "sum_list r = of_nat n" by auto
  then show ?case using Cons.prems by (auto intro: exI[of _ n] exI[of _ "Suc n"])
qed (auto intro: exI[of _ 0])

lemma tsum_mask_nat: "mask01 m \<Longrightarrow> \<exists>n. tsum m = of_nat n"
proof (cases m)
  case (Tensor2 c rows)
  assume "mask01 m"
  then have "\<forall>r \<in> set rows. set r \<subseteq> {0, 1}" using Tensor2 by (simp add: mask01_def)
  then have "\<exists>n. sum_list (map sum_list rows) = of_nat n"
  proof (induction rows)
    case (Cons r rows)
    then obtain n where "sum_list (map sum_list rows) = of_nat n" by auto
    moreover obtain k where "sum_list r = of_nat k" using Cons.prems sum_list_mask_nat[of r] by auto
    ultimately show ?case by (auto intro: exI[of _ "k + n"])
  qed (auto intro: exI[of _ 0])
  then show ?thesis using Tensor2 by (simp add: tsum_def)
qed

lemma masked_sum_nonneg:
  assumes "mask01 m" "\<forall>r \<in> set (trows v). \<forall>x \<in> set r. 0 \<le> x"
  shows "0 \<le> masked_sum v m"
  unfolding masked_sum_def tsum_def tmap2_def
proof (intro sum_list_nonneg)
  fix y assume "y \<in> set (map sum_list (trows (Tensor2 (tcols v) (map2 (map2 masked_value) (trows v) (trows m)))))"
  then obtain a b where y: "y = sum_list (map2 masked_value a b)" and ab: "(a, b) \<in> set (zip (trows v) (trows m))" by auto
  show "0 \<le> y" unfolding y
  proof (intro sum_list_nonneg)
    fix z assume "z \<in> set (map2 masked_value a b)"
    then obtain p q where z: "z = masked_value p q" and pq: "(p, q) \<in> set (zip a b)" by auto
    have "q \<in> {0, 1}" "0 \<le> p"
      using assms set_zip_leftD[OF pq] set_zip_rightD[OF pq] set_zip_leftD[OF ab] set_zip_rightD[OF ab]
      by (auto simp: mask01_def)
    then show "0 \<le> z" by (auto simp: z)
  qed
qed

text \<open>Whitening is one affine map with a positive factor for all entries.\<close>

lemma masked_whiten_affine:
  assumes w: "masked_whiten v m True = Inr w" and bin: "mask01 m"
  shows "\<exists>mu c. 0 < c \<and> w = map_tensor2 (\<lambda>x. (x - mu) * c) v"
proof -
  from w obtain var where var: "masked_var v m True = Inr var"
    and out: "w = map_tensor2 (\<lambda>x. (x - verlF_masked_mean v m) * rsqrt (var + 1 / 10 ^ 8)) v"
    by (auto simp: masked_whiten_def res_simps Let_def)
  let ?sq = "map_tensor2 (\<lambda>x. (x - verlF_masked_mean v m)\<^sup>2) v"
  obtain n where n: "tsum m = of_nat n" using tsum_mask_nat[OF bin] by blast
  have "n \<noteq> 0" "n \<noteq> 1" and eq: "var = verlF_masked_mean ?sq m * (of_nat n / (of_nat n - 1))"
    using var n by (auto simp: masked_var_def Let_def split: if_splits)
  then have "(0 :: real) \<le> of_nat n / (of_nat n - 1)" by (cases n) auto
  moreover have "0 \<le> verlF_masked_mean ?sq m"
    using masked_sum_nonneg[OF bin, of ?sq] tsum_mask_nonneg[OF bin] by (auto simp: verlF_masked_mean_def)
  ultimately have "0 \<le> var" unfolding eq by (intro mult_nonneg_nonneg)
  then have "0 < rsqrt (var + 1 / 10 ^ 8)" by (simp add: rsqrt_def add_nonneg_pos)
  with out show ?thesis by blast
qed

end
