(* ===== verification/CoreAdv.thy ===== *)
theory CoreAdv
  imports TorchFn PyValues "HOL-Library.List_Lexorder" "HOL-Library.Char_ord"
begin

text \<open>
  The advantage estimators and KL controllers of \<open>verl/trainer/ppo/core_algos.py\<close>, with the group
  statistics of \<open>verl/utils/groupwise.py\<close>. Rewards, values and masks are finite; a batch is a rank-2 tensor,
  one row per response. Group labels are of any type. The estimators return the advantages and the
  returns, or the advantages twice where the source does.
\<close>

section \<open>KL controllers\<close>

datatype kl_controller =
    FixedKL real
  | AdaptiveKL real real real  \<comment> \<open>value, target, horizon\<close>

definition kl_value :: "kl_controller \<Rightarrow> real" where
  "kl_value c = (case c of FixedKL v \<Rightarrow> v | AdaptiveKL v t h \<Rightarrow> v)"

definition get_kl_controller :: "string \<Rightarrow> real \<Rightarrow> real \<Rightarrow> real \<Rightarrow> kl_controller res" where
  "get_kl_controller typ kl_coef target_kl horizon =
     (if typ = ''fixed'' then Inr (FixedKL kl_coef)
      else if typ = ''adaptive'' then
        (if 0 < horizon then Inr (AdaptiveKL kl_coef target_kl horizon)
         else Inl (AssertionError ''horizon must be larger than 0''))
      else Inl (NotImplementedError typ))"

definition kl_update :: "kl_controller \<Rightarrow> real \<Rightarrow> nat \<Rightarrow> kl_controller res" where
  "kl_update c current_kl n_steps =
     (case c of
        FixedKL v \<Rightarrow> Inr c
      | AdaptiveKL v target horizon \<Rightarrow>
          if target = 0 \<or> horizon = 0 then Inl ZeroDivisionError
          else let err = clamp (- 1/5) (1/5) (current_kl / target - 1);
                   mult = 1 + err * of_nat n_steps / horizon
               in Inr (AdaptiveKL (v * mult) target horizon))"

section \<open>Generalised advantage estimation\<close>

text \<open>
  The loop of one row, from its last token to its first. The state is the next value and the last
  advantage; the result is the list of the advantages in the order of the tokens.
\<close>

fun gae_row :: "real \<Rightarrow> real \<Rightarrow> (real \<times> real \<times> real) list \<Rightarrow> (real \<times> real) \<times> real list" where
  "gae_row gamma lam [] = ((0, 0), [])"
| "gae_row gamma lam ((reward, val, m) # rest) =
     (let ((nextvalue, lastgaelam), advs) = gae_row gamma lam rest;
          delta = reward + gamma * nextvalue - val;
          gae = delta + gamma * lam * lastgaelam;
          nextvalue' = val * m + (1 - m) * nextvalue;
          lastgaelam' = gae * m + (1 - m) * lastgaelam
      in ((nextvalue', lastgaelam'), lastgaelam' # advs))"

definition gae_rows :: "real \<Rightarrow> real \<Rightarrow> rtensor \<Rightarrow> rtensor \<Rightarrow> rtensor \<Rightarrow> rtensor" where
  "gae_rows gamma lam rewards vals ms =
     Tensor2 (tcols rewards)
       (map (\<lambda>(r, v, m). snd (gae_row gamma lam (zip r (zip v m)))) (zip (trows rewards) (zip (trows vals) (trows ms))))"

definition compute_gae_advantage_return ::
  "rtensor \<Rightarrow> rtensor \<Rightarrow> rtensor \<Rightarrow> real \<Rightarrow> real \<Rightarrow> (rtensor \<times> rtensor) res" where
  "compute_gae_advantage_return rewards vals ms gamma lam =
     (let advantages = gae_rows gamma lam rewards vals ms;
          returns = tmap2 (+) advantages vals
      in if tcols rewards = 0 then Inl (RuntimeError ''stack expects a non-empty TensorList'')
         else bind_res (masked_whiten advantages ms True) (\<lambda>whitened. Inr (whitened, returns)))"

section \<open>Outcome rewards by group\<close>

text \<open>\<open>defaultdict(list)\<close> filled in order: keys in order of first occurrence, each with its values in order.\<close>

definition push_to :: "'k \<Rightarrow> 'v \<Rightarrow> ('k \<times> 'v list) list \<Rightarrow> ('k \<times> 'v list) list" where
  "push_to k v d = AList.update k (the_default [] (map_of d k) @ [v]) d"

definition collect :: "('k \<times> 'v) list \<Rightarrow> ('k \<times> 'v list) list" where
  "collect kvs = fold (\<lambda>(k, v). push_to k v) kvs []"

definition sum_scores :: "rtensor \<Rightarrow> real list" where
  "sum_scores rewards = map sum_list (trows rewards)"

definition list_mean :: "real list \<Rightarrow> real" where
  "list_mean xs = sum_list xs / of_nat (length xs)"

text \<open>\<open>torch.std\<close> of at least two values, with Bessel's correction.\<close>

definition std_of :: "real list \<Rightarrow> real" where
  "std_of xs = sqrt (sum_list (map (\<lambda>x. (x - list_mean xs)\<^sup>2) xs) / (of_nat (length xs) - 1))"

definition group_mean :: "real list \<Rightarrow> real res" where
  "group_mean xs =
     (if length xs = 1 then Inr 0
      else if length xs > 1 then Inr (list_mean xs)
      else Inl (ValueError ''no score in prompt index''))"

definition group_std :: "real list \<Rightarrow> real" where
  "group_std xs = (if length xs = 1 then 1 else std_of xs)"

text \<open>
  The common frame: collect the scores by label, compute one statistic per group, then one scalar per
  response from its score and its group's scores.
\<close>

definition per_group ::
  "(real list \<Rightarrow> 's res) \<Rightarrow> ('s \<Rightarrow> real list \<Rightarrow> real \<Rightarrow> 'x) \<Rightarrow> 'k list \<Rightarrow> real list \<Rightarrow> 'x list res" where
  "per_group stat f index scores =
     (if length index < length scores then Inl IndexError
      else let id2score = collect (zip index scores)
           in bind_res (map_res (\<lambda>(k, xs). map_sum id (Pair k) (stat xs)) id2score) (\<lambda>id2stat.
              map_res (\<lambda>(k, s).
                 case (map_of id2stat k, map_of id2score k) of
                   (Some st, Some xs) \<Rightarrow> Inr (f st xs s)
                 | _ \<Rightarrow> Inl (KeyError ''index'')) (zip index scores)))"

text \<open>\<open>scores.unsqueeze(-1) * response_mask\<close>.\<close>

definition spread_rows :: "real list \<Rightarrow> rtensor \<Rightarrow> rtensor" where
  "spread_rows scores ms = trow_map (*) scores ms"

definition fspread :: "fl list \<Rightarrow> rtensor \<Rightarrow> fl tensor2" where
  "fspread scores ms = trow_map (\<lambda>s m. s * Fin m) scores ms"

definition twice :: "'x \<Rightarrow> 'x \<times> 'x" where
  "twice x = (x, x)"

definition compute_grpo_outcome_advantage ::
  "rtensor \<Rightarrow> rtensor \<Rightarrow> 'k list \<Rightarrow> real \<Rightarrow> bool \<Rightarrow> (fl tensor2 \<times> fl tensor2) res" where
  "compute_grpo_outcome_advantage rewards ms index epsilon norm_by_std =
     bind_res (per_group (\<lambda>xs. map_sum id (\<lambda>m. (m, group_std xs)) (group_mean xs))
         (\<lambda>(mean, std) _ s. if norm_by_std then fdiv (Fin (s - mean)) (std + epsilon) else Fin (s - mean))
         index (sum_scores rewards)) (\<lambda>scores.
       Inr (twice (fspread scores ms)))"

definition compute_rloo_outcome_advantage ::
  "rtensor \<Rightarrow> rtensor \<Rightarrow> 'k list \<Rightarrow> (rtensor \<times> rtensor) res" where
  "compute_rloo_outcome_advantage rewards ms index =
     bind_res (per_group group_mean
         (\<lambda>mean xs s. let n = of_nat (length xs)
            in if length xs > 1 then s * n / (n - 1) - mean * n / (n - 1) else s)
         index (sum_scores rewards)) (\<lambda>scores.
       Inr (twice (spread_rows scores ms)))"

definition compute_reinforce_plus_plus_baseline_outcome_advantage ::
  "rtensor \<Rightarrow> rtensor \<Rightarrow> 'k list \<Rightarrow> (rtensor \<times> rtensor) res" where
  "compute_reinforce_plus_plus_baseline_outcome_advantage rewards ms index =
     bind_res (per_group group_mean (\<lambda>mean _ s. s - mean) index (sum_scores rewards)) (\<lambda>scores.
     bind_res (masked_whiten (spread_rows scores ms) ms True) (\<lambda>whitened.
       Inr (twice (tmap2 (*) whitened ms))))"

definition count_nonzero :: "real list \<Rightarrow> nat" where
  "count_nonzero xs = length (filter (\<lambda>x. x \<noteq> 0) xs)"

definition compute_gpg_outcome_advantage ::
  "rtensor \<Rightarrow> rtensor \<Rightarrow> 'k list \<Rightarrow> real \<Rightarrow> (fl tensor2 \<times> fl tensor2) res" where
  "compute_gpg_outcome_advantage rewards ms index f_norm =
     (let scores = sum_scores rewards;
          alpha = of_nat (length scores) / of_nat (max 1 (count_nonzero scores))
      in bind_res (per_group group_mean (\<lambda>mean _ s. fdiv (Fin (alpha * (s - mean))) f_norm) index scores) (\<lambda>scalars.
           Inr (twice (fspread scalars ms))))"

text \<open>OPO: the baseline is the mean weighted by the response lengths, which are collected alongside.\<close>

definition opo_baseline :: "(real \<times> real) list \<Rightarrow> fl res" where
  "opo_baseline sl =
     (if length sl = 1 then Inr (Fin 0)
      else if length sl > 1
      then Inr (fdiv (Fin (sum_list (map (\<lambda>(s, l). l * s) sl))) (sum_list (map snd sl)))
      else Inl (ValueError ''no score in prompt index''))"

definition compute_opo_outcome_advantage ::
  "rtensor \<Rightarrow> rtensor \<Rightarrow> 'k list \<Rightarrow> (fl tensor2 \<times> fl tensor2) res" where
  "compute_opo_outcome_advantage rewards ms index =
     (let scores = sum_scores rewards; lens = sum_scores ms;
          id2sl = collect (zip index (zip scores lens))
      in if length index < length scores then Inl IndexError
         else bind_res (map_res (\<lambda>(k, sl). map_sum id (Pair k) (opo_baseline sl)) id2sl) (\<lambda>id2bsl.
              bind_res (map_res (\<lambda>(k, s). case map_of id2bsl k of None \<Rightarrow> Inl (KeyError ''index'') | Some b \<Rightarrow> Inr (Fin s - b))
                 (zip index scores)) (\<lambda>scalars.
                Inr (twice (fspread scalars ms)))))"

text \<open>
  Pass@k: only the best response of a group gets the gap to the second best. Which of several best
  responses \<open>torch.topk\<close> names does not matter, as the gap is zero then; here it is the first.
\<close>

definition best_two :: "real list \<Rightarrow> real \<times> real" where
  "best_two xs = (let ys = rev (sort xs) in (ys ! 0, ys ! 1))"

fun index_of :: "'v \<Rightarrow> 'v list \<Rightarrow> nat" where
  "index_of x [] = 0"
| "index_of x (y # ys) = (if x = y then 0 else Suc (index_of x ys))"

definition passk_group :: "bool \<Rightarrow> real \<Rightarrow> (real \<times> nat) list \<Rightarrow> (nat \<times> fl) res" where
  "passk_group norm_by_std epsilon members =
     (let rewards = map fst members
      in if length rewards < 2 then Inl (ValueError ''Pass@k requires at least 2 samples per group.'')
         else let (r_max, r_second) = best_two rewards;
                  i_max = snd (members ! index_of r_max rewards);
                  gap = r_max - r_second
              in Inr (i_max, if norm_by_std then fdiv (Fin gap) (std_of rewards + epsilon) else Fin gap))"

definition compute_grpo_passk_outcome_advantage ::
  "rtensor \<Rightarrow> rtensor \<Rightarrow> 'k list \<Rightarrow> real \<Rightarrow> bool option \<Rightarrow> (fl tensor2 \<times> fl tensor2) res" where
  "compute_grpo_passk_outcome_advantage rewards ms index epsilon norm_by_std =
     (let scores = sum_scores rewards; n = length scores
      in if length index < n then Inl IndexError
         else bind_res (map_res (\<lambda>(k, members). passk_group (the_default True norm_by_std) epsilon members)
                 (collect (zip index (zip scores [0..<n])))) (\<lambda>picks.
              Inr (twice (fspread (fold (\<lambda>(i, a) advs. advs[i := a]) picks (replicate n (Fin 0))) ms))))"

section \<open>Returns per token\<close>

text \<open>REINFORCE++: discounted returns that are reset after the end of the sequence.\<close>

fun rpp_row :: "real \<Rightarrow> (real \<times> real) list \<Rightarrow> real \<times> real list" where
  "rpp_row gamma [] = (0, [])"
| "rpp_row gamma ((reward, m) # rest) =
     (let (running, returns) = rpp_row gamma rest;
          running' = reward + gamma * running
      in (running' * m, running' # returns))"

definition compute_reinforce_plus_plus_outcome_advantage ::
  "rtensor \<Rightarrow> rtensor \<Rightarrow> real \<Rightarrow> (rtensor \<times> rtensor) res" where
  "compute_reinforce_plus_plus_outcome_advantage rewards ms gamma =
     (let returns = Tensor2 (tcols rewards) (map2 (\<lambda>r m. snd (rpp_row gamma (zip r m))) (trows rewards) (trows ms))
      in bind_res (masked_whiten returns ms True) (\<lambda>whitened. Inr (tmap2 (*) whitened ms, returns)))"

text \<open>\<open>x.flip(-1).cumsum(-1).flip(-1)\<close>: sums from each position to the end.\<close>

fun sums_to_end :: "real list \<Rightarrow> real list" where
  "sums_to_end [] = []"
| "sums_to_end (x # xs) = sum_list (x # xs) # sums_to_end xs"

definition rewards_to_go :: "rtensor \<Rightarrow> rtensor \<Rightarrow> rtensor" where
  "rewards_to_go rewards ms = Tensor2 (tcols rewards) (map sums_to_end (trows (tmap2 (*) rewards ms)))"

definition compute_remax_outcome_advantage :: "rtensor \<Rightarrow> real list \<Rightarrow> rtensor \<Rightarrow> rtensor \<times> rtensor" where
  "compute_remax_outcome_advantage rewards baselines ms =
     (let returns = rewards_to_go rewards ms
      in (tmap2 (-) returns (spread_rows baselines ms), returns))"

section \<open>Vectorised group statistics\<close>

text \<open>
  \<open>as_torch_index\<close> for integer labels, used as they are, and for strings: strings that all read as
  integers become those integers, otherwise each label becomes its rank among the sorted labels
  (\<open>np.unique\<close>). \<open>parse\<close> reads an integer.
\<close>

datatype labels = IntLabels "int list" | StrLabels "string list"

definition unique_inverse :: "('k :: linorder) list \<Rightarrow> int list" where
  "unique_inverse xs = map (\<lambda>x. int (length (filter (\<lambda>y. y < x) (remdups xs)))) xs"

definition as_torch_index :: "(string \<Rightarrow> int option) \<Rightarrow> labels \<Rightarrow> int list" where
  "as_torch_index parse index =
     (case index of
        IntLabels is \<Rightarrow> is
      | StrLabels ss \<Rightarrow>
          if \<forall>s \<in> set ss. parse s \<noteq> None then map (\<lambda>s. the_default 0 (parse s)) ss else unique_inverse ss)"

text \<open>\<open>index_add_\<close> into \<open>n\<close> zeros.\<close>

definition index_add :: "nat \<Rightarrow> nat list \<Rightarrow> real list \<Rightarrow> real list" where
  "index_add n gs xs = map (\<lambda>g. sum_list (map snd (filter (\<lambda>(h, _). h = g) (zip gs xs)))) [0..<n]"

definition group_mean_std :: "real list \<Rightarrow> int list \<Rightarrow> real \<Rightarrow> (real list \<times> real list \<times> real list) res" where
  "group_mean_std scores gidx eps =
     (if length scores \<noteq> length gidx then Inl (ValueError ''scores and gidx length mismatch'')
      else if gidx = [] \<or> Max (set gidx) = - 1 then Inr ([], [], [])
      else if \<exists>g \<in> set gidx. g < 0 then Inl IndexError
      else
        let gs = map nat gidx; n = nat (Max (set gidx)) + 1;
            count = index_add n gs (map (\<lambda>_. 1) scores);
            s1 = index_add n gs scores;
            mean = map2 (\<lambda>s c. s / max 1 c) s1 count;
            centered = map2 (\<lambda>s g. s - mean ! g) scores gs;
            var_num = index_add n gs (map (\<lambda>c. c * c) centered);
            std = map2 (\<lambda>v c. sqrt (max eps (v / max 1 (c - 1)))) var_num count
        in Inr (map2 (\<lambda>m c. if c \<le> 1 then 0 else m) mean count,
                map2 (\<lambda>s c. if c \<le> 1 then 1 else s) std count, count))"

definition compute_grpo_vectorized_outcome_advantage ::
  "(string \<Rightarrow> int option) \<Rightarrow> rtensor \<Rightarrow> rtensor \<Rightarrow> labels \<Rightarrow> real \<Rightarrow> bool \<Rightarrow> (fl tensor2 \<times> fl tensor2) res" where
  "compute_grpo_vectorized_outcome_advantage parse rewards ms index epsilon norm_by_std =
     (let scores = sum_scores rewards; gidx = as_torch_index parse index
      in bind_res (group_mean_std scores gidx 0) (\<lambda>(mean_g, std_g, _).
           if \<exists>g \<in> set gidx. g < 0 then Inl IndexError else Inr (twice (fspread (map2 (\<lambda>s g.
             if norm_by_std then fdiv (Fin (s - mean_g ! nat g)) (std_g ! nat g + epsilon)
             else Fin (s - mean_g ! nat g)) scores gidx) ms))))"

definition bincount :: "int list \<Rightarrow> real list \<Rightarrow> int \<Rightarrow> real" where
  "bincount gs weights g = sum_list (map snd (filter (\<lambda>(h, _). h = g) (zip gs weights)))"

definition compute_rloo_vectorized_outcome_advantage ::
  "rtensor \<Rightarrow> rtensor \<Rightarrow> ('k :: linorder) list \<Rightarrow> (rtensor \<times> rtensor) res" where
  "compute_rloo_vectorized_outcome_advantage rewards ms index =
     (let scores = sum_scores rewards; gs = unique_inverse index
      in if length index \<noteq> length scores then Inl (RuntimeError ''the weights should have the same length'')
         else Inr (twice (spread_rows (map2 (\<lambda>s g.
           let c = bincount gs (map (\<lambda>_. 1) gs) g
           in (c * s - bincount gs scores g) / max 1 (c - 1) * (if 1 < c then 1 else 0)) scores gs) ms)))"

section \<open>Groups\<close>

definition members :: "'k list \<Rightarrow> 'v list \<Rightarrow> 'k \<Rightarrow> 'v list" where
  "members index xs k = map snd (filter (\<lambda>(j, _). j = k) (zip index xs))"

lemma map_of_push: "map_of (push_to k v d) = (map_of d)(k \<mapsto> the_default [] (map_of d k) @ [v])"
  by (simp add: push_to_def update_conv')

lemma filter_no_key: "k \<notin> fst ` set kvs \<Longrightarrow> filter (\<lambda>(j, _). j = k) kvs = []"
  by (induction kvs) auto

lemma map_of_collect:
  "map_of (collect kvs) k =
     (if k \<in> fst ` set kvs then Some (map snd (filter (\<lambda>(j, _). j = k) kvs)) else None)"
proof -
  have "map_of (fold (\<lambda>(k, v). push_to k v) kvs d) k =
      (if k \<in> fst ` set kvs then Some (the_default [] (map_of d k) @ map snd (filter (\<lambda>(j, _). j = k) kvs))
       else map_of d k)" for d
    by (induction kvs arbitrary: d) (auto simp: map_of_push filter_no_key)
  from this[of "[]"] show ?thesis by (simp add: collect_def)
qed

lemma distinct_collect: "distinct (map fst (collect kvs))"
proof -
  have "distinct (map fst d) \<Longrightarrow> distinct (map fst (fold (\<lambda>(k, v). push_to k v) kvs d))" for d
    by (induction kvs arbitrary: d) (auto simp: push_to_def distinct_update)
  from this[of "[]"] show ?thesis by (simp add: collect_def)
qed

lemma members_nonempty: "k \<in> set index \<Longrightarrow> length index = length xs \<Longrightarrow> members index xs k \<noteq> []"
proof -
  assume "k \<in> set index" "length index = length xs"
  then obtain i where "i < length index" "index ! i = k" "(k, xs ! i) \<in> set (zip index xs)"
    by (auto simp: in_set_conv_nth set_zip)
  then show ?thesis by (force simp: members_def filter_empty_conv)
qed

lemma collect_members:
  assumes "length index = length xs" "(k, ys) \<in> set (collect (zip index xs))"
  shows "ys = members index xs k" "k \<in> set index"
  using assms map_of_is_SomeI[OF distinct_collect assms(2)] 
  by (auto simp: map_of_collect members_def split: if_splits dest: set_zip_leftD)

lemma per_group_eq:
  assumes stat: "\<And>xs. xs \<noteq> [] \<Longrightarrow> stat xs = Inr (g xs)" and len: "length index = length scores"
  shows "per_group stat f index scores
     = Inr (map2 (\<lambda>k s. f (g (members index scores k)) (members index scores k) s) index scores)"
proof -
  let ?d = "collect (zip index scores)"
  have "map_res (\<lambda>(k, xs). map_sum id (Pair k) (stat xs)) ?d = Inr (map (\<lambda>(k, xs). (k, g xs)) ?d)"
  proof (rule map_res_pure)
    fix p assume "p \<in> set ?d"
    then obtain k xs where p: "p = (k, xs)" "(k, xs) \<in> set ?d" by (metis surj_pair)
    then have "xs \<noteq> []" using collect_members[OF len p(2)] members_nonempty[OF _ len] by simp
    then show "(\<lambda>(k, xs). map_sum id (Pair k) (stat xs)) p = Inr ((\<lambda>(k, xs). (k, g xs)) p)"
      by (simp add: p stat)
  qed
  moreover have "map_res (\<lambda>(k, s). case (map_of (map (\<lambda>(k, xs). (k, g xs)) ?d) k, map_of ?d k) of
        (Some st, Some xs) \<Rightarrow> Inr (f st xs s) | _ \<Rightarrow> Inl (KeyError ''index'')) (zip index scores)
      = Inr (map2 (\<lambda>k s. f (g (members index scores k)) (members index scores k) s) index scores)"
  proof (rule map_res_pure)
    fix p assume p: "p \<in> set (zip index scores)"
    obtain k s where ks: "p = (k, s)" by force
    have "k \<in> fst ` set (zip index scores)" using p ks by force
    then have "map_of ?d k = Some (members index scores k)" by (simp add: map_of_collect members_def)
    then show "(\<lambda>(k, s). case (map_of (map (\<lambda>(k, xs). (k, g xs)) ?d) k, map_of ?d k) of
        (Some st, Some xs) \<Rightarrow> Inr (f st xs s) | _ \<Rightarrow> Inl (KeyError ''index'')) p
      = Inr ((\<lambda>(k, s). f (g (members index scores k)) (members index scores k) s) p)"
      by (simp add: ks map_of_map)
  qed
  ultimately show ?thesis using len by (simp add: per_group_def Let_def)
qed

definition mean_or_zero :: "real list \<Rightarrow> real" where
  "mean_or_zero xs = (if length xs = 1 then 0 else list_mean xs)"

lemma group_mean_eq: "xs \<noteq> [] \<Longrightarrow> group_mean xs = Inr (mean_or_zero xs)"
  by (cases xs) (auto simp: group_mean_def mean_or_zero_def)

section \<open>Leave-one-out advantages\<close>

text \<open>The score of a response against the mean score of the other responses of its group.\<close>

definition leave_one_out :: "real list \<Rightarrow> real \<Rightarrow> real" where
  "leave_one_out xs s = s - (sum_list xs - s) / (of_nat (length xs) - 1)"

lemma rloo_formula:
  assumes "1 < length xs"
  shows "s * of_nat (length xs) / (of_nat (length xs) - 1) - mean_or_zero xs * of_nat (length xs) / (of_nat (length xs) - 1)
     = leave_one_out xs s"
proof -
  define n :: real where "n = of_nat (length xs)"
  have n: "n \<noteq> 0" "n - 1 \<noteq> 0" using assms by (auto simp: n_def)
  have "mean_or_zero xs * n = sum_list xs" using assms n by (simp add: mean_or_zero_def list_mean_def n_def)
  moreover have "s * n / (n - 1) - t / (n - 1) = s - (t - s) / (n - 1)" for t
  proof -
    have "s * n - t = s * (n - 1) - (t - s)" by (simp add: algebra_simps)
    then have "(s * n - t) / (n - 1) = s * (n - 1) / (n - 1) - (t - s) / (n - 1)" by (simp only: diff_divide_distrib)
    then show ?thesis using n by (simp add: diff_divide_distrib)
  qed
  ultimately show ?thesis unfolding n_def[symmetric] leave_one_out_def by simp
qed

lemma vectorized_formula:
  assumes "1 < length xs"
  shows "(of_nat (length xs) * s - sum_list xs) / max 1 (of_nat (length xs) - 1) = leave_one_out xs s"
proof -
  define n :: real where "n = of_nat (length xs)"
  have n: "1 \<le> n - 1" using assms by (simp add: n_def)
  then have "n - 1 \<noteq> 0" by simp
  then have "(n * s - t) / (n - 1) = s - (t - s) / (n - 1)" for t by (simp add: field_simps)
  then show ?thesis using n unfolding n_def[symmetric] leave_one_out_def by (simp add: max_absorb2)
qed

lemma unique_inverse_inj:
  assumes "i < length xs" "j < length xs"
  shows "unique_inverse xs ! i = unique_inverse xs ! j \<longleftrightarrow> xs ! i = xs ! j"
proof -
  let ?rank = "\<lambda>x. length (filter (\<lambda>y. y < x) (remdups xs))"
  have less: "?rank x < ?rank y" if "x < y" "x \<in> set xs" for x y
  proof -
    have rank: "?rank x = card ({z. z < x} \<inter> set xs)" for x
      by (simp add: distinct_length_filter)
    have "{z. z < x} \<inter> set xs \<subset> {z. z < y} \<inter> set xs" using that by auto
    then show ?thesis unfolding rank by (intro psubset_card_mono) simp_all
  qed
  have "?rank (xs ! i) \<noteq> ?rank (xs ! j)" if "xs ! i \<noteq> xs ! j"
    using that less[of "xs ! i" "xs ! j"] less[of "xs ! j" "xs ! i"] assms
    by (cases "xs ! i" "xs ! j" rule: linorder_cases) simp_all
  then show ?thesis using assms by (auto simp: unique_inverse_def)
qed

lemma filter_zip_same_key:
  assumes "length gs = length xs" "length ks = length xs" "\<And>j. j < length xs \<Longrightarrow> gs ! j = g \<longleftrightarrow> ks ! j = k"
  shows "map snd (filter (\<lambda>(h, _). h = g) (zip gs xs)) = map snd (filter (\<lambda>(h, _). h = k) (zip ks xs))"
  using assms
proof (induction gs xs arbitrary: ks rule: list_induct2')
  case (4 g' gs x xs)
  then obtain k' ks' where k: "ks = k' # ks'" by (cases ks) auto
  have "gs ! j = g \<longleftrightarrow> ks' ! j = k" if "j < length xs" for j using 4(4)[of "Suc j"] that k by simp
  then show ?case using 4(1)[of ks'] 4(2,3) 4(4)[of 0] k by simp
qed auto

lemma bincount_members:
  assumes i: "i < length index" and len: "length index = length scores"
  shows "bincount (unique_inverse index) scores (unique_inverse index ! i) = sum_list (members index scores (index ! i))"
    "bincount (unique_inverse index) (map (\<lambda>_. 1) (unique_inverse index)) (unique_inverse index ! i)
       = of_nat (length (members index scores (index ! i)))"
proof -
  have l: "length (unique_inverse index) = length index" by (simp add: unique_inverse_def)
  have key: "unique_inverse index ! j = unique_inverse index ! i \<longleftrightarrow> index ! j = index ! i" if "j < length index" for j
    using unique_inverse_inj[OF that i] .
  show "bincount (unique_inverse index) scores (unique_inverse index ! i) = sum_list (members index scores (index ! i))"
    unfolding bincount_def members_def using key l len by (subst filter_zip_same_key[where ks = index]) auto
  have "map snd (filter (\<lambda>(h, _). h = unique_inverse index ! i) (zip (unique_inverse index) (map (\<lambda>_. 1) (unique_inverse index))))
      = map snd (filter (\<lambda>(h, _). h = index ! i) (zip index (map (\<lambda>_. 1 :: real) scores)))"
    using key l len by (subst filter_zip_same_key[where ks = index]) (auto simp: map_replicate_const)
  also have "\<dots> = map (\<lambda>_. 1) (members index scores (index ! i))"
    unfolding members_def by (simp add: zip_map2 filter_map o_def case_prod_beta')
  finally show "bincount (unique_inverse index) (map (\<lambda>_. 1) (unique_inverse index)) (unique_inverse index ! i)
       = of_nat (length (members index scores (index ! i)))"
    unfolding bincount_def by (simp add: sum_list_triv)
qed

lemma length_sum_scores [simp]: "length (sum_scores t) = length (trows t)"
  by (simp add: sum_scores_def)

lemma spread_rows_nth: "i < length xs \<Longrightarrow> i < length (trows ms) \<Longrightarrow> trows (spread_rows xs ms) ! i = map (\<lambda>m. xs ! i * m) (trows ms ! i)"
  by (simp add: spread_rows_def trow_map_def)

text \<open>
  RLOO and its vectorised form. With one label per response both return. On a response whose group
  has several members both give the score minus the mean score of the others, on every token of the
  mask; on a response alone in its group the loop keeps the score itself while the vectorised form gives
  zero, so the two are equal exactly up to groups of one.
\<close>

theorem rloo_leave_one_out:
  fixes index :: "('k :: linorder) list"
  assumes len: "length index = length (trows rewards)" and rows: "length (trows ms) = length (trows rewards)"
  shows "\<exists>a b. compute_rloo_outcome_advantage rewards ms index = Inr (a, a) \<and>
    compute_rloo_vectorized_outcome_advantage rewards ms index = Inr (b, b) \<and>
    (\<forall>i < length index.
       let g = members index (sum_scores rewards) (index ! i); s = sum_scores rewards ! i
       in if 1 < length g
          then trows a ! i = map (\<lambda>m. leave_one_out g s * m) (trows ms ! i) \<and> trows b ! i = trows a ! i
          else trows a ! i = map (\<lambda>m. s * m) (trows ms ! i) \<and> trows b ! i = map (\<lambda>m. 0) (trows ms ! i))"
proof -
  let ?s = "sum_scores rewards" and ?inv = "unique_inverse index"
  let ?n = "\<lambda>k. length (members index ?s k)"
  define as where "as = map2 (\<lambda>k s. if 1 < ?n k
      then s * of_nat (?n k) / (of_nat (?n k) - 1) - mean_or_zero (members index ?s k) * of_nat (?n k) / (of_nat (?n k) - 1)
      else s) index ?s"
  define bs where "bs = map2 (\<lambda>s g. let c = bincount ?inv (map (\<lambda>_. 1) ?inv) g
      in (c * s - bincount ?inv ?s g) / max 1 (c - 1) * (if 1 < c then 1 else 0)) ?s ?inv"
  have len': "length index = length ?s" using len by simp
  have a: "compute_rloo_outcome_advantage rewards ms index = Inr (spread_rows as ms, spread_rows as ms)"
    by (simp add: compute_rloo_outcome_advantage_def per_group_eq[OF group_mean_eq len'] twice_def Let_def as_def)
  have b: "compute_rloo_vectorized_outcome_advantage rewards ms index = Inr (spread_rows bs ms, spread_rows bs ms)"
    using len by (simp add: compute_rloo_vectorized_outcome_advantage_def twice_def Let_def bs_def)
  have l: "length ?inv = length index" "length as = length index" "length bs = length index"
    using len by (simp_all add: unique_inverse_def as_def bs_def)
  have bi: "bs ! i = (if 1 < ?n (index ! i) then leave_one_out (members index ?s (index ! i)) (?s ! i) else 0)"
    if i: "i < length index" for i
    using i len' l(1) bincount_members[OF i len'] vectorized_formula[of "members index ?s (index ! i)" "?s ! i"]
    by (simp add: Let_def bs_def)
  have ai: "as ! i = (if 1 < ?n (index ! i) then leave_one_out (members index ?s (index ! i)) (?s ! i) else ?s ! i)"
    if i: "i < length index" for i
    using i len' rloo_formula[of "members index ?s (index ! i)" "?s ! i"] by (simp add: as_def)
  have "trows (spread_rows as ms) ! i = map (\<lambda>m. as ! i * m) (trows ms ! i)"
    "trows (spread_rows bs ms) ! i = map (\<lambda>m. bs ! i * m) (trows ms ! i)" if "i < length index" for i
    using that len rows l by (simp_all add: spread_rows_nth)
  then have "\<forall>i < length index.
       let g = members index ?s (index ! i); s = ?s ! i
       in if 1 < length g
          then trows (spread_rows as ms) ! i = map (\<lambda>m. leave_one_out g s * m) (trows ms ! i) \<and>
            trows (spread_rows bs ms) ! i = trows (spread_rows as ms) ! i
          else trows (spread_rows as ms) ! i = map (\<lambda>m. s * m) (trows ms ! i) \<and>
            trows (spread_rows bs ms) ! i = map (\<lambda>m. 0) (trows ms ! i)"
    by (simp add: ai bi Let_def)
  with a b show ?thesis by blast
qed

theorem rloo_leave_one_out_example:
  "\<exists>a b. compute_rloo_outcome_advantage (Tensor2 1 [[3], [1], [5]]) (Tensor2 1 [[1], [1], [1]]) ''xxy'' = Inr (a, a) \<and>
     compute_rloo_vectorized_outcome_advantage (Tensor2 1 [[3], [1], [5]]) (Tensor2 1 [[1], [1], [1]]) ''xxy'' = Inr (b, b) \<and>
     trows a = [[2], [- 2], [5]] \<and> trows b = [[2], [- 2], [0]]"
proof -
  let ?r = "Tensor2 1 [[3], [1], [5 :: real]]" and ?m = "Tensor2 1 [[1], [1], [1 :: real]]"
  obtain a b where ab: "compute_rloo_outcome_advantage ?r ?m ''xxy'' = Inr (a, a)"
    "compute_rloo_vectorized_outcome_advantage ?r ?m ''xxy'' = Inr (b, b)" 
    and rows: "\<forall>i < length ''xxy''.
       let g = members ''xxy'' (sum_scores ?r) (''xxy'' ! i); s = sum_scores ?r ! i
       in if 1 < length g
          then trows a ! i = map (\<lambda>m. leave_one_out g s * m) (trows ?m ! i) \<and> trows b ! i = trows a ! i
          else trows a ! i = map (\<lambda>m. s * m) (trows ?m ! i) \<and> trows b ! i = map (\<lambda>m. 0) (trows ?m ! i)"
    using rloo_leave_one_out[of "''xxy''" ?r ?m] by auto
  have "length (trows a) = 3" "length (trows b) = 3"
    using ab by (auto simp: compute_rloo_outcome_advantage_def compute_rloo_vectorized_outcome_advantage_def Let_def
        twice_def spread_rows_def trow_map_def unique_inverse_def res_simps dest!: map_res_length simp: per_group_def split: if_splits)
  then show ?thesis using ab rows[rule_format, of 0] rows[rule_format, of 1] rows[rule_format, of 2]
    by (intro exI[of _ a] exI[of _ b])
       (auto simp: members_def sum_scores_def leave_one_out_def Let_def list_eq_iff_nth_eq less_Suc_eq numeral_3_eq_3 numeral_2_eq_2)
qed

section \<open>The vectorised group statistics agree with the loop\<close>

lemma index_add_members: "g < n \<Longrightarrow> index_add n gs xs ! g = sum_list (members gs xs g)"
  by (simp add: index_add_def members_def)

lemma length_index_add [simp]: "length (index_add n gs xs) = n"
  by (simp add: index_add_def)

lemma members_map: "members gs (map f xs) g = map f (members gs xs g)"
  by (simp add: members_def zip_map2 filter_map o_def case_prod_beta')

lemma members_map2:
  "members gs (map2 (\<lambda>s h. f s h) xs gs) g = map (\<lambda>s. f s g) (members gs xs g)"
  unfolding members_def by (induction xs gs rule: list_induct2') auto

lemma group_mean_std_eq:
  assumes len: "length scores = length gidx" and pos: "\<forall>g \<in> set gidx. 0 \<le> g" and g: "g \<in> set gidx"
    and gms: "group_mean_std scores gidx 0 = Inr (ms', sd', ct')"
  shows "ms' ! nat g = mean_or_zero (members (map nat gidx) scores (nat g))"
    "sd' ! nat g = group_std (members (map nat gidx) scores (nat g))"
proof -
  let ?gs = "map nat gidx" and ?n = "nat (Max (set gidx)) + 1"
  let ?xs = "members ?gs scores (nat g)"
  let ?count = "index_add ?n ?gs (map (\<lambda>_. 1) scores)" and ?s1 = "index_add ?n ?gs scores"
  define mn where "mn = map2 (\<lambda>s c. s / max 1 c) ?s1 ?count"
  define var where "var = index_add ?n ?gs (map (\<lambda>c. c * c) (map2 (\<lambda>s g. s - mn ! g) scores ?gs))"
  have lt: "nat g < ?n" using g by (simp add: nat_mono less_Suc_eq_le)
  have "Max (set gidx) \<in> set gidx" using g by (intro Max_in) auto
  then have "0 \<le> Max (set gidx)" using pos by blast
  then have ne: "gidx \<noteq> []" "Max (set gidx) \<noteq> - 1" using g by auto
  have cnt: "?count ! nat g = of_nat (length ?xs)"
    using lt by (simp add: index_add_members members_map sum_list_triv del: map_map)
  have xs: "?xs \<noteq> []" using members_nonempty[of "nat g" ?gs scores] g len by simp
  then have c1: "1 \<le> real (length ?xs)" by (cases ?xs) auto
  have mean: "mn ! nat g = list_mean ?xs"
    using lt cnt c1 by (simp add: mn_def index_add_members list_mean_def)
  have v: "var ! nat g = sum_list (map (\<lambda>x. (x - list_mean ?xs)\<^sup>2) ?xs)"
    unfolding var_def index_add_members[OF lt] members_map[of ?gs "\<lambda>c. c * c"] members_map2 using mean
    by (simp add: power2_eq_square o_def)
  have out: "ms' = map2 (\<lambda>m c. if c \<le> 1 then 0 else m) mn ?count"
    "sd' = map2 (\<lambda>s c. if c \<le> 1 then 1 else s) (map2 (\<lambda>v c. sqrt (max 0 (v / max 1 (c - 1)))) var ?count) ?count"
    using gms len ne pos unfolding group_mean_std_def Let_def mn_def[symmetric] var_def[symmetric]
    by (auto split: if_splits)
  have single: "real (length ?xs) \<le> 1 \<longleftrightarrow> length ?xs = 1" using xs by (cases ?xs) auto
  have lens: "length mn = ?n" "length var = ?n" by (simp_all add: mn_def var_def)
  show "ms' ! nat g = mean_or_zero ?xs"
    using lt cnt mean single lens by (simp add: out mean_or_zero_def)
  have nonneg: "0 \<le> sum_list (map (\<lambda>x. (x - list_mean ?xs)\<^sup>2) ?xs)" by (intro sum_list_nonneg) auto
  have "sqrt (max 0 (var ! nat g / max 1 (real (length ?xs) - 1))) = std_of ?xs" if "length ?xs \<noteq> 1"
  proof -
    have "2 \<le> length ?xs" using that xs by (cases ?xs rule: remdups_adj.cases) auto
    then have "max 1 (real (length ?xs) - 1) = real (length ?xs) - 1" by simp
    then show ?thesis using nonneg \<open>2 \<le> length ?xs\<close> by (simp add: std_of_def v max_absorb2)
  qed
  then show "sd' ! nat g = group_std ?xs"
    using lt cnt single lens by (simp add: out group_std_def)
qed

lemma group_mean_std_returns:
  "length scores = length gidx \<Longrightarrow> \<forall>g \<in> set gidx. 0 \<le> g \<Longrightarrow> \<exists>m s c. group_mean_std scores gidx eps = Inr (m, s, c)"
  by (cases "gidx = [] \<or> Max (set gidx) = - 1") (auto simp: group_mean_std_def Let_def)

text \<open>The loop and the vectorised form agree whenever the group indices are non-negative and separate the rows as the labels do.\<close>

lemma grpo_vectorized_on_groups:
  assumes len: "length index = length (trows rewards)" "length gidx = length index"
    and gidx: "as_torch_index parse labs = gidx" "\<forall>g \<in> set gidx. 0 \<le> g"
    and same: "\<forall>i < length index. \<forall>j < length index. gidx ! i = gidx ! j \<longleftrightarrow> index ! i = index ! j"
  shows "compute_grpo_vectorized_outcome_advantage parse rewards ms labs epsilon norm_by_std
     = compute_grpo_outcome_advantage rewards ms index epsilon norm_by_std"
proof -
  let ?s = "sum_scores rewards"
  have len': "length index = length ?s" "length ?s = length gidx" using len by simp_all
  obtain m sd c where gms: "group_mean_std ?s gidx 0 = Inr (m, sd, c)"
    using group_mean_std_returns[OF len'(2) gidx(2)] by blast
  have mem: "members (map nat gidx) ?s (nat (gidx ! i)) = members index ?s (index ! i)" if "i < length index" for i
    unfolding members_def
  proof (rule filter_zip_same_key)
    fix j assume "j < length ?s"
    then have "0 \<le> gidx ! j" "0 \<le> gidx ! i" "j < length index" using gidx(2) len len' that by auto
    then show "map nat gidx ! j = nat (gidx ! i) \<longleftrightarrow> index ! j = index ! i"
      using same that len by (auto simp: nat_eq_iff2)
  qed (use len len' in auto)
  have stats: "m ! nat (gidx ! i) = mean_or_zero (members index ?s (index ! i))"
    "sd ! nat (gidx ! i) = group_std (members index ?s (index ! i))" if i: "i < length index" for i
    using group_mean_std_eq[OF len'(2) gidx(2) _ gms, of "gidx ! i"] mem[OF i] i len by simp_all
  have pg: "per_group (\<lambda>xs. map_sum id (\<lambda>m. (m, group_std xs)) (group_mean xs)) f index ?s
      = Inr (map2 (\<lambda>k s. f (mean_or_zero (members index ?s k), group_std (members index ?s k)) (members index ?s k) s) index ?s)"
    for f :: "real \<times> real \<Rightarrow> real list \<Rightarrow> real \<Rightarrow> fl"
    by (rule per_group_eq[where g = "\<lambda>xs. (mean_or_zero xs, group_std xs)"]) (simp_all add: group_mean_eq len)
  let ?f = "\<lambda>mean std s. if norm_by_std then fdiv (Fin (s - mean)) (std + epsilon) else Fin (s - mean)"
  have "map2 (\<lambda>s g. ?f (m ! nat g) (sd ! nat g) s) ?s gidx
      = map2 (\<lambda>k s. ?f (mean_or_zero (members index ?s k)) (group_std (members index ?s k)) s) index ?s"
    using stats len len' by (intro nth_equalityI) auto
  moreover have "compute_grpo_outcome_advantage rewards ms index epsilon norm_by_std
      = Inr (twice (fspread (map2 (\<lambda>k s. ?f (mean_or_zero (members index ?s k)) (group_std (members index ?s k)) s) index ?s) ms))"
    unfolding compute_grpo_outcome_advantage_def pg by simp
  moreover have "compute_grpo_vectorized_outcome_advantage parse rewards ms labs epsilon norm_by_std
      = Inr (twice (fspread (map2 (\<lambda>s g. ?f (m ! nat g) (sd ! nat g) s) ?s gidx) ms))"
    using gidx(2) by (auto simp: compute_grpo_vectorized_outcome_advantage_def Let_def gidx(1) gms)
  ultimately show ?thesis by simp
qed

text \<open>
  C18. GRPO and its vectorised form, for every epsilon and with or without the standard deviation. On string labels that
  do not all read as integers, such as the uids of the trainer, and on non-negative integer labels, the vectorised
  estimator gives exactly what the loop gives on the same labels. String labels that all read as non-negative integers
  are grouped by these integers; so there it gives what the loop gives on the integers, which is what the loop gives on the
  labels when no two distinct labels read as the same integer.
\<close>

theorem grpo_vectorized_equals_loop:
  "(\<forall>is. length is = length (trows rewards) \<longrightarrow> (\<forall>g \<in> set is. 0 \<le> g) \<longrightarrow>
      compute_grpo_vectorized_outcome_advantage parse rewards ms (IntLabels is) epsilon norm_by_std
        = compute_grpo_outcome_advantage rewards ms is epsilon norm_by_std)
   \<and> (\<forall>ss. length ss = length (trows rewards) \<longrightarrow> (\<exists>s \<in> set ss. parse s = None) \<longrightarrow>
      compute_grpo_vectorized_outcome_advantage parse rewards ms (StrLabels ss) epsilon norm_by_std
        = compute_grpo_outcome_advantage rewards ms ss epsilon norm_by_std)
   \<and> (\<forall>ss is. length ss = length (trows rewards) \<longrightarrow> map parse ss = map Some is \<longrightarrow> (\<forall>g \<in> set is. 0 \<le> g) \<longrightarrow>
      compute_grpo_vectorized_outcome_advantage parse rewards ms (StrLabels ss) epsilon norm_by_std
        = compute_grpo_outcome_advantage rewards ms is epsilon norm_by_std
      \<and> (inj_on parse (set ss) \<longrightarrow>
        compute_grpo_vectorized_outcome_advantage parse rewards ms (StrLabels ss) epsilon norm_by_std
          = compute_grpo_outcome_advantage rewards ms ss epsilon norm_by_std))"
proof (intro conjI allI impI)
  fix "is" :: "int list" assume "length is = length (trows rewards)" "\<forall>g \<in> set is. 0 \<le> g"
  then show "compute_grpo_vectorized_outcome_advantage parse rewards ms (IntLabels is) epsilon norm_by_std
        = compute_grpo_outcome_advantage rewards ms is epsilon norm_by_std"
    by (intro grpo_vectorized_on_groups[where gidx = "is"]) (simp_all add: as_torch_index_def)
next
  fix ss assume len: "length ss = length (trows rewards)" and no: "\<exists>s \<in> set ss. parse s = None"
  have idx: "as_torch_index parse (StrLabels ss) = unique_inverse ss" using no by (auto simp: as_torch_index_def)
  show "compute_grpo_vectorized_outcome_advantage parse rewards ms (StrLabels ss) epsilon norm_by_std
        = compute_grpo_outcome_advantage rewards ms ss epsilon norm_by_std"
    by (rule grpo_vectorized_on_groups[OF len _ idx])
      (auto simp: unique_inverse_inj, auto simp: unique_inverse_def)
next
  fix ss "is" assume len: "length ss = length (trows rewards)" and ps: "map parse ss = map Some is" and pos: "\<forall>g \<in> set is. 0 \<le> g"
  have l: "length is = length ss" using ps by (metis length_map)
  have nth: "parse (ss ! i) = Some (is ! i)" if "i < length ss" for i
    using arg_cong[OF ps, of "\<lambda>xs. xs ! i"] that l by simp
  have idx: "as_torch_index parse (StrLabels ss) = is"
    using nth l by (auto simp: as_torch_index_def in_set_conv_nth intro!: nth_equalityI)
  show "compute_grpo_vectorized_outcome_advantage parse rewards ms (StrLabels ss) epsilon norm_by_std
        = compute_grpo_outcome_advantage rewards ms is epsilon norm_by_std"
    by (rule grpo_vectorized_on_groups[OF _ _ idx pos]) (simp_all add: len l)
  assume "inj_on parse (set ss)"
  then have "is ! i = is ! j \<longleftrightarrow> ss ! i = ss ! j" if "i < length ss" "j < length ss" for i j
    using nth that by (metis inj_onD nth_mem option.inject)
  then show "compute_grpo_vectorized_outcome_advantage parse rewards ms (StrLabels ss) epsilon norm_by_std
        = compute_grpo_outcome_advantage rewards ms ss epsilon norm_by_std"
    by (intro grpo_vectorized_on_groups[OF len l idx pos]) blast
qed

theorem grpo_vectorized_equals_loop_witness:
  "compute_grpo_vectorized_outcome_advantage (\<lambda>_. None) (Tensor2 1 [[3], [1], [5]]) (Tensor2 1 [[1], [1], [0]])
       (StrLabels [''u'', ''u'', ''v'']) (1 / 10 ^ 6) True
     = compute_grpo_outcome_advantage (Tensor2 1 [[3], [1], [5]]) (Tensor2 1 [[1], [1], [0]])
         [''u'', ''u'', ''v''] (1 / 10 ^ 6) True"
  by (rule grpo_vectorized_equals_loop[THEN conjunct2, THEN conjunct1, rule_format]) auto

text \<open>Distinct labels that read as the same integer fall into one group of the vectorised form.\<close>

lemma numeric_labels_merge:
  "parse ''1'' = Some 1 \<Longrightarrow> parse ''01'' = Some 1 \<Longrightarrow> as_torch_index parse (StrLabels [''1'', ''01'']) = [1, 1]"
  by (simp add: as_torch_index_def)

section \<open>GAE against its definition\<close>

text \<open>
  The textbook estimator on a sequence of (reward, value) pairs: the discounted sum of the temporal
  differences, with value zero after the last.
\<close>

definition td_error :: "real \<Rightarrow> (real \<times> real) list \<Rightarrow> nat \<Rightarrow> real" where
  "td_error gamma ts k = fst (ts ! k) + gamma * (if Suc k < length ts then snd (ts ! Suc k) else 0) - snd (ts ! k)"

definition gae_ref :: "real \<Rightarrow> real \<Rightarrow> (real \<times> real) list \<Rightarrow> real list" where
  "gae_ref gamma lam ts =
     map (\<lambda>t. \<Sum>k = t..<length ts. (gamma * lam) ^ (k - t) * td_error gamma ts k) [0..<length ts]"

definition hd_or_zero :: "real list \<Rightarrow> real" where
  "hd_or_zero xs = (case xs of [] \<Rightarrow> 0 | x # _ \<Rightarrow> x)"

lemma gae_ref_Cons:
  "gae_ref gamma lam ((r, v) # ts) =
     (r + gamma * hd_or_zero (map snd ts) - v + gamma * lam * hd_or_zero (gae_ref gamma lam ts)) # gae_ref gamma lam ts"
proof -
  let ?c = "gamma * lam" and ?n = "length ts"
  have shift: "td_error gamma ((r, v) # ts) (Suc k) = td_error gamma ts k" for k
    by (simp add: td_error_def)
  have tail: "(\<Sum>k = Suc t..<Suc ?n. ?c ^ (k - Suc t) * td_error gamma ((r, v) # ts) k)
      = (\<Sum>k = t..<?n. ?c ^ (k - t) * td_error gamma ts k)" for t
    by (subst sum.shift_bounds_Suc_ivl) (simp add: shift)
  have first: "td_error gamma ((r, v) # ts) 0 = r + gamma * hd_or_zero (map snd ts) - v"
    by (cases ts) (auto simp: td_error_def hd_or_zero_def)
  have "(\<Sum>k = 0..<Suc ?n. ?c ^ k * td_error gamma ((r, v) # ts) k)
      = td_error gamma ((r, v) # ts) 0 + (\<Sum>k = 0..<?n. ?c ^ Suc k * td_error gamma ts k)"
    by (simp add: sum.atLeast_Suc_lessThan sum.shift_bounds_Suc_ivl shift del: sum.op_ivl_Suc)
  also have "(\<Sum>k = 0..<?n. ?c ^ Suc k * td_error gamma ts k) = ?c * (\<Sum>k = 0..<?n. ?c ^ k * td_error gamma ts k)"
    by (simp add: sum_distrib_left mult.assoc)
  also have "(\<Sum>k = 0..<?n. ?c ^ k * td_error gamma ts k) = hd_or_zero (gae_ref gamma lam ts)"
    by (cases ts) (auto simp: gae_ref_def hd_or_zero_def upt_conv_Cons simp del: upt_Suc)
  finally have "(\<Sum>k = 0..<Suc ?n. ?c ^ k * td_error gamma ((r, v) # ts) k)
      = r + gamma * hd_or_zero (map snd ts) - v + ?c * hd_or_zero (gae_ref gamma lam ts)"
    using first by simp
  moreover have "[0..<Suc ?n] = 0 # map Suc [0..<?n]" by (simp add: upt_conv_Cons map_Suc_upt del: upt_Suc)
  ultimately show ?thesis unfolding gae_ref_def length_Cons
    by (simp add: tail del: upt_Suc sum.op_ivl_Suc)
qed

definition valid_tokens :: "(real \<times> real \<times> real) list \<Rightarrow> (real \<times> real) list" where
  "valid_tokens xs = map (\<lambda>(r, v, m). (r, v)) (filter (\<lambda>(r, v, m). m = 1) xs)"

definition at_valid :: "(real \<times> real \<times> real) list \<Rightarrow> 'v list \<Rightarrow> 'v list" where
  "at_valid xs ys = map snd (filter (\<lambda>((r, v, m), y). m = 1) (zip xs ys))"

lemma gae_row_valid:
  assumes "\<forall>(r, v, m) \<in> set xs. m = 0 \<or> m = 1" and "gae_row gamma lam xs = ((nv, la), advs)"
  shows "nv = hd_or_zero (map snd (valid_tokens xs)) \<and> la = hd_or_zero (gae_ref gamma lam (valid_tokens xs)) \<and>
    length advs = length xs \<and> at_valid xs advs = gae_ref gamma lam (valid_tokens xs)"
  using assms
proof (induction xs arbitrary: nv la advs)
  case Nil
  then show ?case by (simp add: hd_or_zero_def valid_tokens_def gae_ref_def at_valid_def)
next
  case (Cons x xs)
  obtain r v m where x: "x = (r, v, m)" by (metis prod_cases3)
  obtain nv' la' advs' where rec: "gae_row gamma lam xs = ((nv', la'), advs')" by (metis surj_pair)
  have ih: "nv' = hd_or_zero (map snd (valid_tokens xs))" "la' = hd_or_zero (gae_ref gamma lam (valid_tokens xs))"
      "length advs' = length xs" "at_valid xs advs' = gae_ref gamma lam (valid_tokens xs)"
    using Cons.IH[OF _ rec] Cons.prems(1) by auto
  consider "m = 0" | "m = 1" using Cons.prems(1) x by auto
  then show ?case
  proof cases
    case 1
    then show ?thesis using Cons.prems(2) ih by (auto simp: x rec Let_def valid_tokens_def at_valid_def)
  next
    case 2
    have vt: "valid_tokens (x # xs) = (r, v) # valid_tokens xs" using 2 by (simp add: x valid_tokens_def)
    show ?thesis using Cons.prems(2) ih 2 unfolding vt gae_ref_Cons
      by (auto simp: x rec Let_def at_valid_def hd_or_zero_def)
  qed
qed

definition row_tokens :: "rtensor \<Rightarrow> rtensor \<Rightarrow> rtensor \<Rightarrow> nat \<Rightarrow> (real \<times> real \<times> real) list" where
  "row_tokens rewards vals ms i = zip (trows rewards ! i) (zip (trows vals ! i) (trows ms ! i))"

text \<open>
  C17. Generalised advantage estimation. When \<open>compute_gae_advantage_return\<close> returns for tensors of one shape
  with a mask of zeros and ones, return minus value on the valid tokens of a row is the textbook estimator on
  the sequence of the valid tokens alone: tokens outside the mask are skipped, wherever they are. The
  advantages are these differences shifted and scaled by one offset and one positive factor for all tokens.
\<close>

theorem gae_skips_observations:
  assumes ok: "compute_gae_advantage_return rewards vals ms gamma lam = Inr (adv, ret)"
    and wf: "twf rewards" "twf vals" "twf ms" "tshape vals = tshape rewards" "tshape ms = tshape rewards"
    and bin: "mask01 ms"
  shows "\<exists>mu c. 0 < c \<and> (\<forall>i < length (trows rewards).
     at_valid (row_tokens rewards vals ms i) (map2 (-) (trows ret ! i) (trows vals ! i))
       = gae_ref gamma lam (valid_tokens (row_tokens rewards vals ms i)) \<and>
     trows adv ! i = map2 (\<lambda>R v. (R - v - mu) * c) (trows ret ! i) (trows vals ! i))"
proof -
  let ?raw = "gae_rows gamma lam rewards vals ms"
  from ok have ret: "ret = tmap2 (+) ?raw vals" and w: "masked_whiten ?raw ms True = Inr adv"
    by (auto simp: compute_gae_advantage_return_def Let_def res_simps split: if_splits)
  obtain mu c where c: "0 < c" and adv: "adv = map_tensor2 (\<lambda>x. (x - mu) * c) ?raw"
    using masked_whiten_affine[OF w bin] by blast
  have len: "length (trows vals) = length (trows rewards)" "length (trows ms) = length (trows rewards)"
    using wf by (simp_all add: tshape_def)
  have row: "at_valid (row_tokens rewards vals ms i) (map2 (-) (trows ret ! i) (trows vals ! i))
       = gae_ref gamma lam (valid_tokens (row_tokens rewards vals ms i)) \<and>
     trows adv ! i = map2 (\<lambda>R v. (R - v - mu) * c) (trows ret ! i) (trows vals ! i)"
    if i: "i < length (trows rewards)" for i
  proof -
    obtain nv la advs where g: "gae_row gamma lam (row_tokens rewards vals ms i) = ((nv, la), advs)" by (metis surj_pair)
    have "length (trows vals ! i) = tcols rewards" "length (trows rewards ! i) = tcols rewards" "length (trows ms ! i) = tcols rewards"
      using wf i len twf_row[of rewards i] twf_row[of vals i] twf_row[of ms i] by (simp_all add: tshape_def)
    then have tl: "length (row_tokens rewards vals ms i) = tcols rewards" "length (trows vals ! i) = tcols rewards"
      by (simp_all add: row_tokens_def)
    have raw: "trows ?raw ! i = advs" using g i len by (simp add: gae_rows_def row_tokens_def)
    have "\<forall>(r, v, m) \<in> set (row_tokens rewards vals ms i). m = 0 \<or> m = 1"
      using bin i len by (fastforce simp: row_tokens_def mask01_def dest: set_zip_rightD)
    then have v: "length advs = tcols rewards" "at_valid (row_tokens rewards vals ms i) advs
        = gae_ref gamma lam (valid_tokens (row_tokens rewards vals ms i))"
      using gae_row_valid[OF _ g] tl by auto
    have "trows ret ! i = map2 (+) advs (trows vals ! i)"
      using i len raw by (simp add: ret tmap2_def) (simp add: gae_rows_def)
    then have "map2 (-) (trows ret ! i) (trows vals ! i) = advs"
      "map2 (\<lambda>R v. (R - v - mu) * c) (trows ret ! i) (trows vals ! i) = map (\<lambda>x. (x - mu) * c) advs"
      using v(1) tl(2) by (auto intro!: nth_equalityI)
    moreover have "trows adv ! i = map (\<lambda>x. (x - mu) * c) advs"
      using i len raw by (simp add: adv gae_rows_def)
    ultimately show ?thesis using v(2) by simp
  qed
  show ?thesis using c row by blast
qed

theorem gae_skips_observations_witness:
  "\<exists>adv ret. compute_gae_advantage_return (Tensor2 3 [[0, 5, 1]]) (Tensor2 3 [[1, 7, 2]]) (Tensor2 3 [[1, 0, 1]]) 1 1
      = Inr (adv, ret) \<and> at_valid [(0, 1, 1), (5, 7, 0), (1, 2, 1)] (map2 (-) (trows ret ! 0) [1, 7, 2]) = [0, - 1]"
proof -
  let ?r = "Tensor2 3 [[0, 5, 1 :: real]]" and ?v = "Tensor2 3 [[1, 7, 2 :: real]]" and ?m = "Tensor2 3 [[1, 0, 1 :: real]]"
  obtain adv ret where ok: "compute_gae_advantage_return ?r ?v ?m 1 1 = Inr (adv, ret)"
    by (simp add: compute_gae_advantage_return_def masked_whiten_def masked_var_def Let_def tsum_def)
  have b: "mask01 ?m" by (simp add: mask01_def)
  have "at_valid (row_tokens ?r ?v ?m 0) (map2 (-) (trows ret ! 0) (trows ?v ! 0)) = gae_ref 1 1 (valid_tokens (row_tokens ?r ?v ?m 0))"
    using gae_skips_observations[OF ok _ _ _ _ _ b] by (auto simp: twf_def tshape_def)
  then show ?thesis using ok
    by (auto simp: row_tokens_def valid_tokens_def gae_ref_def td_error_def upt_rec numeral_2_eq_2)
qed

end
