(* ===== verification/CoreLoss.thy ===== *)
theory CoreLoss
  imports TorchFn PyValues
begin

text \<open>
  The losses of \<open>verl/trainer/ppo/core_algos.py\<close>: aggregation of a loss matrix over micro-batches and
  data-parallel ranks, the clipped policy objectives, the value loss and the KL estimates. Entries are
  finite; a scalar whose divisor may be zero is a floating-point value. Gradients are not modelled, so
  \<open>detach\<close> is the identity; an elementwise operation is written on the entries.
\<close>

section \<open>Aggregation\<close>

definition seq_sums :: "rtensor \<Rightarrow> rtensor \<Rightarrow> real list" where
  "seq_sums lm mk = map2 (\<lambda>l m. sum_list (map2 (*) l m)) (trows lm) (trows mk)"

definition seq_means :: "rtensor \<Rightarrow> rtensor \<Rightarrow> real list" where
  "seq_means lm mk =
     map2 (\<lambda>l m. sum_list (map2 (*) l m) / (sum_list m + 1 / 10 ^ 8)) (trows lm) (trows mk)"

definition seq_mask :: "rtensor \<Rightarrow> real list" where
  "seq_mask mk = map (\<lambda>m. if 0 < sum_list m then 1 else 0) (trows mk)"

definition vec_masked_sum :: "real list \<Rightarrow> real list \<Rightarrow> real" where
  "vec_masked_sum vs ms = sum_list (map2 masked_value vs ms)"

text \<open>A count that must be given when there are several ranks.\<close>

definition count_or :: "real option \<Rightarrow> nat \<Rightarrow> real \<Rightarrow> string \<Rightarrow> real res" where
  "count_or given dp_size own msg =
     (case given of Some n \<Rightarrow> Inr n | None \<Rightarrow> if 1 < dp_size then Inl (ValueError msg) else Inr own)"

definition agg_loss ::
  "rtensor \<Rightarrow> rtensor \<Rightarrow> string \<Rightarrow> nat \<Rightarrow> real option \<Rightarrow> real option \<Rightarrow> real option \<Rightarrow> fl res" where
  "agg_loss loss_mat loss_mask mode dp_size batch_num_tokens global_batch_size loss_scale_factor =
     (if mode = ''token-mean'' then
        bind_res (count_or batch_num_tokens dp_size (tsum loss_mask) ''batch_num_tokens is required'') (\<lambda>n.
          Inr (fdiv (Fin (masked_sum loss_mat loss_mask)) n * Fin (of_nat dp_size)))
      else if mode = ''seq-mean-token-sum'' \<or> mode = ''seq-mean-token-sum-norm'' then
        bind_res (count_or global_batch_size dp_size (sum_list (seq_mask loss_mask)) ''global_batch_size is required'') (\<lambda>n.
          let loss = fdiv (Fin (vec_masked_sum (seq_sums loss_mat loss_mask) (seq_mask loss_mask))) n * Fin (of_nat dp_size)
          in Inr (if mode = ''seq-mean-token-sum-norm''
                  then fdiv loss (the_default (of_nat (tcols loss_mask)) loss_scale_factor) else loss))
      else if mode = ''seq-mean-token-mean'' then
        bind_res (count_or global_batch_size dp_size (sum_list (seq_mask loss_mask)) ''global_batch_size is required'') (\<lambda>n.
          Inr (fdiv (Fin (vec_masked_sum (seq_means loss_mat loss_mask) (seq_mask loss_mask))) n * Fin (of_nat dp_size)))
      else Inl (ValueError ''Invalid loss_agg_mode''))"

section \<open>Elementwise pieces\<close>

definition tmap3 :: "('a \<Rightarrow> 'b \<Rightarrow> 'c \<Rightarrow> 'd) \<Rightarrow> 'a tensor2 \<Rightarrow> 'b tensor2 \<Rightarrow> 'c tensor2 \<Rightarrow> 'd tensor2" where
  "tmap3 f s t u = tmap2 (\<lambda>(a, b) c. f a b c) (tmap2 Pair s t) u"

definition as_num :: "bool \<Rightarrow> real" where
  "as_num b = (if b then 1 else 0)"

definition weigh :: "rtensor \<Rightarrow> rtensor option \<Rightarrow> rtensor" where
  "weigh losses weights = (case weights of None \<Rightarrow> losses | Some w \<Rightarrow> tmap2 (*) losses w)"

record actor_config =
  ac_clip_ratio :: real
  ac_clip_ratio_low :: "real option"
  ac_clip_ratio_high :: "real option"
  ac_clip_ratio_c :: "real option"
  ac_dp_size :: nat
  ac_batch_num_tokens :: "real option"
  ac_global_batch_size :: "real option"
  ac_loss_scale_factor :: "real option"

definition clip_low :: "actor_config \<Rightarrow> real" where
  "clip_low cfg = the_default (ac_clip_ratio cfg) (ac_clip_ratio_low cfg)"

definition clip_high :: "actor_config \<Rightarrow> real" where
  "clip_high cfg = the_default (ac_clip_ratio cfg) (ac_clip_ratio_high cfg)"

definition agg_with :: "actor_config \<Rightarrow> string \<Rightarrow> rtensor \<Rightarrow> rtensor \<Rightarrow> fl res" where
  "agg_with cfg mode losses mk =
     agg_loss losses mk mode (ac_dp_size cfg) (ac_batch_num_tokens cfg) (ac_global_batch_size cfg)
       (ac_loss_scale_factor cfg)"

definition approx_kl :: "rtensor \<Rightarrow> rtensor \<Rightarrow> rtensor" where
  "approx_kl old_lp lp = tmap2 (\<lambda>o_lp l. clamp (- 20) 20 (l - o_lp)) old_lp lp"

definition ppo_kl :: "rtensor \<Rightarrow> rtensor \<Rightarrow> real" where
  "ppo_kl nak mk = verlF_masked_mean (map_tensor2 uminus nak) mk"

section \<open>Clipped policy objectives\<close>

text \<open>One token of the dual-clip objective: the loss and the two indicators of clipping.\<close>

definition vanilla_token :: "real \<Rightarrow> real \<Rightarrow> real \<Rightarrow> real \<Rightarrow> real \<Rightarrow> real \<times> bool \<times> bool" where
  "vanilla_token low high c nak adv =
     (let ratio = exp nak;
          pg_losses1 = - adv * ratio;
          pg_losses2 = - adv * clamp (1 - low) (1 + high) ratio;
          clip_pg_losses1 = max pg_losses1 pg_losses2;
          pg_losses3 = - adv * c;
          clip_pg_losses2 = min pg_losses3 clip_pg_losses1
      in (if adv < 0 then clip_pg_losses2 else clip_pg_losses1,
          pg_losses1 < pg_losses2, pg_losses3 < clip_pg_losses1 \<and> adv < 0))"

type_synonym loss_metrics = "(string \<times> real) list"

definition compute_policy_loss_vanilla ::
  "rtensor \<Rightarrow> rtensor \<Rightarrow> rtensor \<Rightarrow> rtensor \<Rightarrow> string \<Rightarrow> actor_config \<Rightarrow> rtensor option \<Rightarrow> (fl \<times> loss_metrics) res" where
  "compute_policy_loss_vanilla old_lp lp adv mk mode cfg weights =
     (let c = the_default 3 (ac_clip_ratio_c cfg);
          nak = approx_kl old_lp lp;
          tok = tmap2 (vanilla_token (clip_low cfg) (clip_high cfg) c) nak adv
      in if \<not> 1 < c then Inl (AssertionError ''clip_ratio_c for dual-clip PPO should be greater than 1.0'')
         else bind_res (agg_with cfg mode (weigh (map_tensor2 fst tok) weights) mk) (\<lambda>loss.
           Inr (loss, [(''actor/pg_clipfrac'', verlF_masked_mean (map_tensor2 (\<lambda>t. as_num (fst (snd t))) tok) mk),
                       (''actor/ppo_kl'', ppo_kl nak mk),
                       (''actor/pg_clipfrac_lower'', verlF_masked_mean (map_tensor2 (\<lambda>t. as_num (snd (snd t))) tok) mk)])))"

text \<open>The deprecated form takes the clip ranges as arguments and aggregates locally.\<close>

definition compute_policy_loss ::
  "rtensor \<Rightarrow> rtensor \<Rightarrow> rtensor \<Rightarrow> rtensor \<Rightarrow> real \<Rightarrow> real option \<Rightarrow> real option \<Rightarrow> real \<Rightarrow> string
   \<Rightarrow> (fl \<times> real \<times> real \<times> real) res" where
  "compute_policy_loss old_lp lp adv mk cliprange low high c mode =
     (let nak = approx_kl old_lp lp;
          tok = tmap2 (vanilla_token (the_default cliprange low) (the_default cliprange high) c) nak adv
      in if \<not> 1 < c then Inl (AssertionError ''clip_ratio_c for dual-clip PPO should be greater than 1.0'')
         else bind_res (agg_loss (map_tensor2 fst tok) mk mode 1 None None None) (\<lambda>loss.
           Inr (loss, verlF_masked_mean (map_tensor2 (\<lambda>t. as_num (fst (snd t))) tok) mk, ppo_kl nak mk,
                verlF_masked_mean (map_tensor2 (\<lambda>t. as_num (snd (snd t))) tok) mk)))"

text \<open>DPPO: the truncated ratio, zeroed outside a divergence region.\<close>

definition dppo_tv_valid :: "real \<Rightarrow> real \<Rightarrow> real \<Rightarrow> real \<Rightarrow> real \<Rightarrow> bool" where
  "dppo_tv_valid low high old_lp lp adv =
     (if 0 < adv then exp lp - exp old_lp \<le> high else - low \<le> exp lp - exp old_lp)"

definition dppo_kl_valid :: "real \<Rightarrow> real \<Rightarrow> real \<Rightarrow> real \<Rightarrow> real \<Rightarrow> bool" where
  "dppo_kl_valid low high old_lp lp adv =
     (let p = exp lp; q = exp old_lp; e = 1 / 10 ^ 8;
          binary_kl = q * (old_lp - lp) + (1 - q) * ln ((1 - q + e) / (1 - p + e))
      in if 0 < adv then binary_kl \<le> high \<or> p \<le> q else binary_kl \<le> low \<or> q \<le> p)"

definition dppo_loss ::
  "(real \<Rightarrow> real \<Rightarrow> real \<Rightarrow> real \<Rightarrow> real \<Rightarrow> bool) \<Rightarrow> rtensor \<Rightarrow> rtensor \<Rightarrow> rtensor \<Rightarrow> rtensor \<Rightarrow> string \<Rightarrow> actor_config
   \<Rightarrow> rtensor option \<Rightarrow> (fl \<times> loss_metrics) res" where
  "dppo_loss valid old_lp lp adv mk mode cfg weights =
     (let c = the_default 20 (ac_clip_ratio_c cfg);
          nak = approx_kl old_lp lp;
          ratio = map_tensor2 exp nak;
          ok = tmap3 (\<lambda>q p a. as_num (valid (clip_low cfg) (clip_high cfg) q p a)) old_lp lp adv;
          losses = tmap3 (\<lambda>(a, r) l v. - a * min c r * l * v) (tmap2 Pair adv ratio) lp ok
      in bind_res (agg_with cfg mode (weigh losses weights) mk) (\<lambda>loss.
           Inr (loss, [(''actor/pg_clipfrac'', verlF_masked_mean (map_tensor2 (\<lambda>v. 1 - v) ok) mk),
                       (''actor/ppo_kl'', ppo_kl nak mk),
                       (''actor/pg_clipfrac_lower'', verlF_masked_mean (tmap2 (\<lambda>r v. as_num (c < r) * v) ratio ok) mk)])))"

definition compute_policy_loss_dppo_tv ::
  "rtensor \<Rightarrow> rtensor \<Rightarrow> rtensor \<Rightarrow> rtensor \<Rightarrow> string \<Rightarrow> actor_config \<Rightarrow> rtensor option \<Rightarrow> (fl \<times> loss_metrics) res" where
  "compute_policy_loss_dppo_tv = dppo_loss dppo_tv_valid"

definition compute_policy_loss_dppo_kl ::
  "rtensor \<Rightarrow> rtensor \<Rightarrow> rtensor \<Rightarrow> rtensor \<Rightarrow> string \<Rightarrow> actor_config \<Rightarrow> rtensor option \<Rightarrow> (fl \<times> loss_metrics) res" where
  "compute_policy_loss_dppo_kl = dppo_loss dppo_kl_valid"

text \<open>
  GSPO: one ratio per sequence, from the mean of its log ratios. In value, the token-level ratio is the
  sequence's: the difference of \<open>log_prob\<close> and its detached copy is zero.
\<close>

definition gspo_kl_seq :: "rtensor \<Rightarrow> rtensor \<Rightarrow> real list" where
  "gspo_kl_seq nak mk =
     map2 (\<lambda>k m. sum_list (map2 (*) k m) / max 1 (sum_list m)) (trows nak) (trows mk)"

definition compute_policy_loss_gspo ::
  "rtensor \<Rightarrow> rtensor \<Rightarrow> rtensor \<Rightarrow> rtensor \<Rightarrow> string \<Rightarrow> actor_config \<Rightarrow> rtensor option \<Rightarrow> (fl \<times> loss_metrics) res" where
  "compute_policy_loss_gspo old_lp lp adv mk mode cfg weights =
     (let nak = tmap2 (\<lambda>q p. p - q) old_lp lp;
          ratio = trow_map (\<lambda>k l. exp (min 10 (l - l + k))) (gspo_kl_seq nak mk) lp;
          losses1 = tmap2 (\<lambda>a r. - a * r) adv ratio;
          losses2 = tmap2 (\<lambda>a r. - a * clamp (1 - clip_low cfg) (1 + clip_high cfg) r) adv ratio
      in bind_res (agg_with cfg ''seq-mean-token-mean'' (weigh (tmap2 max losses1 losses2) weights) mk) (\<lambda>loss.
           Inr (loss, [(''actor/pg_clipfrac'', verlF_masked_mean (tmap2 (\<lambda>x y. as_num (x < y)) losses1 losses2) mk),
                       (''actor/ppo_kl'', ppo_kl nak mk), (''actor/pg_clipfrac_lower'', 0)])))"

definition compute_policy_loss_gpg ::
  "rtensor \<Rightarrow> rtensor \<Rightarrow> rtensor \<Rightarrow> rtensor \<Rightarrow> string \<Rightarrow> actor_config \<Rightarrow> rtensor option \<Rightarrow> (fl \<times> loss_metrics) res" where
  "compute_policy_loss_gpg old_lp lp adv mk mode cfg weights =
     bind_res (agg_with cfg mode (weigh (tmap2 (\<lambda>l a. - l * a) lp adv) weights) mk) (\<lambda>loss. Inr (loss, []))"

definition compute_policy_loss_cispo ::
  "rtensor \<Rightarrow> rtensor \<Rightarrow> rtensor \<Rightarrow> rtensor \<Rightarrow> string \<Rightarrow> actor_config \<Rightarrow> rtensor option \<Rightarrow> (fl \<times> loss_metrics) res" where
  "compute_policy_loss_cispo old_lp lp adv mk mode cfg weights =
     (let nak = approx_kl old_lp lp;
          ratio = map_tensor2 exp nak;
          clipped = map_tensor2 (clamp (1 - clip_low cfg) (1 + clip_high cfg)) ratio;
          losses = tmap3 (\<lambda>c a l. - c * a * l) clipped adv lp
      in bind_res (agg_with cfg mode (weigh losses weights) mk) (\<lambda>loss.
           Inr (loss, [(''actor/pg_clipfrac'', verlF_masked_mean (tmap2 (\<lambda>r c. as_num (r \<noteq> c)) ratio clipped) mk),
                       (''actor/ppo_kl'', ppo_kl nak mk), (''actor/pg_clipfrac_lower'', 0)])))"

text \<open>GMPO: geometric means over the tokens; the loss is the mean over the sequences.\<close>

definition geo_clip :: "real \<Rightarrow> real \<Rightarrow> real \<Rightarrow> real \<Rightarrow> real" where
  "geo_clip low high adv k = sgn adv * min (sgn adv * k) (sgn adv * clamp (- low) high k)"

definition compute_policy_loss_geo_mean ::
  "rtensor \<Rightarrow> rtensor \<Rightarrow> rtensor \<Rightarrow> rtensor \<Rightarrow> string \<Rightarrow> actor_config \<Rightarrow> rtensor option \<Rightarrow> (fl \<times> loss_metrics) res" where
  "compute_policy_loss_geo_mean old_lp lp adv mk mode cfg weights =
     (let low = clip_low cfg; high = clip_high cfg;
          nak = tmap2 (\<lambda>q p. p - q) old_lp lp;
          kl_min = tmap2 (geo_clip low high) adv nak;
          ratio = map exp (seq_means kl_min mk);
          advantage = seq_means adv mk;
          losses = map2 (\<lambda>a r. - a * r) advantage ratio;
          weighted = (case weights of
              None \<Rightarrow> losses
            | Some w \<Rightarrow> map2 (*) losses (map exp (seq_means (map_tensor2 (\<lambda>x. ln (x + 1 / 10 ^ 10)) w) mk)));
          clipped = map_tensor2 (\<lambda>k. k \<noteq> clamp (- low) high k) nak
      in Inr (fdiv (Fin (sum_list weighted)) (of_nat (length weighted)),
              [(''actor/pg_clipfrac'', verlF_masked_mean (tmap2 (\<lambda>c a. as_num (c \<and> 0 < a)) clipped adv) mk),
               (''actor/ppo_kl'', ppo_kl nak mk),
               (''actor/pg_clipfrac_lower'', verlF_masked_mean (tmap2 (\<lambda>c a. as_num (c \<and> a < 0)) clipped adv) mk)]))"

definition compute_policy_loss_reinforce ::
  "rtensor \<Rightarrow> rtensor \<Rightarrow> rtensor \<Rightarrow> rtensor \<Rightarrow> string \<Rightarrow> actor_config \<Rightarrow> rtensor option \<Rightarrow> (fl \<times> loss_metrics) res" where
  "compute_policy_loss_reinforce rollout_lp lp adv mk mode cfg weights =
     bind_res (agg_with cfg mode (weigh (tmap2 (\<lambda>a l. - a * l) adv lp) weights) mk) (\<lambda>loss.
       Inr (loss, [(''actor/ppo_kl'', ppo_kl (tmap2 (\<lambda>q p. p - q) rollout_lp lp) mk)]))"

section \<open>Entropy, values and KL\<close>

definition entropy_from_logits :: "real list \<Rightarrow> real" where
  "entropy_from_logits logits =
     (let z = sum_list (map exp logits)
      in ln z - sum_list (map (\<lambda>x. exp x / z * x) logits))"

definition compute_entropy_loss :: "real list tensor2 \<Rightarrow> rtensor \<Rightarrow> string \<Rightarrow> fl res" where
  "compute_entropy_loss logits mk mode = agg_loss (map_tensor2 entropy_from_logits logits) mk mode 1 None None None"

definition value_token :: "real \<Rightarrow> real \<Rightarrow> real \<Rightarrow> real \<Rightarrow> real \<times> bool" where
  "value_token cliprange vpred ret val =
     (let vclip = clip_by_value (val - cliprange) (val + cliprange) vpred;
          l1 = (vpred - ret)\<^sup>2; l2 = (vclip - ret)\<^sup>2
      in (max l1 l2, l1 < l2))"

definition compute_value_loss ::
  "rtensor \<Rightarrow> rtensor \<Rightarrow> rtensor \<Rightarrow> rtensor \<Rightarrow> real \<Rightarrow> string \<Rightarrow> (fl \<times> real) res" where
  "compute_value_loss vpreds returns vals mk cliprange mode =
     (let tok = tmap3 (value_token cliprange) vpreds returns vals
      in bind_res (agg_loss (map_tensor2 fst tok) mk mode 1 None None None) (\<lambda>loss.
           Inr (Fin (1 / 2) * loss, verlF_masked_mean (map_tensor2 (\<lambda>t. as_num (snd t)) tok) mk)))"

definition compute_rewards :: "rtensor \<Rightarrow> rtensor \<Rightarrow> rtensor \<Rightarrow> real \<Rightarrow> rtensor" where
  "compute_rewards scores old_lp ref_lp kl_ratio = tmap3 (\<lambda>s q r. s - (q - r) * kl_ratio) scores old_lp ref_lp"

definition kl_penalty_forward :: "rtensor \<Rightarrow> rtensor \<Rightarrow> string \<Rightarrow> rtensor res" where
  "kl_penalty_forward lp ref kind =
     (if kind \<in> {''kl'', ''k1''} then Inr (tmap2 (\<lambda>l r. l - r) lp ref)
      else if kind = ''abs'' then Inr (tmap2 (\<lambda>l r. \<bar>l - r\<bar>) lp ref)
      else if kind \<in> {''mse'', ''k2''} then Inr (tmap2 (\<lambda>l r. 1 / 2 * (l - r)\<^sup>2) lp ref)
      else if kind \<in> {''low_var_kl'', ''k3''} then
        Inr (tmap2 (\<lambda>l r. let kl = clamp (- 20) 20 (r - l) in clamp (- 10) 10 (exp kl - kl - 1)) lp ref)
      else Inl (NotImplementedError kind))"

text \<open>A trailing \<open>+\<close> changes the gradient only: the backward score is added and subtracted.\<close>

definition kl_penalty :: "rtensor \<Rightarrow> rtensor \<Rightarrow> string \<Rightarrow> rtensor res" where
  "kl_penalty lp ref kind =
     (let plus = kind \<noteq> [] \<and> last kind = CHR ''+'';
          base = (if plus then butlast kind else kind)
      in bind_res (kl_penalty_forward lp ref base) (\<lambda>forward_score.
           if \<not> plus \<or> kind \<in> {''mse'', ''k2''} then Inr forward_score
           else let backward = tmap2 (\<lambda>l r. 1 / 2 * (l - r)\<^sup>2) lp ref
                in Inr (tmap2 (\<lambda>b f. b - b + f) backward forward_score)))"

section \<open>The aggregate does not depend on the parallel layout\<close>

definition stack :: "'a tensor2 list \<Rightarrow> 'a tensor2" where
  "stack ts = Tensor2 (case ts of [] \<Rightarrow> 0 | t # _ \<Rightarrow> tcols t) (concat (map trows ts))"

definition agg_modes :: "string list" where
  "agg_modes = [''token-mean'', ''seq-mean-token-sum'', ''seq-mean-token-sum-norm'', ''seq-mean-token-mean'']"

text \<open>Numerator, denominator and final divisor of an aggregate.\<close>

definition agg_num :: "string \<Rightarrow> rtensor \<Rightarrow> rtensor \<Rightarrow> real" where
  "agg_num mode l m =
     (if mode = ''token-mean'' then masked_sum l m
      else vec_masked_sum (if mode = ''seq-mean-token-mean'' then seq_means l m else seq_sums l m) (seq_mask m))"

definition agg_den :: "string \<Rightarrow> real \<Rightarrow> real \<Rightarrow> real" where
  "agg_den mode tokens seqs = (if mode = ''token-mean'' then tokens else seqs)"

definition agg_scale :: "string \<Rightarrow> nat \<Rightarrow> real option \<Rightarrow> real" where
  "agg_scale mode w lsf = (if mode = ''seq-mean-token-sum-norm'' then the_default (of_nat w) lsf else 1)"

lemma agg_value:
  assumes "mode \<in> set agg_modes" "agg_den mode tokens seqs \<noteq> 0" "agg_scale mode (tcols m) lsf \<noteq> 0"
  shows "agg_loss l m mode dp (Some tokens) (Some seqs) lsf
     = Inr (Fin (agg_num mode l m / agg_den mode tokens seqs * of_nat dp / agg_scale mode (tcols m) lsf))"
proof -
  from assms(1) consider "mode = ''token-mean''" | "mode = ''seq-mean-token-sum''"
    | "mode = ''seq-mean-token-sum-norm''" | "mode = ''seq-mean-token-mean''" unfolding agg_modes_def by auto
  then show ?thesis using assms(2,3)
    by cases (simp_all add: agg_loss_def count_or_def agg_num_def agg_den_def agg_scale_def Let_def)
qed

lemma agg_own:
  "mode \<in> set agg_modes \<Longrightarrow> agg_loss l m mode 1 None None lsf
     = agg_loss l m mode 1 (Some (tsum m)) (Some (sum_list (seq_mask m))) lsf"
  by (simp add: agg_loss_def count_or_def)

lemma map2_append: "length a = length b \<Longrightarrow> map2 f (a @ xs) (b @ ys) = map2 f a b @ map2 f xs ys"
  by simp

lemma agg_num_stack:
  assumes "\<forall>(l, m) \<in> set ranks. length (trows l) = length (trows m)"
  shows "agg_num mode (stack (map fst ranks)) (stack (map snd ranks)) = sum_list (map (\<lambda>(l, m). agg_num mode l m) ranks)"
proof -
  let ?L = "\<lambda>rs. concat (map trows (map fst rs))" and ?M = "\<lambda>rs. concat (map trows (map snd rs))"
  have ms: "masked_sum (Tensor2 c (?L ranks)) (Tensor2 d (?M ranks)) = sum_list (map (\<lambda>(l, m). masked_sum l m) ranks)" for c d
    using assms by (induction ranks) (auto simp: masked_sum_def tsum_def tmap2_def)
  have vs: "vec_masked_sum (map2 f (?L ranks) (?M ranks)) (map g (?M ranks))
      = sum_list (map (\<lambda>(l, m). vec_masked_sum (map2 f (trows l) (trows m)) (map g (trows m))) ranks)" for f g
    using assms by (induction ranks) (auto simp: vec_masked_sum_def)
  have "masked_sum (stack (map fst ranks)) (stack (map snd ranks)) = sum_list (map (\<lambda>(l, m). masked_sum l m) ranks)"
    "vec_masked_sum (seq_sums (stack (map fst ranks)) (stack (map snd ranks))) (seq_mask (stack (map snd ranks)))
      = sum_list (map (\<lambda>(l, m). vec_masked_sum (seq_sums l m) (seq_mask m)) ranks)"
    "vec_masked_sum (seq_means (stack (map fst ranks)) (stack (map snd ranks))) (seq_mask (stack (map snd ranks)))
      = sum_list (map (\<lambda>(l, m). vec_masked_sum (seq_means l m) (seq_mask m)) ranks)"
    unfolding stack_def seq_sums_def seq_means_def seq_mask_def tensor2.sel ms vs by (rule refl)+
  then show ?thesis by (simp add: agg_num_def)
qed

text \<open>
  C19. The aggregated loss is invariant to data parallelism. Split a batch by rows over any number of ranks and
  give every rank the global counts: for each of the four modes the mean of the ranks' losses is the loss of
  the whole batch on a single rank with its own counts, provided the batch has a valid token, a sequence
  that is not fully masked and a non-zero scale factor.
\<close>

theorem agg_loss_rank_invariant:
  fixes ranks :: "(rtensor \<times> rtensor) list"
  defines "L \<equiv> stack (map fst ranks)" and "M \<equiv> stack (map snd ranks)"
  assumes ranks: "ranks \<noteq> []" "\<forall>(l, m) \<in> set ranks. length (trows l) = length (trows m) \<and> tcols m = w"
    and mode: "mode \<in> set agg_modes"
    and pos: "tsum M \<noteq> 0" "sum_list (seq_mask M) \<noteq> 0" "the_default (of_nat w) lsf \<noteq> 0"
  shows "\<exists>ls r. map_res (\<lambda>(l, m). agg_loss l m mode (length ranks) (Some (tsum M)) (Some (sum_list (seq_mask M))) lsf) ranks = Inr ls \<and>
    agg_loss L M mode 1 None None lsf = Inr (Fin r) \<and> fdiv (fsum ls) (of_nat (length ranks)) = Fin r"
proof -
  let ?D = "of_nat (length ranks) :: real" and ?N = "agg_den mode (tsum M) (sum_list (seq_mask M))"
  let ?s = "agg_scale mode w lsf"
  let ?v = "\<lambda>(l, m). agg_num mode l m / ?N * ?D / ?s"
  have nz: "?N \<noteq> 0" "?s \<noteq> 0" "?D \<noteq> 0" using pos ranks(1) by (auto simp: agg_den_def agg_scale_def)
  have w: "tcols M = w" using ranks by (cases ranks) (auto simp: M_def stack_def)
  have each: "map_res (\<lambda>(l, m). agg_loss l m mode (length ranks) (Some (tsum M)) (Some (sum_list (seq_mask M))) lsf) ranks
      = Inr (map (\<lambda>p. Fin (?v p)) ranks)"
    using ranks(2) mode nz by (intro map_res_pure) (auto simp: agg_value)
  have whole: "agg_loss L M mode 1 None None lsf = Inr (Fin (agg_num mode L M / ?N / ?s))"
    using agg_own[OF mode, of L M lsf] agg_value[OF mode nz(1), of M lsf L 1] nz(2) w by simp
  have "sum_list (map ?v ranks) = sum_list (map (\<lambda>(l, m). agg_num mode l m) ranks) * (?D / ?N / ?s)"
  proof -
    have "map ?v ranks = map (\<lambda>p. (case p of (l, m) \<Rightarrow> agg_num mode l m) * (?D / ?N / ?s)) ranks" by auto
    then show ?thesis by (simp only: sum_list_mult_const)
  qed
  also have "\<dots> = agg_num mode L M * (?D / ?N / ?s)"
  proof -
    have "\<forall>(l, m) \<in> set ranks. length (trows l) = length (trows m)" using ranks(2) by auto
    from agg_num_stack[OF this, of mode] show ?thesis by (simp add: L_def M_def)
  qed
  finally have sum: "sum_list (map ?v ranks) = agg_num mode L M * (?D / ?N / ?s)" .
  have "fsum (map (\<lambda>p. Fin (?v p)) ranks) = Fin (sum_list (map ?v ranks))"
    by (subst fsum_Fin) (auto simp: list_all_iff o_def)
  then have "fdiv (fsum (map (\<lambda>p. Fin (?v p)) ranks)) ?D = Fin (agg_num mode L M / ?N / ?s)"
    unfolding sum using nz by simp
  with each whole show ?thesis by blast
qed

theorem agg_loss_rank_invariant_witness:
  "\<exists>ls r. map_res (\<lambda>(l, m). agg_loss l m ''token-mean'' 2 (Some 3) (Some 2) None)
      [(Tensor2 2 [[1, 2]], Tensor2 2 [[1, 0]]), (Tensor2 2 [[3, 5]], Tensor2 2 [[1, 1]])] = Inr ls \<and>
    agg_loss (Tensor2 2 [[1, 2], [3, 5]]) (Tensor2 2 [[1, 0], [1, 1]]) ''token-mean'' 1 None None None = Inr (Fin r) \<and>
    fdiv (fsum ls) 2 = Fin r"
  using agg_loss_rank_invariant[of "[(Tensor2 2 [[1, 2]], Tensor2 2 [[1, 0]]), (Tensor2 2 [[3, 5]], Tensor2 2 [[1, 1]])]" 2 "''token-mean''" None]
  by (simp add: stack_def tsum_def seq_mask_def agg_modes_def numeral_2_eq_2)

section \<open>The clipped objective per token\<close>

lemma mult_max_min:
  fixes a x y :: real
  shows "0 \<le> a \<Longrightarrow> max (- (a * x)) (- (a * y)) = - (a * min x y)"
    "a \<le> 0 \<Longrightarrow> max (- (a * x)) (- (a * y)) = - (a * max x y)"
    "a \<le> 0 \<Longrightarrow> min (- (a * x)) (- (a * y)) = - (a * min x y)"
  by (auto simp: min_mult_distrib_left max_mult_distrib_left minus_min_eq_max minus_max_eq_min)

lemma vanilla_token_exact:
  assumes "- low \<le> high"
  shows "fst (vanilla_token low high c nak adv) =
    (if adv < 0 then - adv * min c (max (exp nak) (1 - low)) else - adv * min (exp nak) (1 + high))"
proof (cases "adv < 0")
  case True
  have "max (exp nak) (clamp (1 - low) (1 + high) (exp nak)) = max (exp nak) (1 - low)"
    using assms by (auto simp: clamp_def)
  then show ?thesis using True by (simp add: vanilla_token_def Let_def mult_max_min)
next
  case False
  have "min (exp nak) (clamp (1 - low) (1 + high) (exp nak)) = min (exp nak) (1 + high)"
    using assms by (auto simp: clamp_def)
  then show ?thesis using False by (simp add: vanilla_token_def Let_def mult_max_min)
qed

text \<open>
  C20. The dual-clip objective. For a clip range with \<open>1 - low \<le> 1 + high\<close> the vanilla policy loss returns exactly
  when the constant exceeds one and the aggregation does, and then it is the aggregate of the token losses
  \<open>-A min(r, 1 + high)\<close> for an advantage \<open>A \<ge> 0\<close> and \<open>-A min(c, max(r, 1 - low))\<close> for \<open>A < 0\<close>, with the
  ratio \<open>r\<close> within \<open>exp(-20)\<close> and \<open>exp(20)\<close>; so no token loss is below \<open>-A (1 + high)\<close> for a good token
  or above \<open>-A c\<close> for a bad one.
\<close>

theorem vanilla_loss_exact:
  fixes cfg :: actor_config
  defines "low \<equiv> clip_low cfg" and "high \<equiv> clip_high cfg" and "c \<equiv> the_default 3 (ac_clip_ratio_c cfg)"
  assumes range: "- low \<le> high"
  shows "map_sum id fst (compute_policy_loss_vanilla old_lp lp adv mk mode cfg weights) =
      (if 1 < c then agg_with cfg mode (weigh (tmap2 (\<lambda>nak a.
         if a < 0 then - a * min c (max (exp nak) (1 - low)) else - a * min (exp nak) (1 + high))
         (approx_kl old_lp lp) adv) weights) mk
       else Inl (AssertionError ''clip_ratio_c for dual-clip PPO should be greater than 1.0'')) \<and>
    (\<forall>nak a. let l = fst (vanilla_token low high c nak a)
       in (0 \<le> a \<longrightarrow> - a * (1 + high) \<le> l) \<and> (a < 0 \<longrightarrow> l \<le> - a * c))"
proof -
  have tok: "map_tensor2 fst (tmap2 (vanilla_token low high c) (approx_kl old_lp lp) adv)
      = tmap2 (\<lambda>nak a. if a < 0 then - a * min c (max (exp nak) (1 - low)) else - a * min (exp nak) (1 + high))
          (approx_kl old_lp lp) adv"
    by (simp add: tmap2_def o_def vanilla_token_exact[OF range] case_prod_beta')
  have bounds: "(0 \<le> a \<longrightarrow> - a * (1 + high) \<le> fst (vanilla_token low high c nak a)) \<and>
      (a < 0 \<longrightarrow> fst (vanilla_token low high c nak a) \<le> - a * c)" for nak a
    unfolding vanilla_token_exact[OF range]
    by (auto intro!: mult_left_mono mult_left_mono_neg simp del: mult_minus_left simp: mult_minus_left[symmetric])
  show ?thesis
  proof (cases "agg_with cfg mode (weigh (map_tensor2 fst (tmap2 (vanilla_token low high c) (approx_kl old_lp lp) adv)) weights) mk")
    case (Inl e)
    then show ?thesis using bounds tok
      by (simp add: compute_policy_loss_vanilla_def Let_def low_def high_def c_def)
  next
    case (Inr r)
    then show ?thesis using bounds tok
      by (simp add: compute_policy_loss_vanilla_def Let_def low_def high_def c_def)
  qed
qed

theorem vanilla_loss_exact_witness:
  "map_sum id fst (compute_policy_loss_vanilla (Tensor2 1 [[0]]) (Tensor2 1 [[0]]) (Tensor2 1 [[- 2]]) (Tensor2 1 [[1]])
     ''token-mean'' \<lparr>ac_clip_ratio = 1 / 5, ac_clip_ratio_low = None, ac_clip_ratio_high = None, ac_clip_ratio_c = None,
       ac_dp_size = 1, ac_batch_num_tokens = None, ac_global_batch_size = None, ac_loss_scale_factor = None\<rparr> None)
   = Inr (Fin 2)"
  using vanilla_loss_exact[of "\<lparr>ac_clip_ratio = 1 / 5, ac_clip_ratio_low = None, ac_clip_ratio_high = None, ac_clip_ratio_c = None,
       ac_dp_size = 1, ac_batch_num_tokens = None, ac_global_batch_size = None, ac_loss_scale_factor = None\<rparr>"
     "Tensor2 1 [[0]]" "Tensor2 1 [[0]]" "Tensor2 1 [[- 2]]" "Tensor2 1 [[1]]" "''token-mean''" None]
  by (simp add: clip_low_def clip_high_def agg_with_def agg_loss_def weigh_def approx_kl_def tmap2_def clamp_def
      count_or_def tsum_def masked_sum_def masked_value_def the_default_def)

end
