(* ===== verification/DataTools.thy ===== *)
theory DataTools
  imports PyValues "HOL-Library.List_Lexorder" "HOL-Library.Char_ord"
begin

text \<open>
  The preparation of the training problems: \<open>tools/extpi_rlsd/common.py\<close> (normal forms of a problem,
  n-gram overlap, JSON lines), \<open>prepare_opsd_data.py\<close> (one schema, removal of duplicates, quarantine of
  problems that overlap with an evaluation set) and \<open>check_eval_contamination.py\<close>. The hash, the fuzzy
  matcher and the JSON codec are parameters; \<open>rp\<close> is the text of a composite value and \<open>rq\<close> the \<open>repr\<close>
  of a string. A file is its text.
\<close>

section \<open>Normal forms and overlap\<close>

text \<open>\<open>re.sub(r"\s+", " ", text)\<close>; the flag says that the previous character was white space.\<close>

fun squeeze_from :: "bool \<Rightarrow> string \<Rightarrow> string" where
  "squeeze_from in_run [] = []"
| "squeeze_from in_run (c # cs) =
     (if is_space c then (if in_run then squeeze_from True cs else CHR '' '' # squeeze_from True cs)
      else c # squeeze_from False cs)"

definition normalize_problem :: "string \<Rightarrow> string" where
  "normalize_problem text = squeeze_from False (py_lower (py_strip text))"

definition stable_problem_id :: "(string \<Rightarrow> string) \<Rightarrow> string \<Rightarrow> string" where
  "stable_problem_id sha problem = sha (normalize_problem problem)"

definition compact_text :: "string \<Rightarrow> string" where
  "compact_text text = filter (\<lambda>c. is_word c \<and> c \<noteq> CHR ''_'') (py_lower text)"

definition ngram_set :: "string \<Rightarrow> nat \<Rightarrow> string set" where
  "ngram_set text n =
     (let tokens = runs is_word (py_lower text)
      in if length tokens < n then set tokens
         else set (map (\<lambda>i. py_join '' '' (slice i (i + n) tokens)) [0..<length tokens - n + 1]))"

definition jaccard :: "string set \<Rightarrow> string set \<Rightarrow> real" where
  "jaccard left right =
     (if left = {} \<and> right = {} then 1
      else if left = {} \<or> right = {} then 0
      else of_nat (card (left \<inter> right)) / of_nat (card (left \<union> right)))"

section \<open>JSON lines\<close>

text \<open>The lines of a text file opened with universal newlines, without their ends.\<close>

definition universal_newlines :: "string \<Rightarrow> string" where
  "universal_newlines s =
     map (\<lambda>c. if c = CHR 0x0D then CHR 0x0A else c) (py_replace [CHR 0x0D, CHR 0x0A] [CHR 0x0A] s)"

definition file_lines :: "string \<Rightarrow> string list" where
  "file_lines s = split_char (CHR 0x0A) (universal_newlines s)"

definition read_jsonl :: "(string \<Rightarrow> pydict res) \<Rightarrow> string \<Rightarrow> pydict list res" where
  "read_jsonl loads text = map_res loads (filter (\<lambda>line. py_strip line \<noteq> []) (file_lines text))"

definition write_jsonl :: "(pydict \<Rightarrow> string) \<Rightarrow> pydict list \<Rightarrow> string" where
  "write_jsonl dumps rows = concat (map (\<lambda>row. dumps row @ nl) rows)"

section \<open>One schema\<close>

definition PROBLEM_KEYS :: "string list" where
  "PROBLEM_KEYS = [''problem'', ''question'', ''prompt'', ''Question'']"

definition ANSWER_KEYS :: "string list" where
  "ANSWER_KEYS = [''gold_answer'', ''answer'', ''Answer'', ''final_answer'', ''target'']"

definition SOLUTION_KEYS :: "string list" where
  "SOLUTION_KEYS = [''source_solution'', ''solution'', ''COT_Reason'', ''reasoning'', ''reference_solution'']"

text \<open>\<open>_first\<close>: the first value that is neither missing nor blank.\<close>

definition not_blank :: "(pyval \<Rightarrow> string) \<Rightarrow> pyval \<Rightarrow> bool" where
  "not_blank rp v \<longleftrightarrow> v \<noteq> PNone \<and> py_strip (py_str rp v) \<noteq> []"

fun first_of :: "(pyval \<Rightarrow> string) \<Rightarrow> pydict \<Rightarrow> string list \<Rightarrow> pyval" where
  "first_of rp row [] = PNone"
| "first_of rp row (key # keys) =
     (let value = d_get key row in if not_blank rp value then value else first_of rp row keys)"

definition normalize_row ::
  "(pyval \<Rightarrow> string) \<Rightarrow> (string \<Rightarrow> string) \<Rightarrow> (string \<Rightarrow> string) \<Rightarrow> pydict \<Rightarrow> pyval \<Rightarrow> string \<Rightarrow> pydict res" where
  "normalize_row rp rq sha row dataset_revision source_split =
     (let problem = first_of rp row PROBLEM_KEYS; answer = first_of rp row ANSWER_KEYS
      in if problem = PNone
         then Inl (ValueError (''Cannot find problem field in row keys=''
                @ rp (PList (map PStr (sort (map fst row))))))
         else if answer = PNone
         then Inl (ValueError (''Cannot find answer field for problem='' @ rq (take 80 (py_str rp problem))))
         else Inr
           [(''id'', PStr (stable_problem_id sha (py_str rp problem))),
            (''problem'', PStr (py_str rp problem)),
            (''gold_answer'', PStr (py_str rp answer)),
            (''source_solution'', PStr (py_str rp (py_or (first_of rp row SOLUTION_KEYS) (PStr [])))),
            (''source_split'', PStr source_split),
            (''qwen32b_pi_trace'', PNone), (''qwen32b_pi_verified'', PBool False), (''qwen32b_pi_attempts'', PInt 0),
            (''qwen8b_pi_trace'', PNone), (''qwen8b_pi_verified'', PBool False), (''qwen8b_pi_attempts'', PInt 0),
            (''closed_teacher_output'', PNone), (''closed_teacher_verified'', PBool False),
            (''metadata'', PDict [(''dataset_revision'', dataset_revision), (''original_fields'', PDict row)])])"

section \<open>Overlap with the evaluation sets\<close>

text \<open>The fuzzy matcher is \<open>None\<close> when its package is missing.\<close>

definition is_contaminated ::
  "(string \<Rightarrow> string \<Rightarrow> real) option \<Rightarrow> string \<Rightarrow> string list \<Rightarrow> real \<Rightarrow> real \<Rightarrow> bool" where
  "is_contaminated fuzz problem eval_problems ngram_threshold fuzz_threshold =
     (let norm = normalize_problem problem; compact = compact_text problem; grams = ngram_set problem 5
      in list_ex (\<lambda>e.
           norm = normalize_problem e
         \<or> (compact \<noteq> [] \<and> compact = compact_text e)
         \<or> ngram_threshold \<le> jaccard grams (ngram_set e 5)
         \<or> (case fuzz of None \<Rightarrow> False | Some ratio \<Rightarrow> fuzz_threshold \<le> ratio norm (normalize_problem e)))
         eval_problems)"

text \<open>The problems of the evaluation rows (rows without a problem are skipped).\<close>

definition eval_problems_of :: "(pyval \<Rightarrow> string) \<Rightarrow> pydict list \<Rightarrow> string list" where
  "eval_problems_of rp rows =
     map (\<lambda>row. py_str rp (d_get ''problem'' row)) (filter (\<lambda>row. truthy (d_get ''problem'' row)) rows)"

section \<open>The preparation loop\<close>

definition counter_inc :: "string \<Rightarrow> (string \<times> nat) list \<Rightarrow> (string \<times> nat) list" where
  "counter_inc k c = d_set k (Suc (the_default 0 (map_of c k))) c"

definition counter_at :: "(string \<times> nat) list \<Rightarrow> string \<Rightarrow> nat" where
  "counter_at c k = the_default 0 (map_of c k)"

record prepare_state =
  ps_seen :: "pyval list"
  ps_clean :: "pydict list"
  ps_quarantine :: "pydict list"
  ps_stats :: "(string \<times> nat) list"

definition invalid_reason :: "string \<Rightarrow> string" where
  "invalid_reason message =
     (if contains ''answer field'' message then ''invalid_missing_answer''
      else if contains ''problem field'' message then ''invalid_missing_problem''
      else ''invalid_other'')"

definition prepare_step ::
  "(pydict \<Rightarrow> pydict res) \<Rightarrow> (string \<Rightarrow> bool) \<Rightarrow> bool \<Rightarrow> prepare_state \<Rightarrow> pydict \<Rightarrow> prepare_state res" where
  "prepare_step norm_row contaminated has_eval st source =
     (case norm_row source of
        Inl (ValueError message) \<Rightarrow>
          Inr (st\<lparr>ps_stats := counter_inc (invalid_reason message) (counter_inc ''invalid'' (ps_stats st))\<rparr>)
      | Inl e \<Rightarrow> Inl e
      | Inr row \<Rightarrow>
          (let rid = d_get ''id'' row
           in if rid \<in> set (ps_seen st) then Inr (st\<lparr>ps_stats := counter_inc ''duplicate'' (ps_stats st)\<rparr>)
              else let st1 = st\<lparr>ps_seen := rid # ps_seen st\<rparr>
                in if has_eval \<and> (case d_get ''problem'' row of PStr p \<Rightarrow> contaminated p | _ \<Rightarrow> False)
                   then Inr (st1\<lparr>ps_quarantine := ps_quarantine st @ [row],
                                 ps_stats := counter_inc ''contamination_quarantine'' (ps_stats st)\<rparr>)
                   else Inr (st1\<lparr>ps_clean := ps_clean st @ [row],
                                 ps_stats := counter_inc ''clean'' (ps_stats st)\<rparr>)))"

definition prepare_start :: prepare_state where
  "prepare_start = \<lparr>ps_seen = [], ps_clean = [], ps_quarantine = [], ps_stats = []\<rparr>"

record prepare_args =
  pa_revision :: pyval
  pa_split :: string
  pa_ngram_threshold :: real
  pa_fuzz_threshold :: real

text \<open>The body of \<open>main\<close>: the clean rows, the quarantined rows and the statistics of the manifest.\<close>

definition prepare_data ::
  "(pyval \<Rightarrow> string) \<Rightarrow> (string \<Rightarrow> string) \<Rightarrow> (string \<Rightarrow> string) \<Rightarrow> (string \<Rightarrow> string \<Rightarrow> real) option
   \<Rightarrow> prepare_args \<Rightarrow> pydict list \<Rightarrow> pydict list \<Rightarrow> prepare_state res" where
  "prepare_data rp rq sha fuzz args rows eval_rows =
     (let evals = eval_problems_of rp eval_rows
      in fold_res
           (prepare_step (\<lambda>row. normalize_row rp rq sha row (pa_revision args) (pa_split args))
              (\<lambda>p. is_contaminated fuzz p evals (pa_ngram_threshold args) (pa_fuzz_threshold args))
              (evals \<noteq> []))
           prepare_start rows)"

section \<open>The overlap check\<close>

text \<open>\<open>check_eval_contamination.py\<close>: the training rows whose problem has a normal form of an evaluation row.\<close>

definition overlap_hits :: "(pyval \<Rightarrow> string) \<Rightarrow> pydict list \<Rightarrow> pydict list \<Rightarrow> pydict list" where
  "overlap_hits rp eval_rows train_rows =
     (let problem = (\<lambda>row. py_str rp (d_get_or ''problem'' (PStr []) row));
          eval_norm = map (\<lambda>row. normalize_problem (problem row)) eval_rows;
          eval_compact = map (\<lambda>row. compact_text (problem row)) eval_rows
      in filter (\<lambda>row. normalize_problem (problem row) \<in> set eval_norm \<or> compact_text (problem row) \<in> set eval_compact)
           train_rows)"

section \<open>Normal forms: lemmas\<close>

lemma is_space_lower [simp]: "is_space (lower_char c) = is_space c"
proof -
  have "of_char c < (256::nat)" by simp
  then have "of_char (lower_char c) = (let n = of_char c :: nat
      in if in_range 65 90 n \<or> in_range 192 214 n \<or> in_range 216 222 n then n + 32 else n)"
    by (auto simp: lower_char_def Let_def in_range_def)
  then show ?thesis by (auto simp: is_space_def Let_def in_range_def)
qed

lemma squeeze_word: "list_all (\<lambda>c. \<not> is_space c) w \<Longrightarrow> w \<noteq> [] \<Longrightarrow> squeeze_from b (w @ s) = w @ squeeze_from False s"
  by (induction w arbitrary: b) (auto split: list.splits, metis append_Nil)

lemma squeeze_spaces: "squeeze_from True s = squeeze_from True (dropWhile is_space s)"
  by (induction s) auto

lemma squeeze_start: "s = [] \<or> \<not> is_space (hd s) \<Longrightarrow> squeeze_from False s = squeeze_from True s"
  by (cases s) auto

lemma runs_unfold:
  "runs P s = (case dropWhile (\<lambda>c. \<not> P c) s of [] \<Rightarrow> [] | c # cs \<Rightarrow> (c # takeWhile P cs) # runs P (dropWhile P cs))"
  by (rule runs.simps)

lemma runs_Nil_iff: "runs P s = [] \<longleftrightarrow> (\<forall>c \<in> set s. \<not> P c)"
proof -
  have "runs P s = [] \<longleftrightarrow> dropWhile (\<lambda>c. \<not> P c) s = []"
    by (subst runs_unfold) (cases "dropWhile (\<lambda>c. \<not> P c) s", simp_all only: list.case list.distinct simp_thms)
  then show ?thesis by (simp add: dropWhile_eq_Nil_conv)
qed

lemma runs_Nil [simp]: "runs P [] = []"
  by (simp add: runs_Nil_iff)

lemma runs_dropWhile: "runs P (dropWhile (\<lambda>c. \<not> P c) s) = runs P s"
  by (subst (1 2) runs_unfold) simp

lemma squeeze_words:
  "s = [] \<or> \<not> is_space (last s) \<Longrightarrow> squeeze_from True s = py_join '' '' (py_split s)"
proof (induction s rule: length_induct)
  case (1 s)
  let ?P = "\<lambda>c. \<not> is_space c"
  show ?case
  proof (cases "dropWhile is_space s")
    case Nil
    then have "s = []" using 1(2) last_in_set by fastforce
    then show ?thesis by (simp add: py_split_def runs_unfold)
  next
    case (Cons c cs)
    let ?w = "c # takeWhile ?P cs" and ?r = "dropWhile ?P cs"
    have c: "\<not> is_space c" using Cons by (metis hd_dropWhile list.distinct(1) list.sel(1))
    have w: "list_all ?P ?w" using c by (auto simp: list_all_iff dest: set_takeWhileD)
    have "c # cs = ?w @ ?r" by simp
    then have sq: "squeeze_from True s = ?w @ squeeze_from False ?r"
      using squeeze_spaces[of s] Cons squeeze_word[OF w, of True ?r] by simp
    have sp: "py_split s = ?w # py_split ?r"
      using Cons by (simp add: py_split_def runs_unfold[of _ s])
    obtain pre where pre: "s = pre @ ?w @ ?r" by (metis Cons \<open>c # cs = ?w @ ?r\<close> takeWhile_dropWhile_id)
    show ?thesis
    proof (cases ?r)
      case Nil
      have "py_split ?r = []" "squeeze_from False ?r = []" unfolding Nil by (simp_all add: py_split_def)
      then show ?thesis unfolding sq sp by simp
    next
      case (Cons d ds)
      have d: "is_space d" using Cons by (metis hd_dropWhile list.distinct(1) list.sel(1))
      have l: "last s = last ?r" using pre Cons by (metis last_appendR append_is_Nil_conv list.distinct(1))
      then have lr: "\<not> is_space (last ?r)" using 1(2) pre Cons by auto
      have "squeeze_from False ?r = '' '' @ squeeze_from True ?r" using Cons d by simp
      also have "squeeze_from True ?r = py_join '' '' (py_split ?r)"
        using 1(1) lr pre by (metis (no_types, lifting) add.commute length_append length_greater_0_conv less_add_same_cancel1 list.distinct(1) append_is_Nil_conv append.assoc)
      finally have f: "squeeze_from False ?r = '' '' @ py_join '' '' (py_split ?r)" .
      have "py_split ?r \<noteq> []" using lr Cons unfolding py_split_def runs_Nil_iff by (metis last_in_set list.distinct(1))
      then show ?thesis using sq sp f by (cases "py_split ?r") auto
    qed
  qed
qed

lemma runs_append_space:
  "list_all (\<lambda>c. \<not> P c) t \<Longrightarrow> runs P (s @ t) = runs P s"
proof (induction s rule: length_induct)
  case (1 s)
  show ?case
  proof (cases "dropWhile (\<lambda>c. \<not> P c) s")
    case Nil
    then have "\<forall>c \<in> set (s @ t). \<not> P c" using 1(2) by (auto simp: list_all_iff dropWhile_eq_Nil_conv)
    then show ?thesis using Nil by (metis runs_Nil_iff dropWhile_eq_Nil_conv)
  next
    case (Cons c cs)
    have d: "dropWhile (\<lambda>c. \<not> P c) (s @ t) = c # cs @ t"
      using Cons by (metis append_Cons dropWhile_append1 dropWhile_eq_Nil_conv list.distinct(1))
    have len: "length (dropWhile P cs) < length s"
      using length_dropWhile_le[of P cs] length_dropWhile_le[of "\<lambda>c. \<not> P c" s] Cons by simp
    have "takeWhile P (cs @ t) = takeWhile P cs \<and> runs P (dropWhile P (cs @ t)) = runs P (dropWhile P cs)"
    proof (cases "list_all P cs")
      case True
      have "takeWhile P t = []" "dropWhile P t = t" using 1(2) by (cases t; simp)+
      moreover have "runs P t = []" using 1(2) by (simp add: runs_Nil_iff list_all_iff)
      moreover have e: "dropWhile P cs = []" using True by (simp add: dropWhile_eq_Nil_conv list_all_iff)
      have "runs P (dropWhile P cs) = []" unfolding e by simp
      moreover have "takeWhile P cs = cs" using True by (simp add: takeWhile_eq_all_conv list_all_iff)
      ultimately show ?thesis using True by (simp add: list_all_iff takeWhile_append2 dropWhile_append2
            eq_commute[of cs] takeWhile_eq_all_conv)
    next
      case False
      then obtain x where "x \<in> set cs" "\<not> P x" by (auto simp: list_all_iff)
      then show ?thesis using 1 len by (simp add: takeWhile_append1 dropWhile_append1)
    qed
    then show ?thesis using Cons d by (simp add: runs_unfold[of _ s] runs_unfold[of _ "s @ t"])
  qed
qed

lemma lower_strip: "py_lower (py_strip s) = py_strip (py_lower s)"
  by (simp add: py_lower_def py_strip_def lstrip_def dropWhile_map rev_map o_def)

lemma split_strip: "py_split (py_strip s) = py_split s"
proof -
  let ?t = "lstrip s"
  have "rev (rev ?t) = rev (takeWhile is_space (rev ?t) @ lstrip (rev ?t))"
    by (simp only: lstrip_def takeWhile_dropWhile_id)
  then have "?t = py_strip s @ rev (takeWhile is_space (rev ?t))"
    by (simp only: rev_append rev_rev_ident py_strip_def)
  then have "py_split ?t = py_split (py_strip s @ rev (takeWhile is_space (rev ?t)))" by (rule arg_cong)
  also have "\<dots> = py_split (py_strip s)"
    unfolding py_split_def by (rule runs_append_space) (auto simp: list_all_iff dest: set_takeWhileD)
  finally have "py_split ?t = py_split (py_strip s)" .
  then show ?thesis using runs_dropWhile[of "\<lambda>c. \<not> is_space c" s] by (simp add: py_split_def lstrip_def)
qed

lemma strip_ends: "py_strip s = [] \<or> \<not> is_space (hd (py_strip s)) \<and> \<not> is_space (last (py_strip s))"
proof -
  let ?u = "lstrip (rev (lstrip s))"
  have l: "?u \<noteq> [] \<Longrightarrow> \<not> is_space (hd ?u)" unfolding lstrip_def by (rule hd_dropWhile)
  have "\<not> is_space (last ?u)" if "?u \<noteq> []"
  proof -
    have "last (takeWhile is_space (rev (lstrip s)) @ ?u) = last ?u" using that by (rule last_appendR)
    then have "last ?u = hd (lstrip s)"
      by (simp only: lstrip_def takeWhile_dropWhile_id last_rev)
    moreover have "lstrip s \<noteq> []"
    proof
      assume n: "lstrip s = []"
      have "?u = []" unfolding n by (simp add: lstrip_def)
      with that show False ..
    qed
    ultimately show ?thesis unfolding lstrip_def by (metis hd_dropWhile)
  qed
  with l show ?thesis unfolding py_strip_def by (auto simp: hd_rev last_rev)
qed

text \<open>A normal form is the lower-cased words with one space between them; so it is idempotent.\<close>

lemma normalize_problem_words: "normalize_problem s = py_join '' '' (py_split (py_lower s))"
  using squeeze_start[of "py_strip (py_lower s)"] squeeze_words[of "py_strip (py_lower s)"] strip_ends[of "py_lower s"]
  by (auto simp: normalize_problem_def lower_strip split_strip)

section \<open>JSON lines: lemmas\<close>

lemma py_replace_absent: "c \<notin> set s \<Longrightarrow> py_replace (c # p) r s = s"
  by (induction s) (auto simp: py_replace.simps starts_with_def)

lemma split_char_line: "sep \<notin> set w \<Longrightarrow> split_char sep (w @ sep # s) = w # split_char sep s"
  by (induction w) auto

lemma file_lines_written:
  assumes "\<And>row. row \<in> set rows \<Longrightarrow> CHR 0x0A \<notin> set (dumps row) \<and> CHR 0x0D \<notin> set (dumps row)"
  shows "file_lines (write_jsonl dumps rows) = map dumps rows @ [[]]"
proof -
  have cr: "CHR 0x0D \<notin> set (write_jsonl dumps rows)" using assms by (auto simp: write_jsonl_def nl_def)
  then have "map (\<lambda>c. if c = CHR 0x0D then CHR 0x0A else c) (write_jsonl dumps rows) = write_jsonl dumps rows"
    by (intro map_idI) auto
  with cr have "universal_newlines (write_jsonl dumps rows) = write_jsonl dumps rows"
    by (simp add: universal_newlines_def py_replace_absent)
  moreover have "split_char (CHR 0x0A) (write_jsonl dumps rows) = map dumps rows @ [[]]"
    using assms by (induction rows) (auto simp: write_jsonl_def nl_def split_char_line)
  ultimately show ?thesis by (simp add: file_lines_def)
qed

lemma jsonl_roundtrip:
  assumes "\<And>row. row \<in> set rows \<Longrightarrow> loads (dumps row) = Inr row \<and> py_strip (dumps row) \<noteq> [] \<and>
      CHR 0x0A \<notin> set (dumps row) \<and> CHR 0x0D \<notin> set (dumps row)"
  shows "read_jsonl loads (write_jsonl dumps rows) = Inr rows"
proof -
  have "filter (\<lambda>line. py_strip line \<noteq> []) (map dumps rows @ [[]]) = map dumps rows"
    using assms by (auto simp: filter_id_conv py_strip_def lstrip_def)
  moreover have "map_res (\<lambda>row. loads (dumps row)) rows = Inr (map id rows)"
    using assms by (intro map_res_pure) auto
  ultimately show ?thesis using assms by (simp add: read_jsonl_def file_lines_written map_res_map)
qed

section \<open>Overlap: lemmas\<close>

text \<open>
  The guard on empty compact texts does not reach the n-gram test: two problems without any word
  character have two empty n-gram sets, whose similarity is one.
\<close>

lemma wordless_contaminated:
  assumes "list_all (\<lambda>c. \<not> is_word (lower_char c)) problem" "list_all (\<lambda>c. \<not> is_word (lower_char c)) e"
    and "e \<in> set evals" "t \<le> 1"
  shows "is_contaminated fuzz problem evals t ft"
proof -
  have "ngram_set x 5 = {}" if "list_all (\<lambda>c. \<not> is_word (lower_char c)) x" for x
  proof -
    have "runs is_word (py_lower x) = []" using that by (auto simp: runs_Nil_iff py_lower_def list_all_iff)
    then show ?thesis by (simp add: ngram_set_def)
  qed
  with assms show ?thesis by (auto simp: is_contaminated_def Let_def list_ex_iff jaccard_def)
qed

lemma contaminated_same_normal_form:
  "e \<in> set evals \<Longrightarrow> normalize_problem e = normalize_problem p \<Longrightarrow> is_contaminated fuzz p evals t ft"
  unfolding is_contaminated_def Let_def list_ex_iff by (intro bexI[of _ e]) simp_all

lemma jaccard_bounds: "0 \<le> jaccard a b \<and> jaccard a b \<le> 1"
proof -
  have "card (a \<inter> b) \<le> card (a \<union> b) \<or> infinite (a \<union> b)" by (auto intro: card_mono)
  then show ?thesis by (auto simp: jaccard_def divide_le_eq_1)
qed

section \<open>The preparation loop: lemmas\<close>

lemma counter_at_inc [simp]: "counter_at (counter_inc k c) j = (if j = k then Suc (counter_at c k) else counter_at c j)"
  by (auto simp: counter_at_def counter_inc_def)

lemma counter_at_Nil [simp]: "counter_at [] k = 0"
  by (simp add: counter_at_def)

definition row_problem :: "pydict \<Rightarrow> string" where
  "row_problem row = (case d_get ''problem'' row of PStr p \<Rightarrow> p | _ \<Rightarrow> [])"

lemma normalize_row_cases:
  obtains (invalid) m where "normalize_row rp rq sha row rv sp = Inl (ValueError m)"
  | (row) r where "normalize_row rp rq sha row rv sp = Inr r"
      "d_get ''id'' r = PStr (sha (normalize_problem (row_problem r)))" "d_get ''problem'' r = PStr (row_problem r)"
proof (cases "normalize_row rp rq sha row rv sp")
  case (Inl e)
  with invalid show ?thesis by (auto simp: normalize_row_def Let_def split: if_splits)
next
  case (Inr r)
  then show ?thesis
    by (intro row) (auto simp: normalize_row_def Let_def d_get_def row_problem_def stable_problem_id_def split: if_splits)
qed

text \<open>What holds of the state after the rows \<open>done_rows\<close>.\<close>

definition prepare_inv ::
  "(pydict \<Rightarrow> pydict res) \<Rightarrow> (string \<Rightarrow> bool) \<Rightarrow> bool \<Rightarrow> pydict list \<Rightarrow> prepare_state \<Rightarrow> bool" where
  "prepare_inv norm_row contaminated has_eval done_rows st \<longleftrightarrow>
     (let kept = ps_clean st @ ps_quarantine st; n = counter_at (ps_stats st)
      in distinct (map (d_get ''id'') kept) \<and> set (ps_seen st) = d_get ''id'' ` set kept
       \<and> (\<forall>r \<in> set kept. \<exists>row \<in> set done_rows. norm_row row = Inr r)
       \<and> (\<forall>r \<in> set (ps_clean st). \<not> (has_eval \<and> contaminated (row_problem r)))
       \<and> (\<forall>r \<in> set (ps_quarantine st). has_eval \<and> contaminated (row_problem r))
       \<and> (\<forall>row \<in> set done_rows. \<forall>r. norm_row row = Inr r \<longrightarrow> d_get ''id'' r \<in> d_get ''id'' ` set kept)
       \<and> n ''clean'' = length (ps_clean st) \<and> n ''contamination_quarantine'' = length (ps_quarantine st)
       \<and> length done_rows = n ''clean'' + n ''contamination_quarantine'' + n ''duplicate'' + n ''invalid''
       \<and> n ''invalid'' = n ''invalid_missing_answer'' + n ''invalid_missing_problem'' + n ''invalid_other''
       \<and> n ''invalid'' = length (filter (\<lambda>row. \<forall>r. norm_row row \<noteq> Inr r) done_rows))"

lemma prepare_inv_start: "prepare_inv f c h [] prepare_start"
  by (simp add: prepare_inv_def prepare_start_def)

lemma prepare_step_inv:
  assumes inv: "prepare_inv f c h done_rows st"
    and row: "(\<exists>m. f row = Inl (ValueError m)) \<or> (\<exists>r. f row = Inr r \<and> d_get ''problem'' r = PStr (row_problem r))"
  shows "\<exists>st'. prepare_step f c h st row = Inr st' \<and> prepare_inv f c h (done_rows @ [row]) st'"
proof -
  from row consider (invalid) m where "f row = Inl (ValueError m)"
    | (valid) r where "f row = Inr r" "d_get ''problem'' r = PStr (row_problem r)" by blast
  then show ?thesis
  proof cases
    case invalid
    then show ?thesis using inv by (auto simp: prepare_step_def prepare_inv_def Let_def invalid_reason_def)
  next
    case valid
    show ?thesis
    proof (cases "d_get ''id'' r \<in> set (ps_seen st)")
      case True
      then show ?thesis using inv valid
        by (simp add: prepare_step_def prepare_inv_def Let_def)
    next
      case False
      then show ?thesis using inv valid
        by (cases "h \<and> c (row_problem r)")
          (auto simp: prepare_step_def prepare_inv_def Let_def)
    qed
  qed
qed

lemma prepare_loop_inv:
  assumes rows: "\<And>row. row \<in> set rows \<Longrightarrow>
      (\<exists>m. f row = Inl (ValueError m)) \<or> (\<exists>r. f row = Inr r \<and> d_get ''problem'' r = PStr (row_problem r))"
    and "prepare_inv f c h done_rows st"
  shows "\<exists>st'. fold_res (prepare_step f c h) st rows = Inr st' \<and> prepare_inv f c h (done_rows @ rows) st'"
  using assms
proof (induction rows arbitrary: done_rows st)
  case (Cons row rows)
  from prepare_step_inv[OF Cons.prems(2), of row] Cons.prems(1)[of row] obtain st' where
    st': "prepare_step f c h st row = Inr st'" "prepare_inv f c h (done_rows @ [row]) st'" by auto
  with Cons.IH[OF Cons.prems(1) st'(2)] show ?case by simp
qed simp

section \<open>Property\<close>

text \<open>
  C21. The preparation of the training data never raises and accounts for every source row: each is clean,
  quarantined, a duplicate or invalid, and the statistics say how many are which. No two rows that are kept
  have the same problem up to case and white space; a row is quarantined exactly when it overlaps with the
  evaluation problems; and every valid source row is represented by a row that is kept.
\<close>

theorem prepared_data_partition:
  "\<exists>st. prepare_data rp rq sha fuzz args rows eval_rows = Inr st \<and>
     (let kept = ps_clean st @ ps_quarantine st; n = counter_at (ps_stats st); evals = eval_problems_of rp eval_rows;
          valid = {r. \<exists>row \<in> set rows. normalize_row rp rq sha row (pa_revision args) (pa_split args) = Inr r};
          overlaps = (\<lambda>r. is_contaminated fuzz (row_problem r) evals (pa_ngram_threshold args) (pa_fuzz_threshold args))
      in distinct (map (\<lambda>r. normalize_problem (row_problem r)) kept) \<and> set kept \<subseteq> valid
       \<and> filter overlaps kept = ps_quarantine st
       \<and> d_get ''id'' ` set kept = d_get ''id'' ` valid
       \<and> n ''clean'' = length (ps_clean st) \<and> n ''contamination_quarantine'' = length (ps_quarantine st)
       \<and> length rows = n ''clean'' + n ''contamination_quarantine'' + n ''duplicate'' + n ''invalid''
       \<and> n ''invalid'' = n ''invalid_missing_answer'' + n ''invalid_missing_problem'' + n ''invalid_other'')"
proof -
  let ?f = "\<lambda>row. normalize_row rp rq sha row (pa_revision args) (pa_split args)"
  let ?e = "eval_problems_of rp eval_rows"
  let ?c = "\<lambda>p. is_contaminated fuzz p ?e (pa_ngram_threshold args) (pa_fuzz_threshold args)"
  have "(\<exists>m. ?f row = Inl (ValueError m)) \<or> (\<exists>r. ?f row = Inr r \<and> d_get ''problem'' r = PStr (row_problem r))" for row
    by (rule normalize_row_cases[of rp rq sha row "pa_revision args" "pa_split args"]) auto
  from prepare_loop_inv[of rows ?f, OF this prepare_inv_start] obtain st where
    st: "fold_res (prepare_step ?f ?c (?e \<noteq> [])) prepare_start rows = Inr st"
    and inv: "prepare_inv ?f ?c (?e \<noteq> []) rows st" by auto
  let ?kept = "ps_clean st @ ps_quarantine st"
  note i = inv[unfolded prepare_inv_def Let_def]
  have ids: "d_get ''id'' r = PStr (sha (normalize_problem (row_problem r)))" if "r \<in> set ?kept" for r
  proof -
    from i that obtain row where "?f row = Inr r" by blast
    then show ?thesis by (rule_tac normalize_row_cases[of rp rq sha row "pa_revision args" "pa_split args"]) auto
  qed
  have d: "distinct (map (\<lambda>r. normalize_problem (row_problem r)) ?kept)"
  proof -
    have "map (d_get ''id'') ?kept = map (\<lambda>n. PStr (sha n)) (map (\<lambda>r. normalize_problem (row_problem r)) ?kept)"
      unfolding map_map o_def by (rule map_cong) (use ids in auto)
    then show ?thesis using i by (metis distinct_map)
  qed
  have nc: "\<not> ?c p" if "?e = []" for p using that by (simp add: is_contaminated_def)
  have q: "filter (\<lambda>r. ?c (row_problem r)) ?kept = ps_quarantine st"
  proof -
    have "\<forall>r \<in> set (ps_clean st). \<not> ?c (row_problem r)" using i nc by blast
    moreover have "\<forall>r \<in> set (ps_quarantine st). ?c (row_problem r)" using i by blast
    ultimately show ?thesis by (simp only: filter_append filter_False filter_True append_Nil)
  qed
  have v: "d_get ''id'' ` set ?kept = d_get ''id'' ` {r. \<exists>row \<in> set rows. ?f row = Inr r}"
    using i by blast
  have sub: "set ?kept \<subseteq> {r. \<exists>row \<in> set rows. ?f row = Inr r}" using i by blast
  have n: "counter_at (ps_stats st) ''clean'' = length (ps_clean st)"
    "counter_at (ps_stats st) ''contamination_quarantine'' = length (ps_quarantine st)"
    "length rows = counter_at (ps_stats st) ''clean'' + counter_at (ps_stats st) ''contamination_quarantine''
       + counter_at (ps_stats st) ''duplicate'' + counter_at (ps_stats st) ''invalid''"
    "counter_at (ps_stats st) ''invalid'' = counter_at (ps_stats st) ''invalid_missing_answer''
       + counter_at (ps_stats st) ''invalid_missing_problem'' + counter_at (ps_stats st) ''invalid_other''"
    using i by blast+
  have run: "prepare_data rp rq sha fuzz args rows eval_rows = Inr st"
    using st by (simp only: prepare_data_def Let_def)
  show ?thesis
    unfolding Let_def by (rule exI[of _ st]) (intro conjI run d sub q v n)
qed

end
