(* ===== verification/Frontier.thy ===== *)
theory Frontier
  imports DataTools Prompt Reward
begin

text \<open>
  From problems to training splits: \<open>compute_recipient_uplift.py\<close> (how much the privileged trace helps
  the student), \<open>build_frontier.py\<close> and \<open>build_common_verified_split.py\<close> (train and dev splits), and
  \<open>build_shuffled_pi.py\<close> (the control with permuted traces), all under \<open>tools/extpi_rlsd/\<close>. The random
  generator is a state \<open>'g\<close> with the draw \<open>randbelow g n\<close>; the shuffle is that of Python's \<open>random\<close>.
  Rows are JSON objects. Rates are real numbers: those that are compared with a fixed rate are exact.
\<close>

section \<open>Shared helpers\<close>

definition verified_field :: "string \<Rightarrow> string" where
  "verified_field fld =
     (if ends_with ''_trace'' fld then py_replace ''_trace'' ''_verified'' fld else fld @ ''_verified'')"

fun filter_res :: "('a \<Rightarrow> bool res) \<Rightarrow> 'a list \<Rightarrow> 'a list res" where
  "filter_res f [] = Inr []"
| "filter_res f (x # xs) = bind_res (f x) (\<lambda>b. bind_res (filter_res f xs) (\<lambda>ys. Inr (if b then x # ys else ys)))"

text \<open>\<open>new_row.setdefault("metadata", {}); new_row["metadata"][key] = value\<close>.\<close>

definition set_metadata :: "string \<Rightarrow> pyval \<Rightarrow> pydict \<Rightarrow> pydict res" where
  "set_metadata key value row =
     (case d_get_or ''metadata'' (PDict []) row of
        PDict m \<Rightarrow> Inr (d_set ''metadata'' (PDict (d_set key value m)) row)
      | _ \<Rightarrow> Inl (TypeError ''object does not support item assignment''))"

type_synonym 'g draw = "'g \<Rightarrow> nat \<Rightarrow> nat \<times> 'g"

definition swap_at :: "nat \<Rightarrow> nat \<Rightarrow> 'a list \<Rightarrow> 'a list" where
  "swap_at i j xs = xs[i := xs ! j, j := xs ! i]"

text \<open>\<open>Random.shuffle\<close>: for \<open>i\<close> from the last index down to 1, exchange with a drawn index up to \<open>i\<close>.\<close>

fun shuffle_from :: "'g draw \<Rightarrow> nat \<Rightarrow> 'a list \<Rightarrow> 'g \<Rightarrow> 'a list \<times> 'g" where
  "shuffle_from randbelow 0 xs g = (xs, g)"
| "shuffle_from randbelow (Suc i) xs g =
     (let (j, g') = randbelow g (Suc (Suc i)) in shuffle_from randbelow i (swap_at (Suc i) j xs) g')"

definition py_shuffle :: "'g draw \<Rightarrow> 'a list \<Rightarrow> 'g \<Rightarrow> 'a list \<times> 'g" where
  "py_shuffle randbelow xs g = shuffle_from randbelow (length xs - 1) xs g"

definition draws_below :: "'g draw \<Rightarrow> bool" where
  "draws_below randbelow \<longleftrightarrow> (\<forall>g n. 0 < n \<longrightarrow> fst (randbelow g n) < n)"

section \<open>Uplift\<close>

definition ID_KEYS :: "string list" where
  "ID_KEYS = [''id'', ''problem_id'', ''sample_id'']"

definition TEXT_KEYS :: "string list" where
  "TEXT_KEYS = [''completion'', ''response'', ''solution_str'', ''text'', ''output'']"

definition first_set :: "string list \<Rightarrow> pydict \<Rightarrow> pyval option" where
  "first_set keys row = map_option (\<lambda>k. d_get k row) (find (\<lambda>k. d_get k row \<noteq> PNone) keys)"

definition sample_id :: "(pyval \<Rightarrow> string) \<Rightarrow> pydict \<Rightarrow> string res" where
  "sample_id rp row =
     (case first_set ID_KEYS row of
        Some v \<Rightarrow> Inr (py_str rp v)
      | None \<Rightarrow>
          (case d_get ''extra_info'' row of
             PDict extra \<Rightarrow>
               (case first_set ID_KEYS extra of
                  Some v \<Rightarrow> Inr (py_str rp v)
                | None \<Rightarrow> Inl (ValueError ''Completion row is missing an id field''))
           | _ \<Rightarrow> Inl (ValueError ''Completion row is missing an id field'')))"

definition completion_text :: "(pyval \<Rightarrow> string) \<Rightarrow> pydict \<Rightarrow> string res" where
  "completion_text rp row =
     (case first_set TEXT_KEYS row of
        Some v \<Rightarrow> Inr (py_str rp v)
      | None \<Rightarrow> Inl (ValueError ''Completion row is missing a text field''))"

definition is_truncated :: "(pyval \<Rightarrow> string) \<Rightarrow> pydict \<Rightarrow> bool" where
  "is_truncated rp row \<longleftrightarrow>
     truthy (d_get_or ''truncated'' (d_get_or ''completion_truncated'' (PBool False) row) row)
     \<or> py_lower (py_str rp (d_get_or ''finish_reason'' (PStr []) row)) \<in> {''length'', ''max_tokens''}"

definition group_add :: "string \<Rightarrow> 'a \<Rightarrow> (string \<times> 'a list) list \<Rightarrow> (string \<times> 'a list) list" where
  "group_add k v m = d_set k (the_default [] (map_of m k) @ [v]) m"

definition group_completions :: "(pyval \<Rightarrow> string) \<Rightarrow> pydict list \<Rightarrow> (string \<times> pydict list) list res" where
  "group_completions rp rows =
     fold_res (\<lambda>m row. bind_res (sample_id rp row) (\<lambda>k. Inr (group_add k row m))) [] rows"

type_synonym verifier = "string \<Rightarrow> string \<Rightarrow> bool res"

definition correct_count :: "verifier \<Rightarrow> (pyval \<Rightarrow> string) \<Rightarrow> pydict list \<Rightarrow> string \<Rightarrow> (nat \<times> nat) res" where
  "correct_count mv rp samples gold =
     bind_res (map_res (completion_text rp) samples) (\<lambda>texts.
       Inr (length (filter (\<lambda>t. verify_answer mv (extract_boxed_answer t) gold) texts),
            length (filter (is_truncated rp) samples)))"

definition strict_rates :: "real \<Rightarrow> real \<Rightarrow> bool" where
  "strict_rates p_plain p_pi \<longleftrightarrow> p_plain \<in> {1/4, 1/2, 3/4} \<and> 3/4 \<le> p_pi \<and> 1/4 \<le> p_pi - p_plain"

definition relaxed_rates :: "real \<Rightarrow> real \<Rightarrow> bool" where
  "relaxed_rates p_plain p_pi \<longleftrightarrow> 1/10 \<le> p_plain \<and> p_plain \<le> 3/4 \<and> 0 < p_pi - p_plain"

text \<open>
  One base row: the row with its rates (or a note that samples are missing), and the statistics it counts for.
\<close>

definition uplift_row ::
  "verifier \<Rightarrow> (pyval \<Rightarrow> string) \<Rightarrow> string \<Rightarrow> nat \<Rightarrow> (string \<times> pydict list) list \<Rightarrow> (string \<times> pydict list) list
   \<Rightarrow> pydict \<Rightarrow> (pydict \<times> string list) res" where
  "uplift_row mv rp fld expected plain with_pi row =
     bind_res (d_index ''id'' row) (\<lambda>rid.
     bind_res (d_index ''gold_answer'' row) (\<lambda>gold.
       let plain_samples = the_default [] (map_of plain (py_str rp rid));
           pi_samples = the_default [] (map_of with_pi (py_str rp rid));
           marks = [''rows''] @ (if plain_samples \<noteq> [] then [''with_plain''] else [])
                     @ (if pi_samples \<noteq> [] then [''with_pi''] else [])
       in if length plain_samples \<noteq> expected \<or> length pi_samples \<noteq> expected
          then bind_res (set_metadata ''recipient_uplift_incomplete''
                  (PDict [(''plain_samples'', PInt (int (length plain_samples))),
                          (''pi_samples'', PInt (int (length pi_samples))),
                          (''expected_samples'', PInt (int expected))]) row)
                 (\<lambda>r. Inr (r, marks))
          else bind_res (correct_count mv rp plain_samples (py_str rp gold)) (\<lambda>(correct_plain, truncated_plain).
               bind_res (correct_count mv rp pi_samples (py_str rp gold)) (\<lambda>(correct_pi, truncated_pi).
                 if expected = 0 then Inl ZeroDivisionError
                 else let p_plain = of_nat correct_plain / of_nat expected;
                          p_pi = of_nat correct_pi / of_nat expected;
                          uplift = p_pi - p_plain;
                          any_truncated = 0 < truncated_plain \<or> 0 < truncated_pi;
                          new_row = d_update row
                            [(''p_plain'', PFloat p_plain), (''p_PI'', PFloat p_pi), (''uplift'', PFloat uplift),
                             (''correct_plain'', PInt (int correct_plain)), (''correct_PI'', PInt (int correct_pi)),
                             (''student_completion_truncated'', PBool any_truncated)];
                          usable = truthy (d_get_or (verified_field fld) (PBool False) new_row) \<and> \<not> any_truncated
                      in Inr (new_row, marks
                           @ (if 0 < uplift then [''with_uplift_positive''] else [])
                           @ (if usable \<and> strict_rates p_plain p_pi then [''strict_frontier_eligible''] else [])
                           @ (if usable \<and> relaxed_rates p_plain p_pi then [''relaxed_frontier_eligible''] else []))))))"

definition uplift_stats :: "(string \<times> nat) list" where
  "uplift_stats = map (\<lambda>k. (k, 0)) [''rows'', ''with_plain'', ''with_pi'', ''with_uplift_positive'',
     ''strict_frontier_eligible'', ''relaxed_frontier_eligible'']"

definition compute_recipient_uplift ::
  "verifier \<Rightarrow> (pyval \<Rightarrow> string) \<Rightarrow> string \<Rightarrow> nat \<Rightarrow> pydict list \<Rightarrow> pydict list \<Rightarrow> pydict list
   \<Rightarrow> (pydict list \<times> (string \<times> nat) list) res" where
  "compute_recipient_uplift mv rp fld expected base_rows plain_rows pi_rows =
     bind_res (group_completions rp plain_rows) (\<lambda>plain.
     bind_res (group_completions rp pi_rows) (\<lambda>with_pi.
     bind_res (map_res (uplift_row mv rp fld expected plain with_pi) base_rows) (\<lambda>outs.
       Inr (map fst outs, fold counter_inc (concat (map snd outs)) uplift_stats))))"

section \<open>Frontier splits\<close>

definition eligible_frontier ::
  "(string \<Rightarrow> real option) \<Rightarrow> bool \<Rightarrow> string \<Rightarrow> pydict \<Rightarrow> bool res" where
  "eligible_frontier parse relaxed fld row =
     bind_res (py_float parse (py_or (d_get_or ''p_plain'' (d_get_or ''pS'' (PFloat 0) row) row) (PFloat 0))) (\<lambda>p_plain.
     bind_res (py_float parse (py_or (d_get_or ''p_PI'' (d_get_or ''pPI'' (d_get_or ''pTPI'' (PFloat 0) row) row) row)
                 (PFloat 0))) (\<lambda>p_pi.
       let verified = truthy (d_get_or (verified_field fld) (d_get_or ''pi_trace_verified'' (PBool False) row) row);
           has_trace = truthy (d_get fld row);
           truncated = truthy (d_get_or ''student_completion_truncated'' (PBool False) row)
       in Inr (if \<not> verified \<or> \<not> has_trace \<or> truncated then False
               else if relaxed then relaxed_rates p_plain p_pi else strict_rates p_plain p_pi)))"

record split_sizes =
  sz_smoke :: nat
  sz_mvp_train :: nat
  sz_matched_dev :: nat
  sz_confirmation_train :: nat
  sz_confirmation_dev :: nat

record frontier_splits =
  fs_smoke :: "pydict list"
  fs_mvp_train :: "pydict list"
  fs_matched_dev :: "pydict list"
  fs_confirmation_train :: "pydict list"
  fs_confirmation_dev :: "pydict list"
  fs_strict_count :: nat
  fs_relaxed_count :: nat
  fs_strict_rule :: bool

text \<open>A value put into or looked up in a set is hashed first.\<close>

definition hashed :: "pyval \<Rightarrow> pyval res" where
  "hashed v =
     (case v of
        PList _ \<Rightarrow> Inl (TypeError ''unhashable type'')
      | PDict _ \<Rightarrow> Inl (TypeError ''unhashable type'')
      | PArray _ \<Rightarrow> Inl (TypeError ''unhashable type'')
      | _ \<Rightarrow> Inr v)"

definition confirmation_row :: "string \<Rightarrow> pydict \<Rightarrow> bool" where
  "confirmation_row fld row \<longleftrightarrow>
     truthy (d_get_or (verified_field fld) (d_get_or ''pi_trace_verified'' (PBool False) row) row)
     \<and> truthy (d_get fld row) \<and> \<not> truthy (d_get_or ''student_completion_truncated'' (PBool False) row)"

definition build_frontier ::
  "(string \<Rightarrow> real option) \<Rightarrow> 'g draw \<Rightarrow> 'g \<Rightarrow> string \<Rightarrow> split_sizes \<Rightarrow> pydict list \<Rightarrow> frontier_splits res" where
  "build_frontier parse randbelow g fld sz rows =
     bind_res (filter_res (eligible_frontier parse False fld) rows) (\<lambda>strict.
     bind_res (filter_res (eligible_frontier parse True fld) rows) (\<lambda>relaxed.
       let use_strict = sz_mvp_train sz + sz_matched_dev sz \<le> length strict;
           (frontier, g1) = py_shuffle randbelow (if use_strict then strict else relaxed) g;
           mvp_train = take (sz_mvp_train sz) frontier;
           matched_dev = slice (sz_mvp_train sz) (sz_mvp_train sz + sz_matched_dev sz) frontier
       in bind_res (map_res (\<lambda>row. bind_res (d_index ''id'' row) hashed) (mvp_train @ matched_dev)) (\<lambda>used_ids.
          bind_res (filter_res (\<lambda>row. bind_res (hashed (d_get ''id'' row)) (\<lambda>i.
                      Inr (\<not> list_ex (py_eq i) used_ids \<and> confirmation_row fld row))) rows) (\<lambda>pool.
            let (confirmation_pool, g2) = py_shuffle randbelow pool g1;
                n = sz_confirmation_train sz
            in Inr \<lparr>fs_smoke = take (sz_smoke sz) frontier, fs_mvp_train = mvp_train, fs_matched_dev = matched_dev,
                    fs_confirmation_train = take n confirmation_pool,
                    fs_confirmation_dev = slice n (n + sz_confirmation_dev sz) confirmation_pool,
                    fs_strict_count = length strict, fs_relaxed_count = length relaxed,
                    fs_strict_rule = use_strict\<rparr>))))"

definition common_verified_split ::
  "'g draw \<Rightarrow> 'g \<Rightarrow> string \<Rightarrow> nat \<Rightarrow> nat \<Rightarrow> pydict list \<Rightarrow> pydict list \<times> pydict list" where
  "common_verified_split randbelow g fld train_size dev_size rows =
     (let kept = filter (\<lambda>row. truthy (d_get_or (verified_field fld) (PBool False) row) \<and> truthy (d_get fld row)) rows;
          shuffled = fst (py_shuffle randbelow kept g)
      in (take train_size shuffled, slice train_size (train_size + dev_size) shuffled))"

section \<open>Shuffled traces\<close>

definition shuffled_traces :: "'g draw \<Rightarrow> 'g \<Rightarrow> pyval list \<Rightarrow> pyval list" where
  "shuffled_traces randbelow g traces =
     (let shuffled = fst (py_shuffle randbelow traces g)
      in if 1 < length shuffled \<and> list_ex (\<lambda>(a, b). py_eq a b) (zip traces shuffled)
         then drop 1 shuffled @ take 1 shuffled else shuffled)"

definition build_shuffled_pi ::
  "'g draw \<Rightarrow> 'g \<Rightarrow> int \<Rightarrow> string \<Rightarrow> string \<Rightarrow> pydict list \<Rightarrow> pydict list res" where
  "build_shuffled_pi randbelow g seed source fld rows =
     map_res (\<lambda>(row, trace).
         set_metadata ''shuffled_pi_control''
           (PDict [(''seed'', PInt seed), (''source'', PStr source), (''pi_trace_field'', PStr fld)])
           (d_set fld trace row))
       (zip rows (shuffled_traces randbelow g (map (d_get fld) rows)))"

section \<open>Lemmas\<close>

lemma filter_res_Inr:
  "filter_res f xs = Inr ys \<longleftrightarrow> (\<forall>x \<in> set xs. \<exists>b. f x = Inr b) \<and> ys = filter (\<lambda>x. f x = Inr True) xs"
proof (induction xs arbitrary: ys)
  case (Cons x xs)
  show ?case
  proof (cases "f x")
    case (Inr b)
    show ?thesis
    proof (cases "filter_res f xs")
      case (Inl e)
      then have "\<not> (\<forall>x \<in> set xs. \<exists>b. f x = Inr b)" using Cons.IH by auto
      with Inl Inr show ?thesis by simp
    next
      case (Inr zs)
      with Cons.IH[of zs] \<open>f x = Inr b\<close> show ?thesis by auto
    qed
  qed simp
qed auto

lemma mset_swap_at: "i < length xs \<Longrightarrow> j < length xs \<Longrightarrow> mset (swap_at i j xs) = mset xs"
  unfolding swap_at_def by (rule mset_swap)

lemma shuffle_from_mset:
  "draws_below rb \<Longrightarrow> i < length xs \<or> i = 0 \<Longrightarrow> mset (fst (shuffle_from rb i xs g)) = mset xs"
proof (induction i arbitrary: xs g)
  case (Suc i)
  obtain j g' where d: "rb g (Suc (Suc i)) = (j, g')" by force
  with Suc.prems(1) have "j < Suc (Suc i)" unfolding draws_below_def by (metis fst_conv zero_less_Suc)
  with Suc.prems(2) have "mset (swap_at (Suc i) j xs) = mset xs" by (simp add: mset_swap_at)
  with Suc d show ?case by (simp add: swap_at_def)
qed simp

lemma py_shuffle_mset: "draws_below rb \<Longrightarrow> mset (fst (py_shuffle rb xs g)) = mset xs"
  unfolding py_shuffle_def by (rule shuffle_from_mset) auto

lemma length_py_shuffle: "draws_below rb \<Longrightarrow> length (fst (py_shuffle rb xs g)) = length xs"
  by (metis py_shuffle_mset size_mset)

lemma set_py_shuffle: "draws_below rb \<Longrightarrow> set (fst (py_shuffle rb xs g)) = set xs"
  by (metis py_shuffle_mset set_mset_mset)

lemma strict_rates_relaxed: "strict_rates a b \<Longrightarrow> relaxed_rates a b"
  by (auto simp: strict_rates_def relaxed_rates_def)

lemma strict_relaxed:
  "eligible_frontier parse False fld row = Inr True \<Longrightarrow> eligible_frontier parse True fld row = Inr True"
  using strict_rates_relaxed by (auto simp: eligible_frontier_def Let_def res_simps split: if_splits)

lemma eligible_confirmation:
  "eligible_frontier parse relaxed fld row = Inr True \<Longrightarrow> confirmation_row fld row"
  by (auto simp: eligible_frontier_def confirmation_row_def Let_def res_simps split: if_splits)

lemma hashed_Inr: "hashed v = Inr w \<Longrightarrow> w = v"
  by (auto simp: hashed_def split: pyval.splits)

lemma py_eq_refl_scalar: "hashed v = Inr v \<Longrightarrow> (\<forall>u. v \<noteq> PArrow u) \<Longrightarrow> py_eq v v"
  by (cases v) (auto simp: hashed_def)

lemma slice_append_take: "take a xs @ slice a (a + b) xs = take (a + b) xs"
  by (simp add: slice_def take_add)

lemma mset_take_subset: "mset (take n xs) \<subseteq># mset xs"
  by (metis append_take_drop_id mset_append mset_subset_eq_add_left)

section \<open>Counting\<close>

lemma counter_at_fold: "counter_at (fold counter_inc ks c) k = counter_at c k + count_list ks k"
  by (induction ks arbitrary: c) auto

lemma count_list_concat: "count_list (concat xss) k = sum_list (map (\<lambda>xs. count_list xs k) xss)"
  by (induction xss) (auto simp: count_list_append)

lemma counter_at_uplift_stats [simp]: "counter_at uplift_stats k = 0"
  by (auto simp: counter_at_def uplift_stats_def the_default_def map_of_map split: option.splits dest: map_of_SomeD)

definition uplift_keys :: "string list" where
  "uplift_keys = [''p_plain'', ''p_PI'', ''uplift'', ''correct_plain'', ''correct_PI'', ''student_completion_truncated'']"

text \<open>A base row whose trace was verified or refused, before any uplift was attached.\<close>

definition traced_row :: "string \<Rightarrow> pydict \<Rightarrow> bool" where
  "traced_row fld row \<longleftrightarrow>
     list_all (\<lambda>k. map_of row k = None) (uplift_keys @ [''pS'', ''pPI'', ''pTPI''])
     \<and> map_of row (verified_field fld) \<noteq> None \<and> truthy (d_get fld row)"

definition plain_field :: "string \<Rightarrow> bool" where
  "plain_field fld \<longleftrightarrow> fld \<notin> set (''metadata'' # uplift_keys) \<and> verified_field fld \<notin> set (''metadata'' # uplift_keys)"

lemma py_or_PFloat: "py_or (PFloat x) (PFloat 0) = PFloat x"
  by (simp add: py_or_def)

lemma eligible_by_lookup:
  assumes "map_of r ''p_plain'' = Some (PFloat a)" "map_of r ''p_PI'' = Some (PFloat b)"
    "map_of r ''student_completion_truncated'' = Some (PBool t)"
    "map_of r (verified_field fld) = Some v" "truthy (d_get fld r)"
  shows "eligible_frontier parse relaxed fld r =
    Inr (truthy v \<and> \<not> t \<and> (if relaxed then relaxed_rates a b else strict_rates a b))"
  using assms by (simp add: eligible_frontier_def d_get_or_def py_or_PFloat Let_def)

lemma ineligible_by_lookup:
  assumes "map_of r ''p_plain'' = None" "map_of r ''pS'' = None" "map_of r ''p_PI'' = None"
    "map_of r ''pPI'' = None" "map_of r ''pTPI'' = None"
  shows "eligible_frontier parse relaxed fld r = Inr False"
  using assms by (simp add: eligible_frontier_def d_get_or_def py_or_PFloat Let_def strict_rates_def relaxed_rates_def)

lemma uplift_row_counts:
  assumes row: "uplift_row mv rp fld n plain with_pi row = Inr (r, marks)" and "traced_row fld row" and "plain_field fld"
  shows "eligible_frontier parse False fld r = Inr (''strict_frontier_eligible'' \<in> set marks)
    \<and> eligible_frontier parse True fld r = Inr (''relaxed_frontier_eligible'' \<in> set marks)
    \<and> count_list marks ''strict_frontier_eligible'' = of_bool (''strict_frontier_eligible'' \<in> set marks)
    \<and> count_list marks ''relaxed_frontier_eligible'' = of_bool (''relaxed_frontier_eligible'' \<in> set marks)
    \<and> count_list marks ''rows'' = 1"
proof -
  note tr = assms(2)[unfolded traced_row_def uplift_keys_def list_all_iff append.simps list.set ball_simps]
  note pf = assms(3)[unfolded plain_field_def uplift_keys_def list.set insert_iff empty_iff]
  from row obtain rid gold where ig: "d_index ''id'' row = Inr rid" "d_index ''gold_answer'' row = Inr gold"
    by (auto simp: uplift_row_def res_simps)
  define ps where "ps = the_default [] (map_of plain (py_str rp rid))"
  define qs where "qs = the_default [] (map_of with_pi (py_str rp rid))"
  show ?thesis
  proof (cases "length ps \<noteq> n \<or> length qs \<noteq> n")
    case True
    then have r: "\<exists>v. r = d_set ''metadata'' v row"
      and m: "marks = [''rows''] @ (if ps \<noteq> [] then [''with_plain''] else []) @ (if qs \<noteq> [] then [''with_pi''] else [])"
      using row ig by (auto simp: uplift_row_def Let_def res_simps set_metadata_def split: pyval.splits simp flip: ps_def qs_def)
    from r tr have "eligible_frontier parse b fld r = Inr False" for b
      by (intro ineligible_by_lookup) auto
    with m show ?thesis by simp
  next
    case False
    with row ig obtain cp tp cq tq where c: "correct_count mv rp ps (py_str rp gold) = Inr (cp, tp)"
      "correct_count mv rp qs (py_str rp gold) = Inr (cq, tq)" and n: "n \<noteq> 0"
      by (auto simp: uplift_row_def Let_def res_simps simp flip: ps_def qs_def split: if_splits)
    define a b where "a = real cp / real n" and "b = real cq / real n"
    define t where "t \<longleftrightarrow> 0 < tp \<or> 0 < tq"
    define new where "new = [(''p_plain'', PFloat a), (''p_PI'', PFloat b), (''uplift'', PFloat (b - a)),
      (''correct_plain'', PInt (int cp)), (''correct_PI'', PInt (int cq)), (''student_completion_truncated'', PBool t)]"
    define usable where "usable \<longleftrightarrow> truthy (d_get_or (verified_field fld) (PBool False) (d_update row new)) \<and> \<not> t"
    have r: "r = d_update row new" and m: "marks = [''rows''] @ (if ps \<noteq> [] then [''with_plain''] else [])
        @ (if qs \<noteq> [] then [''with_pi''] else []) @ (if 0 < b - a then [''with_uplift_positive''] else [])
        @ (if usable \<and> strict_rates a b then [''strict_frontier_eligible''] else [])
        @ (if usable \<and> relaxed_rates a b then [''relaxed_frontier_eligible''] else [])"
      using row ig False c n unfolding uplift_row_def Let_def usable_def new_def a_def b_def t_def
      by (auto simp flip: ps_def qs_def)
    have d: "distinct (map fst new)" by (simp add: new_def)
    have look: "map_of r k = (case map_of new k of None \<Rightarrow> map_of row k | Some v \<Rightarrow> Some v)" for k
      unfolding r map_of_d_update[OF d] by (simp add: map_add_def)
    obtain v where v: "map_of row (verified_field fld) = Some v" using tr by auto
    have vf: "map_of r (verified_field fld) = Some v" using v pf by (simp add: look new_def)
    have e: "eligible_frontier parse x fld r = Inr (usable \<and> (if x then relaxed_rates a b else strict_rates a b))" for x
      using tr pf vf
      by (subst eligible_by_lookup[of r a b t fld v]) (auto simp: look new_def d_get_def usable_def d_get_or_def r[symmetric, unfolded new_def])
    show ?thesis unfolding e m by (auto simp: count_list_append)
  qed
qed

lemma length_filter_counts:
  assumes "\<forall>y \<in> set ys. f (fst y) = Inr (k \<in> set (snd y)) \<and> count_list (snd y) k = of_bool (k \<in> set (snd y))"
  shows "filter_res f (map fst ys) = Inr (filter (\<lambda>r. f r = Inr True) (map fst ys))"
    and "count_list (concat (map snd ys)) k = length (filter (\<lambda>r. f r = Inr True) (map fst ys))"
proof -
  show "filter_res f (map fst ys) = Inr (filter (\<lambda>r. f r = Inr True) (map fst ys))"
    using assms by (auto simp: filter_res_Inr)
  show "count_list (concat (map snd ys)) k = length (filter (\<lambda>r. f r = Inr True) (map fst ys))"
    using assms by (induction ys) (simp_all add: count_list_append)
qed

section \<open>Properties\<close>

text \<open>
  The uplift tool and the frontier tool agree. On rows whose trace was verified or refused and that have
  no uplift yet, every row the uplift tool writes can be read by the eligibility test, and the two counts of
  eligible rows in its manifest are the numbers of rows that \<open>build_frontier\<close> will find eligible, the strict ones
  among the relaxed ones.
\<close>

theorem uplift_counts_frontier:
  assumes run: "compute_recipient_uplift mv rp fld n base plain_rows pi_rows = Inr (out, stats)"
    and base: "\<forall>row \<in> set base. traced_row fld row" and fld: "plain_field fld"
  shows "\<exists>strict relaxed. filter_res (eligible_frontier parse False fld) out = Inr strict \<and>
    filter_res (eligible_frontier parse True fld) out = Inr relaxed \<and> set strict \<subseteq> set relaxed \<and>
    counter_at stats ''rows'' = length base \<and> length out = length base \<and>
    counter_at stats ''strict_frontier_eligible'' = length strict \<and>
    counter_at stats ''relaxed_frontier_eligible'' = length relaxed"
proof -
  from run obtain plain with_pi outs where
    outs: "map_res (uplift_row mv rp fld n plain with_pi) base = Inr outs"
    and out: "out = map fst outs" and stats: "stats = fold counter_inc (concat (map snd outs)) uplift_stats"
    by (auto simp: compute_recipient_uplift_def res_simps)
  have row: "eligible_frontier parse False fld (fst y) = Inr (''strict_frontier_eligible'' \<in> set (snd y))
      \<and> eligible_frontier parse True fld (fst y) = Inr (''relaxed_frontier_eligible'' \<in> set (snd y))
      \<and> count_list (snd y) ''strict_frontier_eligible'' = of_bool (''strict_frontier_eligible'' \<in> set (snd y))
      \<and> count_list (snd y) ''relaxed_frontier_eligible'' = of_bool (''relaxed_frontier_eligible'' \<in> set (snd y))
      \<and> count_list (snd y) ''rows'' = 1" if "y \<in> set outs" for y
  proof -
    from that obtain i where i: "i < length outs" "y = outs ! i" by (auto simp: in_set_conv_nth)
    then have b: "i < length base" using map_res_length[OF outs] by simp
    then have "uplift_row mv rp fld n plain with_pi (base ! i) = Inr (fst y, snd y)"
      using map_res_nth[OF outs] i by simp
    moreover have "traced_row fld (base ! i)" using base b by simp
    ultimately show ?thesis using fld uplift_row_counts by blast
  qed
  then have s: "\<forall>y \<in> set outs. eligible_frontier parse False fld (fst y) = Inr (''strict_frontier_eligible'' \<in> set (snd y)) \<and>
      count_list (snd y) ''strict_frontier_eligible'' = of_bool (''strict_frontier_eligible'' \<in> set (snd y))"
    and r: "\<forall>y \<in> set outs. eligible_frontier parse True fld (fst y) = Inr (''relaxed_frontier_eligible'' \<in> set (snd y)) \<and>
      count_list (snd y) ''relaxed_frontier_eligible'' = of_bool (''relaxed_frontier_eligible'' \<in> set (snd y))"
    by blast+
  have "\<forall>y \<in> set outs. count_list (snd y) ''rows'' = 1" using row by blast
  then have rows: "count_list (concat (map snd outs)) ''rows'' = length outs"
    by (induction outs) (simp_all add: count_list_append)
  have len: "length outs = length base" using outs by (rule map_res_length)
  let ?strict = "filter (\<lambda>r. eligible_frontier parse False fld r = Inr True) out"
  let ?relaxed = "filter (\<lambda>r. eligible_frontier parse True fld r = Inr True) out"
  have "set ?strict \<subseteq> set ?relaxed" using strict_relaxed by auto
  then show ?thesis
    using length_filter_counts[OF s] length_filter_counts[OF r] rows len
    by (intro exI[of _ ?strict] exI[of _ ?relaxed]) (simp add: out stats counter_at_fold)
qed

text \<open>
  C22. The splits are sound. With a generator whose draws are in range: the rows of the main train and dev splits
  are eligible source rows, strictly when there are enough of those; the smoke split is a prefix of the same
  shuffled list; and no row of the confirmation splits, which all carry a verified trace, has the id of a row of
  the main splits. If the ids of the source rows are distinct texts, no id occurs twice in the four splits.
\<close>

theorem frontier_splits_sound:
  assumes draws: "draws_below rb"
    and run: "build_frontier parse rb g fld sz rows = Inr fs"
  shows "let main = fs_mvp_train fs @ fs_matched_dev fs; conf = fs_confirmation_train fs @ fs_confirmation_dev fs;
      elig = (\<lambda>relaxed. filter (\<lambda>row. eligible_frontier parse relaxed fld row = Inr True) rows)
    in mset main \<subseteq># mset (elig (\<not> fs_strict_rule fs))
     \<and> (\<exists>shuffled. mset shuffled = mset (elig (\<not> fs_strict_rule fs)) \<and> main = take (length main) shuffled
          \<and> fs_smoke fs = take (sz_smoke sz) shuffled)
     \<and> (fs_strict_rule fs \<longleftrightarrow> sz_mvp_train sz + sz_matched_dev sz \<le> length (elig False))
     \<and> fs_strict_count fs = length (elig False) \<and> fs_relaxed_count fs = length (elig True)
     \<and> mset conf \<subseteq># mset (filter (confirmation_row fld) rows)
     \<and> (\<forall>c \<in> set conf. \<forall>m \<in> set main. \<not> py_eq (d_get ''id'' c) (d_get ''id'' m))
     \<and> (distinct (map (d_get ''id'') rows) \<and> (\<forall>row \<in> set rows. \<exists>i. d_get ''id'' row = PStr i)
          \<longrightarrow> distinct (map (d_get ''id'') (main @ conf)))"
proof -
  define elig where "elig relaxed = filter (\<lambda>row. eligible_frontier parse relaxed fld row = Inr True) rows" for relaxed
  define ok where "ok \<longleftrightarrow> sz_mvp_train sz + sz_matched_dev sz \<le> length (elig False)"
  let ?n = "sz_mvp_train sz" and ?m = "sz_matched_dev sz" and ?k = "sz_confirmation_train sz"
  define test where "test used row = bind_res (hashed (d_get ''id'' row)) (\<lambda>i.
      Inr (\<not> list_ex (py_eq i) used \<and> confirmation_row fld row))" for used row
  obtain frontier g1 where sh: "py_shuffle rb (elig (\<not> ok)) g = (frontier, g1)" by force
  define main where "main = take ?n frontier @ slice ?n (?n + ?m) frontier"
  from run obtain strict relaxed where el: "filter_res (eligible_frontier parse False fld) rows = Inr strict"
      "filter_res (eligible_frontier parse True fld) rows = Inr relaxed"
    unfolding build_frontier_def bind_res_Inr by blast
  then have st: "strict = elig False" "relaxed = elig True" by (simp_all add: filter_res_Inr elig_def)
  have choice: "(if ?n + ?m \<le> length (elig False) then elig False else elig True) = elig (\<not> ok)" by (simp add: ok_def)
  define out where "out pool = (let cpool = fst (py_shuffle rb pool g1) in
      \<lparr>fs_smoke = take (sz_smoke sz) frontier, fs_mvp_train = take ?n frontier,
        fs_matched_dev = slice ?n (?n + ?m) frontier, fs_confirmation_train = take ?k cpool,
        fs_confirmation_dev = slice ?k (?k + sz_confirmation_dev sz) cpool, fs_strict_count = length (elig False),
        fs_relaxed_count = length (elig True), fs_strict_rule = ok\<rparr>)" for pool
  have "bind_res (map_res (\<lambda>row. bind_res (d_index ''id'' row) hashed) main) (\<lambda>used.
      bind_res (filter_res (test used) rows) (\<lambda>pool. Inr (out pool))) = Inr fs"
    using run unfolding build_frontier_def el[unfolded st] bind_res_simps Let_def choice sh prod.case
    by (simp add: test_def[abs_def] main_def out_def Let_def case_prod_beta' flip: ok_def)
  then obtain used pool where
    used: "map_res (\<lambda>row. bind_res (d_index ''id'' row) hashed) main = Inr used" and
    pool: "filter_res (test used) rows = Inr pool" and fs: "fs = out pool"
    unfolding bind_res_Inr by blast
  define cpool where "cpool = fst (py_shuffle rb pool g1)"
  define conf where "conf = take ?k cpool @ slice ?k (?k + sz_confirmation_dev sz) cpool"
  have fsel: "fs_mvp_train fs @ fs_matched_dev fs = main" "fs_confirmation_train fs @ fs_confirmation_dev fs = conf"
    "fs_smoke fs = take (sz_smoke sz) frontier" "fs_strict_rule fs = ok"
    "fs_strict_count fs = length (elig False)" "fs_relaxed_count fs = length (elig True)"
    by (simp_all add: fs out_def Let_def main_def conf_def cpool_def)
  have mt: "main = take (?n + ?m) frontier" and ct: "conf = take (?k + sz_confirmation_dev sz) cpool"
    by (simp_all add: main_def conf_def slice_append_take)
  have mf: "mset frontier = mset (elig (\<not> ok))" using py_shuffle_mset[OF draws, of "elig (\<not> ok)" g] sh by simp
  have mc: "mset cpool = mset pool" unfolding cpool_def by (rule py_shuffle_mset[OF draws])
  have pf: "pool = filter (\<lambda>row. test used row = Inr True) rows" using pool by (simp add: filter_res_Inr)
  have rows: "set main \<subseteq> set rows" "set conf \<subseteq> set rows"
    using mset_eq_setD[OF mf] mset_eq_setD[OF mc] set_take_subset[of "?n + ?m" frontier]
      set_take_subset[of "?k + sz_confirmation_dev sz" cpool] unfolding mt ct pf elig_def by auto
  have main_sub: "mset main \<subseteq># mset (elig (\<not> ok))" unfolding mt mf[symmetric] by (rule mset_take_subset)
  have conf_sub: "mset conf \<subseteq># mset (filter (confirmation_row fld) rows)"
  proof -
    have "pool = filter (\<lambda>row. test used row = Inr True) (filter (confirmation_row fld) rows)"
      unfolding pf filter_filter by (rule filter_cong) (auto simp: test_def res_simps)
    then have "mset pool \<subseteq># mset (filter (confirmation_row fld) rows)" by (metis mset_filter multiset_filter_subset)
    then show ?thesis unfolding ct by (metis mc mset_take_subset subset_mset.order_trans)
  qed
  have apart: "\<not> py_eq (d_get ''id'' c) (d_get ''id'' m)" if c: "c \<in> set conf" and m: "m \<in> set main" for c m
  proof -
    have "c \<in> set pool" using c mset_eq_setD[OF mc] set_take_subset[of "?k + sz_confirmation_dev sz" cpool] unfolding ct by auto
    then have "test used c = Inr True" unfolding pf by simp
    then have n: "\<not> list_ex (py_eq (d_get ''id'' c)) used" by (auto simp: test_def res_simps dest: hashed_Inr)
    from m obtain i where i: "i < length main" "m = main ! i" by (auto simp: in_set_conv_nth)
    with map_res_nth[OF used i(1)] have "used ! i = d_get ''id'' m"
      by (auto simp: res_simps d_index_def d_get_def split: option.splits dest: hashed_Inr)
    moreover have "used ! i \<in> set used" using i map_res_length[OF used] by simp
    ultimately show ?thesis using n by (simp add: list_ex_iff)
  qed
  have ids: "distinct (map (d_get ''id'') (main @ conf))"
    if d: "distinct (map (d_get ''id'') rows)" and str: "\<forall>row \<in> set rows. \<exists>i. d_get ''id'' row = PStr i"
  proof -
    have "distinct (map (d_get ''id'') frontier)" "distinct (map (d_get ''id'') cpool)"
      using mset_eq_imp_distinct_iff[of "map (d_get ''id'') frontier" "map (d_get ''id'') (elig (\<not> ok))"] mf
        mset_eq_imp_distinct_iff[of "map (d_get ''id'') cpool" "map (d_get ''id'') pool"] mc d
      by (simp_all add: elig_def pf distinct_map_filter)
    then have "distinct (map (d_get ''id'') main)" "distinct (map (d_get ''id'') conf)"
      unfolding mt ct take_map[symmetric] by (simp_all add: distinct_take)
    moreover have "d_get ''id'' c \<noteq> d_get ''id'' m" if "c \<in> set conf" "m \<in> set main" for c m
    proof
      assume eq: "d_get ''id'' c = d_get ''id'' m"
      have "c \<in> set rows" using rows(2) that(1) by (rule subsetD)
      with str obtain i where i: "d_get ''id'' c = PStr i" by auto
      have "py_eq (d_get ''id'' c) (d_get ''id'' m)" unfolding eq[symmetric] i by simp
      with apart[OF that] show False ..
    qed
    ultimately show ?thesis unfolding map_append distinct_append by fastforce
  qed
  have shuffled: "\<exists>shuffled. mset shuffled = mset (elig (\<not> ok)) \<and> main = take (length main) shuffled
      \<and> take (sz_smoke sz) frontier = take (sz_smoke sz) shuffled"
    using mf by (intro exI[of _ frontier]) (simp add: mt min_def)
  show ?thesis
    unfolding Let_def fsel elig_def[symmetric]
    by (intro conjI main_sub shuffled conf_sub refl ok_def ballI impI apart ids) blast+
qed

definition ex_traced :: "string \<Rightarrow> pydict" where
  "ex_traced i = [(''id'', PStr i), (''gold_answer'', PStr ''1''), (''qwen32b_pi_trace'', PStr ''t''),
     (''qwen32b_pi_verified'', PBool True)]"

definition ex_boxed :: "string \<Rightarrow> pydict" where
  "ex_boxed i = [(''id'', PStr i), (''text'', PStr (backslash @ ''boxed{1}''))]"

lemma ex_uplift_run: "case compute_recipient_uplift (\<lambda>_ _. Inr True) (\<lambda>_. []) DEFAULT_PI_TRACE_FIELD 1 [ex_traced ''a'']
    [[(''id'', PStr ''a''), (''text'', PStr ''no'')]] [ex_boxed ''a''] of Inl _ \<Rightarrow> False | Inr _ \<Rightarrow> True"
  by code_simp

lemma ex_traced_row: "traced_row DEFAULT_PI_TRACE_FIELD (ex_traced i)" "plain_field DEFAULT_PI_TRACE_FIELD"
  by (simp add: traced_row_def ex_traced_def uplift_keys_def d_get_def) code_simp+

theorem uplift_counts_frontier_example:
  "\<exists>out stats strict. compute_recipient_uplift (\<lambda>_ _. Inr True) (\<lambda>_. []) DEFAULT_PI_TRACE_FIELD 1 [ex_traced ''a'']
      [[(''id'', PStr ''a''), (''text'', PStr ''no'')]] [ex_boxed ''a''] = Inr (out, stats) \<and>
    filter_res (eligible_frontier (\<lambda>_. None) False DEFAULT_PI_TRACE_FIELD) out = Inr strict \<and>
    counter_at stats ''rows'' = 1 \<and> counter_at stats ''strict_frontier_eligible'' = length strict"
proof -
  from ex_uplift_run obtain out stats where run: "compute_recipient_uplift (\<lambda>_ _. Inr True) (\<lambda>_. [])
      DEFAULT_PI_TRACE_FIELD 1 [ex_traced ''a''] [[(''id'', PStr ''a''), (''text'', PStr ''no'')]] [ex_boxed ''a'']
    = Inr (out, stats)" by (auto split: sum.splits)
  from uplift_counts_frontier[OF run _ ex_traced_row(2), of "\<lambda>_. None"] ex_traced_row(1) run show ?thesis by auto
qed

lemma ex_frontier_run: "case build_frontier (\<lambda>_. None) (\<lambda>g n. (0, g)) () DEFAULT_PI_TRACE_FIELD
    \<lparr>sz_smoke = 1, sz_mvp_train = 1, sz_matched_dev = 0, sz_confirmation_train = 1, sz_confirmation_dev = 0\<rparr>
    [ex_traced ''b'', ex_traced ''a'' @ [(''p_plain'', PFloat (1/2)), (''p_PI'', PFloat 1)]] of Inl _ \<Rightarrow> False
   | Inr fs \<Rightarrow> length (fs_mvp_train fs) = 1 \<and> length (fs_confirmation_train fs) = 1"
  by code_simp

theorem frontier_splits_sound_witness:
  "\<exists>fs a b. build_frontier (\<lambda>_. None) (\<lambda>g n. (0, g)) () DEFAULT_PI_TRACE_FIELD
      \<lparr>sz_smoke = 1, sz_mvp_train = 1, sz_matched_dev = 0, sz_confirmation_train = 1, sz_confirmation_dev = 0\<rparr>
      [ex_traced ''b'', ex_traced ''a'' @ [(''p_plain'', PFloat (1/2)), (''p_PI'', PFloat 1)]] = Inr fs \<and>
    fs_mvp_train fs = [a] \<and> fs_confirmation_train fs = [b] \<and> \<not> py_eq (d_get ''id'' b) (d_get ''id'' a)"
proof -
  from ex_frontier_run obtain fs where run: "build_frontier (\<lambda>_. None) (\<lambda>g n. (0, g)) () DEFAULT_PI_TRACE_FIELD
      \<lparr>sz_smoke = 1, sz_mvp_train = 1, sz_matched_dev = 0, sz_confirmation_train = 1, sz_confirmation_dev = 0\<rparr>
      [ex_traced ''b'', ex_traced ''a'' @ [(''p_plain'', PFloat (1/2)), (''p_PI'', PFloat 1)]] = Inr fs"
    and "length (fs_mvp_train fs) = 1" "length (fs_confirmation_train fs) = 1" by (auto split: sum.splits)
  then obtain a b where ab: "fs_mvp_train fs = [a]" "fs_confirmation_train fs = [b]" by (auto simp: length_Suc_conv)
  have "draws_below (\<lambda>g n. (0, g))" by (simp add: draws_below_def)
  from frontier_splits_sound[OF this run] ab run show ?thesis by (auto simp: Let_def)
qed

text \<open>
  A permutation of the traces is not a derangement: one rotation does not always remove the fixed points, so
  that a row of the control can keep its own trace.
\<close>

lemma mset_shuffled_traces: "draws_below rb \<Longrightarrow> mset (shuffled_traces rb g traces) = mset traces"
proof -
  assume d: "draws_below rb"
  have "mset (drop 1 s @ take 1 s) = mset s" for s :: "pyval list"
    by (metis append_take_drop_id mset_append union_commute)
  with py_shuffle_mset[OF d, of traces g] show ?thesis by (auto simp: shuffled_traces_def Let_def)
qed

lemma shuffled_traces_can_keep:
  "\<exists>rb g. draws_below rb \<and> shuffled_traces rb (g :: nat) [PStr ''a'', PStr ''b'', PStr ''c''] ! 1 = PStr ''b''"
proof -
  define rb :: "nat draw" where "rb g n = (if n = 3 then 1 else n - 1, g)" for g n
  have "shuffled_traces rb 0 [PStr ''a'', PStr ''b'', PStr ''c''] = [PStr ''c'', PStr ''b'', PStr ''a'']"
    by (simp add: shuffled_traces_def py_shuffle_def rb_def swap_at_def numeral_2_eq_2)
  moreover have "draws_below rb" by (simp add: draws_below_def rb_def)
  ultimately show ?thesis by (intro exI[of _ rb] exI[of _ 0]) simp
qed

end
