(* ===== verification/TraceGen.thy ===== *)
theory TraceGen
  imports Frontier
begin

text \<open>
  Generation of the privileged traces and of the closed teacher's answers, \<open>tools/extpi_rlsd/\<close>:
  \<open>generate_teacher_traces.py\<close>, \<open>generate_verified_pi_shard.py\<close>, \<open>generate_closed_teacher_data.py\<close> and
  \<open>generate_recipient_completions.py\<close>. The language model and the API client are parameters; so is what a
  tool writes down about itself (\<open>info\<close>: model, time, arguments). A shard's two files are the lists of
  their rows; they are written row by row, so a run gives the files also when it stops with an exception.
\<close>

section \<open>Attempts\<close>

definition PI_GENERATION_PROMPT :: string where
  "PI_GENERATION_PROMPT =
     ''Solve the following mathematics problem. Provide self-contained visible reasoning.'' @ nl
     @ ''End with the final answer in '' @ backslash @ ''boxed{{...}}.'' @ nl @ nl
     @ ''Do not mention any gold or reference solution.'' @ nl @ nl @ ''{problem}''"

record candidate =
  cd_text :: string
  cd_finish_reason :: "string option"
  cd_tokens :: nat

definition py_opt :: "string option \<Rightarrow> pyval" where
  "py_opt s = (case s of None \<Rightarrow> PNone | Some t \<Rightarrow> PStr t)"

text \<open>
  \<open>verify_answer\<close> of a gold answer as it stands in the row: a value that is not a text makes the
  verifier's own preparation raise, so that the normalised texts are compared.
\<close>

definition verify_gold :: "verifier \<Rightarrow> (pyval \<Rightarrow> string) \<Rightarrow> string option \<Rightarrow> pyval \<Rightarrow> bool" where
  "verify_gold mv rp predicted gold =
     (case gold of
        PStr g \<Rightarrow> verify_answer mv predicted g
      | v \<Rightarrow> (case predicted of None \<Rightarrow> False
              | Some p \<Rightarrow> normalize_string p = normalize_string (py_str rp v)))"

definition attempt_of :: "verifier \<Rightarrow> (pyval \<Rightarrow> string) \<Rightarrow> pydict \<Rightarrow> nat \<times> candidate \<Rightarrow> (pydict \<times> bool) res" where
  "attempt_of mv rp row = (\<lambda>(idx, cand).
     bind_res (d_index ''gold_answer'' row) (\<lambda>gold.
       let boxed = extract_boxed_answer (cd_text cand); ok = verify_gold mv rp boxed gold
       in Inr ([(''attempt_index'', PInt (int idx)), (''text'', PStr (cd_text cand)), (''boxed_answer'', py_opt boxed),
                (''verified'', PBool ok), (''finish_reason'', py_opt (cd_finish_reason cand)),
                (''token_count'', PInt (int (cd_tokens cand)))], ok)))"

text \<open>The attempts, and the shortest verified one (the first of those).\<close>

definition try_candidates ::
  "verifier \<Rightarrow> (pyval \<Rightarrow> string) \<Rightarrow> pydict \<Rightarrow> candidate list \<Rightarrow> (pyval \<times> candidate option) res" where
  "try_candidates mv rp row cands =
     bind_res (map_res (attempt_of mv rp row) (enumerate 0 cands)) (\<lambda>atts.
       let verified = map fst (filter (\<lambda>(c, a). snd a) (zip cands atts))
       in Inr (PList (map (PDict \<circ> fst) atts),
               if verified = [] then None else Some (arg_min_list cd_tokens verified)))"

definition trace_fields :: "string \<Rightarrow> candidate option \<Rightarrow> nat \<Rightarrow> pydict" where
  "trace_fields prefix selected n =
     [(prefix @ ''_pi_trace'', py_opt (map_option cd_text selected)),
      (prefix @ ''_pi_verified'', PBool (selected \<noteq> None)), (prefix @ ''_pi_attempts'', PInt (int n))]"

definition teacher_trace_row ::
  "verifier \<Rightarrow> (pyval \<Rightarrow> string) \<Rightarrow> pydict \<Rightarrow> pydict \<times> candidate list \<Rightarrow> pydict res" where
  "teacher_trace_row mv rp info = (\<lambda>(row, cands).
     bind_res (try_candidates mv rp row cands) (\<lambda>(atts, selected).
       set_metadata ''qwen8b_pi_generation'' (PDict (info @ [(''attempts'', atts)]))
         (d_update row (trace_fields ''qwen8b'' selected (length cands)))))"

text \<open>\<open>PI_GENERATION_PROMPT.format(problem=...)\<close>, rendered with thinking enabled and no fallback.\<close>

definition pi_generation_prompt :: "chat_template \<Rightarrow> string \<Rightarrow> string res" where
  "pi_generation_prompt apply problem =
     bind_res (py_format (problem_env problem) PI_GENERATION_PROMPT) (\<lambda>t. apply [(''user'', t)] (Some True))"

type_synonym generator = "string list \<Rightarrow> candidate list list"

definition generate_teacher_traces ::
  "verifier \<Rightarrow> (pyval \<Rightarrow> string) \<Rightarrow> chat_template \<Rightarrow> generator \<Rightarrow> pydict \<Rightarrow> nat option \<Rightarrow> pydict list \<Rightarrow> pydict list res" where
  "generate_teacher_traces mv rp apply llm info max_prompts all_rows =
     (let rows = (case max_prompts of None \<Rightarrow> all_rows | Some n \<Rightarrow> take n all_rows)
      in bind_res (map_res (\<lambda>row. bind_res (d_index ''problem'' row) (\<lambda>p. pi_generation_prompt apply (py_str rp p))) rows)
           (\<lambda>prompts.
         bind_res (map_res (teacher_trace_row mv rp info) (zip rows (llm prompts))) (\<lambda>updated.
           if length (llm prompts) = length rows then Inr updated
           else Inl (ValueError ''zip() arguments have different lengths''))))"

section \<open>A shard of verified traces\<close>

record shard_args =
  sh_worker :: nat
  sh_num_workers :: nat
  sh_target :: nat
  sh_batch_size :: nat
  sh_max_rows :: "nat option"

text \<open>The rows of \<open>success.jsonl\<close> and \<open>failure.jsonl\<close>.\<close>

type_synonym shard_files = "pydict list \<times> pydict list"

definition load_seen_ids :: "(pyval \<Rightarrow> string) \<Rightarrow> shard_files \<Rightarrow> string list" where
  "load_seen_ids rp files =
     map (\<lambda>row. py_str rp (d_get ''id'' row)) (filter (\<lambda>row. truthy (d_get ''id'' row)) (fst files @ snd files))"

definition shard_row ::
  "verifier \<Rightarrow> (pyval \<Rightarrow> string) \<Rightarrow> pydict \<Rightarrow> pydict \<times> candidate list \<Rightarrow> (pydict \<times> bool) res" where
  "shard_row mv rp info = (\<lambda>(row, cands).
     bind_res (try_candidates mv rp row cands) (\<lambda>(atts, selected).
       let gen = PDict (info @ [(''attempts'', atts)]);
           new_row = d_update (d_update row (trace_fields ''qwen8b'' selected (length cands)))
             (take 2 (trace_fields ''qwen32b'' selected (length cands)))
       in bind_res (set_metadata ''qwen8b_pi_generation'' gen new_row) (\<lambda>r1.
          bind_res (set_metadata ''qwen32b_pi_generation'' gen r1) (\<lambda>r2. Inr (r2, selected \<noteq> None)))))"

fun shard_batch ::
  "(pydict \<times> candidate list \<Rightarrow> (pydict \<times> bool) res) \<Rightarrow> shard_files \<Rightarrow> (pydict \<times> candidate list) list
   \<Rightarrow> shard_files \<times> pyerr option" where
  "shard_batch step files [] = (files, None)"
| "shard_batch step files (x # xs) =
     (case step x of
        Inl e \<Rightarrow> (files, Some e)
      | Inr (row, ok) \<Rightarrow>
          shard_batch step (if ok then (fst files @ [row], snd files) else (fst files, snd files @ [row])) xs)"

text \<open>The loop over the batches; the number of successes is the number of rows in the first file.\<close>

fun shard_loop ::
  "(pydict \<times> candidate list \<Rightarrow> (pydict \<times> bool) res) \<Rightarrow> (pydict list \<Rightarrow> string list res) \<Rightarrow> generator \<Rightarrow> nat
   \<Rightarrow> shard_files \<Rightarrow> pydict list list \<Rightarrow> shard_files \<times> pyerr option" where
  "shard_loop step prompts_of llm target files [] = (files, None)"
| "shard_loop step prompts_of llm target files (batch # batches) =
     (if target \<le> length (fst files) then (files, None)
      else case prompts_of batch of
        Inl e \<Rightarrow> (files, Some e)
      | Inr prompts \<Rightarrow>
          (let outputs = llm prompts; (files1, err) = shard_batch step files (zip batch outputs)
           in if err \<noteq> None then (files1, err)
              else if length outputs \<noteq> length batch
              then (files1, Some (ValueError ''zip() arguments have different lengths''))
              else shard_loop step prompts_of llm target files1 batches))"

definition shard_source :: "shard_args \<Rightarrow> pydict list \<Rightarrow> pydict list" where
  "shard_source args source = (case sh_max_rows args of None \<Rightarrow> source | Some n \<Rightarrow> take n source)"

definition assigned :: "shard_args \<Rightarrow> pydict list \<Rightarrow> pydict list" where
  "assigned args source =
     map snd (filter (\<lambda>(i, row). i mod sh_num_workers args = sh_worker args) (enumerate 0 (shard_source args source)))"

definition verified_pi_shard ::
  "verifier \<Rightarrow> (pyval \<Rightarrow> string) \<Rightarrow> chat_template \<Rightarrow> generator \<Rightarrow> pydict \<Rightarrow> shard_args \<Rightarrow> pydict list \<Rightarrow> shard_files
   \<Rightarrow> shard_files \<times> pyerr option" where
  "verified_pi_shard mv rp apply llm info args source files =
     (let seen = load_seen_ids rp files
      in if sh_target args \<le> length (fst files) then (files, None)
         else if sh_num_workers args = 0 \<and> shard_source args source \<noteq> [] then (files, Some ZeroDivisionError)
         else if sh_batch_size args = 0 then (files, Some (ValueError ''range() arg 3 must not be zero''))
         else shard_loop (shard_row mv rp info)
                (map_res (\<lambda>row. bind_res (d_index ''problem'' row) (\<lambda>p. pi_generation_prompt apply (py_str rp p))))
                llm (sh_target args) files
                (chunks_of (sh_batch_size args)
                  (filter (\<lambda>row. py_str rp (d_get ''id'' row) \<notin> set seen) (assigned args source))))"

section \<open>The closed teacher\<close>

record api_response =
  ar_id :: "string option"
  ar_content :: "string option"

text \<open>One request; the flag says whether \<open>max_tokens\<close> is among the arguments.\<close>

type_synonym 'c client = "'c \<Rightarrow> string \<Rightarrow> bool \<Rightarrow> api_response res \<times> 'c"

definition closed_request :: "'c client \<Rightarrow> 'c \<Rightarrow> string \<Rightarrow> bool \<Rightarrow> (api_response res) \<times> 'c \<times> bool" where
  "closed_request create c prompt supported =
     (case create c prompt supported of
        (Inl (TypeError m), c1) \<Rightarrow>
          (if \<not> supported then (Inl (TypeError m), c1, supported)
           else let (r, c2) = create c1 prompt False in (r, c2, False))
      | (r, c1) \<Rightarrow> (r, c1, supported))"

fun closed_attempts ::
  "'c client \<Rightarrow> verifier \<Rightarrow> (pyval \<Rightarrow> string) \<Rightarrow> pydict \<Rightarrow> nat \<Rightarrow> nat \<Rightarrow> 'c \<Rightarrow> bool
   \<Rightarrow> (pydict list \<times> string option \<times> 'c \<times> bool) res" where
  "closed_attempts create mv rp row idx 0 c supported = Inr ([], None, c, supported)"
| "closed_attempts create mv rp row idx (Suc n) c supported =
     bind_res (d_index ''problem'' row) (\<lambda>problem.
     bind_res (py_format (problem_env (py_str rp problem)) CLOSED_TEACHER_USER_TEMPLATE) (\<lambda>prompt.
       let (resp, c1, supported1) = closed_request create c prompt supported
       in bind_res resp (\<lambda>response.
          bind_res (d_index ''gold_answer'' row) (\<lambda>gold.
            let text = the_default [] (ar_content response); boxed = extract_boxed_answer text;
                ok = verify_gold mv rp boxed gold;
                attempt = [(''attempt_index'', PInt (int idx)), (''request_id'', py_opt (ar_id response)),
                           (''text'', PStr text), (''boxed_answer'', py_opt boxed), (''verified'', PBool ok)]
            in if ok then Inr ([attempt], Some text, c1, supported1)
               else bind_res (closed_attempts create mv rp row (Suc idx) n c1 supported1) (\<lambda>(atts, sel, c2, sup).
                      Inr (attempt # atts, sel, c2, sup))))))"

definition closed_teacher_row ::
  "'c client \<Rightarrow> verifier \<Rightarrow> (pyval \<Rightarrow> string) \<Rightarrow> (bool \<Rightarrow> pydict) \<Rightarrow> nat \<Rightarrow> pydict list \<times> 'c \<times> bool \<Rightarrow> pydict
   \<Rightarrow> (pydict list \<times> 'c \<times> bool) res" where
  "closed_teacher_row create mv rp info max_attempts = (\<lambda>(updated, c, supported) row.
     bind_res (closed_attempts create mv rp row 0 max_attempts c supported) (\<lambda>(atts, selected, c1, supported1).
     bind_res (set_metadata ''closed_teacher_generation''
         (PDict (info supported1 @ [(''attempts'', PList (map PDict atts))]))
         (d_update row [(''closed_teacher_output'', py_opt selected), (''closed_teacher_verified'', PBool (selected \<noteq> None))]))
       (\<lambda>r. Inr (updated @ [r], c1, supported1))))"

definition generate_closed_teacher_data ::
  "'c client \<Rightarrow> verifier \<Rightarrow> (pyval \<Rightarrow> string) \<Rightarrow> (bool \<Rightarrow> pydict) \<Rightarrow> nat \<Rightarrow> nat option \<Rightarrow> 'c \<Rightarrow> pydict list
   \<Rightarrow> pydict list res" where
  "generate_closed_teacher_data create mv rp info max_attempts max_rows c rows =
     bind_res (fold_res (closed_teacher_row create mv rp info max_attempts) ([], c, True)
         (case max_rows of None \<Rightarrow> rows | Some n \<Rightarrow> take n rows))
       (\<lambda>(updated, c1, supported). Inr updated)"

section \<open>Lemmas: the shard\<close>

definition file_ids :: "shard_files \<Rightarrow> pyval set" where
  "file_ids files = d_get ''id'' ` set (fst files @ snd files)"

text \<open>A recorded success: its trace is an attempt the verifier accepts.\<close>

definition accepted_trace :: "verifier \<Rightarrow> (pyval \<Rightarrow> string) \<Rightarrow> pydict \<Rightarrow> bool" where
  "accepted_trace mv rp row \<longleftrightarrow> d_get ''qwen32b_pi_verified'' row = PBool True \<and>
     (\<exists>t. d_get ''qwen32b_pi_trace'' row = PStr t \<and> verify_gold mv rp (extract_boxed_answer t) (d_get ''gold_answer'' row))"

definition shard_ok :: "verifier \<Rightarrow> (pyval \<Rightarrow> string) \<Rightarrow> pyval set \<Rightarrow> shard_files \<Rightarrow> bool" where
  "shard_ok mv rp ids files \<longleftrightarrow>
     distinct (map (d_get ''id'') (fst files @ snd files)) \<and> file_ids files \<subseteq> ids
     \<and> (\<forall>row \<in> set (fst files). accepted_trace mv rp row)
     \<and> (\<forall>row \<in> set (snd files). d_get ''qwen32b_pi_verified'' row = PBool False)"

lemma arg_min_list_set: "xs \<noteq> [] \<Longrightarrow> arg_min_list f xs \<in> set xs"
  by (rule arg_min_list_in)

lemma try_candidates_selected:
  assumes "try_candidates mv rp row cands = Inr (atts, Some c)"
  shows "c \<in> set cands \<and> verify_gold mv rp (extract_boxed_answer (cd_text c)) (d_get ''gold_answer'' row) \<and>
    (\<forall>d \<in> set cands. verify_gold mv rp (extract_boxed_answer (cd_text d)) (d_get ''gold_answer'' row) \<longrightarrow> cd_tokens c \<le> cd_tokens d)"
proof -
  from assms obtain as where as: "map_res (attempt_of mv rp row) (enumerate 0 cands) = Inr as"
    and c: "map fst (filter (\<lambda>(c, a). snd a) (zip cands as)) \<noteq> []"
      "c = arg_min_list cd_tokens (map fst (filter (\<lambda>(c, a). snd a) (zip cands as)))"
    by (auto simp: try_candidates_def res_simps Let_def split: if_splits)
  have len: "length as = length cands" using map_res_length[OF as] by simp
  have snd: "snd (as ! i) = verify_gold mv rp (extract_boxed_answer (cd_text (cands ! i))) (d_get ''gold_answer'' row)"
    if "i < length cands" for i
    using map_res_nth[OF as, of i] that
    by (cases "as ! i") (auto simp: attempt_of_def res_simps nth_enumerate_eq Let_def d_index_def d_get_def split: option.splits)
  then have set: "set (map fst (filter (\<lambda>(c, a). snd a) (zip cands as)))
      = {d \<in> set cands. verify_gold mv rp (extract_boxed_answer (cd_text d)) (d_get ''gold_answer'' row)}"
  proof (intro set_eqI iffI)
    fix d assume "d \<in> set (map fst (filter (\<lambda>(c, a). snd a) (zip cands as)))"
    then obtain a where "(d, a) \<in> set (zip cands as)" "snd a" by auto
    then obtain i where "i < length cands" "d = cands ! i" "snd (as ! i)" by (auto simp: set_zip)
    then show "d \<in> {d \<in> set cands. verify_gold mv rp (extract_boxed_answer (cd_text d)) (d_get ''gold_answer'' row)}"
      using snd by simp
  next
    fix d assume "d \<in> {d \<in> set cands. verify_gold mv rp (extract_boxed_answer (cd_text d)) (d_get ''gold_answer'' row)}"
    then obtain i where i: "i < length cands" "d = cands ! i" "snd (as ! i)" using snd by (auto simp: in_set_conv_nth)
    then have "(d, as ! i) \<in> set (zip cands as)" using len by (auto simp: set_zip)
    with i show "d \<in> set (map fst (filter (\<lambda>(c, a). snd a) (zip cands as)))" by force
  qed
  have min: "cd_tokens c \<le> cd_tokens d" if "d \<in> set (map fst (filter (\<lambda>(c, a). snd a) (zip cands as)))" for d
    using f_arg_min_list_f[OF c(1), of cd_tokens] c(2) that by (simp add: Min_le_iff)
  from arg_min_list_set[OF c(1), of cd_tokens] c(2) set min show ?thesis by auto
qed

lemma map_of_set_metadata: "set_metadata k v row = Inr r \<Longrightarrow> j \<noteq> ''metadata'' \<Longrightarrow> map_of r j = map_of row j"
  by (auto simp: set_metadata_def split: pyval.splits)

lemma shard_row_result:
  assumes "shard_row mv rp info (row, cands) = Inr (r, ok)"
  shows "d_get ''id'' r = d_get ''id'' row \<and> d_get ''qwen32b_pi_verified'' r = PBool ok
    \<and> (ok \<longrightarrow> accepted_trace mv rp r)"
proof -
  from assms obtain atts sel r0 r1 where sel: "try_candidates mv rp row cands = Inr (atts, sel)"
    and r0: "r0 = d_update (d_update row (trace_fields ''qwen8b'' sel (length cands)))
        (take 2 (trace_fields ''qwen32b'' sel (length cands)))"
    and r1: "set_metadata ''qwen8b_pi_generation'' (PDict (info @ [(''attempts'', atts)])) r0 = Inr r1"
    and r: "set_metadata ''qwen32b_pi_generation'' (PDict (info @ [(''attempts'', atts)])) r1 = Inr r"
    and ok: "ok \<longleftrightarrow> sel \<noteq> None"
    by (auto simp: shard_row_def res_simps Let_def)
  have look: "map_of r j = map_of r0 j" if "j \<noteq> ''metadata''" for j
    using map_of_set_metadata[OF r that] map_of_set_metadata[OF r1 that] by simp
  have get: "d_get ''id'' r = d_get ''id'' row" "d_get ''gold_answer'' r = d_get ''gold_answer'' row"
    "d_get ''qwen32b_pi_verified'' r = PBool ok" "d_get ''qwen32b_pi_trace'' r = py_opt (map_option cd_text sel)"
    by (simp_all add: d_get_def look r0 d_update_def trace_fields_def numeral_2_eq_2 ok)
  show ?thesis
  proof (cases sel)
    case (Some c)
    with try_candidates_selected[OF sel[unfolded Some]] get ok show ?thesis
      by (simp add: accepted_trace_def py_opt_def)
  qed (use get ok in simp)
qed

lemma shard_batch_ok:
  assumes "shard_batch (shard_row mv rp info) files xs = (files', err)" and "shard_ok mv rp ids files"
    and "distinct (map (\<lambda>x. d_get ''id'' (fst x)) xs)" and "\<forall>x \<in> set xs. d_get ''id'' (fst x) \<in> ids - file_ids files"
  shows "shard_ok mv rp ids files' \<and> file_ids files' \<subseteq> file_ids files \<union> (\<lambda>x. d_get ''id'' (fst x)) ` set xs
    \<and> (err = None \<longrightarrow> file_ids files' = file_ids files \<union> (\<lambda>x. d_get ''id'' (fst x)) ` set xs)
    \<and> (\<exists>s f. files' = (fst files @ s, snd files @ f))"
  using assms
proof (induction xs arbitrary: files)
  case Nil
  then show ?case by (auto intro!: exI[of _ "[]"])
next
  case (Cons x xs)
  show ?case
  proof (cases "shard_row mv rp info x")
    case (Inl e)
    with Cons.prems show ?thesis by (auto intro!: exI[of _ "[]"])
  next
    case (Inr p)
    obtain row cands r ok where x: "x = (row, cands)" and p: "p = (r, ok)" by (cases x; cases p)
    note res = shard_row_result[OF Inr[unfolded x p]]
    let ?files = "if ok then (fst files @ [r], snd files) else (fst files, snd files @ [r])"
    have ids: "file_ids ?files = insert (d_get ''id'' row) (file_ids files)" using res by (auto simp: file_ids_def)
    have new: "d_get ''id'' row \<in> ids" "d_get ''id'' row \<notin> file_ids files" using Cons.prems(4) x by auto
    then have "distinct (map (d_get ''id'') (fst ?files @ snd ?files))"
      using Cons.prems(2) res by (auto simp: shard_ok_def file_ids_def)
    then have ok': "shard_ok mv rp ids ?files"
      using Cons.prems(2) res new ids by (auto simp: shard_ok_def)
    have run: "shard_batch (shard_row mv rp info) ?files xs = (files', err)" using Cons.prems(1) Inr p by simp
    have "d_get ''id'' row \<notin> (\<lambda>x. d_get ''id'' (fst x)) ` set xs" using Cons.prems(3) x by simp
    then have "\<forall>y \<in> set xs. d_get ''id'' (fst y) \<noteq> d_get ''id'' row" by (metis imageI)
    then have "\<forall>y \<in> set xs. d_get ''id'' (fst y) \<in> ids - file_ids ?files" using Cons.prems(4) ids by simp
    moreover have "distinct (map (\<lambda>x. d_get ''id'' (fst x)) xs)" using Cons.prems(3) by simp
    ultimately have "distinct (map (\<lambda>x. d_get ''id'' (fst x)) xs)"
      and "\<forall>y \<in> set xs. d_get ''id'' (fst y) \<in> ids - file_ids ?files" by blast+
    from Cons.IH[OF run ok' this] ids x show ?thesis by auto
  qed
qed

lemma map_fst_zip_prefix: "map (\<lambda>x. g (fst x)) (zip xs ys) = take (length ys) (map g xs)"
  by (induction xs ys rule: list_induct2') simp_all

lemma shard_loop_ok:
  assumes "shard_loop (shard_row mv rp info) prompts_of llm target files batches = (files', err)" and "shard_ok mv rp ids files"
    and "distinct (map (d_get ''id'') (concat batches))" and "\<forall>row \<in> set (concat batches). d_get ''id'' row \<in> ids - file_ids files"
  shows "shard_ok mv rp ids files'
    \<and> (err = None \<longrightarrow> target \<le> length (fst files') \<or> file_ids files' = file_ids files \<union> d_get ''id'' ` set (concat batches))
    \<and> (\<exists>s f. files' = (fst files @ s, snd files @ f))"
  using assms
proof (induction batches arbitrary: files)
  case Nil
  then show ?case by (auto intro!: exI[of _ "[]"])
next
  case (Cons batch batches)
  show ?case
  proof (cases "target \<le> length (fst files)")
    case True
    with Cons.prems show ?thesis by (auto intro!: exI[of _ "[]"])
  next
    case False
    show ?thesis
    proof (cases "prompts_of batch")
      case (Inl e)
      with Cons.prems False show ?thesis by (auto intro!: exI[of _ "[]"])
    next
      case (Inr prompts)
      let ?xs = "zip batch (llm prompts)"
      obtain files1 err1 where b: "shard_batch (shard_row mv rp info) files ?xs = (files1, err1)"
        by (cases "shard_batch (shard_row mv rp info) files ?xs")
      have ids: "map (\<lambda>x. d_get ''id'' (fst x)) ?xs = take (length (llm prompts)) (map (d_get ''id'') batch)"
        by (rule map_fst_zip_prefix)
      have d: "distinct (map (\<lambda>x. d_get ''id'' (fst x)) ?xs)" unfolding ids using Cons.prems(3) by simp
      have fresh: "\<forall>x \<in> set ?xs. d_get ''id'' (fst x) \<in> ids - file_ids files"
        using Cons.prems(4) by (auto dest!: set_zip_leftD)
      note res = shard_batch_ok[OF b Cons.prems(2) d fresh]
      have sub: "(\<lambda>x. d_get ''id'' (fst x)) ` set ?xs \<subseteq> d_get ''id'' ` set batch" by (auto dest!: set_zip_leftD)
      show ?thesis
      proof (cases "err1 = None \<and> length (llm prompts) = length batch")
        case True
        then have run: "shard_loop (shard_row mv rp info) prompts_of llm target files1 batches = (files', err)"
          using Cons.prems(1) False Inr b by simp
        have all: "(\<lambda>x. d_get ''id'' (fst x)) ` set ?xs = d_get ''id'' ` set batch"
          using ids True by (metis length_map list.set_map order_refl take_all)
        with res True have f1: "file_ids files1 = file_ids files \<union> d_get ''id'' ` set batch" by simp
        have "distinct (map (d_get ''id'') (concat batches))" using Cons.prems(3) by simp
        moreover have "\<forall>row \<in> set (concat batches). d_get ''id'' row \<in> ids - file_ids files1"
        proof
          fix row assume r: "row \<in> set (concat batches)"
          then have "d_get ''id'' row \<notin> d_get ''id'' ` set batch" using Cons.prems(3) by auto
          with Cons.prems(4) r f1 show "d_get ''id'' row \<in> ids - file_ids files1" by auto
        qed
        ultimately show ?thesis using Cons.IH[OF run] res f1 by (auto simp: image_Un Un_assoc)
      next
        case F: False
        then have "files' = files1" "err \<noteq> None" using Cons.prems(1) False Inr b by (auto split: if_splits)
        with res show ?thesis by blast
      qed
    qed
  qed
qed

lemma assigned_sub: "set (assigned args source) \<subseteq> set source"
  by (auto simp: assigned_def shard_source_def in_set_enumerate_eq split: option.splits dest: in_set_takeD)

lemma distinct_assigned:
  assumes "distinct (map f source)"
  shows "distinct (map f (assigned args source))"
proof -
  have "distinct (map f (shard_source args source))"
    using assms by (auto simp: shard_source_def take_map[symmetric] split: option.split)
  then have "distinct (map (f \<circ> snd) (enumerate 0 (shard_source args source)))"
    unfolding map_map[symmetric] by simp
  then show ?thesis unfolding assigned_def map_map by (rule distinct_map_filter)
qed

lemma set_assigned:
  "set (assigned args source) = {shard_source args source ! i |i. i < length (shard_source args source) \<and> i mod sh_num_workers args = sh_worker args}"
  (is "_ = ?R")
proof (intro set_eqI iffI)
  fix row assume "row \<in> set (assigned args source)"
  then obtain i where "(i, row) \<in> set (enumerate 0 (shard_source args source))" "i mod sh_num_workers args = sh_worker args"
    by (auto simp: assigned_def)
  then show "row \<in> ?R" by (auto simp: in_set_enumerate_eq)
next
  fix row assume "row \<in> ?R"
  then obtain i where i: "row = shard_source args source ! i" "i < length (shard_source args source)"
    "i mod sh_num_workers args = sh_worker args" by blast
  then have "(i, row) \<in> set (enumerate 0 (shard_source args source))" by (simp add: in_set_enumerate_eq)
  with i(3) show "row \<in> set (assigned args source)" unfolding assigned_def by force
qed

text \<open>The shards of \<open>n\<close> workers partition the source rows.\<close>

lemma assigned_partition:
  assumes "0 < n"
  shows "(\<Union>w < n. set (assigned (args\<lparr>sh_worker := w, sh_num_workers := n\<rparr>) source)) = set (shard_source args source)"
proof -
  have src: "shard_source (args\<lparr>sh_worker := w, sh_num_workers := n\<rparr>) source = shard_source args source" for w
    by (simp add: shard_source_def)
  show ?thesis
    unfolding set_assigned src using assms by (auto simp: in_set_conv_nth) (metis mod_less_divisor lessThan_iff)
qed

lemma assigned_disjoint:
  assumes "distinct (map f source)" "w \<noteq> w'"
  shows "f ` set (assigned (args\<lparr>sh_worker := w, sh_num_workers := n\<rparr>) source)
       \<inter> f ` set (assigned (args\<lparr>sh_worker := w', sh_num_workers := n\<rparr>) source) = {}"
proof -
  let ?src = "shard_source args source"
  have d: "distinct (map f ?src)"
    using assms by (auto simp: shard_source_def take_map[symmetric] split: option.split)
  have src: "shard_source (args\<lparr>sh_worker := w, sh_num_workers := n\<rparr>) source = ?src" for w
    by (simp add: shard_source_def)
  have "i = j" if "i < length ?src" "j < length ?src" "f (?src ! i) = f (?src ! j)" for i j
    using d that by (metis length_map nth_eq_iff_index_eq nth_map)
  note inj = this
  show ?thesis
  proof (intro equals0I)
    fix y assume "y \<in> f ` set (assigned (args\<lparr>sh_worker := w, sh_num_workers := n\<rparr>) source)
       \<inter> f ` set (assigned (args\<lparr>sh_worker := w', sh_num_workers := n\<rparr>) source)"
    then obtain i j where i: "i < length ?src" "i mod n = w" "y = f (?src ! i)"
      and j: "j < length ?src" "j mod n = w'" "y = f (?src ! j)"
      unfolding set_assigned src by auto
    with inj[of i j] assms(2) show False by simp
  qed
qed

section \<open>Properties\<close>

text \<open>
  C23. A shard can be stopped and resumed. Let the source rows have distinct non-empty text ids, and let the
  files hold what earlier runs of this worker left. Whether the run ends normally or with an exception, rows are
  only appended; no id is ever recorded twice, none of another worker's rows is; every recorded success holds a
  trace whose boxed answer the verifier accepts. A run that ends normally has reached its target or has recorded
  every row assigned to the worker.
\<close>

theorem verified_pi_shard_resumes:
  assumes distinct: "distinct (map (d_get ''id'') source)"
    and text_ids: "\<forall>row \<in> set source. \<exists>i. d_get ''id'' row = PStr i \<and> i \<noteq> []"
    and ok: "shard_ok mv rp (d_get ''id'' ` set (assigned args source)) files"
    and run: "verified_pi_shard mv rp apply llm info args source files = (files', err)"
  shows "shard_ok mv rp (d_get ''id'' ` set (assigned args source)) files'
    \<and> (\<exists>s f. files' = (fst files @ s, snd files @ f))
    \<and> (err = None \<longrightarrow> sh_target args \<le> length (fst files') \<or> file_ids files' = d_get ''id'' ` set (assigned args source))"
proof -
  let ?ids = "d_get ''id'' ` set (assigned args source)"
  have same: ?thesis if "files' = files" "err = None \<longrightarrow> sh_target args \<le> length (fst files)"
    using that ok by (auto intro!: exI[of _ "[]"])
  define todo where "todo = filter (\<lambda>row. py_str rp (d_get ''id'' row) \<notin> set (load_seen_ids rp files)) (assigned args source)"
  have tid: "\<exists>i. d_get ''id'' row = PStr i \<and> i \<noteq> []" if "row \<in> set (assigned args source)" for row
    using that text_ids assigned_sub by blast
  have seen: "py_str rp (d_get ''id'' row) \<in> set (load_seen_ids rp files) \<longleftrightarrow> d_get ''id'' row \<in> file_ids files"
    if row: "row \<in> set (assigned args source)" for row
  proof -
    obtain i where i: "d_get ''id'' row = PStr i" "i \<noteq> []" using tid[OF row] by blast
    have pid: "\<exists>j. v = PStr j \<and> j \<noteq> []" if "v \<in> file_ids files" for v
    proof -
      have "v \<in> ?ids" using ok that unfolding shard_ok_def by blast
      then obtain row' where "row' \<in> set (assigned args source)" "v = d_get ''id'' row'" by (rule imageE)
      with tid[of row'] show ?thesis by simp
    qed
    have "set (load_seen_ids rp files) = py_str rp ` {v \<in> file_ids files. truthy v}"
      unfolding load_seen_ids_def file_ids_def by auto
    also have "\<dots> = {j. PStr j \<in> file_ids files}"
    proof (intro set_eqI iffI)
      fix j assume "j \<in> py_str rp ` {v \<in> file_ids files. truthy v}"
      then obtain v where "v \<in> file_ids files" "j = py_str rp v" by blast
      with pid[of v] show "j \<in> {j. PStr j \<in> file_ids files}" by auto
    next
      fix j assume "j \<in> {j. PStr j \<in> file_ids files}"
      with pid[of "PStr j"] show "j \<in> py_str rp ` {v \<in> file_ids files. truthy v}" by (intro image_eqI[of _ _ "PStr j"]) auto
    qed
    finally have "set (load_seen_ids rp files) = {j. PStr j \<in> file_ids files}" .
    with i show ?thesis by simp
  qed
  have d: "distinct (map (d_get ''id'') todo)"
    unfolding todo_def by (rule distinct_map_filter[OF distinct_assigned[OF distinct]])
  have fresh: "\<forall>row \<in> set todo. d_get ''id'' row \<in> ?ids - file_ids files" using seen by (auto simp: todo_def)
  have all: "file_ids files \<union> d_get ''id'' ` set todo = ?ids"
    using ok seen by (auto simp: todo_def shard_ok_def)
  show ?thesis
  proof (cases "sh_target args \<le> length (fst files) \<or> sh_num_workers args = 0 \<and> shard_source args source \<noteq> []
      \<or> sh_batch_size args = 0")
    case True
    then show ?thesis using run by (intro same) (auto simp: verified_pi_shard_def Let_def split: if_splits)
  next
    case False
    then have cc: "concat (chunks_of (sh_batch_size args) todo) = todo" by (simp add: concat_chunks_of)
    from False have "shard_loop (shard_row mv rp info)
        (map_res (\<lambda>row. bind_res (d_index ''problem'' row) (\<lambda>p. pi_generation_prompt apply (py_str rp p)))) llm
        (sh_target args) files (chunks_of (sh_batch_size args) todo) = (files', err)"
      using run by (auto simp: verified_pi_shard_def Let_def todo_def)
    from shard_loop_ok[OF this ok, unfolded cc] d fresh all show ?thesis by simp
  qed
qed

definition ex_shard_source :: "pydict list" where
  "ex_shard_source = [[(''id'', PStr ''a''), (''problem'', PStr ''1''), (''gold_answer'', PStr ''1'')]]"

definition ex_shard_args :: shard_args where
  "ex_shard_args = \<lparr>sh_worker = 0, sh_num_workers = 1, sh_target = 2, sh_batch_size = 1, sh_max_rows = None\<rparr>"

definition ex_llm :: generator where
  "ex_llm ps = map (\<lambda>_. [\<lparr>cd_text = backslash @ ''boxed{1}'', cd_finish_reason = None, cd_tokens = 3\<rparr>]) ps"

lemma ex_shard_run: "snd (verified_pi_shard (\<lambda>_ _. Inr True) (\<lambda>_. []) (\<lambda>ms th. Inr (concat (map snd ms))) ex_llm [] ex_shard_args ex_shard_source ([], [])) = None"
  by code_simp

theorem verified_pi_shard_resumes_witness:
  "\<exists>files. verified_pi_shard (\<lambda>_ _. Inr True) (\<lambda>_. []) (\<lambda>ms th. Inr (concat (map snd ms))) ex_llm [] ex_shard_args ex_shard_source ([], []) = (files, None) \<and>
     (2 \<le> length (fst files) \<or> file_ids files = {PStr ''a''})"
proof -
  obtain files where run: "verified_pi_shard (\<lambda>_ _. Inr True) (\<lambda>_. []) (\<lambda>ms th. Inr (concat (map snd ms))) ex_llm [] ex_shard_args ex_shard_source ([], []) = (files, None)"
    using ex_shard_run by (metis prod.collapse)
  have "shard_ok (\<lambda>_ _. Inr True) (\<lambda>_. []) (d_get ''id'' ` set (assigned ex_shard_args ex_shard_source)) ([], [])"
    by (simp add: shard_ok_def file_ids_def)
  moreover have "d_get ''id'' ` set (assigned ex_shard_args ex_shard_source) = {PStr ''a''}"
    by (simp add: assigned_def shard_source_def ex_shard_args_def ex_shard_source_def d_get_def enumerate_eq_zip)
  ultimately show ?thesis
    using verified_pi_shard_resumes[OF _ _ _ run] run by (simp add: ex_shard_source_def d_get_def ex_shard_args_def)
qed

end
