(* ===== verification/SftData.thy ===== *)
theory SftData
  imports TraceGen
begin

text \<open>
  Training files, \<open>tools/extpi_rlsd/\<close>: the rows for reinforcement learning (\<open>jsonl_to_verl_parquet.py\<close>),
  for supervised training (\<open>build_closed_sft_parquet.py\<close>, \<open>build_teacher_sft_parquet.py\<close>) and for evaluation
  (\<open>prepare_official_math_eval.py\<close>), and the inspection of a supervised file before training
  (\<open>inspect_sft_parquet.py\<close>). A parquet file is the list of its rows. The tokenizer's template is a parameter.
\<close>

section \<open>Rows for reinforcement learning\<close>

definition message :: "string \<Rightarrow> string \<Rightarrow> pyval" where
  "message role content = PDict [(''role'', PStr role), (''content'', PStr content)]"

definition rule_reward :: "pyval \<Rightarrow> pyval" where
  "rule_reward ground_truth = PDict [(''style'', PStr ''rule''), (''ground_truth'', ground_truth)]"

definition verl_row :: "(pyval \<Rightarrow> string) \<Rightarrow> string \<Rightarrow> string \<Rightarrow> pydict \<Rightarrow> pydict res" where
  "verl_row rp prompt_key fld row =
     bind_res (d_index ''problem'' row) (\<lambda>problem.
     bind_res (d_index ''gold_answer'' row) (\<lambda>gold.
     bind_res (d_index ''id'' row) (\<lambda>rid.
       Inr (d_update []
         [(prompt_key, PList [message ''user''
             (''Solve the following mathematics problem. Give a concise, self-contained derivation.'' @ nl
              @ ''End with the final answer in '' @ backslash @ ''boxed{...}.'' @ nl @ nl @ py_str rp problem)]),
          (''data_source'', PStr ''extpi_rlsd/math''),
          (''reward_model'', rule_reward gold),
          (''extra_info'', PDict (d_update []
            [(''id'', rid), (''problem'', problem), (fld, d_get fld row),
             (verified_field fld, d_get_or (verified_field fld) (PBool False) row),
             (''qwen32b_pi_trace'', d_get ''qwen32b_pi_trace'' row),
             (''qwen32b_pi_verified'', d_get_or ''qwen32b_pi_verified'' (PBool False) row),
             (''qwen8b_pi_trace'', d_get ''qwen8b_pi_trace'' row),
             (''qwen8b_pi_verified'', d_get_or ''qwen8b_pi_verified'' (PBool False) row),
             (''pi_trace_field'', PStr fld)]))]))))"

definition jsonl_to_verl_parquet :: "(pyval \<Rightarrow> string) \<Rightarrow> string \<Rightarrow> string \<Rightarrow> pydict list \<Rightarrow> pydict list res" where
  "jsonl_to_verl_parquet rp prompt_key fld rows = map_res (verl_row rp prompt_key fld) rows"

section \<open>Rows for supervised training\<close>

definition student_user_text :: "string \<Rightarrow> string res" where
  "student_user_text problem = py_format (problem_env problem) STUDENT_USER_TEMPLATE"

definition closed_sft_row :: "(pyval \<Rightarrow> string) \<Rightarrow> pydict \<Rightarrow> pyval \<Rightarrow> pydict res" where
  "closed_sft_row rp row response =
     bind_res (d_index ''problem'' row) (\<lambda>p.
     bind_res (student_user_text (py_str rp p)) (\<lambda>user.
     bind_res (d_index ''gold_answer'' row) (\<lambda>gold.
     bind_res (d_index ''id'' row) (\<lambda>rid.
     bind_res (case d_get ''metadata'' row of
                 PDict m \<Rightarrow>
                   (case d_get_or ''closed_teacher_generation'' (PDict []) m of
                      PDict g \<Rightarrow> Inr (d_get ''model'' g)
                    | _ \<Rightarrow> Inl (TypeError ''object has no attribute get''))
               | _ \<Rightarrow> Inr PNone) (\<lambda>model.
       Inr [(''messages'', PList [message ''user'' user, message ''assistant'' (py_str rp response)]),
            (''enable_thinking'', PBool False), (''data_source'', PStr ''extpi_rlsd/closed_sft''),
            (''reward_model'', rule_reward gold),
            (''extra_info'', PDict [(''id'', rid), (''problem'', PStr (py_str rp p)), (''closed_teacher_verified'', PBool True),
                                    (''closed_teacher_model'', model)])])))))"

text \<open>
  The loop stops as soon as \<open>max_rows\<close> rows are built (after the first one when \<open>max_rows\<close> is zero);
  \<open>built\<close> is the number of rows built so far.
\<close>

fun build_closed_rows :: "(pyval \<Rightarrow> string) \<Rightarrow> nat option \<Rightarrow> nat \<Rightarrow> pydict list \<Rightarrow> pydict list res" where
  "build_closed_rows rp max_rows built [] = Inr []"
| "build_closed_rows rp max_rows built (row # rest) =
     (let response = d_get ''closed_teacher_output'' row
      in if \<not> truthy (d_get_or ''closed_teacher_verified'' (PBool False) row) \<or> \<not> truthy response
         then build_closed_rows rp max_rows built rest
         else bind_res (closed_sft_row rp row response) (\<lambda>r.
                if (case max_rows of None \<Rightarrow> False | Some n \<Rightarrow> n \<le> Suc built) then Inr [r]
                else bind_res (build_closed_rows rp max_rows (Suc built) rest) (\<lambda>rs. Inr (r # rs))))"

definition DEFAULT_RESPONSE_FIELDS :: "string list" where
  "DEFAULT_RESPONSE_FIELDS = [''closed_teacher_output'', ''teacher_output'', ''response'', ''solution'', ''assistant'']"

definition pick_response :: "(pyval \<Rightarrow> string) \<Rightarrow> pydict \<Rightarrow> string option \<Rightarrow> (string \<times> string) option" where
  "pick_response rp row response_field =
     (let fields = (case response_field of Some f \<Rightarrow> if f = [] then DEFAULT_RESPONSE_FIELDS else [f]
                    | None \<Rightarrow> DEFAULT_RESPONSE_FIELDS)
      in map_option (\<lambda>f. (py_str rp (d_get f row), f)) (find (\<lambda>f. not_blank rp (d_get f row)) fields))"

record sft_args =
  sa_problem_field :: string
  sa_response_field :: "string option"
  sa_answer_field :: string
  sa_verified_field :: string
  sa_require_verified :: bool
  sa_enable_thinking :: bool
  sa_data_source :: string
  sa_max_rows :: "nat option"

definition teacher_sft_row ::
  "(pyval \<Rightarrow> string) \<Rightarrow> (string \<Rightarrow> string) \<Rightarrow> sft_args \<Rightarrow> pydict \<Rightarrow> string \<Rightarrow> string \<times> string \<Rightarrow> pydict res" where
  "teacher_sft_row rp sha args row problem = (\<lambda>(response, used).
     bind_res (student_user_text problem) (\<lambda>user.
       Inr [(''messages'', PList [message ''user'' user, message ''assistant'' response]),
            (''enable_thinking'', PBool (sa_enable_thinking args)), (''data_source'', PStr (sa_data_source args)),
            (''reward_model'', rule_reward (d_get (sa_answer_field args) row)),
            (''extra_info'', PDict
              [(''id'', PStr (py_str rp (py_or (d_get ''id'' row) (PStr (stable_problem_id sha problem))))),
               (''problem'', PStr problem), (''response_field'', PStr used),
               (''verified'', PBool (truthy (d_get_or (sa_verified_field args) (PBool False) row)))])]))"

text \<open>Rows, counts of the response fields, and the number of dropped rows.\<close>

fun build_teacher_rows ::
  "(pyval \<Rightarrow> string) \<Rightarrow> (string \<Rightarrow> string) \<Rightarrow> sft_args \<Rightarrow> nat \<Rightarrow> pydict list
   \<Rightarrow> (pydict list \<times> string list \<times> nat) res" where
  "build_teacher_rows rp sha args built [] = Inr ([], [], 0)"
| "build_teacher_rows rp sha args built (row # rest) =
     (let dropped = bind_res (build_teacher_rows rp sha args built rest) (\<lambda>(rs, us, d). Inr (rs, us, Suc d))
      in if sa_require_verified args \<and> \<not> truthy (d_get_or (sa_verified_field args) (PBool False) row) then dropped
         else if \<not> not_blank rp (d_get (sa_problem_field args) row) then dropped
         else case pick_response rp row (sa_response_field args) of
           None \<Rightarrow> dropped
         | Some picked \<Rightarrow>
             bind_res (teacher_sft_row rp sha args row (py_str rp (d_get (sa_problem_field args) row)) picked) (\<lambda>r.
               if (case sa_max_rows args of None \<Rightarrow> False | Some n \<Rightarrow> n \<le> Suc built)
               then Inr ([r], [snd picked], 0)
               else bind_res (build_teacher_rows rp sha args (Suc built) rest) (\<lambda>(rs, us, d).
                      Inr (r # rs, snd picked # us, d))))"

definition parse_bool :: "string \<Rightarrow> bool res" where
  "parse_bool value =
     (let v = py_lower (py_strip value)
      in if v \<in> {''1'', ''true'', ''yes'', ''y''} then Inr True
         else if v \<in> {''0'', ''false'', ''no'', ''n''} then Inr False
         else Inl (TypeError ''Expected boolean value''))"

section \<open>Rows for evaluation\<close>

definition OPSD_USER_TEMPLATE :: string where
  "OPSD_USER_TEMPLATE = ''{problem}'' @ nl @ nl
     @ ''Please reason step by step, and put your final answer within '' @ backslash @ ''boxed{{}}.''"

definition eval_prompt :: "string \<Rightarrow> string \<Rightarrow> string res" where
  "eval_prompt problem prompt_style =
     (if prompt_style = ''opsd'' then py_format (problem_env problem) OPSD_USER_TEMPLATE
      else if prompt_style = ''extpi'' then py_format (problem_env problem) STUDENT_USER_TEMPLATE
      else Inl (ValueError ''Unknown prompt_style''))"

record dataset_spec =
  ds_name :: string
  ds_source :: string
  ds_split :: string
  ds_question_id_keys :: "string list"

definition DATASET_SPECS :: "(string \<times> dataset_spec) list" where
  "DATASET_SPECS =
     [(''aime24'', \<lparr>ds_name = ''aime24'', ds_source = ''HuggingFaceH4/aime_2024'', ds_split = ''train'',
                    ds_question_id_keys = [''id'']\<rparr>),
      (''aime25'', \<lparr>ds_name = ''aime25'', ds_source = ''yentinglin/aime_2025'', ds_split = ''train'',
                    ds_question_id_keys = [''problem_idx'', ''id'']\<rparr>),
      (''hmmt25'', \<lparr>ds_name = ''hmmt25'', ds_source = ''MathArena/hmmt_feb_2025'', ds_split = ''train'',
                    ds_question_id_keys = [''problem_idx'']\<rparr>)]"

definition normalize_example ::
  "(pyval \<Rightarrow> string) \<Rightarrow> (string \<Rightarrow> string) \<Rightarrow> string \<Rightarrow> dataset_spec \<Rightarrow> pydict \<Rightarrow> nat \<Rightarrow> string \<Rightarrow> pydict res" where
  "normalize_example rp sha dataset_name spec example index prompt_style =
     (let problem = d_get ''problem'' example; answer = d_get ''answer'' example;
          question_id = first_of rp example (ds_question_id_keys spec);
          sid = dataset_name @ '':'' @ (if question_id \<noteq> PNone then py_str rp question_id else int_text (int index));
          problem_text = py_str rp problem; answer_text = py_str rp answer
      in if \<not> not_blank rp problem then Inl (ValueError ''row is missing a problem field'')
         else if \<not> not_blank rp answer then Inl (ValueError ''row is missing an answer field'')
         else bind_res (eval_prompt problem_text prompt_style) (\<lambda>content.
           Inr [(''id'', PStr sid), (''problem'', PStr problem_text), (''gold_answer'', PStr answer_text),
                (''source_solution'', if d_get ''solution'' example = PNone then PStr []
                                      else PStr (py_str rp (d_get ''solution'' example))),
                (''prompt'', PList [message ''user'' content]),
                (''data_source'', PStr (''official_math/'' @ dataset_name)),
                (''reward_model'', rule_reward (PStr answer_text)),
                (''extra_info'', PDict
                  [(''id'', PStr sid), (''stable_problem_id'', PStr (stable_problem_id sha problem_text)),
                   (''problem'', PStr problem_text), (''dataset'', PStr dataset_name),
                   (''source_dataset'', PStr (ds_source spec)), (''source_split'', PStr (ds_split spec)),
                   (''source_question_id'', if question_id = PNone then PNone else PStr (py_str rp question_id)),
                   (''prompt_style'', PStr prompt_style), (''original_fields'', PDict example)])]))"

text \<open>The rows written for one data set; an unknown name stops the tool.\<close>

definition official_eval_rows ::
  "(pyval \<Rightarrow> string) \<Rightarrow> (string \<Rightarrow> string) \<Rightarrow> string \<Rightarrow> string \<Rightarrow> pydict list \<Rightarrow> pydict list res" where
  "official_eval_rows rp sha prompt_style dataset_name examples =
     (case map_of DATASET_SPECS dataset_name of
        None \<Rightarrow> Inl (ValueError ''Unknown dataset'')
      | Some spec \<Rightarrow>
          map_res (\<lambda>(index, example). normalize_example rp sha dataset_name spec example index prompt_style)
            (enumerate 0 examples))"

section \<open>Inspection of a supervised file\<close>

definition PI_LEAK_PATTERNS :: "string list" where
  "PI_LEAK_PATTERNS = [''qwen8b_pi_trace'', ''qwen32b_pi_trace'', ''privileged'', ''teacher trace'']"

text \<open>The ids of a list of messages: without or with the generation prompt, and the thinking flag if given.\<close>

type_synonym id_template = "pyval list \<Rightarrow> bool \<Rightarrow> bool option \<Rightarrow> int list res"

text \<open>\<open>extract_system_prompt_and_generation\<close>; \<open>tokens[: -d]\<close> counts from the end for positive \<open>d\<close>.\<close>

definition extract_system_prompt_and_generation :: "id_template \<Rightarrow> (int list \<times> int list) res" where
  "extract_system_prompt_and_generation tmpl =
     (let empty_user = message ''user'' []
      in bind_res (tmpl [empty_user] False None) (\<lambda>token1.
         bind_res (tmpl [empty_user, empty_user] False None) (\<lambda>token2.
         bind_res (tmpl [empty_user] True None) (\<lambda>token3.
           let d = int (length token2) - int (length token1)
           in Inr (if 0 < d then take (length token1 - nat d) token1 else take (nat (- d)) token1,
                   drop (length token1) token3)))))"

definition prompt_prefix_lengths :: "id_template \<Rightarrow> nat \<times> nat" where
  "prompt_prefix_lengths tmpl =
     (case extract_system_prompt_and_generation tmpl of
        Inl e \<Rightarrow> (0, 0)
      | Inr (system_prompt, generation_prompt) \<Rightarrow> (length system_prompt, length generation_prompt))"

definition message_content :: "(pyval \<Rightarrow> string) \<Rightarrow> pydict \<Rightarrow> string" where
  "message_content dumps m = (case d_get_or ''content'' (PStr []) m of PStr s \<Rightarrow> s | v \<Rightarrow> dumps v)"

definition row_id :: "(pyval \<Rightarrow> string) \<Rightarrow> pydict \<Rightarrow> nat \<Rightarrow> string" where
  "row_id rp row index =
     (if d_get ''id'' row \<noteq> PNone then py_str rp (d_get ''id'' row)
      else case d_get ''extra_info'' row of
        PDict extra \<Rightarrow> (if d_get ''id'' extra \<noteq> PNone then py_str rp (d_get ''id'' extra) else int_text (int index))
      | _ \<Rightarrow> int_text (int index))"

fun plain_value :: "pyval \<Rightarrow> pyval" where
  "plain_value (PDict d) = PDict (map (\<lambda>(k, v). (k, plain_value v)) d)"
| "plain_value (PList xs) = PList (map plain_value xs)"
| "plain_value (PArray xs) = PList (map plain_value xs)"
| "plain_value v = v"

text \<open>What one row adds to the lists of the report.\<close>

record row_report =
  rr_total :: nat
  rr_loss :: nat
  rr_content :: bool
  rr_leaks :: nat
  rr_invalid :: nat

definition leaks_marker :: "string \<Rightarrow> bool" where
  "leaks_marker content \<longleftrightarrow> list_ex (\<lambda>p. contains p (py_lower content)) PI_LEAK_PATTERNS"

definition inspect_message ::
  "(pyval \<Rightarrow> string) \<Rightarrow> id_template \<Rightarrow> nat \<times> nat \<Rightarrow> bool option \<Rightarrow> row_report \<Rightarrow> nat \<times> pyval \<Rightarrow> row_report res" where
  "inspect_message dumps tmpl lens thinking rep = (\<lambda>(index, v).
     case v of
       PDict m \<Rightarrow>
         (let content = message_content dumps m; role = d_get ''role'' m
          in bind_res (tmpl [v] False thinking) (\<lambda>ids.
               let effective = (if index \<noteq> 0 \<and> role \<noteq> PStr ''system'' then length ids - fst lens else length ids)
               in Inr (rep\<lparr>rr_total := rr_total rep + effective,
                           rr_loss := rr_loss rep + (if role = PStr ''assistant'' then effective - snd lens else 0),
                           rr_content := rr_content rep \<or> (role = PStr ''assistant'' \<and> py_strip content \<noteq> []),
                           rr_leaks := rr_leaks rep + (if role = PStr ''user'' \<and> leaks_marker content then 1 else 0)\<rparr>)))
     | _ \<Rightarrow> Inr (rep\<lparr>rr_invalid := Suc (rr_invalid rep)\<rparr>))"

definition empty_report :: row_report where
  "empty_report = \<lparr>rr_total = 0, rr_loss = 0, rr_content = False, rr_leaks = 0, rr_invalid = 0\<rparr>"

definition message_roles :: "pyval list \<Rightarrow> pyval list" where
  "message_roles messages = concat (map (\<lambda>v. case v of PDict m \<Rightarrow> [d_get ''role'' m] | _ \<Rightarrow> []) messages)"

text \<open>The lengths are \<open>None\<close> for a row that is not checked.\<close>

definition inspect_row ::
  "(pyval \<Rightarrow> string) \<Rightarrow> id_template \<Rightarrow> nat \<times> nat \<Rightarrow> string \<Rightarrow> bool option \<Rightarrow> pydict
   \<Rightarrow> (row_report \<times> (nat \<times> nat) option) res" where
  "inspect_row dumps tmpl lens messages_key thinking_default row =
     bind_res (d_index messages_key row) (\<lambda>raw.
       case plain_value raw of
         PList messages \<Rightarrow>
           (if length messages < 2 \<or> PStr ''user'' \<notin> set (message_roles messages)
               \<or> PStr ''assistant'' \<notin> set (message_roles messages)
            then Inr (empty_report\<lparr>rr_invalid := 1\<rparr>, None)
            else let thinking = (case map_of row ''enable_thinking'' of None \<Rightarrow> thinking_default
                                 | Some PNone \<Rightarrow> None | Some v \<Rightarrow> Some (truthy v))
              in bind_res (fold_res (inspect_message dumps tmpl lens thinking) empty_report (enumerate 0 messages)) (\<lambda>rep.
                   if \<not> rr_content rep \<or> rr_loss rep = 0 then Inr (rep\<lparr>rr_invalid := Suc (rr_invalid rep)\<rparr>, None)
                   else Inr (rep, Some (rr_total rep, rr_loss rep))))
       | _ \<Rightarrow> Inr (empty_report\<lparr>rr_invalid := 1\<rparr>, None))"

text \<open>\<open>np.percentile\<close> with linear interpolation, and the table of percentiles.\<close>

definition percentile :: "real list \<Rightarrow> real \<Rightarrow> real" where
  "percentile xs q =
     (let s = sort xs; pos = q / 100 * of_nat (length xs - 1); i = nat \<lfloor>pos\<rfloor>; j = min (i + 1) (length xs - 1)
      in s ! i + (s ! j - s ! i) * (pos - of_nat i))"

definition percentiles :: "nat list \<Rightarrow> (string \<times> real) list" where
  "percentiles ns =
     (let xs = map of_nat ns
      in if xs = [] then map (\<lambda>k. (k, 0)) [''mean'', ''p50'', ''p90'', ''p95'', ''p99'', ''max'']
         else [(''mean'', sum_list xs / of_nat (length xs)), (''p50'', percentile xs 50), (''p90'', percentile xs 90),
               (''p95'', percentile xs 95), (''p99'', percentile xs 99), (''max'', Max (set xs))])"

record sft_summary =
  su_rows :: nat
  su_checked_rows :: nat
  su_invalid_ids :: "string list"
  su_total_tokens :: "(string \<times> real) list"
  su_loss_tokens :: "(string \<times> real) list"
  su_overlong_ids :: "string list"
  su_leak_ids :: "string list"

definition inspect_dataframe ::
  "(pyval \<Rightarrow> string) \<Rightarrow> (pyval \<Rightarrow> string) \<Rightarrow> id_template \<Rightarrow> nat \<Rightarrow> string \<Rightarrow> bool option \<Rightarrow> nat option
   \<Rightarrow> string list \<Rightarrow> pydict list \<Rightarrow> sft_summary res" where
  "inspect_dataframe rp dumps tmpl max_length messages_key thinking_default max_rows columns all_rows =
     (if all_rows = [] then Inl (ValueError ''SFT parquet is empty'')
      else if messages_key \<notin> set columns then Inl (ValueError ''SFT parquet missing messages field'')
      else let rows = (case max_rows of None \<Rightarrow> all_rows | Some n \<Rightarrow> take n all_rows)
        in bind_res (map_res (inspect_row dumps tmpl (prompt_prefix_lengths tmpl) messages_key thinking_default) rows) (\<lambda>reports.
             let named = zip (map (\<lambda>(i, row). row_id rp row i) (enumerate 0 rows)) reports;
                 lengths = concat (map (\<lambda>(i, rep, l). case l of None \<Rightarrow> [] | Some p \<Rightarrow> [p]) named)
             in Inr \<lparr>su_rows = length rows, su_checked_rows = length lengths,
                  su_invalid_ids = dict_keys [] (concat (map (\<lambda>(i, rep, l). replicate (rr_invalid rep) i) named)),
                  su_total_tokens = percentiles (map fst lengths), su_loss_tokens = percentiles (map snd lengths),
                  su_overlong_ids = concat (map (\<lambda>(i, rep, l). case l of None \<Rightarrow> []
                       | Some (t, _) \<Rightarrow> if max_length < t then [i] else []) named),
                  su_leak_ids = dict_keys [] (concat (map (\<lambda>(i, rep, l). replicate (rr_leaks rep) i) named))\<rparr>))"

text \<open>\<open>main\<close>: the summary is printed, then the tool refuses a file with invalid, overlong or leaking rows.\<close>

definition inspect_gate :: "bool \<Rightarrow> bool \<Rightarrow> sft_summary \<Rightarrow> unit res" where
  "inspect_gate fail_on_overlong allow_pi_leak summary =
     (if su_invalid_ids summary \<noteq> [] then Inl (SystemExit ''SFT parquet contains invalid rows'')
      else if fail_on_overlong \<and> su_overlong_ids summary \<noteq> [] then Inl (SystemExit ''SFT parquet contains overlong rows'')
      else if \<not> allow_pi_leak \<and> su_leak_ids summary \<noteq> []
      then Inl (SystemExit ''SFT parquet user prompts contain PI leakage markers'')
      else Inr ())"

section \<open>Lemmas\<close>

lemma student_user_text_eq: "student_user_text problem = Inr (header_text @ problem)"
  by (simp add: student_user_text_def student_text)

lemma map_of_d_update_Nil: "distinct (map fst e) \<Longrightarrow> map_of (d_update [] e) = map_of e"
  by (simp add: map_of_d_update)

text \<open>The loop of the closed-teacher builder keeps the verified rows with an answer, in order, up to the limit.\<close>

definition has_closed_answer :: "pydict \<Rightarrow> bool" where
  "has_closed_answer row \<longleftrightarrow> truthy (d_get_or ''closed_teacher_verified'' (PBool False) row)
     \<and> truthy (d_get ''closed_teacher_output'' row)"

lemma build_closed_rows_selected:
  assumes "build_closed_rows rp max_rows built rows = Inr rs"
  shows "list_all2 (\<lambda>row r. closed_sft_row rp row (d_get ''closed_teacher_output'' row) = Inr r)
    (case max_rows of None \<Rightarrow> filter has_closed_answer rows
     | Some n \<Rightarrow> take (max 1 (n - built)) (filter has_closed_answer rows)) rs"
  using assms
proof (induction rows arbitrary: built rs)
  case (Cons row rows)
  show ?case
  proof (cases "has_closed_answer row")
    case False
    then have "build_closed_rows rp max_rows built rows = Inr rs"
      using Cons.prems by (simp add: has_closed_answer_def Let_def split: if_splits)
    from Cons.IH[OF this] False show ?thesis by (simp split: option.splits)
  next
    case True
    then obtain r where r: "closed_sft_row rp row (d_get ''closed_teacher_output'' row) = Inr r"
      and rs: "(if (case max_rows of None \<Rightarrow> False | Some n \<Rightarrow> n \<le> Suc built) then Inr [r]
        else bind_res (build_closed_rows rp max_rows (Suc built) rows) (\<lambda>rs. Inr (r # rs))) = Inr rs"
      using Cons.prems by (auto simp: has_closed_answer_def Let_def bind_res_Inr)
    show ?thesis
    proof (cases "case max_rows of None \<Rightarrow> False | Some n \<Rightarrow> n \<le> Suc built")
      case lim: True
      then obtain n where "max_rows = Some n" "n - built \<le> 1" by (auto split: option.splits)
      moreover have "max 1 (n - built) = 1" using calculation by simp
      ultimately show ?thesis using rs lim r \<open>has_closed_answer row\<close> by auto
    next
      case False
      then obtain rs' where "build_closed_rows rp max_rows (Suc built) rows = Inr rs'" "rs = r # rs'"
        using rs by (auto simp: bind_res_Inr)
      note ih = Cons.IH[OF this(1)] and rs' = this(2)
      show ?thesis
      proof (cases max_rows)
        case None
        with ih rs' r \<open>has_closed_answer row\<close> show ?thesis by simp
      next
        case (Some n)
        with False have "Suc built < n" by simp
        then have "max 1 (n - built) = Suc (n - Suc built)" "max 1 (n - Suc built) = n - Suc built" by auto
        with Some ih rs' r \<open>has_closed_answer row\<close> show ?thesis by simp
      qed
    qed
  qed
qed (auto split: option.split)

definition is_dict :: "pyval \<Rightarrow> bool" where
  "is_dict v = (case v of PDict _ \<Rightarrow> True | _ \<Rightarrow> False)"

definition leaking_message :: "(pyval \<Rightarrow> string) \<Rightarrow> pyval \<Rightarrow> bool" where
  "leaking_message dumps v = (case v of
     PDict m \<Rightarrow> d_get ''role'' m = PStr ''user'' \<and> leaks_marker (message_content dumps m) | _ \<Rightarrow> False)"

definition answering_message :: "(pyval \<Rightarrow> string) \<Rightarrow> pyval \<Rightarrow> bool" where
  "answering_message dumps v = (case v of
     PDict m \<Rightarrow> d_get ''role'' m = PStr ''assistant'' \<and> py_strip (message_content dumps m) \<noteq> [] | _ \<Rightarrow> False)"

lemma inspect_messages:
  "fold_res (inspect_message dumps tmpl lens thinking) rep (enumerate k ms) = Inr rep' \<Longrightarrow>
     rr_leaks rep' = rr_leaks rep + length (filter (leaking_message dumps) ms)
   \<and> rr_invalid rep' = rr_invalid rep + length (filter (\<lambda>v. \<not> is_dict v) ms)
   \<and> (rr_content rep' \<longleftrightarrow> rr_content rep \<or> list_ex (answering_message dumps) ms)"
proof (induction ms arbitrary: k rep)
  case (Cons v ms)
  from Cons.prems obtain rep1 where 1: "inspect_message dumps tmpl lens thinking rep (k, v) = Inr rep1"
    and 2: "fold_res (inspect_message dumps tmpl lens thinking) rep1 (enumerate (Suc k) ms) = Inr rep'"
    by (auto simp: bind_res_Inr)
  have "rr_leaks rep1 = rr_leaks rep + (if leaking_message dumps v then 1 else 0)
      \<and> rr_invalid rep1 = rr_invalid rep + (if is_dict v then 0 else 1)
      \<and> (rr_content rep1 \<longleftrightarrow> rr_content rep \<or> answering_message dumps v)"
    using 1 by (cases v) (auto simp: inspect_message_def leaking_message_def is_dict_def answering_message_def Let_def
        bind_res_Inr)
  with Cons.IH[OF 2] show ?case by auto
qed simp

lemma inspect_row_passed:
  assumes "inspect_row dumps tmpl lens key thinking row = Inr (rep, l)" "rr_invalid rep = 0" "rr_leaks rep = 0"
  shows "\<exists>raw messages t n. d_index key row = Inr raw \<and> plain_value raw = PList messages \<and> l = Some (t, n) \<and> 0 < n
     \<and> 2 \<le> length messages \<and> list_all is_dict messages \<and> PStr ''user'' \<in> set (message_roles messages)
     \<and> list_ex (answering_message dumps) messages \<and> \<not> list_ex (leaking_message dumps) messages"
proof -
  from assms obtain raw where raw: "d_index key row = Inr raw" by (auto simp: inspect_row_def bind_res_Inr)
  show ?thesis
  proof (cases "\<exists>messages. plain_value raw = PList messages")
    case False
    then show ?thesis using assms raw by (auto simp: inspect_row_def split: pyval.splits)
  next
    case True
    then obtain messages where m: "plain_value raw = PList messages" by blast
    let ?thinking = "case map_of row ''enable_thinking'' of None \<Rightarrow> thinking | Some PNone \<Rightarrow> None | Some v \<Rightarrow> Some (truthy v)"
    have ok: "\<not> length messages < 2" "PStr ''user'' \<in> set (message_roles messages)"
      using assms raw m by (auto simp: inspect_row_def split: if_splits)
    with assms raw m obtain rep0 where
      f: "fold_res (inspect_message dumps tmpl lens ?thinking) empty_report (enumerate 0 messages) = Inr rep0"
      and r: "(if \<not> rr_content rep0 \<or> rr_loss rep0 = 0 then Inr (rep0\<lparr>rr_invalid := Suc (rr_invalid rep0)\<rparr>, None)
        else Inr (rep0, Some (rr_total rep0, rr_loss rep0))) = (Inr (rep, l) :: (row_report \<times> (nat \<times> nat) option) res)"
      by (auto simp: inspect_row_def bind_res_Inr Let_def split: if_splits)
    from r assms(2) have "rr_content rep0" "rr_loss rep0 \<noteq> 0" "rep = rep0" "l = Some (rr_total rep0, rr_loss rep0)"
      by (auto split: if_splits)
    with inspect_messages[OF f] assms(2,3) ok raw m show ?thesis
      by (auto simp: empty_report_def list_all_iff list_ex_iff filter_empty_conv)
  qed
qed

section \<open>Properties\<close>

lemma opsd_text:
  "eval_prompt problem ''opsd'' = Inr (problem @ nl @ nl
     @ ''Please reason step by step, and put your final answer within '' @ backslash @ ''boxed{}.'')"
  unfolding eval_prompt_def OPSD_USER_TEMPLATE_def by (simp add: problem_env_def format_field_problem nl_def backslash_def)

text \<open>The text of the evaluation style \<open>opsd\<close> is never the text of the student prompt: their lengths differ.\<close>

lemma eval_text_agrees_iff:
  assumes "eval_prompt problem style = Inr t" and "student_user_text problem = Inr u"
  shows "t = u \<longleftrightarrow> style = ''extpi''"
proof -
  have "problem @ nl @ nl @ ''Please reason step by step, and put your final answer within '' @ backslash @ ''boxed{}.''
      \<noteq> header_text @ problem"
    by (rule notI, drule arg_cong[of _ _ length]) (simp add: header_text_def nl_def backslash_def)
  moreover have "style = ''opsd'' \<or> style = ''extpi''" using assms(1) by (auto simp: eval_prompt_def split: if_splits)
  ultimately show ?thesis using assms opsd_text[of problem] by (auto simp: eval_prompt_def student_user_text_eq student_text)
qed

lemma closed_row_prompt:
  assumes row: "closed_sft_row rp row (d_get ''closed_teacher_output'' row) = Inr r"
    and key: "key \<notin> {''data_source'', ''reward_model'', ''extra_info''}"
  shows "\<exists>p t. d_index ''problem'' row = Inr p \<and> student_user_text (py_str rp p) = Inr t \<and>
      d_get ''messages'' r = PList [message ''user'' t, message ''assistant'' (py_str rp (d_get ''closed_teacher_output'' row))] \<and>
      (\<forall>fld rl. verl_row rp key fld row = Inr rl \<longrightarrow> d_get key rl = PList [message ''user'' t]) \<and>
      (\<forall>apply thinking. build_student_prompt apply (py_str rp p) thinking = render_chat apply t (Some thinking))"
proof -
  from row obtain p where p: "d_index ''problem'' row = Inr p"
    and m: "d_get ''messages'' r = PList [message ''user'' (header_text @ py_str rp p),
      message ''assistant'' (py_str rp (d_get ''closed_teacher_output'' row))]"
    by (auto simp: closed_sft_row_def bind_res_Inr student_user_text_eq d_get_def)
  have "d_get key rl = PList [message ''user'' (header_text @ py_str rp p)]" if "verl_row rp key fld row = Inr rl" for fld rl
    using that p key by (auto simp: verl_row_def bind_res_Inr d_update_def d_get_def header_text_def)
  then show ?thesis using p m by (auto simp: student_user_text_eq build_prompts_simps)
qed

lemma teacher_rows_prompt:
  "build_teacher_rows rp sha args built source = Inr (rs, us, d) \<Longrightarrow>
   list_all (\<lambda>r. \<exists>row \<in> set source. \<exists>t response. student_user_text (py_str rp (d_get (sa_problem_field args) row)) = Inr t
     \<and> d_get ''messages'' r = PList [message ''user'' t, message ''assistant'' response]) rs"
proof (induction source arbitrary: built rs us d)
  case (Cons row rest)
  let ?P = "\<lambda>source r. \<exists>row \<in> set source. \<exists>t response.
    student_user_text (py_str rp (d_get (sa_problem_field args) row)) = Inr t
     \<and> d_get ''messages'' r = PList [message ''user'' t, message ''assistant'' response]"
  have mono: "list_all (?P rest) rs \<Longrightarrow> list_all (?P (row # rest)) rs" for rs by (auto simp: list_all_iff)
  have here: "?P (row # rest) r"
    if "teacher_sft_row rp sha args row (py_str rp (d_get (sa_problem_field args) row)) picked = Inr r" for picked r
    using that by (cases picked) (auto simp: teacher_sft_row_def bind_res_Inr d_get_def)
  consider (dropped) d' where "build_teacher_rows rp sha args built rest = Inr (rs, us, d')"
    | (last) r picked where "teacher_sft_row rp sha args row (py_str rp (d_get (sa_problem_field args) row)) picked = Inr r" "rs = [r]"
    | (more) r picked rs' us' d' where
        "teacher_sft_row rp sha args row (py_str rp (d_get (sa_problem_field args) row)) picked = Inr r" "rs = r # rs'"
        "build_teacher_rows rp sha args (Suc built) rest = Inr (rs', us', d')"
    using Cons.prems by (auto simp: Let_def bind_res_Inr split: if_splits option.splits)
  then show ?case
  proof cases
    case dropped
    then show ?thesis using Cons.IH mono by blast
  next
    case last
    then show ?thesis using here by simp
  next
    case (more r picked rs' us' d')
    with Cons.IH here mono show ?thesis by simp
  qed
qed simp

text \<open>
  C24. One prompt for training. The user message of a supervised row, from the closed-teacher builder and from the general
  one, the prompt of a reinforcement-learning row and the text that the trainer's student prompt renders are the same
  function of the problem; nothing else of the row, its trace least of all, enters it. The loop of the closed-teacher
  builder uses exactly the verified rows with an answer, in order, up to its limit. The prompt of an evaluation row is
  this text if and only if the tool was called with the style \<open>extpi\<close>; its default style \<open>opsd\<close> gives another text for every
  problem.
\<close>

theorem training_prompts_agree:
  assumes key: "key \<notin> {''data_source'', ''reward_model'', ''extra_info''}"
  shows "(\<forall>max_rows source sft. build_closed_rows rp max_rows 0 source = Inr sft \<longrightarrow>
      list_all2 (\<lambda>row r. \<exists>p t. d_index ''problem'' row = Inr p \<and> student_user_text (py_str rp p) = Inr t \<and>
        d_get ''messages'' r = PList [message ''user'' t, message ''assistant'' (py_str rp (d_get ''closed_teacher_output'' row))] \<and>
        (\<forall>fld rl. verl_row rp key fld row = Inr rl \<longrightarrow> d_get key rl = PList [message ''user'' t]) \<and>
        (\<forall>apply thinking. build_student_prompt apply (py_str rp p) thinking = render_chat apply t (Some thinking)))
      (case max_rows of None \<Rightarrow> filter has_closed_answer source
       | Some n \<Rightarrow> take (max 1 n) (filter has_closed_answer source)) sft)
    \<and> (\<forall>sha args source sft us d. build_teacher_rows rp sha args 0 source = Inr (sft, us, d) \<longrightarrow>
      list_all (\<lambda>r. \<exists>row \<in> set source. \<exists>t response.
        student_user_text (py_str rp (d_get (sa_problem_field args) row)) = Inr t
        \<and> d_get ''messages'' r = PList [message ''user'' t, message ''assistant'' response]) sft)
    \<and> (\<forall>sha style name examples rows. official_eval_rows rp sha style name examples = Inr rows \<longrightarrow>
      list_all2 (\<lambda>example r. \<exists>t u. d_get ''prompt'' r = PList [message ''user'' t]
        \<and> student_user_text (py_str rp (d_get ''problem'' example)) = Inr u
        \<and> (t = u \<longleftrightarrow> style = ''extpi'')) examples rows)"
proof (intro conjI allI impI)
  fix max_rows source sft assume "build_closed_rows rp max_rows 0 source = Inr sft"
  from build_closed_rows_selected[OF this]
  show "list_all2 (\<lambda>row r. \<exists>p t. d_index ''problem'' row = Inr p \<and> student_user_text (py_str rp p) = Inr t \<and>
        d_get ''messages'' r = PList [message ''user'' t, message ''assistant'' (py_str rp (d_get ''closed_teacher_output'' row))] \<and>
        (\<forall>fld rl. verl_row rp key fld row = Inr rl \<longrightarrow> d_get key rl = PList [message ''user'' t]) \<and>
        (\<forall>apply thinking. build_student_prompt apply (py_str rp p) thinking = render_chat apply t (Some thinking)))
      (case max_rows of None \<Rightarrow> filter has_closed_answer source
       | Some n \<Rightarrow> take (max 1 n) (filter has_closed_answer source)) sft"
    using closed_row_prompt[OF _ key] by (auto elim!: list_all2_mono split: option.splits)
next
  fix sha args source sft us d assume "build_teacher_rows rp sha args 0 source = Inr (sft, us, d)"
  then show "list_all (\<lambda>r. \<exists>row \<in> set source. \<exists>t response.
        student_user_text (py_str rp (d_get (sa_problem_field args) row)) = Inr t
        \<and> d_get ''messages'' r = PList [message ''user'' t, message ''assistant'' response]) sft"
    by (rule teacher_rows_prompt)
next
  fix sha style name examples rows assume "official_eval_rows rp sha style name examples = Inr rows"
  then obtain spec where "map_res (\<lambda>(index, example). normalize_example rp sha name spec example index style)
      (enumerate 0 examples) = Inr rows" by (auto simp: official_eval_rows_def split: option.splits)
  then have rows: "length rows = length examples"
    "\<And>i. i < length examples \<Longrightarrow> normalize_example rp sha name spec (examples ! i) i style = Inr (rows ! i)"
    by (auto simp: map_res_Inr_iff list_all2_conv_all_nth nth_enumerate_eq)
  have one: "\<exists>t u. d_get ''prompt'' r = PList [message ''user'' t]
      \<and> student_user_text (py_str rp (d_get ''problem'' example)) = Inr u \<and> (t = u \<longleftrightarrow> style = ''extpi'')"
    if n: "normalize_example rp sha name spec example i style = Inr r" for example r i
  proof -
    from n obtain t where t: "eval_prompt (py_str rp (d_get ''problem'' example)) style = Inr t"
      and r: "d_get ''prompt'' r = PList [message ''user'' t]"
      by (auto simp: normalize_example_def Let_def bind_res_Inr d_get_def split: if_splits)
    have u: "student_user_text (py_str rp (d_get ''problem'' example)) = Inr (header_text @ py_str rp (d_get ''problem'' example))"
      by (simp add: student_user_text_eq)
    from eval_text_agrees_iff[OF t u] r u show ?thesis by blast
  qed
  show "list_all2 (\<lambda>example r. \<exists>t u. d_get ''prompt'' r = PList [message ''user'' t]
        \<and> student_user_text (py_str rp (d_get ''problem'' example)) = Inr u
        \<and> (t = u \<longleftrightarrow> style = ''extpi'')) examples rows"
    unfolding list_all2_conv_all_nth using rows(1) one[OF rows(2)] by (intro conjI allI impI) simp_all
qed

definition ex_closed :: "pydict list" where
  "ex_closed = [[(''id'', PStr ''a''), (''problem'', PStr ''1+1''), (''gold_answer'', PStr ''2'')],
     [(''id'', PStr ''b''), (''problem'', PStr ''2+2''), (''gold_answer'', PStr ''4''),
      (''closed_teacher_verified'', PBool True), (''closed_teacher_output'', PStr ''so 4'')]]"

theorem training_prompts_agree_witness:
  "\<exists>r t. build_closed_rows (\<lambda>_. []) (Some 5) 0 ex_closed = Inr [r] \<and> student_user_text ''2+2'' = Inr t \<and>
     d_get ''messages'' r = PList [message ''user'' t, message ''assistant'' ''so 4'']"
proof -
  obtain r where r: "build_closed_rows (\<lambda>_. []) (Some 5) 0 ex_closed = Inr [r]"
    by (simp add: ex_closed_def closed_sft_row_def student_user_text_eq d_get_def d_get_or_def d_index_def)
  have sel: "filter has_closed_answer ex_closed = [ex_closed ! 1]"
    by (simp add: ex_closed_def has_closed_answer_def d_get_def d_get_or_def)
  from training_prompts_agree[of "''prompt''", THEN conjunct1, rule_format, OF _ r] r show ?thesis
    unfolding option.case sel by (auto simp: ex_closed_def d_get_def d_index_def)
qed

lemma concat_map_Nil: "concat (map f xs) = [] \<Longrightarrow> x \<in> set xs \<Longrightarrow> f x = []"
  by (induction xs) auto

text \<open>
  C25. What the inspection lets through. If it passes a file without exceptions for leaks or overlong rows, then
  every inspected row has a list of at least two messages, all of them dictionaries, a user among the roles, an
  assistant message that is not blank, a positive number of loss tokens and at most the allowed number of
  tokens, and no user message in which a marker of privileged text occurs in any case.
\<close>

theorem sft_inspection_sound:
  assumes run: "inspect_dataframe rp dumps tmpl max_length key thinking max_rows columns all_rows = Inr summary"
    and gate: "inspect_gate True False summary = Inr ()"
  shows "list_all (\<lambda>row. \<exists>raw messages rep t n. d_index key row = Inr raw \<and> plain_value raw = PList messages \<and>
      inspect_row dumps tmpl (prompt_prefix_lengths tmpl) key thinking row = Inr (rep, Some (t, n)) \<and>
      t \<le> max_length \<and> 0 < n \<and> 2 \<le> length messages \<and> list_all is_dict messages \<and>
      PStr ''user'' \<in> set (message_roles messages) \<and> list_ex (answering_message dumps) messages \<and>
      \<not> list_ex (leaking_message dumps) messages)
    (case max_rows of None \<Rightarrow> all_rows | Some n \<Rightarrow> take n all_rows)"
proof -
  define rows where "rows = (case max_rows of None \<Rightarrow> all_rows | Some n \<Rightarrow> take n all_rows)"
  from run obtain reports where reports:
      "map_res (inspect_row dumps tmpl (prompt_prefix_lengths tmpl) key thinking) rows = Inr reports"
    and su: "su_invalid_ids summary = dict_keys [] (concat (map (\<lambda>(i, rep, l). replicate (rr_invalid rep) i)
          (zip (map (\<lambda>(i, row). row_id rp row i) (enumerate 0 rows)) reports)))"
      "su_leak_ids summary = dict_keys [] (concat (map (\<lambda>(i, rep, l). replicate (rr_leaks rep) i)
          (zip (map (\<lambda>(i, row). row_id rp row i) (enumerate 0 rows)) reports)))"
      "su_overlong_ids summary = concat (map (\<lambda>(i, rep, l). case l of None \<Rightarrow> []
          | Some (t, _) \<Rightarrow> if max_length < t then [i] else [])
          (zip (map (\<lambda>(i, row). row_id rp row i) (enumerate 0 rows)) reports))"
    unfolding inspect_dataframe_def rows_def[symmetric] by (auto simp: bind_res_Inr Let_def split: if_splits)
  let ?ids = "map (\<lambda>(i, row). row_id rp row i) (enumerate 0 rows)"
  have len: "length reports = length rows" by (rule map_res_length[OF reports])
  have empty: "su_invalid_ids summary = []" "su_leak_ids summary = []" "su_overlong_ids summary = []"
    using gate by (auto simp: inspect_gate_def split: if_splits)
  have nil: "dict_keys [] xs = [] \<longleftrightarrow> xs = []" for xs :: "string list"
    using set_dict_keys[of "[]" xs] by (metis Un_empty_left list.set(1) set_empty)
  have row: "rr_invalid (fst (reports ! i)) = 0 \<and> rr_leaks (fst (reports ! i)) = 0
      \<and> (\<forall>t n. snd (reports ! i) = Some (t, n) \<longrightarrow> t \<le> max_length)" if i: "i < length rows" for i
  proof -
    have "zip ?ids reports ! i \<in> set (zip ?ids reports)" by (rule nth_mem) (simp add: i len)
    then have mem: "(?ids ! i, reports ! i) \<in> set (zip ?ids reports)" using i len by (simp only: nth_zip length_map length_enumerate)
    obtain rep l where r: "reports ! i = (rep, l)" by force
    note e = empty[unfolded su nil, THEN concat_map_Nil, OF mem, unfolded r prod.case]
    from e(1,2) have "rr_invalid rep = 0" "rr_leaks rep = 0" by simp_all
    moreover have "t \<le> max_length" if "l = Some (t, n)" for t n using e(3) that by (simp split: if_splits)
    ultimately show ?thesis using r by simp
  qed
  show ?thesis
    unfolding rows_def[symmetric]
  proof (subst list_all_length, intro allI impI)
    fix i assume i: "i < length rows"
    obtain rep l where r: "reports ! i = (rep, l)" by force
    have ir: "inspect_row dumps tmpl (prompt_prefix_lengths tmpl) key thinking (rows ! i) = Inr (rep, l)"
      using map_res_nth[OF reports i] r by simp
    from inspect_row_passed[OF ir] row[OF i] r ir show "\<exists>raw messages rep t n. d_index key (rows ! i) = Inr raw \<and>
        plain_value raw = PList messages \<and>
        inspect_row dumps tmpl (prompt_prefix_lengths tmpl) key thinking (rows ! i) = Inr (rep, Some (t, n)) \<and>
        t \<le> max_length \<and> 0 < n \<and> 2 \<le> length messages \<and> list_all is_dict messages \<and>
        PStr ''user'' \<in> set (message_roles messages) \<and> list_ex (answering_message dumps) messages \<and>
        \<not> list_ex (leaking_message dumps) messages"
      by (auto simp del: One_nat_def)
  qed
qed

definition ex_sft :: pydict where
  "ex_sft = [(''id'', PStr ''a''), (''messages'', PArray [message ''user'' ''1+1'', message ''assistant'' ''2''])]"

definition ex_ids :: id_template where
  "ex_ids ms gen thinking = Inr (concat (replicate (length ms) [1, 2]) @ (if gen then [3] else []))"

theorem sft_inspection_sound_witness:
  "\<exists>summary. inspect_dataframe (\<lambda>_. []) (\<lambda>_. []) ex_ids 9 ''messages'' (Some False) None [''messages''] [ex_sft] = Inr summary \<and>
     inspect_gate True False summary = Inr () \<and>
     (\<exists>rep t n. inspect_row (\<lambda>_. []) ex_ids (prompt_prefix_lengths ex_ids) ''messages'' (Some False) ex_sft
        = Inr (rep, Some (t, n)) \<and> t \<le> 9 \<and> 0 < n)"
proof -
  have "case inspect_row (\<lambda>_. []) ex_ids (prompt_prefix_lengths ex_ids) ''messages'' (Some False) ex_sft
      of Inl _ \<Rightarrow> False | Inr (rep, l) \<Rightarrow> rr_invalid rep = 0 \<and> rr_leaks rep = 0 \<and> l = Some (4, 1)"
    by code_simp
  then obtain rep where row: "inspect_row (\<lambda>_. []) ex_ids (prompt_prefix_lengths ex_ids) ''messages'' (Some False) ex_sft
      = Inr (rep, Some (4, 1))" "rr_invalid rep = 0" "rr_leaks rep = 0" by (auto split: sum.splits)
  obtain summary where run: "inspect_dataframe (\<lambda>_. []) (\<lambda>_. []) ex_ids 9 ''messages'' (Some False) None [''messages''] [ex_sft] = Inr summary"
    and "su_invalid_ids summary = []" "su_leak_ids summary = []" "su_overlong_ids summary = []"
    using row by (simp add: inspect_dataframe_def Let_def)
  then have gate: "inspect_gate True False summary = Inr ()" by (simp add: inspect_gate_def)
  from sft_inspection_sound[OF run gate] run gate show ?thesis by auto
qed

end
