(* ===== verification/EvalTools.thy ===== *)
theory EvalTools
  imports SftData Floats
begin

text \<open>
  Evaluation and selection of runs, \<open>tools/extpi_rlsd/\<close>: \<open>generate_recipient_completions.py\<close> (prompts and
  records of the samples), \<open>evaluate_checkpoints.py\<close> (items, seeds, summary of scored samples),
  \<open>hparam_matrix.py\<close> (environment of a run, gates on its metrics, ranking) and \<open>aggregate_results.py\<close>.
  The models, the parsing of numbers and the expansion of environment variables are parameters.
\<close>

section \<open>Samples of the recipient\<close>

definition seed_items :: "string \<Rightarrow> string list" where
  "seed_items value = filter (\<lambda>s. s \<noteq> []) (map py_strip (split_char (CHR '','') value))"

definition read_int :: "(string \<Rightarrow> int option) \<Rightarrow> string \<Rightarrow> int res" where
  "read_int parse s = (case parse s of None \<Rightarrow> Inl (ValueError ''invalid literal for int()'') | Some i \<Rightarrow> Inr i)"

definition recipient_seeds :: "(string \<Rightarrow> int option) \<Rightarrow> string \<Rightarrow> int list res" where
  "recipient_seeds parse value =
     bind_res (map_res (read_int parse) (seed_items value)) (\<lambda>seeds.
       if seeds = [] then Inl (ValueError ''At least one seed is required'') else Inr seeds)"

definition build_messages :: "(pyval \<Rightarrow> string) \<Rightarrow> pydict \<Rightarrow> string \<Rightarrow> string \<Rightarrow> (string \<times> string) list res" where
  "build_messages rp row mode fld =
     bind_res (d_index ''problem'' row) (\<lambda>p.
       let problem = py_str rp p
       in bind_res
            (if mode = ''plain'' then py_format (problem_env problem) STUDENT_USER_TEMPLATE
             else if mode = ''pi'' then
               (if \<not> truthy (d_get fld row) then Inl (ValueError ''PI completion requested for row without trace'')
                else py_format ((problem_env problem)(''pi_trace'' \<mapsto> py_str rp (d_get fld row))) PI_TEACHER_USER_TEMPLATE)
             else Inl (ValueError ''Unknown mode''))
            (\<lambda>content. Inr [(''user'', content)]))"

definition recipient_prompt ::
  "(pyval \<Rightarrow> string) \<Rightarrow> chat_template \<Rightarrow> string \<Rightarrow> bool \<Rightarrow> string \<Rightarrow> pydict \<Rightarrow> string res" where
  "recipient_prompt rp apply mode thinking fld row =
     (case bind_res (build_messages rp row mode fld) (\<lambda>ms. apply ms (Some thinking)) of
        Inl (TypeError m) \<Rightarrow> bind_res (build_messages rp row mode fld) (\<lambda>ms. apply ms None)
      | r \<Rightarrow> r)"

definition recipient_record ::
  "verifier \<Rightarrow> (pyval \<Rightarrow> string) \<Rightarrow> pydict \<Rightarrow> string \<Rightarrow> int \<Rightarrow> candidate \<Rightarrow> pydict res" where
  "recipient_record mv rp row mode seed cand =
     (let boxed = extract_boxed_answer (cd_text cand)
      in bind_res (d_index ''id'' row) (\<lambda>rid. bind_res (d_index ''gold_answer'' row) (\<lambda>gold.
           Inr [(''id'', rid), (''mode'', PStr mode), (''seed'', PInt seed), (''completion'', PStr (cd_text cand)),
                (''boxed_answer'', py_opt boxed), (''verified'', PBool (verify_gold mv rp boxed gold)),
                (''finish_reason'', py_opt (cd_finish_reason cand)), (''token_count'', PInt (int (cd_tokens cand))),
                (''truncated'', PBool (cd_finish_reason cand = Some ''length''))])))"

text \<open>The finish reason of the transformers back end.\<close>

definition hf_finish_reason :: "nat \<Rightarrow> int option \<Rightarrow> int list \<Rightarrow> string" where
  "hf_finish_reason max_new_tokens eos ids =
     (if max_new_tokens \<le> length ids \<and> \<not> (case eos of None \<Rightarrow> False | Some e \<Rightarrow> e \<in> set ids) then ''length'' else ''stop'')"

definition recipient_rows :: "string \<Rightarrow> string \<Rightarrow> nat option \<Rightarrow> pydict list \<Rightarrow> pydict list" where
  "recipient_rows mode fld max_rows rows =
     (let kept = (if mode = ''pi'' then filter (\<lambda>row. truthy (d_get_or (verified_field fld) (PBool False) row)
                    \<and> truthy (d_get fld row)) rows else rows)
      in case max_rows of None \<Rightarrow> kept | Some n \<Rightarrow> take n kept)"

text \<open>The vLLM back end: one call of the model per seed.\<close>

definition generate_recipient ::
  "verifier \<Rightarrow> (pyval \<Rightarrow> string) \<Rightarrow> chat_template \<Rightarrow> (int \<Rightarrow> string list \<Rightarrow> candidate list) \<Rightarrow> string \<Rightarrow> bool \<Rightarrow> string
   \<Rightarrow> pydict list \<Rightarrow> int list \<Rightarrow> pydict list res" where
  "generate_recipient mv rp apply llm mode thinking fld rows seeds =
     bind_res (map_res (recipient_prompt rp apply mode thinking fld) rows) (\<lambda>prompts.
     bind_res (map_res (\<lambda>seed.
         bind_res (map_res (\<lambda>(row, cand). recipient_record mv rp row mode seed cand) (zip rows (llm seed prompts))) (\<lambda>rs.
           if length (llm seed prompts) = length rows then Inr rs
           else Inl (ValueError ''zip() arguments have different lengths''))) seeds) (\<lambda>rss. Inr (concat rss)))"

section \<open>Evaluation items\<close>

fun to_python :: "pyval \<Rightarrow> pyval" where
  "to_python (PArrow v) = to_python v"
| "to_python (PArray xs) = PList (map to_python xs)"
| "to_python (PDict d) = PDict (map (\<lambda>(k, v). (k, to_python v)) d)"
| "to_python (PList xs) = PList (map to_python xs)"
| "to_python v = v"

record eval_item =
  ei_sample_id :: string
  ei_problem :: string
  ei_ground_truth :: string
  ei_messages :: "(string \<times> string) list"
  ei_pi_trace :: pyval

definition dict_or_empty :: "pyval \<Rightarrow> pydict" where
  "dict_or_empty v = (case v of PDict d \<Rightarrow> d | _ \<Rightarrow> [])"

definition eval_problem :: "pydict \<Rightarrow> pydict \<Rightarrow> pyval res" where
  "eval_problem row extra_info =
     (let problem = py_or (d_get ''problem'' row) (d_get ''problem'' extra_info)
      in case (problem, d_get ''prompt'' row) of
           (PNone, PList (first # rest)) \<Rightarrow>
             (case first of PDict m \<Rightarrow> Inr (d_get_or ''content'' (PStr []) m)
              | _ \<Rightarrow> Inl (TypeError ''object has no attribute get''))
         | _ \<Rightarrow> Inr problem)"

definition eval_message :: "(pyval \<Rightarrow> string) \<Rightarrow> pyval \<Rightarrow> (string \<times> string) res" where
  "eval_message rp msg =
     (case msg of
        PDict m \<Rightarrow> bind_res (d_index ''role'' m) (\<lambda>r. bind_res (d_index ''content'' m) (\<lambda>c.
                    Inr (py_str rp r, py_str rp c)))
      | _ \<Rightarrow> Inl (TypeError ''indices must be integers''))"

definition eval_item_of :: "(pyval \<Rightarrow> string) \<Rightarrow> string \<Rightarrow> nat \<times> pydict \<Rightarrow> eval_item res" where
  "eval_item_of rp fld = (\<lambda>(idx, raw).
     let row = dict_or_empty (to_python (PDict raw));
         extra_info = dict_or_empty (d_get ''extra_info'' row);
         reward_model = dict_or_empty (d_get ''reward_model'' row)
     in bind_res (eval_problem row extra_info) (\<lambda>problem.
        if problem = PNone then Inl (ValueError ''Cannot find problem text in eval row'')
        else let ground_truth = py_or (d_get ''gold_answer'' row) (d_get ''ground_truth'' reward_model)
          in if ground_truth = PNone then Inl (ValueError ''Cannot find ground truth in eval row'')
             else bind_res
               (case d_get ''prompt'' row of
                  PList messages \<Rightarrow> map_res (eval_message rp) messages
                | _ \<Rightarrow> bind_res (py_format (problem_env (py_str rp problem)) STUDENT_USER_TEMPLATE)
                        (\<lambda>t. Inr [(''user'', t)])) (\<lambda>messages.
               Inr \<lparr>ei_sample_id = py_str rp (py_or (py_or (d_get ''id'' row) (d_get ''id'' extra_info)) (PInt (int idx))),
                    ei_problem = py_str rp problem, ei_ground_truth = py_str rp ground_truth, ei_messages = messages,
                    ei_pi_trace = py_or (d_get fld extra_info) (d_get fld row)\<rparr>)))"

definition load_eval_items :: "(pyval \<Rightarrow> string) \<Rightarrow> string \<Rightarrow> nat option \<Rightarrow> pydict list \<Rightarrow> eval_item list res" where
  "load_eval_items rp fld max_rows rows =
     map_res (eval_item_of rp fld) (enumerate 0 (case max_rows of None \<Rightarrow> rows | Some n \<Rightarrow> take n rows))"

definition eval_prompts :: "chat_template \<Rightarrow> bool \<Rightarrow> eval_item list \<Rightarrow> string list res" where
  "eval_prompts apply thinking items =
     map_res (\<lambda>item. case apply (ei_messages item) (Some thinking) of
         Inl (TypeError m) \<Rightarrow> apply (ei_messages item) None | r \<Rightarrow> r) items"

definition hf_truncated :: "int option \<Rightarrow> nat \<Rightarrow> int list \<Rightarrow> bool" where
  "hf_truncated eos max_new_tokens ids \<longleftrightarrow>
     max_new_tokens \<le> length ids \<and> (case eos of None \<Rightarrow> True | Some e \<Rightarrow> e \<notin> set ids)"

text \<open>\<open>parse_seeds\<close>: fixed seeds, extended by consecutive ones or cut.\<close>

definition parse_seeds :: "(string \<Rightarrow> int option) \<Rightarrow> string option \<Rightarrow> nat \<Rightarrow> int list res" where
  "parse_seeds parse value num_samples =
     bind_res (case value of
          Some (c # cs) \<Rightarrow> map_res (read_int parse) (seed_items (c # cs))
        | _ \<Rightarrow> Inr (map int [0..<num_samples])) (\<lambda>seeds.
       if seeds = [] then Inl (ValueError ''At least one evaluation seed is required'')
       else Inr (take num_samples
              (seeds @ map (\<lambda>k. last seeds + 1 + int k) [0..<num_samples - length seeds])))"

section \<open>Summary of scored samples\<close>

record scored_sample =
  ss_text :: string
  ss_truncated :: bool
  ss_completion_tokens :: "nat option"
  ss_prompt_tokens :: nat

record scored_item =
  sc_id :: string
  sc_ground_truth :: string
  sc_pi_trace :: "string option"
  sc_greedy_text :: string
  sc_samples :: "scored_sample list"

definition normal_answer :: "string \<Rightarrow> string" where
  "normal_answer value = concat (py_split (py_lower value))"

text \<open>\<open>Counter.most_common(1)\<close>: the first of the entries with the greatest count.\<close>

definition most_common :: "(string \<times> nat) list \<Rightarrow> string" where
  "most_common c = (case c of [] \<Rightarrow> []
     | e # es \<Rightarrow> fst (foldl (\<lambda>best x. if snd best < snd x then x else best) e es))"

definition majority_answer :: "string list \<Rightarrow> string" where
  "majority_answer boxed_answers =
     most_common (fold counter_inc (map normal_answer (filter (\<lambda>a. a \<noteq> []) boxed_answers)) [])"

definition leaks_trace :: "string option \<Rightarrow> string \<Rightarrow> bool" where
  "leaks_trace pi_trace txt \<longleftrightarrow> contains ''<reference_solution>'' txt
     \<or> (case pi_trace of None \<Rightarrow> False | Some t \<Rightarrow> t \<noteq> [] \<and> contains (py_strip t) txt)"

record problem_row =
  pr_id :: string
  pr_avg :: real
  pr_pass :: real
  pr_majority :: real
  pr_greedy_accuracy :: real
  pr_greedy_format :: real
  pr_greedy_boxed :: string

definition list_avg :: "real list \<Rightarrow> real" where
  "list_avg xs = (if xs = [] then 0 else sum_list xs / of_nat (length xs))"

definition response_metrics :: "verifier \<Rightarrow> string \<Rightarrow> string \<Rightarrow> score_result" where
  "response_metrics mv txt ground_truth = compute_score mv ''extpi_rlsd/eval'' txt ground_truth"

definition problem_row_of :: "verifier \<Rightarrow> scored_item \<Rightarrow> problem_row" where
  "problem_row_of mv item =
     (let results = map (\<lambda>s. response_metrics mv (ss_text s) (sc_ground_truth item)) (sc_samples item);
          scores = map sr_accuracy results;
          majority = majority_answer (map sr_boxed_answer results);
          correct = (if majority \<noteq> [] then verify_answer mv (Some majority) (sc_ground_truth item) else False);
          greedy = response_metrics mv (sc_greedy_text item) (sc_ground_truth item)
      in \<lparr>pr_id = sc_id item, pr_avg = list_avg scores, pr_pass = of_bool (list_ex (\<lambda>x. 0 < x) scores),
          pr_majority = of_bool correct, pr_greedy_accuracy = sr_accuracy greedy, pr_greedy_format = sr_format greedy,
          pr_greedy_boxed = sr_boxed_answer greedy\<rparr>)"

record eval_summary =
  es_avg :: real
  es_majority :: real
  es_pass :: real
  es_greedy_accuracy :: real
  es_format_rate :: real
  es_truncation_rate :: real
  es_mean_response_length :: real
  es_group_variance :: real
  es_all_correct_rate :: real
  es_all_wrong_rate :: real
  es_prompt_tokens :: real
  es_completion_tokens :: real
  es_total_samples :: nat
  es_privacy_leakage_rate :: real
  es_per_problem :: "problem_row list"

definition summarize_scored_items :: "verifier \<Rightarrow> scored_item list \<Rightarrow> eval_summary" where
  "summarize_scored_items mv items =
     (let samples = concat (map (\<lambda>item. map (\<lambda>s. (item, s)) (sc_samples item)) items);
          results = map (\<lambda>(item, s). response_metrics mv (ss_text s) (sc_ground_truth item)) samples;
          leakage_hits = length (filter (\<lambda>(item, s). leaks_trace (sc_pi_trace item) (ss_text s)) samples);
          per_problem = map (problem_row_of mv) items;
          problem_avgs = map pr_avg per_problem;
          mean_problem_avg = list_avg problem_avgs
      in \<lparr>es_avg = list_avg (map sr_accuracy results), es_majority = list_avg (map pr_majority per_problem),
          es_pass = list_avg (map pr_pass per_problem),
          es_greedy_accuracy = list_avg (map pr_greedy_accuracy per_problem),
          es_format_rate = list_avg (map sr_format results),
          es_truncation_rate = list_avg (map (\<lambda>(item, s). of_bool (ss_truncated s)) samples),
          es_mean_response_length = list_avg (map (\<lambda>(item, s).
             of_nat (the_default (length (ss_text s)) (ss_completion_tokens s))) samples),
          es_group_variance = list_avg (map (\<lambda>v. (v - mean_problem_avg) ^ 2) problem_avgs),
          es_all_correct_rate = list_avg (map (\<lambda>v. of_bool (v = 1)) problem_avgs),
          es_all_wrong_rate = list_avg (map (\<lambda>v. of_bool (v = 0)) problem_avgs),
          es_prompt_tokens = sum_list (map (\<lambda>(item, s). of_nat (ss_prompt_tokens s)) samples),
          es_completion_tokens = sum_list (map (\<lambda>(item, s). of_nat (the_default 0 (ss_completion_tokens s))) samples),
          es_total_samples = length samples,
          es_privacy_leakage_rate =
            (if samples = [] then 0 else of_nat leakage_hits / of_nat (length samples)),
          es_per_problem = per_problem\<rparr>)"

section \<open>The matrix of runs\<close>

type_synonym csv_row = "(string \<times> string) list"

definition bool_env :: "string option \<Rightarrow> bool \<Rightarrow> string" where
  "bool_env value dflt =
     (case value of
        Some (c # cs) \<Rightarrow>
          (if py_lower (py_strip (c # cs)) \<in> {''1'', ''true'', ''yes'', ''y''} then ''True'' else ''False'')
      | _ \<Rightarrow> if dflt then ''True'' else ''False'')"

definition load_matrix :: "(string \<Rightarrow> string) \<Rightarrow> csv_row list \<Rightarrow> csv_row list res" where
  "load_matrix expandvars raw =
     (let rows = map (map (\<lambda>(k, v). (k, expandvars (py_strip v)))) raw
      in if rows = [] then Inl (ValueError ''Empty hyperparameter matrix'') else Inr rows)"

definition get_run :: "csv_row list \<Rightarrow> string \<Rightarrow> csv_row res" where
  "get_run rows run_id =
     (case filter (\<lambda>row. map_of row ''run_id'' = Some run_id) rows of
        [] \<Rightarrow> Inl (ValueError ''Unknown RUN_ID'')
      | [row] \<Rightarrow> Inr row
      | _ \<Rightarrow> Inl (ValueError ''Duplicate RUN_ID in matrix''))"

text \<open>\<open>row.get(k1) or row.get(k2) or dflt\<close>.\<close>

fun row_or :: "csv_row \<Rightarrow> string list \<Rightarrow> string \<Rightarrow> string" where
  "row_or row [] dflt = dflt"
| "row_or row (k # ks) dflt =
     (case map_of row k of Some (c # cs) \<Rightarrow> c # cs | _ \<Rightarrow> row_or row ks dflt)"

definition env_for_run :: "(string \<Rightarrow> string) \<Rightarrow> csv_row \<Rightarrow> (string \<times> string) list res" where
  "env_for_run expandvars row =
     (case map_of row ''run_id'' of
        None \<Rightarrow> Inl (KeyError ''run_id'')
      | Some run_id \<Rightarrow>
          (let seed = row_or row [''seed''] ''42'';
               fld = row_or row [''pi_trace_field''] DEFAULT_PI_TRACE_FIELD
           in Inr (map (\<lambda>(k, v). (k, expandvars (py_strip v)))
             [(''HPARAM_RUN_ID'', run_id),
              (''EXPERIMENT_NAME'', row_or row [''experiment_name'']
                 (''UPOD-SELF-q4-ot800-hparam-'' @ run_id @ ''-s'' @ seed)),
              (''MODEL_PATH'', row_or row [''model_path''] ''Qwen/Qwen3-4B-Thinking-2507''),
              (''TRAIN_FILE'', row_or row [''train_file'']
                 ''${EXTPI_DATA_ROOT}/datasets/splits/frontier_mvp/mvp_train.parquet''),
              (''VAL_FILE'', row_or row [''val_file'']
                 ''${EXTPI_DATA_ROOT}/datasets/splits/frontier_mvp/matched_dev.parquet''),
              (''RLSD_LAMBDA'', row_or row [''rlsd_lambda''] ''0.2''),
              (''RLSD_LAMBDA_WARMUP_STEPS'', row_or row [''rlsd_lambda_warmup_steps''] ''0''),
              (''RLSD_LAMBDA_DECAY_STEPS'', row_or row [''rlsd_lambda_decay_steps''] ''0''),
              (''RLSD_CLIP_RANGE'', row_or row [''rlsd_clip_range'', ''rlsd_reweight_clip_range''] ''0.1''),
              (''RLSD_NEGATIVE_ONLY'', bool_env (map_of row ''rlsd_negative_only'') True),
              (''RLSD_TOKEN_MASK'', row_or row [''rlsd_token_mask''] ''4k+ans''),
              (''TRAIN_BATCH_SIZE'', row_or row [''train_batch_size''] ''16''),
              (''PPO_MINI_BATCH_SIZE'', row_or row [''ppo_mini_batch_size'', ''train_batch_size''] ''16''),
              (''ROLLOUT_N'', row_or row [''rollout_n''] ''4''),
              (''ACTOR_LR'', row_or row [''actor_lr''] ''5e-7''),
              (''TEACHER_UPDATE_MODE'', row_or row [''teacher_update_mode''] ''periodic_snapshot''),
              (''TEACHER_SYNC_INTERVAL'', row_or row [''teacher_sync_interval''] ''10''),
              (''MAX_RESPONSE_LENGTH'', row_or row [''max_response_length''] ''6144''),
              (''TEACHER_MAX_PROMPT_LENGTH'', row_or row [''teacher_max_prompt_length''] ''12288''),
              (''TOTAL_TRAINING_STEPS'', row_or row [''total_training_steps''] ''25''),
              (''SAVE_FREQ'', row_or row [''save_freq''] ''25''),
              (''TEST_FREQ'', row_or row [''test_freq''] ''25''),
              (''SEED'', seed), (''PI_TRACE_FIELD'', fld),
              (''PI_VERIFIED_FIELD'', row_or row [''pi_verified_field''] (verified_field fld)),
              (''HPARAM_EVAL_MAX_ROWS'', row_or row [''eval_max_rows''] ''128''),
              (''HPARAM_EVAL_NUM_SAMPLES'', row_or row [''eval_num_samples''] ''4''),
              (''HPARAM_EVAL_SEEDS'', row_or row [''eval_seeds''] ''0,1,2,3''),
              (''HPARAM_EVAL_MAX_NEW_TOKENS'', row_or row [''eval_max_new_tokens''] ''8192'')])))"

section \<open>Gates on the metrics\<close>

text \<open>The value of a metric in a record: a number (NaN and the infinities included), a bool, or something else.\<close>

datatype metric_value = MNum fl | MBool bool | MOther

type_synonym metric_record = "(string \<times> metric_value) list"

definition to_float :: "metric_value \<Rightarrow> fl option" where
  "to_float v = (case v of MBool b \<Rightarrow> Some (Fin (of_bool b)) | MNum x \<Rightarrow> Some x | MOther \<Rightarrow> None)"

fun metric_value_of :: "metric_record \<Rightarrow> string list \<Rightarrow> real option" where
  "metric_value_of data [] = None"
| "metric_value_of data (k # ks) =
     (case map_of data k of
        Some v \<Rightarrow> (case to_float v of Some (Fin r) \<Rightarrow> Some r | _ \<Rightarrow> metric_value_of data ks)
      | None \<Rightarrow> metric_value_of data ks)"

definition rolling_violation :: "real list \<Rightarrow> real \<Rightarrow> nat \<Rightarrow> bool" where
  "rolling_violation values threshold window =
     (if length values < window then False
      else list_ex (\<lambda>idx. threshold < list_avg (slice idx (idx + window) values)) [0..<length values - window + 1])"

text \<open>The loop of \<open>_zero_grad_violation\<close> with its streak counter.\<close>

fun zero_streak :: "nat \<Rightarrow> nat \<Rightarrow> real list \<Rightarrow> bool" where
  "zero_streak window streak [] = False"
| "zero_streak window streak (v # vs) =
     (if v = 0 then (if window \<le> Suc streak then True else zero_streak window (Suc streak) vs)
      else zero_streak window 0 vs)"

definition zero_grad_violation :: "real list \<Rightarrow> bool" where
  "zero_grad_violation values = zero_streak 5 0 values"

definition has_non_finite :: "metric_record \<Rightarrow> bool" where
  "has_non_finite data = list_ex (\<lambda>(k, v). case to_float v of Some x \<Rightarrow> \<not> isfinite x | None \<Rightarrow> False) data"

definition clip_total :: "metric_record \<Rightarrow> real list" where
  "clip_total data =
     (let low = the_default 0 (metric_value_of data [''actor/rlsd/clip_low_ratio'', ''rlsd/clip_low_ratio'']);
          high = the_default 0 (metric_value_of data [''actor/rlsd/clip_high_ratio'', ''rlsd/clip_high_ratio''])
      in if low \<noteq> 0 \<or> high \<noteq> 0 then [low + high] else [])"

definition some_values :: "string list \<Rightarrow> metric_record list \<Rightarrow> real list" where
  "some_values keys records =
     concat (map (\<lambda>d. case metric_value_of d keys of None \<Rightarrow> [] | Some v \<Rightarrow> [v]) records)"

definition running_max :: "string list \<Rightarrow> metric_record list \<Rightarrow> real" where
  "running_max keys records = foldl (\<lambda>m d. max m (the_default 0 (metric_value_of d keys))) 0 records"

record metric_summary =
  ms_group_nonzero_std_ratio_mean :: real
  ms_rlsd_weight_std_mean :: real
  ms_rlsd_clip_total_mean :: real
  ms_privacy_leak_count :: real
  ms_pi_prompt_trunc_count :: real
  ms_violations :: "string list"

definition summarize_metrics :: "metric_record list \<Rightarrow> metric_summary" where
  "summarize_metrics records =
     (let group_values = some_values [''train/group_nonzero_std_ratio''] records;
          weight_std_values = some_values [''actor/rlsd/weight_std'', ''rlsd/weight_std''] records;
          clip_totals = concat (map clip_total records);
          truncation_values =
            some_values [''response_length/clip_ratio'', ''train/truncation_proxy_last_token_ratio''] records;
          grad_values = some_values [''actor/grad_norm''] records;
          leak_count = running_max [''privacy/student_prompt_pi_leak_count''] records;
          prompt_trunc_count = running_max [''extpi/pi_teacher_prompt_truncated_count''] records;
          sign_flip_count = running_max [''actor/rlsd/sign_flip_count'', ''rlsd/sign_flip_count''] records
      in \<lparr>ms_group_nonzero_std_ratio_mean = list_avg group_values,
          ms_rlsd_weight_std_mean = list_avg weight_std_values,
          ms_rlsd_clip_total_mean = list_avg clip_totals,
          ms_privacy_leak_count = leak_count, ms_pi_prompt_trunc_count = prompt_trunc_count,
          ms_violations =
            (if 0 < leak_count then [''pi_leak''] else [])
            @ (if 0 < prompt_trunc_count then [''pi_prompt_truncation''] else [])
            @ (if 0 < sign_flip_count then [''sign_flip''] else [])
            @ (if list_ex has_non_finite records then [''non_finite_metric''] else [])
            @ (if rolling_violation clip_totals (1/4) 5 then [''rlsd_clip_total''] else [])
            @ (if rolling_violation truncation_values (1/5) 5 then [''response_truncation''] else [])
            @ (if zero_grad_violation grad_values then [''zero_grad_norm''] else [])\<rparr>)"

section \<open>Ranking\<close>

text \<open>\<open>float(payload.get(k, 0.0))\<close> of an evaluation file.\<close>

definition payload_at :: "(string \<times> real) list \<Rightarrow> string \<Rightarrow> real" where
  "payload_at p k = the_default 0 (map_of p k)"

record proxy =
  px_score :: real
  px_ranking_score :: real
  px_selection_veto :: "string list"
  px_baseline_missing :: bool

definition proxy_score :: "(string \<times> real) list \<Rightarrow> (string \<times> real) list option \<Rightarrow> proxy" where
  "proxy_score e baseline =
     (let fmt = payload_at e ''format_rate''; truncation = payload_at e ''truncation_rate'';
          mean_len = payload_at e ''mean_response_length'';
          length_penalty = (case baseline of None \<Rightarrow> 0
             | Some b \<Rightarrow> let base_len = payload_at b ''mean_response_length''
                 in if 0 < base_len then \<bar>mean_len - base_len\<bar> / base_len else 0);
          veto = (case baseline of None \<Rightarrow> []
             | Some b \<Rightarrow> (if fmt < payload_at b ''format_rate'' - 2/100 then [''format_drop''] else [])
                 @ (if payload_at b ''truncation_rate'' + 5/100 < truncation then [''truncation_increase''] else []));
          score = 40/100 * payload_at e ''avg'' + 25/100 * payload_at e ''majority'' + 20/100 * payload_at e ''pass''
            + 10/100 * payload_at e ''greedy_accuracy'' + 5/100 * fmt - 10/100 * truncation - 3/100 * length_penalty
      in \<lparr>px_score = score, px_ranking_score = score - (if veto \<noteq> [] then 1 else 0),
          px_selection_veto = veto, px_baseline_missing = (baseline = None)\<rparr>)"

definition checkpoint_step :: "string \<Rightarrow> string" where
  "checkpoint_step checkpoint =
     (if starts_with ''step_'' checkpoint then py_replace ''step_'' [] checkpoint else checkpoint)"

definition SUMMARY_FIELDS :: "string list" where
  "SUMMARY_FIELDS = [''run_id'', ''step'', ''avg@4'', ''majority@4'', ''pass@4'', ''greedy'', ''format'', ''truncation'',
     ''mean_len'', ''ProxyScore'', ''ranking_score'', ''group_nonzero_std_ratio_mean'', ''rlsd_weight_std_mean'',
     ''rlsd_clip_total_mean'', ''privacy_leak_count'', ''pi_prompt_trunc_count'', ''hard_gate_violation'',
     ''selection_veto'', ''baseline_missing'']"

text \<open>\<open>build_summary_row\<close> with its values as the texts the CSV writer makes of them (\<open>ft\<close> for floats).\<close>

definition build_summary_row ::
  "(real \<Rightarrow> string) \<Rightarrow> string \<Rightarrow> string \<Rightarrow> metric_record list \<Rightarrow> (string \<times> real) list \<Rightarrow> (string \<times> real) list option \<Rightarrow> csv_row" where
  "build_summary_row ft run_id checkpoint records e baseline =
     (let m = summarize_metrics records; p = proxy_score e baseline
      in [(''run_id'', run_id), (''step'', checkpoint_step checkpoint), (''avg@4'', ft (payload_at e ''avg'')),
          (''majority@4'', ft (payload_at e ''majority'')), (''pass@4'', ft (payload_at e ''pass'')),
          (''greedy'', ft (payload_at e ''greedy_accuracy'')), (''format'', ft (payload_at e ''format_rate'')),
          (''truncation'', ft (payload_at e ''truncation_rate'')),
          (''mean_len'', ft (payload_at e ''mean_response_length'')),
          (''ProxyScore'', ft (px_score p)), (''ranking_score'', ft (px_ranking_score p)),
          (''selection_veto'', py_join '';'' (px_selection_veto p)),
          (''baseline_missing'', if px_baseline_missing p then ''True'' else ''False''),
          (''group_nonzero_std_ratio_mean'', ft (ms_group_nonzero_std_ratio_mean m)),
          (''rlsd_weight_std_mean'', ft (ms_rlsd_weight_std_mean m)),
          (''rlsd_clip_total_mean'', ft (ms_rlsd_clip_total_mean m)),
          (''privacy_leak_count'', ft (ms_privacy_leak_count m)),
          (''pi_prompt_trunc_count'', ft (ms_pi_prompt_trunc_count m)),
          (''hard_gate_violation'', py_join '';'' (ms_violations m))])"

text \<open>\<open>write_summary_csv\<close>: the rows of the file after the row of a run and step is written.\<close>

definition cell :: "csv_row \<Rightarrow> string \<Rightarrow> string" where
  "cell row k = the_default [] (map_of row k)"

definition write_summary_csv :: "csv_row list \<Rightarrow> csv_row \<Rightarrow> csv_row list" where
  "write_summary_csv old row =
     filter (\<lambda>r. \<not> (map_of r ''run_id'' = Some (cell row ''run_id'') \<and> map_of r ''step'' = Some (cell row ''step''))) old
     @ [map (\<lambda>f. (f, cell row f)) SUMMARY_FIELDS]"

definition ranking_key :: "(string \<Rightarrow> real option) \<Rightarrow> csv_row \<Rightarrow> real res" where
  "ranking_key parse row =
     (let txt = row_or row [''ranking_score'', ''ProxyScore''] []
      in if txt = [] then Inr 0
         else case parse txt of None \<Rightarrow> Inl (ValueError ''could not convert string to float'') | Some r \<Rightarrow> Inr r)"

text \<open>\<open>select-top\<close>: a stable sort by descending score of the rows that no gate and no veto excludes.\<close>

definition selectable :: "csv_row \<Rightarrow> bool" where
  "selectable row \<longleftrightarrow> cell row ''hard_gate_violation'' = [] \<and> cell row ''selection_veto'' = []"

definition select_top :: "(string \<Rightarrow> real option) \<Rightarrow> nat \<Rightarrow> csv_row list \<Rightarrow> string list res" where
  "select_top parse top_k rows =
     (let eligible = filter selectable rows
      in bind_res (map_res (ranking_key parse) eligible) (\<lambda>keys.
           map_res (\<lambda>row. case map_of row ''run_id'' of None \<Rightarrow> Inl (KeyError ''run_id'') | Some i \<Rightarrow> Inr i)
             (take top_k (map snd (sort_key (\<lambda>(k, row). - k) (zip keys eligible))))))"

section \<open>Aggregation of result files\<close>

definition FIELDS :: "string list" where
  "FIELDS = [''run'', ''checkpoint'', ''dataset'', ''avg'', ''majority'', ''pass'', ''greedy_accuracy'', ''format_rate'',
     ''truncation_rate'', ''mean_response_length'', ''group_variance'', ''all_correct_rate'', ''all_wrong_rate'',
     ''prompt_tokens'', ''completion_tokens'', ''total_samples'', ''privacy_leakage_rate'']"

definition aggregate_row :: "string \<Rightarrow> pydict \<Rightarrow> pydict" where
  "aggregate_row stem payload =
     map (\<lambda>f. (f, if f = ''run'' then py_or (py_or (d_get ''run'' payload) (d_get ''method'' payload)) (PStr stem)
                  else d_get f payload)) FIELDS"

definition markdown_table :: "(pyval \<Rightarrow> string) \<Rightarrow> pydict list \<Rightarrow> string" where
  "markdown_table rp rows =
     (let line = (\<lambda>cells. ''|'' @ py_join ''|'' cells @ ''|'')
      in py_join nl (line FIELDS # line (replicate (length FIELDS) ''---'')
           # map (\<lambda>row. line (map (\<lambda>f. if d_get f row = PNone then [] else py_str rp (d_get f row)) FIELDS)) rows) @ nl)"

section \<open>Lemmas: averages\<close>

lemma list_avg_bounds:
  assumes "\<And>x. x \<in> set xs \<Longrightarrow> a \<le> x \<and> x \<le> b" "a \<le> 0" "0 \<le> b"
  shows "a \<le> list_avg xs \<and> list_avg xs \<le> b"
proof (cases "xs = []")
  case False
  have "a * of_nat (length xs) \<le> sum_list xs \<and> sum_list xs \<le> b * of_nat (length xs)"
    using assms(1) by (induction xs) (auto simp: algebra_simps, (fastforce+)?)
  with False show ?thesis by (simp add: list_avg_def divide_le_eq le_divide_eq)
qed (use assms in \<open>simp add: list_avg_def\<close>)

lemma list_avg_mono:
  assumes "\<And>x. x \<in> set xs \<Longrightarrow> f x \<le> g x"
  shows "list_avg (map f xs) \<le> list_avg (map g xs)"
  using sum_list_mono[of xs f g] assms by (auto simp: list_avg_def divide_right_mono)

lemma list_avg_add: "list_avg (map f xs) + list_avg (map g xs) = list_avg (map (\<lambda>x. f x + g x) xs)"
  by (simp add: list_avg_def sum_list_addf add_divide_distrib)

lemma variance_le_quarter:
  assumes "\<And>x. x \<in> set xs \<Longrightarrow> 0 \<le> x \<and> x \<le> 1"
  shows "list_avg (map (\<lambda>v. (v - list_avg xs) ^ 2) xs) \<le> 1 / 4"
proof (cases "xs = []")
  case False
  let ?n = "of_nat (length xs) :: real" and ?m = "list_avg xs"
  have n: "0 < ?n" using False by simp
  have sum: "sum_list xs = ?m * ?n" using False by (simp add: list_avg_def)
  have "sum_list (map (\<lambda>v. (v - ?m) ^ 2) xs) \<le> sum_list (map (\<lambda>v. v * (1 - 2 * ?m) + ?m ^ 2) xs)"
  proof (rule sum_list_mono)
    fix v assume "v \<in> set xs"
    then have "v * v \<le> v * 1" using assms by (intro mult_left_mono) auto
    then show "(v - ?m) ^ 2 \<le> v * (1 - 2 * ?m) + ?m ^ 2" by (simp add: power2_eq_square algebra_simps)
  qed
  also have "\<dots> = sum_list xs * (1 - 2 * ?m) + ?n * ?m ^ 2"
    by (simp add: sum_list_addf sum_list_mult_const sum_list_triv)
  also have "\<dots> = ?n * (?m - ?m ^ 2)" unfolding sum by (simp add: power2_eq_square algebra_simps)
  also have "\<dots> \<le> ?n * (1 / 4)"
  proof -
    have "0 \<le> (?m - 1 / 2) ^ 2" by simp
    then have "?m - ?m ^ 2 \<le> 1 / 4" by (simp add: power2_eq_square algebra_simps)
    with n show ?thesis by (simp add: mult_left_mono)
  qed
  finally show ?thesis using n False by (simp add: list_avg_def divide_le_eq)
qed (simp add: list_avg_def)

lemma score_levels: "sr_accuracy (compute_score mv ds t g) \<in> {0, 1} \<and> sr_format (compute_score mv ds t g) \<in> {0, 1}
    \<and> sr_accuracy (compute_score mv ds t g) \<le> sr_format (compute_score mv ds t g)"
  by (auto simp: compute_score_def Let_def verify_answer_def split: option.splits)

section \<open>Lemmas: gates\<close>

definition zero_run :: "nat \<Rightarrow> real list \<Rightarrow> bool" where
  "zero_run w xs \<longleftrightarrow> (\<exists>i. i + w \<le> length xs \<and> (\<forall>j < w. xs ! (i + j) = 0))"

lemma zero_streak_run: "s < w \<Longrightarrow> zero_streak w s vs \<longleftrightarrow> zero_run w (replicate s 0 @ vs)"
proof (induction vs arbitrary: s)
  case Nil
  then show ?case by (auto simp: zero_run_def)
next
  case (Cons v vs)
  show ?case
  proof (cases "v = 0")
    case True
    have shift: "replicate s 0 @ v # vs = replicate (Suc s) 0 @ vs" using True by (simp add: replicate_app_Cons_same)
    show ?thesis
    proof (cases "w \<le> Suc s")
      case le: True
      then have "zero_run w (replicate s 0 @ v # vs)"
        unfolding zero_run_def shift using Cons.prems by (intro exI[of _ 0]) (auto simp: nth_append simp del: replicate_Suc)
      with True le show ?thesis by simp
    next
      case False
      then show ?thesis using True Cons.IH[of "Suc s"] unfolding shift by simp
    qed
  next
    case False
    have at: "(replicate s 0 @ v # vs) ! s = v" by (simp add: nth_append)
    have "zero_run w (replicate s 0 @ v # vs) \<longleftrightarrow> zero_run w vs"
    proof
      assume "zero_run w (replicate s 0 @ v # vs)"
      then obtain i where i: "i + w \<le> Suc (s + length vs)" "\<forall>j < w. (replicate s 0 @ v # vs) ! (i + j) = 0"
        by (auto simp: zero_run_def)
      have "s < i"
      proof (rule ccontr)
        assume "\<not> s < i"
        then have eq: "i + (s - i) = s" and lt: "s - i < w" using Cons.prems by auto
        from i(2)[rule_format, OF lt] show False unfolding eq at using False by simp
      qed
      then obtain d where d: "i = Suc s + d" by (metis less_iff_Suc_add add_Suc)
      have "vs ! (d + j) = 0" if "j < w" for j
        using i(2) that by (auto simp: d nth_append dest!: spec[of _ j])
      then show "zero_run w vs" unfolding zero_run_def using i(1) d by (intro exI[of _ d]) auto
    next
      assume "zero_run w vs"
      then obtain d where "d + w \<le> length vs" "\<forall>j < w. vs ! (d + j) = 0" by (auto simp: zero_run_def)
      then show "zero_run w (replicate s 0 @ v # vs)"
        unfolding zero_run_def by (intro exI[of _ "Suc s + d"]) (auto simp: nth_append)
    qed
    with False Cons.IH[of 0] Cons.prems show ?thesis by simp
  qed
qed

lemma rolling_violation_iff:
  "rolling_violation vs t w \<longleftrightarrow> (\<exists>i. i + w \<le> length vs \<and> t < list_avg (slice i (i + w) vs))"
proof (cases "length vs < w")
  case False
  then have "i < length vs - w + 1 \<longleftrightarrow> i + w \<le> length vs" for i by auto
  with False show ?thesis by (simp only: rolling_violation_def list_ex_iff set_upt atLeastLessThan_iff if_False) auto
qed (auto simp: rolling_violation_def)

lemma running_max_pos: "0 < foldl (\<lambda>m d. max m (f d)) (a::real) ds \<longleftrightarrow> 0 < a \<or> (\<exists>d \<in> set ds. 0 < f d)"
  by (induction ds arbitrary: a) (auto simp: max_def)

lemma positive_value: "0 < the_default 0 (metric_value_of d ks) \<longleftrightarrow> (\<exists>v > 0. metric_value_of d ks = Some v)"
  by (cases "metric_value_of d ks") auto

lemma py_join_Nil_iff: "list_all (\<lambda>x. x \<noteq> []) xs \<Longrightarrow> py_join sep xs = [] \<longleftrightarrow> xs = []"
  by (cases "(sep, xs)" rule: py_join.cases) auto

lemma list_avg_unit: "(\<And>x. x \<in> set xs \<Longrightarrow> 0 \<le> x \<and> x \<le> (1::real)) \<Longrightarrow> 0 \<le> list_avg xs \<and> list_avg xs \<le> 1"
  by (rule list_avg_bounds) auto

lemma response_metrics_bounds:
  "0 \<le> sr_accuracy (response_metrics mv t g) \<and> sr_accuracy (response_metrics mv t g) \<le> sr_format (response_metrics mv t g)
   \<and> 0 \<le> sr_format (response_metrics mv t g) \<and> sr_format (response_metrics mv t g) \<le> 1 \<and> sr_accuracy (response_metrics mv t g) \<le> 1"
  unfolding response_metrics_def using score_levels[of mv "''extpi_rlsd/eval''" t g] by auto

lemma problem_row_bounds:
  fixes item :: scored_item and mv :: verifier
  defines "r \<equiv> problem_row_of mv item"
  shows "0 \<le> pr_avg r \<and> pr_avg r \<le> 1 \<and> pr_avg r \<le> pr_pass r \<and> 0 \<le> pr_pass r \<and> pr_pass r \<le> 1
    \<and> 0 \<le> pr_majority r \<and> pr_majority r \<le> 1 \<and> 0 \<le> pr_greedy_accuracy r \<and> pr_greedy_accuracy r \<le> 1"
proof -
  let ?scores = "map (\<lambda>s. sr_accuracy (response_metrics mv (ss_text s) (sc_ground_truth item))) (sc_samples item)"
  have avg: "pr_avg r = list_avg ?scores" "pr_pass r = of_bool (list_ex (\<lambda>x. 0 < x) ?scores)"
    by (simp_all add: r_def problem_row_of_def Let_def o_def)
  have unit: "0 \<le> pr_avg r \<and> pr_avg r \<le> 1"
    unfolding avg by (rule list_avg_unit) (use response_metrics_bounds in auto)
  moreover have "pr_avg r \<le> pr_pass r"
  proof (cases "list_ex (\<lambda>x. 0 < x) ?scores")
    case True
    then show ?thesis using unit avg by simp
  next
    case False
    then have "list_avg ?scores \<le> 0"
      using list_avg_bounds[of ?scores 0 0] response_metrics_bounds by (fastforce simp: list_ex_iff)
    with False show ?thesis unfolding avg by simp
  qed
  moreover have "0 \<le> pr_majority r \<and> pr_majority r \<le> 1 \<and> 0 \<le> pr_pass r \<and> pr_pass r \<le> 1"
    by (simp add: r_def problem_row_of_def Let_def)
  moreover have "0 \<le> pr_greedy_accuracy r \<and> pr_greedy_accuracy r \<le> 1"
    using response_metrics_bounds by (simp add: r_def problem_row_of_def Let_def)
  ultimately show ?thesis by blast
qed

section \<open>Properties\<close>

text \<open>
  The summary of an evaluation is consistent. All its rates lie between zero and one and the variance of the
  groups is at most a quarter; no problem counts as both all correct and all wrong; a correct sample is a
  formatted one; and a problem passes at least as often as its samples are correct on average.
\<close>

theorem eval_summary_bounds:
  fixes items :: "scored_item list"
  shows "let s = summarize_scored_items mv items
   in list_all (\<lambda>x. 0 \<le> x \<and> x \<le> 1) [es_avg s, es_majority s, es_pass s, es_greedy_accuracy s, es_format_rate s,
        es_truncation_rate s, es_all_correct_rate s, es_all_wrong_rate s, es_privacy_leakage_rate s]
    \<and> 0 \<le> es_group_variance s \<and> es_group_variance s \<le> 1 / 4
    \<and> es_all_correct_rate s + es_all_wrong_rate s \<le> 1
    \<and> es_avg s \<le> es_format_rate s
    \<and> list_avg (map pr_avg (es_per_problem s)) \<le> es_pass s
    \<and> es_total_samples s = sum_list (map (length \<circ> sc_samples) items)"
proof -
  let ?rows = "map (problem_row_of mv) items"
  let ?samples = "concat (map (\<lambda>item. map (\<lambda>s. (item, s)) (sc_samples item)) items)"
  let ?leaks = "\<lambda>(item, s). leaks_trace (sc_pi_trace item) (ss_text s)"
  define s where "s = summarize_scored_items mv items"
  note fields = s_def[unfolded summarize_scored_items_def Let_def]
  note b = response_metrics_bounds and row = problem_row_bounds
  have rates: "0 \<le> es_avg s \<and> es_avg s \<le> 1" "0 \<le> es_format_rate s \<and> es_format_rate s \<le> 1"
    "0 \<le> es_majority s \<and> es_majority s \<le> 1" "0 \<le> es_pass s \<and> es_pass s \<le> 1"
    "0 \<le> es_greedy_accuracy s \<and> es_greedy_accuracy s \<le> 1" "0 \<le> es_truncation_rate s \<and> es_truncation_rate s \<le> 1"
    "0 \<le> es_all_correct_rate s \<and> es_all_correct_rate s \<le> 1" "0 \<le> es_all_wrong_rate s \<and> es_all_wrong_rate s \<le> 1"
    unfolding fields eval_summary.simps by (rule list_avg_unit; use b row in auto)+
  have "es_privacy_leakage_rate s = (if ?samples = [] then 0 else of_nat (length (filter ?leaks ?samples)) / of_nat (length ?samples))"
    by (simp only: fields eval_summary.simps)
  then have leak: "0 \<le> es_privacy_leakage_rate s \<and> es_privacy_leakage_rate s \<le> 1"
    using length_filter_le[of ?leaks ?samples] by (auto simp: divide_le_eq_1)
  have "v \<in> set (map pr_avg ?rows) \<Longrightarrow> 0 \<le> v \<and> v \<le> 1" for v using row by auto
  from variance_le_quarter[OF this] have var: "es_group_variance s \<le> 1 / 4" by (simp only: fields eval_summary.simps)
  have var0: "0 \<le> es_group_variance s"
    unfolding fields eval_summary.simps by (auto simp: list_avg_def intro!: divide_nonneg_nonneg sum_list_nonneg)
  have both: "es_all_correct_rate s + es_all_wrong_rate s \<le> 1"
    unfolding fields eval_summary.simps list_avg_add by (rule list_avg_unit[THEN conjunct2]) auto
  have fmt: "es_avg s \<le> es_format_rate s"
    unfolding fields eval_summary.simps map_map by (rule list_avg_mono) (use b in \<open>auto simp: o_def\<close>)
  have pass: "list_avg (map pr_avg (es_per_problem s)) \<le> es_pass s"
    unfolding fields eval_summary.simps by (rule list_avg_mono) (use row in auto)
  have len: "es_total_samples s = sum_list (map (length \<circ> sc_samples) items)"
    unfolding fields eval_summary.simps by (simp add: length_concat o_def)
  show ?thesis
    unfolding Let_def s_def[symmetric] using rates leak var var0 both fmt pass len by simp
qed

text \<open>
  C26. The gates on a run are exact. A leak, a truncated privileged prompt or a sign flip is reported exactly when
  some record has a positive finite count of it; a non-finite metric exactly when some record holds one; the
  clipping and truncation gates exactly when the mean of some five consecutive values exceeds the threshold; and
  the gradient gate, a loop with a streak counter, exactly when some five consecutive gradient norms are zero.
  The text written for a run is empty exactly when no gate is violated.
\<close>

theorem hard_gates_exact:
  "let v = ms_violations (summarize_metrics records); vals = (\<lambda>ks. some_values ks records);
       positive = (\<lambda>ks. \<exists>d x. d \<in> set records \<and> metric_value_of d ks = Some x \<and> 0 < x);
       rolls = (\<lambda>xs t. \<exists>i. i + 5 \<le> length xs \<and> t < list_avg (slice i (i + 5) xs))
   in (''pi_leak'' \<in> set v \<longleftrightarrow> positive [''privacy/student_prompt_pi_leak_count''])
    \<and> (''pi_prompt_truncation'' \<in> set v \<longleftrightarrow> positive [''extpi/pi_teacher_prompt_truncated_count''])
    \<and> (''sign_flip'' \<in> set v \<longleftrightarrow> positive [''actor/rlsd/sign_flip_count'', ''rlsd/sign_flip_count''])
    \<and> (''non_finite_metric'' \<in> set v \<longleftrightarrow>
         (\<exists>d k m x. d \<in> set records \<and> (k, m) \<in> set d \<and> to_float m = Some x \<and> \<not> isfinite x))
    \<and> (''rlsd_clip_total'' \<in> set v \<longleftrightarrow> rolls (concat (map clip_total records)) (1 / 4))
    \<and> (''response_truncation'' \<in> set v \<longleftrightarrow>
         rolls (vals [''response_length/clip_ratio'', ''train/truncation_proxy_last_token_ratio'']) (1 / 5))
    \<and> (''zero_grad_norm'' \<in> set v \<longleftrightarrow> zero_run 5 (vals [''actor/grad_norm'']))
    \<and> (py_join '';'' v = [] \<longleftrightarrow> v = [])"
proof -
  have pos: "0 < running_max ks records \<longleftrightarrow> (\<exists>d x. d \<in> set records \<and> metric_value_of d ks = Some x \<and> 0 < x)" for ks
    unfolding running_max_def running_max_pos positive_value by auto
  have fin: "list_ex has_non_finite records \<longleftrightarrow>
      (\<exists>d k m x. d \<in> set records \<and> (k, m) \<in> set d \<and> to_float m = Some x \<and> \<not> isfinite x)"
    unfolding list_ex_iff has_non_finite_def by (fastforce split: option.splits)
  have grad: "zero_grad_violation xs \<longleftrightarrow> zero_run 5 xs" for xs
    unfolding zero_grad_violation_def by (simp add: zero_streak_run)
  have names: "list_all (\<lambda>x. x \<noteq> []) (ms_violations (summarize_metrics records))"
    by (simp add: summarize_metrics_def Let_def)
  show ?thesis
    unfolding Let_def py_join_Nil_iff[OF names]
    by (simp add: summarize_metrics_def Let_def pos fin grad rolling_violation_iff)
qed

definition key_of :: "(string \<Rightarrow> real option) \<Rightarrow> csv_row \<Rightarrow> real" where
  "key_of parse row = (case ranking_key parse row of Inl _ \<Rightarrow> 0 | Inr r \<Rightarrow> r)"

lemma map_of_tabulate: "f \<in> set xs \<Longrightarrow> map_of (map (\<lambda>f. (f, g f)) xs) f = Some (g f)"
  by (induction xs) auto

lemma cell_summary: "f \<in> set SUMMARY_FIELDS \<Longrightarrow> cell (map (\<lambda>f. (f, cell row f)) SUMMARY_FIELDS) f = cell row f"
  by (simp add: cell_def map_of_tabulate)

lemma select_top_sorted:
  assumes "select_top parse k rows = Inr ids"
  shows "\<exists>ranked. mset ranked = mset (filter selectable rows) \<and> map (\<lambda>r. map_of r ''run_id'') (take k ranked) = map Some ids
    \<and> sorted_wrt (\<lambda>a b. key_of parse b \<le> key_of parse a) ranked"
proof -
  let ?el = "filter selectable rows"
  from assms obtain keys where keys: "map_res (ranking_key parse) ?el = Inr keys"
    and ids: "map_res (\<lambda>row. case map_of row ''run_id'' of None \<Rightarrow> Inl (KeyError ''run_id'') | Some i \<Rightarrow> Inr i)
      (take k (map snd (sort_key (\<lambda>(k, row). - k) (zip keys ?el)))) = Inr ids"
    by (auto simp: select_top_def Let_def bind_res_Inr)
  let ?sorted = "sort_key (\<lambda>(k, row). - k) (zip keys ?el)"
  have len: "length keys = length ?el" by (rule map_res_length[OF keys])
  have key: "key_of parse r = x" if "(x, r) \<in> set (zip keys ?el)" for x r
  proof -
    from that obtain i where "i < length ?el" "x = keys ! i" "r = ?el ! i" using len by (auto simp: set_zip)
    with map_res_nth[OF keys] show ?thesis by (simp add: key_of_def)
  qed
  have "map snd (zip keys ?el) = ?el" using len by simp
  then have m: "mset (map snd ?sorted) = mset ?el" by (metis mset_map mset_sort)
  have "sorted_wrt (\<lambda>a b. - fst a \<le> - fst b) ?sorted"
    using sorted_sort_key[of "\<lambda>(k, row). - k" "zip keys ?el"] by (simp add: sorted_wrt_map case_prod_beta')
  then have s: "sorted_wrt (\<lambda>a b. key_of parse b \<le> key_of parse a) (map snd ?sorted)"
    unfolding sorted_wrt_map by (rule sorted_wrt_mono_rel[rotated]) (use key in \<open>auto simp: set_sort\<close>)
  have "map (\<lambda>r. map_of r ''run_id'') (take k (map snd ?sorted)) = map Some ids"
  proof (rule nth_equalityI)
    show "length (map (\<lambda>r. map_of r ''run_id'') (take k (map snd ?sorted))) = length (map Some ids)"
      using map_res_length[OF ids] by simp
    fix i assume "i < length (map (\<lambda>r. map_of r ''run_id'') (take k (map snd ?sorted)))"
    with map_res_nth[OF ids, of i] map_res_length[OF ids]
    show "map (\<lambda>r. map_of r ''run_id'') (take k (map snd ?sorted)) ! i = map Some ids ! i"
      by (auto split: option.splits)
  qed
  with m s show ?thesis by blast
qed

lemma build_summary_row_cells:
  "cell (build_summary_row ft run c records e b) ''run_id'' = run"
  "cell (build_summary_row ft run c records e b) ''step'' = checkpoint_step c"
  "cell (build_summary_row ft run c records e b) ''hard_gate_violation'' = py_join '';'' (ms_violations (summarize_metrics records))"
  "cell (build_summary_row ft run c records e b) ''selection_veto'' = py_join '';'' (px_selection_veto (proxy_score e b))"
  by (simp_all add: cell_def build_summary_row_def Let_def)

lemma written_row_last:
  "last (write_summary_csv old row) = map (\<lambda>f. (f, cell row f)) SUMMARY_FIELDS"
  by (simp add: write_summary_csv_def)

lemma written_row_unique:
  assumes "r \<in> set (write_summary_csv old row)" "map_of r ''run_id'' = Some (cell row ''run_id'')"
    "map_of r ''step'' = Some (cell row ''step'')"
  shows "r = last (write_summary_csv old row)"
  using assms by (auto simp: write_summary_csv_def)

lemma written_row_selectable:
  "selectable (last (write_summary_csv old row)) \<longleftrightarrow>
     cell row ''hard_gate_violation'' = [] \<and> cell row ''selection_veto'' = []"
  unfolding selectable_def written_row_last by (subst (1 2) cell_summary) (simp_all add: SUMMARY_FIELDS_def)

lemma gates_join_empty: "py_join '';'' (ms_violations (summarize_metrics records)) = [] \<longleftrightarrow> ms_violations (summarize_metrics records) = []"
  by (rule py_join_Nil_iff) (simp add: summarize_metrics_def Let_def)

lemma veto_join_empty: "py_join '';'' (px_selection_veto (proxy_score e b)) = [] \<longleftrightarrow> px_selection_veto (proxy_score e b) = []"
  by (rule py_join_Nil_iff) (simp add: proxy_score_def Let_def split: option.splits)

text \<open>
  C27. Checkpoint selection. After the summary row of a run and step has been written, the table holds exactly one
  row for them; that row takes part in the selection iff no hard gate fired on the training metrics and the proxy
  score has no veto; and the selected ids are those of the first \<open>k\<close> rows of an ordering of the selectable
  rows by descending ranking score.
\<close>

theorem selection_sound:
  fixes rows :: "csv_row list"
  assumes rows: "rows = write_summary_csv old (build_summary_row ft run c records e baseline)"
    and sel: "select_top parse k rows = Inr ids"
  shows "(\<exists>ranked. mset ranked = mset (filter selectable rows)
      \<and> map (\<lambda>r. map_of r ''run_id'') (take k ranked) = map Some ids
      \<and> sorted_wrt (\<lambda>a b. key_of parse b \<le> key_of parse a) ranked)
    \<and> last rows \<in> set rows
    \<and> map_of (last rows) ''run_id'' = Some run \<and> map_of (last rows) ''step'' = Some (checkpoint_step c)
    \<and> (\<forall>r\<in>set rows. map_of r ''run_id'' = Some run \<and> map_of r ''step'' = Some (checkpoint_step c) \<longrightarrow> r = last rows)
    \<and> (selectable (last rows) \<longleftrightarrow>
        ms_violations (summarize_metrics records) = [] \<and> px_selection_veto (proxy_score e baseline) = [])"
proof -
  let ?row = "build_summary_row ft run c records e baseline"
  have ne: "rows \<noteq> []" unfolding rows by (simp add: write_summary_csv_def)
  have fields: "map_of (last rows) f = Some (cell ?row f)" if "f \<in> set SUMMARY_FIELDS" for f
    unfolding rows written_row_last by (rule map_of_tabulate[OF that])
  have "selectable (last rows) \<longleftrightarrow>
      ms_violations (summarize_metrics records) = [] \<and> px_selection_veto (proxy_score e baseline) = []"
    unfolding rows written_row_selectable build_summary_row_cells gates_join_empty veto_join_empty ..
  moreover have "map_of (last rows) ''run_id'' = Some run" "map_of (last rows) ''step'' = Some (checkpoint_step c)"
    using fields[of "''run_id''"] fields[of "''step''"] by (simp_all add: SUMMARY_FIELDS_def build_summary_row_cells)
  moreover have "r = last rows" if "r \<in> set rows" "map_of r ''run_id'' = Some run"
      "map_of r ''step'' = Some (checkpoint_step c)" for r
    using written_row_unique[of r old ?row] that unfolding rows build_summary_row_cells by blast
  ultimately show ?thesis using select_top_sorted[OF sel] last_in_set[OF ne] by blast
qed

lemma no_records_no_violation: "ms_violations (summarize_metrics []) = []"
  by (simp add: summarize_metrics_def Let_def running_max_def some_values_def rolling_violation_def zero_grad_violation_def)

lemma select_top_of_two:
  assumes "selectable a" "selectable b" "ranking_key p a = Inr x" "ranking_key p b = Inr y" "y \<le> x"
    "map_of a ''run_id'' = Some i"
  shows "select_top p 1 [a, b] = Inr [i]"
  using assms by (simp add: select_top_def Let_def)

theorem selection_sound_witness:
  "\<exists>ranked. mset ranked = mset (filter selectable
       (write_summary_csv [[(''run_id'', ''b''), (''step'', ''1''), (''ranking_score'', ''9'')]]
          (build_summary_row (\<lambda>_. ''0'') ''a'' ''step_2'' [] [] None)))
     \<and> map (\<lambda>r. map_of r ''run_id'') (take 1 ranked) = [Some ''b'']"
proof -
  let ?old = "[(''run_id'', ''b''), (''step'', ''1''), (''ranking_score'', ''9'')]"
  let ?row = "build_summary_row (\<lambda>_. ''0'') ''a'' ''step_2'' [] [] None"
  let ?new = "map (\<lambda>f. (f, cell ?row f)) SUMMARY_FIELDS"
  let ?parse = "\<lambda>t. Some (if t = ''9'' then 9 else 0) :: real option"
  have rows: "write_summary_csv [?old] ?row = [?old, ?new]"
    by (simp add: write_summary_csv_def build_summary_row_cells)
  have "selectable ?new"
    using written_row_selectable[of "[?old]" ?row] unfolding rows
    by (simp add: build_summary_row_cells no_records_no_violation proxy_score_def Let_def)
  moreover have "selectable ?old" by (simp add: selectable_def cell_def)
  moreover have "map_of ?new ''ranking_score'' = Some ''0''"
    by (subst map_of_tabulate) (simp_all add: SUMMARY_FIELDS_def cell_def build_summary_row_def Let_def)
  then have "ranking_key ?parse ?new = Inr 0" by (simp only: ranking_key_def) simp
  moreover have "ranking_key ?parse ?old = Inr 9" by (simp add: ranking_key_def)
  ultimately have sel: "select_top ?parse 1 (write_summary_csv [?old] ?row) = Inr [''b'']"
    unfolding rows by (intro select_top_of_two[where x = 9 and y = 0]) simp_all
  from conjunct1[OF selection_sound[OF refl sel]] obtain ranked where
    "mset ranked = mset (filter selectable (write_summary_csv [?old] ?row))"
    "map (\<lambda>r. map_of r ''run_id'') (take 1 ranked) = map Some [''b'']" by (elim exE conjE)
  then show ?thesis by (intro exI[of _ ranked] conjI) (simp_all only: list.map)
qed

end
