(* ===== verification/ReplayBuffer.thy ===== *)
theory ReplayBuffer
  imports DataTools
begin

text \<open>
  \<open>verl/trainer/ppo/v1/replay_buffer.py\<close> with its producers \<open>agent_loop_tq.py\<close> and its consumer
  \<open>trainer_base.py\<close>. Prompts and trajectories are keys of a partition of the transfer queue, an external
  key-value store; the store is a parameter given by its three operations, with the documented laws
  \<open>kv_laws\<close>. Of the tags of a key only those that the buffer reads are modelled. The order in which
  a set is iterated is the parameter \<open>so\<close>. The debug output of the polling loop is not modelled.
\<close>

section \<open>Tags and the store\<close>

record rtag =
  rt_is_prompt :: "bool option"
  rt_status :: "string option"
  rt_global_steps :: "int option"

definition no_tag :: rtag where
  "no_tag = \<lparr>rt_is_prompt = None, rt_status = None, rt_global_steps = None\<rparr>"

definition or_keep :: "'a option \<Rightarrow> 'a option \<Rightarrow> 'a option" where
  "or_keep new old = (case new of None \<Rightarrow> old | Some x \<Rightarrow> Some x)"

text \<open>\<open>tag.update(new)\<close>.\<close>

definition tag_update :: "rtag \<Rightarrow> rtag \<Rightarrow> rtag" where
  "tag_update tag new = \<lparr>rt_is_prompt = or_keep (rt_is_prompt new) (rt_is_prompt tag),
     rt_status = or_keep (rt_status new) (rt_status tag),
     rt_global_steps = or_keep (rt_global_steps new) (rt_global_steps tag)\<rparr>"

type_synonym items = "(string \<times> rtag) list"

record 's kv_ops =
  kv_list :: "'s \<Rightarrow> (string \<times> items) list"
  kv_put :: "string \<Rightarrow> string \<Rightarrow> rtag \<Rightarrow> 's \<Rightarrow> 's"
  kv_clear :: "string \<Rightarrow> string list \<Rightarrow> 's \<Rightarrow> 's"

definition kv_items :: "'s kv_ops \<Rightarrow> string \<Rightarrow> 's \<Rightarrow> items" where
  "kv_items ops p s = the_default [] (map_of (kv_list ops s) p)"

definition kv_view :: "'s kv_ops \<Rightarrow> string \<Rightarrow> 's \<Rightarrow> string \<Rightarrow> rtag option" where
  "kv_view ops p s = map_of (kv_items ops p s)"

text \<open>
  What the code relies on: a listing names a partition and a key of it once, \<open>kv_put\<close> merges the tag into
  that of the key, \<open>kv_clear\<close> removes the keys, and neither touches anything else.
\<close>

definition kv_laws :: "'s kv_ops \<Rightarrow> bool" where
  "kv_laws ops \<longleftrightarrow>
     (\<forall>s. distinct (map fst (kv_list ops s)))
     \<and> (\<forall>p s. distinct (map fst (kv_items ops p s)))
     \<and> (\<forall>p k t s q. kv_view ops q (kv_put ops p k t s) =
          (if q = p then (kv_view ops p s)(k \<mapsto> tag_update (the_default no_tag (kv_view ops p s k)) t)
           else kv_view ops q s))
     \<and> (\<forall>p ks s q. kv_view ops q (kv_clear ops p ks s) =
          (if q = p then kv_view ops p s |` (- set ks) else kv_view ops q s))"

section \<open>The buffer\<close>

record replay_buffer =
  rb_max_off_policy_threshold :: int
  rb_max_off_policy_strategy :: string
  rb_parameter_sync_step :: int
  rb_partitions :: "string \<Rightarrow> items"
  rb_pending_keys :: "string \<Rightarrow> string list"
  rb_running_keys :: "string \<Rightarrow> string list"
  rb_finished_keys :: "string \<Rightarrow> string list"
  rb_failure_keys :: "string \<Rightarrow> string list"
  rb_prompt_global_steps :: "string \<Rightarrow> (string \<times> int) list"

definition empty_metadata :: "replay_buffer \<Rightarrow> replay_buffer" where
  "empty_metadata rb = rb\<lparr>rb_partitions := \<lambda>_. [], rb_pending_keys := \<lambda>_. [], rb_running_keys := \<lambda>_. [],
     rb_finished_keys := \<lambda>_. [], rb_failure_keys := \<lambda>_. [], rb_prompt_global_steps := \<lambda>_. []\<rparr>"

text \<open>\<open>__init__\<close>.\<close>

definition rb_init :: "int \<Rightarrow> string \<Rightarrow> int \<Rightarrow> replay_buffer res" where
  "rb_init threshold strategy sync_step =
     (if threshold \<le> 0 then Inl (AssertionError ''Invalid max off policy threshold'')
      else if strategy \<notin> {''drop'', ''wait''} then Inl (AssertionError ''Invalid max off policy strategy'')
      else Inr \<lparr>rb_max_off_policy_threshold = threshold, rb_max_off_policy_strategy = strategy,
        rb_parameter_sync_step = sync_step, rb_partitions = \<lambda>_. [], rb_pending_keys = \<lambda>_. [],
        rb_running_keys = \<lambda>_. [], rb_finished_keys = \<lambda>_. [], rb_failure_keys = \<lambda>_. [],
        rb_prompt_global_steps = \<lambda>_. []\<rparr>)"

text \<open>A set is the list of its elements in the order of their insertion.\<close>

definition add_once :: "'a \<Rightarrow> 'a list \<Rightarrow> 'a list" where
  "add_once x xs = (if x \<in> set xs then xs else xs @ [x])"

definition at_add :: "string \<Rightarrow> 'a \<Rightarrow> (string \<Rightarrow> 'a list) \<Rightarrow> string \<Rightarrow> 'a list" where
  "at_add p x m = m(p := add_once x (m p))"

definition sync_item :: "string \<Rightarrow> replay_buffer \<Rightarrow> string \<times> rtag \<Rightarrow> replay_buffer res" where
  "sync_item p rb = (\<lambda>(key, tag).
     if the_default False (rt_is_prompt tag) then
       (case rt_global_steps tag of
          None \<Rightarrow> Inl (KeyError ''global_steps'')
        | Some g \<Rightarrow>
            let rb1 = rb\<lparr>rb_prompt_global_steps := (rb_prompt_global_steps rb)(p := d_set key g (rb_prompt_global_steps rb p))\<rparr>
            in case rt_status tag of
                 None \<Rightarrow> Inl (KeyError ''status'')
               | Some st \<Rightarrow>
                   if st = ''pending'' then Inr (rb1\<lparr>rb_pending_keys := at_add p key (rb_pending_keys rb1)\<rparr>)
                   else if st = ''running'' then Inr (rb1\<lparr>rb_running_keys := at_add p key (rb_running_keys rb1)\<rparr>)
                   else if st = ''finished'' then Inr (rb1\<lparr>rb_finished_keys := at_add p key (rb_finished_keys rb1)\<rparr>)
                   else if st = ''failure'' then Inr (rb1\<lparr>rb_failure_keys := at_add p key (rb_failure_keys rb1)\<rparr>)
                   else Inl (ValueError ''Unknown status''))
     else let old = the_default no_tag (map_of (rb_partitions rb p) key)
       in Inr (rb\<lparr>rb_partitions := (rb_partitions rb)(p := d_set key (tag_update old tag) (rb_partitions rb p))\<rparr>))"

definition sync_metadata :: "replay_buffer \<Rightarrow> (string \<times> items) list \<Rightarrow> replay_buffer res" where
  "sync_metadata rb data =
     fold_res (\<lambda>b (p, its). fold_res (sync_item p) b its) (empty_metadata rb) data"

text \<open>\<open>(global_steps - g + 1) / parameter_sync_step\<close>.\<close>

definition staleness :: "replay_buffer \<Rightarrow> int \<Rightarrow> int \<Rightarrow> real res" where
  "staleness rb global_steps g =
     (if rb_parameter_sync_step rb = 0 then Inl ZeroDivisionError
      else Inr (of_int (global_steps - g + 1) / of_int (rb_parameter_sync_step rb)))"

fun any_too_old :: "replay_buffer \<Rightarrow> string \<Rightarrow> int \<Rightarrow> string list \<Rightarrow> bool res" where
  "any_too_old rb p global_steps [] = Inr False"
| "any_too_old rb p global_steps (key # keys) =
     (case map_of (rb_prompt_global_steps rb p) key of
        None \<Rightarrow> Inl (KeyError key)
      | Some g \<Rightarrow> bind_res (staleness rb global_steps g) (\<lambda>x.
          if of_int (rb_max_off_policy_threshold rb) \<le> x then Inr True else any_too_old rb p global_steps keys))"

definition has_enough_samples :: "(string list \<Rightarrow> string list) \<Rightarrow> replay_buffer \<Rightarrow> int \<Rightarrow> string \<Rightarrow> nat \<Rightarrow> bool res" where
  "has_enough_samples so rb global_steps p batch_size =
     bind_res (if rb_max_off_policy_strategy rb = ''wait''
               then any_too_old rb p global_steps (so (rb_pending_keys rb p @ rb_running_keys rb p))
               else Inr False) (\<lambda>wait.
       Inr (\<not> wait \<and> batch_size \<le> length (rb_finished_keys rb p) + length (rb_failure_keys rb p)))"

record kv_batch =
  kb_partition :: string
  kb_items :: items

text \<open>\<open>_drop_max_off_policy_samples\<close>: the batch that is kept, the keys to clear, the metrics.\<close>

definition item_staleness :: "replay_buffer \<Rightarrow> int \<Rightarrow> string \<times> rtag \<Rightarrow> real res" where
  "item_staleness rb global_steps = (\<lambda>(key, tag).
     case rt_global_steps tag of None \<Rightarrow> Inl (KeyError ''global_steps'') | Some g \<Rightarrow> staleness rb global_steps g)"

definition drop_max_off_policy ::
  "replay_buffer \<Rightarrow> int \<Rightarrow> string \<Rightarrow> kv_batch \<Rightarrow> (kv_batch \<times> string list \<times> (string \<times> real) list) res" where
  "drop_max_off_policy rb global_steps p batch =
     (if rb_max_off_policy_strategy rb \<noteq> ''drop'' then Inr (batch, [], [])
      else bind_res (map_res (item_staleness rb global_steps) (kb_items batch)) (\<lambda>ages.
        let limit = of_int (rb_max_off_policy_threshold rb);
            aged = zip ages (kb_items batch);
            kept = map snd (filter (\<lambda>(x, _). \<not> limit < x) aged);
            dropped = filter (\<lambda>(x, _). limit < x) aged;
            dropped_ages = map fst dropped;
            prefix = (if p = ''train'' then ''training'' else ''validation'') @ ''/off_policy/dropped_samples'';
            metrics = (if dropped = [] then []
              else [(prefix, of_nat (length dropped)),
                    (prefix @ ''_staleness/mean'', sum_list dropped_ages / of_nat (length dropped)),
                    (prefix @ ''_staleness/max'', Max (set dropped_ages)),
                    (prefix @ ''_staleness/min'', Min (set dropped_ages))])
        in Inr (batch\<lparr>kb_items := kept\<rparr>, map (fst \<circ> snd) dropped, metrics)))"

definition uid_of_key :: "string \<Rightarrow> string" where
  "uid_of_key key = hd (split_char (CHR ''_'') key)"

definition steps_of :: "replay_buffer \<Rightarrow> string \<Rightarrow> string \<Rightarrow> int" where
  "steps_of rb p key = the_default 0 (map_of (rb_prompt_global_steps rb p) key)"

text \<open>The prompts that are taken (\<open>sampleable_keys[:batch_size]\<close>) and the batch of their trajectories.\<close>

definition select_prompts :: "(string list \<Rightarrow> string list) \<Rightarrow> replay_buffer \<Rightarrow> string \<Rightarrow> nat \<Rightarrow> string list" where
  "select_prompts so rb p batch_size =
     take batch_size (sort_key (steps_of rb p) (so (rb_finished_keys rb p @ rb_failure_keys rb p)))"

definition batch_of :: "replay_buffer \<Rightarrow> string \<Rightarrow> string list \<Rightarrow> kv_batch" where
  "batch_of rb p selected =
     \<lparr>kb_partition = p, kb_items = filter (\<lambda>(key, _). uid_of_key key \<in> set selected) (rb_partitions rb p)\<rparr>"

record 's sample_result =
  sr_selected :: "string list"
  sr_batch :: kv_batch
  sr_metrics :: "(string \<times> real) list"
  sr_store :: 's

text \<open>
  \<open>sample\<close>. The loop sees the store at each of its polls: the list holds these stores, and \<open>None\<close> means that
  the loop is still polling after the last of them.
\<close>

fun sample_loop ::
  "'s kv_ops \<Rightarrow> (string list \<Rightarrow> string list) \<Rightarrow> replay_buffer \<Rightarrow> int \<Rightarrow> string \<Rightarrow> nat \<Rightarrow> 's list \<Rightarrow> 's sample_result option res" where
  "sample_loop ops so rb global_steps p batch_size [] = Inr None"
| "sample_loop ops so rb global_steps p batch_size (s # ss) =
     bind_res (sync_metadata rb (kv_list ops s)) (\<lambda>rb'.
     bind_res (has_enough_samples so rb' global_steps p batch_size) (\<lambda>enough.
       if \<not> enough then sample_loop ops so rb' global_steps p batch_size ss
       else let selected = select_prompts so rb' p batch_size;
                s1 = kv_clear ops p selected s
            in bind_res (drop_max_off_policy rb' global_steps p (batch_of rb' p selected)) (\<lambda>(batch, dropped, metrics).
                 Inr (Some \<lparr>sr_selected = selected, sr_batch = batch, sr_metrics = metrics,
                   sr_store = (if dropped = [] then s1 else kv_clear ops p dropped s1)\<rparr>))))"

section \<open>What a poll reads\<close>

definition is_prompt_tag :: "rtag \<Rightarrow> bool" where
  "is_prompt_tag t = the_default False (rt_is_prompt t)"

definition tag_ok :: "rtag \<Rightarrow> bool" where
  "tag_ok t \<longleftrightarrow> rt_global_steps t \<noteq> None
     \<and> (is_prompt_tag t \<longrightarrow> (\<exists>st\<in>{''pending'', ''running'', ''finished'', ''failure''}. rt_status t = Some st))"

definition prompts_with :: "string \<Rightarrow> items \<Rightarrow> string list" where
  "prompts_with st its = map fst (filter (\<lambda>(k, t). is_prompt_tag t \<and> rt_status t = Some st) its)"

definition trajectories :: "items \<Rightarrow> items" where
  "trajectories its = filter (\<lambda>(k, t). \<not> is_prompt_tag t) its"

definition prompt_steps :: "items \<Rightarrow> (string \<times> int) list" where
  "prompt_steps its = map (\<lambda>(k, t). (k, the_default 0 (rt_global_steps t))) (filter (\<lambda>(k, t). is_prompt_tag t) its)"

text \<open>The metadata of a partition extends that of an earlier buffer by the items.\<close>

definition extends_by :: "replay_buffer \<Rightarrow> string \<Rightarrow> items \<Rightarrow> replay_buffer \<Rightarrow> bool" where
  "extends_by b p its b' \<longleftrightarrow>
     rb_partitions b' p = rb_partitions b p @ trajectories its
     \<and> rb_pending_keys b' p = rb_pending_keys b p @ prompts_with ''pending'' its
     \<and> rb_running_keys b' p = rb_running_keys b p @ prompts_with ''running'' its
     \<and> rb_finished_keys b' p = rb_finished_keys b p @ prompts_with ''finished'' its
     \<and> rb_failure_keys b' p = rb_failure_keys b p @ prompts_with ''failure'' its
     \<and> rb_prompt_global_steps b' p = rb_prompt_global_steps b p @ prompt_steps its"

definition same_elsewhere :: "replay_buffer \<Rightarrow> string \<Rightarrow> replay_buffer \<Rightarrow> bool" where
  "same_elsewhere b p b' \<longleftrightarrow>
     rb_max_off_policy_threshold b' = rb_max_off_policy_threshold b
     \<and> rb_max_off_policy_strategy b' = rb_max_off_policy_strategy b
     \<and> rb_parameter_sync_step b' = rb_parameter_sync_step b
     \<and> (\<forall>q. q \<noteq> p \<longrightarrow> rb_partitions b' q = rb_partitions b q \<and> rb_pending_keys b' q = rb_pending_keys b q
          \<and> rb_running_keys b' q = rb_running_keys b q \<and> rb_finished_keys b' q = rb_finished_keys b q
          \<and> rb_failure_keys b' q = rb_failure_keys b q \<and> rb_prompt_global_steps b' q = rb_prompt_global_steps b q)"

definition known_keys :: "replay_buffer \<Rightarrow> string \<Rightarrow> string set" where
  "known_keys b p = set (rb_pending_keys b p) \<union> set (rb_running_keys b p) \<union> set (rb_finished_keys b p)
     \<union> set (rb_failure_keys b p) \<union> fst ` set (rb_partitions b p) \<union> fst ` set (rb_prompt_global_steps b p)"

lemma tag_update_no_tag [simp]: "tag_update no_tag t = t"
  by (cases t) (simp add: tag_update_def no_tag_def or_keep_def split: option.splits)

lemmas item_lists = prompts_with_def trajectories_def prompt_steps_def

lemma sync_item_step:
  assumes "tag_ok t" "k \<notin> known_keys b p"
  shows "\<exists>b'. sync_item p b (k, t) = Inr b' \<and> extends_by b p [(k, t)] b' \<and> same_elsewhere b p b'
    \<and> known_keys b' p = insert k (known_keys b p)"
proof (cases "is_prompt_tag t")
  case False
  then have "map_of (rb_partitions b p) k = None"
    using assms(2) by (simp add: known_keys_def map_of_eq_None_iff)
  then show ?thesis using False assms(2)
    by (auto simp: sync_item_def is_prompt_tag_def[symmetric] Let_def extends_by_def item_lists same_elsewhere_def
        known_keys_def d_set_new)
next
  case True
  with assms(1) obtain g st where "rt_global_steps t = Some g" "rt_status t = Some st"
    "st \<in> {''pending'', ''running'', ''finished'', ''failure''}" by (auto simp: tag_ok_def)
  with True assms(2) show ?thesis
    by (auto simp: sync_item_def is_prompt_tag_def[symmetric] Let_def extends_by_def item_lists same_elsewhere_def
        known_keys_def d_set_new at_add_def add_once_def)
qed

lemma extends_by_trans:
  assumes "extends_by b p xs c" "extends_by c p ys d"
  shows "extends_by b p (xs @ ys) d"
  using assms by (simp add: extends_by_def item_lists)

lemma same_elsewhere_trans: "same_elsewhere b p c \<Longrightarrow> same_elsewhere c p d \<Longrightarrow> same_elsewhere b p d"
  by (simp add: same_elsewhere_def)

lemma sync_items:
  assumes "list_all (\<lambda>(k, t). tag_ok t) its" "distinct (map fst its)" "fst ` set its \<inter> known_keys b p = {}"
  shows "\<exists>b'. fold_res (sync_item p) b its = Inr b' \<and> extends_by b p its b' \<and> same_elsewhere b p b'"
  using assms
proof (induction its arbitrary: b)
  case Nil
  then show ?case by (simp add: extends_by_def item_lists same_elsewhere_def)
next
  case (Cons x its)
  obtain k t where x: "x = (k, t)" by force
  with Cons.prems obtain c where c: "sync_item p b x = Inr c" "extends_by b p [x] c" "same_elsewhere b p c"
    "known_keys c p = insert k (known_keys b p)" using sync_item_step[of t k b p] by auto
  have "\<exists>b'. fold_res (sync_item p) c its = Inr b' \<and> extends_by c p its b' \<and> same_elsewhere c p b'"
    using Cons.prems c(4) x by (intro Cons.IH) auto
  then obtain d where "fold_res (sync_item p) c its = Inr d" "extends_by c p its d" "same_elsewhere c p d" by blast
  then show ?case using c(1) extends_by_trans[OF c(2)] same_elsewhere_trans[OF c(3)] by fastforce
qed

definition store_ok :: "'s kv_ops \<Rightarrow> 's \<Rightarrow> bool" where
  "store_ok ops s \<longleftrightarrow> (\<forall>p its. (p, its) \<in> set (kv_list ops s) \<longrightarrow> list_all (\<lambda>(k, t). tag_ok t) its)"

definition same_config :: "replay_buffer \<Rightarrow> replay_buffer \<Rightarrow> bool" where
  "same_config a b \<longleftrightarrow> rb_max_off_policy_threshold a = rb_max_off_policy_threshold b
     \<and> rb_max_off_policy_strategy a = rb_max_off_policy_strategy b
     \<and> rb_parameter_sync_step a = rb_parameter_sync_step b"

text \<open>The buffer holds the metadata of the items, for every partition.\<close>

definition loaded :: "(string \<Rightarrow> items) \<Rightarrow> replay_buffer \<Rightarrow> bool" where
  "loaded its b \<longleftrightarrow> (\<forall>p. rb_partitions b p = trajectories (its p)
     \<and> rb_pending_keys b p = prompts_with ''pending'' (its p) \<and> rb_running_keys b p = prompts_with ''running'' (its p)
     \<and> rb_finished_keys b p = prompts_with ''finished'' (its p) \<and> rb_failure_keys b p = prompts_with ''failure'' (its p)
     \<and> rb_prompt_global_steps b p = prompt_steps (its p))"

lemma sync_data:
  assumes "\<forall>p its. (p, its) \<in> set data \<longrightarrow> list_all (\<lambda>(k, t). tag_ok t) its \<and> distinct (map fst its)"
    "distinct (map fst data)" "loaded its0 b" "\<forall>p\<in>fst ` set data. its0 p = []"
  shows "\<exists>b'. fold_res (\<lambda>b (p, its). fold_res (sync_item p) b its) b data = Inr b'
    \<and> loaded (\<lambda>p. the_default (its0 p) (map_of data p)) b' \<and> same_config b b'"
  using assms
proof (induction data arbitrary: b its0)
  case Nil
  then show ?case by (simp add: same_config_def)
next
  case (Cons x data)
  obtain p its where x: "x = (p, its)" by force
  have empty: "its0 p = []" using Cons.prems(4) x by simp
  have absent: "map_of data p = None" using Cons.prems(2) x by (simp add: map_of_eq_None_iff)
  have "known_keys b p = {}" using Cons.prems(3) empty by (simp add: loaded_def known_keys_def item_lists)
  with Cons.prems(1) x obtain c where c: "fold_res (sync_item p) b its = Inr c" "extends_by b p its c" "same_elsewhere b p c"
    using sync_items[of its b p] by auto
  have "loaded (its0(p := its)) c"
    using c(2,3) Cons.prems(3) empty unfolding loaded_def extends_by_def same_elsewhere_def by (auto simp: item_lists)
  moreover have "same_config b c" using c(3) by (simp add: same_config_def same_elsewhere_def)
  moreover have "\<forall>q\<in>fst ` set data. (its0(p := its)) q = []" using Cons.prems(2,4) x by auto
  moreover have "\<forall>p its. (p, its) \<in> set data \<longrightarrow> list_all (\<lambda>(k, t). tag_ok t) its \<and> distinct (map fst its)"
    "distinct (map fst data)" using Cons.prems(1,2) by (meson list.set_intros(2), simp)
  ultimately obtain d where "fold_res (\<lambda>b (p, its). fold_res (sync_item p) b its) c data = Inr d"
    "loaded (\<lambda>q. the_default ((its0(p := its)) q) (map_of data q)) d" "same_config c d"
    using Cons.IH[of "its0(p := its)" c] by blast
  moreover have "(\<lambda>q. the_default ((its0(p := its)) q) (map_of data q)) = (\<lambda>q. the_default (its0 q) (map_of (x # data) q))"
    using absent x by (auto simp: fun_eq_iff)
  ultimately show ?case using c(1) x \<open>same_config b c\<close> by (auto simp: same_config_def)
qed

lemma sync_loaded:
  assumes "kv_laws ops" "store_ok ops s"
  shows "\<exists>b. sync_metadata rb (kv_list ops s) = Inr b \<and> loaded (\<lambda>p. kv_items ops p s) b \<and> same_config rb b"
proof -
  have d: "distinct (map fst (kv_list ops s))" and di: "distinct (map fst (kv_items ops p s))" for p
    using assms(1) by (auto simp: kv_laws_def)
  have "loaded (\<lambda>_. []) (empty_metadata rb)" by (simp add: loaded_def empty_metadata_def item_lists)
  moreover have "distinct (map fst its)" if "(p, its) \<in> set (kv_list ops s)" for p its
    using di[of p] that d by (simp add: kv_items_def)
  ultimately obtain b where "sync_metadata rb (kv_list ops s) = Inr b"
    "loaded (\<lambda>p. the_default [] (map_of (kv_list ops s) p)) b" "same_config (empty_metadata rb) b"
    using sync_data[of "kv_list ops s" "\<lambda>_. []" "empty_metadata rb"] assms(2) d
    unfolding sync_metadata_def store_ok_def by auto
  then show ?thesis by (auto simp: kv_items_def same_config_def empty_metadata_def)
qed

text \<open>The condition under which a poll ends the loop, and what is then taken and what is dropped.\<close>

definition age :: "replay_buffer \<Rightarrow> int \<Rightarrow> rtag \<Rightarrow> real" where
  "age rb global_steps t = of_int (global_steps - the_default 0 (rt_global_steps t) + 1) / of_int (rb_parameter_sync_step rb)"

definition ready :: "replay_buffer \<Rightarrow> int \<Rightarrow> nat \<Rightarrow> items \<Rightarrow> bool" where
  "ready rb global_steps n its \<longleftrightarrow>
     (rb_max_off_policy_strategy rb = ''wait'' \<longrightarrow>
        (\<forall>(k, t)\<in>set its. is_prompt_tag t \<and> rt_status t \<in> {Some ''pending'', Some ''running''} \<longrightarrow>
           age rb global_steps t < of_int (rb_max_off_policy_threshold rb)))
     \<and> n \<le> length (prompts_with ''finished'' its) + length (prompts_with ''failure'' its)"

definition order_ok :: "(string list \<Rightarrow> string list) \<Rightarrow> bool" where
  "order_ok so \<longleftrightarrow> (\<forall>xs. set (so xs) = set xs \<and> distinct (so xs))"

definition chosen :: "(string list \<Rightarrow> string list) \<Rightarrow> nat \<Rightarrow> items \<Rightarrow> string list" where
  "chosen so n its = take n (sort_key (\<lambda>k. the_default 0 (map_of (prompt_steps its) k))
     (so (prompts_with ''finished'' its @ prompts_with ''failure'' its)))"

definition of_prompts :: "string list \<Rightarrow> items \<Rightarrow> items" where
  "of_prompts sel its = filter (\<lambda>(k, _). uid_of_key k \<in> set sel) (trajectories its)"

definition too_old :: "replay_buffer \<Rightarrow> int \<Rightarrow> rtag \<Rightarrow> bool" where
  "too_old rb global_steps t \<longleftrightarrow> rb_max_off_policy_strategy rb = ''drop''
     \<and> of_int (rb_max_off_policy_threshold rb) < age rb global_steps t"

lemma age_same: "same_config a b \<Longrightarrow> age a = age b"
  by (simp add: same_config_def age_def fun_eq_iff)

lemma too_old_same: "same_config a b \<Longrightarrow> too_old a = too_old b"
  using age_same[of a b] by (simp add: same_config_def too_old_def fun_eq_iff)

lemma ready_same: "same_config a b \<Longrightarrow> ready a = ready b"
  using age_same[of a b] by (simp add: same_config_def ready_def fun_eq_iff)

lemma same_config_sym: "same_config a b \<Longrightarrow> same_config b a"
  by (simp add: same_config_def)

lemma any_too_old_spec:
  assumes "rb_parameter_sync_step rb \<noteq> 0" "\<forall>k\<in>set ks. map_of (rb_prompt_global_steps rb p) k = Some (f k)"
  shows "any_too_old rb p g ks = Inr (\<exists>k\<in>set ks. of_int (rb_max_off_policy_threshold rb)
    \<le> (of_int (g - f k + 1) / of_int (rb_parameter_sync_step rb) :: real))"
  using assms(2) by (induction ks) (auto simp: staleness_def assms(1))

lemma map_of_prompt_steps:
  assumes "distinct (map fst its)" "(k, t) \<in> set its" "is_prompt_tag t"
  shows "map_of (prompt_steps its) k = Some (the_default 0 (rt_global_steps t))"
proof (rule map_of_is_SomeI)
  have "map fst (prompt_steps its) = map fst (filter (\<lambda>(k, t). is_prompt_tag t) its)"
    by (simp add: prompt_steps_def case_prod_beta' comp_def)
  then show "distinct (map fst (prompt_steps its))" using assms(1) by (simp add: distinct_map_filter)
  show "(k, the_default 0 (rt_global_steps t)) \<in> set (prompt_steps its)"
    using assms(2,3) by (force simp: prompt_steps_def)
qed

lemma in_prompts_with: "k \<in> set (prompts_with st its) \<longleftrightarrow>
    (\<exists>t. (k, t) \<in> set its \<and> is_prompt_tag t \<and> rt_status t = Some st)"
  by (force simp: prompts_with_def)

lemma has_enough_spec:
  assumes "loaded its b" "distinct (map fst (its p))" "rb_parameter_sync_step b \<noteq> 0" "order_ok so"
  shows "has_enough_samples so b g p n = Inr (ready b g n (its p))"
proof -
  let ?w = "so (rb_pending_keys b p @ rb_running_keys b p)"
  let ?f = "\<lambda>k. the_default 0 (map_of (prompt_steps (its p)) k)"
  have in_w: "k \<in> set ?w \<longleftrightarrow> (\<exists>t. (k, t) \<in> set (its p) \<and> is_prompt_tag t
      \<and> rt_status t \<in> {Some ''pending'', Some ''running''})" for k
    using assms(1,4) by (auto simp: order_ok_def loaded_def in_prompts_with)
  have steps: "map_of (prompt_steps (its p)) k = Some (the_default 0 (rt_global_steps t))"
    if "(k, t) \<in> set (its p)" "is_prompt_tag t" for k t
    using map_of_prompt_steps[OF assms(2) that] .
  have "\<forall>k\<in>set ?w. map_of (rb_prompt_global_steps b p) k = Some (?f k)"
    using in_w steps assms(1) by (auto simp: loaded_def)
  note old = any_too_old_spec[OF assms(3) this]
  let ?late = "\<lambda>t. of_int (rb_max_off_policy_threshold b) \<le> age b g t"
  have "(\<exists>k\<in>set ?w. of_int (rb_max_off_policy_threshold b) \<le> (of_int (g - ?f k + 1) / of_int (rb_parameter_sync_step b) :: real))
      \<longleftrightarrow> (\<exists>k t. (k, t) \<in> set (its p) \<and> is_prompt_tag t \<and> rt_status t \<in> {Some ''pending'', Some ''running''} \<and> ?late t)"
    (is "?l \<longleftrightarrow> ?r")
  proof
    assume ?l
    then obtain k where k: "k \<in> set ?w" "of_int (rb_max_off_policy_threshold b) \<le> (of_int (g - ?f k + 1) / of_int (rb_parameter_sync_step b) :: real)"
      by blast
    then obtain t where "(k, t) \<in> set (its p)" "is_prompt_tag t" "rt_status t \<in> {Some ''pending'', Some ''running''}"
      unfolding in_w by blast
    with k(2) steps[of k t] show ?r by (auto simp: age_def)
  next
    assume ?r
    then obtain k t where t: "(k, t) \<in> set (its p)" "is_prompt_tag t" "rt_status t \<in> {Some ''pending'', Some ''running''}" "?late t"
      by blast
    then have "k \<in> set ?w" unfolding in_w by blast
    with t(4) steps[OF t(1,2)] show ?l by (intro bexI[of _ k]) (simp_all add: age_def)
  qed
  moreover have "?r \<longleftrightarrow> \<not> (\<forall>(k, t)\<in>set (its p). is_prompt_tag t \<and> rt_status t \<in> {Some ''pending'', Some ''running''} \<longrightarrow>
           age b g t < of_int (rb_max_off_policy_threshold b))"
    by (auto simp only: not_less[symmetric] split_paired_Ex split: prod.splits)
  ultimately show ?thesis using assms(1) old
    by (cases "rb_max_off_policy_strategy b = ''wait''") (simp_all add: has_enough_samples_def ready_def loaded_def)
qed

lemma of_prompts_steps:
  assumes "list_all (\<lambda>(k, t). tag_ok t) its"
  shows "map_res (item_staleness b g) (of_prompts sel its) =
    (if rb_parameter_sync_step b = 0 \<and> of_prompts sel its \<noteq> [] then Inl ZeroDivisionError
     else Inr (map (\<lambda>(k, t). age b g t) (of_prompts sel its)))"
proof -
  have steps: "\<exists>i. rt_global_steps t = Some i" if "(k, t) \<in> set (of_prompts sel its)" for k t
    using that assms by (auto simp: of_prompts_def trajectories_def list_all_iff tag_ok_def)
  show ?thesis
  proof (cases "rb_parameter_sync_step b = 0")
    case True
    then show ?thesis using steps
      by (cases "of_prompts sel its") (fastforce simp: item_staleness_def staleness_def)+
  next
    case False
    then show ?thesis using steps
      by (auto intro!: map_res_pure simp: item_staleness_def staleness_def age_def split: option.splits dest!: steps)
  qed
qed

lemma filter_zip_map: "filter (\<lambda>x. P (fst x)) (zip (map f xs) xs) = map (\<lambda>x. (f x, x)) (filter (P \<circ> f) xs)"
  by (induction xs) auto

lemma drop_spec:
  assumes "list_all (\<lambda>(k, t). tag_ok t) its" "rb_parameter_sync_step b \<noteq> 0"
  shows "\<exists>m. drop_max_off_policy b g p \<lparr>kb_partition = q, kb_items = of_prompts sel its\<rparr> =
    Inr (\<lparr>kb_partition = q, kb_items = filter (\<lambda>(k, t). \<not> too_old b g t) (of_prompts sel its)\<rparr>,
      map fst (filter (\<lambda>(k, t). too_old b g t) (of_prompts sel its)), m)"
proof (cases "rb_max_off_policy_strategy b = ''drop''")
  case False
  then show ?thesis by (simp add: drop_max_off_policy_def too_old_def case_prod_beta')
next
  case True
  let ?xs = "of_prompts sel its"
  have "map_res (item_staleness b g) ?xs = Inr (map (\<lambda>(k, t). age b g t) ?xs)"
    using of_prompts_steps[OF assms(1)] assms(2) by simp
  then show ?thesis using True
    by (simp add: drop_max_off_policy_def Let_def filter_zip_map filter_zip_map[where P = "\<lambda>x. \<not> Q x" for Q] comp_def
        too_old_def case_prod_beta')
qed

lemma kv_clear_view:
  "kv_laws ops \<Longrightarrow> kv_view ops q (kv_clear ops p ks s) = (if q = p then kv_view ops p s |` (- set ks) else kv_view ops q s)"
  by (simp add: kv_laws_def)

lemma kv_items_ok: "kv_laws ops \<Longrightarrow> store_ok ops s \<Longrightarrow> list_all (\<lambda>(k, t). tag_ok t) (kv_items ops p s)"
  by (cases "map_of (kv_list ops s) p") (auto simp: store_ok_def kv_items_def dest: map_of_SomeD)

lemma kv_items_distinct: "kv_laws ops \<Longrightarrow> distinct (map fst (kv_items ops p s))"
  by (simp add: kv_laws_def)

text \<open>The result of a poll that finds enough.\<close>

definition taken :: "'s kv_ops \<Rightarrow> (string list \<Rightarrow> string list) \<Rightarrow> replay_buffer \<Rightarrow> int \<Rightarrow> string \<Rightarrow> nat \<Rightarrow> 's \<Rightarrow> 's sample_result \<Rightarrow> bool" where
  "taken ops so rb g p n s r \<longleftrightarrow>
     (let its = kv_items ops p s; sel = chosen so n its; trajs = of_prompts sel its
      in sr_selected r = sel \<and> kb_partition (sr_batch r) = p
         \<and> kb_items (sr_batch r) = filter (\<lambda>(k, t). \<not> too_old rb g t) trajs
         \<and> (\<forall>q. kv_view ops q (sr_store r) = (if q = p
              then kv_view ops p s |` (- (set sel \<union> fst ` set (filter (\<lambda>(k, t). too_old rb g t) trajs)))
              else kv_view ops q s)))"

lemma poll_spec:
  assumes laws: "kv_laws ops" and ok: "store_ok ops s" and so: "order_ok so" and sync: "rb_parameter_sync_step rb \<noteq> 0"
  shows "if ready rb g n (kv_items ops p s)
    then \<exists>r. sample_loop ops so rb g p n (s # ss) = Inr (Some r) \<and> taken ops so rb g p n s r
    else \<exists>b. same_config rb b \<and> sample_loop ops so rb g p n (s # ss) = sample_loop ops so b g p n ss"
proof -
  let ?its = "kv_items ops p s"
  obtain b where b: "sync_metadata rb (kv_list ops s) = Inr b" "loaded (\<lambda>p. kv_items ops p s) b" "same_config rb b"
    using sync_loaded[OF laws ok] by blast
  have sync_b: "rb_parameter_sync_step b \<noteq> 0" using sync b(3) by (simp add: same_config_def)
  have enough: "has_enough_samples so b g p n = Inr (ready rb g n ?its)"
    using has_enough_spec[OF b(2) kv_items_distinct[OF laws] sync_b so] ready_same[OF b(3)] by simp
  show ?thesis
  proof (cases "ready rb g n ?its")
    case False
    then show ?thesis using b enough by auto
  next
    case True
    let ?sel = "chosen so n ?its" and ?trajs = "of_prompts (chosen so n ?its) ?its"
    have sel: "select_prompts so b p n = ?sel"
      using b(2) by (simp add: select_prompts_def chosen_def loaded_def steps_of_def[abs_def])
    have batch: "batch_of b p ?sel = \<lparr>kb_partition = p, kb_items = ?trajs\<rparr>"
      using b(2) by (simp add: batch_of_def of_prompts_def loaded_def)
    obtain m where "drop_max_off_policy b g p \<lparr>kb_partition = p, kb_items = ?trajs\<rparr> =
        Inr (\<lparr>kb_partition = p, kb_items = filter (\<lambda>(k, t). \<not> too_old b g t) ?trajs\<rparr>,
          map fst (filter (\<lambda>(k, t). too_old b g t) ?trajs), m)"
      using drop_spec[OF kv_items_ok[OF laws ok] sync_b] by blast
    then show ?thesis using True b(1) enough
      by (auto simp: sel batch too_old_same[OF b(3)] taken_def Let_def kv_clear_view[OF laws] Int_ac intro!: arg_cong2[of _ _ _ _ restrict_map])
  qed
qed

lemma set_chosen_subset:
  assumes "order_ok so" "k \<in> set (chosen so n its)"
  shows "\<exists>t. (k, t) \<in> set its \<and> is_prompt_tag t \<and> rt_status t \<in> {Some ''finished'', Some ''failure''}"
  using assms set_take_subset[of n] by (fastforce simp: chosen_def order_ok_def in_prompts_with)

lemma chosen_oldest:
  assumes "order_ok so" "distinct (map fst its)" "u \<in> set (chosen so n its)"
    and v: "(v, t) \<in> set its" "is_prompt_tag t" "rt_status t \<in> {Some ''finished'', Some ''failure''}" "v \<notin> set (chosen so n its)"
  shows "the_default 0 (map_of (prompt_steps its) u) \<le> the_default 0 (rt_global_steps t)"
proof -
  let ?f = "\<lambda>k. the_default 0 (map_of (prompt_steps its) k)"
  let ?xs = "sort_key ?f (so (prompts_with ''finished'' its @ prompts_with ''failure'' its))"
  have "v \<in> set ?xs" using v(1-3) assms(1) by (auto simp: order_ok_def in_prompts_with)
  then have "v \<in> set (drop n ?xs)" using v(4) set_append[of "take n ?xs" "drop n ?xs"] by (auto simp: chosen_def)
  moreover have "sorted (map ?f (take n ?xs) @ map ?f (drop n ?xs))"
    by (metis append_take_drop_id map_append sorted_sort_key)
  ultimately have "?f u \<le> ?f v" using assms(3) unfolding chosen_def sorted_append by auto
  then show ?thesis using map_of_prompt_steps[OF assms(2) v(1,2)] by simp
qed

lemma distinct_prompts_with: "distinct (map fst its) \<Longrightarrow> distinct (prompts_with st its)"
  by (simp add: prompts_with_def distinct_map_filter)

lemma chosen_length:
  assumes "order_ok so" "distinct (map fst its)" "ready rb g n its"
  shows "length (chosen so n its) = n \<and> distinct (chosen so n its)"
proof -
  let ?c = "prompts_with ''finished'' its @ prompts_with ''failure'' its"
  have one: "t = t'" if "(k, t) \<in> set its" "(k, t') \<in> set its" for k t t'
    using assms(2) that by (meson eq_key_imp_eq_value)
  have "set (prompts_with ''finished'' its) \<inter> set (prompts_with ''failure'' its) = {}"
    using one by (fastforce simp: in_prompts_with)
  then have "distinct ?c" using distinct_prompts_with[OF assms(2)] by simp
  then have "length (so ?c) = length ?c"
    using assms(1) unfolding order_ok_def by (metis distinct_card)
  moreover have "n \<le> length ?c" using assms(3) by (simp add: ready_def)
  ultimately show ?thesis using assms(1) by (simp add: chosen_def order_ok_def)
qed

lemma settled_ready:
  assumes "list_all (\<lambda>(k, t). is_prompt_tag t \<longrightarrow> rt_status t \<in> {Some ''finished'', Some ''failure''}) its"
    "n \<le> length (filter (\<lambda>(k, t). is_prompt_tag t) its)"
  shows "ready rb g n its"
proof -
  have "length (filter (\<lambda>(k, t). is_prompt_tag t) its) =
      length (prompts_with ''finished'' its) + length (prompts_with ''failure'' its)"
    using assms(1) by (induction its) (auto simp: prompts_with_def)
  then show ?thesis using assms by (auto simp: ready_def list_all_iff)
qed

declare sample_loop.simps(2) [simp del]

lemma taken_same: "same_config a b \<Longrightarrow> taken ops so a = taken ops so b"
  by (simp add: taken_def[abs_def] too_old_same)

lemma same_config_trans: "same_config a b \<Longrightarrow> same_config b c \<Longrightarrow> same_config a c"
  by (simp add: same_config_def)

lemma loop_skips:
  assumes laws: "kv_laws ops" and so: "order_ok so" and sync: "rb_parameter_sync_step rb \<noteq> 0"
    and "\<forall>u\<in>set pre. store_ok ops u \<and> \<not> ready rb g n (kv_items ops p u)"
  shows "\<exists>b. same_config rb b \<and> sample_loop ops so rb g p n (pre @ ss) = sample_loop ops so b g p n ss"
  using assms(3,4)
proof (induction pre arbitrary: rb)
  case Nil
  then show ?case by (auto simp: same_config_def)
next
  case (Cons u pre)
  then obtain c where c: "same_config rb c" "sample_loop ops so rb g p n (u # pre @ ss) = sample_loop ops so c g p n (pre @ ss)"
    using poll_spec[OF laws _ so, of u rb g n p "pre @ ss"] by auto
  then have "rb_parameter_sync_step c \<noteq> 0" using Cons.prems by (simp add: same_config_def)
  then obtain b where "same_config c b" "sample_loop ops so c g p n (pre @ ss) = sample_loop ops so b g p n ss"
    using Cons.IH[of c] Cons.prems ready_same[OF c(1)] by auto
  then show ?case using c same_config_trans by auto
qed

lemma loop_first_ready:
  assumes laws: "kv_laws ops" and so: "order_ok so" and sync: "rb_parameter_sync_step rb \<noteq> 0"
    and "\<forall>u\<in>set (pre @ [s]). store_ok ops u" "\<forall>u\<in>set pre. \<not> ready rb g n (kv_items ops p u)" "ready rb g n (kv_items ops p s)"
  shows "\<exists>r. sample_loop ops so rb g p n (pre @ s # post) = Inr (Some r) \<and> taken ops so rb g p n s r"
proof -
  obtain b where b: "same_config rb b" "sample_loop ops so rb g p n (pre @ s # post) = sample_loop ops so b g p n (s # post)"
    using loop_skips[OF laws so sync, of pre g n p "s # post"] assms(4,5) by auto
  then have "rb_parameter_sync_step b \<noteq> 0" "ready b g n (kv_items ops p s)"
    using sync assms(6) ready_same[of rb b] by (simp_all add: same_config_def)
  moreover from this have "\<exists>r. sample_loop ops so b g p n (s # post) = Inr (Some r) \<and> taken ops so b g p n s r"
    using poll_spec[OF laws _ so, of s b g n p post] assms(4) by simp
  ultimately show ?thesis using b(2) taken_same[OF b(1), of ops so] by simp
qed

lemma loop_none_iff:
  assumes laws: "kv_laws ops" and so: "order_ok so" and sync: "rb_parameter_sync_step rb \<noteq> 0"
    and "\<forall>s\<in>set stores. store_ok ops s"
  shows "sample_loop ops so rb g p n stores = Inr None \<longleftrightarrow> (\<forall>s\<in>set stores. \<not> ready rb g n (kv_items ops p s))"
proof (cases "\<exists>s\<in>set stores. ready rb g n (kv_items ops p s)")
  case True
  then obtain pre s post where "stores = pre @ s # post" "ready rb g n (kv_items ops p s)"
    "\<forall>u\<in>set pre. \<not> ready rb g n (kv_items ops p u)"
    using split_list_first_prop[of stores "\<lambda>s. ready rb g n (kv_items ops p s)"] by blast
  with loop_first_ready[OF laws so sync, of pre s g n p post] assms(4) True show ?thesis by auto
next
  case False
  with loop_skips[OF laws so sync, of stores g n p "[]"] assms(4) show ?thesis by auto
qed

lemma taken_selection:
  assumes "kv_laws ops" "order_ok so" "taken ops so rb g p n s r" "ready rb g n (kv_items ops p s)"
  shows "length (sr_selected r) = n" "distinct (sr_selected r)"
    "\<lbrakk>u \<in> set (sr_selected r); (v, t) \<in> set (kv_items ops p s); v \<notin> set (sr_selected r); is_prompt_tag t;
      rt_status t \<in> {Some ''finished'', Some ''failure''}\<rbrakk>
     \<Longrightarrow> the_default 0 (map_of (prompt_steps (kv_items ops p s)) u) \<le> the_default 0 (rt_global_steps t)"
  using chosen_length[OF assms(2) kv_items_distinct[OF assms(1)] assms(4)]
    chosen_oldest[OF assms(2) kv_items_distinct[OF assms(1)], of u n p s v t] assms(3)
  by (simp_all add: taken_def Let_def)

text \<open>
  C29. Sampling makes progress. The polling loop ends at the first poll that finds enough finished or failed
  prompts (with the wait strategy also no pending or running prompt at the staleness limit), and only there;
  a store in which every prompt has ended and there are as many as asked for is always enough. What is taken
  are exactly that many prompts, all ended, the oldest first, and the batch is their trajectories.
\<close>

theorem sample_ends_at_first_ready_poll:
  fixes ops :: "'s kv_ops" and stores :: "'s list"
  assumes laws: "kv_laws ops" and so: "order_ok so" and sync: "rb_parameter_sync_step rb \<noteq> 0"
    and ok: "\<forall>s\<in>set stores. store_ok ops s"
  shows "(sample_loop ops so rb g p n stores = Inr None \<longleftrightarrow> (\<forall>s\<in>set stores. \<not> ready rb g n (kv_items ops p s)))
    \<and> (\<forall>pre s post. stores = pre @ s # post \<and> (\<forall>u\<in>set pre. \<not> ready rb g n (kv_items ops p u)) \<and> ready rb g n (kv_items ops p s)
        \<longrightarrow> (\<exists>r. sample_loop ops so rb g p n stores = Inr (Some r) \<and> taken ops so rb g p n s r
              \<and> length (sr_selected r) = n \<and> distinct (sr_selected r)
              \<and> (\<forall>u v t. u \<in> set (sr_selected r) \<and> (v, t) \<in> set (kv_items ops p s) \<and> v \<notin> set (sr_selected r)
                   \<and> is_prompt_tag t \<and> rt_status t \<in> {Some ''finished'', Some ''failure''}
                   \<longrightarrow> the_default 0 (map_of (prompt_steps (kv_items ops p s)) u) \<le> the_default 0 (rt_global_steps t))))
    \<and> (\<forall>s. list_all (\<lambda>(k, t). is_prompt_tag t \<longrightarrow> rt_status t \<in> {Some ''finished'', Some ''failure''}) (kv_items ops p s)
          \<and> n \<le> length (filter (\<lambda>(k, t). is_prompt_tag t) (kv_items ops p s)) \<longrightarrow> ready rb g n (kv_items ops p s))"
proof (intro conjI allI impI)
  show "sample_loop ops so rb g p n stores = Inr None \<longleftrightarrow> (\<forall>s\<in>set stores. \<not> ready rb g n (kv_items ops p s))"
    by (rule loop_none_iff[OF laws so sync ok])
next
  fix s assume "list_all (\<lambda>(k, t). is_prompt_tag t \<longrightarrow> rt_status t \<in> {Some ''finished'', Some ''failure''}) (kv_items ops p s)
    \<and> n \<le> length (filter (\<lambda>(k, t). is_prompt_tag t) (kv_items ops p s))"
  then show "ready rb g n (kv_items ops p s)" using settled_ready by blast
next
  fix pre s post
  assume *: "stores = pre @ s # post \<and> (\<forall>u\<in>set pre. \<not> ready rb g n (kv_items ops p u)) \<and> ready rb g n (kv_items ops p s)"
  with loop_first_ready[OF laws so sync, of pre s g n p post] ok obtain r
    where r: "sample_loop ops so rb g p n stores = Inr (Some r)" "taken ops so rb g p n s r" by auto
  with taken_selection[OF laws so r(2)] *
  show "\<exists>r. sample_loop ops so rb g p n stores = Inr (Some r) \<and> taken ops so rb g p n s r
      \<and> length (sr_selected r) = n \<and> distinct (sr_selected r)
      \<and> (\<forall>u v t. u \<in> set (sr_selected r) \<and> (v, t) \<in> set (kv_items ops p s) \<and> v \<notin> set (sr_selected r)
           \<and> is_prompt_tag t \<and> rt_status t \<in> {Some ''finished'', Some ''failure''}
           \<longrightarrow> the_default 0 (map_of (prompt_steps (kv_items ops p s)) u) \<le> the_default 0 (rt_global_steps t))"
    by blast
qed

section \<open>Producers and consumer\<close>

text \<open>
  The agent loop workers and the trainer around one partition. A prompt is registered as pending
  (\<open>_add_batch_to_generate\<close>), its background task \<open>_run_prompt\<close> marks it running and starts the sessions, each
  session stores its trajectories or raises, and the task marks the prompt finished after the last session or
  failed at the first exception: \<open>asyncio.gather\<close> then leaves the other sessions running. The
  trainer samples, and clears the keys of the batch when its step is over. Uids are fresh uuids. The fields
  \<open>rs_produced\<close> and \<open>rs_sampled\<close> record the history.
\<close>

record ptask =
  pt_steps :: int
  pt_started :: bool
  pt_sessions :: "nat list"
  pt_finished :: bool
  pt_failed :: bool

record 's rsys =
  rs_store :: 's
  rs_tasks :: "string \<Rightarrow> ptask option"
  rs_held :: "string list"
  rs_produced :: "string \<Rightarrow> string list"
  rs_sampled :: "string list"

definition status_tag :: "string \<Rightarrow> rtag" where
  "status_tag st = \<lparr>rt_is_prompt = None, rt_status = Some st, rt_global_steps = None\<rparr>"

definition pending_tag :: "int \<Rightarrow> rtag" where
  "pending_tag g = \<lparr>rt_is_prompt = Some True, rt_status = Some ''pending'', rt_global_steps = Some g\<rparr>"

definition trajectory_tag :: "int \<Rightarrow> rtag" where
  "trajectory_tag g = \<lparr>rt_is_prompt = None, rt_status = Some ''success'', rt_global_steps = Some g\<rparr>"

definition trajectory_key :: "string \<Rightarrow> nat \<Rightarrow> nat \<Rightarrow> string" where
  "trajectory_key uid session i = uid @ ''_'' @ nat_text session @ ''_'' @ nat_text i"

definition kv_batch_put :: "'s kv_ops \<Rightarrow> string \<Rightarrow> string list \<Rightarrow> rtag \<Rightarrow> 's \<Rightarrow> 's" where
  "kv_batch_put ops p keys tag s = fold (\<lambda>k. kv_put ops p k tag) keys s"

definition register_batch :: "'s kv_ops \<Rightarrow> string \<Rightarrow> int \<Rightarrow> string list \<Rightarrow> 's rsys \<Rightarrow> 's rsys" where
  "register_batch ops p g uids sys = sys\<lparr>rs_store := kv_batch_put ops p uids (pending_tag g) (rs_store sys),
     rs_tasks := \<lambda>u. if u \<in> set uids
       then Some \<lparr>pt_steps = g, pt_started = False, pt_sessions = [], pt_finished = False, pt_failed = False\<rparr>
       else rs_tasks sys u\<rparr>"

definition start_prompt :: "'s kv_ops \<Rightarrow> string \<Rightarrow> string \<Rightarrow> nat \<Rightarrow> ptask \<Rightarrow> 's rsys \<Rightarrow> 's rsys" where
  "start_prompt ops p u n t sys = sys\<lparr>rs_store := kv_put ops p u (status_tag ''running'') (rs_store sys),
     rs_tasks := (rs_tasks sys)(u \<mapsto> t\<lparr>pt_started := True, pt_sessions := [0..<n]\<rparr>)\<rparr>"

definition store_outputs :: "'s kv_ops \<Rightarrow> string \<Rightarrow> string \<Rightarrow> nat \<Rightarrow> nat \<Rightarrow> ptask \<Rightarrow> 's rsys \<Rightarrow> 's rsys" where
  "store_outputs ops p u session m t sys =
     (let keys = map (trajectory_key u session) [0..<m]
      in sys\<lparr>rs_store := kv_batch_put ops p keys (trajectory_tag (pt_steps t)) (rs_store sys),
           rs_tasks := (rs_tasks sys)(u \<mapsto> t\<lparr>pt_sessions := remove1 session (pt_sessions t)\<rparr>),
           rs_produced := (rs_produced sys)(u := rs_produced sys u @ keys)\<rparr>)"

definition session_raises :: "'s kv_ops \<Rightarrow> string \<Rightarrow> string \<Rightarrow> nat \<Rightarrow> ptask \<Rightarrow> 's rsys \<Rightarrow> 's rsys" where
  "session_raises ops p u session t sys =
     sys\<lparr>rs_store := (if pt_failed t then rs_store sys else kv_put ops p u (status_tag ''failure'') (rs_store sys)),
       rs_tasks := (rs_tasks sys)(u \<mapsto> t\<lparr>pt_sessions := remove1 session (pt_sessions t), pt_failed := True\<rparr>)\<rparr>"

definition finish_prompt :: "'s kv_ops \<Rightarrow> string \<Rightarrow> string \<Rightarrow> ptask \<Rightarrow> 's rsys \<Rightarrow> 's rsys" where
  "finish_prompt ops p u t sys = sys\<lparr>rs_store := kv_put ops p u (status_tag ''finished'') (rs_store sys),
     rs_tasks := (rs_tasks sys)(u \<mapsto> t\<lparr>pt_finished := True\<rparr>)\<rparr>"

definition take_batch :: "'s sample_result \<Rightarrow> 's rsys \<Rightarrow> 's rsys" where
  "take_batch r sys = sys\<lparr>rs_store := sr_store r, rs_held := map fst (kb_items (sr_batch r)),
     rs_sampled := rs_sampled sys @ sr_selected r\<rparr>"

definition clear_batch :: "'s kv_ops \<Rightarrow> string \<Rightarrow> 's rsys \<Rightarrow> 's rsys" where
  "clear_batch ops p sys = sys\<lparr>rs_store := kv_clear ops p (rs_held sys) (rs_store sys), rs_held := []\<rparr>"

inductive rstep ::
  "'s kv_ops \<Rightarrow> (string list \<Rightarrow> string list) \<Rightarrow> replay_buffer \<Rightarrow> string \<Rightarrow> 's rsys \<Rightarrow> 's rsys \<Rightarrow> bool"
  for ops so rb p where
  register: "\<lbrakk>\<And>u. u \<in> set uids \<Longrightarrow> rs_tasks sys u = None \<and> CHR ''_'' \<notin> set u\<rbrakk>
    \<Longrightarrow> rstep ops so rb p sys (register_batch ops p g uids sys)"
| start: "\<lbrakk>rs_tasks sys u = Some t; \<not> pt_started t\<rbrakk> \<Longrightarrow> rstep ops so rb p sys (start_prompt ops p u n t sys)"
| outputs: "\<lbrakk>rs_tasks sys u = Some t; session \<in> set (pt_sessions t)\<rbrakk>
    \<Longrightarrow> rstep ops so rb p sys (store_outputs ops p u session m t sys)"
| raises: "\<lbrakk>rs_tasks sys u = Some t; session \<in> set (pt_sessions t)\<rbrakk>
    \<Longrightarrow> rstep ops so rb p sys (session_raises ops p u session t sys)"
| finish: "\<lbrakk>rs_tasks sys u = Some t; pt_started t; pt_sessions t = []; \<not> pt_failed t; \<not> pt_finished t\<rbrakk>
    \<Longrightarrow> rstep ops so rb p sys (finish_prompt ops p u t sys)"
| sample: "sample_loop ops so rb g p n [rs_store sys] = Inr (Some r)
    \<Longrightarrow> rstep ops so rb p sys (take_batch r sys)"
| clear: "rstep ops so rb p sys (clear_batch ops p sys)"

inductive_cases rstepE: "rstep ops so rb p sys sys'"

definition empty_system :: "'s kv_ops \<Rightarrow> string \<Rightarrow> 's rsys \<Rightarrow> bool" where
  "empty_system ops p sys \<longleftrightarrow> kv_view ops p (rs_store sys) = Map.empty \<and> rs_tasks sys = (\<lambda>_. None)
     \<and> rs_held sys = [] \<and> rs_produced sys = (\<lambda>_. []) \<and> rs_sampled sys = [] \<and> store_ok ops (rs_store sys)"

section \<open>Invariant of the system\<close>

definition task_status :: "ptask \<Rightarrow> string" where
  "task_status t = (if pt_finished t then ''finished'' else if pt_failed t then ''failure''
     else if pt_started t then ''running'' else ''pending'')"

definition prompt_tag :: "ptask \<Rightarrow> rtag" where
  "prompt_tag t = \<lparr>rt_is_prompt = Some True, rt_status = Some (task_status t), rt_global_steps = Some (pt_steps t)\<rparr>"

definition task_wf :: "ptask \<Rightarrow> bool" where
  "task_wf t \<longleftrightarrow> (\<not> pt_started t \<longrightarrow> pt_sessions t = [] \<and> \<not> pt_finished t \<and> \<not> pt_failed t)
     \<and> (pt_finished t \<longrightarrow> pt_sessions t = [] \<and> \<not> pt_failed t)"

definition tasks_inv :: "(string \<Rightarrow> rtag option) \<Rightarrow> 's rsys \<Rightarrow> bool" where
  "tasks_inv V sys \<longleftrightarrow> (\<forall>u t. rs_tasks sys u = Some t \<longrightarrow> CHR ''_'' \<notin> set u \<and> task_wf t
     \<and> (if u \<in> set (rs_sampled sys) then V u = None \<and> (pt_finished t \<or> pt_failed t) else V u = Some (prompt_tag t)))"

definition history_inv :: "'s rsys \<Rightarrow> bool" where
  "history_inv sys \<longleftrightarrow>
     (\<forall>u. rs_tasks sys u = None \<longrightarrow> u \<notin> set (rs_sampled sys) \<and> rs_produced sys u = [])
     \<and> (\<forall>u k. k \<in> set (rs_produced sys u) \<longrightarrow> (\<exists>s i. k = trajectory_key u s i))
     \<and> (\<forall>k\<in>set (rs_held sys). \<exists>u\<in>set (rs_sampled sys). k \<in> set (rs_produced sys u))"

definition owned :: "'s rsys \<Rightarrow> string \<Rightarrow> rtag \<Rightarrow> bool" where
  "owned sys k tg \<longleftrightarrow> (\<exists>t. rs_tasks sys k = Some t \<and> k \<notin> set (rs_sampled sys))
     \<or> (\<exists>u t. rs_tasks sys u = Some t \<and> k \<in> set (rs_produced sys u) \<and> tg = trajectory_tag (pt_steps t))"

definition store_inv :: "(string \<Rightarrow> rtag option) \<Rightarrow> 's rsys \<Rightarrow> bool" where
  "store_inv V sys \<longleftrightarrow>
     (\<forall>u t k. rs_tasks sys u = Some t \<longrightarrow> u \<notin> set (rs_sampled sys) \<longrightarrow> k \<in> set (rs_produced sys u)
        \<longrightarrow> V k = Some (trajectory_tag (pt_steps t)))
     \<and> (\<forall>k tg. V k = Some tg \<longrightarrow> owned sys k tg)"

definition others_ok :: "'s kv_ops \<Rightarrow> string \<Rightarrow> 's \<Rightarrow> bool" where
  "others_ok ops p s \<longleftrightarrow> (\<forall>q k t. q \<noteq> p \<longrightarrow> kv_view ops q s k = Some t \<longrightarrow> tag_ok t)"

definition rinv :: "'s kv_ops \<Rightarrow> string \<Rightarrow> 's rsys \<Rightarrow> bool" where
  "rinv ops p sys \<longleftrightarrow> others_ok ops p (rs_store sys) \<and> history_inv sys
     \<and> tasks_inv (kv_view ops p (rs_store sys)) sys \<and> store_inv (kv_view ops p (rs_store sys)) sys"

lemma kv_put_view:
  "kv_laws ops \<Longrightarrow> kv_view ops q (kv_put ops p k t s) =
     (if q = p then (kv_view ops p s)(k \<mapsto> tag_update (the_default no_tag (kv_view ops p s k)) t) else kv_view ops q s)"
  by (simp add: kv_laws_def)

lemma tag_update_idem [simp]: "tag_update (tag_update a t) t = tag_update a t"
  by (simp add: tag_update_def or_keep_def split: option.splits)

lemma kv_batch_put_view:
  assumes "kv_laws ops"
  shows "kv_view ops q (kv_batch_put ops p keys t s) =
     (if q = p then (\<lambda>k. if k \<in> set keys then Some (tag_update (the_default no_tag (kv_view ops p s k)) t) else kv_view ops p s k)
      else kv_view ops q s)"
  unfolding kv_batch_put_def
proof (induction keys arbitrary: s)
  case (Cons k keys)
  show ?case by (auto simp: Cons.IH kv_put_view[OF assms] fun_eq_iff)
qed simp

lemma key_has_underscore [simp]: "CHR ''_'' \<in> set (trajectory_key u s i)"
  by (simp add: trajectory_key_def)

lemma split_char_prefix: "sep \<notin> set w \<Longrightarrow> hd (split_char sep (w @ sep # s)) = w"
  by (simp add: split_char_line)

lemma uid_of_trajectory [simp]: "CHR ''_'' \<notin> set u \<Longrightarrow> uid_of_key (trajectory_key u s i) = u"
  using split_char_prefix[of "CHR ''_''" u] by (simp add: uid_of_key_def trajectory_key_def)

lemma prompt_tag_updates:
  "pending_tag g = prompt_tag \<lparr>pt_steps = g, pt_started = False, pt_sessions = [], pt_finished = False, pt_failed = False\<rparr>"
  "tag_update (prompt_tag t) (status_tag st) = (prompt_tag t)\<lparr>rt_status := Some st\<rparr>"
  by (simp_all add: tag_update_def prompt_tag_def pending_tag_def status_tag_def no_tag_def or_keep_def task_status_def)

lemma trajectory_tag_updates [simp]:
  "tag_update (trajectory_tag g) (trajectory_tag g) = trajectory_tag g"
  by (simp add: tag_update_def trajectory_tag_def or_keep_def)

lemma others_put: "kv_laws ops \<Longrightarrow> others_ok ops p s \<Longrightarrow> others_ok ops p (kv_put ops p k t s)"
  by (auto simp: others_ok_def kv_put_view)

lemma others_batch_put: "kv_laws ops \<Longrightarrow> others_ok ops p s \<Longrightarrow> others_ok ops p (kv_batch_put ops p ks t s)"
  by (auto simp: others_ok_def kv_batch_put_view)

lemma others_clear: "kv_laws ops \<Longrightarrow> others_ok ops p s \<Longrightarrow> others_ok ops p (kv_clear ops p ks s)"
  by (auto simp: others_ok_def kv_clear_view)

lemma produced_key:
  assumes "history_inv sys" "tasks_inv V sys" "k \<in> set (rs_produced sys u)"
  shows "CHR ''_'' \<in> set k" "uid_of_key k = u" "rs_tasks sys u \<noteq> None" "rs_tasks sys k = None"
proof -
  obtain s i where k: "k = trajectory_key u s i" using assms(1,3) unfolding history_inv_def by blast
  then show u: "CHR ''_'' \<in> set k" by simp
  show t: "rs_tasks sys u \<noteq> None" using assms(1,3) by (auto simp: history_inv_def)
  then show "uid_of_key k = u" using assms(2) k by (auto simp: tasks_inv_def)
  show "rs_tasks sys k = None" using u assms(2) by (cases "rs_tasks sys k") (auto simp: tasks_inv_def)
qed

lemma untasked_key_absent:
  assumes "history_inv sys" "tasks_inv V sys" "store_inv V sys" "rs_tasks sys u = None" "CHR ''_'' \<notin> set u"
  shows "V u = None"
proof (cases "V u")
  case (Some tg)
  with assms(3) have "owned sys u tg" unfolding store_inv_def by blast
  then obtain w where "u \<in> set (rs_produced sys w)" using assms(4) by (auto simp: owned_def)
  then show ?thesis using produced_key(1)[OF assms(1,2)] assms(5) by blast
qed simp

lemma owned_mono:
  assumes "owned sys k tg"
    "\<And>u t. rs_tasks sys u = Some t \<Longrightarrow> \<exists>t'. rs_tasks sys' u = Some t' \<and> pt_steps t' = pt_steps t"
    "rs_sampled sys' = rs_sampled sys" "\<And>u. set (rs_produced sys u) \<subseteq> set (rs_produced sys' u)"
  shows "owned sys' k tg"
proof -
  consider t where "rs_tasks sys k = Some t" "k \<notin> set (rs_sampled sys)"
    | u t where "rs_tasks sys u = Some t" "k \<in> set (rs_produced sys u)" "tg = trajectory_tag (pt_steps t)"
    using assms(1) by (auto simp: owned_def)
  then show ?thesis
  proof cases
    case 1
    then show ?thesis using assms(2)[OF 1(1)] assms(3) by (auto simp: owned_def)
  next
    case 2
    then show ?thesis using assms(2)[OF 2(1)] assms(4)[of u] by (fastforce simp: owned_def)
  qed
qed

lemma store_invI:
  assumes "\<And>u t k. rs_tasks sys u = Some t \<Longrightarrow> u \<notin> set (rs_sampled sys) \<Longrightarrow> k \<in> set (rs_produced sys u)
      \<Longrightarrow> V k = Some (trajectory_tag (pt_steps t))"
    "\<And>k tg. V k = Some tg \<Longrightarrow> owned sys k tg"
  shows "store_inv V sys"
  using assms by (simp add: store_inv_def)

lemma store_invD:
  assumes "store_inv V sys"
  shows "rs_tasks sys u = Some t \<Longrightarrow> u \<notin> set (rs_sampled sys) \<Longrightarrow> k \<in> set (rs_produced sys u)
      \<Longrightarrow> V k = Some (trajectory_tag (pt_steps t))"
    "V k = Some tg \<Longrightarrow> owned sys k tg"
  using assms by (simp_all add: store_inv_def)

lemma owned_task: "rs_tasks sys k = Some t \<Longrightarrow> k \<notin> set (rs_sampled sys) \<Longrightarrow> owned sys k tg"
  by (simp add: owned_def)

lemma rinv_register:
  assumes laws: "kv_laws ops" and inv: "rinv ops p sys"
    and new: "\<And>u. u \<in> set uids \<Longrightarrow> rs_tasks sys u = None \<and> CHR ''_'' \<notin> set u"
  shows "rinv ops p (register_batch ops p g uids sys)"
proof -
  let ?V = "kv_view ops p (rs_store sys)" and ?t = "\<lparr>pt_steps = g, pt_started = False, pt_sessions = [], pt_finished = False, pt_failed = False\<rparr>"
  let ?sys = "register_batch ops p g uids sys"
  from inv have h: "history_inv sys" and t: "tasks_inv ?V sys" and st: "store_inv ?V sys" by (simp_all add: rinv_def)
  have absent: "?V u = None" if "u \<in> set uids" for u using untasked_key_absent[OF h t st] new[OF that] by blast
  have V': "kv_view ops p (rs_store ?sys) = (\<lambda>k. if k \<in> set uids then Some (prompt_tag ?t) else ?V k)"
    using absent by (auto simp: register_batch_def kv_batch_put_view[OF laws] fun_eq_iff prompt_tag_updates)
  have fresh: "u \<notin> set (rs_sampled sys) \<and> rs_produced sys u = []" if "u \<in> set uids" for u
    using new[OF that] h by (simp add: history_inv_def)
  have held: "k \<notin> set uids" if "k \<in> set (rs_produced sys u)" for k u
    using produced_key(1)[OF h t that] new by blast
  have "others_ok ops p (rs_store ?sys)"
    using others_batch_put[OF laws] inv by (simp add: rinv_def register_batch_def)
  moreover have "history_inv ?sys" using h fresh by (auto simp: register_batch_def history_inv_def)
  moreover have "tasks_inv (kv_view ops p (rs_store ?sys)) ?sys"
    using t new fresh unfolding V' by (auto simp: register_batch_def tasks_inv_def task_wf_def)
  moreover have "owned ?sys k tg" if "owned sys k tg" for k tg
    using that by (rule owned_mono) (use new in \<open>auto simp: register_batch_def\<close>)
  note owned = this
  have "store_inv (kv_view ops p (rs_store ?sys)) ?sys" unfolding V'
  proof (rule store_invI)
    fix u t k assume "rs_tasks ?sys u = Some t" "u \<notin> set (rs_sampled ?sys)" "k \<in> set (rs_produced ?sys u)"
    then show "(if k \<in> set uids then Some (prompt_tag ?t) else ?V k) = Some (trajectory_tag (pt_steps t))"
      using fresh[of u] held[of k u] store_invD(1)[OF st, of u t k] by (auto simp: register_batch_def split: if_splits)
  next
    fix k tg assume "(if k \<in> set uids then Some (prompt_tag ?t) else ?V k) = Some tg"
    then show "owned ?sys k tg"
      using owned store_invD(2)[OF st] owned_task[of ?sys k ?t] fresh[of k]
      by (cases "k \<in> set uids") (auto simp: register_batch_def)
  qed
  ultimately show ?thesis by (simp add: rinv_def)
qed

lemma tasks_invD:
  assumes "tasks_inv V sys" "rs_tasks sys u = Some t"
  shows "CHR ''_'' \<notin> set u" "task_wf t"
    "u \<in> set (rs_sampled sys) \<Longrightarrow> V u = None \<and> (pt_finished t \<or> pt_failed t)"
    "u \<notin> set (rs_sampled sys) \<Longrightarrow> V u = Some (prompt_tag t)"
  using assms by (auto simp: tasks_inv_def split: if_splits)

text \<open>A change of the status of one prompt.\<close>

definition retag :: "'s kv_ops \<Rightarrow> string \<Rightarrow> string \<Rightarrow> ptask \<Rightarrow> bool \<Rightarrow> 's rsys \<Rightarrow> 's rsys" where
  "retag ops p u t put sys =
     sys\<lparr>rs_store := (if put then kv_put ops p u (status_tag (task_status t)) (rs_store sys) else rs_store sys),
       rs_tasks := (rs_tasks sys)(u \<mapsto> t)\<rparr>"

lemma rinv_retag:
  assumes laws: "kv_laws ops" and inv: "rinv ops p sys" and u: "rs_tasks sys u = Some t"
    and t': "task_wf t'" "pt_steps t' = pt_steps t"
    and put: "put \<Longrightarrow> u \<notin> set (rs_sampled sys)"
      "\<not> put \<Longrightarrow> task_status t' = task_status t \<and> (pt_finished t' \<or> pt_failed t')"
  shows "rinv ops p (retag ops p u t' put sys)"
proof -
  let ?V = "kv_view ops p (rs_store sys)" and ?sys = "retag ops p u t' put sys"
  from inv have h: "history_inv sys" and t: "tasks_inv ?V sys" and st: "store_inv ?V sys" by (simp_all add: rinv_def)
  have V': "kv_view ops p (rs_store ?sys) = (if put then ?V(u \<mapsto> prompt_tag t') else ?V)"
    using put(1) tasks_invD(4)[OF t u] t'(2)
    by (auto simp: retag_def kv_put_view[OF laws] prompt_tag_updates) (simp add: prompt_tag_def)
  have "others_ok ops p (rs_store ?sys)" using others_put[OF laws] inv by (simp add: rinv_def retag_def)
  moreover have "history_inv ?sys" using h u by (auto simp: retag_def history_inv_def)
  moreover have "tasks_inv (kv_view ops p (rs_store ?sys)) ?sys"
    unfolding V' using t t' u put tasks_invD[OF t u]
    by (auto simp: retag_def tasks_inv_def prompt_tag_def)
  moreover have owned: "owned ?sys k tg" if "owned sys k tg" for k tg
    using that by (rule owned_mono) (use u t'(2) in \<open>auto simp: retag_def\<close>)
  have "store_inv (kv_view ops p (rs_store ?sys)) ?sys" unfolding V'
  proof (rule store_invI)
    fix w tw k assume w: "rs_tasks ?sys w = Some tw" "w \<notin> set (rs_sampled ?sys)" "k \<in> set (rs_produced ?sys w)"
    then have "k \<noteq> u" using produced_key(4)[OF h t, of k w] u by (auto simp: retag_def)
    moreover have "\<exists>tw'. rs_tasks sys w = Some tw' \<and> pt_steps tw' = pt_steps tw"
      using w(1) u t'(2) by (auto simp: retag_def split: if_splits)
    ultimately show "(if put then ?V(u \<mapsto> prompt_tag t') else ?V) k = Some (trajectory_tag (pt_steps tw))"
      using store_invD(1)[OF st, of w _ k] w(2,3) by (auto simp: retag_def)
  next
    fix k tg assume "(if put then ?V(u \<mapsto> prompt_tag t') else ?V) k = Some tg"
    then consider "k = u" "put" | "?V k = Some tg" by (auto split: if_splits)
    then show "owned ?sys k tg"
      by cases (use put(1) owned store_invD(2)[OF st] in \<open>auto simp: retag_def owned_def\<close>)
  qed
  ultimately show ?thesis by (simp add: rinv_def)
qed

lemma rinv_start:
  assumes "kv_laws ops" "rinv ops p sys" "rs_tasks sys u = Some t" "\<not> pt_started t"
  shows "rinv ops p (start_prompt ops p u n t sys)"
proof -
  have t: "tasks_inv (kv_view ops p (rs_store sys)) sys" using assms(2) by (simp add: rinv_def)
  let ?t = "t\<lparr>pt_started := True, pt_sessions := [0..<n]\<rparr>"
  have "start_prompt ops p u n t sys = retag ops p u ?t True sys" "task_wf ?t" "u \<notin> set (rs_sampled sys)"
    using tasks_invD[OF t assms(3)] assms(4) by (auto simp: start_prompt_def retag_def task_status_def task_wf_def)
  then show ?thesis using rinv_retag[OF assms(1-3), of ?t True] by simp
qed

lemma rinv_finish:
  assumes "kv_laws ops" "rinv ops p sys" "rs_tasks sys u = Some t" "pt_started t" "pt_sessions t = []"
    "\<not> pt_failed t" "\<not> pt_finished t"
  shows "rinv ops p (finish_prompt ops p u t sys)"
proof -
  have t: "tasks_inv (kv_view ops p (rs_store sys)) sys" using assms(2) by (simp add: rinv_def)
  let ?t = "t\<lparr>pt_finished := True\<rparr>"
  have "finish_prompt ops p u t sys = retag ops p u ?t True sys" "task_wf ?t" "u \<notin> set (rs_sampled sys)"
    using tasks_invD[OF t assms(3)] assms(4-) by (auto simp: finish_prompt_def retag_def task_status_def task_wf_def)
  then show ?thesis using rinv_retag[OF assms(1-3), of ?t True] by simp
qed

lemma rinv_raises:
  assumes "kv_laws ops" "rinv ops p sys" "rs_tasks sys u = Some t" "session \<in> set (pt_sessions t)"
  shows "rinv ops p (session_raises ops p u session t sys)"
proof -
  have t: "tasks_inv (kv_view ops p (rs_store sys)) sys" using assms(2) by (simp add: rinv_def)
  let ?t = "t\<lparr>pt_sessions := remove1 session (pt_sessions t), pt_failed := True\<rparr>"
  have wf: "task_wf t" by (rule tasks_invD(2)[OF t assms(3)])
  then have s: "pt_started t" "\<not> pt_finished t" using assms(4) by (auto simp: task_wf_def)
  then have "session_raises ops p u session t sys = retag ops p u ?t (\<not> pt_failed t) sys" "task_wf ?t"
    by (auto simp: session_raises_def retag_def task_status_def task_wf_def)
  moreover have "u \<notin> set (rs_sampled sys)" if "\<not> pt_failed t" using tasks_invD(3)[OF t assms(3)] that s by blast
  ultimately show ?thesis
    using rinv_retag[OF assms(1-3), of ?t "\<not> pt_failed t"] s by (simp add: task_status_def)
qed

lemma produced_tag:
  assumes "history_inv sys" "tasks_inv V sys" "store_inv V sys" "rs_tasks sys u = Some t"
    "V (trajectory_key u s i) = Some tg"
  shows "tg = trajectory_tag (pt_steps t)"
proof -
  have "CHR ''_'' \<notin> set u" by (rule tasks_invD(1)[OF assms(2,4)])
  moreover have "rs_tasks sys (trajectory_key u s i) = None"
    using tasks_invD(1)[OF assms(2), of "trajectory_key u s i"] by (cases "rs_tasks sys (trajectory_key u s i)") auto
  then obtain w tw where w: "rs_tasks sys w = Some tw" "trajectory_key u s i \<in> set (rs_produced sys w)" "tg = trajectory_tag (pt_steps tw)"
    using store_invD(2)[OF assms(3,5)] by (auto simp: owned_def)
  moreover have "w = uid_of_key (trajectory_key u s i)" using produced_key(2)[OF assms(1,2) w(2)] by simp
  ultimately show ?thesis using assms(4) by simp
qed

lemma rinv_outputs:
  assumes laws: "kv_laws ops" and inv: "rinv ops p sys" and u: "rs_tasks sys u = Some t"
    and "session \<in> set (pt_sessions t)"
  shows "rinv ops p (store_outputs ops p u session m t sys)"
proof -
  let ?V = "kv_view ops p (rs_store sys)" and ?sys = "store_outputs ops p u session m t sys"
  let ?keys = "map (trajectory_key u session) [0..<m]" and ?tag = "trajectory_tag (pt_steps t)"
  from inv have h: "history_inv sys" and t: "tasks_inv ?V sys" and st: "store_inv ?V sys" by (simp_all add: rinv_def)
  have uid: "CHR ''_'' \<notin> set u" by (rule tasks_invD(1)[OF t u])
  have "tag_update (the_default no_tag (?V k)) ?tag = ?tag" if k: "k \<in> set ?keys" for k
  proof (cases "?V k")
    case (Some tg)
    with k produced_tag[OF h t st u] have "tg = ?tag" by auto
    with Some show ?thesis by simp
  qed simp
  then have V': "kv_view ops p (rs_store ?sys) = (\<lambda>k. if k \<in> set ?keys then Some ?tag else ?V k)"
    unfolding store_outputs_def Let_def by (auto simp: kv_batch_put_view[OF laws] fun_eq_iff)
  have "others_ok ops p (rs_store ?sys)"
    using others_batch_put[OF laws] inv by (simp add: rinv_def store_outputs_def Let_def)
  moreover have "history_inv ?sys" using h u unfolding history_inv_def store_outputs_def Let_def
    by (simp del: set_map) (auto split: if_splits)
  moreover have task_key: "w \<notin> set ?keys" if "rs_tasks sys w = Some tw" for w tw
    using tasks_invD(1)[OF t that] by auto
  have "tasks_inv (kv_view ops p (rs_store ?sys)) ?sys"
    unfolding V' using t u assms(4) task_key
    by (auto simp: store_outputs_def Let_def tasks_inv_def prompt_tag_def task_status_def task_wf_def simp del: set_map)
  moreover have owned: "owned ?sys k tg" if "owned sys k tg" for k tg
    using that by (rule owned_mono) (use u in \<open>auto simp: store_outputs_def Let_def\<close>)
  have "store_inv (kv_view ops p (rs_store ?sys)) ?sys" unfolding V'
  proof (rule store_invI)
    fix w tw k assume w: "rs_tasks ?sys w = Some tw" "w \<notin> set (rs_sampled ?sys)" "k \<in> set (rs_produced ?sys w)"
    obtain tw' where tw': "rs_tasks sys w = Some tw'" "pt_steps tw' = pt_steps tw"
      using w(1) u by (auto simp: store_outputs_def Let_def split: if_splits)
    show "(if k \<in> set ?keys then Some ?tag else ?V k) = Some (trajectory_tag (pt_steps tw))"
    proof (cases "k \<in> set ?keys")
      case False
      then have "k \<in> set (rs_produced sys w)" using w(3) by (auto simp: store_outputs_def Let_def split: if_splits)
      with False show ?thesis using store_invD(1)[OF st tw'(1)] tw'(2) w(2) by (simp add: store_outputs_def Let_def)
    next
      case True
      have "w = u"
      proof (rule ccontr)
        assume "w \<noteq> u"
        with w(3) have "k \<in> set (rs_produced sys w)" by (simp add: store_outputs_def Let_def)
        from produced_key(2)[OF h t this] True uid \<open>w \<noteq> u\<close> show False by auto
      qed
      with True tw' u show ?thesis by simp
    qed
  next
    fix k tg assume k: "(if k \<in> set ?keys then Some ?tag else ?V k) = Some tg"
    show "owned ?sys k tg"
    proof (cases "k \<in> set ?keys")
      case True
      with k have "tg = ?tag" by simp
      with True show ?thesis unfolding owned_def
        by (intro disjI2 exI[of _ u] exI[of _ "t\<lparr>pt_sessions := remove1 session (pt_sessions t)\<rparr>"])
          (simp add: store_outputs_def Let_def)
    qed (use k owned store_invD(2)[OF st] in simp)
  qed
  ultimately show ?thesis by (simp add: rinv_def)
qed

lemma trajectory_tag_ok [simp]: "tag_ok (trajectory_tag g)" "\<not> is_prompt_tag (trajectory_tag g)"
  by (simp_all add: trajectory_tag_def tag_ok_def is_prompt_tag_def)

lemma prompt_tag_ok [simp]: "tag_ok (prompt_tag t)" "is_prompt_tag (prompt_tag t)"
  by (simp_all add: prompt_tag_def tag_ok_def is_prompt_tag_def task_status_def)

lemma owned_tag:
  assumes "tasks_inv V sys" "V k = Some tg" "owned sys k tg"
  shows "(\<exists>t. rs_tasks sys k = Some t \<and> k \<notin> set (rs_sampled sys) \<and> tg = prompt_tag t)
    \<or> (\<exists>u t. rs_tasks sys u = Some t \<and> k \<in> set (rs_produced sys u) \<and> tg = trajectory_tag (pt_steps t))"
  using assms(3) tasks_invD(4)[OF assms(1), of k] assms(2) by (auto simp: owned_def)

lemma rinv_store_ok:
  assumes laws: "kv_laws ops" and inv: "rinv ops p sys"
  shows "store_ok ops (rs_store sys)"
proof -
  let ?V = "kv_view ops p (rs_store sys)"
  from inv have t: "tasks_inv ?V sys" and st: "store_inv ?V sys" and o: "others_ok ops p (rs_store sys)" by (simp_all add: rinv_def)
  have ok: "tag_ok tg" if "kv_view ops q (rs_store sys) k = Some tg" for q k tg
  proof (cases "q = p")
    case True
    with that have k: "?V k = Some tg" by simp
    from owned_tag[OF t k store_invD(2)[OF st k]] show ?thesis by auto
  qed (use o that in \<open>auto simp: others_ok_def\<close>)
  have "map_of its k = Some tg \<Longrightarrow> tag_ok tg" if "(q, its) \<in> set (kv_list ops (rs_store sys))" for q its k tg
    using ok[of q k tg] that laws by (simp add: kv_view_def kv_items_def kv_laws_def)
  moreover have "distinct (map fst its)" if "(q, its) \<in> set (kv_list ops (rs_store sys))" for q its
    using kv_items_distinct[OF laws, of q "rs_store sys"] that laws by (simp add: kv_items_def kv_laws_def)
  ultimately show ?thesis unfolding store_ok_def by (fastforce simp: list_all_iff)
qed

lemma in_items: "kv_laws ops \<Longrightarrow> (k, t) \<in> set (kv_items ops p s) \<longleftrightarrow> kv_view ops p s k = Some t"
  using kv_items_distinct[of ops p s] by (auto simp: kv_view_def)

text \<open>What a sample takes from a reachable store.\<close>

lemma taken_from_system:
  assumes laws: "kv_laws ops" and so: "order_ok so" and inv: "rinv ops p sys"
    and r: "taken ops so rb g p n (rs_store sys) r" and u: "u \<in> set (sr_selected r)"
  shows "\<exists>t. rs_tasks sys u = Some t \<and> u \<notin> set (rs_sampled sys) \<and> (pt_finished t \<or> pt_failed t)"
proof -
  let ?V = "kv_view ops p (rs_store sys)"
  from inv have t: "tasks_inv ?V sys" and st: "store_inv ?V sys" by (simp_all add: rinv_def)
  from u r have "u \<in> set (chosen so n (kv_items ops p (rs_store sys)))" by (simp add: taken_def Let_def)
  from set_chosen_subset[OF so this] obtain tg where
    tg: "?V u = Some tg" "is_prompt_tag tg" "rt_status tg \<in> {Some ''finished'', Some ''failure''}"
    unfolding in_items[OF laws] by blast
  from owned_tag[OF t tg(1) store_invD(2)[OF st tg(1)]] tg(2)
  obtain tu where "rs_tasks sys u = Some tu" "u \<notin> set (rs_sampled sys)" "tg = prompt_tag tu" by auto
  with tg(3) show ?thesis by (auto simp: prompt_tag_def task_status_def split: if_splits)
qed

lemma taken_trajectories:
  assumes laws: "kv_laws ops" and so: "order_ok so" and inv: "rinv ops p sys"
    and r: "taken ops so rb g p n (rs_store sys) r"
  shows "(k, tg) \<in> set (of_prompts (sr_selected r) (kv_items ops p (rs_store sys))) \<longleftrightarrow>
    (\<exists>u t. u \<in> set (sr_selected r) \<and> rs_tasks sys u = Some t \<and> k \<in> set (rs_produced sys u) \<and> tg = trajectory_tag (pt_steps t))"
    (is "?l \<longleftrightarrow> ?r")
proof -
  let ?V = "kv_view ops p (rs_store sys)"
  from inv have h: "history_inv sys" and t: "tasks_inv ?V sys" and st: "store_inv ?V sys" by (simp_all add: rinv_def)
  show ?thesis
  proof
    assume ?l
    then have k: "?V k = Some tg" "\<not> is_prompt_tag tg" "uid_of_key k \<in> set (sr_selected r)"
      using in_items[OF laws] by (auto simp: of_prompts_def trajectories_def)
    from owned_tag[OF t k(1) store_invD(2)[OF st k(1)]] k(2)
    obtain u tu where u: "rs_tasks sys u = Some tu" "k \<in> set (rs_produced sys u)" "tg = trajectory_tag (pt_steps tu)" by auto
    with produced_key(2)[OF h t u(2)] k(3) show ?r by auto
  next
    assume ?r
    then obtain u tu where u: "u \<in> set (sr_selected r)" "rs_tasks sys u = Some tu" "k \<in> set (rs_produced sys u)"
      "tg = trajectory_tag (pt_steps tu)" by blast
    then have "u \<notin> set (rs_sampled sys)" using taken_from_system[OF laws so inv r] by blast
    with u have "?V k = Some tg" using store_invD(1)[OF st] by simp
    then show ?l using u produced_key(2)[OF h t u(3)] in_items[OF laws] by (auto simp: of_prompts_def trajectories_def)
  qed
qed

lemma taken_items:
  "taken ops so rb g p n s r \<Longrightarrow> kb_items (sr_batch r) =
     filter (\<lambda>(k, t). \<not> too_old rb g t) (of_prompts (sr_selected r) (kv_items ops p s))"
  by (simp add: taken_def Let_def)

lemma taken_view:
  "taken ops so rb g p n s r \<Longrightarrow> kv_view ops q (sr_store r) = (if q = p
     then kv_view ops p s |` (- (set (sr_selected r) \<union> fst ` set (filter (\<lambda>(k, t). too_old rb g t) (of_prompts (sr_selected r) (kv_items ops p s)))))
     else kv_view ops q s)"
  by (simp add: taken_def Let_def)

lemma rinv_take:
  assumes laws: "kv_laws ops" and so: "order_ok so" and inv: "rinv ops p sys"
    and r: "taken ops so rb g p n (rs_store sys) r"
  shows "rinv ops p (take_batch r sys)"
proof -
  let ?V = "kv_view ops p (rs_store sys)" and ?sys = "take_batch r sys"
  let ?old = "fst ` set (filter (\<lambda>(k, t). too_old rb g t) (of_prompts (sr_selected r) (kv_items ops p (rs_store sys))))"
  from inv have h: "history_inv sys" and t: "tasks_inv ?V sys" and st: "store_inv ?V sys" by (simp_all add: rinv_def)
  note sel = taken_from_system[OF laws so inv r] and traj = taken_trajectories[OF laws so inv r]
  have V': "kv_view ops q (rs_store ?sys) = (if q = p then ?V |` (- (set (sr_selected r) \<union> ?old)) else kv_view ops q (rs_store sys))" for q
    using taken_view[OF r] by (simp add: take_batch_def)
  have old: "\<exists>u\<in>set (sr_selected r). k \<in> set (rs_produced sys u)" if "k \<in> ?old" for k
    using that traj by auto
  have old_task: "rs_tasks sys k = None" if "k \<in> ?old" for k
    using old[OF that] produced_key(4)[OF h t] by blast
  have prod_sel: "k \<notin> set (sr_selected r)" if "k \<in> set (rs_produced sys u)" for k u
    using produced_key(4)[OF h t that] sel[of k] by auto
  have "others_ok ops p (rs_store ?sys)" using inv V' by (auto simp: rinv_def others_ok_def)
  moreover have "history_inv ?sys"
    using h sel traj unfolding history_inv_def take_batch_def taken_items[OF r] by fastforce
  moreover have "tasks_inv (kv_view ops p (rs_store ?sys)) ?sys"
    using t sel old_task unfolding V' by (fastforce simp: take_batch_def tasks_inv_def restrict_map_def)
  moreover have "store_inv (kv_view ops p (rs_store ?sys)) ?sys" unfolding V'
  proof (rule store_invI)
    fix u tu k assume u: "rs_tasks ?sys u = Some tu" "u \<notin> set (rs_sampled ?sys)" "k \<in> set (rs_produced ?sys u)"
    then have u': "rs_tasks sys u = Some tu" "u \<notin> set (rs_sampled sys)" "u \<notin> set (sr_selected r)" "k \<in> set (rs_produced sys u)"
      by (auto simp: take_batch_def)
    have "k \<notin> ?old" using old[of k] produced_key(2)[OF h t] u'(3,4) by metis
    with prod_sel[OF u'(4)] store_invD(1)[OF st u'(1,2,4)]
    show "(if p = p then ?V |` (- (set (sr_selected r) \<union> ?old)) else kv_view ops p (rs_store sys)) k = Some (trajectory_tag (pt_steps tu))"
      by simp
  next
    fix k tg assume "(if p = p then ?V |` (- (set (sr_selected r) \<union> ?old)) else kv_view ops p (rs_store sys)) k = Some tg"
    then have "?V k = Some tg" "k \<notin> set (sr_selected r)" by (auto simp: restrict_map_def split: if_splits)
    then show "owned ?sys k tg" using store_invD(2)[OF st, of k tg] by (auto simp: owned_def take_batch_def)
  qed
  ultimately show ?thesis by (simp add: rinv_def)
qed

lemma rinv_clear:
  assumes laws: "kv_laws ops" and inv: "rinv ops p sys"
  shows "rinv ops p (clear_batch ops p sys)"
proof -
  let ?V = "kv_view ops p (rs_store sys)" and ?sys = "clear_batch ops p sys"
  from inv have h: "history_inv sys" and t: "tasks_inv ?V sys" and st: "store_inv ?V sys" by (simp_all add: rinv_def)
  have V': "kv_view ops p (rs_store ?sys) = ?V |` (- set (rs_held sys))" by (simp add: clear_batch_def kv_clear_view[OF laws])
  have held: "\<exists>u\<in>set (rs_sampled sys). k \<in> set (rs_produced sys u)" if "k \<in> set (rs_held sys)" for k
    using h that by (simp add: history_inv_def)
  have held_task: "rs_tasks sys k = None" if "k \<in> set (rs_held sys)" for k
    using held[OF that] produced_key(4)[OF h t] by blast
  have "others_ok ops p (rs_store ?sys)" using others_clear[OF laws] inv by (simp add: rinv_def clear_batch_def)
  moreover have "history_inv ?sys" using h by (simp add: history_inv_def clear_batch_def)
  moreover have "tasks_inv (kv_view ops p (rs_store ?sys)) ?sys"
    using t held_task unfolding V' by (fastforce simp: clear_batch_def tasks_inv_def restrict_map_def)
  moreover have "store_inv (kv_view ops p (rs_store ?sys)) ?sys" unfolding V'
  proof (rule store_invI)
    fix u tu k assume u: "rs_tasks ?sys u = Some tu" "u \<notin> set (rs_sampled ?sys)" "k \<in> set (rs_produced ?sys u)"
    then have u': "rs_tasks sys u = Some tu" "u \<notin> set (rs_sampled sys)" "k \<in> set (rs_produced sys u)"
      by (auto simp: clear_batch_def)
    have "k \<notin> set (rs_held sys)" using held[of k] produced_key(2)[OF h t] u'(2,3) by metis
    with store_invD(1)[OF st u'] show "(?V |` (- set (rs_held sys))) k = Some (trajectory_tag (pt_steps tu))" by simp
  next
    fix k tg assume "(?V |` (- set (rs_held sys))) k = Some tg"
    then have "?V k = Some tg" by (auto simp: restrict_map_def split: if_splits)
    then show "owned ?sys k tg" using store_invD(2)[OF st, of k tg] by (auto simp: owned_def clear_batch_def)
  qed
  ultimately show ?thesis by (simp add: rinv_def)
qed

lemma sample_taken:
  assumes laws: "kv_laws ops" and so: "order_ok so" and sync: "rb_parameter_sync_step rb \<noteq> 0" and inv: "rinv ops p sys"
    and r: "sample_loop ops so rb g p n [rs_store sys] = Inr (Some r)"
  shows "taken ops so rb g p n (rs_store sys) r"
proof -
  have ok: "\<forall>s\<in>set [rs_store sys]. store_ok ops s" using rinv_store_ok[OF laws inv] by simp
  then have "ready rb g n (kv_items ops p (rs_store sys))" using loop_none_iff[OF laws so sync ok, of g p n] r by auto
  with loop_first_ready[OF laws so sync, of "[]" "rs_store sys" g n p "[]"] ok r show ?thesis by auto
qed

lemma rinv_step:
  assumes laws: "kv_laws ops" and so: "order_ok so" and sync: "rb_parameter_sync_step rb \<noteq> 0"
    and "rstep ops so rb p sys sys'" "rinv ops p sys"
  shows "rinv ops p sys'"
  using assms(4,5)
proof (induction rule: rstep.induct)
  case (register uids sys g)
  then show ?case by (intro rinv_register[OF laws])
next
  case (start sys u t n)
  then show ?case by (intro rinv_start[OF laws])
next
  case (outputs sys u t session m)
  then show ?case by (intro rinv_outputs[OF laws])
next
  case (raises sys u t session)
  then show ?case by (intro rinv_raises[OF laws])
next
  case (finish sys u t)
  then show ?case by (intro rinv_finish[OF laws])
next
  case (sample g n sys r)
  show ?case
    by (rule rinv_take[OF laws so sample.prems sample_taken[OF laws so sync sample.prems sample.hyps]])
next
  case (clear sys)
  then show ?case by (rule rinv_clear[OF laws])
qed

lemma rinv_reachable:
  assumes laws: "kv_laws ops" and so: "order_ok so" and sync: "rb_parameter_sync_step rb \<noteq> 0"
    and "(rstep ops so rb p)\<^sup>*\<^sup>* sys sys'" "rinv ops p sys"
  shows "rinv ops p sys'"
  using assms(4,5) by (induction rule: rtranclp_induct) (auto intro: rinv_step[OF laws so sync])

lemma empty_rinv:
  assumes "kv_laws ops" "empty_system ops p sys"
  shows "rinv ops p sys"
proof -
  have "tag_ok t" if "kv_view ops q (rs_store sys) k = Some t" for q k t
    using that kv_items_ok[OF assms(1), of "rs_store sys" q] assms(2) in_items[OF assms(1), of k t q]
    by (auto simp: empty_system_def list_all_iff)
  then show ?thesis using assms(2)
    by (auto simp: empty_system_def rinv_def others_ok_def history_inv_def tasks_inv_def store_inv_def)
qed

lemma finished_stays:
  assumes "rstep ops so rb p sys sys'" "rs_tasks sys u = Some t" "pt_finished t" "pt_sessions t = []" "pt_started t"
  shows "rs_tasks sys' u = Some t \<and> rs_produced sys' u = rs_produced sys u"
  using assms by (induction rule: rstep.induct)
    (auto simp: register_batch_def start_prompt_def store_outputs_def session_raises_def finish_prompt_def
      take_batch_def clear_batch_def Let_def)

lemma finished_forever:
  assumes "(rstep ops so rb p)\<^sup>*\<^sup>* sys sys'" "rs_tasks sys u = Some t" "pt_finished t" "pt_sessions t = []" "pt_started t"
  shows "rs_produced sys' u = rs_produced sys u"
proof -
  from assms(1) have "rs_tasks sys' u = Some t \<and> rs_produced sys' u = rs_produced sys u"
    by (induction rule: rtranclp_induct) (use assms(2-) in \<open>auto dest: finished_stays\<close>)
  then show ?thesis by simp
qed

text \<open>
  C28. Sampled groups are complete. Whenever the trainer samples in a reachable state of the system, each prompt it
  takes has ended and was never taken before. If the prompt finished, none of its sessions is running and it never
  produces anything again, and the batch holds all the trajectories it ever produced, or none of them when
  the drop strategy finds the group too old: groups are never split, and every trajectory of the batch belongs to
  a prompt that was taken.
\<close>

theorem sampled_groups_complete:
  fixes ops :: "'s kv_ops"
  assumes laws: "kv_laws ops" and so: "order_ok so" and sync: "rb_parameter_sync_step rb \<noteq> 0"
    and start: "empty_system ops p sys0" and reach: "(rstep ops so rb p)\<^sup>*\<^sup>* sys0 sys"
    and sample: "sample_loop ops so rb g p n [rs_store sys] = Inr (Some r)"
  shows "(\<forall>u\<in>set (sr_selected r). \<exists>t. rs_tasks sys u = Some t \<and> u \<notin> set (rs_sampled sys)
        \<and> (pt_finished t \<or> pt_failed t)
        \<and> {k \<in> fst ` set (kb_items (sr_batch r)). uid_of_key k = u} =
            (if too_old rb g (trajectory_tag (pt_steps t)) then {} else set (rs_produced sys u))
        \<and> (pt_finished t \<longrightarrow> pt_sessions t = []
            \<and> (\<forall>sys'. (rstep ops so rb p)\<^sup>*\<^sup>* sys sys' \<longrightarrow> rs_produced sys' u = rs_produced sys u)))
    \<and> (\<forall>k\<in>fst ` set (kb_items (sr_batch r)). uid_of_key k \<in> set (sr_selected r))"
proof -
  let ?V = "kv_view ops p (rs_store sys)"
  have inv: "rinv ops p sys" by (rule rinv_reachable[OF laws so sync reach empty_rinv[OF laws start]])
  then have h: "history_inv sys" and t: "tasks_inv ?V sys" by (simp_all add: rinv_def)
  have r: "taken ops so rb g p n (rs_store sys) r" by (rule sample_taken[OF laws so sync inv sample])
  note traj = taken_trajectories[OF laws so inv r]
  have items: "(k, tg) \<in> set (kb_items (sr_batch r)) \<longleftrightarrow> (\<exists>u t. u \<in> set (sr_selected r) \<and> rs_tasks sys u = Some t
      \<and> k \<in> set (rs_produced sys u) \<and> tg = trajectory_tag (pt_steps t)) \<and> \<not> too_old rb g tg" for k tg
    unfolding taken_items[OF r] by (simp add: traj)
  have group: "{k \<in> fst ` set (kb_items (sr_batch r)). uid_of_key k = u} =
      (if too_old rb g (trajectory_tag (pt_steps tu)) then {} else set (rs_produced sys u))"
    if u: "u \<in> set (sr_selected r)" "rs_tasks sys u = Some tu" for u tu
  proof (rule set_eqI)
    fix k
    have "k \<in> fst ` set (kb_items (sr_batch r)) \<longleftrightarrow> (\<exists>tg. (k, tg) \<in> set (kb_items (sr_batch r)))" by force
    then show "k \<in> {k \<in> fst ` set (kb_items (sr_batch r)). uid_of_key k = u} \<longleftrightarrow>
        k \<in> (if too_old rb g (trajectory_tag (pt_steps tu)) then {} else set (rs_produced sys u))"
      using items[of k] u produced_key(2)[OF h t, of k] by auto
  qed
  have final: "pt_sessions tu = [] \<and> pt_started tu" if "rs_tasks sys u = Some tu" "pt_finished tu" for u tu
    using tasks_invD(2)[OF t that(1)] that(2) by (auto simp: task_wf_def)
  have "\<forall>k\<in>fst ` set (kb_items (sr_batch r)). uid_of_key k \<in> set (sr_selected r)"
    using items produced_key(2)[OF h t] by fastforce
  moreover have "\<exists>t. rs_tasks sys u = Some t \<and> u \<notin> set (rs_sampled sys) \<and> (pt_finished t \<or> pt_failed t)
      \<and> {k \<in> fst ` set (kb_items (sr_batch r)). uid_of_key k = u} =
          (if too_old rb g (trajectory_tag (pt_steps t)) then {} else set (rs_produced sys u))
      \<and> (pt_finished t \<longrightarrow> pt_sessions t = []
          \<and> (\<forall>sys'. (rstep ops so rb p)\<^sup>*\<^sup>* sys sys' \<longrightarrow> rs_produced sys' u = rs_produced sys u))"
    if u: "u \<in> set (sr_selected r)" for u
  proof -
    obtain tu where tu: "rs_tasks sys u = Some tu" "u \<notin> set (rs_sampled sys)" "pt_finished tu \<or> pt_failed tu"
      using taken_from_system[OF laws so inv r u] by blast
    with group[OF u tu(1)] final[OF tu(1)] finished_forever[OF _ tu(1)] show ?thesis by blast
  qed
  ultimately show ?thesis by blast
qed

section \<open>An association list as the store, and what it shows\<close>

definition al_ops :: "(string \<times> items) list kv_ops" where
  "al_ops = \<lparr>kv_list = (\<lambda>s. map (\<lambda>(p, its). (p, AList.clearjunk its)) (AList.clearjunk s)),
     kv_put = (\<lambda>p k t s. let its = the_default [] (map_of s p)
        in d_set p (d_set k (tag_update (the_default no_tag (map_of its k)) t) its) s),
     kv_clear = (\<lambda>p ks s. d_set p (filter (\<lambda>(k, _). k \<notin> set ks) (the_default [] (map_of s p))) s)\<rparr>"

lemma al_items: "kv_items al_ops p s = AList.clearjunk (the_default [] (map_of s p))"
proof -
  have "map_of (map (\<lambda>(p, its). (p, AList.clearjunk its)) d) p = map_option AList.clearjunk (map_of d p)"
    for d :: "(string \<times> items) list" by (induction d) auto
  then show ?thesis by (cases "map_of s p") (simp_all add: kv_items_def al_ops_def map_of_clearjunk)
qed

lemma al_view: "kv_view al_ops p s = map_of (the_default [] (map_of s p))"
  by (simp add: kv_view_def al_items map_of_clearjunk)

lemma map_of_filter_keys: "map_of (filter (\<lambda>(k, _). P k) d) = map_of d |` {k. P k}"
  by (induction d) (auto simp: fun_eq_iff restrict_map_def)

lemma al_laws: "kv_laws al_ops"
proof -
  have "map fst (kv_list al_ops s) = map fst (AList.clearjunk s)" for s
    by (simp add: al_ops_def case_prod_beta' comp_def)
  moreover have "map_of (filter (\<lambda>(k, _). k \<notin> set ks) d) = map_of d |` (- set ks)" for ks and d :: items
    using map_of_filter_keys[of "\<lambda>k. k \<notin> set ks" d] by (simp add: Compl_eq)
  ultimately show ?thesis
    by (auto simp: kv_laws_def al_items al_view distinct_clearjunk fun_eq_iff) (simp_all add: al_ops_def Let_def)
qed

lemma remdups_order_ok: "order_ok remdups"
  by (simp add: order_ok_def)

definition sys0 :: "(string \<times> items) list rsys" where
  "sys0 = \<lparr>rs_store = [], rs_tasks = \<lambda>_. None, rs_held = [], rs_produced = \<lambda>_. [], rs_sampled = []\<rparr>"

definition drop_buffer :: replay_buffer where
  "drop_buffer = \<lparr>rb_max_off_policy_threshold = 1, rb_max_off_policy_strategy = ''drop'', rb_parameter_sync_step = 1,
     rb_partitions = \<lambda>_. [], rb_pending_keys = \<lambda>_. [], rb_running_keys = \<lambda>_. [], rb_finished_keys = \<lambda>_. [],
     rb_failure_keys = \<lambda>_. [], rb_prompt_global_steps = \<lambda>_. []\<rparr>"

lemma sys0_empty: "empty_system al_ops p sys0"
  by (simp add: empty_system_def sys0_def al_view fun_eq_iff store_ok_def) (simp add: al_ops_def)

text \<open>One prompt with its sessions after \<open>_add_batch_to_generate\<close> and the start of its task.\<close>

definition new_task :: ptask where
  "new_task = \<lparr>pt_steps = 1, pt_started = False, pt_sessions = [], pt_finished = False, pt_failed = False\<rparr>"

definition run_task :: "nat list \<Rightarrow> ptask" where
  "run_task ss = new_task\<lparr>pt_started := True, pt_sessions := ss\<rparr>"

definition started :: "nat \<Rightarrow> (string \<times> items) list rsys" where
  "started n = start_prompt al_ops ''train'' ''u'' n new_task (register_batch al_ops ''train'' 1 [''u''] sys0)"

lemma started_reachable: "(rstep al_ops so rb ''train'')\<^sup>*\<^sup>* sys0 (started n)"
proof -
  have "rstep al_ops so rb ''train'' sys0 (register_batch al_ops ''train'' 1 [''u''] sys0)"
    by (rule rstep.register) (simp add: sys0_def)
  moreover have "rstep al_ops so rb ''train'' (register_batch al_ops ''train'' 1 [''u''] sys0) (started n)"
    unfolding started_def by (rule rstep.start) (simp_all add: register_batch_def new_task_def)
  ultimately show ?thesis by (meson converse_rtranclp_into_rtranclp rtranclp.rtrancl_refl)
qed

lemma started_task: "rs_tasks (started n) ''u'' = Some (run_task [0..<n])"
  by (simp add: started_def start_prompt_def run_task_def)

definition finished_system :: "(string \<times> items) list rsys" where
  "finished_system = finish_prompt al_ops ''train'' ''u'' (run_task []) (store_outputs al_ops ''train'' ''u'' 0 1 (run_task [0]) (started 1))"

lemma finished_reachable: "(rstep al_ops so rb ''train'')\<^sup>*\<^sup>* sys0 finished_system"
proof -
  let ?s = "store_outputs al_ops ''train'' ''u'' 0 1 (run_task [0]) (started 1)"
  have "rstep al_ops so rb ''train'' (started 1) ?s"
    by (rule rstep.outputs) (simp_all add: started_task run_task_def)
  moreover have "rstep al_ops so rb ''train'' ?s finished_system"
    unfolding finished_system_def
    by (rule rstep.finish) (simp_all add: store_outputs_def Let_def run_task_def new_task_def)
  ultimately show ?thesis using started_reachable[of so rb 1] by (meson rtranclp.rtrancl_into_rtrancl)
qed

lemma nat_text_01: "nat_text 0 = ''0''" "nat_text (Suc 0) = ''1''"
  by code_simp+

lemmas run_defs = finished_system_def finish_prompt_def store_outputs_def started_def start_prompt_def
  register_batch_def sys0_def run_task_def new_task_def kv_batch_put_def al_ops_def status_tag_def pending_tag_def
  tag_update_def or_keep_def no_tag_def trajectory_key_def trajectory_tag_def nat_text_01

lemma finished_items:
  "kv_items al_ops ''train'' (rs_store finished_system) =
     [(''u'', prompt_tag (new_task\<lparr>pt_started := True, pt_finished := True\<rparr>)), (''u_0_0'', trajectory_tag 1)]"
  by (simp add: al_items) (simp add: run_defs prompt_tag_def task_status_def d_set_def Let_def)

lemma finished_ready: "ready drop_buffer g 1 (kv_items al_ops ''train'' (rs_store finished_system))"
  unfolding finished_items
  by (simp add: ready_def drop_buffer_def prompts_with_def prompt_tag_def task_status_def is_prompt_tag_def)

theorem sample_ends_at_first_ready_poll_witness:
  "\<exists>r. sample_loop al_ops remdups drop_buffer 1 ''train'' 1 [rs_store sys0, rs_store finished_system] = Inr (Some r)
     \<and> length (sr_selected r) = 1"
proof -
  have "rb_parameter_sync_step drop_buffer \<noteq> 0" by (simp add: drop_buffer_def)
  moreover have "\<forall>s\<in>set [rs_store sys0, rs_store finished_system]. store_ok al_ops s"
    using rinv_store_ok[OF al_laws empty_rinv[OF al_laws sys0_empty]]
      rinv_store_ok[OF al_laws rinv_reachable[OF al_laws remdups_order_ok calculation finished_reachable empty_rinv[OF al_laws sys0_empty]]]
    by simp
  moreover have "\<not> ready drop_buffer 1 1 (kv_items al_ops ''train'' (rs_store sys0))"
    by (simp add: al_items) (simp add: sys0_def ready_def prompts_with_def)
  moreover note spec[OF spec[OF spec[OF conjunct1[OF conjunct2[OF sample_ends_at_first_ready_poll[OF al_laws remdups_order_ok,
      of drop_buffer "[rs_store sys0, rs_store finished_system]" 1 "''train''" 1]]], of "[rs_store sys0]"],
      of "rs_store finished_system"], of "[]"]
  ultimately show ?thesis using finished_ready[of 1] by (simp del: One_nat_def) blast
qed

theorem sampled_groups_complete_witness:
  "\<exists>r. sample_loop al_ops remdups drop_buffer 1 ''train'' 1 [rs_store finished_system] = Inr (Some r)
     \<and> sr_selected r = [''u''] \<and> {k \<in> fst ` set (kb_items (sr_batch r)). uid_of_key k = ''u''} = {''u_0_0''}"
proof -
  let ?p = "''train''" and ?its = "kv_items al_ops ''train'' (rs_store finished_system)"
  have sync: "rb_parameter_sync_step drop_buffer \<noteq> 0" by (simp add: drop_buffer_def)
  have ok: "\<forall>s\<in>set ([] @ [rs_store finished_system]). store_ok al_ops s"
    using rinv_store_ok[OF al_laws rinv_reachable[OF al_laws remdups_order_ok sync finished_reachable empty_rinv[OF al_laws sys0_empty]]] by simp
  obtain r where r: "sample_loop al_ops remdups drop_buffer 1 ?p 1 [rs_store finished_system] = Inr (Some r)"
    "taken al_ops remdups drop_buffer 1 ?p 1 (rs_store finished_system) r"
    using loop_first_ready[OF al_laws remdups_order_ok sync ok _ finished_ready, where post = "[]"] by (simp del: One_nat_def) blast
  have sel: "sr_selected r = [''u'']"
    using r(2) unfolding taken_def Let_def finished_items
    by (simp add: chosen_def prompts_with_def prompt_tag_def task_status_def is_prompt_tag_def trajectory_tag_def)
  have "rs_tasks finished_system ''u'' = Some (new_task\<lparr>pt_started := True, pt_finished := True\<rparr>)"
    "rs_produced finished_system ''u'' = [''u_0_0'']"
    by (simp_all add: run_defs Let_def)
  moreover have "\<not> too_old drop_buffer 1 (trajectory_tag 1)"
    by (simp add: too_old_def drop_buffer_def age_def trajectory_tag_def)
  ultimately have "{k \<in> fst ` set (kb_items (sr_batch r)). uid_of_key k = ''u''} = {''u_0_0''}"
    using sampled_groups_complete[OF al_laws remdups_order_ok sync sys0_empty finished_reachable r(1)] sel
    by (simp add: new_task_def)
  with r sel show ?thesis by blast
qed

text \<open>
  A session that outlives the failure of its prompt can store a trajectory after the prompt was taken. No
  later step takes or clears it: it stays in the store for ever.
\<close>

definition orphan :: "'s kv_ops \<Rightarrow> string \<Rightarrow> string \<Rightarrow> 's rsys \<Rightarrow> bool" where
  "orphan ops p k sys \<longleftrightarrow> (\<exists>u\<in>set (rs_sampled sys). k \<in> set (rs_produced sys u)) \<and> k \<notin> set (rs_held sys)
     \<and> kv_view ops p (rs_store sys) k \<noteq> None"

lemma orphan_step:
  assumes laws: "kv_laws ops" and so: "order_ok so" and sync: "rb_parameter_sync_step rb \<noteq> 0"
    and "rstep ops so rb p sys sys'" "rinv ops p sys" "orphan ops p k sys"
  shows "orphan ops p k sys'"
  using assms(4-)
proof (induction rule: rstep.induct)
  case (sample g n sys r)
  note r = sample_taken[OF laws so sync sample.prems(1) sample.hyps]
  have h: "history_inv sys" and t: "tasks_inv (kv_view ops p (rs_store sys)) sys" using sample.prems(1) by (simp_all add: rinv_def)
  obtain u where u: "u \<in> set (rs_sampled sys)" "k \<in> set (rs_produced sys u)" using sample.prems(2) by (auto simp: orphan_def)
  have mine: "(k, tg) \<notin> set (of_prompts (sr_selected r) (kv_items ops p (rs_store sys)))" for tg
    using taken_trajectories[OF laws so sample.prems(1) r, of k tg] produced_key(2)[OF h t, of k]
      taken_from_system[OF laws so sample.prems(1) r, of u] u by auto
  have "k \<notin> set (sr_selected r)"
    using taken_from_system[OF laws so sample.prems(1) r, of k] produced_key(4)[OF h t u(2)] by auto
  moreover have "k \<notin> fst ` set (filter Q (of_prompts (sr_selected r) (kv_items ops p (rs_store sys))))" for Q
    using mine by force
  ultimately show ?case using sample.prems(2)
    by (auto simp: orphan_def take_batch_def taken_items[OF r] taken_view[OF r] simp del: set_filter)
next
  case (outputs sys u t session m)
  then obtain w where "w \<in> set (rs_sampled sys)" "k \<in> set (rs_produced sys w)" by (auto simp: orphan_def)
  then show ?case using outputs.prems(2)
    by (auto simp: orphan_def store_outputs_def Let_def kv_batch_put_view[OF laws] intro!: bexI[of _ w])
qed (auto simp: orphan_def register_batch_def start_prompt_def session_raises_def finish_prompt_def
    clear_batch_def kv_batch_put_view[OF laws] kv_put_view[OF laws] kv_clear_view[OF laws])

lemma orphan_forever:
  assumes "kv_laws ops" "order_ok so" "rb_parameter_sync_step rb \<noteq> 0" "(rstep ops so rb p)\<^sup>*\<^sup>* sys sys'" "rinv ops p sys" "orphan ops p k sys"
  shows "orphan ops p k sys'"
proof -
  from assms(4) have "rinv ops p sys' \<and> orphan ops p k sys'"
    by (induction rule: rtranclp_induct)
      (use assms(5,6) rinv_step[OF assms(1-3)] orphan_step[OF assms(1-3)] in \<open>blast+\<close>)
  then show ?thesis by simp
qed

lemma orphan_reachable:
  "\<exists>sys. (rstep al_ops remdups drop_buffer ''train'')\<^sup>*\<^sup>* sys0 sys \<and> orphan al_ops ''train'' ''u_1_0'' sys"
proof -
  let ?step = "rstep al_ops remdups drop_buffer ''train''"
  let ?t = "run_task [1]\<lparr>pt_failed := True\<rparr>"
  define s1 where "s1 = session_raises al_ops ''train'' ''u'' 0 (run_task [0, 1]) (started 2)"
  have sync: "rb_parameter_sync_step drop_buffer \<noteq> 0" by (simp add: drop_buffer_def)
  have two: "run_task [0..<2] = run_task [0, 1]" by (simp add: numeral_2_eq_2)
  have "?step (started 2) s1" unfolding s1_def
    by (rule rstep.raises) (simp_all only: started_task two, simp add: run_task_def)
  then have s1: "?step\<^sup>*\<^sup>* sys0 s1" using started_reachable[of remdups drop_buffer 2] by (meson rtranclp.rtrancl_into_rtrancl)
  have t1: "rs_tasks s1 ''u'' = Some ?t" by (simp add: s1_def session_raises_def run_task_def)
  have inv: "rinv al_ops ''train'' s1"
    by (rule rinv_reachable[OF al_laws remdups_order_ok sync s1 empty_rinv[OF al_laws sys0_empty]])
  have items: "kv_items al_ops ''train'' (rs_store s1) = [(''u'', prompt_tag ?t)]"
    by (simp add: al_items) (simp add: s1_def session_raises_def run_defs prompt_tag_def task_status_def d_set_def Let_def)
  have ready: "ready drop_buffer 1 1 (kv_items al_ops ''train'' (rs_store s1))"
    unfolding items by (simp add: ready_def drop_buffer_def prompts_with_def prompt_tag_def task_status_def is_prompt_tag_def run_task_def new_task_def)
  obtain r where r: "sample_loop al_ops remdups drop_buffer 1 ''train'' 1 [rs_store s1] = Inr (Some r)"
    "taken al_ops remdups drop_buffer 1 ''train'' 1 (rs_store s1) r"
    using loop_first_ready[OF al_laws remdups_order_ok sync _ _ ready, of "[]" "[]"] rinv_store_ok[OF al_laws inv]
    by (simp del: One_nat_def) blast
  have sel: "sr_selected r = [''u'']" using r(2) unfolding taken_def Let_def items
    by (simp add: chosen_def prompts_with_def prompt_tag_def task_status_def is_prompt_tag_def run_task_def new_task_def)
  let ?s2 = "take_batch r s1"
  let ?s3 = "store_outputs al_ops ''train'' ''u'' 1 1 ?t ?s2"
  have "?step s1 ?s2" by (rule rstep.sample[OF r(1)])
  moreover have "?step ?s2 ?s3"
    by (rule rstep.outputs) (simp_all add: take_batch_def t1 run_task_def)
  ultimately have reach: "?step\<^sup>*\<^sup>* sys0 ?s3" using s1 by (meson rtranclp.rtrancl_into_rtrancl)
  have key: "trajectory_key ''u'' 1 0 = ''u_1_0''" by (simp add: trajectory_key_def nat_text_01)
  have "rs_held ?s3 = []" using taken_items[OF r(2)] sel unfolding items
    by (simp add: store_outputs_def Let_def take_batch_def of_prompts_def trajectories_def)
  then have "orphan al_ops ''train'' ''u_1_0'' ?s3" using key
    by (auto simp: orphan_def store_outputs_def Let_def take_batch_def sel kv_batch_put_view[OF al_laws])
  with reach show ?thesis by blast
qed

end
