(* ===== verification/TdUtils.thy ===== *)
theory TdUtils
  imports DataProto
begin

text \<open>
  \<open>verl/utils/tensordict_utils.py\<close>: batches held in a TensorDict. An entry is a dense tensor (its rows), a nested
  tensor (its ragged dimension, whether it is contiguous, its components), a stack of non-tensor values (one per row) or
  one non-tensor value for the whole batch. What the libraries do with tensors is the parameter \<open>lib\<close>: shapes, padding,
  the first rows of a tensor, whether a nested tensor can be unbound, and the concatenation of single values.
  A dictionary is the list of its entries in insertion order, where the sets of keys the code
  iterates over are taken in that order too.
\<close>

section \<open>Entries\<close>

datatype ('a, 'b) td_val = Dense "'a list" | Nested nat bool "'a list" | Stack "'b list" | Scalar 'b

text \<open>
  The libraries: \<open>tl_padded r n x\<close> extends \<open>x\<close> with zeros to length \<open>n\<close> along its dimension \<open>r - 1\<close>, \<open>tl_prefix n x\<close> is
  \<open>x[:n]\<close>, and \<open>tl_unbinds r xs\<close> tells whether \<open>unbind\<close> of a nested tensor of ragged dimension \<open>r\<close> returns.
\<close>

record ('a, 'b) td_lib =
  tl_cat :: "'b list \<Rightarrow> ('a, 'b) td_val"
  tl_shape :: "'a \<Rightarrow> nat list"
  tl_padded :: "nat \<Rightarrow> nat \<Rightarrow> 'a \<Rightarrow> 'a"
  tl_prefix :: "nat \<Rightarrow> 'a \<Rightarrow> 'a"
  tl_unbinds :: "nat \<Rightarrow> 'a list \<Rightarrow> bool"

record ('a, 'b) tdict =
  td_bsz :: "nat option"
  td_vals :: "(string \<times> ('a, 'b) td_val) list"

fun val_len :: "('a, 'b) td_val \<Rightarrow> nat option" where
  "val_len (Dense xs) = Some (length xs)"
| "val_len (Nested r ct xs) = Some (length xs)"
| "val_len (Stack xs) = Some (length xs)"
| "val_len (Scalar x) = None"

fun is_nested :: "('a, 'b) td_val \<Rightarrow> bool" where
  "is_nested (Nested r ct xs) = True"
| "is_nested _ = False"

definition fits :: "nat option \<Rightarrow> ('a, 'b) td_val \<Rightarrow> bool" where
  "fits bsz v \<longleftrightarrow> (case (bsz, val_len v) of (Some n, Some m) \<Rightarrow> m = n | _ \<Rightarrow> True)"

text \<open>\<open>TensorDict(source, batch_size)\<close> and \<open>td[key] = v\<close> refuse entries of another length.\<close>

definition mk_tdict :: "(string \<times> ('a, 'b) td_val) list \<Rightarrow> nat option \<Rightarrow> ('a, 'b) tdict res" where
  "mk_tdict items bsz =
     (if \<forall>(k, v)\<in>set items. fits bsz v then Inr \<lparr>td_bsz = bsz, td_vals = items\<rparr>
      else Inl (RuntimeError ''batch dimension mismatch''))"

definition td_put :: "('a, 'b) tdict \<Rightarrow> string \<Rightarrow> ('a, 'b) td_val \<Rightarrow> ('a, 'b) tdict res" where
  "td_put d k v =
     (if fits (td_bsz d) v then Inr (d\<lparr>td_vals := d_set k v (td_vals d)\<rparr>)
      else Inl (RuntimeError ''batch dimension mismatch''))"

definition tdict_len :: "('a, 'b) tdict \<Rightarrow> nat" where
  "tdict_len d = the_default 0 (td_bsz d)"

section \<open>Nested tensors\<close>

text \<open>\<open>torch.cat\<close> along one dimension: the shapes agree in all other dimensions.\<close>

definition joinable :: "nat \<Rightarrow> nat list list \<Rightarrow> bool" where
  "joinable axis shapes \<longleftrightarrow> list_all (\<lambda>sh. length sh = length (hd shapes) \<and> sh[axis := 0] = (hd shapes)[axis := 0]) shapes"

definition nested_tensor_from_tensor_list ::
  "('a, 'b) td_lib \<Rightarrow> 'a list \<Rightarrow> nat option \<Rightarrow> ('a, 'b) td_val res" where
  "nested_tensor_from_tensor_list lib tensors ragged =
     (if tensors = [] then Inl (AssertionError ''Must provide at least one tensor'')
      else
        let sample_dim = length (tl_shape lib (hd tensors));
            ragged_idx = (case ragged of None \<Rightarrow> sample_dim | Some r \<Rightarrow> r)
        in if \<not> (1 \<le> ragged_idx \<and> ragged_idx \<le> sample_dim) then Inl (AssertionError ''ragged_idx must be in [1, sample_dim]'')
           else if sample_dim = 1 then
             (if joinable 0 (map (tl_shape lib) tensors) then Inr (Nested 1 True tensors)
              else Inl (RuntimeError ''as_nested_tensor: ragged dimension''))
           else if joinable (ragged_idx - 1) (map (tl_shape lib) tensors) then Inr (Nested ragged_idx True tensors)
           else Inl (RuntimeError ''Sizes of tensors must match except in one dimension''))"

definition unbind_nested :: "('a, 'b) td_lib \<Rightarrow> ('a, 'b) td_val \<Rightarrow> 'a list res" where
  "unbind_nested lib v =
     (case v of
        Nested r ct xs \<Rightarrow> if tl_unbinds lib r xs then Inr xs
          else Inl (RuntimeError ''split_with_sizes expects split_sizes to sum exactly'')
      | _ \<Rightarrow> Inl (TypeError ''not a nested tensor''))"

definition nested_dims :: "('a, 'b) td_lib \<Rightarrow> 'a list \<Rightarrow> nat" where
  "nested_dims lib xs = Suc (case xs of [] \<Rightarrow> 1 | x # _ \<Rightarrow> length (tl_shape lib x))"

text \<open>\<open>maybe_fix_3d_position_ids\<close>.\<close>

definition maybe_fix_3d_position_ids :: "('a, 'b) td_lib \<Rightarrow> ('a, 'b) tdict \<Rightarrow> ('a, 'b) tdict" where
  "maybe_fix_3d_position_ids lib d =
     (case map_of (td_vals d) ''position_ids'' of
        Some (Nested r ct xs) \<Rightarrow>
          if nested_dims lib xs = 3 then d\<lparr>td_vals := d_set ''position_ids'' (Nested 2 ct xs) (td_vals d)\<rparr> else d
      | _ \<Rightarrow> d)"

section \<open>Non-tensor entries\<close>

definition assign_non_tensor_data :: "('a, 'b) tdict \<Rightarrow> string \<Rightarrow> 'b \<Rightarrow> ('a, 'b) tdict res" where
  "assign_non_tensor_data d key val = td_put d key (Scalar val)"

definition assign_non_tensor_stack :: "('a, 'b) tdict \<Rightarrow> string \<Rightarrow> 'b list \<Rightarrow> ('a, 'b) tdict res" where
  "assign_non_tensor_stack d key vals = td_put d key (Stack vals)"

datatype ('a, 'b) setting = AsIs "('a, 'b) td_val" | AsList "'b list" | AsData 'b

fun assign_non_tensor :: "('a, 'b) tdict \<Rightarrow> (string \<times> ('a, 'b) setting) list \<Rightarrow> ('a, 'b) tdict res" where
  "assign_non_tensor d [] = Inr d"
| "assign_non_tensor d ((key, val) # kvs) =
     bind_res (case val of AsIs v \<Rightarrow> td_put d key v | AsList xs \<Rightarrow> assign_non_tensor_stack d key xs
               | AsData x \<Rightarrow> assign_non_tensor_data d key x) (\<lambda>d'. assign_non_tensor d' kvs)"

text \<open>What the readers return: a tensor or stack as it is, a list, or a plain value.\<close>

datatype ('a, 'b) fetched = FVal "('a, 'b) td_val" | FList "'b list" | FData 'b

definition unwrap_non_tensor_data :: "('a, 'b) td_val \<Rightarrow> ('a, 'b) fetched" where
  "unwrap_non_tensor_data v = (case v of Scalar x \<Rightarrow> FData x | _ \<Rightarrow> FVal v)"

definition get_non_tensor_data :: "('a, 'b) tdict \<Rightarrow> string \<Rightarrow> 'b \<Rightarrow> ('a, 'b) fetched" where
  "get_non_tensor_data d key dflt =
     (case map_of (td_vals d) key of None \<Rightarrow> FData dflt | Some v \<Rightarrow> unwrap_non_tensor_data v)"

definition fetch_val :: "('a, 'b) td_val \<Rightarrow> ('a, 'b) fetched" where
  "fetch_val v = (case v of Scalar x \<Rightarrow> FData x | Stack xs \<Rightarrow> FList xs | _ \<Rightarrow> FVal v)"

definition td_get :: "('a, 'b) tdict \<Rightarrow> string \<Rightarrow> 'b \<Rightarrow> ('a, 'b) fetched" where
  "td_get d key dflt = (case map_of (td_vals d) key of None \<Rightarrow> FData dflt | Some v \<Rightarrow> fetch_val v)"

definition td_pop :: "('a, 'b) tdict \<Rightarrow> string \<Rightarrow> 'b \<Rightarrow> ('a, 'b) fetched \<times> ('a, 'b) tdict" where
  "td_pop d key dflt =
     (case map_of (td_vals d) key of
        None \<Rightarrow> (FData dflt, d)
      | Some v \<Rightarrow> (fetch_val v, d\<lparr>td_vals := filter (\<lambda>(k, _). k \<noteq> key) (td_vals d)\<rparr>))"

section \<open>Construction\<close>

datatype ('a, 'b) source = SVal "('a, 'b) td_val" | SList "'b list"

text \<open>The loop of \<open>get_tensordict\<close>; lists and arrays hold no tensors, which the type says.\<close>

fun source_items ::
  "nat option \<Rightarrow> (string \<times> ('a, 'b) source) list \<Rightarrow> (nat option \<times> (string \<times> ('a, 'b) td_val) list) res" where
  "source_items bsz [] = Inr (bsz, [])"
| "source_items bsz ((key, src) # rest) =
     (let v = (case src of SVal v \<Rightarrow> v | SList xs \<Rightarrow> Stack xs)
      in case val_len v of
           None \<Rightarrow> Inl (AssertionError ''value is not a tensor, list or array'')
         | Some n \<Rightarrow>
             if bsz = None \<or> bsz = Some n
             then bind_res (source_items (Some n) rest) (\<lambda>(b, items). Inr (b, (key, v) # items))
             else Inl (AssertionError ''batch size is not consistent with other tensors''))"

definition get_tensordict ::
  "(string \<times> ('a, 'b) source) list \<Rightarrow> (string \<times> 'b) list \<Rightarrow> ('a, 'b) tdict res" where
  "get_tensordict tensors non_tensors =
     bind_res (source_items None tensors) (\<lambda>(bsz, items).
       if \<exists>(k, x)\<in>set non_tensors. k \<in> fst ` set items then Inl (AssertionError ''key not in tensor_dict'')
       else mk_tdict (items @ map (\<lambda>(k, x). (k, Scalar x)) non_tensors) bsz)"

definition contiguous_td :: "('a, 'b) tdict \<Rightarrow> ('a, 'b) tdict res" where
  "contiguous_td d =
     get_tensordict (concat (map (\<lambda>(k, v). case v of Scalar x \<Rightarrow> [] | Nested r ct xs \<Rightarrow> [(k, SVal (Nested r True xs))]
         | _ \<Rightarrow> [(k, SVal v)]) (td_vals d)))
       (concat (map (\<lambda>(k, v). case v of Scalar x \<Rightarrow> [(k, x)] | _ \<Rightarrow> []) (td_vals d)))"

text \<open>\<open>get_keys\<close> and \<open>pop_keys\<close>.\<close>

definition keyed_vals :: "('a, 'b) tdict \<Rightarrow> string list \<Rightarrow> (string \<times> ('a, 'b) td_val) list res" where
  "keyed_vals d keys =
     map_res (\<lambda>k. case map_of (td_vals d) k of None \<Rightarrow> Inl (KeyError k) | Some v \<Rightarrow> Inr (k, v)) keys"

definition get_keys :: "('a, 'b) tdict \<Rightarrow> string list \<Rightarrow> ('a, 'b) tdict res" where
  "get_keys d keys =
     bind_res (keyed_vals d keys) (\<lambda>kvs.
       get_tensordict (fold (\<lambda>(k, v) m. case v of Scalar x \<Rightarrow> m | Stack xs \<Rightarrow> d_set k (SList xs) m | _ \<Rightarrow> d_set k (SVal v) m) kvs [])
         (fold (\<lambda>(k, v) m. case v of Scalar x \<Rightarrow> d_set k x m | _ \<Rightarrow> m) kvs []))"

fun pop_each :: "('a, 'b) tdict \<Rightarrow> string list \<Rightarrow> ((string \<times> ('a, 'b) td_val) list \<times> ('a, 'b) tdict) res" where
  "pop_each d [] = Inr ([], d)"
| "pop_each d (key # keys) =
     (case map_of (td_vals d) key of
        None \<Rightarrow> Inl (KeyError key)
      | Some v \<Rightarrow> bind_res (pop_each (d\<lparr>td_vals := filter (\<lambda>(k, _). k \<noteq> key) (td_vals d)\<rparr>) keys) (\<lambda>(kvs, d'). Inr ((key, v) # kvs, d')))"

definition td_pop_keys :: "('a, 'b) tdict \<Rightarrow> string list \<Rightarrow> (('a, 'b) tdict \<times> ('a, 'b) tdict) res" where
  "td_pop_keys d keys =
     bind_res (pop_each d keys) (\<lambda>(kvs, d').
     bind_res (get_tensordict (concat (map (\<lambda>(k, v). case v of Scalar x \<Rightarrow> [] | Stack xs \<Rightarrow> [(k, SList xs)] | _ \<Rightarrow> [(k, SVal v)]) kvs))
         (concat (map (\<lambda>(k, v). case v of Scalar x \<Rightarrow> [(k, x)] | _ \<Rightarrow> []) kvs))) (\<lambda>out. Inr (out, d')))"

section \<open>Rows\<close>

text \<open>\<open>index_select_tensor_dict\<close>; indices may be negative.\<close>

definition select_val :: "('a, 'b) td_lib \<Rightarrow> int list \<Rightarrow> ('a, 'b) td_val \<Rightarrow> ('a, 'b) td_val res" where
  "select_val lib is v =
     (case v of
        Dense xs \<Rightarrow> bind_res (map_res (\<lambda>i. get_row i xs) is) (\<lambda>ys. Inr (Dense ys))
      | Nested r ct xs \<Rightarrow> bind_res (unbind_nested lib v) (\<lambda>ts. bind_res (map_res (\<lambda>i. get_row i ts) is) (\<lambda>ys.
          nested_tensor_from_tensor_list lib ys (Some r)))
      | Stack xs \<Rightarrow> bind_res (map_res (\<lambda>i. get_row i xs) is) (\<lambda>ys. Inr (Stack ys))
      | Scalar x \<Rightarrow> Inr (Scalar x))"

definition index_select_tensor_dict ::
  "('a, 'b) td_lib \<Rightarrow> ('a, 'b) tdict option \<Rightarrow> int list \<Rightarrow> ('a, 'b) tdict option res" where
  "index_select_tensor_dict lib batch is =
     (case batch of
        None \<Rightarrow> Inr None
      | Some d \<Rightarrow> bind_res (map_res (\<lambda>(k, v). bind_res (select_val lib is v) (\<lambda>w. Inr (k, w))) (td_vals d)) (\<lambda>items.
          bind_res (mk_tdict items (Some (length is))) (\<lambda>e. Inr (Some e))))"

text \<open>\<open>union_tensor_dict\<close> changes its first argument; keys in both must hold equal entries.\<close>

fun union_vals :: "(string \<times> ('a, 'b) td_val) list \<Rightarrow> ('a, 'b) tdict \<Rightarrow> ('a, 'b) tdict res" where
  "union_vals [] d = Inr d"
| "union_vals ((k, v) # kvs) d =
     (case map_of (td_vals d) k of
        None \<Rightarrow> union_vals kvs (d\<lparr>td_vals := td_vals d @ [(k, v)]\<rparr>)
      | Some w \<Rightarrow> if w = v then union_vals kvs d
                  else Inl (AssertionError ''key in tensor_dict1 and tensor_dict2 are not the same object''))"

definition union_tdict :: "('a, 'b) tdict \<Rightarrow> ('a, 'b) tdict \<Rightarrow> ('a, 'b) tdict res" where
  "union_tdict d1 d2 =
     (if td_bsz d1 \<noteq> td_bsz d2 then Inl (AssertionError ''Two tensor dict must have identical batch size'')
      else union_vals (td_vals d2) d1)"

fun same_entry :: "('a, 'b) td_lib \<Rightarrow> ('a, 'b) td_val \<Rightarrow> ('a, 'b) td_val \<Rightarrow> unit res" where
  "same_entry lib (Nested r ct xs) (Nested r' ct' ys) =
     bind_res (unbind_nested lib (Nested r ct xs)) (\<lambda>t1. bind_res (unbind_nested lib (Nested r' ct' ys)) (\<lambda>t2.
       if t1 = t2 then Inr () else Inl (AssertionError ''Nested tensor components have different values'')))"
| "same_entry lib v w = (if v = w then Inr () else Inl (AssertionError ''values differ''))"

definition tensordict_eq :: "('a, 'b) td_lib \<Rightarrow> ('a, 'b) tdict \<Rightarrow> ('a, 'b) tdict \<Rightarrow> unit res" where
  "tensordict_eq lib d1 d2 =
     (if fst ` set (td_vals d1) \<noteq> fst ` set (td_vals d2) then Inl (AssertionError ''key set diffs'')
      else bind_res (map_res (\<lambda>(k, v). same_entry lib v (the_default v (map_of (td_vals d2) k))) (td_vals d1)) (\<lambda>_. Inr ()))"

text \<open>\<open>make_iterator\<close>: for each epoch the batches of the sampler's order of the rows, a parameter.\<close>

definition td_iterator :: "('a, 'b) td_lib \<Rightarrow> ('a, 'b) tdict \<Rightarrow> nat \<Rightarrow> int list list \<Rightarrow> ('a, 'b) tdict list res" where
  "td_iterator lib d mini_batch_size orders =
     (if mini_batch_size = 0 then Inl ZeroDivisionError
      else if tdict_len d mod mini_batch_size \<noteq> 0 then Inl (AssertionError ''batch size is not a multiple'')
      else map_res (\<lambda>is. bind_res (index_select_tensor_dict lib (Some d) is) (\<lambda>r. Inr (the_default d r)))
             (concat (map (chunks_of mini_batch_size) orders)))"

section \<open>Concatenation and chunks\<close>

fun contiguous_nested :: "('a, 'b) td_val \<Rightarrow> bool" where
  "contiguous_nested (Nested r ct xs) = ct"
| "contiguous_nested v = False"

definition unbind_checked :: "('a, 'b) td_lib \<Rightarrow> ('a, 'b) td_val \<Rightarrow> 'a list res" where
  "unbind_checked lib v =
     (case v of
        Nested r ct xs \<Rightarrow> if nested_dims lib xs < 2 then Inl (AssertionError ''nested tensor must have 2 or more dimensions'')
          else unbind_nested lib v
      | _ \<Rightarrow> unbind_nested lib v)"

definition concat_nested_tensors :: "('a, 'b) td_lib \<Rightarrow> ('a, 'b) td_val list \<Rightarrow> ('a, 'b) td_val res" where
  "concat_nested_tensors lib vs =
     (if \<not> list_all contiguous_nested vs then Inl (AssertionError ''tensor.is_nested and tensor.is_contiguous()'')
      else bind_res (map_res (unbind_checked lib) vs) (\<lambda>xss.
        case vs of
          Nested r ct xs # _ \<Rightarrow> nested_tensor_from_tensor_list lib (concat xss) (Some r)
        | _ \<Rightarrow> Inl IndexError))"

fun dense_rows :: "('a, 'b) td_val \<Rightarrow> 'a list option" where
  "dense_rows (Dense xs) = Some xs"
| "dense_rows _ = None"

fun stacked_rows :: "('a, 'b) td_val \<Rightarrow> 'b list option" where
  "stacked_rows (Stack xs) = Some xs"
| "stacked_rows _ = None"

fun scalar_of :: "('a, 'b) td_val \<Rightarrow> 'b option" where
  "scalar_of (Scalar x) = Some x"
| "scalar_of _ = None"

definition cat_entry :: "('a, 'b) td_lib \<Rightarrow> ('a, 'b) td_val list \<Rightarrow> ('a, 'b) td_val res" where
  "cat_entry lib vs =
     (if list_all (\<lambda>v. dense_rows v \<noteq> None) vs then Inr (Dense (concat (List.map_filter dense_rows vs)))
      else if list_all (\<lambda>v. stacked_rows v \<noteq> None) vs then Inr (Stack (concat (List.map_filter stacked_rows vs)))
      else if list_all (\<lambda>v. scalar_of v \<noteq> None) vs then Inr (tl_cat lib (List.map_filter scalar_of vs))
      else Inl (RuntimeError ''entries of different kinds''))"

text \<open>\<open>TensorDict.cat(data, dim=0)\<close> of entries that are not nested.\<close>

definition td_cat_regular :: "('a, 'b) td_lib \<Rightarrow> ('a, 'b) tdict list \<Rightarrow> ('a, 'b) tdict res" where
  "td_cat_regular lib ds =
     (case ds of
        [] \<Rightarrow> Inl (RuntimeError ''expected a non-empty list of tensordicts'')
      | d0 # _ \<Rightarrow>
          if list_all (\<lambda>d. fst ` set (td_vals d) = fst ` set (td_vals d0)) ds then
            bind_res (map_res (\<lambda>(k, v). bind_res (cat_entry lib (map (\<lambda>d. the_default v (map_of (td_vals d) k)) ds)) (\<lambda>w. Inr (k, w)))
              (td_vals d0)) (\<lambda>items. mk_tdict items (Some (sum_list (map tdict_len ds))))
          else Inl (KeyError ''the sets of keys in the tensordicts differ''))"

definition regular_part :: "('a, 'b) tdict \<Rightarrow> ('a, 'b) tdict" where
  "regular_part d = d\<lparr>td_vals := filter (\<lambda>(k, v). \<not> is_nested v) (td_vals d)\<rparr>"

definition nested_keys :: "('a, 'b) tdict \<Rightarrow> string list" where
  "nested_keys d = map fst (filter (\<lambda>(k, v). is_nested v) (td_vals d))"

definition concat_tensordict :: "('a, 'b) td_lib \<Rightarrow> ('a, 'b) tdict list \<Rightarrow> ('a, 'b) tdict res" where
  "concat_tensordict lib ds =
     (case ds of
        [] \<Rightarrow> Inl (AssertionError ''Must have at least one tensordict'')
      | d0 # _ \<Rightarrow>
          if nested_keys d0 = [] then
            (if td_bsz d0 = None then
               (if list_all (\<lambda>d. td_bsz d = None) ds then Inr d0 else Inl (AssertionError ''len(d.batch_size) == 0''))
             else td_cat_regular lib ds)
          else if \<not> list_all (\<lambda>d. set (nested_keys d) = set (nested_keys d0)) ds
          then Inl (AssertionError ''All tensordicts must have the same set of nested tensors.'')
          else bind_res (td_cat_regular lib (map regular_part ds)) (\<lambda>out.
            fold_res (\<lambda>o' key. bind_res (concat_nested_tensors lib (map (\<lambda>d. the_default (Nested 1 True []) (map_of (td_vals d) key)) ds))
              (td_put o' key)) out (nested_keys d0)))"

text \<open>\<open>TensorDict.chunk\<close> of entries that are not nested.\<close>

definition chunk_val :: "nat \<Rightarrow> nat \<Rightarrow> ('a, 'b) td_val \<Rightarrow> ('a, 'b) td_val" where
  "chunk_val c i v =
     (case v of
        Dense xs \<Rightarrow> Dense (take c (drop (i * c) xs))
      | Stack xs \<Rightarrow> Stack (take c (drop (i * c) xs))
      | _ \<Rightarrow> v)"

text \<open>
  The fallback for a nested tensor that cannot be unbound: padded to one size, split into \<open>k\<close> chunks, and in the chunk
  every component cut to its ragged length along its first dimension.
\<close>

definition padded_chunk :: "('a, 'b) td_lib \<Rightarrow> nat \<Rightarrow> nat \<Rightarrow> nat \<Rightarrow> nat \<Rightarrow> 'a list \<Rightarrow> 'a list" where
  "padded_chunk lib k c i r xs =
     (let lengths = map (\<lambda>x. tl_shape lib x ! (r - 1)) xs;
          padded = map (tl_padded lib r (Max (set lengths))) xs;
          padded_chunks = chunks_of ((length padded + k - 1) div k) padded;
          chunk_lengths = take c (drop (i * c) lengths)
      in map (\<lambda>(j, seq_len). tl_prefix lib seq_len (padded_chunks ! i ! j)) (enumerate 0 chunk_lengths))"

definition chunk_nested :: "('a, 'b) td_lib \<Rightarrow> nat \<Rightarrow> nat \<Rightarrow> nat \<Rightarrow> ('a, 'b) td_val \<Rightarrow> ('a, 'b) td_val res" where
  "chunk_nested lib k c i v =
     (case v of
        Nested r ct xs \<Rightarrow>
          nested_tensor_from_tensor_list lib
            (if tl_unbinds lib r xs then take c (drop (i * c) xs) else padded_chunk lib k c i r xs) (Some r)
      | _ \<Rightarrow> Inr v)"

text \<open>\<open>chunk_tensordict\<close>: the chunks of the regular entries, to which the nested entries are added key by key.\<close>

definition chunk_tensordict :: "('a, 'b) td_lib \<Rightarrow> ('a, 'b) tdict \<Rightarrow> nat \<Rightarrow> ('a, 'b) tdict list res" where
  "chunk_tensordict lib d k =
     (if k = 0 then Inl ZeroDivisionError
      else if tdict_len d mod k \<noteq> 0 then Inl (AssertionError ''expecting td with length divisible by chunks'')
      else if tdict_len d = 0 then Inl (RuntimeError ''split_size must be positive'')
      else let c = tdict_len d div k;
               tds = map (\<lambda>i. \<lparr>td_bsz = Some c, td_vals = map_values (chunk_val c i) (td_vals (regular_part d))\<rparr>) [0..<k]
        in fold_res (\<lambda>tds (key, v). map_res (\<lambda>(i, t). bind_res (chunk_nested lib k c i v) (td_put t key)) (enumerate 0 tds))
             tds (filter (\<lambda>(key, v). is_nested v) (td_vals d)))"

section \<open>Padding, lists of dictionaries\<close>

definition slice_val :: "int option \<Rightarrow> int option \<Rightarrow> ('a, 'b) td_val \<Rightarrow> ('a, 'b) td_val" where
  "slice_val a b v =
     (case v of
        Dense xs \<Rightarrow> Dense (take_idx (slice_indices (length xs) a b 1) xs)
      | Nested r ct xs \<Rightarrow> Nested r ct (take_idx (slice_indices (length xs) a b 1) xs)
      | Stack xs \<Rightarrow> Stack (take_idx (slice_indices (length xs) a b 1) xs)
      | Scalar x \<Rightarrow> Scalar x)"

definition td_slice :: "('a, 'b) tdict \<Rightarrow> int option \<Rightarrow> int option \<Rightarrow> ('a, 'b) tdict" where
  "td_slice d a b = \<lparr>td_bsz = map_option (\<lambda>n. length (slice_indices n a b 1)) (td_bsz d),
     td_vals = map_values (slice_val a b) (td_vals d)\<rparr>"

definition td_pad_to_divisor ::
  "('a, 'b) td_lib \<Rightarrow> ('a, 'b) tdict \<Rightarrow> nat \<Rightarrow> (('a, 'b) tdict \<times> nat) res" where
  "td_pad_to_divisor lib d size_divisor =
     (if size_divisor = 0 then Inl ZeroDivisionError
      else if tdict_len d mod size_divisor \<noteq> 0 then
        let pad_size = size_divisor - tdict_len d mod size_divisor
        in bind_res (td_cat_regular lib (d # map (\<lambda>t. td_slice d None (Some (int t))) (pad_takes pad_size (tdict_len d))))
             (\<lambda>p. Inr (p, pad_size))
      else Inr (d, 0))"

definition td_unpad :: "('a, 'b) tdict \<Rightarrow> nat \<Rightarrow> ('a, 'b) tdict" where
  "td_unpad d pad_size = (if pad_size \<noteq> 0 then td_slice d None (Some (- int pad_size)) else d)"

text \<open>
  \<open>list_of_dict_to_tensordict\<close>: a column of tensors of one shape is stacked, of several shapes nested, any
  other column is a stack of its values.
\<close>

datatype ('a, 'b) cell_val = CTensor 'a | CData 'b

fun cell_tensor :: "('a, 'b) cell_val \<Rightarrow> 'a option" where
  "cell_tensor (CTensor x) = Some x"
| "cell_tensor (CData y) = None"

definition column_of :: "('a, ('a, 'b) cell_val) td_lib \<Rightarrow> ('a, 'b) cell_val list \<Rightarrow> ('a, ('a, 'b) cell_val) td_val res" where
  "column_of lib cells =
     (let tensors = List.map_filter cell_tensor cells; shapes = map (tl_shape lib) tensors
      in if cells \<noteq> [] \<and> list_all (\<lambda>c. cell_tensor c \<noteq> None) cells
         then (if \<forall>sh\<in>set shapes. sh = hd shapes then Inr (Dense tensors)
               else if joinable 0 shapes then Inr (Nested 1 True tensors)
               else Inl (RuntimeError ''as_nested_tensor: ragged dimension''))
         else Inr (Stack cells))"

definition list_of_dict_to_tensordict ::
  "('a, ('a, 'b) cell_val) td_lib \<Rightarrow> (string \<times> ('a, 'b) cell_val) list list \<Rightarrow> ('a, ('a, 'b) cell_val) tdict res" where
  "list_of_dict_to_tensordict lib rows =
     (case rows of
        [] \<Rightarrow> Inl (AssertionError ''len(list_of_dicts) > 0'')
      | r0 # _ \<Rightarrow>
          bind_res (map_res (\<lambda>k. bind_res (map_res (\<lambda>d. case map_of d k of None \<Rightarrow> Inl (KeyError k) | Some c \<Rightarrow> Inr c) rows)
            (\<lambda>cells. bind_res (column_of lib cells) (\<lambda>v. Inr (k, v)))) (map fst r0)) (\<lambda>items. mk_tdict items (Some (length rows))))"


section \<open>Taking rows\<close>

definition val_take :: "nat list \<Rightarrow> ('a, 'b) td_val \<Rightarrow> ('a, 'b) td_val" where
  "val_take is v = (case v of Dense xs \<Rightarrow> Dense (take_idx is xs) | Nested r ct xs \<Rightarrow> Nested r ct (take_idx is xs)
     | Stack xs \<Rightarrow> Stack (take_idx is xs) | Scalar x \<Rightarrow> Scalar x)"

definition td_take :: "nat list \<Rightarrow> ('a, 'b) tdict \<Rightarrow> ('a, 'b) tdict" where
  "td_take is d = \<lparr>td_bsz = Some (length is), td_vals = map_values (val_take is) (td_vals d)\<rparr>"

text \<open>A nested tensor as the constructors build it: the components agree in all dimensions but the ragged one.\<close>

definition nested_ok :: "('a, 'b) td_lib \<Rightarrow> ('a, 'b) td_val \<Rightarrow> bool" where
  "nested_ok lib v =
     (case v of
        Nested r ct xs \<Rightarrow> 1 \<le> r \<and> list_all (\<lambda>x. r \<le> length (tl_shape lib x)) xs \<and> joinable (r - 1) (map (tl_shape lib) xs)
      | _ \<Rightarrow> True)"

definition td_wf :: "('a, 'b) td_lib \<Rightarrow> nat \<Rightarrow> ('a, 'b) tdict \<Rightarrow> bool" where
  "td_wf lib n d \<longleftrightarrow> td_bsz d = Some n \<and> distinct (map fst (td_vals d))
     \<and> (\<forall>(k, v)\<in>set (td_vals d). fits (Some n) v \<and> nested_ok lib v)"

text \<open>
  What the code relies on in the libraries: equal single values concatenate to one of them, a tensor padded along its
  first dimension starts with the tensor, and a nested tensor of one-dimensional components can be unbound.
\<close>

definition td_laws :: "('a, 'b) td_lib \<Rightarrow> bool" where
  "td_laws lib \<longleftrightarrow>
     (\<forall>m x. m \<noteq> 0 \<longrightarrow> tl_cat lib (replicate m x) = Scalar x)
     \<and> (\<forall>x n. tl_shape lib x \<noteq> [] \<longrightarrow> tl_shape lib x ! 0 \<le> n \<longrightarrow> tl_prefix lib (tl_shape lib x ! 0) (tl_padded lib 1 n x) = x)
     \<and> (\<forall>r xs. list_all (\<lambda>x. length (tl_shape lib x) = 1) xs \<longrightarrow> tl_unbinds lib r xs)"

text \<open>The nested entries of a batch can be unbound, or at least have their first dimension ragged.\<close>

definition splittable :: "('a, 'b) td_lib \<Rightarrow> ('a, 'b) td_val \<Rightarrow> bool" where
  "splittable lib v = (case v of Nested r ct xs \<Rightarrow> tl_unbinds lib r xs \<or> r = 1 | _ \<Rightarrow> True)"

definition unbindable :: "('a, 'b) td_lib \<Rightarrow> ('a, 'b) td_val \<Rightarrow> bool" where
  "unbindable lib v = (case v of Nested r ct xs \<Rightarrow> tl_unbinds lib r xs | _ \<Rightarrow> True)"

text \<open>The entry built anew: nested tensors are contiguous.\<close>

definition rebuilt :: "('a, 'b) td_val \<Rightarrow> ('a, 'b) td_val" where
  "rebuilt v = (case v of Nested r ct xs \<Rightarrow> Nested r True xs | _ \<Rightarrow> v)"

definition arranged :: "('a, 'b) tdict \<Rightarrow> (string \<times> ('a, 'b) td_val) list" where
  "arranged d = td_vals (regular_part d) @ filter (\<lambda>(k, v). is_nested v) (td_vals d)"

lemma is_nested_take [simp]: "is_nested (val_take is v) = is_nested v" "is_nested (rebuilt v) = is_nested v"
  by (cases v; simp add: val_take_def rebuilt_def)+

lemma fits_take [simp]: "fits (Some (length is)) (val_take is v)" "fits bsz (rebuilt v) = fits bsz v"
  by (cases v; simp add: fits_def val_take_def rebuilt_def)+

lemma rebuilt_regular: "\<not> is_nested v \<Longrightarrow> rebuilt v = v"
  by (cases v) (simp_all add: rebuilt_def)

lemma nested_ok_rebuilt [simp]: "nested_ok lib (rebuilt v) = nested_ok lib v"
  by (cases v) (simp_all add: nested_ok_def rebuilt_def)

lemma map_filter_Some: "(\<And>x. x \<in> set xs \<Longrightarrow> f x = Some (g x)) \<Longrightarrow> List.map_filter f xs = map g xs"
  by (induction xs) (simp_all add: List.map_filter_simps)

lemma cat_entry_takes:
  assumes "td_laws lib" "iss \<noteq> []" "\<not> is_nested v"
  shows "cat_entry lib (map (\<lambda>is. val_take is v) iss) = Inr (val_take (concat iss) v)"
proof (cases v)
  case (Dense xs)
  then have "List.map_filter dense_rows (map (\<lambda>is. val_take is v) iss) = map (\<lambda>is. take_idx is xs) iss"
    by (simp add: List.map_filter_def o_def val_take_def)
  then show ?thesis using Dense by (simp add: cat_entry_def val_take_def list_all_iff take_idx_concat)
next
  case (Stack xs)
  then have "List.map_filter stacked_rows (map (\<lambda>is. val_take is v) iss) = map (\<lambda>is. take_idx is xs) iss"
    by (simp add: List.map_filter_def o_def val_take_def)
  moreover have "\<exists>i. i \<in> set iss" using assms(2) by (cases iss) auto
  ultimately show ?thesis using Stack by (simp add: cat_entry_def val_take_def list_all_iff take_idx_concat)
next
  case (Scalar x)
  then have "List.map_filter scalar_of (map (\<lambda>is. val_take is v) iss) = replicate (length iss) x"
    by (simp add: List.map_filter_def o_def val_take_def map_replicate_const)
  moreover have "\<exists>i. i \<in> set iss" using assms(2) by (cases iss) auto
  moreover have "tl_cat lib (replicate (length iss) x) = Scalar x" using assms(1,2) unfolding td_laws_def by blast
  ultimately show ?thesis using Scalar by (simp add: cat_entry_def val_take_def list_all_iff)
qed (use assms(3) in simp)

lemma mk_tdict_take:
  "mk_tdict (map_values (val_take is) c) (Some (length is)) = Inr \<lparr>td_bsz = Some (length is), td_vals = map_values (val_take is) c\<rparr>"
  by (auto simp: mk_tdict_def set_map_values)

lemma tdict_len_take [simp]: "tdict_len (td_take is d) = length is"
  by (simp add: tdict_len_def td_take_def)

lemma td_cat_regular_takes:
  assumes lib: "td_laws lib" and iss: "iss \<noteq> []" and d: "distinct (map fst (td_vals d))"
    and reg: "\<And>k v. (k, v) \<in> set (td_vals d) \<Longrightarrow> \<not> is_nested v"
  shows "td_cat_regular lib (map (\<lambda>is. td_take is d) iss) = Inr (td_take (concat iss) d)"
proof -
  obtain i rest where i: "iss = i # rest" using iss by (cases iss) auto
  have entry: "bind_res (cat_entry lib (map (\<lambda>d. the_default (val_take i v) (map_of (td_vals d) k)) (map (\<lambda>is. td_take is d) iss))) (\<lambda>w. Inr (k, w))
      = Inr (k, val_take (concat iss) v)" if "(k, v) \<in> set (td_vals d)" for k v
  proof -
    have "map_of (td_vals d) k = Some v" using d that by simp
    then have "map (\<lambda>d. the_default (val_take i v) (map_of (td_vals d) k)) (map (\<lambda>is. td_take is d) iss) = map (\<lambda>is. val_take is v) iss"
      by (simp add: td_take_def)
    then show ?thesis using cat_entry_takes[OF lib iss reg[OF that]] by (simp only: bind_res_simps)
  qed
  have items: "map_res (\<lambda>(k, v). bind_res (cat_entry lib (map (\<lambda>d. the_default v (map_of (td_vals d) k)) (map (\<lambda>is. td_take is d) iss))) (\<lambda>w. Inr (k, w)))
      (td_vals (td_take i d)) = Inr (map_values (val_take (concat iss)) (td_vals d))"
    unfolding td_take_def tdict.simps map_values_def map_res_map using entry
    by (auto simp: td_take_def map_values_def case_prod_beta' intro!: map_res_pure)
  have "sum_list (map tdict_len (map (\<lambda>is. td_take is d) iss)) = length (concat iss)"
    by (simp add: o_def length_concat)
  moreover have "list_all (\<lambda>e. fst ` set (td_vals e) = fst ` set (td_vals (td_take i d))) (map (\<lambda>is. td_take is d) iss)"
    by (auto simp: list_all_iff td_take_def set_map_values image_image case_prod_beta')
  ultimately show ?thesis
    using items mk_tdict_take[of "concat iss" "td_vals d"] unfolding td_cat_regular_def i
    by (simp add: td_take_def)
qed

lemma take_idx_sub: "set is \<subseteq> {..<length xs} \<Longrightarrow> set (take_idx is xs) \<subseteq> set xs"
  by (auto simp: take_idx_def)

lemma joinable_sub:
  assumes "joinable a (map f xs)" "set ys \<subseteq> set xs" shows "joinable a (map f ys)"
proof -
  have "length (f y) = length (f (hd xs)) \<and> (f y)[a := 0] = (f (hd xs))[a := 0]" if "y \<in> set xs" for y
    using assms(1) that by (cases xs) (auto simp: joinable_def list_all_iff)
  with assms(2) have "\<forall>y \<in> set ys. length (f y) = length (f (hd xs)) \<and> (f y)[a := 0] = (f (hd xs))[a := 0]" by blast
  then show ?thesis by (cases ys) (auto simp: joinable_def list_all_iff)
qed

text \<open>A non-empty selection of the components of a well formed nested tensor is built without an error.\<close>

lemma nested_from_sub:
  assumes ok: "nested_ok lib (Nested r ct xs)" and ys: "ys \<noteq> []" "set ys \<subseteq> set xs"
  shows "nested_tensor_from_tensor_list lib ys (Some r) = Inr (Nested r True ys)"
proof -
  have j: "joinable (r - 1) (map (tl_shape lib) ys)" using ok ys(2) joinable_sub by (auto simp: nested_ok_def)
  have "hd ys \<in> set xs" using ys by auto
  then have "1 \<le> r" "r \<le> length (tl_shape lib (hd ys))" using ok by (auto simp: nested_ok_def list_all_iff)
  with j ys(1) show ?thesis by (cases "length (tl_shape lib (hd ys)) = 1") (auto simp: nested_tensor_from_tensor_list_def Let_def)
qed

lemma take_nonempty: "is \<noteq> [] \<Longrightarrow> take_idx is xs \<noteq> []"
  by (simp add: take_idx_def)

lemma dims_take:
  assumes "nested_ok lib (Nested r ct xs)" "set is \<subseteq> {..<length xs}" shows "2 \<le> nested_dims lib (take_idx is xs)"
proof (cases "take_idx is xs")
  case (Cons y ys)
  then have "y \<in> set xs" using take_idx_sub[OF assms(2)] by auto
  then have "1 \<le> length (tl_shape lib y)" using assms(1) by (auto simp: nested_ok_def list_all_iff)
  then show ?thesis using Cons by (simp add: nested_dims_def)
qed (simp add: nested_dims_def)

lemma concat_nested_takes:
  assumes ne: "concat iss \<noteq> []" and v: "v = Nested r True xs" and ok: "nested_ok lib v"
    and iss: "\<And>is. is \<in> set iss \<Longrightarrow> set is \<subseteq> {..<length xs} \<and> unbindable lib (val_take is v)"
  shows "concat_nested_tensors lib (map (\<lambda>is. val_take is v) iss) = Inr (val_take (concat iss) v)"
proof -
  obtain i rest where i: "iss = i # rest" using ne by (cases iss) auto
  have "unbind_checked lib (val_take is v) = Inr (take_idx is xs)" if "is \<in> set iss" for "is"
    using iss[OF that] dims_take[of lib r True xs "is"] ok
    by (auto simp: v val_take_def unbind_checked_def unbind_nested_def unbindable_def)
  then have "map_res (unbind_checked lib) (map (\<lambda>is. val_take is v) iss) = Inr (map (\<lambda>is. take_idx is xs) iss)"
    unfolding map_res_map by (intro map_res_pure) simp
  moreover have "list_all contiguous_nested (map (\<lambda>is. val_take is v) iss)" by (simp add: list_all_iff v val_take_def)
  moreover have "set (concat iss) \<subseteq> {..<length xs}" using iss by auto
  then have "nested_tensor_from_tensor_list lib (take_idx (concat iss) xs) (Some r) = Inr (Nested r True (take_idx (concat iss) xs))"
    using nested_from_sub[OF _ take_nonempty[OF ne], of lib r True xs xs] ok v take_idx_sub by blast
  ultimately show ?thesis
    unfolding concat_nested_tensors_def by (simp add: i take_idx_concat) (simp add: val_take_def v take_idx_append take_idx_concat)
qed

lemma put_nested_takes:
  assumes ns: "\<And>k v. (k, v) \<in> set ns \<Longrightarrow> map_of (td_vals e) k = Some v
      \<and> (\<exists>r xs. v = Nested r True xs \<and> length xs = n \<and> nested_ok lib v \<and> (\<forall>is \<in> set iss. unbindable lib (val_take is v)))"
    and iss: "\<And>is. is \<in> set iss \<Longrightarrow> set is \<subseteq> {..<n}" "concat iss \<noteq> []"
    and keys: "distinct (map fst ns)" "fst ` set ns \<inter> fst ` set (td_vals out) = {}"
    and bsz: "td_bsz out = Some (length (concat iss))"
  shows "fold_res (\<lambda>o' key. bind_res (concat_nested_tensors lib (map (\<lambda>d. the_default (Nested 1 True []) (map_of (td_vals d) key)) (map (\<lambda>is. td_take is e) iss)))
      (td_put o' key)) out (map fst ns) = Inr (out\<lparr>td_vals := td_vals out @ map_values (val_take (concat iss)) ns\<rparr>)"
  using ns keys bsz
proof (induction ns arbitrary: out)
  case Nil
  then show ?case by (simp add: map_values_def)
next
  case (Cons x ns)
  obtain k v where x: "x = (k, v)" by force
  then obtain r xs where v: "v = Nested r True xs" "map_of (td_vals e) k = Some v" "length xs = n" "nested_ok lib v"
    "\<And>is. is \<in> set iss \<Longrightarrow> unbindable lib (val_take is v)"
    using Cons.prems(1)[of k v] by auto
  have "map (\<lambda>d. the_default (Nested 1 True []) (map_of (td_vals d) k)) (map (\<lambda>is. td_take is e) iss) = map (\<lambda>is. val_take is v) iss"
    using v(2) by (simp add: td_take_def)
  moreover have "concat_nested_tensors lib (map (\<lambda>is. val_take is v) iss) = Inr (val_take (concat iss) v)"
    using iss(1) v(3,5) by (intro concat_nested_takes[OF iss(2) v(1,4)]) auto
  ultimately have cat: "concat_nested_tensors lib (map (\<lambda>d. the_default (Nested 1 True []) (map_of (td_vals d) k)) (map (\<lambda>is. td_take is e) iss))
      = Inr (val_take (concat iss) v)" by (simp only:)
  let ?out = "out\<lparr>td_vals := td_vals out @ [(k, val_take (concat iss) v)]\<rparr>"
  have "fits (Some (length (concat iss))) (val_take (concat iss) v)" by (rule fits_take)
  then have "td_put out k (val_take (concat iss) v) = Inr ?out"
    using Cons.prems(3,4) x by (simp add: td_put_def d_set_new)
  moreover have "fold_res (\<lambda>o' key. bind_res (concat_nested_tensors lib (map (\<lambda>d. the_default (Nested 1 True []) (map_of (td_vals d) key)) (map (\<lambda>is. td_take is e) iss)))
      (td_put o' key)) ?out (map fst ns) = Inr (?out\<lparr>td_vals := td_vals ?out @ map_values (val_take (concat iss)) ns\<rparr>)"
    using Cons.prems x by (intro Cons.IH) auto
  ultimately show ?case using cat x by (simp add: map_values_def del: map_map)
qed

lemma concat_tensordict_nested:
  assumes "ds \<noteq> []" "nested_keys (hd ds) \<noteq> []" "list_all (\<lambda>d. nested_keys d = nested_keys (hd ds)) ds"
  shows "concat_tensordict lib ds = bind_res (td_cat_regular lib (map regular_part ds)) (\<lambda>out.
    fold_res (\<lambda>o' key. bind_res (concat_nested_tensors lib (map (\<lambda>d. the_default (Nested 1 True []) (map_of (td_vals d) key)) ds))
      (td_put o' key)) out (nested_keys (hd ds)))"
  using assms by (cases ds) (auto simp: concat_tensordict_def list_all_iff)

lemma concat_takes:
  assumes lib: "td_laws lib" and iss: "concat iss \<noteq> []" and d: "distinct (map fst (td_vals d))"
    and arr: "td_vals d = arranged d" and sub: "\<And>is. is \<in> set iss \<Longrightarrow> set is \<subseteq> {..<n}"
    and vals: "\<And>k v. (k, v) \<in> set (td_vals d) \<Longrightarrow>
      fits (Some n) v \<and> nested_ok lib v \<and> rebuilt v = v \<and> (\<forall>is \<in> set iss. unbindable lib (val_take is v))"
  shows "concat_tensordict lib (map (\<lambda>is. td_take is d) iss) = Inr (td_take (concat iss) d)"
proof -
  obtain i rest where i: "iss = i # rest" using iss by (cases iss) auto
  have keys: "nested_keys (td_take is d) = nested_keys d" for "is"
    by (simp add: nested_keys_def td_take_def map_values_def filter_map o_def case_prod_beta')
  show ?thesis
  proof (cases "nested_keys d = []")
    case True
    then have "\<And>k v. (k, v) \<in> set (td_vals d) \<Longrightarrow> \<not> is_nested v" by (auto simp: nested_keys_def filter_empty_conv)
    then have "td_cat_regular lib (map (\<lambda>is. td_take is d) iss) = Inr (td_take (concat iss) d)"
      using td_cat_regular_takes[OF lib _ d, of iss] i by auto
    then show ?thesis using True keys i by (simp add: concat_tensordict_def td_take_def)
  next
    case False
    let ?r = "regular_part d" and ?ns = "filter (\<lambda>(k, v). is_nested v) (td_vals d)" and ?C = "concat iss"
    have reg: "map regular_part (map (\<lambda>is. td_take is d) iss) = map (\<lambda>is. td_take is ?r) iss"
      by (simp add: regular_part_def td_take_def map_values_def filter_map o_def case_prod_beta')
    have rd: "distinct (map fst (td_vals ?r))" using d by (simp add: regular_part_def distinct_map_filter)
    have "td_cat_regular lib (map (\<lambda>is. td_take is ?r) iss) = Inr (td_take ?C ?r)"
      using td_cat_regular_takes[OF lib _ rd, of iss] i by (auto simp: regular_part_def)
    moreover have "fold_res (\<lambda>o' key. bind_res (concat_nested_tensors lib (map (\<lambda>d. the_default (Nested 1 True []) (map_of (td_vals d) key)) (map (\<lambda>is. td_take is d) iss)))
        (td_put o' key)) (td_take ?C ?r) (map fst ?ns) = Inr ((td_take ?C ?r)\<lparr>td_vals := td_vals (td_take ?C ?r) @ map_values (val_take ?C) ?ns\<rparr>)"
    proof (rule put_nested_takes[OF _ sub iss])
      fix k v assume kv: "(k, v) \<in> set ?ns"
      then have "(k, v) \<in> set (td_vals d)" "is_nested v" by auto
      moreover from this obtain r ct xs where "v = Nested r ct xs" by (cases v) auto
      ultimately show "map_of (td_vals d) k = Some v \<and> (\<exists>r xs. v = Nested r True xs \<and> length xs = n \<and> nested_ok lib v
          \<and> (\<forall>is \<in> set iss. unbindable lib (val_take is v)))"
        using d vals[of k v] by (auto simp: rebuilt_def fits_def)
    next
      show "distinct (map fst ?ns)" using d by (rule distinct_map_filter)
      show "fst ` set ?ns \<inter> fst ` set (td_vals (td_take ?C ?r)) = {}"
        using d by (auto simp: td_take_def set_map_values regular_part_def dest: eq_key_imp_eq_value)
      show "td_bsz (td_take ?C ?r) = Some (length ?C)" by (simp add: td_take_def)
    qed
    moreover have "(td_take ?C ?r)\<lparr>td_vals := td_vals (td_take ?C ?r) @ map_values (val_take ?C) ?ns\<rparr> = td_take ?C d"
      unfolding td_take_def using arg_cong[OF arr, of "map_values (val_take ?C)"] by (simp add: arranged_def map_values_def)
    moreover have "concat_tensordict lib (map (\<lambda>is. td_take is d) iss) = bind_res (td_cat_regular lib (map regular_part (map (\<lambda>is. td_take is d) iss)))
      (\<lambda>out. fold_res (\<lambda>o' key. bind_res (concat_nested_tensors lib (map (\<lambda>d. the_default (Nested 1 True []) (map_of (td_vals d) key)) (map (\<lambda>is. td_take is d) iss)))
        (td_put o' key)) out (nested_keys (hd (map (\<lambda>is. td_take is d) iss))))"
      using False i by (intro concat_tensordict_nested) (simp_all add: keys list_all_iff)
    moreover have "nested_keys (hd (map (\<lambda>is. td_take is d) iss)) = map fst ?ns"
      using i keys[of i] by (simp add: nested_keys_def)
    ultimately show ?thesis unfolding reg by (simp only: bind_res_simps)
  qed
qed

lemma chunk_val_take:
  assumes "fits (Some n) v" "i < k" "k dvd n" "\<not> is_nested v"
  shows "chunk_val (n div k) i v = val_take (even_chunk n k i) (rebuilt v)"
  using assms chunk_within[OF assms(2,3)]
  by (cases v) (simp_all add: fits_def chunk_val_def val_take_def rebuilt_def even_chunk_def take_drop_as_take_idx)

text \<open>The padded fallback gives the components of the chunk when their first dimension is the ragged one.\<close>

lemma padded_chunk_eq:
  assumes laws: "td_laws lib" and n: "length xs = n" and k: "i < k" "k dvd n"
    and sh: "\<And>x. x \<in> set xs \<Longrightarrow> tl_shape lib x \<noteq> []" and pos: "0 < n"
  shows "padded_chunk lib k (n div k) i 1 xs = take (n div k) (drop (i * (n div k)) xs)"
proof -
  let ?c = "n div k" and ?M = "Max (set (map (\<lambda>x. tl_shape lib x ! 0) xs))"
  have c: "0 < ?c" using dvd_div_eq_0_iff[OF k(2)] pos by linarith
  have "(n + k - 1) div k = ?c" using k by (auto elim!: dvdE simp: div_nat_eqI)
  moreover have "(n + ?c - 1) div ?c = k" using k pos by (auto elim!: dvdE intro!: div_nat_eqI simp: mult.commute)
  ultimately have ch: "chunks_of ((length (map (tl_padded lib 1 ?M) xs) + k - 1) div k) (map (tl_padded lib 1 ?M) xs) ! i
      = take ?c (drop (i * ?c) (map (tl_padded lib 1 ?M) xs))"
    using chunks_of_as_map[OF c, of "map (tl_padded lib 1 ?M) xs"] n k(1) by simp
  have within: "i * ?c + ?c \<le> n" using chunk_within[OF k] .
  have "tl_prefix lib (tl_shape lib (xs ! p) ! 0) (tl_padded lib 1 ?M (xs ! p)) = xs ! p" if "p < n" for p
  proof -
    have "xs ! p \<in> set xs" using that n by simp
    moreover from this have "tl_shape lib (xs ! p) ! 0 \<le> ?M" by (intro Max_ge) auto
    ultimately show ?thesis using laws sh unfolding td_laws_def by blast
  qed
  then show ?thesis
    unfolding padded_chunk_def Let_def diff_self_eq_0 ch using within n
    by (intro nth_equalityI) (auto simp: nth_enumerate_eq)
qed

lemma chunk_nested_take:
  assumes laws: "td_laws lib" and v: "fits (Some n) v" "nested_ok lib v" "splittable lib v" "is_nested v"
    and k: "i < k" "k dvd n" and pos: "0 < n"
  shows "chunk_nested lib k (n div k) i v = Inr (val_take (even_chunk n k i) (rebuilt v))"
proof -
  obtain r ct xs where x: "v = Nested r ct xs" using v(4) by (cases v) auto
  let ?ys = "take (n div k) (drop (i * (n div k)) xs)"
  have n: "length xs = n" using v(1) x by (simp add: fits_def)
  have parts: "(if tl_unbinds lib r xs then ?ys else padded_chunk lib k (n div k) i r xs) = ?ys"
  proof (cases "tl_unbinds lib r xs")
    case False
    then have r: "r = 1" using v(3) x by (simp add: splittable_def)
    have "tl_shape lib y \<noteq> []" if "y \<in> set xs" for y
      using that v(2) x r by (force simp: nested_ok_def list_all_iff)
    from padded_chunk_eq[OF laws n k this pos] False r show ?thesis by simp
  qed simp
  have idx: "?ys = take_idx (even_chunk n k i) xs"
    using chunk_within[OF k] n by (simp add: even_chunk_def take_drop_as_take_idx)
  have "even_chunk n k i \<noteq> []" using k pos by (simp add: even_chunk_def dvd_div_eq_0_iff)
  moreover have "set (even_chunk n k i) \<subseteq> {..<length xs}" using chunk_within[OF k] n by (auto simp: even_chunk_def)
  ultimately have "nested_tensor_from_tensor_list lib (take_idx (even_chunk n k i) xs) (Some r)
      = Inr (Nested r True (take_idx (even_chunk n k i) xs))"
    using nested_from_sub[of lib r ct xs] v(2) x take_nonempty take_idx_sub by blast
  moreover have "chunk_nested lib k (n div k) i v = nested_tensor_from_tensor_list lib ?ys (Some r)"
    unfolding chunk_nested_def x td_val.case parts ..
  ultimately show ?thesis unfolding idx by (simp add: x val_take_def rebuilt_def)
qed

lemma arranged_set: "set (arranged d) = set (td_vals d)"
  by (auto simp: arranged_def regular_part_def)

lemma filter_map_values: "(\<And>v. P (f v) = P v) \<Longrightarrow> filter (\<lambda>(k, v). P v) (map_values f xs) = map_values f (filter (\<lambda>(k, v). P v) xs)"
  by (induction xs) (auto simp: map_values_def)

lemma arranged_again: "arranged (d\<lparr>td_vals := map_values rebuilt (arranged d)\<rparr>) = map_values rebuilt (arranged d)"
  using filter_map_values[of is_nested rebuilt "arranged d"] filter_map_values[of "\<lambda>v. \<not> is_nested v" rebuilt "arranged d"]
  by (simp add: arranged_def regular_part_def) (simp add: map_values_def case_prod_beta')

lemma arranged_distinct:
  assumes "distinct (map fst (td_vals d))" shows "distinct (map fst (arranged d))"
  using assms by (auto simp: arranged_def regular_part_def distinct_map_filter dest: eq_key_imp_eq_value)

lemma map_of_arranged: "distinct (map fst (td_vals d)) \<Longrightarrow> map_of (arranged d) = map_of (td_vals d)"
  using map_of_inject_set[of "arranged d" "td_vals d"] arranged_set[of d] arranged_distinct[of d] by simp

text \<open>The nested entries are added to the chunks one key after the other.\<close>

lemma put_chunks:
  assumes ns: "\<And>key v i. (key, v) \<in> set ns \<Longrightarrow> i < k \<Longrightarrow> chunk_nested lib k c i v = Inr (f i v) \<and> fits (Some c) (f i v)"
    and keys: "distinct (map fst ns)" "\<And>i. i < k \<Longrightarrow> fst ` set ns \<inter> fst ` set (W i) = {}"
  shows "fold_res (\<lambda>tds (key, v). map_res (\<lambda>(i, t). bind_res (chunk_nested lib k c i v) (td_put t key)) (enumerate 0 tds))
      (map (\<lambda>i. \<lparr>td_bsz = Some c, td_vals = W i\<rparr>) [0..<k]) ns
    = Inr (map (\<lambda>i. \<lparr>td_bsz = Some c, td_vals = W i @ map_values (f i) ns\<rparr>) [0..<k])"
  using assms
proof (induction ns arbitrary: W)
  case Nil
  then show ?case by (simp add: map_values_def)
next
  case (Cons x ns)
  obtain key v where x: "x = (key, v)" by force
  let ?W = "\<lambda>i. W i @ [(key, f i v)]"
  have "bind_res (chunk_nested lib k c i v) (td_put \<lparr>td_bsz = Some c, td_vals = W i\<rparr> key) = Inr \<lparr>td_bsz = Some c, td_vals = ?W i\<rparr>"
    if "i < k" for i
    using Cons.prems(1)[of key v i] Cons.prems(3)[OF that] that x by (simp add: td_put_def d_set_new)
  then have "map_res (\<lambda>(i, t). bind_res (chunk_nested lib k c i v) (td_put t key))
      (enumerate 0 (map (\<lambda>i. \<lparr>td_bsz = Some c, td_vals = W i\<rparr>) [0..<k])) = Inr (map (\<lambda>i. \<lparr>td_bsz = Some c, td_vals = ?W i\<rparr>) [0..<k])"
    by (auto simp: map_res_Inr_iff list_all2_conv_all_nth nth_enumerate_eq)
  moreover have "fold_res (\<lambda>tds (key, v). map_res (\<lambda>(i, t). bind_res (chunk_nested lib k c i v) (td_put t key)) (enumerate 0 tds))
      (map (\<lambda>i. \<lparr>td_bsz = Some c, td_vals = ?W i\<rparr>) [0..<k]) ns
    = Inr (map (\<lambda>i. \<lparr>td_bsz = Some c, td_vals = ?W i @ map_values (f i) ns\<rparr>) [0..<k])"
    using Cons.prems x by (intro Cons.IH) auto
  ultimately show ?case by (simp add: x map_values_def)
qed

lemma td_chunks:
  assumes laws: "td_laws lib" and wf: "td_wf lib n d" and sp: "\<forall>(key, v)\<in>set (td_vals d). splittable lib v"
    and k: "0 < k" "k dvd n" and n: "0 < n"
  shows "chunk_tensordict lib d k
    = Inr (map (\<lambda>i. td_take (even_chunk n k i) (d\<lparr>td_vals := map_values rebuilt (arranged d)\<rparr>)) [0..<k])"
proof -
  let ?c = "n div k" and ?ns = "filter (\<lambda>(key, v). is_nested v) (td_vals d)" and ?f = "\<lambda>i v. val_take (even_chunk n k i) (rebuilt v)"
  have len: "tdict_len d = n" using wf by (simp add: tdict_len_def td_wf_def)
  have dist: "distinct (map fst (td_vals d))" using wf by (simp add: td_wf_def)
  have reg: "map_values (chunk_val ?c i) (td_vals (regular_part d)) = map_values (?f i) (td_vals (regular_part d))" if "i < k" for i
    using wf that k(2) by (intro map_values_cong chunk_val_take) (auto simp: td_wf_def regular_part_def)
  have "fold_res (\<lambda>tds (key, v). map_res (\<lambda>(i, t). bind_res (chunk_nested lib k ?c i v) (td_put t key)) (enumerate 0 tds))
      (map (\<lambda>i. \<lparr>td_bsz = Some ?c, td_vals = map_values (chunk_val ?c i) (td_vals (regular_part d))\<rparr>) [0..<k]) ?ns
    = Inr (map (\<lambda>i. \<lparr>td_bsz = Some ?c, td_vals = map_values (chunk_val ?c i) (td_vals (regular_part d)) @ map_values (?f i) ?ns\<rparr>) [0..<k])"
  proof (rule put_chunks)
    fix key v i assume "(key, v) \<in> set ?ns" "i < k"
    then show "chunk_nested lib k ?c i v = Inr (?f i v) \<and> fits (Some ?c) (?f i v)"
      using wf sp k(2) n chunk_nested_take[OF laws, of n v i k] fits_take(1)[of "even_chunk n k i" "rebuilt v"]
      by (auto simp: td_wf_def simp del: fits_take)
  next
    show "distinct (map fst ?ns)" using dist by (rule distinct_map_filter)
    show "fst ` set ?ns \<inter> fst ` set (map_values (chunk_val ?c i) (td_vals (regular_part d))) = {}" for i
      using dist by (auto simp: set_map_values regular_part_def dest: eq_key_imp_eq_value)
  qed
  moreover have "map (\<lambda>i. \<lparr>td_bsz = Some ?c, td_vals = map_values (chunk_val ?c i) (td_vals (regular_part d)) @ map_values (?f i) ?ns\<rparr>) [0..<k]
      = map (\<lambda>i. td_take (even_chunk n k i) (d\<lparr>td_vals := map_values rebuilt (arranged d)\<rparr>)) [0..<k]"
    using reg by (auto simp: td_take_def arranged_def map_values_map_values) (simp_all add: map_values_def)
  moreover have "k \<noteq> 0" "n mod k = 0" using k by auto
  ultimately show ?thesis using len n by (simp add: chunk_tensordict_def Let_def)
qed


text \<open>A nested entry of one-dimensional components, such as token ids and masks.\<close>

definition flat_nested :: "('a, 'b) td_lib \<Rightarrow> ('a, 'b) td_val \<Rightarrow> bool" where
  "flat_nested lib v = (case v of Nested r ct xs \<Rightarrow> list_all (\<lambda>x. length (tl_shape lib x) = 1) xs | _ \<Rightarrow> True)"

lemma flat_unbindable:
  assumes "td_laws lib" "flat_nested lib v" "fits (Some n) v" "set is \<subseteq> {..<n}"
  shows "unbindable lib (val_take is (rebuilt v))"
proof (cases v)
  case (Nested r ct xs)
  then have "set (take_idx is xs) \<subseteq> set xs" using assms(3,4) take_idx_sub[of "is" xs] by (simp add: fits_def)
  then have "list_all (\<lambda>x. length (tl_shape lib x) = 1) (take_idx is xs)"
    using assms(2) Nested by (auto simp: flat_nested_def list_all_iff)
  then show ?thesis using assms(1) Nested by (simp add: td_laws_def unbindable_def val_take_def rebuilt_def)
qed (simp_all add: unbindable_def val_take_def rebuilt_def)

text \<open>
  C30. Chunks of a TensorDict. A well formed batch of n rows, whose nested entries torch can unbind or whose first
  dimension is the ragged one (so that the padded fallback applies), splits into k equal parts; every part holds in each
  entry the rows or components of its position, nested tensors with their ragged dimension and made contiguous, and the
  single values unchanged. If moreover the nested entries are two-dimensional, or torch can unbind their parts,
  concatenating the parts gives back the batch, with contiguous nested tensors, up to the order of its entries.
\<close>

theorem tensordict_chunk_concat:
  fixes d :: "('a, 'b) tdict"
  assumes laws: "td_laws lib" and wf: "td_wf lib n d" and sp: "\<forall>(key, v)\<in>set (td_vals d). splittable lib v"
    and k: "0 < k" "k dvd n" and n: "0 < n"
  shows "\<exists>ds. chunk_tensordict lib d k = Inr ds \<and> length ds = k
    \<and> (\<forall>i < k. td_bsz (ds ! i) = Some (n div k)
         \<and> map_of (td_vals (ds ! i))
             = map_option (\<lambda>v. val_take [i * (n div k)..<i * (n div k) + n div k] (rebuilt v)) \<circ> map_of (td_vals d))
    \<and> ((\<forall>(key, v)\<in>set (td_vals d). flat_nested lib v
          \<or> (\<forall>i < k. unbindable lib (val_take [i * (n div k)..<i * (n div k) + n div k] (rebuilt v)))) \<longrightarrow>
       (\<exists>e. concat_tensordict lib ds = Inr e \<and> td_bsz e = Some n
          \<and> map_of (td_vals e) = map_option rebuilt \<circ> map_of (td_vals d)))"
proof -
  let ?e = "d\<lparr>td_vals := map_values rebuilt (arranged d)\<rparr>" and ?iss = "map (even_chunk n k) [0..<k]"
  let ?ds = "map (\<lambda>is. td_take is ?e) ?iss"
  have dist: "distinct (map fst (td_vals d))" using wf by (simp add: td_wf_def)
  have cover: "concat ?iss = [0..<n]" using even_chunks_cover[OF k] .
  have sub: "set is \<subseteq> {..<n}" if "is \<in> set ?iss" for "is"
    using that chunk_within[OF _ k(2)] by (fastforce simp: even_chunk_def)
  have keys: "map_of (map_values f (arranged d)) = map_option f \<circ> map_of (td_vals d)" for f :: "('a, 'b) td_val \<Rightarrow> ('a, 'b) td_val"
    by (simp add: fun_eq_iff map_of_arranged[OF dist])
  have chunks: "chunk_tensordict lib d k = Inr ?ds" using td_chunks[OF laws wf sp k n] by (simp add: o_def)
  have "\<exists>e. concat_tensordict lib ?ds = Inr e \<and> td_bsz e = Some n \<and> map_of (td_vals e) = map_option rebuilt \<circ> map_of (td_vals d)"
    if un: "\<forall>(key, v)\<in>set (td_vals d). flat_nested lib v
          \<or> (\<forall>i < k. unbindable lib (val_take [i * (n div k)..<i * (n div k) + n div k] (rebuilt v)))"
  proof -
    have vals: "fits (Some n) w \<and> nested_ok lib w \<and> rebuilt w = w \<and> (\<forall>is \<in> set ?iss. unbindable lib (val_take is w))"
      if "(key, w) \<in> set (td_vals ?e)" for key w
    proof -
      from that obtain v where v: "(key, v) \<in> set (td_vals d)" "w = rebuilt v"
        by (auto simp: set_map_values arranged_set)
      have f: "fits (Some n) v" "nested_ok lib v" using wf v(1) by (auto simp: td_wf_def)
      have "unbindable lib (val_take is w)" if "is \<in> set ?iss" for "is"
        using un v that flat_unbindable[OF laws _ f(1) sub[OF that]] by (auto simp: even_chunk_def)
      moreover have "rebuilt w = w" by (cases v) (simp_all add: v(2) rebuilt_def)
      ultimately show ?thesis using f v(2) by simp
    qed
    have "concat_tensordict lib ?ds = Inr (td_take (concat ?iss) ?e)"
    proof (rule concat_takes[OF laws])
      show "concat ?iss \<noteq> []" unfolding cover using n by simp
      show "distinct (map fst (td_vals ?e))" using arranged_distinct[OF dist] by (simp add: map_values_def o_def case_prod_beta')
      show "td_vals ?e = arranged ?e" by (simp add: arranged_again)
    qed (use sub vals in blast)+
    moreover have "map_values (val_take [0..<n]) (map_values rebuilt (arranged d)) = map_values rebuilt (arranged d)"
    proof (rule map_values_id)
      fix key w assume "(key, w) \<in> set (map_values rebuilt (arranged d))"
      then have "fits (Some n) w" using vals[of key w] by simp
      then show "val_take [0..<n] w = w" by (cases w) (simp_all add: fits_def val_take_def take_idx_all)
    qed
    ultimately show ?thesis unfolding cover by (simp add: td_take_def keys)
  qed
  moreover have "td_bsz (?ds ! i) = Some (n div k) \<and> map_of (td_vals (?ds ! i))
      = map_option (\<lambda>v. val_take [i * (n div k)..<i * (n div k) + n div k] (rebuilt v)) \<circ> map_of (td_vals d)" if "i < k" for i
    using that keys[of "\<lambda>v. val_take (even_chunk n k i) (rebuilt v)"]
    by (simp add: td_take_def map_values_map_values) (simp add: even_chunk_def)
  ultimately show ?thesis using chunks by (intro exI[of _ ?ds]) simp
qed

text \<open>
  Matrices with one column as components. Only nested tensors of at most one component can be unbound, so that chunking
  takes the padded fallback.
\<close>

definition ex_lib :: "(nat list list, nat) td_lib" where
  "ex_lib = \<lparr>tl_cat = (\<lambda>xs. Scalar (hd xs)), tl_shape = (\<lambda>x. [length x, 1]),
     tl_padded = (\<lambda>r n x. x @ replicate (n - length x) [0]), tl_prefix = take, tl_unbinds = (\<lambda>r xs. length xs \<le> 1)\<rparr>"

definition ex_tdict :: "(nat list list, nat) tdict" where
  "ex_tdict = \<lparr>td_bsz = Some 2, td_vals = [(''ids'', Nested 1 False [[[1]], [[2], [3]]]), (''mask'', Dense [[[3]], [[4]]]),
     (''uid'', Stack [5, 6]), (''step'', Scalar 7)]\<rparr>"

theorem tensordict_chunk_concat_witness:
  "\<exists>ds e. chunk_tensordict ex_lib ex_tdict 2 = Inr ds \<and> map_of (td_vals (ds ! 0)) ''ids'' = Some (Nested 1 True [[[1]]])
     \<and> concat_tensordict ex_lib ds = Inr e \<and> map_of (td_vals e) ''ids'' = Some (Nested 1 True [[[1]], [[2], [3]]])"
proof -
  have "td_wf ex_lib 2 ex_tdict"
    by (simp add: td_wf_def ex_tdict_def ex_lib_def fits_def nested_ok_def joinable_def)
  moreover have "td_laws ex_lib" by (auto simp: td_laws_def ex_lib_def list_all_iff)
  moreover have "\<forall>(key, v)\<in>set (td_vals ex_tdict). splittable ex_lib v"
    by (simp add: ex_tdict_def splittable_def)
  moreover have "\<forall>(key, v)\<in>set (td_vals ex_tdict). flat_nested ex_lib v
      \<or> (\<forall>i < 2. unbindable ex_lib (val_take [i * (2 div 2)..<i * (2 div 2) + 2 div 2] (rebuilt v)))"
    by (simp add: ex_tdict_def ex_lib_def flat_nested_def unbindable_def val_take_def rebuilt_def take_idx_def)
  ultimately show ?thesis
    using tensordict_chunk_concat[of ex_lib 2 ex_tdict 2]
    by (fastforce simp: ex_tdict_def val_take_def rebuilt_def take_idx_def)
qed

end
