(* ===== verification/Dispatch.thy ===== *)
theory Dispatch
  imports TdUtils PyStrings
begin

text \<open>
  \<open>verl/single_controller\<close>: how a method call on a worker group is spread over the workers and how their
  results are put together (\<open>base/decorator.py\<close>, \<open>func_generator\<close> and the execution of \<open>ray/base.py\<close>,
  \<open>BatchData\<close> and \<open>DataProtoFuture\<close> of \<open>protocol.py\<close>, the mesh registration of \<open>base/worker.py\<close>). A
  remote object is the value, or the exception, it will hold. The method that runs on the workers is a parameter, a
  function of the rank and the arguments. Metadata objects of the transfer queue package are not among the values.
\<close>

section \<open>Values\<close>

datatype ('a, 'b) wval =
    VProto "('a, 'b) data_proto"
  | VTd "('a, 'b) tdict"
  | VFuture "('a, 'b) wval list" "(nat \<times> nat) option"
  | VRef "pyerr + ('a, 'b) wval"
  | VList "('a, 'b) wval list"
  | VTuple "('a, 'b) wval list"
  | VFun string
  | VObj pyval

type_synonym ('a, 'b) wkw = "(string \<times> ('a, 'b) wval) list"

fun is_VList :: "('a, 'b) wval \<Rightarrow> bool" where
  "is_VList (VList vs) = True"
| "is_VList _ = False"

text \<open>The elements of a list or a tuple; \<open>len(v)\<close>; \<open>xs[i]\<close> for an index that is not negative.\<close>

fun elements :: "('a, 'b) wval \<Rightarrow> ('a, 'b) wval list option" where
  "elements (VList vs) = Some vs"
| "elements (VTuple vs) = Some vs"
| "elements _ = None"

fun w_len :: "('a, 'b) wval \<Rightarrow> nat res" where
  "w_len (VProto d) = Inr (dp_len d)"
| "w_len (VTd d) = Inr (tdict_len d)"
| "w_len (VList vs) = Inr (length vs)"
| "w_len (VTuple vs) = Inr (length vs)"
| "w_len (VObj (PStr s)) = Inr (length s)"
| "w_len (VObj (PList xs)) = Inr (length xs)"
| "w_len (VObj (PDict d)) = Inr (length d)"
| "w_len (VObj (PArray xs)) = Inr (length xs)"
| "w_len _ = Inl (TypeError ''object has no len()'')"

definition nth_res :: "'v list \<Rightarrow> nat \<Rightarrow> 'v res" where
  "nth_res xs i = (if i < length xs then Inr (xs ! i) else Inl IndexError)"

text \<open>\<open>ray.get\<close> of a reference or of a list of references.\<close>

fun deref :: "('a, 'b) wval \<Rightarrow> ('a, 'b) wval res" where
  "deref (VRef r) = r"
| "deref _ = Inl (ValueError ''not an ObjectRef'')"

fun ray_get :: "('a, 'b) wval \<Rightarrow> ('a, 'b) wval res" where
  "ray_get (VList vs) = bind_res (map_res deref vs) (\<lambda>us. Inr (VList us))"
| "ray_get v = deref v"

section \<open>Batches of any kind\<close>

fun as_proto :: "('a, 'b) wval \<Rightarrow> ('a, 'b) data_proto res" where
  "as_proto (VProto d) = Inr d"
| "as_proto _ = Inl (TypeError ''expected a DataProto'')"

fun as_td :: "('a, 'b) wval \<Rightarrow> ('a, 'b) tdict res" where
  "as_td (VTd d) = Inr d"
| "as_td _ = Inl (AssertionError ''expected a TensorDict'')"

text \<open>\<open>TensorDict.chunk\<close> of the library: blocks of the rounded-up size; nested entries cannot be split.\<close>

definition td_lib_chunk :: "('a, 'b) tdict \<Rightarrow> nat \<Rightarrow> ('a, 'b) tdict list res" where
  "td_lib_chunk d k =
     (if k = 0 then Inl (ValueError ''chunks must be a strictly positive integer'')
      else if tdict_len d = 0 \<or> nested_keys d \<noteq> [] then Inl (RuntimeError ''split'')
      else Inr (map (\<lambda>is. td_slice d (Some (int (hd is))) (Some (int (hd is + length is))))
             (chunks_of ((tdict_len d + k - 1) div k) [0..<tdict_len d])))"

definition w_future_get :: "bool \<Rightarrow> ('a, 'b) td_lib \<Rightarrow>
    ('a, 'b) wval list \<Rightarrow> (nat \<times> nat) option \<Rightarrow> ('a, 'b) wval res" where
  "w_future_get auto lib futures dispatch =
     bind_res (map_res deref futures) (\<lambda>output.
       case output of
         [] \<Rightarrow> Inl IndexError
       | VProto d0 # _ \<Rightarrow>
           bind_res (map_res as_proto output) (\<lambda>ds. bind_res (dp_concat ds) (\<lambda>d.
             case dispatch of
               None \<Rightarrow> Inr (VProto d)
             | Some (i, k) \<Rightarrow> bind_res (dp_chunk auto d k) (\<lambda>parts. map_sum id VProto (nth_res parts i))))
       | VTd d0 # _ \<Rightarrow>
           bind_res (map_res as_td output) (\<lambda>ds. bind_res (concat_tensordict lib ds) (\<lambda>d.
             case dispatch of
               None \<Rightarrow> Inr (VTd d)
             | Some (i, k) \<Rightarrow> bind_res (td_lib_chunk d k) (\<lambda>parts. map_sum id VTd (nth_res parts i))))
       | _ \<Rightarrow> Inl (AssertionError ''isinstance(o, DataProto | TensorDict)''))"

text \<open>\<open>BatchData\<close>: a TensorDict is chunked into a tuple, a DataProto and a future into a list.\<close>

fun is_chunkable :: "('a, 'b) wval \<Rightarrow> bool" where
  "is_chunkable (VProto d) = True"
| "is_chunkable (VFuture fs dispatch) = True"
| "is_chunkable (VTd d) = True"
| "is_chunkable _ = False"

fun is_concatable_item :: "('a, 'b) wval \<Rightarrow> bool" where
  "is_concatable_item (VProto d) = True"
| "is_concatable_item (VRef r) = True"
| "is_concatable_item (VTd d) = True"
| "is_concatable_item _ = False"

definition is_concatable :: "('a, 'b) wval \<Rightarrow> bool" where
  "is_concatable v = (case elements v of Some (x # _) \<Rightarrow> is_concatable_item x | _ \<Rightarrow> False)"

fun bd_chunk :: "bool \<Rightarrow> ('a, 'b) td_lib \<Rightarrow> ('a, 'b) wval \<Rightarrow> nat \<Rightarrow> ('a, 'b) wval res" where
  "bd_chunk auto lib (VProto d) k = map_sum id (\<lambda>ds. VList (map VProto ds)) (dp_chunk auto d k)"
| "bd_chunk auto lib (VFuture fs dispatch) k = Inr (VList (map (\<lambda>i. VFuture fs (Some (i, k))) [0..<k]))"
| "bd_chunk auto lib (VTd d) k =
     bind_res (chunk_tensordict lib d k) (\<lambda>ds. bind_res (map_res contiguous_td ds) (\<lambda>es. Inr (VTuple (map VTd es))))"
| "bd_chunk auto lib v k = Inl (TypeError ''no attribute chunk'')"

definition bd_concat :: "('a, 'b) td_lib \<Rightarrow> ('a, 'b) wval list \<Rightarrow> ('a, 'b) wval res" where
  "bd_concat lib vs =
     (case vs of
        [] \<Rightarrow> Inl (ValueError ''Cannot concatenate an empty list of data items.'')
      | VRef r # _ \<Rightarrow> Inr (VFuture vs None)
      | VTd d # _ \<Rightarrow> bind_res (map_res as_td vs) (\<lambda>ds. map_sum id VTd (concat_tensordict lib ds))
      | VProto d # _ \<Rightarrow> bind_res (map_res as_proto vs) (\<lambda>ds. map_sum id VProto (dp_concat ds))
      | VFuture fs dispatch # _ \<Rightarrow> Inr (VFuture vs None)
      | _ \<Rightarrow> Inl (TypeError ''no attribute concat''))"

section \<open>Splitting the arguments\<close>

definition split_arg :: "bool \<Rightarrow> ('a, 'b) td_lib \<Rightarrow> nat \<Rightarrow> ('a, 'b) wval \<Rightarrow> ('a, 'b) wval res" where
  "split_arg auto lib chunks v =
     (if \<not> is_chunkable v then Inl (AssertionError ''arg is not chunkable'')
      else bind_res (bd_chunk auto lib v chunks) (\<lambda>c. bind_res (w_len c) (\<lambda>n.
        if n = chunks then Inr c else Inl (AssertionError ''len(chunked_arg) == chunks''))))"

definition split_args_kwargs_data_proto ::
  "bool \<Rightarrow> ('a, 'b) td_lib \<Rightarrow> nat \<Rightarrow> ('a, 'b) wval list \<Rightarrow> ('a, 'b) wkw \<Rightarrow> (('a, 'b) wval list \<times> ('a, 'b) wkw) res" where
  "split_args_kwargs_data_proto auto lib chunks args kwargs =
     bind_res (map_res (split_arg auto lib chunks) args) (\<lambda>as.
     bind_res (map_values_res (split_arg auto lib chunks) kwargs) (\<lambda>ks. Inr (as, ks)))"

text \<open>
  With automatic padding. The state of the loop is the length of the first padded object and the size of its
  padding. \<open>padding\<close> changes the object of the caller: a step returns the object as it is then, next to its chunks.
\<close>

definition padding_and_split_data ::
  "bool \<Rightarrow> ('a, 'b) td_lib \<Rightarrow> nat \<Rightarrow> (nat \<times> nat) option \<Rightarrow> ('a, 'b) wval
    \<Rightarrow> ((nat \<times> nat) option \<times> ('a, 'b) wval \<times> ('a, 'b) wval) res" where
  "padding_and_split_data auto lib chunks st obj =
     (case obj of
        VProto d \<Rightarrow>
          if is_padding_enabled auto d then
            bind_res (case st of
                None \<Rightarrow> if chunks = 0 then Inl ZeroDivisionError
                        else Inr (dp_len d, if 0 < dp_len d mod chunks then chunks - dp_len d mod chunks else 0)
              | Some (n, p) \<Rightarrow> if n = dp_len d then Inr (n, p) else Inl (AssertionError ''expecting all arg share same length''))
              (\<lambda>(n, p). bind_res (dp_padding d p []) (\<lambda>d'.
                 bind_res (dp_chunk auto d' chunks) (\<lambda>ds. Inr (Some (n, p), VProto d', VList (map VProto ds)))))
          else bind_res (dp_chunk auto d chunks) (\<lambda>ds. Inr (st, obj, VList (map VProto ds)))
      | VFuture fs dispatch \<Rightarrow> bind_res (bd_chunk auto lib obj chunks) (\<lambda>c. Inr (st, obj, c))
      | _ \<Rightarrow> Inl (AssertionError ''isinstance(obj, DataProto | DataProtoFuture)''))"

fun pad_split_all ::
  "bool \<Rightarrow> ('a, 'b) td_lib \<Rightarrow> nat \<Rightarrow> (nat \<times> nat) option \<Rightarrow> ('a, 'b) wval list
    \<Rightarrow> ((nat \<times> nat) option \<times> ('a, 'b) wval list \<times> ('a, 'b) wval list) res" where
  "pad_split_all auto lib chunks st [] = Inr (st, [], [])"
| "pad_split_all auto lib chunks st (v # vs) =
     bind_res (padding_and_split_data auto lib chunks st v) (\<lambda>(st1, v', c).
     bind_res (pad_split_all auto lib chunks st1 vs) (\<lambda>(st2, vs', parts). Inr (st2, v' # vs', c # parts)))"

definition padding_size_key :: string where
  "padding_size_key = ''_padding_size_key_x123d''"

text \<open>What a dispatch function sends to the workers, and the arguments of the caller and the group afterwards.\<close>

record worker =
  wk_dispatch_dp_rank :: "(string \<times> nat) list"
  wk_collect_dp_rank :: "(string \<times> bool) list"

record wgroup =
  wg_workers :: "worker list"
  wg_world_size :: nat
  wg_dispatch_info :: "(string \<times> nat list) list"
  wg_collect_info :: "(string \<times> bool list) list"

record ('a, 'b) sent =
  se_args :: "('a, 'b) wval list"
  se_kwargs :: "('a, 'b) wkw"
  se_caller_args :: "('a, 'b) wval list"
  se_caller_kwargs :: "('a, 'b) wkw"
  se_group :: wgroup

type_synonym ('a, 'b) dispatch_fn = "wgroup \<Rightarrow> ('a, 'b) wval list \<Rightarrow> ('a, 'b) wkw \<Rightarrow> ('a, 'b) sent res"
type_synonym ('a, 'b) collect_fn = "wgroup \<Rightarrow> ('a, 'b) wval \<Rightarrow> (('a, 'b) wval \<times> wgroup) res"

abbreviation sends :: "wgroup \<Rightarrow> ('a, 'b) wval list \<Rightarrow> ('a, 'b) wkw \<Rightarrow> ('a, 'b) wval list \<Rightarrow> ('a, 'b) wkw \<Rightarrow> ('a, 'b) sent" where
  "sends g args kwargs as ks \<equiv> \<lparr>se_args = as, se_kwargs = ks, se_caller_args = args, se_caller_kwargs = kwargs, se_group = g\<rparr>"

definition split_with_auto_padding ::
  "bool \<Rightarrow> ('a, 'b) td_lib \<Rightarrow> wgroup \<Rightarrow> nat \<Rightarrow> ('a, 'b) wval list \<Rightarrow> ('a, 'b) wkw \<Rightarrow> ('a, 'b) sent res" where
  "split_with_auto_padding auto lib g chunks args kwargs =
     bind_res (pad_split_all auto lib chunks None args) (\<lambda>(st1, args', as).
     bind_res (pad_split_all auto lib chunks st1 (map snd kwargs)) (\<lambda>(st2, vals', parts).
       let ks = zip (map fst kwargs) parts
       in Inr (sends g args' (zip (map fst kwargs) vals') as
            (case st2 of None \<Rightarrow> ks | Some (n, p) \<Rightarrow> d_set padding_size_key (VObj (PInt (int p))) ks))))"

section \<open>Dispatch and collect functions\<close>

definition dispatch_one_to_all :: "('a, 'b) dispatch_fn" where
  "dispatch_one_to_all g args kwargs =
     (let W = wg_world_size g
      in Inr (sends g args kwargs (map (\<lambda>a. VList (replicate W a)) args) (map_values (\<lambda>v. VList (replicate W v)) kwargs)))"

definition dispatch_all_to_all :: "('a, 'b) dispatch_fn" where
  "dispatch_all_to_all g args kwargs = Inr (sends g args kwargs args kwargs)"

definition dummy_direct_rollout_call :: "'r res" where
  "dummy_direct_rollout_call = Inl (NotImplementedError ''Direct rollout call is forbidden.'')"

definition collect_all_to_all :: "('a, 'b) collect_fn" where
  "collect_all_to_all g output = Inr (output, g)"

definition has_len :: "nat \<Rightarrow> ('a, 'b) wval \<Rightarrow> bool" where
  "has_len n v = (case elements v of Some vs \<Rightarrow> length vs = n | None \<Rightarrow> False)"

definition dispatch_dp_compute :: "('a, 'b) dispatch_fn" where
  "dispatch_dp_compute g args kwargs =
     (if list_all (has_len (wg_world_size g)) (args @ map snd kwargs) then Inr (sends g args kwargs args kwargs)
      else Inl (AssertionError ''isinstance(arg, tuple | list) and len(arg) == worker_group.world_size''))"

definition collect_dp_compute :: "('a, 'b) collect_fn" where
  "collect_dp_compute g output =
     bind_res (w_len output) (\<lambda>n.
       if n = wg_world_size g then Inr (output, g) else Inl (AssertionError ''len(output) == worker_group.world_size''))"

definition dispatch_dp_compute_data_proto :: "bool \<Rightarrow> ('a, 'b) td_lib \<Rightarrow> ('a, 'b) dispatch_fn" where
  "dispatch_dp_compute_data_proto auto lib g args kwargs = split_with_auto_padding auto lib g (wg_world_size g) args kwargs"

definition dispatch_dp_compute_data_proto_with_func :: "bool \<Rightarrow> ('a, 'b) td_lib \<Rightarrow> ('a, 'b) dispatch_fn" where
  "dispatch_dp_compute_data_proto_with_func auto lib g args kwargs =
     (case args of
        [] \<Rightarrow> Inl IndexError
      | VFun f # rest \<Rightarrow>
          bind_res (split_args_kwargs_data_proto auto lib (wg_world_size g) rest kwargs) (\<lambda>(as, ks).
            Inr (sends g args kwargs (VList (replicate (wg_world_size g) (VFun f)) # as) ks))
      | _ \<Rightarrow> Inl (AssertionError ''isinstance(args[0], FunctionType)''))"

text \<open>\<open>type(o) is type(output[0])\<close>, asked only where the first item can be concatenated.\<close>

fun same_type :: "('a, 'b) wval \<Rightarrow> ('a, 'b) wval \<Rightarrow> bool" where
  "same_type (VProto d) (VProto e) = True"
| "same_type (VTd d) (VTd e) = True"
| "same_type (VRef r) (VRef q) = True"
| "same_type _ _ = False"

definition concat_data_proto_or_future :: "('a, 'b) td_lib \<Rightarrow> ('a, 'b) wval \<Rightarrow> ('a, 'b) wval res" where
  "concat_data_proto_or_future lib output =
     (case elements output of
        Some (o0 # os) \<Rightarrow>
          if list_all (same_type o0) (o0 # os) then bd_concat lib (o0 # os)
          else Inl (AssertionError ''type(o) is type(output[0])'')
      | _ \<Rightarrow> bd_concat lib [])"

definition collect_dp_compute_data_proto :: "('a, 'b) td_lib \<Rightarrow> ('a, 'b) collect_fn" where
  "collect_dp_compute_data_proto lib g output =
     (if \<not> is_concatable output then Inl (AssertionError ''expecting concatable output'')
      else bind_res (collect_dp_compute g output) (\<lambda>(out, g'). bind_res (concat_data_proto_or_future lib out) (\<lambda>v. Inr (v, g'))))"

text \<open>
  Dispatch over a device mesh: every worker has a data-parallel rank and gets the part of that rank. The parts go
  through the object store (\<open>parallel_put\<close> keeps their order). Arguments are lists or tuples here, as
  \<open>_split_args_kwargs_data_proto\<close> makes them.
\<close>

definition parallel_put :: "('a, 'b) wval \<Rightarrow> ('a, 'b) wval res" where
  "parallel_put v =
     (case elements v of
        None \<Rightarrow> Inl (TypeError ''not a list'')
      | Some vs \<Rightarrow> if vs = [] then Inl (AssertionError ''data_list must not be empty'')
                  else Inr (VList (map (\<lambda>u. VRef (Inr u)) vs)))"

definition nd_arg :: "nat list \<Rightarrow> nat \<Rightarrow> nat \<Rightarrow> ('a, 'b) wval \<Rightarrow> ('a, 'b) wval res" where
  "nd_arg dp_rank_mapping dp_size world_size v =
     (case elements v of
        Some vs \<Rightarrow>
          if length vs = dp_size
          then map_sum id VList (map_res (\<lambda>i. bind_res (nth_res dp_rank_mapping i) (nth_res vs)) [0..<world_size])
          else Inl (AssertionError ''len(arg) == dp_size'')
      | None \<Rightarrow> Inl (AssertionError ''isinstance(arg, tuple | list)''))"

definition dispatch_nd_compute :: "nat list \<Rightarrow> nat \<Rightarrow> wgroup \<Rightarrow> ('a, 'b) wval list \<Rightarrow> ('a, 'b) wkw
    \<Rightarrow> (('a, 'b) wval list \<times> ('a, 'b) wkw) res" where
  "dispatch_nd_compute dp_rank_mapping dp_size g args kwargs =
     bind_res (case args of [] \<Rightarrow> Inl IndexError | a0 # _ \<Rightarrow> w_len a0) (\<lambda>_.
     bind_res (map_res parallel_put args) (\<lambda>rargs.
     bind_res (map_values_res parallel_put kwargs) (\<lambda>rkwargs.
     bind_res (map_res (nd_arg dp_rank_mapping dp_size (wg_world_size g)) rargs) (\<lambda>as.
     bind_res (map_values_res (nd_arg dp_rank_mapping dp_size (wg_world_size g)) rkwargs) (\<lambda>ks. Inr (as, ks))))))"

definition collect_nd_compute :: "bool list \<Rightarrow> wgroup \<Rightarrow> ('a, 'b) wval \<Rightarrow> ('a, 'b) wval res" where
  "collect_nd_compute collect_mask g output =
     (case elements output of
        None \<Rightarrow> Inl (AssertionError ''len(output) == worker_group.world_size'')
      | Some vs \<Rightarrow>
          if length vs \<noteq> wg_world_size g then Inl (AssertionError ''len(output) == worker_group.world_size'')
          else bind_res (map_res (nth_res collect_mask) [0..<wg_world_size g]) (\<lambda>bs.
                 Inr (VList (map snd (filter fst (zip bs vs))))))"

definition dispatch_nd_compute_dataproto :: "bool \<Rightarrow> ('a, 'b) td_lib \<Rightarrow> nat list \<Rightarrow> nat \<Rightarrow> wgroup \<Rightarrow> ('a, 'b) wval list \<Rightarrow> ('a, 'b) wkw
    \<Rightarrow> (('a, 'b) wval list \<times> ('a, 'b) wkw) res" where
  "dispatch_nd_compute_dataproto auto lib dp_rank_mapping dp_size g args kwargs =
     bind_res (split_args_kwargs_data_proto auto lib dp_size args kwargs) (\<lambda>(as, ks).
       dispatch_nd_compute dp_rank_mapping dp_size g as ks)"

definition collect_nd_compute_dataproto ::
  "('a, 'b) td_lib \<Rightarrow> bool list \<Rightarrow> wgroup \<Rightarrow> ('a, 'b) wval \<Rightarrow> ('a, 'b) wval res" where
  "collect_nd_compute_dataproto lib collect_mask g output =
     bind_res (collect_nd_compute collect_mask g output) (\<lambda>out.
       if is_concatable out then concat_data_proto_or_future lib out
       else Inl (AssertionError ''expecting concatable output''))"

text \<open>The workers register their rank in a mesh; the group asks them once and keeps the answers.\<close>

definition register_dispatch_collect_info :: "string \<Rightarrow> nat \<Rightarrow> bool \<Rightarrow> worker \<Rightarrow> worker res" where
  "register_dispatch_collect_info mesh dp_rank is_collect w =
     (if map_of (wk_dispatch_dp_rank w) mesh \<noteq> None \<or> map_of (wk_collect_dp_rank w) mesh \<noteq> None
      then Inl (ValueError ''mesh_name has been registered'')
      else Inr (w\<lparr>wk_dispatch_dp_rank := d_set mesh dp_rank (wk_dispatch_dp_rank w),
                  wk_collect_dp_rank := d_set mesh is_collect (wk_collect_dp_rank w)\<rparr>))"

definition query_dispatch_info :: "string \<Rightarrow> worker \<Rightarrow> nat res" where
  "query_dispatch_info mesh w =
     (case map_of (wk_dispatch_dp_rank w) mesh of
        None \<Rightarrow> Inl (AssertionError ''mesh_name is not registered'') | Some r \<Rightarrow> Inr r)"

definition query_collect_info :: "string \<Rightarrow> worker \<Rightarrow> bool res" where
  "query_collect_info mesh w =
     (case map_of (wk_collect_dp_rank w) mesh of
        None \<Rightarrow> Inl (AssertionError ''mesh_name is not registered'') | Some b \<Rightarrow> Inr b)"

definition set_dispatch_collect :: "string \<Rightarrow> (string \<times> nat) list \<Rightarrow> (string \<times> bool) list \<Rightarrow> worker \<Rightarrow> worker res" where
  "set_dispatch_collect mesh ranks collects w =
     (if map_of (wk_dispatch_dp_rank w) mesh \<noteq> None \<or> map_of (wk_collect_dp_rank w) mesh \<noteq> None
      then Inl (AssertionError ''mesh_name is already registered'')
      else Inr (w\<lparr>wk_dispatch_dp_rank := fold (\<lambda>(k, r). d_set mesh r) ranks (wk_dispatch_dp_rank w),
                  wk_collect_dp_rank := fold (\<lambda>(k, b). d_set mesh b) collects (wk_collect_dp_rank w)\<rparr>))"

definition mesh_dispatch_info :: "string \<Rightarrow> wgroup \<Rightarrow> (nat list \<times> wgroup) res" where
  "mesh_dispatch_info mesh g =
     (case map_of (wg_dispatch_info g) mesh of
        Some m \<Rightarrow> Inr (m, g)
      | None \<Rightarrow>
          bind_res (map_res (query_dispatch_info mesh) (wg_workers g)) (\<lambda>m.
            if length m = wg_world_size g then Inr (m, g\<lparr>wg_dispatch_info := d_set mesh m (wg_dispatch_info g)\<rparr>)
            else Inl (AssertionError ''len(dispatch_info) == worker_group.world_size'')))"

definition dispatch_lazy_compute_data_proto :: "bool \<Rightarrow> ('a, 'b) td_lib \<Rightarrow> string \<Rightarrow> ('a, 'b) dispatch_fn" where
  "dispatch_lazy_compute_data_proto auto lib mesh g args kwargs =
     bind_res (mesh_dispatch_info mesh g) (\<lambda>(m, g').
       if m = [] then Inl (ValueError ''max() iterable argument is empty'')
       else bind_res (dispatch_nd_compute_dataproto auto lib m (Max (set m) + 1) g' args kwargs) (\<lambda>(as, ks).
         Inr (sends g' args kwargs as ks)))"

definition collect_lazy_compute_data_proto :: "('a, 'b) td_lib \<Rightarrow> string \<Rightarrow> ('a, 'b) collect_fn" where
  "collect_lazy_compute_data_proto lib mesh g output =
     (if map_of (wg_dispatch_info g) mesh = None then Inl (AssertionError ''mesh_name in worker_group._dispatch_info'')
      else bind_res
        (case map_of (wg_collect_info g) mesh of
           Some bs \<Rightarrow> Inr (bs, g)
         | None \<Rightarrow>
             bind_res (map_res (query_collect_info mesh) (wg_workers g)) (\<lambda>bs.
               if length bs = wg_world_size g then Inr (bs, g\<lparr>wg_collect_info := d_set mesh bs (wg_collect_info g)\<rparr>)
               else Inl (AssertionError ''len(collect_info) == worker_group.world_size'')))
        (\<lambda>(bs, g'). bind_res (collect_nd_compute_dataproto lib bs g' output) (\<lambda>v. Inr (v, g'))))"

section \<open>A call\<close>

text \<open>
  On the worker, references among the arguments have been resolved; the wrapper made by \<open>register\<close> then
  materialises futures. \<open>execute_all_async\<close> scatters the arguments only when all of them are lists, of the
  length of the group, and sends them whole otherwise.
\<close>

type_synonym ('a, 'b) remote_method = "nat \<Rightarrow> ('a, 'b) wval list \<Rightarrow> ('a, 'b) wkw \<Rightarrow> ('a, 'b) wval res"

fun resolve_ref :: "('a, 'b) wval \<Rightarrow> ('a, 'b) wval res" where
  "resolve_ref (VRef r) = r"
| "resolve_ref v = Inr v"

fun materialize :: "bool \<Rightarrow> ('a, 'b) td_lib \<Rightarrow> ('a, 'b) wval \<Rightarrow> ('a, 'b) wval res" where
  "materialize auto lib (VFuture fs dispatch) = w_future_get auto lib fs dispatch"
| "materialize auto lib v = Inr v"

definition materialize_futures :: "bool \<Rightarrow> ('a, 'b) td_lib \<Rightarrow> ('a, 'b) wval list \<Rightarrow> ('a, 'b) wkw
    \<Rightarrow> (('a, 'b) wval list \<times> ('a, 'b) wkw) res" where
  "materialize_futures auto lib args kwargs =
     bind_res (map_res (materialize auto lib) args) (\<lambda>as.
     bind_res (map_values_res (materialize auto lib) kwargs) (\<lambda>ks. Inr (as, ks)))"

definition registered :: "bool \<Rightarrow> ('a, 'b) td_lib \<Rightarrow> bool \<Rightarrow> ('a, 'b) remote_method \<Rightarrow> ('a, 'b) remote_method" where
  "registered auto lib do_materialize m rank args kwargs =
     bind_res (if do_materialize then materialize_futures auto lib args kwargs else Inr (args, kwargs))
       (\<lambda>(as, ks). m rank as ks)"

definition remote :: "('a, 'b) remote_method \<Rightarrow> nat \<Rightarrow> ('a, 'b) wval list \<Rightarrow> ('a, 'b) wkw \<Rightarrow> ('a, 'b) wval" where
  "remote m rank args kwargs =
     VRef (bind_res (map_res resolve_ref args) (\<lambda>as. bind_res (map_values_res resolve_ref kwargs) (m rank as)))"

definition list_items :: "('a, 'b) wval \<Rightarrow> ('a, 'b) wval list" where
  "list_items v = the_default [] (elements v)"

definition execute_all :: "wgroup \<Rightarrow> ('a, 'b) remote_method \<Rightarrow> ('a, 'b) wval list \<Rightarrow> ('a, 'b) wkw \<Rightarrow> ('a, 'b) wval res" where
  "execute_all g m args kwargs =
     (let n = length (wg_workers g); vs = args @ map snd kwargs
      in if list_all is_VList vs \<and> list_all (\<lambda>v. length (list_items v) = n) vs
         then Inr (VList (map (\<lambda>i. remote m i (map (\<lambda>a. list_items a ! i) args) (map_values (\<lambda>v. list_items v ! i) kwargs)) [0..<n]))
         else Inr (VList (map (\<lambda>i. remote m i args kwargs) [0..<n])))"

definition execute_rank_zero :: "wgroup \<Rightarrow> ('a, 'b) remote_method \<Rightarrow> ('a, 'b) wval list \<Rightarrow> ('a, 'b) wkw \<Rightarrow> ('a, 'b) wval res" where
  "execute_rank_zero g m args kwargs = (if wg_workers g = [] then Inl IndexError else Inr (remote m 0 args kwargs))"

fun padding_count :: "('a, 'b) wkw \<Rightarrow> int" where
  "padding_count kwargs = (case map_of kwargs padding_size_key of Some (VObj (PInt p)) \<Rightarrow> p | _ \<Rightarrow> 0)"

fun drop_padding :: "nat \<Rightarrow> ('a, 'b) wval \<Rightarrow> ('a, 'b) wval res" where
  "drop_padding p (VProto d) = map_sum id VProto (select_idxs d (IntIdx (map int [0..<dp_len d - p])))"
| "drop_padding p (VList vs) = Inr (VList (take (length vs - p) vs))"
| "drop_padding p v = Inr v"

text \<open>
  The method that \<open>func_generator\<close> makes. Besides the result it gives the state of the caller's arguments and
  of the group.
\<close>

definition call_method ::
  "('a, 'b) dispatch_fn \<Rightarrow> ('a, 'b) collect_fn
    \<Rightarrow> (wgroup \<Rightarrow> ('a, 'b) remote_method \<Rightarrow> ('a, 'b) wval list \<Rightarrow> ('a, 'b) wkw \<Rightarrow> ('a, 'b) wval res)
    \<Rightarrow> bool \<Rightarrow> ('a, 'b) remote_method \<Rightarrow> wgroup \<Rightarrow> ('a, 'b) wval list \<Rightarrow> ('a, 'b) wkw
    \<Rightarrow> (('a, 'b) wval \<times> ('a, 'b) wval list \<times> ('a, 'b) wkw \<times> wgroup) res" where
  "call_method dispatch collect execute blocking m g args kwargs =
     bind_res (dispatch g args kwargs) (\<lambda>s.
     let p = nat (padding_count (se_kwargs s)); kw = filter (\<lambda>(k, v). k \<noteq> padding_size_key) (se_kwargs s)
     in bind_res (execute (se_group s) m (se_args s) kw) (\<lambda>refs.
        bind_res (if blocking then ray_get refs else Inr refs) (\<lambda>out.
        bind_res (collect (se_group s) out) (\<lambda>(out1, g').
        bind_res (if 0 < p then drop_padding p out1 else Inr out1) (\<lambda>res.
          Inr (res, se_caller_args s, se_caller_kwargs s, g'))))))"

section \<open>Dispatch modes\<close>

text \<open>
  \<open>DynamicEnum\<close>: members are their name and their value. \<open>DISPATCH_MODE_FN_REGISTRY\<close> maps members to functions.
\<close>

type_synonym enum_member = "string \<times> nat"

record enum_class =
  en_registry :: "(string \<times> enum_member) list"
  en_next_value :: nat

definition enum_register :: "string \<Rightarrow> enum_class \<Rightarrow> (enum_member \<times> enum_class) res" where
  "enum_register name e =
     (let key = py_upper name; member = (key, en_next_value e)
      in if map_of (en_registry e) key \<noteq> None then Inl (ValueError ''already registered'')
         else Inr (member, \<lparr>en_registry = d_set key member (en_registry e), en_next_value = en_next_value e + 1\<rparr>))"

definition enum_remove :: "string \<Rightarrow> enum_class \<Rightarrow> (enum_member \<times> enum_class) res" where
  "enum_remove name e =
     (let key = py_upper name
      in case map_of (en_registry e) key of
           None \<Rightarrow> Inl (KeyError key)
         | Some member \<Rightarrow> Inr (member, e\<lparr>en_registry := AList.delete key (en_registry e)\<rparr>))"

definition enum_from_name :: "string \<Rightarrow> enum_class \<Rightarrow> enum_member option" where
  "enum_from_name name e = map_of (en_registry e) (py_upper name)"

definition enum_contains :: "string \<Rightarrow> enum_class \<Rightarrow> bool" where
  "enum_contains item e \<longleftrightarrow> map_of (en_registry e) item \<noteq> None"

definition enum_names :: "enum_class \<Rightarrow> string list" where
  "enum_names e = map fst (en_registry e)"

definition enum_values :: "enum_class \<Rightarrow> enum_member list" where
  "enum_values e = map snd (en_registry e)"

definition empty_enum :: enum_class where
  "empty_enum = \<lparr>en_registry = [], en_next_value = 0\<rparr>"

definition register_names :: "string list \<Rightarrow> enum_class res" where
  "register_names names = fold_res (\<lambda>e name. map_sum id snd (enum_register name e)) empty_enum names"

definition init_predefined_dispatch_mode :: "enum_class res" where
  "init_predefined_dispatch_mode = register_names
     [''RANK_ZERO'', ''ONE_TO_ALL'', ''ALL_TO_ALL'', ''DP_COMPUTE'', ''DP_COMPUTE_PROTO'', ''DP_COMPUTE_PROTO_WITH_FUNC'',
      ''DP_COMPUTE_METRIC'', ''DIRECT_ROLLOUT_METHOD'']"

definition init_predefined_execute_mode :: "enum_class res" where
  "init_predefined_execute_mode = register_names [''ALL'', ''RANK_ZERO'']"

record 'f mode_state =
  ms_dispatch :: enum_class
  ms_functions :: "(enum_member \<times> 'f) list"

definition predefined_functions :: "bool \<Rightarrow> ('a, 'b) td_lib
    \<Rightarrow> (string \<times> ('a, 'b) dispatch_fn \<times> ('a, 'b) collect_fn) list" where
  "predefined_functions auto lib =
     [(''ONE_TO_ALL'', dispatch_one_to_all, collect_all_to_all),
      (''ALL_TO_ALL'', dispatch_all_to_all, collect_all_to_all),
      (''DP_COMPUTE'', dispatch_dp_compute, collect_dp_compute),
      (''DP_COMPUTE_PROTO'', dispatch_dp_compute_data_proto auto lib, collect_dp_compute_data_proto lib),
      (''DP_COMPUTE_PROTO_WITH_FUNC'', dispatch_dp_compute_data_proto_with_func auto lib, collect_dp_compute_data_proto lib),
      (''DP_COMPUTE_METRIC'', dispatch_dp_compute_data_proto auto lib, collect_dp_compute),
      (''DIRECT_ROLLOUT_METHOD'', (\<lambda>g args kwargs. dummy_direct_rollout_call), (\<lambda>g out. dummy_direct_rollout_call))]"

text \<open>The table as it is when the module has been loaded: the functions of the predefined names.\<close>

definition initial_modes :: "(string \<times> 'f) list \<Rightarrow> 'f mode_state res" where
  "initial_modes fns =
     bind_res init_predefined_dispatch_mode (\<lambda>e.
     bind_res (map_res (\<lambda>(name, f). case enum_from_name name e of
         None \<Rightarrow> Inl (TypeError ''no such member'') | Some mem \<Rightarrow> Inr (mem, f)) fns) (\<lambda>tab.
       Inr \<lparr>ms_dispatch = e, ms_functions = tab\<rparr>))"

definition get_predefined_dispatch_fn :: "enum_member \<Rightarrow> 'f mode_state \<Rightarrow> 'f res" where
  "get_predefined_dispatch_fn mode st =
     (case map_of (ms_functions st) mode of None \<Rightarrow> Inl (KeyError (fst mode)) | Some f \<Rightarrow> Inr f)"

definition register_dispatch_mode :: "string \<Rightarrow> 'f \<Rightarrow> 'f mode_state \<Rightarrow> 'f mode_state res" where
  "register_dispatch_mode name f st =
     bind_res (enum_register name (ms_dispatch st)) (\<lambda>(mode, e).
       if map_of (ms_functions st) mode \<noteq> None then Inl (AssertionError ''already exists'')
       else Inr \<lparr>ms_dispatch = e, ms_functions = AList.update mode f (ms_functions st)\<rparr>)"

definition update_dispatch_mode :: "enum_member \<Rightarrow> 'f \<Rightarrow> 'f mode_state \<Rightarrow> 'f mode_state res" where
  "update_dispatch_mode mode f st =
     (if map_of (ms_functions st) mode = None then Inl (AssertionError ''not found'')
      else Inr (st\<lparr>ms_functions := AList.update mode f (ms_functions st)\<rparr>))"

text \<open>
  What \<open>_bind_worker_method\<close> reads from the attributes of a method: its mode is a member of the enumeration or a pair
  of functions of its own.
\<close>

datatype 'f mode = Member enum_member | Own 'f

definition bound_functions :: "'f mode \<Rightarrow> 'f mode_state \<Rightarrow> 'f res" where
  "bound_functions mode st = (case mode of Member mem \<Rightarrow> get_predefined_dispatch_fn mem st | Own f \<Rightarrow> Inr f)"

definition get_predefined_execute_fn ::
  "string \<Rightarrow> (wgroup \<Rightarrow> ('a, 'b) remote_method \<Rightarrow> ('a, 'b) wval list \<Rightarrow> ('a, 'b) wkw \<Rightarrow> ('a, 'b) wval res) res" where
  "get_predefined_execute_fn mode =
     (if mode = ''ALL'' then Inr execute_all else if mode = ''RANK_ZERO'' then Inr execute_rank_zero
      else Inl (KeyError mode))"

section \<open>Calls over a mesh\<close>

text \<open>
  A method works on rows when on a part of the rows of its arguments it gives that part of the rows of its
  result, on whatever rank it runs.
\<close>

definition on_rows :: "nat \<Rightarrow> ('a, 'b) data_proto list \<Rightarrow> (string \<times> ('a, 'b) data_proto) list
    \<Rightarrow> (('a, 'b) data_proto list \<Rightarrow> (string \<times> ('a, 'b) data_proto) list \<Rightarrow> ('a, 'b) data_proto) \<Rightarrow> bool" where
  "on_rows n ds kds F \<longleftrightarrow>
     dp_wf (F ds kds) \<and> dp_len (F ds kds) = n \<and> plain_meta (dp_meta (F ds kds)) \<and>
     (\<forall>is. set is \<subseteq> {..<n} \<longrightarrow> F (map (dp_take is) ds) (map_values (dp_take is) kds) = dp_take is (F ds kds))"

definition works_as :: "('a, 'b) remote_method \<Rightarrow>
    (('a, 'b) data_proto list \<Rightarrow> (string \<times> ('a, 'b) data_proto) list \<Rightarrow> ('a, 'b) data_proto) \<Rightarrow> bool" where
  "works_as m F \<longleftrightarrow> (\<forall>rank ds kds. m rank (map VProto ds) (map_values VProto kds) = Inr (VProto (F ds kds)))"

definition same_rows :: "nat \<Rightarrow> ('a, 'b) data_proto list \<Rightarrow> bool" where
  "same_rows n ds \<longleftrightarrow> (\<forall>d\<in>set ds. dp_wf d \<and> dp_len d = n)"

lemma map_values_res_pure:
  "(\<And>k v. (k, v) \<in> set kw \<Longrightarrow> f v = Inr (g v)) \<Longrightarrow> map_values_res f kw = Inr (map_values g kw)"
  unfolding map_values_res_def map_values_def by (rule map_res_pure) auto

lemma split_even:
  assumes "dp_wf d" "dp_len d = n" "0 < k" "k dvd n" "0 < n"
  shows "split_arg auto lib k (VProto d) = Inr (VList (map (\<lambda>i. VProto (dp_take (even_chunk n k i) d)) [0..<k]))"
  using dp_chunk_even[of d k auto] assms by (simp add: split_arg_def o_def)

lemma split_all_even:
  assumes "same_rows n (ds @ map snd kds)" "0 < k" "k dvd n" "0 < n"
  shows "split_args_kwargs_data_proto auto lib k (map VProto ds) (map_values VProto kds)
    = Inr (map (\<lambda>d. VList (map (\<lambda>i. VProto (dp_take (even_chunk n k i) d)) [0..<k])) ds,
           map_values (\<lambda>d. VList (map (\<lambda>i. VProto (dp_take (even_chunk n k i) d)) [0..<k])) kds)"
proof -
  let ?c = "\<lambda>d. VList (map (\<lambda>i. VProto (dp_take (even_chunk n k i) d)) [0..<k])"
  have each: "split_arg auto lib k (VProto d) = Inr (?c d)" if "d \<in> set (ds @ map snd kds)" for d
    using assms that by (intro split_even) (auto simp: same_rows_def)
  have "map_res (split_arg auto lib k) (map VProto ds) = Inr (map ?c ds)"
    unfolding map_res_map by (intro map_res_pure each) auto
  moreover have "map_values_res (split_arg auto lib k) (map_values VProto kds) = Inr (map_values ?c kds)"
    unfolding map_values_res_def map_values_def map_res_map
  proof (rule map_res_pure)
    fix x assume x: "x \<in> set kds"
    obtain key d where "x = (key, d)" by (cases x)
    with x have "d \<in> set (ds @ map snd kds)" by force
    from each[OF this] show "(case case x of (k, v) \<Rightarrow> (k, VProto v) of (ka, v) \<Rightarrow> map_sum id (Pair ka) (split_arg auto lib k v))
        = Inr (case x of (ka, v) \<Rightarrow> (ka, ?c v))" using \<open>x = (key, d)\<close> by simp
  qed
  ultimately show ?thesis by (simp add: split_args_kwargs_data_proto_def)
qed

lemma nd_arg_of:
  assumes "length ranks = W" "set ranks \<subseteq> {..<k}"
  shows "nd_arg ranks k W (VList (map f [0..<k])) = Inr (VList (map f ranks))"
proof -
  have "bind_res (nth_res ranks i) (nth_res (map f [0..<k])) = Inr (f (ranks ! i))" if "i < W" for i
    using that assms by (auto simp: nth_res_def dest!: nth_mem)
  then have "map_res (\<lambda>i. bind_res (nth_res ranks i) (nth_res (map f [0..<k]))) [0..<W] = Inr (map (\<lambda>i. f (ranks ! i)) [0..<W])"
    by (intro map_res_pure) auto
  also have "map (\<lambda>i. f (ranks ! i)) [0..<W] = map f ranks"
    using assms(1) by (intro nth_equalityI) auto
  finally show ?thesis by (simp add: nd_arg_def)
qed

lemma nd_dispatch_of:
  assumes args: "as \<noteq> []" and k: "0 < k" and len: "length ranks = wg_world_size g" "set ranks \<subseteq> {..<k}"
  shows "dispatch_nd_compute ranks k g (map (\<lambda>a. VList (map (f a) [0..<k])) as) (map_values (\<lambda>a. VList (map (f a) [0..<k])) ks)
    = Inr (map (\<lambda>a. VList (map (\<lambda>r. VRef (Inr (f a r))) ranks)) as, map_values (\<lambda>a. VList (map (\<lambda>r. VRef (Inr (f a r))) ranks)) ks)"
proof -
  let ?c = "\<lambda>a. VList (map (f a) [0..<k])" and ?p = "\<lambda>a. VList (map (\<lambda>i. VRef (Inr (f a i))) [0..<k])"
  obtain a rest where a: "as = a # rest" using args by (cases as) auto
  have put: "parallel_put (?c a) = Inr (?p a)" for a using k by (simp add: parallel_put_def o_def)
  have nd: "nd_arg ranks k (wg_world_size g) (?p a) = Inr (VList (map (\<lambda>r. VRef (Inr (f a r))) ranks))" for a
    by (rule nd_arg_of[OF len])
  have "map_res parallel_put (map ?c as) = Inr (map ?p as)"
    "map_res (nd_arg ranks k (wg_world_size g)) (map ?p as) = Inr (map (\<lambda>a. VList (map (\<lambda>r. VRef (Inr (f a r))) ranks)) as)"
    unfolding map_res_map by (intro map_res_pure put nd)+
  moreover have "map_values_res parallel_put (map_values ?c ks) = Inr (map_values ?p ks)"
    "map_values_res (nd_arg ranks k (wg_world_size g)) (map_values ?p ks) = Inr (map_values (\<lambda>a. VList (map (\<lambda>r. VRef (Inr (f a r))) ranks)) ks)"
    unfolding map_values_res_def map_values_def map_res_map by (intro map_res_pure; auto simp: put nd)+
  ultimately show ?thesis by (simp add: dispatch_nd_compute_def a)
qed

lemma filter_zip_snd: "map snd (filter fst (zip bs (map f rs))) = map f (map snd (filter fst (zip bs rs)))"
  by (induction bs rs rule: list_induct2') auto

lemma resolve_refs:
  "map_res resolve_ref (map (\<lambda>x. VRef (Inr (f x))) as) = Inr (map f as)"
  "map_values_res resolve_ref (map_values (\<lambda>x. VRef (Inr (f x))) ks) = Inr (map_values f ks)"
  "map_res resolve_ref (map VProto ds) = Inr (map VProto ds)"
  "map_values_res resolve_ref (map_values VProto kds) = Inr (map_values VProto kds)"
  unfolding map_values_res_def map_values_def map_res_map by (intro map_res_pure; auto)+

lemma registered_runs: "works_as m F \<Longrightarrow> works_as (registered auto lib b m) F"
proof -
  assume m: "works_as m F"
  have "materialize_futures auto lib (map VProto ds) (map_values VProto kds) = Inr (map VProto ds, map_values VProto kds)" for ds kds
  proof -
    have "map_res (materialize auto lib) (map VProto ds) = Inr (map VProto ds)"
      unfolding map_res_map by (intro map_res_pure) simp
    moreover have "map_values_res (materialize auto lib) (map_values VProto kds) = Inr (map_values VProto kds)"
      unfolding map_values_res_def map_values_def map_res_map by (intro map_res_pure) auto
    ultimately show ?thesis by (simp add: materialize_futures_def)
  qed
  then show ?thesis using m by (simp add: works_as_def registered_def)
qed

text \<open>Arguments scattered to all workers, one part for each.\<close>

lemma execute_all_scattered:
  assumes "length (wg_workers g) = W"
  shows "execute_all g m (map (\<lambda>a. VList (map (f a) [0..<W])) as) (map_values (\<lambda>a. VList (map (f a) [0..<W])) ks)
    = Inr (VList (map (\<lambda>i. remote m i (map (\<lambda>a. f a i) as) (map_values (\<lambda>a. f a i) ks)) [0..<W]))"
proof -
  let ?a = "\<lambda>a. VList (map (f a) [0..<W])"
  have lists: "list_all is_VList (map ?a as @ map snd (map_values ?a ks))"
    "list_all (\<lambda>v. length (list_items v) = W) (map ?a as @ map snd (map_values ?a ks))"
    by (auto simp: list_all_iff map_values_def list_items_def)
  have "map_values (\<lambda>v. list_items v ! i) (map_values ?a ks) = map_values (\<lambda>a. f a i) ks" if "i < W" for i
    using that unfolding map_values_map_values by (intro map_values_cong) (simp add: list_items_def)
  moreover have "map (\<lambda>a. list_items a ! i) (map ?a as) = map (\<lambda>a. f a i) as" if "i < W" for i
    using that by (simp add: list_items_def)
  ultimately show ?thesis using lists assms
    by (simp add: execute_all_def Let_def cong: map_cong del: map_map)
qed

text \<open>
  The workers of the mesh have ranks below \<open>k\<close>, and the workers that collect are, in order, one of each rank.
\<close>

definition mesh_layout :: "string \<Rightarrow> nat \<Rightarrow> wgroup \<Rightarrow> nat list \<Rightarrow> bool list \<Rightarrow> bool" where
  "mesh_layout mesh k g ranks colls \<longleftrightarrow>
     length (wg_workers g) = wg_world_size g \<and>
     map_res (query_dispatch_info mesh) (wg_workers g) = Inr ranks \<and>
     map_res (query_collect_info mesh) (wg_workers g) = Inr colls \<and>
     map_of (wg_dispatch_info g) mesh \<in> {None, Some ranks} \<and> map_of (wg_collect_info g) mesh \<in> {None, Some colls} \<and>
     set ranks \<subseteq> {..<k} \<and> map snd (filter fst (zip colls ranks)) = [0..<k]"

definition asked :: "string \<Rightarrow> nat list \<Rightarrow> bool list \<Rightarrow> wgroup \<Rightarrow> wgroup" where
  "asked mesh ranks colls g =
     (let g1 = (if map_of (wg_dispatch_info g) mesh = None then g\<lparr>wg_dispatch_info := d_set mesh ranks (wg_dispatch_info g)\<rparr> else g)
      in if map_of (wg_collect_info g1) mesh = None then g1\<lparr>wg_collect_info := d_set mesh colls (wg_collect_info g1)\<rparr> else g1)"

lemma mesh_layout_asked: "mesh_layout mesh k g ranks colls \<Longrightarrow> mesh_layout mesh k (asked mesh ranks colls g) ranks colls"
  by (simp add: mesh_layout_def asked_def Let_def)

lemma mesh_rank_count:
  assumes "mesh_layout mesh k g ranks colls" "0 < k"
  shows "ranks \<noteq> []" "Suc (Max (set ranks)) = k" "length ranks = wg_world_size g" "length colls = wg_world_size g"
proof -
  have "k - 1 \<in> set [0..<k]" using assms(2) by simp
  then have "k - 1 \<in> set (map snd (filter fst (zip colls ranks)))" using assms(1) by (simp add: mesh_layout_def)
  then have top: "k - 1 \<in> set ranks" by (auto dest: set_zip_rightD)
  then show "ranks \<noteq> []" by auto
  have "Max (set ranks) = k - 1"
    using top assms by (intro Max_eqI) (auto simp: mesh_layout_def)
  then show "Suc (Max (set ranks)) = k" using assms(2) by simp
  show "length ranks = wg_world_size g" "length colls = wg_world_size g"
    using assms(1) by (auto simp: mesh_layout_def dest!: map_res_length)
qed

lemma concat_chunks:
  assumes wf: "dp_wf d" "dp_len d = n" "plain_meta (dp_meta d)" and k: "0 < k" "k dvd n"
  shows "dp_concat (map (\<lambda>i. dp_take (even_chunk n k i) d) [0..<k]) = Inr d"
proof -
  have "dp_concat (map (\<lambda>is. dp_take is d) (map (even_chunk n k) [0..<k])) = Inr (dp_take (concat (map (even_chunk n k) [0..<k])) d)"
    using k(1) by (intro dp_concat_takes wf(1,3)) auto
  then show ?thesis using even_chunks_cover[OF k] dp_take_all[OF wf(1)] wf(2) by (simp add: o_def)
qed

lemma as_protos: "map_res as_proto (map VProto ds) = Inr ds"
  using map_res_pure[of ds "\<lambda>d. as_proto (VProto d)" "\<lambda>d. d"] by (simp add: map_res_map)

lemma concat_parts:
  assumes wf: "dp_wf d" "dp_len d = n" "plain_meta (dp_meta d)" and k: "0 < k" "k dvd n"
  shows "concat_data_proto_or_future lib (VList (map (\<lambda>i. VProto (dp_take (even_chunk n k i) d)) [0..<k])) = Inr (VProto d)"
proof -
  let ?ds = "map (\<lambda>i. dp_take (even_chunk n k i) d) [0..<k]"
  obtain d0 ds where ds: "?ds = d0 # ds" using k(1) by (cases ?ds) auto
  have out: "map (\<lambda>i. VProto (dp_take (even_chunk n k i) d)) [0..<k] = map VProto ?ds" by simp
  show ?thesis unfolding out using concat_chunks[OF wf k] as_protos[of ?ds] ds
    by (simp add: concat_data_proto_or_future_def bd_concat_def list_all_iff)
qed

lemma mesh_collect_of:
  assumes L: "mesh_layout mesh k g ranks colls" and k: "0 < k"
  shows "collect_nd_compute colls g (VList (map f ranks)) = Inr (VList (map f [0..<k]))"
proof -
  note len = mesh_rank_count[OF L k]
  have "map_res (nth_res colls) [0..<wg_world_size g] = Inr (map ((!) colls) [0..<wg_world_size g])"
    using len by (intro map_res_pure) (simp add: nth_res_def)
  also have "map ((!) colls) [0..<wg_world_size g] = colls" using len(4) map_nth by metis
  finally have "map_res (nth_res colls) [0..<wg_world_size g] = Inr colls" .
  moreover have "map snd (filter fst (zip colls (map f ranks))) = map f [0..<k]"
    using L unfolding filter_zip_snd by (simp add: mesh_layout_def)
  ultimately show ?thesis using len(3) by (simp add: collect_nd_compute_def)
qed

lemma mesh_dispatch_of:
  assumes L: "mesh_layout mesh k g ranks colls" and k: "0 < k" "k dvd n" "0 < n"
    and rows: "same_rows n (ds @ map snd kds)" "ds \<noteq> []"
  shows "\<exists>g1. dispatch_lazy_compute_data_proto auto lib mesh g (map VProto ds) (map_values VProto kds)
      = Inr (sends g1 (map VProto ds) (map_values VProto kds)
          (map (\<lambda>d. VList (map (\<lambda>r. VRef (Inr (VProto (dp_take (even_chunk n k r) d)))) ranks)) ds)
          (map_values (\<lambda>d. VList (map (\<lambda>r. VRef (Inr (VProto (dp_take (even_chunk n k r) d)))) ranks)) kds))
      \<and> mesh_layout mesh k g1 ranks colls \<and> map_of (wg_dispatch_info g1) mesh = Some ranks
      \<and> wg_world_size g1 = wg_world_size g \<and> asked mesh ranks colls g1 = asked mesh ranks colls g"
proof -
  note len = mesh_rank_count[OF L k(1)]
  obtain g1 where g1: "mesh_dispatch_info mesh g = Inr (ranks, g1)" "mesh_layout mesh k g1 ranks colls"
      "map_of (wg_dispatch_info g1) mesh = Some ranks" "wg_world_size g1 = wg_world_size g"
      "asked mesh ranks colls g1 = asked mesh ranks colls g"
  proof (cases "map_of (wg_dispatch_info g) mesh")
    case None
    show ?thesis using L None len
      by (intro that[of "g\<lparr>wg_dispatch_info := d_set mesh ranks (wg_dispatch_info g)\<rparr>"])
         (auto simp: mesh_dispatch_info_def mesh_layout_def asked_def Let_def)
  next
    case (Some m)
    then show ?thesis using L by (intro that[of g]) (auto simp: mesh_dispatch_info_def mesh_layout_def)
  qed
  have "dispatch_nd_compute ranks k g1
        (map (\<lambda>d. VList (map (\<lambda>i. VProto (dp_take (even_chunk n k i) d)) [0..<k])) ds)
        (map_values (\<lambda>d. VList (map (\<lambda>i. VProto (dp_take (even_chunk n k i) d)) [0..<k])) kds)
      = Inr (map (\<lambda>d. VList (map (\<lambda>r. VRef (Inr (VProto (dp_take (even_chunk n k r) d)))) ranks)) ds,
          map_values (\<lambda>d. VList (map (\<lambda>r. VRef (Inr (VProto (dp_take (even_chunk n k r) d)))) ranks)) kds)"
    using L len g1(4) by (intro nd_dispatch_of rows k) (auto simp: mesh_layout_def)
  then show ?thesis using g1 len split_all_even[OF rows(1) k, of auto]
    by (auto simp: dispatch_lazy_compute_data_proto_def dispatch_nd_compute_dataproto_def)
qed

lemma remote_rows:
  assumes m: "works_as m F" and F: "on_rows n ds kds F" and "set is \<subseteq> {..<n}"
  shows "remote m rank (map (\<lambda>d. VRef (Inr (VProto (dp_take is d)))) ds)
      (map_values (\<lambda>d. VRef (Inr (VProto (dp_take is d)))) kds) = VRef (Inr (VProto (dp_take is (F ds kds))))"
    "remote m rank (map (\<lambda>d. VProto (dp_take is d)) ds) (map_values (\<lambda>d. VProto (dp_take is d)) kds)
      = VRef (Inr (VProto (dp_take is (F ds kds))))"
proof -
  let ?as = "map (dp_take is) ds" and ?ks = "map_values (dp_take is) kds"
  have F: "m rank (map VProto ?as) (map_values VProto ?ks) = Inr (VProto (dp_take is (F ds kds)))"
    using m F assms(3) by (simp add: works_as_def on_rows_def del: map_map)
  have "remote m rank (map (\<lambda>d. VRef (Inr (VProto d))) ?as) (map_values (\<lambda>d. VRef (Inr (VProto d))) ?ks) = VRef (Inr (VProto (dp_take is (F ds kds))))"
    using F unfolding remote_def resolve_refs bind_res_simps by simp
  moreover have "remote m rank (map VProto ?as) (map_values VProto ?ks) = VRef (Inr (VProto (dp_take is (F ds kds))))"
    using F unfolding remote_def resolve_refs bind_res_simps by simp
  ultimately show "remote m rank (map (\<lambda>d. VRef (Inr (VProto (dp_take is d)))) ds)
      (map_values (\<lambda>d. VRef (Inr (VProto (dp_take is d)))) kds) = VRef (Inr (VProto (dp_take is (F ds kds))))"
    "remote m rank (map (\<lambda>d. VProto (dp_take is d)) ds) (map_values (\<lambda>d. VProto (dp_take is d)) kds)
      = VRef (Inr (VProto (dp_take is (F ds kds))))"
    by (simp_all add: map_values_map_values o_def)
qed

lemma ray_get_refs: "ray_get (VList (map (\<lambda>x. VRef (Inr (f x))) xs)) = Inr (VList (map f xs))"
  unfolding ray_get.simps map_res_map by (simp add: map_res_pure)

lemma no_padding:
  assumes "padding_size_key \<notin> fst ` set kds"
  shows "padding_count (map_values f kds) = 0" "filter (\<lambda>(k, v). k \<noteq> padding_size_key) (map_values f kds) = map_values f kds"
proof -
  have "map_of (map_values f kds) padding_size_key = None"
    using assms by (simp add: map_of_eq_None_iff)
  then show "padding_count (map_values f kds) = 0" by simp
  have "k \<noteq> padding_size_key" if "(k, v) \<in> set (map_values f kds)" for k v
    using assms that by (force simp: map_values_def)
  then show "filter (\<lambda>(k, v). k \<noteq> padding_size_key) (map_values f kds) = map_values f kds"
    by (auto simp: filter_id_conv)
qed

lemma call_method_of:
  assumes "dispatch g args kwargs = Inr s" "nat (padding_count (se_kwargs s)) = p"
    "filter (\<lambda>(k, v). k \<noteq> padding_size_key) (se_kwargs s) = kw"
    "execute (se_group s) m (se_args s) kw = Inr refs" "ray_get refs = Inr out"
    "collect (se_group s) out = Inr (out1, g')" "(if 0 < p then drop_padding p out1 else Inr out1) = Inr res"
  shows "call_method dispatch collect execute True m g args kwargs = Inr (res, se_caller_args s, se_caller_kwargs s, g')"
  using assms(7) by (simp only: call_method_def Let_def bind_res_simps assms(1-6) if_True) simp

text \<open>
  C31. A call over a device mesh is transparent: for a method that works on rows, whose arguments have a common number
  of rows, a multiple of the number of data-parallel ranks, the call returns what the method gives on the whole
  arguments, in the order of the rows, whatever ranks share a part and whether or not the group has asked its workers
  before. The arguments of the caller are unchanged, and the layout is still known to the group afterwards.
\<close>

theorem mesh_call_transparent:
  assumes L: "mesh_layout mesh k g ranks colls" and k: "0 < k" "k dvd n" "0 < n"
    and rows: "same_rows n (ds @ map snd kds)" "ds \<noteq> []" "padding_size_key \<notin> fst ` set kds"
    and m: "works_as m F" and F: "on_rows n ds kds F"
  shows "call_method (dispatch_lazy_compute_data_proto auto lib mesh) (collect_lazy_compute_data_proto lib mesh) execute_all True
           (registered auto lib b m) g (map VProto ds) (map_values VProto kds)
         = Inr (VProto (F ds kds), map VProto ds, map_values VProto kds, asked mesh ranks colls g)
       \<and> mesh_layout mesh k (asked mesh ranks colls g) ranks colls"
proof -
  let ?part = "\<lambda>r. dp_take (even_chunk n k r) (F ds kds)"
  obtain g1 where g1: "dispatch_lazy_compute_data_proto auto lib mesh g (map VProto ds) (map_values VProto kds)
      = Inr (sends g1 (map VProto ds) (map_values VProto kds)
          (map (\<lambda>d. VList (map (\<lambda>r. VRef (Inr (VProto (dp_take (even_chunk n k r) d)))) ranks)) ds)
          (map_values (\<lambda>d. VList (map (\<lambda>r. VRef (Inr (VProto (dp_take (even_chunk n k r) d)))) ranks)) kds))"
    and L1: "mesh_layout mesh k g1 ranks colls" "map_of (wg_dispatch_info g1) mesh = Some ranks"
    and same: "asked mesh ranks colls g1 = asked mesh ranks colls g"
    using mesh_dispatch_of[OF L k rows(1,2), of auto] by blast
  have len: "length ranks = length (wg_workers g1)"
    using mesh_rank_count[OF L1(1) k(1)] L1(1) by (simp add: mesh_layout_def)
  have part: "remote (registered auto lib b m) i
        (map (\<lambda>d. VRef (Inr (VProto (dp_take (even_chunk n k r) d)))) ds)
        (map_values (\<lambda>d. VRef (Inr (VProto (dp_take (even_chunk n k r) d)))) kds) = VRef (Inr (VProto (?part r)))"
    if "r \<in> set ranks" for i r
  proof (rule remote_rows(1)[OF registered_runs[OF m] F])
    have "r < k" using that L by (auto simp: mesh_layout_def)
    then show "set (even_chunk n k r) \<subseteq> {..<n}" using chunk_within[OF _ k(2)] by (fastforce simp: even_chunk_def)
  qed
  have ranks: "map (\<lambda>r. f r) ranks = map (\<lambda>i. f (ranks ! i)) [0..<length (wg_workers g1)]" for f :: "nat \<Rightarrow> 'x"
    using len by (intro nth_equalityI) auto
  have scatter: "execute_all g1 (registered auto lib b m)
      (map (\<lambda>d. VList (map (\<lambda>r. VRef (Inr (VProto (dp_take (even_chunk n k r) d)))) ranks)) ds)
      (map_values (\<lambda>d. VList (map (\<lambda>r. VRef (Inr (VProto (dp_take (even_chunk n k r) d)))) ranks)) kds)
      = Inr (VList (map (\<lambda>r. VRef (Inr (VProto (?part r)))) ranks))"
    unfolding ranks using execute_all_scattered[OF refl, of g1 "registered auto lib b m"
        "\<lambda>d i. VRef (Inr (VProto (dp_take (even_chunk n k (ranks ! i)) d)))" ds kds] part len
    by simp
  have collect: "collect_lazy_compute_data_proto lib mesh g1 (VList (map (\<lambda>r. VProto (?part r)) ranks))
      = Inr (VProto (F ds kds), asked mesh ranks colls g1)"
  proof -
    have "collect_nd_compute_dataproto lib colls g' (VList (map (\<lambda>r. VProto (?part r)) ranks)) = Inr (VProto (F ds kds))"
      if "mesh_layout mesh k g' ranks colls" for g'
      using mesh_collect_of[OF that k(1), of "\<lambda>r. VProto (?part r)"] concat_parts[of "F ds kds" n k lib] F k
      by (auto simp: collect_nd_compute_dataproto_def on_rows_def is_concatable_def upt_rec[of 0 k])
    then show ?thesis using L1 mesh_rank_count[OF L1(1) k(1)] mesh_layout_asked[OF L1(1)]
      by (cases "map_of (wg_collect_info g1) mesh")
        (auto simp: collect_lazy_compute_data_proto_def asked_def Let_def mesh_layout_def)
  qed
  let ?s = "sends g1 (map VProto ds) (map_values VProto kds)
          (map (\<lambda>d. VList (map (\<lambda>r. VRef (Inr (VProto (dp_take (even_chunk n k r) d)))) ranks)) ds)
          (map_values (\<lambda>d. VList (map (\<lambda>r. VRef (Inr (VProto (dp_take (even_chunk n k r) d)))) ranks)) kds)"
  have "call_method (dispatch_lazy_compute_data_proto auto lib mesh) (collect_lazy_compute_data_proto lib mesh) execute_all True
      (registered auto lib b m) g (map VProto ds) (map_values VProto kds)
    = Inr (VProto (F ds kds), se_caller_args ?s, se_caller_kwargs ?s, asked mesh ranks colls g1)"
    by (rule call_method_of[where s = ?s and p = 0 and kw = "se_kwargs ?s" and ?out1.0 = "VProto (F ds kds)"
          and refs = "VList (map (\<lambda>r. VRef (Inr (VProto (?part r)))) ranks)" and out = "VList (map (\<lambda>r. VProto (?part r)) ranks)"])
      (simp_all only: g1 sent.simps no_padding[OF rows(3)] ray_get_refs scatter collect nat_0 if_False less_irrefl)
  then show ?thesis using same mesh_layout_asked[OF L] by simp
qed

section \<open>Calls with automatic padding\<close>

definition pad_count :: "nat \<Rightarrow> nat \<Rightarrow> nat" where
  "pad_count n W = (if 0 < n mod W then W - n mod W else 0)"

definition pad_last :: "nat \<Rightarrow> nat \<Rightarrow> nat list" where
  "pad_last n p = [0..<n] @ replicate p (n - 1)"

lemma pad_count_dvd: "0 < W \<Longrightarrow> W dvd n + pad_count n W"
proof (cases "0 < n mod W")
  case True
  assume W: "0 < W"
  then have "n mod W \<le> W" by (simp add: less_imp_le)
  then have "n + (W - n mod W) = (n div W) * W + W" using div_mult_mod_eq[of n W] by linarith
  then have "n + (W - n mod W) = (n div W + 1) * W" by simp
  then show ?thesis using True unfolding pad_count_def by (metis dvd_triv_right)
qed (auto simp: pad_count_def)

lemma pad_last_within: "0 < n \<Longrightarrow> set (pad_last n p) \<subseteq> {..<n}"
  by (auto simp: pad_last_def)

lemma length_pad_last [simp]: "length (pad_last n p) = n + p"
  by (simp add: pad_last_def)

lemma dp_padding_last:
  assumes wf: "dp_wf d" "dp_len d = n" "plain_meta (dp_meta d)" and n: "0 < n"
  shows "dp_padding d p [] = Inr (dp_take (pad_last n p) d)"
proof (cases "p = 0")
  case True
  then show ?thesis using dp_take_all[OF wf(1)] wf(2) by (simp add: dp_padding_def pad_last_def)
next
  case False
  have "resolve_idxs (dp_len d) (IntIdx [int n - 1]) = Inr [n - 1]"
    using n wf(2) by (auto simp: resolve_idxs_def Let_def)
  then have last: "select_idxs d (IntIdx [int n - 1]) = Inr (dp_take [n - 1] d)" by (rule select_idxs_take[OF wf(1)])
  have c: "dp_wf (dp_take [n - 1] d)" "dp_len (dp_take [n - 1] d) = 1"
    using n wf by (simp_all add: dp_wf_take dp_len_take)
  have "repeat_each p [0..<Suc 0] = replicate p 0" by (simp add: repeat_each_def)
  moreover have "dp_take (replicate p 0) (dp_take [n - 1] d) = dp_take (replicate p (n - 1)) d"
    by (subst dp_take_take) (auto simp: take_idx_def)
  ultimately have part: "dp_repeat (dp_take [n - 1] d) p True = Inr (dp_take (replicate p (n - 1)) d)"
    using dp_repeat_take[OF c(1), of p True] c(2) by simp
  have "dp_concat [d, dp_take (replicate p (n - 1)) d] = Inr (dp_take (pad_last n p) d)"
    using dp_concat_takes[OF wf(1,3), of "[[0..<n], replicate p (n - 1)]"] dp_take_all[OF wf(1)] wf(2)
    by (simp add: pad_last_def)
  then show ?thesis using False last part wf(2) by (simp add: dp_padding_def dp_take_def)
qed

lemma on_rows_take:
  assumes "on_rows n ds kds F" "set is \<subseteq> {..<n}"
  shows "on_rows (length is) (map (dp_take is) ds) (map_values (dp_take is) kds) F"
proof -
  have sub: "set (take_idx js is) \<subseteq> {..<n}" if "set js \<subseteq> {..<length is}" for js
    using that assms(2) by (auto simp: take_idx_def subset_iff)
  have "F (map (dp_take js) (map (dp_take is) ds)) (map_values (dp_take js) (map_values (dp_take is) kds))
      = dp_take js (dp_take is (F ds kds))" if "set js \<subseteq> {..<length is}" for js
    using assms(1) sub[OF that] that by (simp add: on_rows_def map_values_map_values o_def dp_take_take)
  then show ?thesis using assms unfolding on_rows_def by (auto simp: dp_wf_take dp_len_take)
qed

lemma pad_split_of:
  assumes "\<forall>d\<in>set ds. dp_wf d \<and> dp_len d = n \<and> plain_meta (dp_meta d) \<and> is_padding_enabled auto d"
    and "0 < n" "0 < W" "st = None \<or> st = Some (n, pad_count n W)"
  shows "pad_split_all auto lib W st (map VProto ds)
    = Inr (if ds = [] then st else Some (n, pad_count n W),
           map (\<lambda>d. VProto (dp_take (pad_last n (pad_count n W)) d)) ds,
           map (\<lambda>d. VList (map (\<lambda>i. VProto (dp_take (even_chunk (n + pad_count n W) W i) (dp_take (pad_last n (pad_count n W)) d))) [0..<W])) ds)"
  using assms
proof (induction ds arbitrary: st)
  case (Cons d ds)
  let ?p = "pad_count n W"
  let ?d = "dp_take (pad_last n ?p) d"
  have wf: "dp_wf d" "dp_len d = n" "plain_meta (dp_meta d)" "is_padding_enabled auto d" using Cons.prems(1) by auto
  have padded: "dp_wf ?d" "dp_len ?d = n + ?p"
    using wf pad_last_within[OF Cons.prems(2)] by (simp_all add: dp_wf_take dp_len_take)
  have "dp_chunk auto ?d W = Inr (map (\<lambda>i. dp_take (even_chunk (n + ?p) W i) ?d) [0..<W])"
    using dp_chunk_even[OF padded(1) Cons.prems(3)] pad_count_dvd[OF Cons.prems(3)] padded(2) Cons.prems(2) by simp
  then have "padding_and_split_data auto lib W st (VProto d)
      = Inr (Some (n, ?p), VProto ?d, VList (map (\<lambda>i. VProto (dp_take (even_chunk (n + ?p) W i) ?d)) [0..<W]))"
    using wf Cons.prems(2-4) dp_padding_last[OF wf(1-3) Cons.prems(2), of ?p]
    by (auto simp: padding_and_split_data_def pad_count_def o_def)
  then show ?case using Cons.IH[of "Some (n, ?p)"] Cons.prems by simp
qed simp

abbreviation padded :: "nat \<Rightarrow> nat \<Rightarrow> ('a, 'b) data_proto \<Rightarrow> ('a, 'b) data_proto" where
  "padded n W d \<equiv> dp_take (pad_last n (pad_count n W)) d"

abbreviation padded_part :: "nat \<Rightarrow> nat \<Rightarrow> nat \<Rightarrow> ('a, 'b) data_proto \<Rightarrow> ('a, 'b) data_proto" where
  "padded_part n W i d \<equiv> dp_take (even_chunk (n + pad_count n W) W i) (padded n W d)"

definition paddable :: "bool \<Rightarrow> nat \<Rightarrow> ('a, 'b) data_proto list \<Rightarrow> bool" where
  "paddable auto n ds \<longleftrightarrow> ds \<noteq> [] \<and> (\<forall>d\<in>set ds. dp_wf d \<and> dp_len d = n \<and> plain_meta (dp_meta d) \<and> is_padding_enabled auto d)"

abbreviation padded_sent :: "nat \<Rightarrow> wgroup \<Rightarrow> ('a, 'b) data_proto list \<Rightarrow> ('a, 'b) sent" where
  "padded_sent n g ds \<equiv> (let W = wg_world_size g
     in sends g (map (\<lambda>d. VProto (padded n W d)) ds) []
          (map (\<lambda>d. VList (map (\<lambda>i. VProto (padded_part n W i d)) [0..<W])) ds)
          [(padding_size_key, VObj (PInt (int (pad_count n W))))])"

lemma padded_dispatch:
  assumes "0 < wg_world_size g" "0 < n" "paddable auto n ds"
  shows "dispatch_dp_compute_data_proto auto lib g (map VProto ds) [] = Inr (padded_sent n g ds)"
  using pad_split_of[of ds n auto "wg_world_size g" None] assms
  by (auto simp: dispatch_dp_compute_data_proto_def split_with_auto_padding_def d_set_def paddable_def Let_def)

lemma padded_scatter:
  assumes W: "length (wg_workers g) = wg_world_size g" "0 < wg_world_size g" and n: "0 < n"
    and m: "works_as m F" and F: "on_rows n ds [] F"
  shows "execute_all g (registered auto lib b m) (se_args (padded_sent n g ds)) []
    = Inr (VList (map (\<lambda>i. VRef (Inr (VProto (padded_part n (wg_world_size g) i (F ds []))))) [0..<wg_world_size g]))"
proof -
  let ?W = "wg_world_size g" and ?p = "pad_count n (wg_world_size g)"
  let ?N = "n + ?p" and ?ds = "map (padded n ?W) ds"
  have FP: "on_rows ?N ?ds [] F" "F ?ds [] = padded n ?W (F ds [])"
    using on_rows_take[OF F pad_last_within[OF n], of ?p] F pad_last_within[OF n] by (simp_all add: map_values_def on_rows_def)
  have part: "remote (registered auto lib b m) i (map (\<lambda>d. VProto (dp_take (even_chunk ?N ?W i) d)) ?ds) []
      = VRef (Inr (VProto (padded_part n ?W i (F ds []))))" if "i < ?W" for i
  proof -
    have "set (even_chunk ?N ?W i) \<subseteq> {..<?N}" using chunk_within[OF that pad_count_dvd[OF W(2), of n]] by (fastforce simp: even_chunk_def)
    from remote_rows(2)[OF registered_runs[OF m] FP(1) this] show ?thesis by (simp add: FP(2) map_values_def)
  qed
  show ?thesis
    using execute_all_scattered[OF W(1), of "registered auto lib b m" "\<lambda>d i. VProto (dp_take (even_chunk ?N ?W i) d)" ?ds "[]"] part
    by (simp add: map_values_def Let_def o_def)
qed

lemma padded_whole:
  assumes "on_rows n ds [] F" "0 < n"
  shows "dp_wf (padded n W (F ds []))" "dp_len (padded n W (F ds [])) = n + pad_count n W" "plain_meta (dp_meta (padded n W (F ds [])))"
  using assms pad_last_within[OF assms(2)] by (simp_all add: on_rows_def dp_wf_take dp_len_take)

lemma padded_parts_join:
  assumes "on_rows n ds [] F" "0 < n" "0 < W"
  shows "concat_data_proto_or_future lib (VList (map (\<lambda>i. VProto (padded_part n W i (F ds []))) [0..<W])) = Inr (VProto (padded n W (F ds [])))"
  by (rule concat_parts[OF padded_whole[OF assms(1,2)] assms(3) pad_count_dvd[OF assms(3)]])

text \<open>
  C32. A call with automatic padding is transparent: for any number of rows and any number of workers, the workers get
  equal parts of the arguments padded with copies of their last row, and the call returns what the method gives on the
  arguments themselves, without rows for the padding. But the objects of the caller stay padded.
\<close>

theorem auto_padding_transparent:
  fixes ds :: "('a, 'b) data_proto list"
  assumes W: "length (wg_workers g) = wg_world_size g" "0 < wg_world_size g" and n: "0 < n"
    and ds: "paddable auto n ds" and m: "works_as m F" and F: "on_rows n ds [] F"
  shows "call_method (dispatch_dp_compute_data_proto auto lib) (collect_dp_compute_data_proto lib) execute_all True
      (registered auto lib b m) g (map VProto ds) []
    = Inr (VProto (F ds []), map (\<lambda>d. VProto (dp_take (pad_last n (pad_count n (wg_world_size g))) d)) ds, [], g)"
proof -
  let ?W = "wg_world_size g" and ?s = "padded_sent n g ds"
  let ?p = "pad_count n ?W" and ?q = "padded n ?W (F ds [])"
  note whole = padded_whole[OF F n, of ?W]
  have collect: "collect_dp_compute_data_proto lib g (VList (map (\<lambda>i. VProto (padded_part n ?W i (F ds []))) [0..<?W])) = Inr (VProto ?q, g)"
    using padded_parts_join[OF F n W(2), of lib] W(2)
    by (auto simp: collect_dp_compute_data_proto_def collect_dp_compute_def is_concatable_def upt_rec[of 0 ?W])
  have rows: "dp_take [0..<n] (F ds []) = F ds []" using F dp_take_all[of "F ds []"] by (simp add: on_rows_def)
  have "take_idx [0..<n] (pad_last n ?p) = [0..<n]" by (intro nth_equalityI) (simp_all add: pad_last_def nth_append)
  then have front: "dp_take [0..<n] ?q = F ds []" using rows by (subst dp_take_take) auto
  have "resolve_idxs (n + ?p) (IntIdx (map int [0..<n])) = Inr [0..<n]"
    by (auto simp: resolve_idxs_def Let_def map_res_map intro!: map_res_pure[where g = "\<lambda>x. x", simplified])
  then have "select_idxs ?q (IntIdx (map int [0..<n])) = Inr (F ds [])"
    using select_idxs_take[OF whole(1)] whole(2) front by simp
  then have drop: "(if 0 < ?p then drop_padding ?p (VProto ?q) else Inr (VProto ?q)) = Inr (VProto (F ds []))"
    using whole(2) rows by (auto simp: pad_last_def)
  have "call_method (dispatch_dp_compute_data_proto auto lib) (collect_dp_compute_data_proto lib) execute_all True
      (registered auto lib b m) g (map VProto ds) [] = Inr (VProto (F ds []), se_caller_args ?s, se_caller_kwargs ?s, g)"
    by (rule call_method_of[where s = ?s and p = ?p and kw = "[]" and ?out1.0 = "VProto ?q"
          and refs = "VList (map (\<lambda>i. VRef (Inr (VProto (padded_part n ?W i (F ds []))))) [0..<?W])" and out = "VList (map (\<lambda>i. VProto (padded_part n ?W i (F ds []))) [0..<?W])"])
      (simp_all add: padded_dispatch[OF W(2) n ds] padded_scatter[OF W n m F, unfolded Let_def sent.simps] ray_get_refs collect drop Let_def
        del: ray_get.simps drop_padding.simps)
  then show ?thesis by (simp add: Let_def)
qed

definition ex_bump :: "(nat, nat) data_proto list \<Rightarrow> (string \<times> (nat, nat) data_proto) list \<Rightarrow> (nat, nat) data_proto" where
  "ex_bump ds kds = (case ds of [] \<Rightarrow> ex_proto | d # _ \<Rightarrow> d\<lparr>dp_non_tensor := map_values (map Suc) (dp_non_tensor d)\<rparr>)"

definition ex_method :: "(nat, nat) remote_method" where
  "ex_method rank args kwargs = (case args of VProto d # _ \<Rightarrow> Inr (VProto (ex_bump [d] [])) | _ \<Rightarrow> Inr (VProto (ex_bump [] [])))"

lemma ex_method_runs: "works_as ex_method ex_bump"
  by (auto simp: works_as_def ex_method_def ex_bump_def split: list.splits)

lemma ex_bump_on_rows: "on_rows 3 [ex_proto] [] ex_bump"
proof -
  have "dp_len (ex_bump [ex_proto] []) = 3" "plain_meta (dp_meta (ex_bump [ex_proto] []))" "dp_wf (ex_bump [ex_proto] [])"
    by (simp_all add: ex_bump_def ex_proto_def dp_wf_def cols_wf_def batch_cols_def dp_len_def plain_meta_def map_values_def)
  moreover have "ex_bump [dp_take is ex_proto] [] = dp_take is (ex_bump [ex_proto] [])" if "set is \<subseteq> {..<3}" for "is"
    using that by (auto simp: ex_bump_def ex_proto_def dp_take_def map_values_def take_idx_def subset_iff numeral_3_eq_3 less_Suc_eq)
  ultimately show ?thesis by (simp add: on_rows_def map_values_def)
qed

definition ex_worker :: "nat \<Rightarrow> bool \<Rightarrow> worker" where
  "ex_worker r c = \<lparr>wk_dispatch_dp_rank = [(''actor'', r)], wk_collect_dp_rank = [(''actor'', c)]\<rparr>"

definition ex_group :: wgroup where
  "ex_group = \<lparr>wg_workers = [ex_worker 0 True, ex_worker 0 False, ex_worker 1 False, ex_worker 1 True, ex_worker 2 True, ex_worker 2 False],
     wg_world_size = 6, wg_dispatch_info = [], wg_collect_info = []\<rparr>"

definition ex_td_lib :: "('a, 'b) td_lib" where
  "ex_td_lib = \<lparr>tl_cat = Stack, tl_shape = (\<lambda>x. [1]), tl_padded = (\<lambda>r n x. x), tl_prefix = (\<lambda>n x. x), tl_unbinds = (\<lambda>r xs. True)\<rparr>"

theorem mesh_call_transparent_witness:
  "\<exists>g'. call_method (dispatch_lazy_compute_data_proto False ex_td_lib ''actor'') (collect_lazy_compute_data_proto ex_td_lib ''actor'') execute_all True
      (registered False ex_td_lib True ex_method) ex_group [VProto ex_proto] [] = Inr (VProto (ex_bump [ex_proto] []), [VProto ex_proto], [], g')"
proof -
  have "[0..<3] = [0, 1, 2 :: nat]" by code_simp
  then have L: "mesh_layout ''actor'' 3 ex_group [0, 0, 1, 1, 2, 2] [True, False, False, True, True, False]"
    by (simp add: mesh_layout_def ex_group_def ex_worker_def query_dispatch_info_def query_collect_info_def)
  have rows: "same_rows 3 ([ex_proto] @ map snd [])" using ex_proto_ok by (simp add: same_rows_def)
  have "call_method (dispatch_lazy_compute_data_proto False ex_td_lib ''actor'') (collect_lazy_compute_data_proto ex_td_lib ''actor'') execute_all True
      (registered False ex_td_lib True ex_method) ex_group (map VProto [ex_proto]) (map_values VProto [])
    = Inr (VProto (ex_bump [ex_proto] []), map VProto [ex_proto], map_values VProto [],
        asked ''actor'' [0, 0, 1, 1, 2, 2] [True, False, False, True, True, False] ex_group)"
    by (rule conjunct1[OF mesh_call_transparent[OF L _ _ _ rows _ _ ex_method_runs ex_bump_on_rows]]) simp_all
  then show ?thesis unfolding map_values_def list.map by blast
qed

theorem auto_padding_transparent_witness:
  "call_method (dispatch_dp_compute_data_proto True ex_td_lib) (collect_dp_compute_data_proto ex_td_lib) execute_all True
      (registered True ex_td_lib True ex_method) ex_group [VProto ex_proto] []
    = Inr (VProto (ex_bump [ex_proto] []), [VProto (dp_take [0, 1, 2, 2, 2, 2] ex_proto)], [], ex_group)"
proof -
  have "pad_last 3 (pad_count 3 (wg_world_size ex_group)) = [0, 1, 2, 2, 2, 2]" by code_simp
  moreover have "length (wg_workers ex_group) = wg_world_size ex_group" "0 < wg_world_size ex_group" "paddable True 3 [ex_proto]"
    using ex_proto_ok by (simp_all add: paddable_def is_padding_enabled_def ex_group_def)
  ultimately show ?thesis
    using auto_padding_transparent[of ex_group 3 True "[ex_proto]" ex_method ex_bump ex_td_lib True, OF _ _ _ _ ex_method_runs ex_bump_on_rows]
    by (simp only: list.map zero_less_numeral)
qed

section \<open>What the padding and the splitting miss\<close>

text \<open>
  The removal of the padding looks only at what the collect function returns. Without blocking that is a future, which
  keeps the rows of the padding. In the mode for metrics it is the list with one result per worker, and the results of
  the last workers are dropped, as many as there are rows of padding.
\<close>

lemma unblocked_call_keeps_padding:
  assumes W: "length (wg_workers g) = wg_world_size g" "0 < wg_world_size g" and n: "0 < n"
    and ds: "paddable auto n ds" and m: "works_as m F" and F: "on_rows n ds [] F"
  shows "\<exists>refs. call_method (dispatch_dp_compute_data_proto auto lib) (collect_dp_compute_data_proto lib) execute_all False
      (registered auto lib b m) g (map VProto ds) []
      = Inr (VFuture refs None, map (\<lambda>d. VProto (padded n (wg_world_size g) d)) ds, [], g)
    \<and> w_future_get auto lib refs None = Inr (VProto (padded n (wg_world_size g) (F ds [])))"
proof -
  let ?W = "wg_world_size g"
  let ?ps = "map (\<lambda>i. padded_part n ?W i (F ds [])) [0..<?W]"
  let ?refs = "map (\<lambda>i. VRef (Inr (VProto (padded_part n ?W i (F ds []))))) [0..<?W]"
  obtain p0 ps where ps: "?ps = p0 # ps" using W(2) by (cases ?ps) auto
  have refs: "?refs = map (\<lambda>p. VRef (Inr (VProto p))) ?ps" "map (\<lambda>i. VProto (padded_part n ?W i (F ds []))) [0..<?W] = map VProto ?ps"
    by simp_all
  have "dp_concat ?ps = Inr (padded n ?W (F ds []))"
    by (rule concat_chunks[OF padded_whole[OF F n] W(2) pad_count_dvd[OF W(2)]])
  moreover have "map_res deref ?refs = Inr (map VProto ?ps)" unfolding map_res_map by (simp add: map_res_pure)
  ultimately have "w_future_get auto lib ?refs None = Inr (VProto (padded n ?W (F ds [])))"
    using as_protos[of ?ps] ps by (simp add: w_future_get_def)
  moreover have "collect_dp_compute_data_proto lib g (VList ?refs) = Inr (VFuture ?refs None, g)"
    using W(2) unfolding refs ps
    by (auto simp: collect_dp_compute_data_proto_def collect_dp_compute_def is_concatable_def concat_data_proto_or_future_def
        bd_concat_def list_all_iff arg_cong[OF ps, of length, simplified])
  ultimately show ?thesis
    using padded_dispatch[OF W(2) n ds] padded_scatter[OF W n m F, of auto lib b]
    by (intro exI[of _ ?refs]) (simp add: call_method_def Let_def padding_size_key_def)
qed

lemma metric_mode_loses_workers:
  assumes W: "length (wg_workers g) = wg_world_size g" "0 < wg_world_size g" and n: "0 < n"
    and ds: "paddable auto n ds" and m: "works_as m F" and F: "on_rows n ds [] F" and rest: "n mod wg_world_size g \<noteq> 0"
  shows "call_method (dispatch_dp_compute_data_proto auto lib) collect_dp_compute execute_all True
      (registered auto lib b m) g (map VProto ds) []
    = Inr (VList (map (\<lambda>i. VProto (padded_part n (wg_world_size g) i (F ds []))) [0..<n mod wg_world_size g]),
        map (\<lambda>d. VProto (padded n (wg_world_size g) d)) ds, [], g)"
proof -
  let ?W = "wg_world_size g" and ?s = "padded_sent n g ds"
  let ?out = "map (\<lambda>i. VProto (padded_part n ?W i (F ds []))) [0..<?W]"
  have p: "pad_count n ?W = ?W - n mod ?W" "n mod ?W < ?W" using rest W(2) by (simp_all add: pad_count_def)
  have drop: "(if 0 < pad_count n ?W then drop_padding (pad_count n ?W) (VList ?out) else Inr (VList ?out))
      = Inr (VList (map (\<lambda>i. VProto (padded_part n ?W i (F ds []))) [0..<n mod ?W]))"
    using p by (simp add: take_map)
  have "call_method (dispatch_dp_compute_data_proto auto lib) collect_dp_compute execute_all True
      (registered auto lib b m) g (map VProto ds) []
    = Inr (VList (map (\<lambda>i. VProto (padded_part n ?W i (F ds []))) [0..<n mod ?W]), se_caller_args ?s, se_caller_kwargs ?s, g)"
    by (rule call_method_of[where s = ?s and p = "pad_count n ?W" and kw = "[]" and out = "VList ?out"
          and refs = "VList (map (\<lambda>i. VRef (Inr (VProto (padded_part n ?W i (F ds []))))) [0..<?W])" and ?out1.0 = "VList ?out", OF _ _ _ _ _ _ drop])
      (simp_all add: padded_dispatch[OF W(2) n ds] padded_scatter[OF W n m F, unfolded Let_def sent.simps] ray_get_refs collect_dp_compute_def Let_def
        del: ray_get.simps drop_padding.simps)
  then show ?thesis by (simp add: Let_def)
qed

text \<open>Over a mesh, a call that has keyword arguments only raises: the number of threads is taken from \<open>args[0]\<close>.\<close>

lemma keyword_only_mesh_call_raises:
  assumes "same_rows n (map snd kds)" "0 < k" "k dvd n" "0 < n"
  shows "dispatch_nd_compute_dataproto auto lib ranks k g [] (map_values VProto kds) = Inl IndexError"
  using split_all_even[of n "[]" kds k auto] assms by (simp add: dispatch_nd_compute_dataproto_def dispatch_nd_compute_def)

text \<open>
  With a function as the first argument, the chunks of a TensorDict come as a tuple, which \<open>execute_all_async\<close> does not
  scatter: every worker gets the list of functions and all the chunks.
\<close>

lemma tensordict_chunks_not_scattered:
  assumes "chunk_tensordict lib d (wg_world_size g) = Inr ds" "map_res contiguous_td ds = Inr es" "length es = wg_world_size g"
  shows "bind_res (dispatch_dp_compute_data_proto_with_func auto lib g [VFun f, VTd d] []) (\<lambda>s. execute_all g m (se_args s) (se_kwargs s))
    = Inr (VList (map (\<lambda>i. remote m i [VList (replicate (wg_world_size g) (VFun f)), VTuple (map VTd es)] []) [0..<length (wg_workers g)]))"
  using assms
  by (simp add: dispatch_dp_compute_data_proto_with_func_def split_args_kwargs_data_proto_def split_arg_def map_values_res_def execute_all_def)

text \<open>The predefined mode \<open>RANK_ZERO\<close> has no functions.\<close>

lemma rank_zero_mode_has_no_functions:
  "\<exists>st mode. initial_modes (predefined_functions auto lib) = Inr st \<and> enum_from_name ''rank_zero'' (ms_dispatch st) = Some mode
     \<and> get_predefined_dispatch_fn mode st = Inl (KeyError ''RANK_ZERO'')"
  by (simp add: initial_modes_def init_predefined_dispatch_mode_def register_names_def enum_register_def empty_enum_def
      py_upper_def upper_char_def in_range_def d_set_def predefined_functions_def enum_from_name_def get_predefined_dispatch_fn_def Let_def) code_simp

end
