(* ===== verification/RolloutCorr.thy ===== *)
theory RolloutCorr
  imports CoreLoss CoreAdv DataProto PyStrings
begin

text \<open>
  \<open>verl/trainer/ppo/rollout_corr_helper.py\<close>: rejection of tokens and sequences by the divergence between the training
  and the rollout policy, truncated importance weights, their diagnostics, and the bypass mode of
  \<open>core_algos.py\<close>. The text of a number (\<open>str\<close>) is the parameter \<open>rp\<close>, reading one (\<open>float\<close>) the parameter
  \<open>parse\<close>, which gives finite numbers only. The sums over the other ranks in the normalisation of the weights are
  the parameter \<open>others\<close>.
\<close>

type_synonym rc_metrics = "(string \<times> real) list"

section \<open>Threshold specifications\<close>

definition split_once :: "char \<Rightarrow> string \<Rightarrow> string \<times> string" where
  "split_once c s = (takeWhile (\<lambda>x. x \<noteq> c) s, drop 1 (dropWhile (\<lambda>x. x \<noteq> c) s))"

definition parse_rollout_is_threshold :: "(string \<Rightarrow> real option) \<Rightarrow> pyval \<Rightarrow> (real \<times> real option) res" where
  "parse_rollout_is_threshold parse v =
     bind_res
       (case v of
          PBool b \<Rightarrow> Inl (TypeError ''rollout_is_threshold must be specified as a float or a string'')
        | PInt i \<Rightarrow> Inr (of_int i, None)
        | PFloat r \<Rightarrow> Inr (r, None)
        | PStr s \<Rightarrow>
            let spec = py_strip s
            in if spec = [] then Inl (ValueError ''rollout_is_threshold must not be an empty string.'')
               else if CHR ''_'' \<in> set spec then
                 (case (parse (fst (split_once CHR ''_'' spec)), parse (snd (split_once CHR ''_'' spec))) of
                    (Some lower, Some upper) \<Rightarrow> Inr (upper, Some lower)
                  | _ \<Rightarrow> Inl (ValueError ''Invalid rollout_is_threshold''))
               else (case parse spec of Some upper \<Rightarrow> Inr (upper, None) | None \<Rightarrow> Inl (ValueError ''Invalid rollout_is_threshold''))
        | _ \<Rightarrow> Inl (TypeError ''rollout_is_threshold must be a float or a string threshold specification.''))
       (\<lambda>(upper, lower).
          if upper \<le> 0 then Inl (ValueError ''upper bound must be positive'')
          else case lower of
            None \<Rightarrow> Inr (upper, None)
          | Some l \<Rightarrow>
              if l \<le> 0 then Inl (ValueError ''lower bound must be positive'')
              else if upper < l then Inl (ValueError ''lower bound must be <= upper bound.'')
              else Inr (upper, Some l))"

text \<open>The reciprocal of a single bound of a k1 option is formed outside the \<open>try\<close>.\<close>

definition option_threshold ::
  "(string \<Rightarrow> real option) \<Rightarrow> (pyval \<Rightarrow> string) \<Rightarrow> string \<Rightarrow> string \<Rightarrow> (real option \<times> real) res" where
  "option_threshold parse rp opt spec =
     (if ends_with ''k1'' opt then
        bind_res
          (if CHR ''_'' \<in> set spec then Inr (split_once CHR ''_'' spec)
           else case parse spec of
             None \<Rightarrow> Inl (ValueError ''could not convert string to float'')
           | Some u \<Rightarrow> if u = 0 then Inl ZeroDivisionError else Inr (rp (PFloat (1 / u)), spec))
          (\<lambda>(lower_str, upper_str).
             case (parse lower_str, parse upper_str) of
               (Some lower, Some upper) \<Rightarrow>
                 if lower \<le> 0 \<or> upper \<le> 0 then Inl (ValueError ''Thresholds must be positive'') else Inr (Some lower, upper)
             | _ \<Rightarrow> Inl (ValueError ''Invalid numeric threshold''))
      else if CHR ''_'' \<in> set spec then Inl (ValueError ''must provide a single upper bound'')
      else case parse spec of
        None \<Rightarrow> Inl (ValueError ''Invalid numeric threshold'')
      | Some upper \<Rightarrow> if upper \<le> 0 then Inl (ValueError ''Threshold must be positive'') else Inr (None, upper))"

definition stripped_parts :: "string \<Rightarrow> string list" where
  "stripped_parts s = filter (\<lambda>p. p \<noteq> []) (map py_strip (split_char CHR '','' s))"

definition parse_rollout_rs_thresholds ::
  "(string \<Rightarrow> real option) \<Rightarrow> (pyval \<Rightarrow> string) \<Rightarrow> string list \<Rightarrow> pyval \<Rightarrow> (string \<times> real option \<times> real) list res" where
  "parse_rollout_rs_thresholds parse rp options spec =
     bind_res
       (case spec of
          PNone \<Rightarrow> Inl (ValueError ''rollout_rs_threshold must be provided for rejection sampling.'')
        | PBool b \<Rightarrow> Inr [py_str rp spec]
        | PInt i \<Rightarrow> Inr [py_str rp spec]
        | PFloat r \<Rightarrow> Inr [py_str rp spec]
        | PStr s \<Rightarrow> Inr (stripped_parts s)
        | _ \<Rightarrow> Inl (TypeError ''rollout_rs_threshold must be a string or numeric value''))
       (\<lambda>raw.
          if raw = [] then Inl (ValueError ''rollout_rs_threshold must contain at least one threshold value.'')
          else if length raw \<noteq> 1 \<and> length raw \<noteq> length options
          then Inl (ValueError ''rollout_rs_threshold expects either one threshold or one per option'')
          else map_res (\<lambda>(opt, s). map_sum id (Pair opt) (option_threshold parse rp opt s))
                 (zip options (if length raw = 1 then replicate (length options) (hd raw) else raw)))"

section \<open>Rejection\<close>

definition supported_options :: "string list" where
  "supported_options = [''token_k1'', ''token_k2'', ''token_k3'', ''seq_sum_k1'', ''seq_sum_k2'', ''seq_sum_k3'',
     ''seq_mean_k1'', ''seq_mean_k2'', ''seq_mean_k3'', ''seq_max_k2'', ''seq_max_k3'']"

definition safe_log :: "real \<Rightarrow> real" where
  "safe_log x = clamp (- 20) 20 x"

text \<open>The divergence of a token: k1, k2 or k3.\<close>

definition token_stat :: "string \<Rightarrow> real \<Rightarrow> real" where
  "token_stat opt x =
     (let y = safe_log x
      in if ends_with ''k1'' opt then - y else if ends_with ''k2'' opt then y\<^sup>2 / 2 else exp y - 1 - y)"

definition row_sum :: "real list \<Rightarrow> real list \<Rightarrow> real" where
  "row_sum vs ms = sum_list (map2 masked_value vs ms)"

definition row_mean :: "real list \<Rightarrow> real list \<Rightarrow> real" where
  "row_mean vs ms = row_sum vs ms / (sum_list ms + 1 / 10 ^ 8)"

definition valid_values :: "real list \<Rightarrow> real list \<Rightarrow> real list" where
  "valid_values vs ms = map fst (filter (\<lambda>(v, m). m \<noteq> 0) (zip vs ms))"

definition row_max :: "real list \<Rightarrow> real list \<Rightarrow> real" where
  "row_max vs ms = (let us = valid_values vs ms in if us = [] then 0 else Max (set us))"

definition seq_stat :: "string \<Rightarrow> real list \<Rightarrow> real list \<Rightarrow> real" where
  "seq_stat opt vs ms =
     (if starts_with ''seq_sum'' opt then row_sum vs ms else if starts_with ''seq_mean'' opt then row_mean vs ms else row_max vs ms)"

definition token_level :: "string \<Rightarrow> bool" where
  "token_level opt \<longleftrightarrow> opt \<in> {''token_k1'', ''token_k2'', ''token_k3''}"

text \<open>The statistic that decides about each token of a row; with a sequence option it is the same for all tokens.\<close>

definition stat_row :: "string \<Rightarrow> real list \<Rightarrow> real list \<Rightarrow> real list" where
  "stat_row opt xs ms =
     (let st = map (token_stat opt) xs in if token_level opt then st else replicate (length xs) (seq_stat opt st ms))"

definition in_bounds :: "real option \<times> real \<Rightarrow> real \<Rightarrow> bool" where
  "in_bounds th v = (case th of (Some lower, upper) \<Rightarrow> ln lower \<le> v \<and> v \<le> ln upper | (None, upper) \<Rightarrow> v \<le> upper)"

definition stat_tensor :: "string \<Rightarrow> rtensor \<Rightarrow> rtensor \<Rightarrow> rtensor" where
  "stat_tensor opt lr mk = Tensor2 (tcols lr) (map2 (stat_row opt) (trows lr) (trows mk))"

definition fraction :: "bool list \<Rightarrow> real" where
  "fraction bs = list_mean (map as_num bs)"

definition compute_rs_metrics ::
  "string \<Rightarrow> rtensor \<Rightarrow> rtensor \<Rightarrow> real list option \<Rightarrow> real \<Rightarrow> real \<Rightarrow> bool \<Rightarrow> rc_metrics res" where
  "compute_rs_metrics opt stat mk per_seq upper lower apply_lower =
     (if \<not> list_ex (\<lambda>m. m \<noteq> 0) (tflat mk) then Inl (ValueError ''response_mask must contain at least one valid token (1).'')
      else
        let p = ''rollout_rs_'' @ opt;
            seq_values = (case per_seq of Some vs \<Rightarrow> vs | None \<Rightarrow> map2 row_mean (trows stat) (trows mk));
            valid = map fst (filter (\<lambda>(v, r). 0 < sum_list r) (zip seq_values (trows mk)));
            tokens = valid_values (tflat stat) (tflat mk);
            seqs = (per_seq \<noteq> None \<and> valid \<noteq> []);
            cl = map_tensor2 (clamp (if apply_lower then lower else 0) upper) stat;
            mean = verlF_masked_mean cl mk
        in Inr ([(p @ ''_mean'', verlF_masked_mean stat mk),
            (p @ ''_max'', Max (set (if seqs then valid else tokens))),
            (p @ ''_min'', Min (set (if seqs then valid else tokens))),
            (p @ ''_fraction_high'', if seqs then fraction (map (\<lambda>v. upper < v) valid)
               else verlF_masked_mean (map_tensor2 (\<lambda>v. as_num (upper < v)) stat) mk),
            (p @ ''_fraction_low'', if \<not> apply_lower then 0 else if seqs then fraction (map (\<lambda>v. v < lower) valid)
               else verlF_masked_mean (map_tensor2 (\<lambda>v. as_num (v < lower)) stat) mk),
            (p @ ''_std'', if 1 < tsum mk then sqrt (max 0 (verlF_masked_mean (map_tensor2 (\<lambda>v. v\<^sup>2) cl) mk - mean\<^sup>2)) else 0)]
          @ (if valid \<noteq> [] then
               [(p @ ''_seq_mean'', list_mean valid),
                (p @ ''_seq_std'', if 1 < length valid then std_of valid else 0),
                (p @ ''_seq_max'', Max (set valid)), (p @ ''_seq_min'', Min (set valid)),
                (p @ ''_seq_max_deviation'', Max (set (map abs valid))),
                (p @ ''_seq_fraction_high'', fraction (map (\<lambda>v. upper < v) valid))]
               @ (if apply_lower then [(p @ ''_seq_fraction_low'', fraction (map (\<lambda>v. v < lower) valid))] else [])
             else map (\<lambda>k. (p @ k, 0)) [''_seq_mean'', ''_seq_std'', ''_seq_max'', ''_seq_min'', ''_seq_max_deviation'',
                 ''_seq_fraction_high'', ''_seq_fraction_low''])))"

text \<open>One option: its keep mask, and its metrics.\<close>

definition keep_tensor :: "string \<Rightarrow> real option \<times> real \<Rightarrow> rtensor \<Rightarrow> rtensor \<Rightarrow> rtensor" where
  "keep_tensor opt th lr mk = map_tensor2 (\<lambda>v. as_num (in_bounds th v)) (stat_tensor opt lr mk)"

definition seqs_with :: "rtensor \<Rightarrow> bool list" where
  "seqs_with mk = map (\<lambda>r. 0 < sum_list r) (trows mk)"

definition seq_masked_fraction :: "rtensor \<Rightarrow> rtensor \<Rightarrow> real" where
  "seq_masked_fraction keep mk =
     (let hit = map2 (\<lambda>ks ms. list_ex (\<lambda>(k, m). k = 0 \<and> m \<noteq> 0) (zip ks ms)) (trows keep) (trows mk);
          n = length (filter id (seqs_with mk))
      in if n = 0 then 0 else sum_list (map2 (\<lambda>h v. as_num h * as_num v) hit (seqs_with mk)) / of_nat n)"

definition option_metrics :: "string \<Rightarrow> real option \<times> real \<Rightarrow> rtensor \<Rightarrow> rtensor \<Rightarrow> rc_metrics res" where
  "option_metrics opt th lr mk =
     (let k1 = ends_with ''k1'' opt;
          upper = (if k1 then ln (snd th) else snd th);
          lower = (case fst th of Some l \<Rightarrow> ln l | None \<Rightarrow> 0);
          keep = keep_tensor opt th lr mk;
          per_seq = (if token_level opt then None
                     else Some (map2 (\<lambda>xs ms. seq_stat opt (map (token_stat opt) xs) ms) (trows lr) (trows mk)))
      in bind_res (compute_rs_metrics opt (stat_tensor opt lr mk) mk per_seq upper lower k1) (\<lambda>m.
           Inr (m @ [(''rollout_rs_'' @ opt @ ''_masked_fraction'', verlF_masked_mean (map_tensor2 (\<lambda>k. 1 - k) keep) mk),
                     (''rollout_rs_'' @ opt @ ''_seq_masked_fraction'', seq_masked_fraction keep mk)])))"

fun distinct_options :: "string list \<Rightarrow> string list \<Rightarrow> string list" where
  "distinct_options seen [] = []"
| "distinct_options seen (x # xs) =
     (if x \<in> set seen then distinct_options seen xs else x # distinct_options (x # seen) xs)"

definition parse_options :: "string \<Rightarrow> string list res" where
  "parse_options s =
     (let modes = stripped_parts s
      in if modes = [] then Inl (ValueError ''rollout_rs must contain at least one valid option.'')
         else if \<not> set modes \<subseteq> set supported_options then Inl (ValueError ''Invalid rollout_rs option'')
         else Inr (distinct_options [] modes))"

definition ones_like :: "rtensor \<Rightarrow> rtensor" where
  "ones_like t = map_tensor2 (\<lambda>_. 1) t"

definition compute_rollout_rejection_mask ::
  "(string \<Rightarrow> real option) \<Rightarrow> (pyval \<Rightarrow> string) \<Rightarrow> rtensor \<Rightarrow> rtensor \<Rightarrow> pyval \<Rightarrow> pyval \<Rightarrow> (rtensor \<times> rc_metrics) res" where
  "compute_rollout_rejection_mask parse rp lr mk rollout_rs threshold =
     (case rollout_rs of
        PStr s \<Rightarrow>
          if threshold = PNone then Inl (ValueError ''rollout_rs_threshold must be provided for rejection sampling.'')
          else if trows lr = [] then Inr (mk, [])
          else
            bind_res (parse_options s) (\<lambda>options.
            bind_res (parse_rollout_rs_thresholds parse rp options threshold) (\<lambda>specs.
            bind_res (map_res (\<lambda>(opt, th). option_metrics opt th lr mk) specs) (\<lambda>ms.
              let final = fold (\<lambda>(opt, th) acc. tmap2 (*) acc (keep_tensor opt th lr mk)) specs (ones_like mk);
                  dropped = map2 (\<lambda>fs rs. list_ex (\<lambda>(f, m). \<not> 1 / 2 < f \<and> m \<noteq> 0) (zip fs rs)) (trows final) (trows mk)
              in Inr (tmap2 (*) mk final,
                   d_update [] (concat ms @
                     [(''rollout_rs_masked_fraction'', verlF_masked_mean (map_tensor2 (\<lambda>f. 1 - f) final) mk),
                      (''rollout_rs_seq_masked_fraction'', fraction dropped)])))))
      | _ \<Rightarrow> Inl (ValueError ''rollout_rs must be a non-empty string''))"

section \<open>Importance weights\<close>

text \<open>The weights before truncation: one per token, or one per sequence for all its tokens; zero on padding.\<close>

definition raw_weights :: "string \<Rightarrow> rtensor \<Rightarrow> rtensor \<Rightarrow> rtensor" where
  "raw_weights level lr mk =
     (if level = ''token'' then tmap2 (\<lambda>x m. exp (safe_log x) * m) lr mk
      else Tensor2 (tcols lr) (map2 (\<lambda>xs ms. map (\<lambda>m. exp (safe_log (row_sum xs ms)) * m) ms) (trows lr) (trows mk)))"

definition truncate_weight :: "real \<times> real option \<Rightarrow> real \<Rightarrow> real" where
  "truncate_weight th w =
     (case snd th of
        None \<Rightarrow> min w (fst th)
      | Some lower \<Rightarrow> if lower \<le> w \<and> w \<le> fst th then w else 0)"

text \<open>The metrics; the last division is one of Python numbers.\<close>

definition compute_is_metrics ::
  "rtensor \<Rightarrow> rtensor \<Rightarrow> real list list \<Rightarrow> rtensor \<Rightarrow> string \<Rightarrow> real \<Rightarrow> real option \<Rightarrow> rc_metrics res" where
  "compute_is_metrics ws raw lr_rows mk level upper lower =
     (if \<not> list_ex (\<lambda>m. m \<noteq> 0) (tflat mk) then Inl (ValueError ''response_mask must contain at least one valid token (1).'')
      else
        let low = the_default (1 / upper) lower;
            logs = concat lr_rows;
            tokens = valid_values (tflat ws) (tflat mk);
            cl = map_tensor2 (clamp 0 upper) ws;
            mean = verlF_masked_mean cl mk;
            ess = verlF_masked_mean (map_tensor2 (\<lambda>w. (w / (mean + 1 / 10 ^ 8))\<^sup>2) cl) mk;
            seq = map2 row_mean (trows ws) (trows mk)
        in if ess = 0 then Inl ZeroDivisionError
           else Inr
            ((if level = ''sequence'' then
                [(''rollout_is_max'', exp (min (Max (set logs)) 20)), (''rollout_is_min'', exp (Min (set logs))),
                 (''rollout_is_mean'', verlF_masked_mean ws mk),
                 (''rollout_is_ratio_fraction_high'', fraction (map (\<lambda>x. ln upper < x) logs)),
                 (''rollout_is_ratio_fraction_low'', fraction (map (\<lambda>x. x < ln low) logs))]
              else
                [(''rollout_is_mean'', verlF_masked_mean ws mk),
                 (''rollout_is_ratio_fraction_high'', verlF_masked_mean (map_tensor2 (\<lambda>w. as_num (upper < w)) raw) mk),
                 (''rollout_is_ratio_fraction_low'', verlF_masked_mean (map_tensor2 (\<lambda>w. as_num (w < low)) raw) mk),
                 (''rollout_is_max'', Max (set tokens)), (''rollout_is_min'', Min (set tokens))])
             @ [(''rollout_is_std'', if 1 < tsum mk then sqrt (max 0 (verlF_masked_mean (map_tensor2 (\<lambda>w. w\<^sup>2) cl) mk - mean\<^sup>2)) else 0),
                (''rollout_is_eff_sample_size'', 1 / ess),
                (''rollout_is_seq_mean'', list_mean seq),
                (''rollout_is_seq_std'', if 1 < length seq then std_of seq else 0),
                (''rollout_is_seq_max'', Max (set seq)), (''rollout_is_seq_min'', Min (set seq)),
                (''rollout_is_seq_max_deviation'', Max (set (map (\<lambda>v. \<bar>v - 1\<bar>) seq))),
                (''rollout_is_seq_fraction_high'', fraction (map (\<lambda>v. upper < v) seq)),
                (''rollout_is_seq_fraction_low'', fraction (map (\<lambda>v. v < low) seq))]))"

text \<open>The mean of the weights by which a batch is normalised; \<open>others\<close> are the sums of the other ranks.\<close>

definition weights_mean :: "(real \<times> real) option \<Rightarrow> string \<Rightarrow> rtensor \<Rightarrow> rtensor \<Rightarrow> fl" where
  "weights_mean others level ws mk =
     (let seq = map2 row_mean (trows ws) (trows mk); sm = seq_mask mk
      in case others of
           None \<Rightarrow> Fin (if level = ''token'' then verlF_masked_mean ws mk
                       else sum_list (map2 (*) seq sm) / max (sum_list sm) (1 / 10 ^ 8))
         | Some (s, n) \<Rightarrow>
             if level = ''token'' then fdiv (Fin (tsum (tmap2 (*) ws mk) + s)) (tsum mk + n)
             else fdiv (Fin (sum_list (map2 (*) seq sm) + s)) (sum_list sm + n))"

definition compute_rollout_correction_weights ::
  "(string \<Rightarrow> real option) \<Rightarrow> (real \<times> real) option \<Rightarrow> rtensor \<Rightarrow> rtensor \<Rightarrow> string \<Rightarrow> pyval \<Rightarrow> bool \<Rightarrow> (rtensor \<times> rc_metrics) res" where
  "compute_rollout_correction_weights parse others lr mk level threshold batch_normalize =
     (if level \<noteq> ''token'' \<and> level \<noteq> ''sequence'' then Inl (ValueError ''Invalid rollout_is'')
      else bind_res (parse_rollout_is_threshold parse threshold) (\<lambda>th.
        let raw = raw_weights level lr mk;
            ws = map_tensor2 (truncate_weight th) raw;
            logs = (if level = ''token'' then trows lr else map2 (\<lambda>xs ms. [row_sum xs ms]) (trows lr) (trows mk))
        in bind_res (compute_is_metrics ws raw logs mk level (fst th) (snd th)) (\<lambda>m.
           let m1 = (case snd th of
                       None \<Rightarrow> m
                     | Some lower \<Rightarrow>
                         m @ [(''rollout_is_oob_ratio'',
                               verlF_masked_mean (map_tensor2 (\<lambda>w. as_num (w < lower \<or> fst th < w)) raw) mk)])
           in if \<not> batch_normalize then Inr (ws, m1)
              else case weights_mean others level ws mk of
                     Fin mean \<Rightarrow>
                       if 1 / 10 ^ 8 < mean
                       then Inr (map_tensor2 (\<lambda>w. w / mean) ws, m1 @ [(''rollout_is_batch_norm_factor'', mean)])
                       else Inr (ws, m1 @ [(''rollout_is_batch_norm_factor'', 1)])
                   | _ \<Rightarrow> Inr (ws, m1 @ [(''rollout_is_batch_norm_factor'', 1)]))))"

section \<open>The pipeline\<close>

definition compute_offpolicy_metrics :: "rtensor \<Rightarrow> rtensor option \<Rightarrow> rtensor \<Rightarrow> rc_metrics res" where
  "compute_offpolicy_metrics old_lp rollout_lp mk =
     (if \<not> list_ex (\<lambda>m. m \<noteq> 0) (tflat mk) then Inl (AssertionError ''Expected at least one valid token in response_mask'')
      else
        let mt = map2 row_mean (trows old_lp) (trows mk);
            own = [(''training_ppl'', list_mean (map (\<lambda>x. exp (- x)) mt)), (''training_log_ppl'', list_mean (map uminus mt))]
        in case rollout_lp of
             None \<Rightarrow> Inr own
           | Some rl \<Rightarrow>
               let lr = tmap2 (-) old_lp rl;
                   mr = map2 row_mean (trows rl) (trows mk);
                   diff = map2 (-) mr mt;
                   seq_logs = map2 row_sum (trows lr) (trows mk)
               in Inr (own @
                 [(''kl'', verlF_masked_mean (tmap2 (-) rl old_lp) mk),
                  (''k3_kl'', verlF_masked_mean (map_tensor2 (\<lambda>x. exp x - x - 1) lr) mk),
                  (''rollout_ppl'', list_mean (map (\<lambda>x. exp (- x)) mr)), (''rollout_log_ppl'', list_mean (map uminus mr)),
                  (''log_ppl_diff'', list_mean diff), (''log_ppl_abs_diff'', list_mean (map abs diff)),
                  (''log_ppl_diff_max'', Max (set diff)), (''log_ppl_diff_min'', Min (set diff)),
                  (''ppl_ratio'', list_mean (map exp diff)),
                  (''chi2_token'', verlF_masked_mean (map_tensor2 (\<lambda>x. (exp (safe_log x))\<^sup>2) lr) mk - 1),
                  (''chi2_seq'', list_mean (map (\<lambda>x. exp (2 * safe_log x)) seq_logs) - 1)]))"

definition prefixed :: "rc_metrics \<Rightarrow> rc_metrics" where
  "prefixed m = map (\<lambda>(k, v). (''rollout_corr/'' @ k, v)) m"

definition compute_rollout_corr_metrics_from_logprobs :: "rtensor \<Rightarrow> rtensor \<Rightarrow> rtensor \<Rightarrow> rc_metrics res" where
  "compute_rollout_corr_metrics_from_logprobs lp rollout_lp mk = map_sum id prefixed (compute_offpolicy_metrics lp (Some rollout_lp) mk)"

record rc_config =
  rc_loss_type :: string
  rc_is :: "string option"
  rc_is_threshold :: "pyval option"
  rc_is_batch_normalize :: bool
  rc_rs :: "pyval option"
  rc_rs_threshold :: "pyval option"

definition compute_rollout_correction_and_rejection_mask ::
  "(string \<Rightarrow> real option) \<Rightarrow> (pyval \<Rightarrow> string) \<Rightarrow> (real \<times> real) option \<Rightarrow> rc_config \<Rightarrow> rtensor \<Rightarrow> rtensor \<Rightarrow> rtensor
   \<Rightarrow> (rtensor option \<times> rtensor \<times> rc_metrics) res" where
  "compute_rollout_correction_and_rejection_mask parse rp others cfg old_lp rollout_lp mk =
     (if \<not> list_ex (\<lambda>m. m \<noteq> 0) (tflat mk) then Inl (ValueError ''response_mask must contain at least one valid token (1).'')
      else if tshape old_lp \<noteq> tshape rollout_lp then Inl (ValueError ''old_log_prob shape does not match rollout_log_prob shape'')
      else if tshape old_lp \<noteq> tshape mk then Inl (ValueError ''log_prob shape does not match response_mask shape'')
      else
        let lr = tmap2 (-) old_lp rollout_lp
        in bind_res
             (case (rc_is cfg, rc_is_threshold cfg) of
                (Some level, Some th) \<Rightarrow>
                  map_sum id (\<lambda>(w, m). (Some w, m))
                    (compute_rollout_correction_weights parse others lr mk level th (rc_is_batch_normalize cfg))
              | _ \<Rightarrow> Inr (None, [])) (\<lambda>(weights, m1).
           bind_res
             (case rc_rs cfg of
                None \<Rightarrow> Inr (mk, [])
              | Some rs \<Rightarrow>
                  (case rc_rs_threshold cfg of
                     None \<Rightarrow> Inl (ValueError ''rollout_rs_threshold must be explicitly provided'')
                   | Some th \<Rightarrow> compute_rollout_rejection_mask parse rp lr mk rs th)) (\<lambda>(mk', m2).
           bind_res (compute_offpolicy_metrics old_lp (Some rollout_lp) mk) (\<lambda>m3.
             Inr (weights, mk', prefixed (d_update (d_update m1 m2) m3))))))"

text \<open>The rows of an entry of a batch, and the step of the trainer that corrects a batch.\<close>

definition of_rows :: "'x list list \<Rightarrow> 'x tensor2" where
  "of_rows rows = Tensor2 (case rows of [] \<Rightarrow> 0 | r # _ \<Rightarrow> length r) rows"

definition batch_tensor :: "string \<Rightarrow> (real list, 'b) data_proto \<Rightarrow> rtensor res" where
  "batch_tensor k d =
     (case dp_batch d of
        None \<Rightarrow> Inl (TypeError ''NoneType is not subscriptable'')
      | Some b \<Rightarrow> (case map_of (td_items b) k of None \<Rightarrow> Inl (KeyError k) | Some rows \<Rightarrow> Inr (of_rows rows)))"

definition put_tensor :: "string \<Rightarrow> rtensor \<Rightarrow> (real list, 'b) data_proto \<Rightarrow> (real list, 'b) data_proto" where
  "put_tensor k t d = d\<lparr>dp_batch := map_option (\<lambda>b. b\<lparr>td_items := d_set k (trows t) (td_items b)\<rparr>) (dp_batch d)\<rparr>"

definition compute_rollout_correction_and_add_to_batch ::
  "(string \<Rightarrow> real option) \<Rightarrow> (pyval \<Rightarrow> string) \<Rightarrow> (real \<times> real) option \<Rightarrow> ('b list \<Rightarrow> 'b list \<Rightarrow> bool) \<Rightarrow> rc_config
   \<Rightarrow> (real list, 'b) data_proto \<Rightarrow> ((real list, 'b) data_proto \<times> rc_metrics) res" where
  "compute_rollout_correction_and_add_to_batch parse rp others same_a cfg batch =
     bind_res (batch_tensor ''old_log_probs'' batch) (\<lambda>old_lp.
     bind_res (batch_tensor ''rollout_log_probs'' batch) (\<lambda>rollout_lp.
     bind_res (batch_tensor ''response_mask'' batch) (\<lambda>mk.
     bind_res (compute_rollout_correction_and_rejection_mask parse rp others cfg old_lp rollout_lp mk) (\<lambda>(weights, mk', m).
       let batch1 = put_tensor ''response_mask'' mk' batch
       in case weights of
            None \<Rightarrow> Inr (batch1, m)
          | Some w \<Rightarrow>
              bind_res (from_dict [(''rollout_is_weights'', trows w)] [] [] False) (\<lambda>p.
              bind_res (dp_union (=) same_a batch1 p) (\<lambda>batch2. Inr (batch2, m)))))))"

text \<open>Bypass mode: the log probabilities of the rollout are those of the old policy.\<close>

definition apply_bypass_mode :: "rc_config option \<Rightarrow> (real list, 'b) data_proto \<Rightarrow> ((real list, 'b) data_proto \<times> string \<times> rc_config option) res" where
  "apply_bypass_mode cfg batch =
     (case batch_tensor ''rollout_log_probs'' batch of
        Inr t \<Rightarrow> Inr (put_tensor ''old_log_probs'' t batch, ''bypass_mode'', cfg)
      | Inl (KeyError k) \<Rightarrow> Inl (ValueError ''bypass_mode=True requires rollout_log_probs in batch.'')
      | Inl e \<Rightarrow> Inl e)"

definition compute_policy_loss_bypass_mode ::
  "(string \<Rightarrow> real option) \<Rightarrow> (pyval \<Rightarrow> string) \<Rightarrow> (real \<times> real) option \<Rightarrow> rc_config option
   \<Rightarrow> rtensor \<Rightarrow> rtensor \<Rightarrow> rtensor \<Rightarrow> rtensor \<Rightarrow> string \<Rightarrow> actor_config \<Rightarrow> (fl \<times> loss_metrics) res" where
  "compute_policy_loss_bypass_mode parse rp others rc old_lp lp adv mk mode cfg =
     (case rc of
        None \<Rightarrow> Inl (ValueError ''rollout_correction config not found in policy_loss.'')
      | Some c \<Rightarrow>
          bind_res (compute_rollout_correction_and_rejection_mask parse rp others c lp old_lp mk) (\<lambda>(weights, mk', m).
          bind_res
            (if rc_loss_type c = ''reinforce'' then compute_policy_loss_reinforce old_lp lp adv mk' mode cfg weights
             else if rc_loss_type c = ''ppo_clip'' then compute_policy_loss_vanilla old_lp lp adv mk' mode cfg None
             else Inl (ValueError ''Invalid loss_type'')) (\<lambda>(loss, pm). Inr (loss, d_update pm m))))"

section \<open>What rejection keeps\<close>

lemma length_stat_row: "length ms = length xs \<Longrightarrow> length (stat_row opt xs ms) = length xs"
  by (simp add: stat_row_def Let_def)

lemma stat_tensor_facts:
  assumes "twf lr" "twf mk" "tshape lr = tshape mk"
  shows "tshape (stat_tensor opt lr mk) = tshape mk" "twf (stat_tensor opt lr mk)"
    "tin mk i j \<Longrightarrow> tnth (stat_tensor opt lr mk) i j = stat_row opt (trows lr ! i) (trows mk ! i) ! j"
proof -
  have len: "length (trows lr) = length (trows mk)" "tcols lr = tcols mk" using assms(3) by (simp_all add: tshape_def)
  show "tshape (stat_tensor opt lr mk) = tshape mk" using len by (simp add: stat_tensor_def tshape_def)
  show "twf (stat_tensor opt lr mk)"
    using assms len unfolding twf_def stat_tensor_def list_all_length by (simp add: length_stat_row)
  show "tnth (stat_tensor opt lr mk) i j = stat_row opt (trows lr ! i) (trows mk ! i) ! j" if "tin mk i j"
    using that len by (simp add: stat_tensor_def tnth_def tin_def)
qed

text \<open>Whether one option keeps the token \<open>j\<close> of the row \<open>i\<close>.\<close>

definition keeps :: "rtensor \<Rightarrow> rtensor \<Rightarrow> nat \<Rightarrow> nat \<Rightarrow> string \<times> real option \<times> real \<Rightarrow> bool" where
  "keeps lr mk i j = (\<lambda>(opt, th).
     in_bounds th (if token_level opt then token_stat opt (tnth lr i j)
                   else seq_stat opt (map (token_stat opt) (trows lr ! i)) (trows mk ! i)))"

lemma keep_tensor_facts:
  assumes "twf lr" "twf mk" "tshape lr = tshape mk"
  shows "tshape (keep_tensor opt th lr mk) = tshape mk" "twf (keep_tensor opt th lr mk)"
    "tin mk i j \<Longrightarrow> tnth (keep_tensor opt th lr mk) i j = as_num (keeps lr mk i j (opt, th))"
proof -
  note st = stat_tensor_facts[OF assms]
  show "tshape (keep_tensor opt th lr mk) = tshape mk" "twf (keep_tensor opt th lr mk)"
    using st by (simp_all add: keep_tensor_def)
  assume ij: "tin mk i j"
  then have "tin (stat_tensor opt lr mk) i j" using st(1) by (simp add: tin_def tshape_def)
  then have "tnth (keep_tensor opt th lr mk) i j = as_num (in_bounds th (stat_row opt (trows lr ! i) (trows mk ! i) ! j))"
    using st ij by (simp add: keep_tensor_def tnth_map)
  moreover have "j < length (trows lr ! i)" using ij assms by (simp add: tin_def tshape_def twf_row)
  ultimately show "tnth (keep_tensor opt th lr mk) i j = as_num (keeps lr mk i j (opt, th))"
    by (simp add: keeps_def stat_row_def Let_def tnth_def)
qed

lemma as_num_mult: "as_num a * as_num b = as_num (a \<and> b)"
  by (simp add: as_num_def)

lemma fold_keep:
  assumes "twf lr" "twf mk" "tshape lr = tshape mk" "twf acc" "tshape acc = tshape mk"
  shows "tshape (fold (\<lambda>(opt, th) a. tmap2 (*) a (keep_tensor opt th lr mk)) specs acc) = tshape mk \<and>
    twf (fold (\<lambda>(opt, th) a. tmap2 (*) a (keep_tensor opt th lr mk)) specs acc) \<and>
    (\<forall>i j. tin mk i j \<longrightarrow> tnth (fold (\<lambda>(opt, th) a. tmap2 (*) a (keep_tensor opt th lr mk)) specs acc) i j
       = tnth acc i j * as_num (\<forall>spec\<in>set specs. keeps lr mk i j spec))"
  using assms(4,5)
proof (induction specs arbitrary: acc)
  case Nil
  then show ?case by (simp add: as_num_def)
next
  case (Cons spec specs)
  obtain opt th where spec: "spec = (opt, th)" by (cases spec)
  note k = keep_tensor_facts[OF assms(1-3), where opt = opt and th = th]
  let ?acc = "tmap2 (*) acc (keep_tensor opt th lr mk)"
  have acc: "twf ?acc" "tshape ?acc = tshape mk" using Cons.prems k by (simp_all add: twf_tmap2 tshape_tmap2)
  have "tnth ?acc i j = tnth acc i j * as_num (keeps lr mk i j spec)" if "tin mk i j" for i j
  proof -
    have "tin (keep_tensor opt th lr mk) i j" using that k(1) by (simp add: tin_def tshape_def)
    then show ?thesis using Cons.prems k that by (simp add: tnth_tmap2 spec)
  qed
  then show ?case using Cons.IH[OF acc] by (auto simp: spec as_num_mult mult.assoc)
qed

lemma option_metrics_ok:
  assumes "list_ex (\<lambda>m. m \<noteq> 0) (tflat mk)" shows "\<exists>m. option_metrics opt th lr mk = Inr m"
  using assms by (auto simp: option_metrics_def compute_rs_metrics_def Let_def)

lemma map_res_total: "(\<And>x. x \<in> set xs \<Longrightarrow> \<exists>y. f x = Inr y) \<Longrightarrow> \<exists>ys. map_res f xs = Inr ys"
proof (induction xs)
  case (Cons x xs)
  then obtain y ys where "f x = Inr y" "map_res f xs = Inr ys" by force
  then show ?case by simp
qed simp

text \<open>
  C33. Rejection returns for every valid specification and every batch with a valid token, and keeps a token exactly when
  every option keeps it: a token option when the divergence of the token is within its bounds, a sequence option when
  the sum, mean or maximum of the divergences of the valid tokens of its sequence is, so that it keeps or drops whole
  sequences. Nothing else changes in the mask.
\<close>

theorem rejection_mask_exact:
  assumes wf: "twf lr" "twf mk" "tshape lr = tshape mk" and some: "list_ex (\<lambda>m. m \<noteq> 0) (tflat mk)"
    and opts: "parse_options s = Inr opts" and specs: "parse_rollout_rs_thresholds parse rp opts th = Inr specs"
  shows "\<exists>mk' ms. compute_rollout_rejection_mask parse rp lr mk (PStr s) th = Inr (mk', ms) \<and> tshape mk' = tshape mk \<and>
    (\<forall>i j. tin mk i j \<longrightarrow> tnth mk' i j =
       (if \<forall>(opt, b)\<in>set specs. in_bounds b (if token_level opt then token_stat opt (tnth lr i j)
             else seq_stat opt (map (token_stat opt) (trows lr ! i)) (trows mk ! i))
        then tnth mk i j else 0))"
proof -
  let ?final = "fold (\<lambda>(opt, th) a. tmap2 (*) a (keep_tensor opt th lr mk)) specs (ones_like mk)"
  have "th \<noteq> PNone" using specs by (auto simp: parse_rollout_rs_thresholds_def)
  have "trows lr \<noteq> []" using some wf(3) by (auto simp: tflat_def tshape_def)
  have one: "twf (ones_like mk)" "tshape (ones_like mk) = tshape mk" using wf by (simp_all add: ones_like_def)
  note f = fold_keep[OF wf one, of specs]
  have "\<exists>ms. map_res (\<lambda>(opt, th). option_metrics opt th lr mk) specs = Inr ms"
    by (rule map_res_total) (auto intro: option_metrics_ok[OF some])
  then obtain ms where ms: "map_res (\<lambda>(opt, th). option_metrics opt th lr mk) specs = Inr ms" ..
  have entry: "tnth (tmap2 (*) mk ?final) i j = (if \<forall>spec\<in>set specs. keeps lr mk i j spec then tnth mk i j else 0)"
    if ij: "tin mk i j" for i j
  proof -
    have "tin ?final i j" using ij f by (simp add: tin_def tshape_def)
    then have "tnth (tmap2 (*) mk ?final) i j = tnth mk i j * tnth ?final i j" using wf f by (simp add: tnth_tmap2)
    moreover have "tnth (ones_like mk) i j = 1" using ij wf by (simp add: ones_like_def tnth_map)
    ultimately show ?thesis using f ij by (simp add: as_num_def)
  qed
  have "tshape (tmap2 (*) mk ?final) = tshape mk" using f by (simp add: tshape_tmap2)
  then show ?thesis
    using \<open>th \<noteq> PNone\<close> \<open>trows lr \<noteq> []\<close> opts specs ms entry
    by (simp add: compute_rollout_rejection_mask_def Let_def keeps_def case_prod_unfold)
qed

definition ex_parse :: "string \<Rightarrow> real option" where
  "ex_parse s = map_of [(''2'', 2), (''0.5'', 1 / 2), (''0'', 0)] s"

definition ex_log_ratio :: rtensor where
  "ex_log_ratio = Tensor2 2 [[0, 5], [1, 9]]"

definition ex_rs_mask :: rtensor where
  "ex_rs_mask = Tensor2 2 [[1, 1], [1, 0]]"

lemma ex_tensors_ok:
  "twf ex_log_ratio" "twf ex_rs_mask" "tshape ex_log_ratio = tshape ex_rs_mask" "list_ex (\<lambda>m. m \<noteq> 0) (tflat ex_rs_mask)" "mask01 ex_rs_mask"
  by (simp_all add: ex_log_ratio_def ex_rs_mask_def twf_def tshape_def tflat_def mask01_def)

theorem rejection_mask_exact_witness:
  "\<exists>mk' ms. compute_rollout_rejection_mask ex_parse (\<lambda>_. []) ex_log_ratio ex_rs_mask (PStr ''token_k2, token_k2'') (PStr ''2'') = Inr (mk', ms)
     \<and> tnth mk' 0 0 = 1 \<and> tnth mk' 0 1 = 0 \<and> tnth mk' 1 0 = 1"
proof -
  have o: "parse_options ''token_k2, token_k2'' = Inr [''token_k2'']" by code_simp
  have "stripped_parts ''2'' = [''2'']" "ends_with ''k1'' ''token_k2'' = False" "ends_with ''k2'' ''token_k2'' = True" by code_simp+
  then have t: "parse_rollout_rs_thresholds ex_parse (\<lambda>_. []) [''token_k2''] (PStr ''2'') = Inr [(''token_k2'', None, 2)]"
    "token_stat ''token_k2'' x = (safe_log x)\<^sup>2 / 2" for x
    by (simp_all add: parse_rollout_rs_thresholds_def option_threshold_def ex_parse_def token_stat_def Let_def)
  show ?thesis
    using rejection_mask_exact[OF ex_tensors_ok(1-4) o t(1)]
    by (auto simp: t(2) token_level_def in_bounds_def safe_log_def clamp_def ex_log_ratio_def ex_rs_mask_def tin_def tnth_def power2_eq_square)
qed

section \<open>What the weights are\<close>

lemma tnth_raw_weights:
  assumes "twf lr" "twf mk" "tshape lr = tshape mk" "tin mk i j"
  shows "tnth (raw_weights level lr mk) i j
    = exp (safe_log (if level = ''token'' then tnth lr i j else row_sum (trows lr ! i) (trows mk ! i))) * tnth mk i j"
proof -
  have "length (trows lr) = length (trows mk)" "i < length (trows mk)" "j < length (trows mk ! i)"
    using assms by (simp_all add: tshape_def tin_def twf_row)
  then show ?thesis using assms
    by (cases "level = ''token''") (auto simp: raw_weights_def tnth_tmap2, simp add: tnth_def)
qed

lemma raw_weights_shape:
  assumes "twf lr" "twf mk" "tshape lr = tshape mk"
  shows "twf (raw_weights level lr mk)" "tshape (raw_weights level lr mk) = tshape mk"
proof -
  have len: "length (trows lr) = length (trows mk)" "tcols lr = tcols mk" using assms(3) by (simp_all add: tshape_def)
  show "tshape (raw_weights level lr mk) = tshape mk"
    using assms len by (auto simp: raw_weights_def tshape_tmap2) (simp add: tshape_def)
  show "twf (raw_weights level lr mk)"
    using assms len by (auto simp: raw_weights_def twf_tmap2) (simp add: twf_def list_all_length)
qed

lemma sum_list_of_concat: "sum_list (concat xss) = sum_list (map sum_list xss)"
  by (induction xss) auto

lemma masked_sum_zero_iff:
  assumes wf: "twf v" "twf m" "tshape v = tshape m" and bin: "mask01 m" and pos: "\<forall>x\<in>set (tflat v). 0 \<le> x"
  shows "masked_sum v m = 0 \<longleftrightarrow> (\<forall>i j. tin m i j \<longrightarrow> tnth m i j \<noteq> 0 \<longrightarrow> tnth v i j = 0)"
proof -
  let ?t = "tmap2 masked_value v m"
  have t: "twf ?t" "tshape ?t = tshape m" "tnth ?t i j = masked_value (tnth v i j) (tnth m i j)" if "tin m i j" for i j
    using wf that by (simp_all add: twf_tmap2 tshape_tmap2 tnth_tmap2)
  have wt: "twf ?t" "tshape ?t = tshape m" using wf by (simp_all add: twf_tmap2 tshape_tmap2)
  have m01: "tnth m i j \<in> {0, 1}" and v0: "0 \<le> tnth v i j" if "tin m i j" for i j
  proof -
    have "trows m ! i \<in> set (trows m)" "tnth m i j \<in> set (trows m ! i)"
      using that wf(2) by (auto simp: tin_def tnth_def twf_row)
    then show "tnth m i j \<in> {0, 1}" using bin unfolding mask01_def by blast
    have "tin v i j" using that wf(3) by (simp add: tin_def tshape_def)
    then show "0 \<le> tnth v i j" using tnth_in_tflat[OF wf(1)] pos by blast
  qed
  have flat: "tsum ?t = sum_list (tflat ?t)" by (simp add: tsum_def tflat_def sum_list_of_concat)
  have entry: "\<exists>i j. tin m i j \<and> x = masked_value (tnth v i j) (tnth m i j)" if "x \<in> set (tflat ?t)" for x
  proof -
    from that obtain i j where "tin ?t i j" "x = tnth ?t i j" using tflat_nthE[OF wt(1)] by metis
    then show ?thesis using t(3) wt(2) by (auto simp: tin_def tshape_def)
  qed
  have nonneg: "0 \<le> x" if "x \<in> set (tflat ?t)" for x
    using entry[OF that] m01 v0 by (fastforce simp: masked_value_def)
  have "masked_sum v m = 0 \<longleftrightarrow> (\<forall>x\<in>set (tflat ?t). x = 0)"
    unfolding masked_sum_def flat using sum_list_nonneg_eq_0_iff[of "tflat ?t"] nonneg by blast
  also have "\<dots> \<longleftrightarrow> (\<forall>i j. tin m i j \<longrightarrow> tnth m i j \<noteq> 0 \<longrightarrow> tnth v i j = 0)"
  proof
    assume z: "\<forall>x\<in>set (tflat ?t). x = 0"
    show "\<forall>i j. tin m i j \<longrightarrow> tnth m i j \<noteq> 0 \<longrightarrow> tnth v i j = 0"
    proof (intro allI impI)
      fix i j assume ij: "tin m i j" "tnth m i j \<noteq> 0"
      then have "tin ?t i j" using wt(2) by (simp add: tin_def tshape_def)
      then have "tnth ?t i j = 0" using tnth_in_tflat[OF wt(1)] z by blast
      then show "tnth v i j = 0" using t(3)[OF ij(1)] ij(2) by (simp add: masked_value_def)
    qed
  next
    assume "\<forall>i j. tin m i j \<longrightarrow> tnth m i j \<noteq> 0 \<longrightarrow> tnth v i j = 0"
    then show "\<forall>x\<in>set (tflat ?t). x = 0" using entry by (fastforce simp: masked_value_def)
  qed
  finally show ?thesis .
qed

lemma truncated_bounds:
  assumes "0 \<le> w" "0 < fst th"
  shows "0 \<le> truncate_weight th w" "truncate_weight th w \<le> fst th"
    "snd th = Some lower \<Longrightarrow> truncate_weight th w = 0 \<or> lower \<le> truncate_weight th w"
  using assms by (auto simp: truncate_weight_def split: option.splits)

lemma parsed_is_threshold:
  "parse_rollout_is_threshold parse v = Inr (u, l) \<Longrightarrow> 0 < u \<and> (\<forall>lower. l = Some lower \<longrightarrow> 0 < lower \<and> lower \<le> u)"
  unfolding parse_rollout_is_threshold_def res_simps
  by (auto split: if_splits option.splits)

lemma truncate_zero: "0 < fst th \<Longrightarrow> (\<forall>lower. snd th = Some lower \<longrightarrow> 0 < lower) \<Longrightarrow> truncate_weight th 0 = 0"
  by (auto simp: truncate_weight_def split: option.splits)

text \<open>
  C34. The importance weights are zero on padding and otherwise the ratio of the probabilities, of the token or of its
  sequence, with the logarithm limited to \<open>-20..20\<close>, cut to the upper bound or, with two bounds, replaced by zero outside
  of them: they lie between zero and the upper bound. The call returns them unless they are zero on all valid tokens;
  then the effective sample size divides by zero. Normalised by the batch, the weights of the tokens have mean one.
\<close>

theorem correction_weights_exact:
  fixes lr mk :: rtensor
  assumes wf: "twf lr" "twf mk" "tshape lr = tshape mk" and bin: "mask01 mk" and some: "list_ex (\<lambda>m. m \<noteq> 0) (tflat mk)"
    and level: "level \<in> {''token'', ''sequence''}" and th: "parse_rollout_is_threshold parse threshold = Inr (u, l)"
  shows "\<exists>ws. tshape ws = tshape mk \<and>
    (\<forall>i j. tin mk i j \<longrightarrow>
       tnth ws i j = (if tnth mk i j = 0 then 0
         else truncate_weight (u, l) (exp (safe_log (if level = ''token'' then tnth lr i j else row_sum (trows lr ! i) (trows mk ! i)))))
       \<and> 0 \<le> tnth ws i j \<and> tnth ws i j \<le> u \<and> (\<forall>lower. l = Some lower \<longrightarrow> tnth ws i j = 0 \<or> lower \<le> tnth ws i j)) \<and>
    (if \<forall>i j. tin mk i j \<longrightarrow> tnth ws i j = 0
     then compute_rollout_correction_weights parse others lr mk level threshold bn = Inl ZeroDivisionError
     else (\<exists>ms. compute_rollout_correction_weights parse others lr mk level threshold False = Inr (ws, ms)) \<and>
          (level = ''token'' \<and> 1 / 10 ^ 8 < verlF_masked_mean ws mk \<longrightarrow>
             (\<exists>ms. compute_rollout_correction_weights parse None lr mk level threshold True
                = Inr (map_tensor2 (\<lambda>w. w / verlF_masked_mean ws mk) ws, ms)) \<and>
             verlF_masked_mean (map_tensor2 (\<lambda>w. w / verlF_masked_mean ws mk) ws) mk = 1))"
proof -
  let ?raw = "raw_weights level lr mk"
  let ?ws = "map_tensor2 (truncate_weight (u, l)) ?raw"
  let ?cl = "map_tensor2 (clamp 0 u) ?ws"
  let ?mean = "verlF_masked_mean ?cl mk"
  let ?sq = "map_tensor2 (\<lambda>w. (w / (?mean + 1 / 10 ^ 8))\<^sup>2) ?cl"
  note raw = raw_weights_shape[OF wf, of level]
  have u: "0 < u" "\<forall>lower. l = Some lower \<longrightarrow> 0 < lower" using parsed_is_threshold[OF th] by auto
  have in_raw: "tin ?raw i j" if "tin mk i j" for i j using that raw(2) by (simp add: tin_def tshape_def)
  have m01: "tnth mk i j \<in> {0, 1}" if "tin mk i j" for i j
  proof -
    have "trows mk ! i \<in> set (trows mk)" "tnth mk i j \<in> set (trows mk ! i)"
      using that wf(2) by (auto simp: tin_def tnth_def twf_row)
    then show ?thesis using bin unfolding mask01_def by blast
  qed
  have entry: "tnth ?ws i j = (if tnth mk i j = 0 then 0
         else truncate_weight (u, l) (exp (safe_log (if level = ''token'' then tnth lr i j else row_sum (trows lr ! i) (trows mk ! i)))))"
    if "tin mk i j" for i j
    using that m01[OF that] in_raw[OF that] raw(1) tnth_raw_weights[OF wf that, of level] truncate_zero[of "(u, l)"] u
    by (auto simp: tnth_map)
  have bounds: "0 \<le> tnth ?ws i j" "tnth ?ws i j \<le> u" if "tin mk i j" for i j
    using entry[OF that] truncated_bounds(1,2)[of _ "(u, l)"] u(1) by auto
  have lower: "tnth ?ws i j = 0 \<or> lower \<le> tnth ?ws i j" if "tin mk i j" "l = Some lower" for i j lower
    using entry[OF that(1)] that(2) by (auto simp: truncate_weight_def)
  have w0: "tnth ?sq i j = 0 \<longleftrightarrow> tnth ?ws i j = 0" if "tin mk i j" for i j
  proof -
    have "0 \<le> ?mean"
    proof -
      have "0 \<le> masked_sum ?cl mk" using u(1) by (intro masked_sum_nonneg bin) (auto simp: clamp_def)
      then show ?thesis using tsum_mask_nonneg[OF bin] by (simp add: verlF_masked_mean_def)
    qed
    then have "?mean + 1 / 10 ^ 8 \<noteq> 0" by (simp add: add_nonneg_eq_0_iff)
    moreover have "tnth ?sq i j = (clamp 0 u (tnth ?ws i j) / (?mean + 1 / 10 ^ 8))\<^sup>2"
      using in_raw[OF that] raw(1) by (simp add: tnth_map)
    moreover have "clamp 0 u (tnth ?ws i j) = tnth ?ws i j" using bounds(1,2)[OF that] by (simp add: clamp_def)
    ultimately show ?thesis by simp
  qed
  have ess: "verlF_masked_mean ?sq mk = 0 \<longleftrightarrow> (\<forall>i j. tin mk i j \<longrightarrow> tnth ?ws i j = 0)"
  proof -
    have "tsum mk + 1 / 10 ^ 8 \<noteq> 0" using tsum_mask_nonneg[OF bin] by (simp add: add_nonneg_eq_0_iff)
    then have "verlF_masked_mean ?sq mk = 0 \<longleftrightarrow> masked_sum ?sq mk = 0" by (simp add: verlF_masked_mean_def)
    also have "\<dots> \<longleftrightarrow> (\<forall>i j. tin mk i j \<longrightarrow> tnth mk i j \<noteq> 0 \<longrightarrow> tnth ?sq i j = 0)"
      using raw wf by (intro masked_sum_zero_iff bin) (auto simp: tflat_def)
    finally show ?thesis using w0 entry by auto
  qed
  have mean1: "verlF_masked_mean (map_tensor2 (\<lambda>w. w / verlF_masked_mean ?ws mk) ?ws) mk = 1" if "1 / 10 ^ 8 < verlF_masked_mean ?ws mk"
  proof -
    have c: "masked_sum (map_tensor2 (\<lambda>w. w / c) ?ws) mk = masked_sum ?ws mk / c" for c
    proof -
      have "tmap2 masked_value (map_tensor2 (\<lambda>w. w / c) ?ws) mk = map_tensor2 (\<lambda>x. x * (1 / c)) (tmap2 masked_value ?ws mk)"
        by (auto simp: tmap2_def map2_map_map o_def case_prod_unfold masked_value_def zip_map1 intro!: map_cong)
      then show ?thesis unfolding masked_sum_def using tsum_map_mult[of "1 / c"] by simp
    qed
    have "verlF_masked_mean (map_tensor2 (\<lambda>w. w / c) ?ws) mk = verlF_masked_mean ?ws mk / c" for c
      unfolding verlF_masked_mean_def c by (simp add: mult.commute)
    then show ?thesis using that by simp
  qed
  have zero: "compute_rollout_correction_weights parse others lr mk level threshold bn = Inl ZeroDivisionError"
    if "verlF_masked_mean ?sq mk = 0"
    using level th some that
    by (auto simp: compute_rollout_correction_weights_def compute_is_metrics_def Let_def simp del: map_map)
  have plain: "\<exists>ms. compute_rollout_correction_weights parse others lr mk level threshold False = Inr (?ws, ms)"
    if "verlF_masked_mean ?sq mk \<noteq> 0"
    using level th some that
    by (auto simp: compute_rollout_correction_weights_def compute_is_metrics_def Let_def simp del: map_map)
  have normalised: "\<exists>ms. compute_rollout_correction_weights parse None lr mk level threshold True
        = Inr (map_tensor2 (\<lambda>w. w / verlF_masked_mean ?ws mk) ?ws, ms)"
    if "verlF_masked_mean ?sq mk \<noteq> 0" "level = ''token''" "1 / 10 ^ 8 < verlF_masked_mean ?ws mk"
    using th some that
    by (auto simp: compute_rollout_correction_weights_def compute_is_metrics_def Let_def weights_mean_def simp del: map_map)
  show ?thesis
  proof (intro exI[of _ ?ws] conjI)
    show "tshape ?ws = tshape mk" using raw by simp
    show "\<forall>i j. tin mk i j \<longrightarrow>
       tnth ?ws i j = (if tnth mk i j = 0 then 0
         else truncate_weight (u, l) (exp (safe_log (if level = ''token'' then tnth lr i j else row_sum (trows lr ! i) (trows mk ! i)))))
       \<and> 0 \<le> tnth ?ws i j \<and> tnth ?ws i j \<le> u \<and> (\<forall>lower. l = Some lower \<longrightarrow> tnth ?ws i j = 0 \<or> lower \<le> tnth ?ws i j)"
      by (intro allI impI conjI; rule entry bounds lower; assumption)
    show "if \<forall>i j. tin mk i j \<longrightarrow> tnth ?ws i j = 0
     then compute_rollout_correction_weights parse others lr mk level threshold bn = Inl ZeroDivisionError
     else (\<exists>ms. compute_rollout_correction_weights parse others lr mk level threshold False = Inr (?ws, ms)) \<and>
          (level = ''token'' \<and> 1 / 10 ^ 8 < verlF_masked_mean ?ws mk \<longrightarrow>
             (\<exists>ms. compute_rollout_correction_weights parse None lr mk level threshold True
                = Inr (map_tensor2 (\<lambda>w. w / verlF_masked_mean ?ws mk) ?ws, ms)) \<and>
             verlF_masked_mean (map_tensor2 (\<lambda>w. w / verlF_masked_mean ?ws mk) ?ws) mk = 1)"
    proof (cases "\<forall>i j. tin mk i j \<longrightarrow> tnth ?ws i j = 0")
      case True
      show ?thesis unfolding if_P[OF True] by (rule zero[OF iffD2[OF ess True]])
    next
      case False
      have ne: "verlF_masked_mean ?sq mk \<noteq> 0" using ess False by blast
      show ?thesis unfolding if_not_P[OF False]
        by (intro conjI impI plain normalised mean1 ne) (elim conjE, assumption)+
    qed
  qed
qed

theorem correction_weights_exact_witness:
  "\<exists>ws ms. compute_rollout_correction_weights ex_parse None ex_log_ratio ex_rs_mask ''token'' (PStr ''2'') False = Inr (ws, ms)
     \<and> tnth ws 0 0 = 1 \<and> tnth ws 1 1 = 0 \<and> tnth ws 0 1 \<le> 2"
proof -
  have t: "parse_rollout_is_threshold ex_parse (PStr ''2'') = Inr (2, None)"
  proof -
    have "py_strip ''2'' = ''2''" by code_simp
    then show ?thesis by (simp add: parse_rollout_is_threshold_def ex_parse_def)
  qed
  have tin: "tin ex_rs_mask i j" if "i < 2" "j < 2" for i j using that by (simp add: tin_def ex_rs_mask_def)
  obtain ws where ws: "\<forall>i j. tin ex_rs_mask i j \<longrightarrow> tnth ws i j = (if tnth ex_rs_mask i j = 0 then 0
         else truncate_weight (2, None) (exp (safe_log (if ''token'' = ''token'' then tnth ex_log_ratio i j else row_sum (trows ex_log_ratio ! i) (trows ex_rs_mask ! i)))))
       \<and> 0 \<le> tnth ws i j \<and> tnth ws i j \<le> 2 \<and> (\<forall>lower. None = Some lower \<longrightarrow> tnth ws i j = 0 \<or> lower \<le> tnth ws i j)"
    and call: "\<not> (\<forall>i j. tin ex_rs_mask i j \<longrightarrow> tnth ws i j = 0) \<Longrightarrow>
      \<exists>ms. compute_rollout_correction_weights ex_parse None ex_log_ratio ex_rs_mask ''token'' (PStr ''2'') False = Inr (ws, ms)"
    using correction_weights_exact[OF ex_tensors_ok(1-3) ex_tensors_ok(5,4) insertI1 t, of None False]
    by (elim exE conjE) (rule that, assumption, simp)
  have "tnth ws 0 0 = 1" "tnth ws 1 1 = 0" "tnth ws 0 1 \<le> 2"
    using ws[rule_format, OF tin, of 0 0] ws[rule_format, OF tin, of 1 1] ws[rule_format, OF tin, of 0 1]
    by (simp_all add: truncate_weight_def safe_log_def clamp_def ex_log_ratio_def ex_rs_mask_def tnth_def)
  moreover have "\<not> (\<forall>i j. tin ex_rs_mask i j \<longrightarrow> tnth ws i j = 0)" using \<open>tnth ws 0 0 = 1\<close> tin[of 0 0] by force
  ultimately show ?thesis using call by blast
qed

section \<open>Limits\<close>

text \<open>
  A single bound below one for a k1 option gives a lower bound above the upper one, which is not refused: every valid
  token is rejected. A single bound of zero raises ZeroDivisionError rather than ValueError.
\<close>

lemma single_k1_bound_below_one:
  assumes "parse spec = Some u" "0 < u" "u < 1" "CHR ''_'' \<notin> set spec" "parse (rp (PFloat (1 / u))) = Some (1 / u)" "ends_with ''k1'' opt"
  shows "option_threshold parse rp opt spec = Inr (Some (1 / u), u) \<and> \<not> in_bounds (Some (1 / u), u) v"
proof -
  have "ln u < 0" "ln (1 / u) > 0" using assms(2,3) by (simp_all add: ln_div)
  then have "\<not> (ln (1 / u) \<le> v \<and> v \<le> ln u)" by linarith
  then show ?thesis using assms by (simp add: option_threshold_def in_bounds_def)
qed

lemma single_k1_bound_zero:
  assumes "parse spec = Some 0" "CHR ''_'' \<notin> set spec" "ends_with ''k1'' opt"
  shows "option_threshold parse rp opt spec = Inl ZeroDivisionError"
  using assms by (simp add: option_threshold_def)

text \<open>The k2 and k3 divergences are not negative, so that their single bound is two-sided in effect.\<close>

lemma k2_k3_nonneg: "\<not> ends_with ''k1'' opt \<Longrightarrow> 0 \<le> token_stat opt x"
proof -
  have "safe_log x \<le> exp (safe_log x) - 1" using exp_ge_add_one_self[of "safe_log x"] by linarith
  then show "\<not> ends_with ''k1'' opt \<Longrightarrow> 0 \<le> token_stat opt x" by (auto simp: token_stat_def Let_def)
qed

end
