(* ===== verification/ValMetrics.thy ===== *)
theory ValMetrics
  imports PyValues
begin

text \<open>
  \<open>process_validation_metrics\<close> of \<open>verl/trainer/ppo/metric_utils.py\<close>: the metrics of a validation run, per data source,
  variable and prompt, with bootstrap estimates. The random choices of a bootstrap are the parameter \<open>choice\<close>, which gives for
  the number of values and the size of a subset the lists of indices that are drawn; the generator is seeded anew for each
  bootstrap. The names of the metrics are constructors here, strings in the source. Dictionaries that are filled in a
  loop are grouped lists, in the order of the first insertion of each key.
\<close>

section \<open>Grouping\<close>

definition group_push :: "'k \<times> 'v \<Rightarrow> ('k \<times> 'v list) list \<Rightarrow> ('k \<times> 'v list) list" where
  "group_push = (\<lambda>(k, v) d. AList.update k (the_default [] (map_of d k) @ [v]) d)"

definition grouped :: "('k \<times> 'v) list \<Rightarrow> ('k \<times> 'v list) list" where
  "grouped xs = fold group_push xs []"

definition values_of :: "'k \<Rightarrow> ('k \<times> 'v) list \<Rightarrow> 'v list" where
  "values_of k xs = map snd (filter (\<lambda>(k', v). k' = k) xs)"

lemma values_of_simps [simp]:
  "values_of k [] = []" "values_of k ((k', v) # xs) = (if k' = k then v # values_of k xs else values_of k xs)"
  "values_of k (xs @ ys) = values_of k xs @ values_of k ys"
  by (simp_all add: values_of_def)

lemma values_of_Nil_iff: "values_of k xs = [] \<longleftrightarrow> k \<notin> fst ` set xs"
  by (force simp: values_of_def filter_empty_conv)

lemma fold_group_push:
  "map_of (fold group_push xs d) k
    = (if k \<in> fst ` set xs \<or> map_of d k \<noteq> None then Some (the_default [] (map_of d k) @ values_of k xs) else None)"
proof (induction xs arbitrary: d)
  case Nil
  then show ?case by (cases "map_of d k") simp_all
next
  case (Cons x xs)
  obtain k' v where x: "x = (k', v)" by (cases x)
  have upd: "map_of (group_push (k', v) d) = (map_of d)(k' \<mapsto> the_default [] (map_of d k') @ [v])"
    by (simp add: group_push_def update_conv')
  show ?case
  proof (cases "k' = k")
    case True
    then show ?thesis using Cons.IH[of "group_push (k', v) d"] upd[unfolded True] by (simp add: x)
  next
    case False
    then show ?thesis using Cons.IH[of "group_push (k', v) d"] by (auto simp add: upd x)
  qed
qed

lemma map_of_grouped: "map_of (grouped xs) k = (if k \<in> fst ` set xs then Some (values_of k xs) else None)"
  by (simp add: grouped_def fold_group_push)

lemma distinct_grouped: "distinct (map fst (grouped xs))"
proof -
  have "distinct (map fst d) \<Longrightarrow> distinct (map fst (fold group_push xs d))" for d :: "('a \<times> 'b list) list"
    by (induction xs arbitrary: d) (simp_all add: group_push_def distinct_update case_prod_unfold)
  then show ?thesis by (simp add: grouped_def)
qed

lemma in_grouped_iff: "(k, vs) \<in> set (grouped xs) \<longleftrightarrow> k \<in> fst ` set xs \<and> vs = values_of k xs"
proof -
  have "(k, vs) \<in> set (grouped xs) \<longleftrightarrow> map_of (grouped xs) k = Some vs"
    using distinct_grouped[of xs] by simp
  then show ?thesis by (auto simp: map_of_grouped)
qed

section \<open>Sizes of the subsets\<close>

text \<open>The loop of \<open>gen_ns\<close>, as one that may run forever.\<close>

partial_function (option) ns_loop :: "nat \<Rightarrow> nat \<Rightarrow> nat list \<Rightarrow> nat list option" where
  "ns_loop n_resps n ns = (if n < n_resps then ns_loop n_resps (n * 2) (ns @ [n]) else Some ns)"

declare ns_loop.simps [code]

definition gen_ns :: "nat \<Rightarrow> nat list option" where
  "gen_ns n_resps = (if n_resps \<le> 1 then Some [] else map_option (\<lambda>ns. ns @ [n_resps]) (ns_loop n_resps 2 []))"

section \<open>Bootstrap estimates\<close>

definition np_mean :: "real list \<Rightarrow> real" where
  "np_mean xs = sum_list xs / of_nat (length xs)"

definition np_std :: "real list \<Rightarrow> real" where
  "np_std xs = sqrt (np_mean (map (\<lambda>x. (x - np_mean xs)\<^sup>2) xs))"

type_synonym choice = "nat \<Rightarrow> nat \<Rightarrow> nat list list"

definition bootstrap_metric :: "choice \<Rightarrow> 'v list \<Rightarrow> nat \<Rightarrow> ('v list \<Rightarrow> real) list \<Rightarrow> (real \<times> real) list" where
  "bootstrap_metric choice data subset_size fns =
     (let samples = map (map ((!) data)) (choice (length data) subset_size)
      in map (\<lambda>f. (np_mean (map f samples), np_std (map f samples))) fns)"

text \<open>\<open>max(d, key=d.get)\<close>: the first key with the largest count.\<close>

fun first_longest :: "('k \<times> 'v list) list \<Rightarrow> 'k \<times> 'v list \<Rightarrow> 'k \<times> 'v list" where
  "first_longest [] best = best"
| "first_longest (e # es) best = first_longest es (if length (snd best) < length (snd e) then e else best)"

definition calc_maj_val :: "('p \<times> real) list \<Rightarrow> real" where
  "calc_maj_val votes = (case grouped votes of [] \<Rightarrow> 0 | e # es \<Rightarrow> hd (snd (first_longest es e)))"

section \<open>The metrics of a validation run\<close>

datatype info_val = INum real | IText string | INone

datatype metric_name = MMean nat | MStd nat | BestMean nat | BestStd nat | WorstMean nat | WorstStd nat | MajMean nat | MajStd nat

fun num_of :: "info_val \<Rightarrow> real res" where
  "num_of (INum r) = Inr r"
| "num_of _ = Inl (TypeError ''unsupported operand type'')"

definition subset_metrics :: "choice \<Rightarrow> real list \<Rightarrow> info_val list option \<Rightarrow> nat \<Rightarrow> (metric_name \<times> real) list" where
  "subset_metrics choice vals preds n =
     (let bw = bootstrap_metric choice vals n [\<lambda>xs. Max (set xs), \<lambda>xs. Min (set xs)]
      in [(BestMean n, fst (bw ! 0)), (BestStd n, snd (bw ! 0)), (WorstMean n, fst (bw ! 1)), (WorstStd n, snd (bw ! 1))]
         @ (case preds of
              None \<Rightarrow> []
            | Some ps \<Rightarrow> let m = bootstrap_metric choice (zip ps vals) n [calc_maj_val] ! 0 in [(MajMean n, fst m), (MajStd n, snd m)]))"

text \<open>The metrics of one variable for one prompt; a loop that does not end would be an exception of its own.\<close>

definition var_metrics :: "choice \<Rightarrow> info_val list \<Rightarrow> info_val list option \<Rightarrow> (metric_name \<times> real) list res" where
  "var_metrics choice var_vals preds =
     bind_res (map_res num_of var_vals) (\<lambda>vals.
       let n = length vals
       in if n \<le> 1 then Inr [(MMean n, np_mean vals)]
          else case gen_ns n of
                 None \<Rightarrow> Inl (RuntimeError ''no result'')
               | Some ns \<Rightarrow>
                   Inr ((MMean n, np_mean vals) # (MStd n, np_std vals) # concat (map (subset_metrics choice vals preds) ns)))"

fun is_text :: "info_val \<Rightarrow> bool" where
  "is_text (IText s) = True"
| "is_text _ = False"

definition skipped :: "info_val list \<Rightarrow> bool" where
  "skipped vals \<longleftrightarrow> vals = [] \<or> is_text (hd vals)"

text \<open>The samples of a data source and a prompt, in order.\<close>

definition prompt_samples :: "string list \<Rightarrow> string list \<Rightarrow> (string \<times> (string \<times> nat list) list) list" where
  "prompt_samples data_sources sample_uids =
     map (\<lambda>(src, us). (src, grouped us)) (grouped (map (\<lambda>i. (data_sources ! i, (sample_uids ! i, i))) [0..<length data_sources]))"

definition prompt_metrics ::
  "choice \<Rightarrow> (string \<times> info_val list) list \<Rightarrow> nat list \<Rightarrow> (string \<times> metric_name \<times> real) list res" where
  "prompt_metrics choice infos idxs =
     (let var2vals = map (\<lambda>(v, xs). (v, map ((!) xs) idxs)) infos
      in map_sum id concat
           (map_res (\<lambda>(v, vals). if skipped vals then Inr []
                      else map_sum id (map (Pair v)) (var_metrics choice vals (map_of var2vals ''pred''))) var2vals))"

definition process_validation_metrics ::
  "choice \<Rightarrow> string list \<Rightarrow> string list \<Rightarrow> (string \<times> info_val list) list
    \<Rightarrow> (string \<times> (string \<times> (metric_name \<times> real) list) list) list res" where
  "process_validation_metrics choice data_sources sample_uids infos =
     (if length sample_uids < length data_sources \<or> (data_sources \<noteq> [] \<and> (\<exists>(v, xs)\<in>set infos. length xs < length data_sources))
      then Inl IndexError
      else bind_res
        (map_res (\<lambda>(src, us). map_sum id (\<lambda>ms. map (Pair src) (concat ms)) (map_res (\<lambda>(u, idxs). prompt_metrics choice infos idxs) us))
           (prompt_samples data_sources sample_uids)) (\<lambda>entries.
        Inr (map (\<lambda>(src, vs). (src, map (\<lambda>(v, ms). (v, map (\<lambda>(name, xs). (name, np_mean xs)) (grouped ms))) (grouped vs)))
               (grouped (concat entries)))))"

section \<open>The loop ends\<close>

lemma ns_loop_powers:
  assumes "n \<le> 2 ^ m" "\<forall>i < m. 2 ^ i < n" "j \<le> m"
  shows "ns_loop n (2 ^ j) ns = Some (ns @ map (\<lambda>i. 2 ^ i) [j..<m])"
  using assms(3)
proof (induction "m - j" arbitrary: j ns)
  case 0
  then have "j = m" by simp
  then show ?case using assms(1) by (simp add: ns_loop.simps)
next
  case (Suc d)
  then have j: "j < m" "d = m - Suc j" by simp_all
  have "ns_loop n (2 ^ j) ns = ns_loop n (2 ^ Suc j) (ns @ [2 ^ j])"
    using assms(2) j(1) by (subst ns_loop.simps) (simp add: mult.commute)
  also have "\<dots> = Some ((ns @ [2 ^ j]) @ map (\<lambda>i. 2 ^ i) [Suc j..<m])" using Suc.hyps(1)[OF j(2)] j(1) by simp
  finally show ?case using j(1) by (simp add: upt_conv_Cons)
qed

lemma gen_ns_total:
  assumes n: "1 < n_resps"
  shows "\<exists>m. 2 ^ (m - 1) < n_resps \<and> n_resps \<le> 2 ^ m \<and> gen_ns n_resps = Some (map (\<lambda>i. 2 ^ i) [1..<m] @ [n_resps])"
proof -
  let ?m = "LEAST m. n_resps \<le> 2 ^ m"
  have "n_resps \<le> 2 ^ n_resps" by (simp add: less_imp_le)
  then have top: "n_resps \<le> 2 ^ ?m" by (rule LeastI)
  have below: "\<forall>i < ?m. 2 ^ i < n_resps" using not_less_Least by (auto simp: not_le[symmetric])
  have "?m \<noteq> 0" using top n by (intro notI) simp
  then have m: "1 \<le> ?m" "2 ^ (?m - 1) < n_resps" using below by simp_all
  have "ns_loop n_resps 2 [] = Some (map (\<lambda>i. 2 ^ i) [1..<?m])"
    using ns_loop_powers[OF top below m(1), of "[]"] by simp
  then show ?thesis using m(2) top n by (intro exI[of _ ?m]) (simp add: gen_ns_def)
qed

text \<open>
  The loop that chooses the sizes of the bootstrap subsets ends for every number of responses: it gives the powers of
  two below the number, and the number itself.
\<close>

theorem gen_ns_ends:
  "(n_resps \<le> 1 \<longrightarrow> gen_ns n_resps = Some []) \<and>
   (1 < n_resps \<longrightarrow> (\<exists>m. 2 ^ (m - 1) < n_resps \<and> n_resps \<le> 2 ^ m \<and> gen_ns n_resps = Some (map (\<lambda>i. 2 ^ i) [1..<m] @ [n_resps])))"
  by (intro conjI impI gen_ns_total) (simp_all add: gen_ns_def)

theorem gen_ns_ends_example: "gen_ns 1 = Some [] \<and> (\<exists>ns. gen_ns 6 = Some ns \<and> last ns = 6)"
proof -
  have "gen_ns 1 = Some []" using gen_ns_ends[of 1] by simp
  moreover obtain m where "gen_ns 6 = Some (map (\<lambda>i. 2 ^ i) [1..<m] @ [6])" using gen_ns_ends[of 6] by auto
  ultimately show ?thesis by simp
qed

section \<open>Bounds of the metrics\<close>

definition choice_law :: "choice \<Rightarrow> bool" where
  "choice_law choice \<longleftrightarrow>
     (\<forall>n k. 0 < n \<longrightarrow> 0 < k \<longrightarrow> choice n k \<noteq> [] \<and> (\<forall>is\<in>set (choice n k). length is = k \<and> set is \<subseteq> {..<n}))"

lemma np_mean_bounds:
  assumes "xs \<noteq> []" "\<forall>x\<in>set xs. lo \<le> x \<and> x \<le> hi" shows "lo \<le> np_mean xs \<and> np_mean xs \<le> hi"
proof -
  have "lo * length xs \<le> sum_list xs \<and> sum_list xs \<le> hi * length xs"
    using assms(2) by (induction xs) (auto simp: algebra_simps)
  then show ?thesis using assms(1) by (simp add: np_mean_def field_simps)
qed

lemma np_mean_mono: "list_all2 (\<le>) xs ys \<Longrightarrow> np_mean xs \<le> np_mean ys"
proof -
  assume a: "list_all2 (\<le>) xs ys"
  then have "sum_list xs \<le> sum_list ys" by (induction rule: list_all2_induct) auto
  then show ?thesis using list_all2_lengthD[OF a] by (simp add: np_mean_def divide_right_mono)
qed

lemma np_mean_map_mono: "(\<And>x. x \<in> set xs \<Longrightarrow> f x \<le> g x) \<Longrightarrow> np_mean (map f xs) \<le> np_mean (map g xs)"
  by (intro np_mean_mono) (auto simp: list_all2_conv_all_nth)

lemma np_std_nonneg: "0 \<le> np_std xs"
  unfolding np_std_def np_mean_def by (intro real_sqrt_ge_zero divide_nonneg_nonneg sum_list_nonneg) auto

lemma first_longest_in: "first_longest es e \<in> set (e # es)"
  by (induction es arbitrary: e) (auto split: if_splits)

lemma maj_val_in:
  assumes "votes \<noteq> []" shows "calc_maj_val votes \<in> snd ` set votes"
proof -
  have "grouped votes \<noteq> []"
  proof
    assume "grouped votes = []"
    then show False using map_of_grouped[of votes "fst (hd votes)"] assms by (cases votes) auto
  qed
  then obtain e es where g: "grouped votes = e # es" by (cases "grouped votes") auto
  obtain k vs where w: "first_longest es e = (k, vs)" by (cases "first_longest es e")
  have "(k, vs) \<in> set (grouped votes)" using first_longest_in[of es e] w g by simp
  then have k: "k \<in> fst ` set votes" "vs = values_of k votes" by (simp_all add: in_grouped_iff)
  then have "vs \<noteq> []" by (simp add: values_of_Nil_iff)
  moreover have "set vs \<subseteq> snd ` set votes" unfolding k(2) values_of_def by auto
  ultimately show ?thesis using g w hd_in_set[of vs] by (auto simp: calc_maj_val_def)
qed

fun metric_in_range :: "real \<Rightarrow> real \<Rightarrow> metric_name \<Rightarrow> real \<Rightarrow> bool" where
  "metric_in_range lo hi (MStd n) x = (0 \<le> x)"
| "metric_in_range lo hi (BestStd n) x = (0 \<le> x)"
| "metric_in_range lo hi (WorstStd n) x = (0 \<le> x)"
| "metric_in_range lo hi (MajStd n) x = (0 \<le> x)"
| "metric_in_range lo hi name x = (lo \<le> x \<and> x \<le> hi)"

text \<open>The values recorded under each name are in range, and the worst, majority and best values go together.\<close>

definition ordered_metrics :: "bool \<Rightarrow> (metric_name \<times> real) list \<Rightarrow> bool" where
  "ordered_metrics has_pred ms \<longleftrightarrow>
     (\<forall>n. list_all2 (\<le>) (values_of (WorstMean n) ms) (values_of (BestMean n) ms) \<and>
        (has_pred \<longrightarrow> list_all2 (\<le>) (values_of (WorstMean n) ms) (values_of (MajMean n) ms) \<and>
                      list_all2 (\<le>) (values_of (MajMean n) ms) (values_of (BestMean n) ms)))"

definition good_metrics :: "real \<Rightarrow> real \<Rightarrow> bool \<Rightarrow> (metric_name \<times> real) list \<Rightarrow> bool" where
  "good_metrics lo hi has_pred ms \<longleftrightarrow> (\<forall>(name, x)\<in>set ms. metric_in_range lo hi name x) \<and> ordered_metrics has_pred ms"

lemma good_append: "good_metrics lo hi p xs \<Longrightarrow> good_metrics lo hi p ys \<Longrightarrow> good_metrics lo hi p (xs @ ys)"
  by (auto simp: good_metrics_def ordered_metrics_def intro!: list_all2_appendI)

lemma good_Nil [simp]: "good_metrics lo hi p []"
  by (simp add: good_metrics_def ordered_metrics_def)

lemma good_concat: "(\<And>xs. xs \<in> set xss \<Longrightarrow> good_metrics lo hi p xs) \<Longrightarrow> good_metrics lo hi p (concat xss)"
  by (induction xss) (auto intro: good_append)

lemma subset_good:
  assumes c: "choice_law choice" and n: "0 < n" and vals: "vals \<noteq> []" "\<forall>x\<in>set vals. lo \<le> x \<and> x \<le> hi"
    and preds: "\<And>ps. preds = Some ps \<Longrightarrow> length ps = length vals"
  shows "good_metrics lo hi (preds \<noteq> None) (subset_metrics choice vals preds n)"
proof -
  let ?draws = "choice (length vals) n"
  let ?samples = "map (map ((!) vals)) ?draws"
  have d: "?draws \<noteq> []" "length is = n \<and> set is \<subseteq> {..<length vals}" if "is \<in> set ?draws" for "is"
    using c n vals(1) that by (auto simp: choice_law_def)
  have ne: "?draws \<noteq> []" using c n vals(1) by (auto simp: choice_law_def)
  have drawn: "xs \<noteq> []" "set xs \<subseteq> set vals" if "xs \<in> set ?samples" for xs
    using that d n by (force simp: subset_iff)+
  have ext: "lo \<le> Min (set xs) \<and> Min (set xs) \<le> Max (set xs) \<and> Max (set xs) \<le> hi" if "xs \<in> set ?samples" for xs
  proof -
    have "Min (set xs) \<in> set xs" "Max (set xs) \<in> set xs" using drawn[OF that] by auto
    moreover from this have "Min (set xs) \<le> Max (set xs)" by auto
    ultimately show ?thesis using drawn(2)[OF that] vals(2) by blast
  qed
  have best: "lo \<le> np_mean (map (\<lambda>xs. Max (set xs)) ?samples) \<and> np_mean (map (\<lambda>xs. Max (set xs)) ?samples) \<le> hi"
    "lo \<le> np_mean (map (\<lambda>xs. Min (set xs)) ?samples) \<and> np_mean (map (\<lambda>xs. Min (set xs)) ?samples) \<le> hi"
    using ne ext by (intro np_mean_bounds; fastforce)+
  have wb: "np_mean (map (\<lambda>xs. Min (set xs)) ?samples) \<le> np_mean (map (\<lambda>xs. Max (set xs)) ?samples)"
    using ext by (intro np_mean_map_mono) blast
  show ?thesis
  proof (cases preds)
    case None
    then show ?thesis using best wb
      by (auto simp: subset_metrics_def bootstrap_metric_def good_metrics_def ordered_metrics_def np_std_nonneg Let_def)
  next
    case (Some ps)
    then have len: "length ps = length vals" using preds by simp
    let ?votes = "map (map ((!) (zip ps vals))) ?draws"
    have maj: "Min (set xs) \<le> m \<and> m \<le> Max (set xs)"
      if "is \<in> set ?draws" "xs = map ((!) vals) is" "m = calc_maj_val (map ((!) (zip ps vals)) is)" for "is" xs m
    proof -
      have i: "set is \<subseteq> {..<length vals}" "is \<noteq> []" using d(2)[OF that(1)] n by auto
      then have "m \<in> snd ` set (map ((!) (zip ps vals)) is)" using maj_val_in that(3) by blast
      then have "m \<in> set xs" using i len that(2) by (force simp: subset_iff)
      then show ?thesis by simp
    qed
    have "np_mean (map (\<lambda>xs. Min (set xs)) ?samples) \<le> np_mean (map calc_maj_val ?votes)"
      "np_mean (map calc_maj_val ?votes) \<le> np_mean (map (\<lambda>xs. Max (set xs)) ?samples)"
      unfolding map_map comp_def using maj[OF _ refl refl] by (intro np_mean_map_mono; simp)+
    then show ?thesis using best wb Some len
      by (auto simp: subset_metrics_def bootstrap_metric_def good_metrics_def ordered_metrics_def np_std_nonneg Let_def)
  qed
qed

lemma nums_of: "map_res num_of (map INum xs) = Inr xs"
  using map_res_pure[of xs "\<lambda>x. num_of (INum x)" "\<lambda>x. x"] by (simp add: map_res_map)

lemma var_good:
  assumes c: "choice_law choice" and vals: "vals \<noteq> []" "\<forall>x\<in>set vals. lo \<le> x \<and> x \<le> hi"
    and preds: "\<And>ps. preds = Some ps \<Longrightarrow> length ps = length vals"
  shows "\<exists>ms. var_metrics choice (map INum vals) preds = Inr ms \<and> good_metrics lo hi (preds \<noteq> None) ms
    \<and> (MMean (length vals), np_mean vals) \<in> set ms"
proof (cases "length vals \<le> 1")
  case True
  then show ?thesis using np_mean_bounds[OF vals]
    by (auto simp: var_metrics_def nums_of good_metrics_def ordered_metrics_def Let_def)
next
  case False
  then obtain m where m: "gen_ns (length vals) = Some (map (\<lambda>i. 2 ^ i) [1..<m] @ [length vals])"
    using gen_ns_total[of "length vals"] by auto
  let ?ns = "map (\<lambda>i. 2 ^ i) [1..<m] @ [length vals]"
  have "good_metrics lo hi (preds \<noteq> None) (concat (map (subset_metrics choice vals preds) ?ns))"
    using subset_good[OF c _ vals preds] vals(1) by (intro good_concat) (auto simp del: not_None_eq)
  moreover have "good_metrics lo hi (preds \<noteq> None) [(MMean (length vals), np_mean vals), (MStd (length vals), np_std vals)]"
    using np_mean_bounds[OF vals] np_std_nonneg by (auto simp: good_metrics_def ordered_metrics_def)
  ultimately have "good_metrics lo hi (preds \<noteq> None)
      ([(MMean (length vals), np_mean vals), (MStd (length vals), np_std vals)] @ concat (map (subset_metrics choice vals preds) ?ns))"
    by (intro good_append)
  then show ?thesis using False m by (simp add: var_metrics_def nums_of Let_def)
qed

section \<open>The whole validation run\<close>

lemma map_res_choose:
  assumes "\<forall>x\<in>set xs. \<exists>y. f x = Inr y \<and> P x y"
  shows "\<exists>g. map_res f xs = Inr (map g xs) \<and> (\<forall>x\<in>set xs. P x (g x))"
proof -
  obtain g where "\<forall>x\<in>set xs. f x = Inr (g x) \<and> P x (g x)" using bchoice[OF assms] by blast
  then show ?thesis using map_res_pure[of xs f g] by blast
qed

lemma values_of_concat: "values_of k (concat xss) = concat (map (values_of k) xss)"
  by (induction xss) simp_all

lemma values_of_Pair: "values_of k (map (Pair k') ys) = (if k' = k then ys else [])"
  by (induction ys) auto

fun value_in_range :: "real \<Rightarrow> real \<Rightarrow> info_val \<Rightarrow> bool" where
  "value_in_range lo hi (INum r) \<longleftrightarrow> lo \<le> r \<and> r \<le> hi"
| "value_in_range lo hi _ = False"

text \<open>A variable of a validation run: text for every sample, or numbers within the bounds of the variable.\<close>

definition info_ok :: "nat \<Rightarrow> (string \<Rightarrow> real) \<Rightarrow> (string \<Rightarrow> real) \<Rightarrow> string \<times> info_val list \<Rightarrow> bool" where
  "info_ok n lo hi = (\<lambda>(v, xs). n \<le> length xs \<and> (list_all is_text xs \<or> list_all (value_in_range (lo v) (hi v)) xs))"

lemma value_in_range_nums: "list_all (value_in_range lo hi) xs \<Longrightarrow> \<exists>rs. xs = map INum rs \<and> (\<forall>r\<in>set rs. lo \<le> r \<and> r \<le> hi)"
proof (induction xs)
  case (Cons x xs)
  then obtain rs where "xs = map INum rs" "\<forall>r\<in>set rs. lo \<le> r \<and> r \<le> hi" by auto
  then show ?case using Cons.prems by (cases x) (auto intro!: exI[of _ "_ # rs"])
qed simp

text \<open>What holds of the list of metrics of a data source, before they are averaged over the prompts.\<close>

definition source_good ::
  "(string \<Rightarrow> real) \<Rightarrow> (string \<Rightarrow> real) \<Rightarrow> (string \<times> info_val list) list \<Rightarrow> (string \<times> metric_name \<times> real) list \<Rightarrow> bool" where
  "source_good lo hi infos vs \<longleftrightarrow>
     (\<forall>v. good_metrics (lo v) (hi v) (''pred'' \<in> fst ` set infos) (values_of v vs)) \<and>
     (\<forall>v xs. (v, xs) \<in> set infos \<longrightarrow> list_all (value_in_range (lo v) (hi v)) xs \<longrightarrow> (\<exists>k x. (MMean k, x) \<in> set (values_of v vs)))"

lemma in_concat_map: "e \<in> set es \<Longrightarrow> y \<in> set (f (g e)) \<Longrightarrow> y \<in> set (concat (map f (map g es)))"
  by auto

lemma prompt_good:
  assumes c: "choice_law choice" and idxs: "idxs \<noteq> []" "set idxs \<subseteq> {..<n}" and ok: "\<forall>e\<in>set infos. info_ok n lo hi e"
  shows "\<exists>ms. prompt_metrics choice infos idxs = Inr ms \<and> source_good lo hi infos ms"
proof -
  let ?vv = "map (\<lambda>(v, xs). (v, map ((!) xs) idxs)) infos"
  let ?p = "''pred'' \<in> fst ` set infos"
  let ?f = "\<lambda>(v, vals). if skipped vals then Inr [] else map_sum id (map (Pair v)) (var_metrics choice vals (map_of ?vv ''pred''))"
  let ?P = "\<lambda>(v, vals) ys. (ys = [] \<and> skipped vals) \<or>
    (\<exists>zs k x. ys = map (Pair v) zs \<and> good_metrics (lo v) (hi v) ?p zs \<and> (MMean k, x) \<in> set zs)"
  have preds: "length ps = length idxs" if "map_of ?vv ''pred'' = Some ps" for ps
    using map_of_SomeD[OF that] by auto
  have pred_iff: "map_of ?vv ''pred'' \<noteq> None \<longleftrightarrow> ?p"
    unfolding not_None_eq[symmetric] map_of_eq_None_iff by (force simp: image_iff)
  have each: "\<exists>ys. ?f (v, vals) = Inr ys \<and> ?P (v, vals) ys" if vv: "(v, vals) \<in> set ?vv" for v vals
  proof -
    obtain xs where xs: "(v, xs) \<in> set infos" "vals = map ((!) xs) idxs" using vv by auto
    have okx: "n \<le> length xs" "list_all is_text xs \<or> list_all (value_in_range (lo v) (hi v)) xs"
      using ok xs(1) by (auto simp: info_ok_def)
    have sub: "set vals \<subseteq> set xs" "vals \<noteq> []" using idxs okx(1) xs(2) by (force simp: subset_iff)+
    show ?thesis
    proof (cases "skipped vals")
      case True
      then show ?thesis by auto
    next
      case False
      then have "\<not> list_all is_text xs" using sub list.set_sel(1)[of vals] unfolding skipped_def list_all_iff by blast
      then have "list_all (value_in_range (lo v) (hi v)) vals" using okx(2) sub(1) by (auto simp: list_all_iff)
      then obtain rs where rs: "vals = map INum rs" "\<forall>r\<in>set rs. lo v \<le> r \<and> r \<le> hi v" using value_in_range_nums by blast
      have ne: "rs \<noteq> []" and len: "length rs = length idxs"
        using sub(2) arg_cong[OF xs(2), of length] by (simp_all add: rs(1))
      obtain ms where ms: "var_metrics choice (map INum rs) (map_of ?vv ''pred'') = Inr ms"
        "good_metrics (lo v) (hi v) (map_of ?vv ''pred'' \<noteq> None) ms" "(MMean (length rs), np_mean rs) \<in> set ms"
        using var_good[OF c ne rs(2), of "map_of ?vv ''pred''"] preds len by metis
      then show ?thesis using False unfolding pred_iff by (force simp: rs(1))
    qed
  qed
  have "\<forall>e\<in>set ?vv. \<exists>ys. ?f e = Inr ys \<and> ?P e ys"
  proof
    fix e assume e: "e \<in> set ?vv"
    obtain a b where ab: "e = (a, b)" by (cases e)
    show "\<exists>ys. ?f e = Inr ys \<and> ?P e ys" unfolding ab by (rule each[OF e[unfolded ab]])
  qed
  then obtain g where g: "map_res ?f ?vv = Inr (map g ?vv)" "\<forall>e\<in>set ?vv. ?P e (g e)"
    by (elim exE[OF map_res_choose] conjE) (rule that)
  have r: "prompt_metrics choice infos idxs = Inr (concat (map g ?vv))"
    using g(1) by (simp add: prompt_metrics_def Let_def)
  have "good_metrics (lo v) (hi v) ?p (values_of v (concat (map g ?vv)))" for v
    unfolding values_of_concat
  proof (intro good_concat)
    fix ys assume "ys \<in> set (map (values_of v) (map g ?vv))"
    then obtain e where e: "e \<in> set ?vv" "ys = values_of v (g e)" unfolding list.set_map by blast
    obtain v' vals where "e = (v', vals)" by (cases e)
    then have y: "(v', vals) \<in> set ?vv" "ys = values_of v (g (v', vals))" using e by (simp_all only:)
    have "?P (v', vals) (g (v', vals))" using g(2) y(1) by blast
    then show "good_metrics (lo v) (hi v) ?p ys" by (auto simp: y(2) values_of_Pair)
  qed
  moreover have "\<exists>k x. (MMean k, x) \<in> set (values_of v (concat (map g ?vv)))"
    if xs: "(v, xs) \<in> set infos" "list_all (value_in_range (lo v) (hi v)) xs" for v xs
  proof -
    let ?e = "(v, map ((!) xs) idxs)"
    have e: "?e \<in> set ?vv" using xs(1) by force
    have "n \<le> length xs" using ok xs(1) by (auto simp: info_ok_def)
    then have "hd (map ((!) xs) idxs) \<in> set xs" using idxs by (cases idxs) auto
    then have "value_in_range (lo v) (hi v) (hd (map ((!) xs) idxs))" using xs(2) by (auto simp: list_all_iff)
    then have "\<not> skipped (map ((!) xs) idxs)"
      using idxs(1) by (cases "hd (map ((!) xs) idxs)") (auto simp: skipped_def)
    moreover have "?P ?e (g ?e)" using g(2) e by blast
    ultimately obtain zs k x where "g ?e = map (Pair v) zs" "(MMean k, x) \<in> set zs" by auto
    then have "(MMean k, x) \<in> set (values_of v (g ?e))" by (simp add: values_of_Pair)
    then show ?thesis unfolding values_of_concat by (intro exI in_concat_map[OF e])
  qed
  ultimately have "source_good lo hi infos (concat (map g ?vv))" unfolding source_good_def by blast
  then show ?thesis using r by blast
qed

lemma map_snd_indexed:
  "map snd (filter (\<lambda>(k', v). k' = k) (map (\<lambda>i. (f i, h i)) xs)) = map h (filter (\<lambda>i. f i = k) xs)"
  by (induction xs) simp_all

lemma prompt_samples_sound:
  "fst ` set (prompt_samples D U) = set D"
  "(src, us) \<in> set (prompt_samples D U) \<Longrightarrow> us \<noteq> []"
  "(src, us) \<in> set (prompt_samples D U) \<Longrightarrow> (u, idxs) \<in> set us \<Longrightarrow> idxs \<noteq> [] \<and> set idxs \<subseteq> {..<length D}"
proof -
  let ?rows = "map (\<lambda>i. (D ! i, (U ! i, i))) [0..<length D]"
  have keys: "fst ` set ?rows = set D" by (force simp: in_set_conv_nth)
  have src: "us = grouped (values_of src ?rows)" "src \<in> set D" if "(src, us) \<in> set (prompt_samples D U)" for src us
    using that keys by (auto simp: prompt_samples_def in_grouped_iff)
  show "fst ` set (prompt_samples D U) = set D"
  proof
    show "fst ` set (prompt_samples D U) \<subseteq> set D" using src(2) by auto
    have "(s, values_of s ?rows) \<in> set (grouped ?rows)" if "s \<in> set D" for s using that keys by (simp add: in_grouped_iff)
    then show "set D \<subseteq> fst ` set (prompt_samples D U)" unfolding prompt_samples_def by (force simp: image_iff)
  qed
  have rows: "values_of src ?rows = map (\<lambda>i. (U ! i, i)) (filter (\<lambda>i. D ! i = src) [0..<length D])" for src
    unfolding values_of_def by (rule map_snd_indexed)
  show "us \<noteq> []" if m: "(src, us) \<in> set (prompt_samples D U)"
  proof -
    have "values_of src ?rows \<noteq> []" using src(2)[OF m] keys by (simp only: values_of_Nil_iff) simp
    then obtain u i where "(u, i) \<in> set (values_of src ?rows)" by (cases "values_of src ?rows") auto
    then have "(u, values_of u (values_of src ?rows)) \<in> set us" unfolding src(1)[OF m] in_grouped_iff by force
    then show ?thesis by auto
  qed
  show "idxs \<noteq> [] \<and> set idxs \<subseteq> {..<length D}" if m: "(src, us) \<in> set (prompt_samples D U)" "(u, idxs) \<in> set us"
  proof -
    have i: "u \<in> fst ` set (values_of src ?rows)" "idxs = values_of u (values_of src ?rows)"
      using m(2) unfolding src(1)[OF m(1)] in_grouped_iff by auto
    then have "idxs \<noteq> []" by (simp add: values_of_Nil_iff)
    moreover have "set idxs \<subseteq> {..<length D}" unfolding i(2) rows by (auto simp: values_of_def)
    ultimately show ?thesis ..
  qed
qed

lemma source_good_concat:
  assumes "pss \<noteq> []" "\<forall>ps\<in>set pss. source_good lo hi infos ps" shows "source_good lo hi infos (concat pss)"
proof -
  have "good_metrics (lo v) (hi v) (''pred'' \<in> fst ` set infos) (values_of v (concat pss))" for v
    unfolding values_of_concat using assms(2) by (intro good_concat) (auto simp: source_good_def)
  moreover have "\<exists>k x. (MMean k, x) \<in> set (values_of v (concat pss))"
    if v: "(v, xs) \<in> set infos" "list_all (value_in_range (lo v) (hi v)) xs" for v xs
  proof -
    have "source_good lo hi infos (hd pss)" using assms by simp
    then obtain k x where "(MMean k, x) \<in> set (values_of v (hd pss))" using v unfolding source_good_def by blast
    then show ?thesis using assms(1) by (cases pss) auto
  qed
  ultimately show ?thesis by (auto simp: source_good_def)
qed

lemma validation_entries:
  assumes c: "choice_law choice" and ok: "\<forall>e\<in>set infos. info_ok (length D) lo hi e"
  shows "\<exists>entries. map_res (\<lambda>(src, us). map_sum id (\<lambda>ms. map (Pair src) (concat ms))
        (map_res (\<lambda>(u, idxs). prompt_metrics choice infos idxs) us)) (prompt_samples D U) = Inr entries
    \<and> (\<forall>src\<in>set D. source_good lo hi infos (values_of src (concat entries)))
    \<and> fst ` set (concat entries) \<subseteq> set D"
proof -
  let ?h = "\<lambda>(src, us). map_sum id (\<lambda>ms. map (Pair src) (concat ms)) (map_res (\<lambda>(u, idxs). prompt_metrics choice infos idxs) us)"
  let ?P = "\<lambda>(src, us) es. \<exists>vs. es = map (Pair src) vs \<and> source_good lo hi infos vs"
  have each: "\<exists>es. ?h (src, us) = Inr es \<and> ?P (src, us) es" if m: "(src, us) \<in> set (prompt_samples D U)" for src us
  proof -
    have "\<forall>x\<in>set us. \<exists>ms. (\<lambda>(u, idxs). prompt_metrics choice infos idxs) x = Inr ms \<and> source_good lo hi infos ms"
    proof
      fix x assume x: "x \<in> set us"
      obtain u idxs where u: "x = (u, idxs)" by (cases x)
      show "\<exists>ms. (\<lambda>(u, idxs). prompt_metrics choice infos idxs) x = Inr ms \<and> source_good lo hi infos ms"
        using prompt_good[OF c _ _ ok, of idxs] prompt_samples_sound(3)[OF m, of u idxs] x u by simp
    qed
    then obtain g where g: "map_res (\<lambda>(u, idxs). prompt_metrics choice infos idxs) us = Inr (map g us)"
      "\<forall>x\<in>set us. source_good lo hi infos (g x)"
      using map_res_choose[of us "\<lambda>(u, idxs). prompt_metrics choice infos idxs" "\<lambda>_. source_good lo hi infos"] by blast
    have "source_good lo hi infos (concat (map g us))"
      using g(2) prompt_samples_sound(2)[OF m] by (intro source_good_concat) auto
    then show ?thesis using g(1) by auto
  qed
  have "\<forall>e\<in>set (prompt_samples D U). \<exists>es. ?h e = Inr es \<and> ?P e es"
  proof
    fix e assume e: "e \<in> set (prompt_samples D U)"
    obtain a b where ab: "e = (a, b)" by (cases e)
    show "\<exists>es. ?h e = Inr es \<and> ?P e es" unfolding ab by (rule each[OF e[unfolded ab]])
  qed
  then obtain g where g: "map_res ?h (prompt_samples D U) = Inr (map g (prompt_samples D U))"
    "\<forall>e\<in>set (prompt_samples D U). ?P e (g e)"
    by (elim exE[OF map_res_choose] conjE) (rule that)
  let ?E = "concat (map g (prompt_samples D U))"
  have "source_good lo hi infos (values_of src ?E)" if src: "src \<in> set D" for src
  proof -
    let ?mine = "filter (\<lambda>e. fst e = src) (prompt_samples D U)"
    have own: "values_of src (g e) = (if fst e = src then map snd (g e) else [])" if m: "e \<in> set (prompt_samples D U)" for e
    proof -
      obtain s us where e: "e = (s, us)" by (cases e)
      obtain vs where "g e = map (Pair s) vs" using bspec[OF g(2) m] by (auto simp: e)
      then show ?thesis by (auto simp add: e values_of_Pair comp_def)
    qed
    have "values_of src (concat (map g es)) = concat (map (\<lambda>e. map snd (g e)) (filter (\<lambda>e. fst e = src) es))"
      if "set es \<subseteq> set (prompt_samples D U)" for es
      using that by (induction es) (auto simp: own)
    then have eq: "values_of src ?E = concat (map (\<lambda>e. map snd (g e)) ?mine)" by simp
    obtain us where "(src, us) \<in> set (prompt_samples D U)" using prompt_samples_sound(1)[of D U] src by force
    then have "?mine \<noteq> []" unfolding filter_empty_conv by force
    moreover have "source_good lo hi infos (map snd (g e))" if "e \<in> set ?mine" for e
      using g(2) that by (fastforce simp: comp_def)
    ultimately show ?thesis unfolding eq by (intro source_good_concat) auto
  qed
  moreover have "fst ` set ?E \<subseteq> set D"
  proof -
    have "fst ` set (g e) \<subseteq> {fst e}" if "e \<in> set (prompt_samples D U)" for e using g(2) that by (cases e) force
    then have "\<forall>e\<in>set (prompt_samples D U). fst ` set (g e) \<subseteq> set D" using prompt_samples_sound(1)[of D U] by blast
    then show ?thesis unfolding set_concat set_map by blast
  qed
  ultimately show ?thesis using g(1) by blast
qed

text \<open>The averages over the prompts: in range, and ordered.\<close>

definition metrics_sound :: "real \<Rightarrow> real \<Rightarrow> bool \<Rightarrow> (metric_name \<times> real) list \<Rightarrow> bool" where
  "metrics_sound lo hi has_pred ms \<longleftrightarrow>
     (\<forall>(name, x)\<in>set ms. metric_in_range lo hi name x) \<and>
     (\<forall>n w b m. map_of ms (WorstMean n) = Some w \<longrightarrow> map_of ms (BestMean n) = Some b \<longrightarrow>
        w \<le> b \<and> (has_pred \<longrightarrow> map_of ms (MajMean n) = Some m \<longrightarrow> w \<le> m \<and> m \<le> b))"

lemma metric_mean_in_range:
  assumes "xs \<noteq> []" "\<forall>x\<in>set xs. metric_in_range lo hi name x" shows "metric_in_range lo hi name (np_mean xs)"
proof -
  have "0 \<le> np_mean xs" if "\<forall>x\<in>set xs. 0 \<le> x"
    using that by (auto simp: np_mean_def intro!: divide_nonneg_nonneg sum_list_nonneg)
  then show ?thesis using assms np_mean_bounds[OF assms(1), of lo hi] by (cases name) auto
qed

lemma averages_sound:
  assumes good: "good_metrics lo hi p ms"
  shows "metrics_sound lo hi p (map (\<lambda>(name, xs). (name, np_mean xs)) (grouped ms))" (is "metrics_sound lo hi p ?avg")
proof -
  have val: "map_of ?avg name = (if name \<in> fst ` set ms then Some (np_mean (values_of name ms)) else None)" for name
    by (simp add: map_of_map map_of_grouped)
  have "metric_in_range lo hi name x" if m: "(name, x) \<in> set ?avg" for name x
  proof -
    have x: "name \<in> fst ` set ms" "x = np_mean (values_of name ms)" using m by (auto simp: in_grouped_iff)
    have "\<forall>y\<in>set (values_of name ms). metric_in_range lo hi name y"
      using good by (auto simp: good_metrics_def values_of_def)
    then show ?thesis unfolding x(2) using x(1) by (intro metric_mean_in_range) (simp_all add: values_of_Nil_iff)
  qed
  moreover have "w \<le> b \<and> (p \<longrightarrow> map_of ?avg (MajMean n) = Some m \<longrightarrow> w \<le> m \<and> m \<le> b)"
    if "map_of ?avg (WorstMean n) = Some w" "map_of ?avg (BestMean n) = Some b" for n w b m
    using that good unfolding good_metrics_def ordered_metrics_def val
    by (auto split: if_splits intro: np_mean_mono)
  ultimately show ?thesis unfolding metrics_sound_def by blast
qed

text \<open>
  C35. The validation metrics of a run whose variables are all text, or all numbers within bounds, exist; every mean, best,
  worst and majority value is within the bounds of its variable and every deviation is not negative; the worst value is
  at most the best one, and the majority value between them; and a numeric variable has a mean for every data source.
\<close>

theorem validation_metrics_sound:
  assumes "choice_law choice" and "length data_sources \<le> length sample_uids"
    and "\<forall>e\<in>set infos. info_ok (length data_sources) lo hi e"
  shows "\<exists>r. process_validation_metrics choice data_sources sample_uids infos = Inr r
    \<and> (\<forall>src vs v ms. (src, vs) \<in> set r \<longrightarrow> (v, ms) \<in> set vs \<longrightarrow> metrics_sound (lo v) (hi v) (''pred'' \<in> fst ` set infos) ms)
    \<and> (\<forall>src v xs. src \<in> set data_sources \<longrightarrow> (v, xs) \<in> set infos \<longrightarrow> list_all (value_in_range (lo v) (hi v)) xs \<longrightarrow>
         (\<exists>vs ms k x. (src, vs) \<in> set r \<and> (v, ms) \<in> set vs \<and> (MMean k, x) \<in> set ms))"
proof -
  let ?avg = "\<lambda>(v, ms). (v, map (\<lambda>(name, xs). (name, np_mean xs)) (grouped ms))"
  let ?p = "''pred'' \<in> fst ` set infos"
  obtain entries where entries:
    "map_res (\<lambda>(src, us). map_sum id (\<lambda>ms. map (Pair src) (concat ms)) (map_res (\<lambda>(u, idxs). prompt_metrics choice infos idxs) us))
       (prompt_samples data_sources sample_uids) = Inr entries"
    and good: "\<forall>src\<in>set data_sources. source_good lo hi infos (values_of src (concat entries))"
    and keys: "fst ` set (concat entries) \<subseteq> set data_sources"
    using validation_entries[OF assms(1,3), of sample_uids] by blast
  define r where "r = map (\<lambda>(src, vs). (src, map ?avg (grouped vs))) (grouped (concat entries))"
  have lens: "\<not> (\<exists>(v, xs)\<in>set infos. length xs < length data_sources)" using assms(3) by (fastforce simp: info_ok_def)
  then have res: "process_validation_metrics choice data_sources sample_uids infos = Inr r"
    using assms(2) by (simp add: process_validation_metrics_def entries r_def)
  have "metrics_sound (lo v) (hi v) ?p ms" if m: "(src, vs) \<in> set r" "(v, ms) \<in> set vs" for src vs v ms
  proof -
    obtain vs0 where vs0: "(src, vs0) \<in> set (grouped (concat entries))" "vs = map ?avg (grouped vs0)"
      using m(1) by (auto simp: r_def)
    obtain ms0 where ms0: "(v, ms0) \<in> set (grouped vs0)" "ms = map (\<lambda>(name, xs). (name, np_mean xs)) (grouped ms0)"
      using m(2) vs0(2) by auto
    have "source_good lo hi infos vs0" using vs0(1) good keys unfolding in_grouped_iff by blast
    then have "good_metrics (lo v) (hi v) ?p ms0" using ms0(1) unfolding source_good_def in_grouped_iff by blast
    then show ?thesis unfolding ms0(2) by (rule averages_sound)
  qed
  moreover have "\<exists>vs ms k x. (src, vs) \<in> set r \<and> (v, ms) \<in> set vs \<and> (MMean k, x) \<in> set ms"
    if v: "src \<in> set data_sources" "(v, xs) \<in> set infos" "list_all (value_in_range (lo v) (hi v)) xs" for src v xs
  proof -
    let ?vs = "values_of src (concat entries)"
    have "source_good lo hi infos ?vs" using good v(1) by blast
    then obtain k x where m: "(MMean k, x) \<in> set (values_of v ?vs)" using v(2,3) unfolding source_good_def by blast
    then have k: "MMean k \<in> fst ` set (values_of v ?vs)" by force
    have ne: "v \<in> fst ` set ?vs" "src \<in> fst ` set (concat entries)"
      using m values_of_Nil_iff[of v ?vs] values_of_Nil_iff[of src "concat entries"] by fastforce+
    have "(src, map ?avg (grouped ?vs)) \<in> set r" using ne(2) unfolding r_def by (force simp: in_grouped_iff)
    moreover have "?avg (v, values_of v ?vs) \<in> set (map ?avg (grouped ?vs))"
      using ne(1) unfolding list.set_map by (intro imageI) (simp add: in_grouped_iff)
    moreover have "(MMean k, np_mean (values_of (MMean k) (values_of v ?vs))) \<in> set (snd (?avg (v, values_of v ?vs)))"
      using k by (force simp: in_grouped_iff)
    ultimately show ?thesis unfolding prod.case snd_conv by blast
  qed
  ultimately show ?thesis using res by blast
qed

definition ex_choice :: choice where
  "ex_choice n k = [replicate k 0, map (\<lambda>i. i mod n) [0..<k]]"

definition ex_infos :: "(string \<times> info_val list) list" where
  "ex_infos = [(''score'', [INum 1, INum 0]), (''pred'', [IText ''4'', IText ''5''])]"

theorem validation_metrics_sound_witness:
  "\<exists>r. process_validation_metrics ex_choice [''m'', ''m''] [''u'', ''u''] ex_infos = Inr r
    \<and> (\<exists>vs ms k x. (''m'', vs) \<in> set r \<and> (''score'', ms) \<in> set vs \<and> (MMean k, x) \<in> set ms \<and> 0 \<le> x \<and> x \<le> 1)"
proof -
  have "choice_law ex_choice" by (auto simp: choice_law_def ex_choice_def)
  moreover have "\<forall>e\<in>set ex_infos. info_ok (length [''m'', ''m'']) (\<lambda>_. 0) (\<lambda>_. 1) e" by (simp add: ex_infos_def info_ok_def)
  ultimately obtain r where r: "process_validation_metrics ex_choice [''m'', ''m''] [''u'', ''u''] ex_infos = Inr r"
    and sound: "\<And>src vs v ms. (src, vs) \<in> set r \<Longrightarrow> (v, ms) \<in> set vs \<Longrightarrow> metrics_sound 0 1 (''pred'' \<in> fst ` set ex_infos) ms"
    and ex: "\<And>src v xs. src \<in> set [''m'', ''m''] \<Longrightarrow> (v, xs) \<in> set ex_infos \<Longrightarrow> list_all (value_in_range 0 1) xs \<Longrightarrow>
       \<exists>vs ms k x. (src, vs) \<in> set r \<and> (v, ms) \<in> set vs \<and> (MMean k, x) \<in> set ms"
    using validation_metrics_sound[of ex_choice "[''m'', ''m'']" "[''u'', ''u'']" ex_infos "\<lambda>_. 0" "\<lambda>_. 1"] by auto
  obtain vs ms k x where m: "(''m'', vs) \<in> set r" "(''score'', ms) \<in> set vs" "(MMean k, x) \<in> set ms"
    using ex[of "''m''" "''score''" "[INum 1, INum 0]"] by (auto simp: ex_infos_def)
  have "metric_in_range 0 1 (MMean k) x" using sound[OF m(1,2)] m(3) by (auto simp: metrics_sound_def)
  then show ?thesis using r m by auto
qed

end
