(* ===== verification/ContToken.thy ===== *)
theory ContToken
  imports PyValues
begin

text \<open>
  Continuous token building, \<open>verl/utils/tokenizer/continuous_token.py\<close> with \<open>continuous_token_wiring.py\<close> and the chat
  template wrapper of \<open>chat_template.py\<close>: the token stream of a conversation is extended message by message, instead of being
  rendered anew, and masks and log-probabilities follow the edits. The tokenizer is a record of functions: its chat template
  (with the keyword arguments of the builder applied), \<open>encode\<close> and \<open>convert_tokens_to_ids\<close>. The text of floats, lists
  and dictionaries (\<open>str\<close>) is the parameter \<open>rp\<close>.
\<close>

section \<open>Tokens of messages\<close>

type_synonym chat_fn = "pydict list \<Rightarrow> bool \<Rightarrow> pyval \<Rightarrow> pyval res"

record tok =
  tk_chat :: chat_fn
  tk_encode :: "string \<Rightarrow> int list"
  tk_convert :: "string \<Rightarrow> pyval"
  tk_name :: "string option"

text \<open>\<open>normalize_token_ids\<close>; \<open>parse\<close> reads an integer from a text.\<close>

definition normalize_id :: "(string \<Rightarrow> int option) \<Rightarrow> pyval \<Rightarrow> int res" where
  "normalize_id parse v =
     (case v of
        PInt i \<Rightarrow> Inr i
      | PBool b \<Rightarrow> Inr (if b then 1 else 0)
      | PFloat r \<Rightarrow> Inr (if 0 \<le> r then \<lfloor>r\<rfloor> else \<lceil>r\<rceil>)
      | PStr s \<Rightarrow> (case parse s of Some i \<Rightarrow> Inr i | None \<Rightarrow> Inl (TypeError ''token_id must be int-convertible''))
      | _ \<Rightarrow> Inl (TypeError ''token_id must be int-convertible''))"

definition normalize_token_ids :: "(string \<Rightarrow> int option) \<Rightarrow> pyval \<Rightarrow> int list res" where
  "normalize_token_ids parse output =
     (let ids = (case output of PDict d \<Rightarrow> (case map_of d ''input_ids'' of Some v \<Rightarrow> v | None \<Rightarrow> output) | _ \<Rightarrow> output);
          ids = (case ids of PArray xs \<Rightarrow> PList xs | _ \<Rightarrow> ids);
          ids = (case ids of PList [PList xs] \<Rightarrow> PList xs | _ \<Rightarrow> ids)
      in case ids of
           PList xs \<Rightarrow> map_res (normalize_id parse) xs
         | _ \<Rightarrow> Inl (TypeError ''token_ids must be list-like token ids''))"

text \<open>\<open>apply_chat_template\<close> with \<open>tokenize=True\<close>: a template that needs a user message gets an empty one, cut off afterwards.\<close>

definition dummy_user_message :: pydict where
  "dummy_user_message =
     [(''role'', PStr ''user''), (''content'', PList [PDict [(''type'', PStr ''text''), (''text'', PStr [])]])]"

definition cut_prefix :: "pyval \<Rightarrow> pyval \<Rightarrow> pyval res" where
  "cut_prefix prefix output =
     (case output of
        PList [] \<Rightarrow> Inl IndexError
      | PList (PList row # rest) \<Rightarrow>
          if rest \<noteq> [] then Inl (AssertionError ''output must be a list[int] or list[list[int]]'')
          else (case prefix of
                  PList (PList p # _) \<Rightarrow> Inr (PList (drop (length p) row))
                | PList [] \<Rightarrow> Inl IndexError
                | _ \<Rightarrow> Inl (TypeError ''object has no len()''))
      | PList xs \<Rightarrow> (case prefix of PList p \<Rightarrow> Inr (PList (drop (length p) xs)) | _ \<Rightarrow> Inl (TypeError ''object has no len()''))
      | _ \<Rightarrow> Inl (TypeError ''object is not subscriptable''))"

definition apply_chat_template :: "chat_fn \<Rightarrow> pydict list \<Rightarrow> bool \<Rightarrow> pyval \<Rightarrow> pyval res" where
  "apply_chat_template chat messages add_generation_prompt tools =
     (case chat messages add_generation_prompt tools of
        Inr out \<Rightarrow> Inr out
      | Inl e \<Rightarrow>
          bind_res (chat [dummy_user_message] False tools) (\<lambda>prefix.
          bind_res (chat (dummy_user_message # messages) add_generation_prompt tools) (\<lambda>output. cut_prefix prefix output)))"

section \<open>Builders\<close>

datatype builder_kind =
    DefaultBuilder
  | GptOssBuilder
  | QwenBuilder int int
  | MiniMaxBuilder int int
  | GLMBuilder int int
  | Gemma4Builder int

text \<open>The arguments are the ids found by the constructor: newline and end of turn, observation and user, tool response.\<close>

record builder =
  b_tok :: tok
  b_parse :: "string \<Rightarrow> int option"
  b_repr :: "pyval \<Rightarrow> string"
  b_allowed :: "string list"
  b_kind :: builder_kind

definition SUPPORTED_APPEND_ROLES :: "string list" where
  "SUPPORTED_APPEND_ROLES = [''tool'', ''user'', ''system'']"

definition synthetic_system_message :: pydict where
  "synthetic_system_message = [(''role'', PStr ''system''), (''content'', PStr ''continuous token synthetic system'')]"

definition synthetic_user_message :: pydict where
  "synthetic_user_message = [(''role'', PStr ''user''), (''content'', PStr ''continuous token synthetic user'')]"

definition require_token_id :: "tok \<Rightarrow> string \<Rightarrow> int res" where
  "require_token_id tk token =
     (let check = (\<lambda>v. case v of
                PInt i \<Rightarrow> if i < 0 then Inl (ValueError ''Tokenizer returned invalid id for required token'') else Inr i
              | PBool b \<Rightarrow> Inr (if b then 1 else 0)
              | _ \<Rightarrow> Inl (ValueError ''Tokenizer returned invalid id for required token''))
      in case tk_convert tk token of
           PNone \<Rightarrow> Inl (ValueError ''Tokenizer does not define required token'')
         | PList [v] \<Rightarrow> check v
         | PList _ \<Rightarrow> Inl (ValueError ''Tokenizer returned multiple ids for required token'')
         | v \<Rightarrow> check v)"

definition newline_id :: "tok \<Rightarrow> int res" where
  "newline_id tk = (case tk_encode tk nl of [i] \<Rightarrow> Inr i | _ \<Rightarrow> Inl (ValueError ''Expected newline to tokenize to one token''))"

definition check_append_roles :: "string list option \<Rightarrow> string list res" where
  "check_append_roles allowed =
     (case allowed of
        None \<Rightarrow> Inr SUPPORTED_APPEND_ROLES
      | Some roles \<Rightarrow>
          if filter (\<lambda>r. r \<notin> set SUPPORTED_APPEND_ROLES) roles \<noteq> [] then Inl (ValueError ''Unsupported Continuous Token append roles'')
          else Inr roles)"

definition base_builder ::
  "tok \<Rightarrow> (string \<Rightarrow> int option) \<Rightarrow> (pyval \<Rightarrow> string) \<Rightarrow> string list option \<Rightarrow> builder res" where
  "base_builder tk parse rp allowed =
     bind_res (check_append_roles allowed) (\<lambda>roles.
       Inr \<lparr>b_tok = tk, b_parse = parse, b_repr = rp, b_allowed = roles, b_kind = DefaultBuilder\<rparr>)"

text \<open>The constructors of the model-specific builders.\<close>

datatype builder_class = CDefault | CGptOss | CQwen | CMiniMax | CGLM | CGemma4

definition builder_init ::
  "builder_class \<Rightarrow> tok \<Rightarrow> (string \<Rightarrow> int option) \<Rightarrow> (pyval \<Rightarrow> string) \<Rightarrow> string list option \<Rightarrow> builder res" where
  "builder_init cls tk parse rp allowed =
     bind_res (base_builder tk parse rp allowed) (\<lambda>b.
       let two = (\<lambda>mk x y. bind_res x (\<lambda>i. bind_res y (\<lambda>j. Inr (b\<lparr>b_kind := mk i j\<rparr>))))
       in case cls of
            CDefault \<Rightarrow> Inr b
          | CGptOss \<Rightarrow> Inr (b\<lparr>b_kind := GptOssBuilder\<rparr>)
          | CQwen \<Rightarrow> two QwenBuilder (newline_id tk) (require_token_id tk ''<|im_end|>'')
          | CMiniMax \<Rightarrow> two MiniMaxBuilder (newline_id tk) (require_token_id tk ''[e~['')
          | CGLM \<Rightarrow> two GLMBuilder (require_token_id tk ''<|observation|>'') (require_token_id tk ''<|user|>'')
          | CGemma4 \<Rightarrow> bind_res (require_token_id tk ''<|tool_response>'') (\<lambda>i. Inr (b\<lparr>b_kind := Gemma4Builder i\<rparr>)))"

section \<open>Rendering of appended messages\<close>

definition render_tokens :: "builder \<Rightarrow> pydict list \<Rightarrow> bool \<Rightarrow> pyval \<Rightarrow> int list res" where
  "render_tokens b messages add_generation_prompt tools =
     bind_res (apply_chat_template (tk_chat (b_tok b)) messages add_generation_prompt tools) (normalize_token_ids (b_parse b))"

definition build_initial_tokens :: "builder \<Rightarrow> pydict list \<Rightarrow> pyval \<Rightarrow> int list res" where
  "build_initial_tokens b messages tools = render_tokens b messages True tools"

definition render_delta_token_id :: "builder \<Rightarrow> pydict list \<Rightarrow> pydict list \<Rightarrow> bool \<Rightarrow> pyval \<Rightarrow> int list res" where
  "render_delta_token_id b prefix_messages appended_messages add_generation_prompt tools =
     bind_res (render_tokens b prefix_messages False tools) (\<lambda>prefix_ids.
     bind_res (render_tokens b (prefix_messages @ appended_messages) add_generation_prompt tools) (\<lambda>full_ids.
       if take (length prefix_ids) full_ids \<noteq> prefix_ids then Inl (ValueError ''Continuous Token token-id suffix diff failed for roles'')
       else Inr (drop (length prefix_ids) full_ids)))"

definition has_role :: "string \<Rightarrow> pydict \<Rightarrow> bool" where
  "has_role r m \<longleftrightarrow> d_get ''role'' m = PStr r"

text \<open>\<open>_iter_append_groups\<close>: neighbouring tool messages form one group, every other message its own.\<close>

function append_groups :: "pydict list \<Rightarrow> pydict list list" where
  "append_groups [] = []"
| "append_groups (m # ms) =
     (if has_role ''tool'' m then (m # takeWhile (has_role ''tool'') ms) # append_groups (dropWhile (has_role ''tool'') ms)
      else [m] # append_groups ms)"
  by pat_completeness auto
termination
  by (relation "measure length") (auto simp: less_Suc_eq_le length_dropWhile_le)

fun hashable :: "pyval \<Rightarrow> bool" where
  "hashable (PList xs) = False"
| "hashable (PDict d) = False"
| "hashable (PArray xs) = False"
| "hashable _ = True"

definition check_role :: "builder \<Rightarrow> pydict \<Rightarrow> unit res" where
  "check_role b m =
     (if \<not> hashable (d_get ''role'' m) then Inl (TypeError ''unhashable type'')
      else if list_ex (\<lambda>r. has_role r m) (b_allowed b) then Inr ()
      else Inl (ValueError ''Continuous Token only supports appending roles''))"

definition assert_append_only :: "builder \<Rightarrow> pydict list \<Rightarrow> pydict list \<Rightarrow> unit res" where
  "assert_append_only b previous updated =
     (if length updated < length previous
      then Inl (ValueError ''Continuous Token messages must be append-only; updated_messages is shorter'')
      else if \<not> py_eq (PList (map PDict (take (length previous) updated))) (PList (map PDict previous))
      then Inl (ValueError ''Continuous Token messages must be append-only; prefix messages changed'')
      else bind_res (map_res (check_role b) (drop (length previous) updated)) (\<lambda>_. Inr ()))"

definition DUMMY_TOOL_NAME :: string where "DUMMY_TOOL_NAME = ''continuous_token_tool''"

definition tool_message_name_or_dummy :: "builder \<Rightarrow> pydict \<Rightarrow> string" where
  "tool_message_name_or_dummy b m =
     (if truthy (d_get ''name'' m) then py_str (b_repr b) (d_get ''name'' m) else DUMMY_TOOL_NAME)"

definition tool_call_id_or_dummy :: "pydict \<Rightarrow> nat \<Rightarrow> pyval" where
  "tool_call_id_or_dummy m index =
     (if d_get ''tool_call_id'' m \<noteq> PNone then d_get ''tool_call_id'' m
      else PStr (''continuous_token_call_'' @ nat_text index))"

definition synthetic_assistant_for_tools :: "builder \<Rightarrow> pydict list \<Rightarrow> pydict" where
  "synthetic_assistant_for_tools b tool_messages =
     [(''role'', PStr ''assistant''), (''content'', PStr []), (''reasoning_content'', PStr ''reasoning''),
      (''tool_calls'', PList (map (\<lambda>(index, m).
         PDict [(''id'', tool_call_id_or_dummy m index), (''type'', PStr ''function''),
                (''function'', PDict [(''name'', PStr (tool_message_name_or_dummy b m)), (''arguments'', PDict [])])])
         (enumerate 0 tool_messages)))]"

section \<open>Names of tools\<close>

definition tool_call_function_name :: "builder \<Rightarrow> pydict \<Rightarrow> string option" where
  "tool_call_function_name b call =
     (case d_get ''function'' call of
        PDict f \<Rightarrow> if d_get ''name'' f \<noteq> PNone then Some (py_str (b_repr b) (d_get ''name'' f)) else None
      | _ \<Rightarrow> None)"

text \<open>The names of the tool calls of the latest assistant message: by id (the first call of an id counts), and by position.\<close>

definition call_names :: "builder \<Rightarrow> pyval list \<Rightarrow> (string \<times> string) list \<times> string option list" where
  "call_names b calls =
     (let named = map (\<lambda>c. case c of PDict d \<Rightarrow> (d_get ''id'' d, tool_call_function_name b d) | _ \<Rightarrow> (PNone, None)) calls;
          pairs = concat (map (\<lambda>(i, n). case n of Some name \<Rightarrow> if i \<noteq> PNone then [(py_str (b_repr b) i, name)] else [] | None \<Rightarrow> []) named)
      in (pairs, map snd named))"

fun latest_assistant_calls :: "builder \<Rightarrow> pydict list \<Rightarrow> (string \<times> string) list \<times> string option list" where
  "latest_assistant_calls b [] = ([], [])"
| "latest_assistant_calls b (m # ms) =
     (if \<not> has_role ''assistant'' m then latest_assistant_calls b ms
      else case py_or (d_get ''tool_calls'' m) (PList []) of PList calls \<Rightarrow> call_names b calls | _ \<Rightarrow> ([], []))"

definition latest_assistant_tool_call_names :: "builder \<Rightarrow> pydict list \<Rightarrow> (string \<times> string) list \<times> string option list" where
  "latest_assistant_tool_call_names b messages = latest_assistant_calls b (rev messages)"

definition resolve_required_tool_name :: "builder \<Rightarrow> pydict \<Rightarrow> nat \<Rightarrow> pydict list \<Rightarrow> pydict list \<Rightarrow> string res" where
  "resolve_required_tool_name b tool_message index tool_messages previous_messages =
     (if truthy (d_get ''name'' tool_message) then Inr (py_str (b_repr b) (d_get ''name'' tool_message))
      else let (by_id, positional) = latest_assistant_tool_call_names b previous_messages;
               call_id = d_get ''tool_call_id'' tool_message
           in case (if call_id \<noteq> PNone then map_of by_id (py_str (b_repr b) call_id) else None) of
                Some name \<Rightarrow> Inr name
              | None \<Rightarrow>
                  if length tool_messages \<noteq> length positional then Inl (ValueError ''Continuous Token cannot resolve tool name by position'')
                  else if length positional \<le> index then Inl (ValueError ''Continuous Token cannot resolve tool name by position'')
                  else case positional ! index of
                         None \<Rightarrow> Inl (ValueError ''Continuous Token cannot resolve tool name by position'')
                       | Some name \<Rightarrow> Inr name)"

section \<open>Increments\<close>

definition stringify_tool_content :: "builder \<Rightarrow> pyval \<Rightarrow> string res" where
  "stringify_tool_content b content =
     (case content of
        PNone \<Rightarrow> Inr []
      | PStr s \<Rightarrow> Inr s
      | PList items \<Rightarrow>
          map_sum id concat (map_res (\<lambda>v. case v of
             PDict d \<Rightarrow> if d_get ''type'' d = PStr ''text''
                        then (case d_get_or ''text'' (PStr []) d of PStr t \<Rightarrow> Inr t | _ \<Rightarrow> Inl (TypeError ''expected str instance''))
                        else Inr []
           | _ \<Rightarrow> Inr []) items)
      | v \<Rightarrow> Inr (py_str (b_repr b) v))"

definition gpt_oss_tool_response :: "string \<Rightarrow> string \<Rightarrow> string" where
  "gpt_oss_tool_response content name =
     ''<|start|>functions.'' @ name @ '' to=assistant<|channel|>commentary<|message|>'' @ content @ ''<|end|>''"

definition gemma4_tool_response :: "string \<Rightarrow> string \<Rightarrow> string" where
  "gemma4_tool_response content name =
     ''<|tool_response>response:'' @ name @ ''{value:<|\"|>'' @ content @ ''<|\"|>}<tool_response|>''"

text \<open>The manual format of the tool responses of a group, shared by two of the builders.\<close>

definition format_tool_group ::
  "builder \<Rightarrow> (string \<Rightarrow> string \<Rightarrow> string) \<Rightarrow> pydict list \<Rightarrow> pydict list \<Rightarrow> int list res" where
  "format_tool_group b fmt tool_messages previous_messages =
     bind_res (map_res (\<lambda>(index, m).
         bind_res (resolve_required_tool_name b m index tool_messages previous_messages) (\<lambda>name.
         bind_res (stringify_tool_content b (d_get_or ''content'' (PStr []) m)) (\<lambda>content. Inr (fmt content name))))
       (enumerate 0 tool_messages)) (\<lambda>texts. Inr (tk_encode (b_tok b) (concat texts)))"

definition tokenize_tool_group :: "builder \<Rightarrow> pydict list \<Rightarrow> pydict list \<Rightarrow> pyval \<Rightarrow> int list res" where
  "tokenize_tool_group b tool_messages previous_messages tools =
     (case b_kind b of
        GptOssBuilder \<Rightarrow> format_tool_group b gpt_oss_tool_response tool_messages previous_messages
      | Gemma4Builder _ \<Rightarrow> format_tool_group b gemma4_tool_response tool_messages previous_messages
      | _ \<Rightarrow> render_delta_token_id b
               [synthetic_system_message, synthetic_user_message, synthetic_assistant_for_tools b tool_messages]
               tool_messages False tools)"

definition tokenize_single_non_tool :: "builder \<Rightarrow> pydict \<Rightarrow> pyval \<Rightarrow> int list res" where
  "tokenize_single_non_tool b m tools =
     render_delta_token_id b [synthetic_system_message, synthetic_user_message] [m] False tools"

definition tokenize_generation_prompt_delta :: "builder \<Rightarrow> pydict list \<Rightarrow> pyval \<Rightarrow> int list res" where
  "tokenize_generation_prompt_delta b updated tools =
     (case b_kind b of
        Gemma4Builder _ \<Rightarrow>
          if updated = [] then Inl IndexError
          else if \<not> (has_role ''user'' (last updated) \<or> has_role ''system'' (last updated)) then Inr []
          else render_delta_token_id b [synthetic_system_message, synthetic_user_message, last updated] [] True tools
      | _ \<Rightarrow> render_delta_token_id b updated [] True tools)"

definition tokenize_group :: "builder \<Rightarrow> pydict list \<Rightarrow> pyval \<Rightarrow> pydict list \<Rightarrow> int list res" where
  "tokenize_group b previous_messages tools msgs =
     (case msgs of
        [] \<Rightarrow> Inl IndexError
      | m # ms \<Rightarrow>
          if has_role ''tool'' m then tokenize_tool_group b msgs previous_messages tools
          else if has_role ''user'' m \<or> has_role ''system'' m
          then (if ms \<noteq> [] then Inl (ValueError ''Continuous Token expects one message per append group'')
                else tokenize_single_non_tool b m tools)
          else Inl (ValueError ''Unsupported Continuous Token append role''))"

definition tokenize_non_assistant_incremental_messages ::
  "builder \<Rightarrow> pydict list \<Rightarrow> pydict list \<Rightarrow> pyval \<Rightarrow> int list res" where
  "tokenize_non_assistant_incremental_messages b previous updated tools =
     bind_res (assert_append_only b previous updated) (\<lambda>_.
       let appended = drop (length previous) updated
       in if appended = [] then Inr []
          else bind_res (map_res (tokenize_group b previous tools) (append_groups appended)) (\<lambda>ids.
               bind_res (tokenize_generation_prompt_delta b updated tools) (\<lambda>gen. Inr (concat ids @ gen))))"

section \<open>Merging\<close>

datatype merge_kind = AssistantMerge | NonAssistantMerge

record merge_result =
  mr_token_ids :: "int list"
  mr_appended :: nat
  mr_kind :: merge_kind
  mr_inserted :: "int list"
  mr_removed :: nat

definition merge_assistant_tokens :: "int list \<Rightarrow> int list \<Rightarrow> merge_result" where
  "merge_assistant_tokens runtime ids =
     \<lparr>mr_token_ids = runtime @ ids, mr_appended = length ids, mr_kind = AssistantMerge, mr_inserted = [], mr_removed = 0\<rparr>"

text \<open>A stream that stopped at the end-of-turn token gets the newline the template writes after it.\<close>

definition merge_after_turn_end :: "int \<Rightarrow> int \<Rightarrow> int list \<Rightarrow> int list \<Rightarrow> merge_result" where
  "merge_after_turn_end newline turn_end runtime appended =
     (let ins = (if runtime \<noteq> [] \<and> last runtime = turn_end then [newline] else [])
      in \<lparr>mr_token_ids = (runtime @ ins) @ appended, mr_appended = length appended, mr_kind = NonAssistantMerge,
          mr_inserted = ins, mr_removed = 0\<rparr>)"

definition merge_non_assistant_token_ids :: "builder \<Rightarrow> int list \<Rightarrow> int list \<Rightarrow> merge_result" where
  "merge_non_assistant_token_ids b runtime appended =
     (case b_kind b of
        QwenBuilder newline im_end \<Rightarrow> merge_after_turn_end newline im_end runtime appended
      | MiniMaxBuilder newline eos \<Rightarrow> merge_after_turn_end newline eos runtime appended
      | GLMBuilder observation user \<Rightarrow>
          (let cut = runtime \<noteq> [] \<and> (last runtime = observation \<or> last runtime = user)
           in \<lparr>mr_token_ids = (if cut then butlast runtime else runtime) @ appended, mr_appended = length appended,
               mr_kind = NonAssistantMerge, mr_inserted = [], mr_removed = (if cut then 1 else 0)\<rparr>)
      | _ \<Rightarrow> \<lparr>mr_token_ids = runtime @ appended, mr_appended = length appended, mr_kind = NonAssistantMerge,
              mr_inserted = [], mr_removed = 0\<rparr>)"

definition merge_non_assistant_tokens ::
  "builder \<Rightarrow> pydict list \<Rightarrow> pydict list \<Rightarrow> int list \<Rightarrow> pyval \<Rightarrow> merge_result res" where
  "merge_non_assistant_tokens b previous updated runtime tools =
     bind_res (tokenize_non_assistant_incremental_messages b previous updated tools) (\<lambda>appended.
       case b_kind b of
         Gemma4Builder tool_response \<Rightarrow>
           (let ins = (if drop (length previous) updated \<noteq> [] \<and> (runtime = [] \<or> last runtime \<noteq> tool_response) then [tool_response] else [])
            in Inr \<lparr>mr_token_ids = (runtime @ ins) @ appended, mr_appended = length appended, mr_kind = NonAssistantMerge,
                    mr_inserted = ins, mr_removed = 0\<rparr>)
       | _ \<Rightarrow> Inr (merge_non_assistant_token_ids b runtime appended))"

section \<open>Masks and log-probabilities\<close>

text \<open>\<open>xs[:-k]\<close>, when \<open>k\<close> is not zero.\<close>

definition trim_end :: "nat \<Rightarrow> 'a list \<Rightarrow> 'a list" where
  "trim_end k xs = (if k = 0 then xs else take (length xs - k) xs)"

definition align_response_metadata ::
  "merge_result \<Rightarrow> int list \<Rightarrow> real list option \<Rightarrow> real list option \<Rightarrow> (int list \<times> real list option) res" where
  "align_response_metadata mr response_mask response_logprobs assistant_logprobs =
     (if response_logprobs = None \<and> assistant_logprobs \<noteq> None
      then Inl (ValueError ''response_logprobs is required when assistant_logprobs is provided'')
      else
        let msk = trim_end (mr_removed mr) response_mask @ replicate (length (mr_inserted mr)) 0;
            lps = map_option (\<lambda>lp. trim_end (mr_removed mr) lp @ replicate (length (mr_inserted mr)) 0) response_logprobs
        in case mr_kind mr of
             NonAssistantMerge \<Rightarrow>
               Inr (msk @ replicate (mr_appended mr) 0, map_option (\<lambda>lp. lp @ replicate (mr_appended mr) 0) lps)
           | AssistantMerge \<Rightarrow>
               (case lps of
                  None \<Rightarrow> Inr (msk @ replicate (mr_appended mr) 1, None)
                | Some lp \<Rightarrow>
                    if assistant_logprobs = None \<and> mr_appended mr \<noteq> 0
                    then Inl (ValueError ''assistant_logprobs is required for assistant Continuous Token alignment'')
                    else let new = the_default [] assistant_logprobs
                         in if length new \<noteq> mr_appended mr
                            then Inl (ValueError ''assistant_logprobs length must match appended assistant token count'')
                            else Inr (msk @ replicate (mr_appended mr) 1, Some (lp @ new))))"

section \<open>Choice of the builder\<close>

datatype model_family =
    AUTO | DEFAULT | QWEN | QWEN25 | QWEN3 | QWEN35 | MINIMAX | MINIMAX_M2 | MINIMAX_M25 | MINIMAX_M27
  | GLM47 | GLM5 | GEMMA4 | GPTOSS

definition family_names :: "(string \<times> model_family) list" where
  "family_names =
     [(''auto'', AUTO), (''default'', DEFAULT), (''qwen'', QWEN), (''qwen25'', QWEN25), (''qwen3'', QWEN3), (''qwen35'', QWEN35),
      (''minimax'', MINIMAX), (''minimaxm2'', MINIMAX_M2), (''minimaxm25'', MINIMAX_M25), (''minimaxm27'', MINIMAX_M27),
      (''glm47'', GLM47), (''glm5'', GLM5), (''gemma4'', GEMMA4), (''gptoss'', GPTOSS)]"

definition compact_name :: "string \<Rightarrow> string" where
  "compact_name s = filter (\<lambda>c. in_range 97 122 (of_char c) \<or> in_range 48 57 (of_char c)) s"

definition normalize_model_family :: "string \<Rightarrow> model_family res" where
  "normalize_model_family name =
     (if name = [] then Inl (ValueError ''Continuous Token model_family must be a non-empty string'')
      else let family = py_lower (py_strip name)
           in if family = [] then Inl (ValueError ''Continuous Token model_family must be a non-empty string'')
              else case map_of family_names (compact_name family) of
                     None \<Rightarrow> Inl (ValueError ''Unknown Continuous Token model_family'')
                   | Some f \<Rightarrow> Inr f)"

fun builder_registry :: "model_family \<Rightarrow> builder_class option" where
  "builder_registry AUTO = None"
| "builder_registry DEFAULT = Some CDefault"
| "builder_registry GLM47 = Some CGLM"
| "builder_registry GLM5 = Some CGLM"
| "builder_registry GEMMA4 = Some CGemma4"
| "builder_registry GPTOSS = Some CGptOss"
| "builder_registry QWEN = Some CQwen"
| "builder_registry QWEN25 = Some CQwen"
| "builder_registry QWEN3 = Some CQwen"
| "builder_registry QWEN35 = Some CQwen"
| "builder_registry MINIMAX = Some CMiniMax"
| "builder_registry MINIMAX_M2 = Some CMiniMax"
| "builder_registry MINIMAX_M25 = Some CMiniMax"
| "builder_registry MINIMAX_M27 = Some CMiniMax"

definition infer_model_family :: "string option \<Rightarrow> string option \<Rightarrow> string option \<Rightarrow> model_family" where
  "infer_model_family model_path tokenizer_name_or_path tokenizer_name =
     (let named = filter (\<lambda>s. s \<noteq> []) (map (the_default []) [model_path, tokenizer_name_or_path, tokenizer_name]);
          haystack = py_join '' '' (map py_lower named);
          compact = compact_name haystack;
          marked = (\<lambda>ms. list_ex (\<lambda>m. contains m haystack) ms)
      in if marked [''glm-5'', ''glm_5''] \<or> contains ''glm5'' compact then GLM5
         else if marked [''glm-4.7'', ''glm_4.7'', ''glm4.7''] \<or> contains ''glm47'' compact then GLM47
         else if marked [''gemma-4'', ''gemma_4''] \<or> contains ''gemma4'' compact \<or> contains ''gemma4unified'' compact then GEMMA4
         else if marked [''gpt-oss'', ''gpt_oss''] \<or> contains ''gptoss'' compact then GPTOSS
         else if contains ''minimaxm27'' compact then MINIMAX_M27
         else if contains ''minimaxm25'' compact then MINIMAX_M25
         else if contains ''minimaxm2'' compact then MINIMAX_M2
         else if contains ''minimax'' compact then MINIMAX
         else if marked [''qwen3.5'', ''qwen3_5'', ''qwen3-5''] \<or> contains ''qwen35'' compact then QWEN35
         else if marked [''qwen2.5'', ''qwen2_5'', ''qwen2-5''] \<or> contains ''qwen25'' compact then QWEN25
         else if contains ''qwen3'' compact then QWEN3
         else DEFAULT)"

definition resolve_model_family :: "tok \<Rightarrow> string \<Rightarrow> string option \<Rightarrow> string option \<Rightarrow> model_family res" where
  "resolve_model_family tk name model_path tokenizer_name_or_path =
     bind_res (normalize_model_family name) (\<lambda>family.
       if family \<noteq> AUTO then Inr family
       else Inr (infer_model_family model_path tokenizer_name_or_path (tk_name tk)))"

definition create_continuous_token_builder ::
  "tok \<Rightarrow> (string \<Rightarrow> int option) \<Rightarrow> (pyval \<Rightarrow> string) \<Rightarrow> string \<Rightarrow> string option \<Rightarrow> string option \<Rightarrow> string list option \<Rightarrow> builder res" where
  "create_continuous_token_builder tk parse rp name model_path tokenizer_name_or_path allowed =
     bind_res (resolve_model_family tk name model_path tokenizer_name_or_path) (\<lambda>family.
       case builder_registry family of
         None \<Rightarrow> Inl (ValueError ''Unknown Continuous Token builder family'')
       | Some cls \<Rightarrow> builder_init cls tk parse rp allowed)"

section \<open>Metadata follows the tokens\<close>

text \<open>The tokens of the response with their masks and log-probabilities: the end of the stream, as far as the mask reaches.\<close>

definition annotated :: "int list \<Rightarrow> int list \<Rightarrow> real list \<Rightarrow> (int \<times> int \<times> real) list" where
  "annotated tokens msk lps = zip (drop (length tokens - length msk) tokens) (zip msk lps)"

lemma length_trim_end [simp]: "length (trim_end r xs) = length xs - r"
  by (simp add: trim_end_def)

lemma trim_end_take: "trim_end r xs = take (length xs - r) xs"
  by (simp add: trim_end_def)

lemma annotated_edit:
  assumes "length msk \<le> length runtime" "length lps = length msk" "r \<le> length runtime"
    and new: "length m = length new" "length l = length new"
  shows "annotated (take (length runtime - r) runtime @ new) (trim_end r msk @ m) (trim_end r lps @ l)
    = take (length msk - r) (annotated runtime msk lps) @ zip new (zip m l)"
proof (cases "r \<le> length msk")
  case True
  let ?n = "length runtime"
  have "?n - r + length new - (length msk - r + length m) = ?n - length msk" using assms True by simp
  moreover have "?n - length msk \<le> ?n - r" using True by simp
  moreover have "drop (?n - length msk) (take (?n - r) runtime) = take (length msk - r) (drop (?n - length msk) runtime)"
    using assms(1) True by (simp add: drop_take)
  ultimately show ?thesis using assms True
    by (simp add: annotated_def trim_end_take zip_append take_zip)
next
  case False
  then have "?thesis \<longleftrightarrow> zip (drop (length runtime - r + length new - length m) (take (length runtime - r) runtime @ new)) (zip m l) = zip new (zip m l)"
    by (simp add: annotated_def trim_end_take assms(2))
  then show ?thesis using new(1) by simp
qed

text \<open>What a merge does to a stream: it cuts \<open>mr_removed\<close> tokens and appends \<open>new\<close>, the inserted tokens first.\<close>

definition edits :: "merge_result \<Rightarrow> int list \<Rightarrow> int list \<Rightarrow> bool" where
  "edits mr runtime new \<longleftrightarrow>
     mr_removed mr \<le> length runtime \<and> mr_token_ids mr = take (length runtime - mr_removed mr) runtime @ new \<and>
     length new = length (mr_inserted mr) + mr_appended mr"

lemma merge_edits:
  assumes "merge_non_assistant_tokens b previous updated runtime tools = Inr mr"
  shows "mr_kind mr = NonAssistantMerge \<and> (\<exists>new. edits mr runtime new)"
proof -
  obtain appended where a: "tokenize_non_assistant_incremental_messages b previous updated tools = Inr appended"
    using assms by (auto simp: merge_non_assistant_tokens_def bind_res_Inr)
  have turn: "edits (merge_after_turn_end nl' e runtime appended) runtime
      (mr_inserted (merge_after_turn_end nl' e runtime appended) @ appended)" for nl' e
    by (simp add: edits_def merge_after_turn_end_def Let_def)
  show ?thesis
  proof (cases "b_kind b")
    case (QwenBuilder i j)
    then show ?thesis using assms a turn[of i j]
      by (auto simp: merge_non_assistant_tokens_def merge_non_assistant_token_ids_def) (simp add: merge_after_turn_end_def Let_def)
  next
    case (MiniMaxBuilder i j)
    then show ?thesis using assms a turn[of i j]
      by (auto simp: merge_non_assistant_tokens_def merge_non_assistant_token_ids_def) (simp add: merge_after_turn_end_def Let_def)
  next
    case (GLMBuilder i j)
    then show ?thesis using assms a
      by (auto simp: merge_non_assistant_tokens_def merge_non_assistant_token_ids_def edits_def Let_def butlast_conv_take Suc_le_eq)
  qed (use assms a in \<open>auto simp: merge_non_assistant_tokens_def merge_non_assistant_token_ids_def edits_def Let_def\<close>)
qed

lemma align_non_assistant:
  assumes "mr_kind mr = NonAssistantMerge" "edits mr runtime new" "length msk \<le> length runtime" "length lps = length msk"
  shows "\<exists>msk' lps'. align_response_metadata mr msk (Some lps) None = Inr (msk', Some lps') \<and> length lps' = length msk'
    \<and> length msk' \<le> length (mr_token_ids mr)
    \<and> annotated (mr_token_ids mr) msk' lps' = take (length msk - mr_removed mr) (annotated runtime msk lps) @ map (\<lambda>t. (t, 0, 0)) new"
proof -
  let ?r = "mr_removed mr" and ?k = "length new"
  have z: "zip new (replicate k (0::int, 0::real)) = map (\<lambda>t. (t, 0, 0)) new" if "length new = k" for k
    using that by (simp add: list_eq_iff_nth_eq)
  have "align_response_metadata mr msk (Some lps) None
      = Inr (trim_end ?r msk @ replicate ?k 0, Some (trim_end ?r lps @ replicate ?k 0))"
    using assms(1,2) by (simp add: align_response_metadata_def edits_def replicate_add Let_def)
  then show ?thesis using assms annotated_edit[of msk runtime lps ?r "replicate ?k 0" new "replicate ?k 0"]
    by (auto simp: edits_def z)
qed

text \<open>
  C36. Masks and log-probabilities stay aligned with the tokens: after a merge of messages, the response tokens that were
  not cut keep their mask and log-probability, and every token that a merge wrote has mask and log-probability zero; after a
  merge of generated tokens exactly these have mask one, and the log-probabilities that came with them.
\<close>

theorem token_metadata_aligned:
  assumes "length msk \<le> length runtime" and "length lps = length msk"
  shows "(merge_non_assistant_tokens b previous updated runtime tools = Inr mr \<longrightarrow>
      (\<exists>new msk' lps'. mr_token_ids mr = take (length runtime - mr_removed mr) runtime @ new
         \<and> align_response_metadata mr msk (Some lps) None = Inr (msk', Some lps') \<and> length lps' = length msk'
         \<and> length msk' \<le> length (mr_token_ids mr)
         \<and> annotated (mr_token_ids mr) msk' lps'
             = take (length msk - mr_removed mr) (annotated runtime msk lps) @ map (\<lambda>t. (t, 0, 0)) new))
    \<and> (length alps = length ids \<longrightarrow>
      (\<exists>msk' lps'. align_response_metadata (merge_assistant_tokens runtime ids) msk (Some lps) (Some alps) = Inr (msk', Some lps')
         \<and> length lps' = length msk' \<and> length msk' \<le> length (runtime @ ids)
         \<and> annotated (runtime @ ids) msk' lps' = annotated runtime msk lps @ map2 (\<lambda>t lp. (t, 1, lp)) ids alps))"
proof (intro conjI impI)
  assume m: "merge_non_assistant_tokens b previous updated runtime tools = Inr mr"
  then obtain new where k: "mr_kind mr = NonAssistantMerge" and e: "edits mr runtime new" using merge_edits[OF m] by auto
  then show "\<exists>new msk' lps'. mr_token_ids mr = take (length runtime - mr_removed mr) runtime @ new
         \<and> align_response_metadata mr msk (Some lps) None = Inr (msk', Some lps') \<and> length lps' = length msk'
         \<and> length msk' \<le> length (mr_token_ids mr)
         \<and> annotated (mr_token_ids mr) msk' lps'
             = take (length msk - mr_removed mr) (annotated runtime msk lps) @ map (\<lambda>t. (t, 0, 0)) new"
    using align_non_assistant[OF k e assms] e unfolding edits_def by blast
next
  assume len: "length alps = length ids"
  have z: "zip ids (zip (replicate (length ids) (1::int)) alps) = map2 (\<lambda>t lp. (t, 1, lp)) ids alps"
    using len by (simp add: list_eq_iff_nth_eq)
  have full: "length (annotated runtime msk lps) = length msk" using assms by (simp add: annotated_def)
  show "\<exists>msk' lps'. align_response_metadata (merge_assistant_tokens runtime ids) msk (Some lps) (Some alps) = Inr (msk', Some lps')
         \<and> length lps' = length msk' \<and> length msk' \<le> length (runtime @ ids)
         \<and> annotated (runtime @ ids) msk' lps' = annotated runtime msk lps @ map2 (\<lambda>t lp. (t, 1, lp)) ids alps"
    using assms len annotated_edit[OF assms le0, of "replicate (length ids) 1" ids alps] full
    by (simp add: align_response_metadata_def merge_assistant_tokens_def trim_end_def z)
qed

section \<open>Incremental building equals rendering anew\<close>

text \<open>The template renders the messages as these tokens, in the calls with this generation flag and these tools.\<close>

definition renders :: "builder \<Rightarrow> pyval \<Rightarrow> pydict list \<Rightarrow> bool \<Rightarrow> int list \<Rightarrow> bool" where
  "renders b tools ms gp ids \<longleftrightarrow> tk_chat (b_tok b) ms gp tools = Inr (PList (map PInt ids))"

definition full_tokens :: "(pydict list \<Rightarrow> int list) \<Rightarrow> pydict list \<Rightarrow> int list" where
  "full_tokens F ms = concat (map F (append_groups ms))"

fun manual_format :: "builder_kind \<Rightarrow> (string \<Rightarrow> string \<Rightarrow> string) option" where
  "manual_format GptOssBuilder = Some gpt_oss_tool_response"
| "manual_format (Gemma4Builder tr) = Some gemma4_tool_response"
| "manual_format k = None"

text \<open>
  What the builders rely on in the template, for one conversation \<open>previous\<close>, the appended messages \<open>new\<close> and the tools:
  it writes the appended messages, group by group, as segments \<open>F\<close> after the tokens \<open>full\<close> of the conversation, and then
  the generation prompt \<open>g\<close>; after the short synthetic conversations it writes the same segments; and the segments of tool
  messages that a builder formats itself are the encoded texts. Gemma4 gets the generation prompt from a synthetic
  conversation too, and none after tool messages. Nothing is asked of other conversations; \<open>full\<close> may depend
  on the tools, and so may the rest.
\<close>

definition segment_law :: "builder \<Rightarrow> pyval \<Rightarrow> (pydict list \<Rightarrow> int list) \<Rightarrow> pydict list \<Rightarrow> pydict list \<Rightarrow> bool" where
  "segment_law b tools F previous msgs \<longleftrightarrow>
     (let prefix = [synthetic_system_message, synthetic_user_message]
            @ (if has_role ''tool'' (hd msgs) then [synthetic_assistant_for_tools b msgs] else [])
      in case (if has_role ''tool'' (hd msgs) then manual_format (b_kind b) else None) of
           Some fmt \<Rightarrow> format_tool_group b fmt msgs previous = Inr (F msgs)
         | None \<Rightarrow> \<exists>p. renders b tools prefix False p \<and> renders b tools (prefix @ msgs) False (p @ F msgs))"

definition prompt_law :: "builder \<Rightarrow> pyval \<Rightarrow> int list \<Rightarrow> pydict \<Rightarrow> bool" where
  "prompt_law b tools g m \<longleftrightarrow>
     (if has_role ''user'' m \<or> has_role ''system'' m
      then \<exists>p. renders b tools [synthetic_system_message, synthetic_user_message, m] False p
             \<and> renders b tools [synthetic_system_message, synthetic_user_message, m] True (p @ g)
      else g = [])"

definition template_law ::
  "builder \<Rightarrow> pyval \<Rightarrow> (pydict list \<Rightarrow> int list) \<Rightarrow> int list \<Rightarrow> int list \<Rightarrow> pydict list \<Rightarrow> pydict list \<Rightarrow> bool" where
  "template_law b tools F g full previous new \<longleftrightarrow>
     renders b tools (previous @ new) False (full @ full_tokens F new)
     \<and> renders b tools (previous @ new) True (full @ full_tokens F new @ g)
     \<and> (\<forall>msgs \<in> set (append_groups new). segment_law b tools F previous msgs)
     \<and> (\<forall>tr. b_kind b = Gemma4Builder tr \<longrightarrow> prompt_law b tools g (last new))"

text \<open>
  The runtime stream of a conversation against its tokens at the front of the longer rendering: it may lack what the
  template writes after the token at which generation stops (the newline after the end of a turn, the token that opens the
  tool responses of Gemma4), or have the token of the next turn at which GLM stops.
\<close>

definition stopped_stream :: "builder_kind \<Rightarrow> int list \<Rightarrow> int list \<Rightarrow> bool" where
  "stopped_stream k full runtime \<longleftrightarrow>
     (case k of
        DefaultBuilder \<Rightarrow> runtime = full
      | GptOssBuilder \<Rightarrow> runtime = full
      | QwenBuilder newline e \<Rightarrow> full = runtime @ (if runtime \<noteq> [] \<and> last runtime = e then [newline] else [])
      | MiniMaxBuilder newline e \<Rightarrow> full = runtime @ (if runtime \<noteq> [] \<and> last runtime = e then [newline] else [])
      | GLMBuilder obs usr \<Rightarrow> runtime = full @ [obs] \<or> runtime = full @ [usr] \<or>
          (runtime = full \<and> (full = [] \<or> last full \<notin> {obs, usr}))
      | Gemma4Builder tr \<Rightarrow> full = runtime @ (if runtime \<noteq> [] \<and> last runtime = tr then [] else [tr]))"

lemma groups_shape:
  "msgs \<in> set (append_groups ms) \<Longrightarrow>
     msgs \<noteq> [] \<and> set msgs \<subseteq> set ms \<and> ((\<forall>m\<in>set msgs. has_role ''tool'' m) \<or> (\<exists>m. msgs = [m] \<and> \<not> has_role ''tool'' m))"
proof (induction ms rule: append_groups.induct)
  case (2 m ms)
  then show ?case by (auto split: if_splits dest: set_takeWhileD set_dropWhileD)
qed simp

lemma append_groups_tools: "msgs \<noteq> [] \<Longrightarrow> \<forall>m\<in>set msgs. has_role ''tool'' m \<Longrightarrow> append_groups msgs = [msgs]"
proof (induction msgs)
  case (Cons m ms)
  then have "takeWhile (has_role ''tool'') ms = ms" "dropWhile (has_role ''tool'') ms = []" by auto
  then show ?case using Cons.prems by (simp del: dropWhile_eq_Nil_conv)
qed simp

lemma normalize_ints: "normalize_token_ids parse (PList (map PInt xs)) = Inr xs"
proof -
  have "map_res (normalize_id parse) (map PInt xs) = Inr xs"
    using map_res_pure[of xs "\<lambda>i. normalize_id parse (PInt i)" id] by (simp add: map_res_map normalize_id_def)
  then show ?thesis by (auto simp: normalize_token_ids_def Let_def split: list.splits pyval.splits)
qed

lemma render_tokens_renders: "renders b tools ms gp ids \<Longrightarrow> render_tokens b ms gp tools = Inr ids"
  by (simp add: renders_def render_tokens_def apply_chat_template_def normalize_ints)

lemma delta_renders:
  assumes "renders b tools xs False p" "renders b tools (xs @ ys) gp (p @ q)"
  shows "render_delta_token_id b xs ys gp tools = Inr q"
  using render_tokens_renders[OF assms(1)] render_tokens_renders[OF assms(2)] by (simp add: render_delta_token_id_def)

lemma group_tokens:
  assumes law: "segment_law b tools F previous msgs" and msgs: "msgs \<in> set (append_groups new)"
    and roles: "\<forall>m\<in>set new. \<exists>r\<in>set SUPPORTED_APPEND_ROLES. has_role r m"
  shows "tokenize_group b previous tools msgs = Inr (F msgs)"
proof -
  note shape = groups_shape[OF msgs]
  obtain m ms where m: "msgs = m # ms" using shape by (cases msgs) auto
  show ?thesis
  proof (cases "has_role ''tool'' m")
    case True
    let ?p = "[synthetic_system_message, synthetic_user_message, synthetic_assistant_for_tools b msgs]"
    have "tokenize_tool_group b msgs previous tools = Inr (F msgs)"
      using law True m delta_renders[of b tools ?p _ msgs False "F msgs"]
      by (cases "b_kind b") (auto simp: tokenize_tool_group_def segment_law_def)
    then show ?thesis using True m by (simp add: tokenize_group_def)
  next
    case False
    let ?p = "[synthetic_system_message, synthetic_user_message]"
    have one: "msgs = [m]" using shape m False by auto
    then have role: "has_role ''user'' m \<or> has_role ''system'' m"
      using shape roles False m by (auto simp: SUPPORTED_APPEND_ROLES_def)
    have "render_delta_token_id b ?p msgs False tools = Inr (F msgs)"
      using law False m delta_renders[of b tools ?p _ msgs False "F msgs"] by (auto simp: segment_law_def)
    then show ?thesis using role False one by (simp add: tokenize_group_def tokenize_single_non_tool_def)
  qed
qed

lemma generation_tokens:
  assumes law: "template_law b tools F g full previous new" and new: "new \<noteq> []"
  shows "tokenize_generation_prompt_delta b (previous @ new) tools = Inr g"
proof -
  have whole: "render_delta_token_id b (previous @ new) [] True tools = Inr g"
    using law by (intro delta_renders[of b tools _ "full @ full_tokens F new"]) (simp_all add: template_law_def)
  have "tokenize_generation_prompt_delta b (previous @ new) tools = Inr g" if k: "b_kind b = Gemma4Builder tr" for tr
  proof -
    have "prompt_law b tools g (last new)" using law k by (simp add: template_law_def)
    then show ?thesis
      using k new delta_renders[of b tools "[synthetic_system_message, synthetic_user_message, last new]" _ "[]" True g]
      by (auto simp: tokenize_generation_prompt_delta_def prompt_law_def split: if_splits)
  qed
  then show ?thesis using whole by (cases "b_kind b") (simp_all add: tokenize_generation_prompt_delta_def)
qed


definition ex_F :: "pydict list \<Rightarrow> int list" where "ex_F msgs = [int (length msgs), 4, 5]"

text \<open>A template that writes the tools in front, and refuses an empty conversation.\<close>

definition ex_chat :: chat_fn where
  "ex_chat ms gp tools =
     (if ms = [] then Inl (ValueError ''no message'')
      else Inr (PList (map PInt ((if tools = PNone then [] else [7]) @ full_tokens ex_F ms @ (if gp then [9] else [])))))"

definition ex_builder :: builder where
  "ex_builder = \<lparr>b_tok = \<lparr>tk_chat = ex_chat, tk_encode = (\<lambda>s. [5]), tk_convert = (\<lambda>s. PInt 4), tk_name = None\<rparr>,
     b_parse = (\<lambda>s. None), b_repr = (\<lambda>v. []), b_allowed = SUPPORTED_APPEND_ROLES, b_kind = QwenBuilder 5 4\<rparr>"

definition ex_said :: "pydict list" where
  "ex_said = [[(''role'', PStr ''user'')], [(''role'', PStr ''assistant'')]]"

definition ex_tool :: "pydict list" where
  "ex_tool = [[(''role'', PStr ''tool'')], [(''role'', PStr ''tool'')]]"

lemma ex_guard: "assert_append_only ex_builder ex_said (ex_said @ ex_tool) = Inr ()"
  by (simp add: ex_builder_def ex_said_def ex_tool_def has_role_def d_get_def assert_append_only_def check_role_def SUPPORTED_APPEND_ROLES_def)

lemma ex_groups:
  "append_groups ex_tool = [ex_tool]" "append_groups (ex_said @ ex_tool) = [[ex_said ! 0], [ex_said ! 1], ex_tool]"
  "has_role ''tool'' (hd ex_tool)" "ex_tool \<noteq> []"
  by (simp_all add: ex_tool_def ex_said_def has_role_def d_get_def)

lemma ex_renders:
  "ms \<noteq> [] \<Longrightarrow> ids = (if tools = PNone then [] else [7]) @ full_tokens ex_F ms @ (if gp then [9] else []) \<Longrightarrow>
   renders ex_builder tools ms gp ids"
  by (simp add: renders_def ex_builder_def ex_chat_def)

lemma ex_law:
  "template_law ex_builder tools ex_F [9] ((if tools = PNone then [] else [7]) @ [1, 4, 5, 1, 4, 5]) ex_said ex_tool"
proof -
  let ?h = "if tools = PNone then [] else [7]"
  let ?pre = "[synthetic_system_message, synthetic_user_message, synthetic_assistant_for_tools ex_builder ex_tool]"
  have groups: "append_groups (?pre @ ex_tool) = map (\<lambda>m. [m]) ?pre @ [ex_tool]" "append_groups ?pre = map (\<lambda>m. [m]) ?pre"
    by (simp_all add: ex_tool_def has_role_def d_get_def synthetic_system_message_def synthetic_user_message_def synthetic_assistant_for_tools_def)
  have tokens: "full_tokens ex_F (?pre @ ex_tool) = full_tokens ex_F ?pre @ ex_F ex_tool"
    unfolding full_tokens_def groups by simp
  have "renders ex_builder tools ?pre False (?h @ full_tokens ex_F ?pre)"
    "renders ex_builder tools (?pre @ ex_tool) False ((?h @ full_tokens ex_F ?pre) @ ex_F ex_tool)"
    using ex_renders[of ?pre _ tools False, OF _ refl] ex_renders[of "?pre @ ex_tool" _ tools False, OF _ refl]
    unfolding tokens by simp_all
  moreover have kind: "b_kind ex_builder = QwenBuilder 5 4" by (simp add: ex_builder_def)
  ultimately have "segment_law ex_builder tools ex_F ex_said ex_tool"
    unfolding segment_law_def Let_def by (auto simp: ex_groups)
  moreover have "renders ex_builder tools (ex_said @ ex_tool) gp ((?h @ [1, 4, 5, 1, 4, 5]) @ full_tokens ex_F ex_tool @ (if gp then [9] else []))" for gp
    by (rule ex_renders) (simp_all add: full_tokens_def ex_groups, simp add: ex_F_def)
  from this[of False] this[of True]
  have "renders ex_builder tools (ex_said @ ex_tool) False ((?h @ [1, 4, 5, 1, 4, 5]) @ full_tokens ex_F ex_tool)"
    "renders ex_builder tools (ex_said @ ex_tool) True ((?h @ [1, 4, 5, 1, 4, 5]) @ full_tokens ex_F ex_tool @ [9])" by simp_all
  ultimately show ?thesis by (simp add: template_law_def kind ex_groups)
qed

lemma ex_merge:
  "merge_non_assistant_tokens ex_builder ex_said (ex_said @ ex_tool) [1, 4, 5, 1, 4] PNone
    = Inr \<lparr>mr_token_ids = [1, 4, 5, 1, 4, 5, 2, 4, 5, 9], mr_appended = 4, mr_kind = NonAssistantMerge, mr_inserted = [5], mr_removed = 0\<rparr>"
proof -
  have kind: "b_kind ex_builder = QwenBuilder 5 4" by (simp add: ex_builder_def)
  have role: "\<forall>m\<in>set ex_tool. \<exists>r\<in>set SUPPORTED_APPEND_ROLES. has_role r m"
    by (simp add: ex_tool_def has_role_def d_get_def SUPPORTED_APPEND_ROLES_def)
  have group: "tokenize_group ex_builder ex_said PNone ex_tool = Inr (ex_F ex_tool)"
    using group_tokens[OF _ _ role, of ex_builder PNone ex_F ex_said ex_tool] ex_law[of PNone] by (simp add: template_law_def ex_groups)
  note gen = generation_tokens[OF ex_law[of PNone] ex_groups(4)]
  have "tokenize_non_assistant_incremental_messages ex_builder ex_said (ex_said @ ex_tool) PNone = Inr (ex_F ex_tool @ [9])"
    by (simp add: tokenize_non_assistant_incremental_messages_def ex_guard group gen ex_groups)
  then show ?thesis
    by (simp add: merge_non_assistant_tokens_def merge_non_assistant_token_ids_def merge_after_turn_end_def kind ex_F_def ex_tool_def)
qed

theorem token_metadata_aligned_witness:
  "(\<exists>new msk lps. merge_non_assistant_tokens ex_builder ex_said (ex_said @ ex_tool) [1, 4, 5, 1, 4] PNone
       = Inr \<lparr>mr_token_ids = [1, 4, 5, 1, 4] @ new, mr_appended = 4, mr_kind = NonAssistantMerge, mr_inserted = [5], mr_removed = 0\<rparr> \<and>
     annotated ([1, 4, 5, 1, 4] @ new) msk lps = [(1, 1, -1), (4, 1, -2)] @ map (\<lambda>t. (t, 0, 0)) new) \<and>
   (\<exists>msk lps. annotated [3, 8, 6] msk lps = [(8, 1, -1), (6, 1, -2)])"
proof -
  let ?mr = "\<lparr>mr_token_ids = [1, 4, 5, 1, 4, 5, 2, 4, 5, 9], mr_appended = 4, mr_kind = NonAssistantMerge, mr_inserted = [5], mr_removed = 0\<rparr>"
  have len: "length [1, 1 :: int] \<le> length [1, 4, 5, 1, 4 :: int]" "length [-1, -2 :: real] = length [1, 1 :: int]" by simp_all
  obtain new msk lps where new: "mr_token_ids ?mr = take (length [1, 4, 5, 1, 4 :: int] - mr_removed ?mr) [1, 4, 5, 1, 4] @ new"
    "annotated (mr_token_ids ?mr) msk lps
      = take (length [1, 1 :: int] - mr_removed ?mr) (annotated [1, 4, 5, 1, 4] [1, 1] [-1, -2]) @ map (\<lambda>t. (t, 0, 0)) new"
    using mp[OF conjunct1[OF token_metadata_aligned[OF len]] ex_merge] by blast
  have "new = [5, 2, 4, 5, 9]" using new(1) by simp
  then have first: "annotated ([1, 4, 5, 1, 4] @ new) msk lps = [(1, 1, -1), (4, 1, -2)] @ map (\<lambda>t. (t, 0, 0)) new"
    using new(2) by (simp add: annotated_def)
  have "\<exists>msk lps. annotated [3, 8, 6] msk lps = [(8, 1, -1), (6, 1, -2)]"
    using token_metadata_aligned[of "[1]" "[3, 8]" "[-1]" ex_builder "[]" "[]" PNone ?mr "[-2]" "[6]"] by (auto simp: annotated_def)
  moreover have "merge_non_assistant_tokens ex_builder ex_said (ex_said @ ex_tool) [1, 4, 5, 1, 4] PNone
      = Inr \<lparr>mr_token_ids = [1, 4, 5, 1, 4] @ new, mr_appended = 4, mr_kind = NonAssistantMerge, mr_inserted = [5], mr_removed = 0\<rparr>"
    using ex_merge \<open>new = _\<close> by simp
  ultimately show ?thesis using first by blast
qed


section \<open>Further facts\<close>

text \<open>A tool message with a known id gets the name of that call, at any position.\<close>

lemma name_by_call_id:
  assumes "\<not> truthy (d_get ''name'' m)" "d_get ''tool_call_id'' m = PStr i"
    and "map_of (fst (latest_assistant_tool_call_names b previous)) i = Some name"
  shows "resolve_required_tool_name b m index tool_messages previous = Inr name"
  using assms by (simp add: resolve_required_tool_name_def case_prod_beta)

text \<open>For Gemma4 the token that opens a tool response goes before any appended message, also before one of the user.\<close>

lemma gemma4_opens_tool_response:
  assumes "b_kind b = Gemma4Builder tr" "has_role ''user'' m" "last runtime \<noteq> tr"
    and "tokenize_non_assistant_incremental_messages b previous (previous @ [m]) tools = Inr ids"
  shows "\<exists>mr. merge_non_assistant_tokens b previous (previous @ [m]) runtime tools = Inr mr \<and> mr_token_ids mr = runtime @ [tr] @ ids"
  using assms by (simp add: merge_non_assistant_tokens_def)

text \<open>The names are joined with blanks that the compact form drops, so that two names can spell a family together.\<close>

lemma family_spelled_by_two_names:
  "infer_model_family (Some ''ckpt/glm'') (Some ''5b-base'') None = GLM5"
  "infer_model_family (Some ''ckpt/glm'') None None = DEFAULT"
  by code_simp+

lemma registered_families: "(\<exists>cls. builder_registry f = Some cls) \<longleftrightarrow> f \<noteq> AUTO"
  by (cases f) simp_all

end
