(* ===== verification/AgentLoop.thy ===== *)
theory AgentLoop
  imports ContToken
begin

text \<open>
  The agent loops of \<open>verl/experimental/agent_loop\<close>: the state machine of the tool agent (\<open>tool_agent_loop.py\<close>), the
  single-turn loop (\<open>single_turn_agent_loop.py\<close>), the prompt helpers of \<open>AgentLoopBase\<close> and the tools of \<open>verl/tools\<close>
  they call. A loop talks to a world \<open>'w\<close>: the inference server and the tools read and change it; the order of the
  tool calls of one turn is the order in which they are started. Parameters, fields of \<open>loop_env\<close>: the server, the tool parser, the
  chat template with processor and tokenizer, JSON, and the text of exceptions. Tools do not change the fields of the agent
  data themselves. Timers and the choice of the request id are not modelled.
\<close>

section \<open>Tools\<close>

record tool_response =
  tr_text :: "string option"
  tr_image :: "pyval list option"
  tr_video :: "pyval list option"

definition text_response :: "string \<Rightarrow> tool_response" where
  "text_response t = \<lparr>tr_text = Some t, tr_image = None, tr_video = None\<rparr>"

record function_call =
  fc_arguments :: string
  fc_name :: string
  fc_id :: "string option"

text \<open>What a function tool may return.\<close>

datatype raw_return = RResponse tool_response | RVal pyval | RTuple "raw_return list"

type_synonym tool_result = "tool_response \<times> real option \<times> pydict"

datatype 'w tool =
    FunctionTool "'w \<Rightarrow> pyval \<Rightarrow> raw_return res \<times> 'w"
  | BaseTool "'w \<Rightarrow> pyval \<Rightarrow> string res \<times> 'w" "'w \<Rightarrow> string \<Rightarrow> pyval \<Rightarrow> tool_result res \<times> 'w" "'w \<Rightarrow> string \<Rightarrow> unit res \<times> 'w"

record gen_request =
  gr_request_id :: string
  gr_prompt_ids :: "int list"
  gr_params :: pydict
  gr_images :: pyval
  gr_videos :: pyval
  gr_audios :: pyval
  gr_mm_kwargs :: pydict
  gr_priority :: "int option"

record token_output =
  to_token_ids :: "int list"
  to_log_probs :: "real list option"
  to_routed :: "pyval list option"
  to_preempted :: "int option"
  to_extra :: pydict

record 'w loop_env =
  le_prompt_length :: nat
  le_response_length :: nat
  le_max_user_turns :: "nat option"
  le_max_assistant_turns :: "nat option"
  le_max_parallel :: nat
  le_max_tool_response :: nat
  le_truncate_side :: string
  le_parser_name :: string
  le_stop_token_ids :: "int list"
  le_extract :: "int list \<Rightarrow> pyval list \<Rightarrow> (string \<times> function_call list) res"
  le_render :: "pydict list \<Rightarrow> pyval \<Rightarrow> pyval \<Rightarrow> pyval \<Rightarrow> pyval \<Rightarrow> pydict \<Rightarrow> int list res"
  le_mm_kwargs :: pydict
  le_sampling_rate :: "int option"
  le_encode :: "string \<Rightarrow> int list"
  le_system_prompt :: "int list"
  le_builder :: "builder option"
  le_image_processor :: bool
  le_json :: "string \<Rightarrow> string + pyval"
  le_tuple_text :: "raw_return list \<Rightarrow> string"
  le_dumps :: "pyval \<Rightarrow> string"
  le_repr :: "pyval \<Rightarrow> string"
  le_float :: "string \<Rightarrow> real option"
  le_error_text :: "pyerr \<Rightarrow> string"
  le_tools :: "(string \<times> 'w tool \<times> pyval) list"
  le_generate :: "'w \<Rightarrow> gen_request \<Rightarrow> (token_output \<times> 'w) res"

definition coerce_response :: "'w loop_env \<Rightarrow> raw_return \<Rightarrow> tool_response" where
  "coerce_response env v =
     (case v of
        RResponse r \<Rightarrow> r
      | RVal (PStr s) \<Rightarrow> text_response s
      | RVal (PDict d) \<Rightarrow> text_response (le_dumps env (PDict d))
      | RVal u \<Rightarrow> text_response (py_str (le_repr env) u)
      | RTuple xs \<Rightarrow> text_response (le_tuple_text env xs))"

definition reward_of :: "'w loop_env \<Rightarrow> raw_return \<Rightarrow> real res" where
  "reward_of env v =
     (case v of
        RVal PNone \<Rightarrow> Inr 0
      | RVal u \<Rightarrow> py_float (le_float env) u
      | _ \<Rightarrow> Inl (TypeError ''float() argument must be a string or a real number''))"

definition metrics_of :: "raw_return \<Rightarrow> pydict res" where
  "metrics_of v =
     (case v of
        RVal PNone \<Rightarrow> Inr []
      | RVal (PDict d) \<Rightarrow> Inr d
      | _ \<Rightarrow> Inl (TypeError ''object is not iterable''))"

definition normalize_function_tool_return :: "'w loop_env \<Rightarrow> raw_return \<Rightarrow> tool_result res" where
  "normalize_function_tool_return env ret =
     (case ret of
        RTuple xs \<Rightarrow>
          if xs = [] \<or> 3 < length xs then Inl (TypeError ''@function_tool return tuple must have length 1, 2, or 3'')
          else bind_res (if length xs < 2 then Inr 0 else reward_of env (xs ! 1)) (\<lambda>reward.
               bind_res (if length xs < 3 then Inr [] else metrics_of (xs ! 2)) (\<lambda>metrics.
                 Inr (coerce_response env (xs ! 0), Some reward, metrics)))
      | _ \<Rightarrow> Inr (coerce_response env ret, Some 0, []))"

text \<open>\<open>text[-n:]\<close>, which is the whole text for \<open>n = 0\<close>.\<close>

definition last_n :: "nat \<Rightarrow> 'a list \<Rightarrow> 'a list" where
  "last_n n xs = (if n = 0 then xs else drop (length xs - n) xs)"

definition truncate_text :: "'w loop_env \<Rightarrow> string \<Rightarrow> string" where
  "truncate_text env t =
     (let n = le_max_tool_response env
      in if length t \<le> n then t
         else if le_truncate_side env = ''left'' then ''(truncated)...'' @ last_n n t
         else if le_truncate_side env = ''right'' then take n t @ ''...(truncated)''
         else take (n div 2) t @ ''...(truncated)...'' @ last_n (n div 2) t)"

text \<open>Running a tool: the result or the exception, and the world after the instance is released.\<close>

definition execute_tool :: "'w loop_env \<Rightarrow> 'w tool \<Rightarrow> pyval \<Rightarrow> pyval \<Rightarrow> 'w \<Rightarrow> tool_result res res \<times> 'w" where
  "execute_tool env t args kwargs w =
     (case t of
        FunctionTool call \<Rightarrow>
          (case call w args of (r, w1) \<Rightarrow> (Inr (bind_res r (normalize_function_tool_return env)), w1))
      | BaseTool create execute release \<Rightarrow>
          (case kwargs of
             PDict d \<Rightarrow>
               (case create w (d_get_or ''create_kwargs'' (PDict []) d) of
                  (Inl e, w1) \<Rightarrow> (Inr (Inl e), w1)
                | (Inr i, w1) \<Rightarrow>
                    (case execute w1 i args of
                       (r, w2) \<Rightarrow>
                         if i = [] then (Inr r, w2)
                         else (case release w2 i of (Inl e, w3) \<Rightarrow> (Inl e, w3) | (Inr u, w3) \<Rightarrow> (Inr r, w3))))
           | _ \<Rightarrow> (Inr (Inl (TypeError ''object has no attribute get'')), w)))"

definition quoted :: "string \<Rightarrow> string" where
  "quoted s = [CHR 0x27] @ s @ [CHR 0x27]"

definition call_tool ::
  "'w loop_env \<Rightarrow> (string \<times> 'w tool \<times> pyval) list \<Rightarrow> pydict \<Rightarrow> function_call \<Rightarrow> 'w \<Rightarrow> tool_result res \<times> 'w" where
  "call_tool env active tools_kwargs call w =
     (let name = fc_name call; failed = (\<lambda>msg. (text_response msg, Some 0, []))
      in case map_of active name of
           None \<Rightarrow>
             (Inr (failed (''Unknown function '' @ quoted name @ ''. Available tools: '' @ le_repr env (PList (map (PStr \<circ> fst) active)))), w)
         | Some (t, schema) \<Rightarrow>
             (case le_json env (fc_arguments call) of
                Inl e \<Rightarrow> (Inr (failed (''Invalid JSON in arguments for '' @ quoted name @ '': '' @ e)), w)
              | Inr args \<Rightarrow>
                  (case execute_tool env t args (d_get_or name (PDict []) tools_kwargs) w of
                     (Inl e, w1) \<Rightarrow> (Inl e, w1)
                   | (Inr (Inl e), w1) \<Rightarrow> (Inr (failed (''Error executing tool '' @ quoted name @ '': '' @ le_error_text env e)), w1)
                   | (Inr (Inr (r, reward, metrics)), w1) \<Rightarrow>
                       (Inr (r\<lparr>tr_text := map_option (truncate_text env) (tr_text r)\<rparr>, reward, metrics), w1))))"

text \<open>\<open>asyncio.gather\<close>: all calls run, and the first exception is raised.\<close>

fun call_tools ::
  "'w loop_env \<Rightarrow> (string \<times> 'w tool \<times> pyval) list \<Rightarrow> pydict \<Rightarrow> function_call list \<Rightarrow> 'w \<Rightarrow> tool_result list res \<times> 'w" where
  "call_tools env active kw [] w = (Inr [], w)"
| "call_tools env active kw (c # cs) w =
     (case call_tool env active kw c w of
        (r, w1) \<Rightarrow>
          (case call_tools env active kw cs w1 of
             (rs, w2) \<Rightarrow> (bind_res r (\<lambda>x. bind_res rs (\<lambda>xs. Inr (x # xs))), w2)))"

section \<open>Prompts\<close>

definition cap_text_prompt_length :: "'w loop_env \<Rightarrow> int list \<Rightarrow> int list" where
  "cap_text_prompt_length env ids = (if le_prompt_length env < length ids then last_n (le_prompt_length env) ids else ids)"

definition get_mm_processor_kwargs :: "'w loop_env \<Rightarrow> pyval \<Rightarrow> pydict" where
  "get_mm_processor_kwargs env audios =
     (let kwargs = le_mm_kwargs env
      in if audios \<noteq> PNone \<and> map_of kwargs ''sampling_rate'' = None
         then (case le_sampling_rate env of None \<Rightarrow> kwargs | Some r \<Rightarrow> d_set ''sampling_rate'' (PInt r) kwargs)
         else kwargs)"

definition prompt_template ::
  "'w loop_env \<Rightarrow> pydict list \<Rightarrow> pyval \<Rightarrow> pyval \<Rightarrow> pyval \<Rightarrow> pyval \<Rightarrow> pydict option \<Rightarrow> bool \<Rightarrow> int list res" where
  "prompt_template env messages tools images videos audios mm_kwargs remove_system_prompt =
     bind_res (le_render env messages tools images videos audios (the_default (get_mm_processor_kwargs env audios) mm_kwargs)) (\<lambda>ids.
       let ids = (if remove_system_prompt then drop (length (le_system_prompt env)) ids else ids)
       in if le_prompt_length env < length ids
          then (if truthy images \<or> truthy videos \<or> truthy audios then Inl (ValueError ''Multimodal prompt exceeds rollout.prompt_length'')
                else Inr (cap_text_prompt_length env ids))
          else Inr ids)"

definition ct_build_initial_tokens :: "'w loop_env \<Rightarrow> builder \<Rightarrow> pydict list \<Rightarrow> pyval \<Rightarrow> int list res" where
  "ct_build_initial_tokens env b messages tools =
     bind_res (build_initial_tokens b messages tools) (\<lambda>ids. Inr (cap_text_prompt_length env ids))"

definition ct_merge_non_assistant_msg ::
  "builder \<Rightarrow> pydict list \<Rightarrow> pydict list \<Rightarrow> int list \<Rightarrow> int list \<Rightarrow> real list option \<Rightarrow> pyval
    \<Rightarrow> (merge_result \<times> int list \<times> real list option) res" where
  "ct_merge_non_assistant_msg b previous updated runtime msk lps tools =
     bind_res (merge_non_assistant_tokens b previous updated runtime tools) (\<lambda>mr.
     bind_res (align_response_metadata mr msk lps None) (\<lambda>(msk', lps'). Inr (mr, msk', lps')))"

definition ct_merge_assistant_token ::
  "int list \<Rightarrow> int list \<Rightarrow> int list \<Rightarrow> real list option \<Rightarrow> real list option \<Rightarrow> (merge_result \<times> int list \<times> real list option) res" where
  "ct_merge_assistant_token runtime ids msk lps alps =
     (let mr = merge_assistant_tokens runtime ids
      in bind_res (align_response_metadata mr msk lps alps) (\<lambda>(msk', lps'). Inr (mr, msk', lps')))"

section \<open>The state of the tool agent\<close>

datatype agent_state = PENDING | GENERATING | PROCESSING_TOOLS | TERMINATED

record 'w agent_data =
  ad_messages :: "pydict list"
  ad_images :: pyval
  ad_videos :: pyval
  ad_audios :: pyval
  ad_mm_kwargs :: pydict
  ad_request_id :: string
  ad_tools_kwargs :: pydict
  ad_active :: "(string \<times> 'w tool \<times> pyval) list"
  ad_preempted :: "int option"
  ad_prompt_ids :: "int list"
  ad_response_ids :: "int list"
  ad_response_mask :: "int list"
  ad_logprobs :: "real list"
  ad_turn_scores :: "real list"
  ad_tool_rewards :: "real list"
  ad_user_turns :: nat
  ad_assistant_turns :: nat
  ad_tool_calls :: "function_call list"
  ad_routed :: "pyval list option"
  ad_extra :: pydict

definition active_schemas :: "'w agent_data \<Rightarrow> pyval list" where
  "active_schemas ad = map (\<lambda>(name, t, schema). schema) (ad_active ad)"

section \<open>The handlers of the states\<close>

definition handle_pending :: "'w loop_env \<Rightarrow> 'w agent_data \<Rightarrow> 'w agent_data res" where
  "handle_pending env ad =
     bind_res (case le_builder env of
         Some b \<Rightarrow> ct_build_initial_tokens env b (ad_messages ad) (PList (active_schemas ad))
       | None \<Rightarrow> prompt_template env (ad_messages ad) (PList (active_schemas ad)) (ad_images ad) (ad_videos ad) (ad_audios ad)
           (Some (ad_mm_kwargs ad)) False)
       (\<lambda>ids. Inr (ad\<lparr>ad_prompt_ids := ids\<rparr>))"

text \<open>The stop tokens of the tool parser are added to those of the caller; the order of the resulting set is not specified.\<close>

definition request_params :: "'w loop_env \<Rightarrow> pydict \<Rightarrow> pydict res" where
  "request_params env params =
     (if le_stop_token_ids env = [] then Inr params
      else case py_or (d_get ''stop_token_ids'' params) (PList []) of
             PList xs \<Rightarrow> Inr (d_set ''stop_token_ids'' (PList (remdups (xs @ map PInt (le_stop_token_ids env)))) params)
           | _ \<Rightarrow> Inl (TypeError ''can only concatenate list to list''))"

definition SPEC_DECODE_EXTRA_KEYS :: "string list" where
  "SPEC_DECODE_EXTRA_KEYS = [''spec_num_draft_tokens'', ''spec_num_accepted_tokens'', ''spec_num_verify_steps'']"

fun py_int :: "pyval \<Rightarrow> int res" where
  "py_int (PInt i) = Inr i"
| "py_int (PBool b) = Inr (if b then 1 else 0)"
| "py_int (PFloat r) = Inr (if 0 \<le> r then \<lfloor>r\<rfloor> else \<lceil>r\<rceil>)"
| "py_int _ = Inl (TypeError ''int() argument must be a string or a real number'')"

definition merge_extra_fields :: "pydict \<Rightarrow> pydict \<Rightarrow> pydict res" where
  "merge_extra_fields extra out =
     (if extra = [] then Inr (d_update extra out)
      else
        let extra = (if truthy (d_get ''max_global_steps'' out) then d_set ''max_global_steps'' (d_get ''max_global_steps'' out) extra else extra)
        in fold_res (\<lambda>d k.
             if map_of out k \<noteq> None \<and> map_of d k \<noteq> None
             then bind_res (py_int (d_get k d)) (\<lambda>i. bind_res (py_int (d_get k out)) (\<lambda>j. Inr (d_set k (PInt (i + j)) d)))
             else Inr d) extra SPEC_DECODE_EXTRA_KEYS)"

definition add_preempted :: "int option \<Rightarrow> int option \<Rightarrow> int" where
  "add_preempted old new = (case old of None \<Rightarrow> the_default (-1) new | Some n \<Rightarrow> n + the_default 0 new)"

text \<open>\<open>output.log_probs\<close> as a condition: present and not empty.\<close>

definition given_logprobs :: "token_output \<Rightarrow> real list option" where
  "given_logprobs out = (case to_log_probs out of Some (x # xs) \<Rightarrow> Some (x # xs) | _ \<Rightarrow> None)"

definition append_generated :: "'w loop_env \<Rightarrow> token_output \<Rightarrow> 'w agent_data \<Rightarrow> 'w agent_data res" where
  "append_generated env out ad =
     (case le_builder env of
        Some b \<Rightarrow>
          bind_res (ct_merge_assistant_token (ad_prompt_ids ad) (ad_response_ids ad) (ad_response_mask ad)
              (if ad_logprobs ad \<noteq> [] \<or> given_logprobs out \<noteq> None then Some (ad_logprobs ad) else None) (given_logprobs out))
            (\<lambda>(mr, msk, lps). Inr (ad\<lparr>ad_prompt_ids := mr_token_ids mr, ad_response_mask := msk,
               ad_logprobs := the_default (ad_logprobs ad) lps\<rparr>))
      | None \<Rightarrow>
          Inr (ad\<lparr>ad_prompt_ids := ad_prompt_ids ad @ ad_response_ids ad,
                  ad_response_mask := ad_response_mask ad @ replicate (length (ad_response_ids ad)) 1,
                  ad_logprobs := ad_logprobs ad @ the_default [] (given_logprobs out)\<rparr>))"

definition parsed_call :: "'w loop_env \<Rightarrow> function_call \<Rightarrow> pydict res" where
  "parsed_call env c =
     (case le_json env (fc_arguments c) of
        Inr (PDict d) \<Rightarrow>
          Inr ([(''type'', PStr ''function''), (''function'', PDict [(''name'', PStr (fc_name c)), (''arguments'', PDict d)])]
               @ (case fc_id c of None \<Rightarrow> [] | Some i \<Rightarrow> [(''id'', PStr i)]))
      | _ \<Rightarrow> Inl (ValueError ''Invalid tool call arguments: expected a JSON object string''))"

definition build_assistant_message :: "'w loop_env \<Rightarrow> string \<Rightarrow> 'w agent_data \<Rightarrow> pydict res" where
  "build_assistant_message env content ad =
     (let m = [(''role'', PStr ''assistant''), (''content'', PStr content)]
      in if ad_tool_calls ad = [] then Inr m
         else bind_res (map_res (parsed_call env) (take (le_max_parallel env) (ad_tool_calls ad))) (\<lambda>calls.
                Inr (m @ [(''tool_calls'', PList (map PDict calls))])))"

definition limit_reached :: "nat option \<Rightarrow> nat \<Rightarrow> bool" where
  "limit_reached bound n \<longleftrightarrow> (case bound of None \<Rightarrow> False | Some m \<Rightarrow> m \<noteq> 0 \<and> m \<le> n)"

definition generate_request :: "'w agent_data \<Rightarrow> pydict \<Rightarrow> gen_request" where
  "generate_request ad params =
     \<lparr>gr_request_id = ad_request_id ad, gr_prompt_ids = ad_prompt_ids ad, gr_params = params, gr_images = ad_images ad,
      gr_videos = ad_videos ad, gr_audios = ad_audios ad, gr_mm_kwargs = ad_mm_kwargs ad, gr_priority = None\<rparr>"

definition handle_generating ::
  "'w loop_env \<Rightarrow> pydict \<Rightarrow> bool \<Rightarrow> 'w agent_data \<Rightarrow> 'w \<Rightarrow> (agent_state \<times> 'w agent_data \<times> 'w) res" where
  "handle_generating env params ignore_termination ad w =
     bind_res (request_params env params) (\<lambda>ps.
     bind_res (le_generate env w (generate_request ad ps)) (\<lambda>(out, w1).
     bind_res (merge_extra_fields (ad_extra ad) (to_extra out)) (\<lambda>extra.
     bind_res (append_generated env out (ad\<lparr>ad_preempted := Some (add_preempted (ad_preempted ad) (to_preempted out)),
         ad_extra := extra, ad_assistant_turns := ad_assistant_turns ad + 1, ad_response_ids := to_token_ids out\<rparr>)) (\<lambda>ad.
       let ad = (case to_routed out of None \<Rightarrow> ad | Some e \<Rightarrow> ad\<lparr>ad_routed := Some e\<rparr>)
       in if \<not> ignore_termination \<and> le_response_length env \<le> length (ad_response_mask ad) then Inr (TERMINATED, ad, w1)
          else if limit_reached (le_max_assistant_turns env) (ad_assistant_turns ad) then Inr (TERMINATED, ad, w1)
          else if limit_reached (le_max_user_turns env) (ad_user_turns ad) then Inr (TERMINATED, ad, w1)
          else bind_res (le_extract env (ad_response_ids ad) (active_schemas ad)) (\<lambda>(content, calls).
               let ad = ad\<lparr>ad_tool_calls := calls\<rparr>
               in bind_res (case le_builder env of
                      None \<Rightarrow> Inr ad
                    | Some b \<Rightarrow> bind_res (build_assistant_message env content ad) (\<lambda>m. Inr (ad\<lparr>ad_messages := ad_messages ad @ [m]\<rparr>)))
                  (\<lambda>ad. Inr (if calls \<noteq> [] then PROCESSING_TOOLS else TERMINATED, ad, w1)))))))"

text \<open>The message of a tool response, with the images it brings and its reward.\<close>

definition tool_message :: "'w loop_env \<Rightarrow> function_call \<Rightarrow> tool_response \<Rightarrow> pydict res" where
  "tool_message env call r =
     (let has_image = the_default [] (tr_image r) \<noteq> []; has_video = the_default [] (tr_video r) \<noteq> [];
          texts = (case tr_text r of Some (c # cs) \<Rightarrow> [PDict [(''type'', PStr ''text''), (''text'', PStr (c # cs))]] | _ \<Rightarrow> []);
          call_id = (case fc_id call of None \<Rightarrow> [] | Some i \<Rightarrow> [(''tool_call_id'', PStr i)])
      in if has_image \<or> has_video
         then (if \<not> le_image_processor env then Inl (ValueError ''Multimedia data can only be processed by processor'')
               else Inr ([(''role'', PStr ''tool''),
                          (''content'', PList ((if has_image then [PDict [(''type'', PStr ''image'')]] else [])
                            @ (if has_video then [PDict [(''type'', PStr ''video'')]] else []) @ texts))] @ call_id))
         else Inr ([(''role'', PStr ''tool''), (''content'', PStr (the_default [] (tr_text r)))] @ call_id))"

fun tool_messages :: "'w loop_env \<Rightarrow> (function_call \<times> tool_result) list \<Rightarrow> (pydict list \<times> pyval list \<times> real list) res" where
  "tool_messages env [] = Inr ([], [], [])"
| "tool_messages env ((call, r, reward, metrics) # rest) =
     bind_res (tool_message env call r) (\<lambda>m.
       if the_default [] (tr_video r) \<noteq> [] then Inl (NotImplementedError ''Multimedia type video is not currently supported'')
       else bind_res (tool_messages env rest) (\<lambda>(ms, images, rewards).
              Inr (m # ms, filter (\<lambda>i. i \<noteq> PNone) (the_default [] (tr_image r)) @ images,
                   (case reward of None \<Rightarrow> [] | Some x \<Rightarrow> [x]) @ rewards)))"

text \<open>The manual formats of tool responses; the content of a gpt-oss response is written as it is.\<close>

definition build_gpt_oss_tool_response_text :: "'w loop_env \<Rightarrow> pydict list \<Rightarrow> string list \<Rightarrow> string" where
  "build_gpt_oss_tool_response_text env messages names =
     concat (map2 (\<lambda>m name. gpt_oss_tool_response (py_str (le_repr env) (d_get ''content'' m)) name) messages names) @ ''<|start|>assistant''"

definition gemma4_text :: "'w loop_env \<Rightarrow> pydict list \<Rightarrow> string list \<Rightarrow> string" where
  "gemma4_text env messages names =
     concat (map2 (\<lambda>m name. gemma4_tool_response
        (case d_get ''content'' m of
           PList items \<Rightarrow> concat (map (\<lambda>v. case v of
               PDict d \<Rightarrow> if d_get ''type'' d = PStr ''text'' then (case d_get_or ''text'' (PStr []) d of PStr t \<Rightarrow> t | _ \<Rightarrow> []) else []
             | _ \<Rightarrow> []) items)
         | v \<Rightarrow> py_str (le_repr env) v) name) messages names)"

definition tool_response_ids :: "'w loop_env \<Rightarrow> pydict list \<Rightarrow> string list \<Rightarrow> pyval list \<Rightarrow> int list res" where
  "tool_response_ids env messages names images =
     (if le_parser_name env = ''gpt-oss'' then Inr (le_encode env (build_gpt_oss_tool_response_text env messages names))
      else if le_parser_name env = ''gemma4'' then Inr (le_encode env (gemma4_text env messages names))
      else prompt_template env messages PNone (if images \<noteq> [] then PList images else PNone) PNone PNone None True)"

definition add_images :: "pyval \<Rightarrow> pyval list \<Rightarrow> pyval" where
  "add_images old new =
     (if new = [] then old
      else case old of PNone \<Rightarrow> PList new | PList xs \<Rightarrow> PList (xs @ new) | v \<Rightarrow> PList (v # new))"

definition handle_processing_tools ::
  "'w loop_env \<Rightarrow> 'w agent_data \<Rightarrow> 'w \<Rightarrow> (agent_state \<times> 'w agent_data \<times> 'w) res" where
  "handle_processing_tools env ad w =
     (let previous = ad_messages ad; calls = take (le_max_parallel env) (ad_tool_calls ad)
      in case call_tools env (ad_active ad) (ad_tools_kwargs ad) calls w of
           (rs, w1) \<Rightarrow>
             bind_res rs (\<lambda>results.
             bind_res (tool_messages env (zip calls results)) (\<lambda>(msgs, images, rewards).
               let ad = ad\<lparr>ad_tool_rewards := ad_tool_rewards ad @ rewards, ad_messages := ad_messages ad @ msgs\<rparr>
               in case (le_builder env, images) of
                    (Some b, []) \<Rightarrow>
                      bind_res (ct_merge_non_assistant_msg b previous (ad_messages ad) (ad_prompt_ids ad) (ad_response_mask ad)
                          (if ad_logprobs ad \<noteq> [] then Some (ad_logprobs ad) else None) (PList (active_schemas ad))) (\<lambda>(mr, msk, lps).
                        if le_response_length env \<le> length msk then Inr (TERMINATED, ad, w1)
                        else Inr (GENERATING, ad\<lparr>ad_prompt_ids := mr_token_ids mr, ad_response_mask := msk,
                               ad_logprobs := (if ad_logprobs ad \<noteq> [] then the_default [] lps else ad_logprobs ad),
                               ad_user_turns := ad_user_turns ad + 1\<rparr>, w1))
                  | _ \<Rightarrow>
                      bind_res (tool_response_ids env msgs (map fc_name calls) images) (\<lambda>ids.
                        if le_response_length env \<le> length (ad_response_mask ad) + length ids then Inr (TERMINATED, ad, w1)
                        else Inr (GENERATING, ad\<lparr>ad_images := add_images (ad_images ad) images,
                               ad_prompt_ids := ad_prompt_ids ad @ ids,
                               ad_response_mask := ad_response_mask ad @ replicate (length ids) 0,
                               ad_logprobs := (if ad_logprobs ad \<noteq> [] then ad_logprobs ad @ replicate (length ids) 0 else []),
                               ad_user_turns := ad_user_turns ad + 1\<rparr>, w1)))))"

section \<open>The loop\<close>

definition agent_step :: "'w loop_env \<Rightarrow> pydict \<Rightarrow> agent_state \<Rightarrow> 'w agent_data \<Rightarrow> 'w \<Rightarrow> (agent_state \<times> 'w agent_data \<times> 'w) res" where
  "agent_step env params st ad w =
     (case st of
        PENDING \<Rightarrow> bind_res (handle_pending env ad) (\<lambda>ad. Inr (GENERATING, ad, w))
      | GENERATING \<Rightarrow> handle_generating env params False ad w
      | PROCESSING_TOOLS \<Rightarrow> handle_processing_tools env ad w
      | TERMINATED \<Rightarrow> Inr (TERMINATED, ad, w))"

partial_function (option) agent_loop ::
  "'w loop_env \<Rightarrow> pydict \<Rightarrow> agent_state \<Rightarrow> 'w agent_data \<Rightarrow> 'w \<Rightarrow> ('w agent_data \<times> 'w) res option" where
  "agent_loop env params st ad w =
     (if st = TERMINATED then Some (Inr (ad, w))
      else case agent_step env params st ad w of
             Inl e \<Rightarrow> Some (Inl e)
           | Inr r \<Rightarrow> agent_loop env params (fst r) (fst (snd r)) (snd (snd r)))"

declare agent_loop.simps [code]

record agent_output =
  ao_prompt_ids :: "int list"
  ao_response_ids :: "int list"
  ao_response_mask :: "int list"
  ao_logprobs :: "real list option"
  ao_multi_modal :: pydict
  ao_mm_kwargs :: "pydict option"
  ao_num_turns :: nat
  ao_preempted :: "int option"
  ao_routed :: "pyval list option"
  ao_extra :: pydict

definition present :: "string \<Rightarrow> pyval \<Rightarrow> pydict" where
  "present k v = (if v = PNone then [] else [(k, v)])"

definition finalize :: "'w loop_env \<Rightarrow> 'w agent_data \<Rightarrow> agent_output" where
  "finalize env ad =
     (let n = length (ad_response_mask ad);
          response_ids = last_n n (ad_prompt_ids ad);
          prompt_ids = take (length (ad_prompt_ids ad) - n) (ad_prompt_ids ad);
          cap = le_response_length env
      in \<lparr>ao_prompt_ids = prompt_ids, ao_response_ids = take cap response_ids, ao_response_mask = take cap (ad_response_mask ad),
          ao_logprobs = (if ad_logprobs ad \<noteq> [] then Some (take cap (ad_logprobs ad)) else None),
          ao_multi_modal = present ''images'' (ad_images ad) @ present ''videos'' (ad_videos ad) @ present ''audios'' (ad_audios ad),
          ao_mm_kwargs = Some (ad_mm_kwargs ad),
          ao_num_turns = ad_user_turns ad + ad_assistant_turns ad + 1, ao_preempted = ad_preempted ad,
          ao_routed = map_option (take (length prompt_ids + cap)) (ad_routed ad),
          ao_extra = d_set ''tool_rewards'' (PList (map PFloat (ad_tool_rewards ad)))
                      (d_set ''turn_scores'' (PList (map PFloat (ad_turn_scores ad))) (ad_extra ad))\<rparr>)"

definition select_tools :: "(string \<times> 'w tool \<times> pyval) list \<Rightarrow> pydict \<Rightarrow> (string \<times> 'w tool \<times> pyval) list" where
  "select_tools tools extra_info =
     (case d_get ''tool_selection'' extra_info of
        PList (x # xs) \<Rightarrow>
          if tools = [] then tools
          else fold (\<lambda>name d. case name of PStr s \<Rightarrow> (case map_of tools s of None \<Rightarrow> d | Some t \<Rightarrow> d_set s t d) | _ \<Rightarrow> d) (x # xs) []
      | _ \<Rightarrow> tools)"

definition new_agent_data ::
  "'w loop_env \<Rightarrow> string \<Rightarrow> pydict list \<Rightarrow> pyval \<Rightarrow> pyval \<Rightarrow> pyval \<Rightarrow> pydict \<Rightarrow> pydict \<Rightarrow> 'w agent_data" where
  "new_agent_data env request_id messages images videos audios tools_kwargs extra_info =
     \<lparr>ad_messages = messages, ad_images = images, ad_videos = videos, ad_audios = audios,
      ad_mm_kwargs = get_mm_processor_kwargs env audios, ad_request_id = request_id,
      ad_tools_kwargs = tools_kwargs, ad_active = select_tools (le_tools env) extra_info, ad_preempted = None, ad_prompt_ids = [],
      ad_response_ids = [], ad_response_mask = [], ad_logprobs = [], ad_turn_scores = [], ad_tool_rewards = [], ad_user_turns = 0,
      ad_assistant_turns = 0, ad_tool_calls = [], ad_routed = None, ad_extra = []\<rparr>"

definition run_tool_agent :: "'w loop_env \<Rightarrow> pydict \<Rightarrow> 'w agent_data \<Rightarrow> 'w \<Rightarrow> (agent_output \<times> 'w) res option" where
  "run_tool_agent env params ad w = map_option (map_sum id (\<lambda>(ad, w). (finalize env ad, w))) (agent_loop env params PENDING ad w)"

section \<open>What a step does\<close>

lemma append_generated_effect:
  assumes "append_generated env out ad = Inr ad'"
  shows "ad_prompt_ids ad' = ad_prompt_ids ad @ ad_response_ids ad
    \<and> ad_response_mask ad' = ad_response_mask ad @ replicate (length (ad_response_ids ad)) 1
    \<and> ad_logprobs ad' = ad_logprobs ad @ the_default [] (given_logprobs out)"
  using assms
  by (auto simp: append_generated_def ct_merge_assistant_token_def align_response_metadata_def merge_assistant_tokens_def trim_end_def
      Let_def split: option.splits if_splits)

lemma append_generated_same:
  "append_generated env out ad = Inr ad' \<Longrightarrow>
     ad_user_turns ad' = ad_user_turns ad \<and> ad_assistant_turns ad' = ad_assistant_turns ad \<and> ad_response_ids ad' = ad_response_ids ad
     \<and> ad_active ad' = ad_active ad \<and> ad_tools_kwargs ad' = ad_tools_kwargs ad"
  by (auto simp: append_generated_def bind_res_Inr split: option.splits)

lemma generating_Inr:
  assumes "handle_generating env params ign ad w = Inr (st, ad', w')"
  shows "\<exists>ps out. request_params env params = Inr ps \<and> le_generate env w (generate_request ad ps) = Inr (out, w')
    \<and> ad_prompt_ids ad' = ad_prompt_ids ad @ to_token_ids out
    \<and> ad_response_mask ad' = ad_response_mask ad @ replicate (length (to_token_ids out)) 1
    \<and> ad_logprobs ad' = ad_logprobs ad @ the_default [] (given_logprobs out)
    \<and> ad_active ad' = ad_active ad \<and> ad_tools_kwargs ad' = ad_tools_kwargs ad
    \<and> ad_user_turns ad' = ad_user_turns ad \<and> ad_assistant_turns ad' = ad_assistant_turns ad + 1
    \<and> (st = TERMINATED \<or> st = PROCESSING_TOOLS)
    \<and> (st = PROCESSING_TOOLS \<longrightarrow> (ign \<or> length (ad_response_mask ad') < le_response_length env)
         \<and> \<not> limit_reached (le_max_assistant_turns env) (ad_assistant_turns ad')
         \<and> \<not> limit_reached (le_max_user_turns env) (ad_user_turns ad')
         \<and> (\<exists>content. le_extract env (to_token_ids out) (active_schemas ad) = Inr (content, ad_tool_calls ad')))"
proof -
  obtain ps where ps: "request_params env params = Inr ps"
    using assms by (auto simp: handle_generating_def bind_res_Inr)
  obtain out w1 where out: "le_generate env w (generate_request ad ps) = Inr (out, w1)"
    using assms by (auto simp: handle_generating_def ps bind_res_Inr)
  obtain extra where extra: "merge_extra_fields (ad_extra ad) (to_extra out) = Inr extra"
    using assms by (auto simp: handle_generating_def ps out bind_res_Inr)
  let ?ad0 = "ad\<lparr>ad_preempted := Some (add_preempted (ad_preempted ad) (to_preempted out)),
         ad_extra := extra, ad_assistant_turns := ad_assistant_turns ad + 1, ad_response_ids := to_token_ids out\<rparr>"
  obtain ad1 where ad1: "append_generated env out ?ad0 = Inr ad1"
    using assms by (auto simp: handle_generating_def ps out extra bind_res_Inr)
  define ad2 where "ad2 = (case to_routed out of None \<Rightarrow> ad1 | Some e \<Rightarrow> ad1\<lparr>ad_routed := Some e\<rparr>)"
  have same: "ad_prompt_ids ad2 = ad_prompt_ids ad @ to_token_ids out"
    "ad_response_mask ad2 = ad_response_mask ad @ replicate (length (to_token_ids out)) 1"
    "ad_logprobs ad2 = ad_logprobs ad @ the_default [] (given_logprobs out)" "ad_response_ids ad2 = to_token_ids out"
    "ad_active ad2 = ad_active ad" "ad_tools_kwargs ad2 = ad_tools_kwargs ad"
    "ad_user_turns ad2 = ad_user_turns ad" "ad_assistant_turns ad2 = ad_assistant_turns ad + 1"
    using append_generated_effect[OF ad1] append_generated_same[OF ad1] by (auto simp: ad2_def split: option.splits)
  have "active_schemas ad2 = active_schemas ad" using same(5) by (simp add: active_schemas_def)
  then have "w' = w1 \<and> ad_prompt_ids ad' = ad_prompt_ids ad2 \<and> ad_response_mask ad' = ad_response_mask ad2 \<and> ad_logprobs ad' = ad_logprobs ad2
    \<and> ad_active ad' = ad_active ad2 \<and> ad_tools_kwargs ad' = ad_tools_kwargs ad2
    \<and> ad_user_turns ad' = ad_user_turns ad2 \<and> ad_assistant_turns ad' = ad_assistant_turns ad2
    \<and> (st = TERMINATED \<or> st = PROCESSING_TOOLS)
    \<and> (st = PROCESSING_TOOLS \<longrightarrow> (ign \<or> length (ad_response_mask ad2) < le_response_length env)
         \<and> \<not> limit_reached (le_max_assistant_turns env) (ad_assistant_turns ad2)
         \<and> \<not> limit_reached (le_max_user_turns env) (ad_user_turns ad2)
         \<and> (\<exists>content. le_extract env (to_token_ids out) (active_schemas ad) = Inr (content, ad_tool_calls ad')))"
    using assms same(4) unfolding handle_generating_def ps out extra ad1 bind_res_simps prod.case Let_def ad2_def[symmetric]
    by (auto simp: bind_res_Inr not_le split: if_splits option.splits)
  then show ?thesis unfolding same using ps out by simp
qed

text \<open>
  The tokens of tool responses: \<open>k\<close> tokens of the stream are cut and \<open>ids\<close> appended. Without a builder, and for responses with images,
  \<open>ids\<close> renders the messages and nothing is cut; a builder merges the messages into the stream.
\<close>

definition answer_tokens :: "'w loop_env \<Rightarrow> pyval \<Rightarrow> int list \<Rightarrow> pydict list \<Rightarrow> string list \<Rightarrow> pyval list \<Rightarrow> nat \<Rightarrow> int list \<Rightarrow> bool" where
  "answer_tokens env tools runtime msgs names images k ids \<longleftrightarrow>
     (case (le_builder env, images) of
        (Some b, []) \<Rightarrow>
          (\<exists>previous mr. merge_non_assistant_tokens b previous (previous @ msgs) runtime tools = Inr mr
             \<and> mr_removed mr = k \<and> mr_token_ids mr = take (length runtime - k) runtime @ ids)
      | _ \<Rightarrow> k = 0 \<and> tool_response_ids env msgs names images = Inr ids)"

lemma merged_answer:
  assumes "ct_merge_non_assistant_msg b previous updated runtime msk lps tools = Inr (mr, msk', lps')"
  shows "\<exists>ids. merge_non_assistant_tokens b previous updated runtime tools = Inr mr
    \<and> mr_token_ids mr = take (length runtime - mr_removed mr) runtime @ ids
    \<and> msk' = take (length msk - mr_removed mr) msk @ replicate (length ids) 0
    \<and> lps' = map_option (\<lambda>l. take (length l - mr_removed mr) l @ replicate (length ids) 0) lps"
proof -
  have m: "merge_non_assistant_tokens b previous updated runtime tools = Inr mr"
    and a: "align_response_metadata mr msk lps None = Inr (msk', lps')"
    using assms by (auto simp: ct_merge_non_assistant_msg_def bind_res_Inr)
  obtain ids where k: "mr_kind mr = NonAssistantMerge" and e: "edits mr runtime ids" using merge_edits[OF m] by auto
  show ?thesis using m a k e
    by (intro exI[of _ ids]) (cases lps; auto simp: align_response_metadata_def edits_def trim_end_take replicate_add Let_def)
qed

lemma processing_Inr:
  assumes "handle_processing_tools env ad w = Inr (st, ad', w')"
  shows "ad_assistant_turns ad' = ad_assistant_turns ad \<and> ad_active ad' = ad_active ad \<and> ad_tools_kwargs ad' = ad_tools_kwargs ad
    \<and> (st = TERMINATED \<or> st = GENERATING \<and> ad_user_turns ad' = ad_user_turns ad + 1)
    \<and> (st = TERMINATED \<longrightarrow> ad_prompt_ids ad' = ad_prompt_ids ad \<and> ad_response_mask ad' = ad_response_mask ad
         \<and> ad_logprobs ad' = ad_logprobs ad \<and> ad_user_turns ad' = ad_user_turns ad)
    \<and> (st = GENERATING \<longrightarrow> (\<exists>calls results msgs images rewards k ids. calls = take (le_max_parallel env) (ad_tool_calls ad)
         \<and> call_tools env (ad_active ad) (ad_tools_kwargs ad) calls w = (Inr results, w')
         \<and> tool_messages env (zip calls results) = Inr (msgs, images, rewards)
         \<and> answer_tokens env (PList (active_schemas ad)) (ad_prompt_ids ad) msgs (map fc_name calls) images k ids
         \<and> ad_prompt_ids ad' = take (length (ad_prompt_ids ad) - k) (ad_prompt_ids ad) @ ids
         \<and> ad_response_mask ad' = take (length (ad_response_mask ad) - k) (ad_response_mask ad) @ replicate (length ids) 0
         \<and> ad_logprobs ad' = (if ad_logprobs ad \<noteq> [] then take (length (ad_logprobs ad) - k) (ad_logprobs ad) @ replicate (length ids) 0 else [])))"
proof -
  let ?calls = "take (le_max_parallel env) (ad_tool_calls ad)"
  obtain rs w1 where rs: "call_tools env (ad_active ad) (ad_tools_kwargs ad) ?calls w = (rs, w1)"
    by (cases "call_tools env (ad_active ad) (ad_tools_kwargs ad) ?calls w")
  then obtain results where results: "rs = Inr results"
    using assms by (auto simp: handle_processing_tools_def Let_def bind_res_Inr)
  then obtain ms imgs rw where msgs: "tool_messages env (zip ?calls results) = Inr (ms, imgs, rw)"
    using assms rs by (auto simp: handle_processing_tools_def Let_def bind_res_Inr)
  show ?thesis
  proof (cases "le_builder env = None \<or> imgs \<noteq> []")
    case True
    then have plain: "answer_tokens env t r ms n imgs 0 ids \<longleftrightarrow> tool_response_ids env ms n imgs = Inr ids" for t r n ids
      by (auto simp: answer_tokens_def split: option.splits list.splits)
    from True obtain ids where ids: "tool_response_ids env ms (map fc_name ?calls) imgs = Inr ids"
      using assms rs results msgs
      by (cases "le_builder env"; cases imgs) (auto simp: handle_processing_tools_def Let_def bind_res_Inr split: if_splits)
    have a: "answer_tokens env (PList (active_schemas ad)) (ad_prompt_ids ad) ms (map fc_name ?calls) imgs 0 ids" using ids plain by simp
    show ?thesis
    proof (cases "st = GENERATING")
      case gen: True
      have "ad_assistant_turns ad' = ad_assistant_turns ad \<and> ad_active ad' = ad_active ad \<and> ad_tools_kwargs ad' = ad_tools_kwargs ad
        \<and> ad_user_turns ad' = ad_user_turns ad + 1 \<and> w' = w1 \<and> ad_prompt_ids ad' = ad_prompt_ids ad @ ids
        \<and> ad_response_mask ad' = ad_response_mask ad @ replicate (length ids) 0
        \<and> ad_logprobs ad' = (if ad_logprobs ad \<noteq> [] then ad_logprobs ad @ replicate (length ids) 0 else [])"
        using True gen assms rs results msgs ids
        by (cases "le_builder env"; cases imgs) (auto simp: handle_processing_tools_def Let_def bind_res_Inr split: if_splits)
      then show ?thesis using a rs results msgs gen
        by (intro conjI impI exI[of _ ?calls] exI[of _ results] exI[of _ ms] exI[of _ imgs] exI[of _ rw] exI[of _ 0] exI[of _ ids]) simp_all
    next
      case False
      then show ?thesis using True assms rs results msgs ids
        by (cases "le_builder env"; cases imgs) (auto simp: handle_processing_tools_def Let_def bind_res_Inr split: if_splits)
    qed
  next
    case False
    then obtain b where b: "le_builder env = Some b" "imgs = []" by auto
    let ?lp = "if ad_logprobs ad \<noteq> [] then Some (ad_logprobs ad) else None"
    obtain mr msk lps where ct: "ct_merge_non_assistant_msg b (ad_messages ad) (ad_messages ad @ ms) (ad_prompt_ids ad) (ad_response_mask ad)
        ?lp (PList (active_schemas ad)) = Inr (mr, msk, lps)"
      using b assms rs results msgs unfolding handle_processing_tools_def Let_def
      by (auto simp: bind_res_Inr active_schemas_def split: if_splits)
    obtain ids where m: "merge_non_assistant_tokens b (ad_messages ad) (ad_messages ad @ ms) (ad_prompt_ids ad) (PList (active_schemas ad)) = Inr mr"
      "mr_token_ids mr = take (length (ad_prompt_ids ad) - mr_removed mr) (ad_prompt_ids ad) @ ids"
      "msk = take (length (ad_response_mask ad) - mr_removed mr) (ad_response_mask ad) @ replicate (length ids) 0"
      "lps = map_option (\<lambda>l. take (length l - mr_removed mr) l @ replicate (length ids) 0) ?lp"
      using merged_answer[OF ct] by (elim exE conjE)
    have a: "answer_tokens env (PList (active_schemas ad)) (ad_prompt_ids ad) ms (map fc_name ?calls) imgs (mr_removed mr) ids"
      unfolding answer_tokens_def b prod.case option.case list.case
      by (intro exI[of _ "ad_messages ad"] exI[of _ mr] conjI m(1,2) refl)
    have run: "handle_processing_tools env ad w = (if le_response_length env \<le> length msk then Inr (TERMINATED, ad\<lparr>ad_tool_rewards := ad_tool_rewards ad @ rw,
          ad_messages := ad_messages ad @ ms\<rparr>, w1)
       else Inr (GENERATING, ad\<lparr>ad_tool_rewards := ad_tool_rewards ad @ rw, ad_messages := ad_messages ad @ ms,
          ad_prompt_ids := mr_token_ids mr, ad_response_mask := msk,
          ad_logprobs := (if ad_logprobs ad \<noteq> [] then the_default [] lps else ad_logprobs ad), ad_user_turns := ad_user_turns ad + 1\<rparr>, w1))"
      using ct rs results msgs b unfolding handle_processing_tools_def Let_def
      by (cases "ad_logprobs ad = []") (simp_all add: active_schemas_def)
    show ?thesis
    proof (cases "le_response_length env \<le> length msk")
      case True
      then show ?thesis using run assms by auto
    next
      case False
      then have gen: "st = GENERATING" "w' = w1" and ad': "ad' = ad\<lparr>ad_tool_rewards := ad_tool_rewards ad @ rw, ad_messages := ad_messages ad @ ms,
          ad_prompt_ids := mr_token_ids mr, ad_response_mask := msk,
          ad_logprobs := (if ad_logprobs ad \<noteq> [] then the_default [] lps else ad_logprobs ad), ad_user_turns := ad_user_turns ad + 1\<rparr>"
        using run assms by auto
      show ?thesis using a rs results msgs gen m
        by (intro conjI impI exI[of _ ?calls] exI[of _ results] exI[of _ ms] exI[of _ imgs] exI[of _ rw] exI[of _ "mr_removed mr"] exI[of _ ids])
          (simp_all add: ad')
    qed
  qed
qed

section \<open>The loop ends\<close>

lemma loop_ends_by:
  fixes \<mu> :: "'w agent_data \<Rightarrow> nat"
  assumes dec: "\<And>ad w ad1 w1 ad2 w2. handle_generating env params False ad w = Inr (PROCESSING_TOOLS, ad1, w1) \<Longrightarrow>
      handle_processing_tools env ad1 w1 = Inr (GENERATING, ad2, w2) \<Longrightarrow> \<mu> ad2 < \<mu> ad"
  shows "\<exists>r. agent_loop env params st ad w = Some r"
proof -
  have gen: "\<exists>r. agent_loop env params GENERATING ad w = Some r" for ad w
  proof (induction "\<mu> ad" arbitrary: ad w rule: less_induct)
    case less
    show ?case
    proof (cases "handle_generating env params False ad w")
      case (Inl e)
      then show ?thesis by (subst agent_loop.simps) (simp add: agent_step_def)
    next
      case (Inr r1)
      obtain st1 ad1 w1 where r1: "r1 = (st1, ad1, w1)" by (cases r1)
      have first: "agent_loop env params GENERATING ad w = agent_loop env params st1 ad1 w1"
        by (subst agent_loop.simps) (simp add: agent_step_def Inr r1)
      show ?thesis
      proof (cases "st1 = TERMINATED")
        case True
        then show ?thesis unfolding first by (simp add: agent_loop.simps)
      next
        case False
        then have st1: "st1 = PROCESSING_TOOLS" using generating_Inr[OF Inr[unfolded r1]] by auto
        show ?thesis
        proof (cases "handle_processing_tools env ad1 w1")
          case (Inl e)
          then show ?thesis unfolding first st1 by (subst agent_loop.simps) (simp add: agent_step_def)
        next
          case inr: (Inr r2)
          obtain st2 ad2 w2 where r2: "r2 = (st2, ad2, w2)" by (cases r2)
          have second: "agent_loop env params st1 ad1 w1 = agent_loop env params st2 ad2 w2"
            unfolding st1 by (subst agent_loop.simps) (simp add: agent_step_def inr r2)
          show ?thesis
          proof (cases "st2 = TERMINATED")
            case True
            then show ?thesis unfolding first second by (simp add: agent_loop.simps)
          next
            case False
            then have st2: "st2 = GENERATING" using processing_Inr[OF inr[unfolded r2]] by auto
            have "\<mu> ad2 < \<mu> ad" using dec Inr inr unfolding r1 r2 st1 st2 by blast
            then show ?thesis unfolding first second st2 by (rule less)
          qed
        qed
      qed
    qed
  qed
  have proc: "\<exists>r. agent_loop env params PROCESSING_TOOLS ad w = Some r" for ad w
  proof (cases "handle_processing_tools env ad w")
    case (Inl e)
    then show ?thesis by (subst agent_loop.simps) (simp add: agent_step_def)
  next
    case (Inr r)
    then have "fst r = TERMINATED \<or> fst r = GENERATING" using processing_Inr[of env ad w "fst r" "fst (snd r)" "snd (snd r)"] by auto
    moreover have "agent_loop env params PROCESSING_TOOLS ad w = agent_loop env params (fst r) (fst (snd r)) (snd (snd r))"
      by (subst agent_loop.simps) (simp add: agent_step_def Inr)
    ultimately show ?thesis using gen[of "fst (snd r)" "snd (snd r)"]
      by (auto simp: agent_loop.simps[of env params TERMINATED])
  qed
  show ?thesis
  proof (cases st)
    case PENDING
    then show ?thesis using gen
      by (subst agent_loop.simps) (simp add: agent_step_def bind_res_def split: sum.split)
  qed (use gen proc in \<open>auto simp: agent_loop.simps[of env params TERMINATED]\<close>)
qed

definition loop_bounded :: "'w loop_env \<Rightarrow> bool" where
  "loop_bounded env \<longleftrightarrow>
     (\<exists>m > 0. le_max_assistant_turns env = Some m) \<or> (\<exists>m > 0. le_max_user_turns env = Some m) \<or>
     (le_builder env = None \<and> (\<forall>w req out w'. le_generate env w req = Inr (out, w') \<longrightarrow> to_token_ids out \<noteq> []))"

text \<open>
  C38. The tool agent returns, with a result or an exception, whenever the turns of the assistant or of the user are limited, or
  the server generates at least one token per turn and tokens are appended as they come.
\<close>

theorem agent_loop_ends:
  assumes "loop_bounded env"
  shows "\<exists>r. run_tool_agent env params ad w = Some r"
proof -
  consider (assistant) m where "m > 0" "le_max_assistant_turns env = Some m"
    | (user) m where "m > 0" "le_max_user_turns env = Some m"
    | (tokens) "le_builder env = None" "\<forall>w req out w'. le_generate env w req = Inr (out, w') \<longrightarrow> to_token_ids out \<noteq> []"
    using assms unfolding loop_bounded_def by (elim disjE exE conjE) simp_all
  then have "\<exists>r. agent_loop env params PENDING ad w = Some r"
  proof cases
    case assistant
    show ?thesis
    proof (rule loop_ends_by[of env params "\<lambda>ad. m - ad_assistant_turns ad"])
      fix ad w ad1 w1 ad2 w2
      assume g: "handle_generating env params False ad w = Inr (PROCESSING_TOOLS, ad1, w1)"
        and p: "handle_processing_tools env ad1 w1 = Inr (GENERATING, ad2, w2)"
      show "m - ad_assistant_turns ad2 < m - ad_assistant_turns ad"
        using generating_Inr[OF g] processing_Inr[OF p] assistant by (auto simp: limit_reached_def)
    qed
  next
    case user
    show ?thesis
    proof (rule loop_ends_by[of env params "\<lambda>ad. m - ad_user_turns ad"])
      fix ad w ad1 w1 ad2 w2
      assume g: "handle_generating env params False ad w = Inr (PROCESSING_TOOLS, ad1, w1)"
        and p: "handle_processing_tools env ad1 w1 = Inr (GENERATING, ad2, w2)"
      show "m - ad_user_turns ad2 < m - ad_user_turns ad"
        using generating_Inr[OF g] processing_Inr[OF p] user by (auto simp: limit_reached_def)
    qed
  next
    case tokens
    show ?thesis
    proof (rule loop_ends_by[of env params "\<lambda>ad. le_response_length env - length (ad_response_mask ad)"])
      fix ad w ad1 w1 ad2 w2
      assume g: "handle_generating env params False ad w = Inr (PROCESSING_TOOLS, ad1, w1)"
        and p: "handle_processing_tools env ad1 w1 = Inr (GENERATING, ad2, w2)"
      obtain req out where out: "le_generate env w req = Inr (out, w1)"
        and msk: "ad_response_mask ad1 = ad_response_mask ad @ replicate (length (to_token_ids out)) 1"
        using generating_Inr[OF g] by (elim exE conjE)
      have "to_token_ids out \<noteq> []" using tokens(2)[rule_format, OF out] .
      moreover have "length (ad_response_mask ad1) < le_response_length env" using generating_Inr[OF g] by blast
      moreover obtain ids' :: "int list" where "ad_response_mask ad2 = ad_response_mask ad1 @ replicate (length ids') 0"
        using processing_Inr[OF p] tokens(1) by (auto simp: answer_tokens_def)
      ultimately show "le_response_length env - length (ad_response_mask ad2) < le_response_length env - length (ad_response_mask ad)"
        unfolding msk by (cases "to_token_ids out") auto
    qed
  qed
  then show ?thesis by (auto simp: run_tool_agent_def)
qed

section \<open>What the agent returns\<close>

text \<open>
  The turns of a run: an answer of the server, and the tokens of tools, which may replace some tokens at the end of the stream.
  The stream is the prompt and the response tokens with their masks; a cut longer than the response shortens the prompt.
\<close>

datatype turn = Generated token_output | ToolTokens nat "int list"

type_synonym token_stream = "int list \<times> (int \<times> int) list"

fun add_turn :: "token_stream \<Rightarrow> turn \<Rightarrow> token_stream" where
  "add_turn (P, R) (Generated out) = (P, R @ map (\<lambda>t. (t, 1)) (to_token_ids out))"
| "add_turn (P, R) (ToolTokens k ids) =
     (take (length P - (k - length R)) P, take (length R - k) R @ map (\<lambda>t. (t, 0)) ids)"

definition stream_of :: "int list \<Rightarrow> turn list \<Rightarrow> token_stream" where
  "stream_of prompt turns = foldl add_turn (prompt, []) turns"

definition runtime_of :: "int list \<Rightarrow> turn list \<Rightarrow> int list" where
  "runtime_of prompt turns = (case stream_of prompt turns of (P, R) \<Rightarrow> P @ map fst R)"

text \<open>The log-probabilities kept along: those given by the server, and zeros for tools once there are any.\<close>

fun add_logprobs :: "real list \<Rightarrow> turn \<Rightarrow> real list" where
  "add_logprobs lps (Generated out) = lps @ the_default [] (given_logprobs out)"
| "add_logprobs lps (ToolTokens k ids) = (if lps \<noteq> [] then take (length lps - k) lps @ replicate (length ids) 0 else [])"

definition logprobs_of :: "turn list \<Rightarrow> real list" where
  "logprobs_of turns = foldl add_logprobs [] turns"

text \<open>Response tokens with mask and log-probability, when every answer brings one log-probability per token.\<close>

fun add_scored :: "((int \<times> int) \<times> real) list \<Rightarrow> turn \<Rightarrow> ((int \<times> int) \<times> real) list" where
  "add_scored A (Generated out) = A @ zip (map (\<lambda>t. (t, 1)) (to_token_ids out)) (the_default [] (to_log_probs out))"
| "add_scored A (ToolTokens k ids) = take (length A - k) A @ map (\<lambda>t. ((t, 0), 0)) ids"

definition scored_of :: "turn list \<Rightarrow> ((int \<times> int) \<times> real) list" where
  "scored_of turns = foldl add_scored [] turns"

text \<open>
  Answers bring one log-probability per token (an aborted answer has neither), and no tool answers before a response token exists.
\<close>

definition scored_turns :: "int list \<Rightarrow> turn list \<Rightarrow> bool" where
  "scored_turns prompt turns \<longleftrightarrow>
     (\<forall>out. Generated out \<in> set turns \<longrightarrow> length (the_default [] (to_log_probs out)) = length (to_token_ids out)) \<and>
     (\<forall>ts k ids rest. turns = ts @ ToolTokens k ids # rest \<longrightarrow> snd (stream_of prompt ts) \<noteq> [])"

definition after_generated :: "turn list \<Rightarrow> bool" where
  "after_generated turns \<longleftrightarrow> turns \<noteq> [] \<and> (\<exists>out. last turns = Generated out)"

text \<open>
  The transcript of a run from the world \<open>w\<close>: each generation is asked for with exactly the stream before it, and the tools that its
  answer calls run next, in the world that the server left; their messages give the tokens of the turn after it.
\<close>

inductive transcript ::
  "'w loop_env \<Rightarrow> pydict \<Rightarrow> (string \<times> 'w tool \<times> pyval) list \<Rightarrow> pydict \<Rightarrow> int list \<Rightarrow> 'w \<Rightarrow> turn list \<Rightarrow> 'w \<Rightarrow> bool"
  for env params active kw prompt w
where
  start: "transcript env params active kw prompt w [] w"
| generate: "transcript env params active kw prompt w turns w1 \<Longrightarrow> \<not> after_generated turns \<Longrightarrow>
    request_params env params = Inr (gr_params req) \<Longrightarrow> gr_prompt_ids req = runtime_of prompt turns \<Longrightarrow>
    le_generate env w1 req = Inr (out, w2) \<Longrightarrow> transcript env params active kw prompt w (turns @ [Generated out]) w2"
| use_tools: "transcript env params active kw prompt w turns w1 \<Longrightarrow> turns = before @ [Generated out] \<Longrightarrow>
    le_extract env (to_token_ids out) (map (\<lambda>(name, t, schema). schema) active) = Inr (content, found) \<Longrightarrow>
    calls = take (le_max_parallel env) found \<Longrightarrow> call_tools env active kw calls w1 = (Inr results, w2) \<Longrightarrow>
    tool_messages env (zip calls results) = Inr (msgs, images, rewards) \<Longrightarrow>
    answer_tokens env (PList (map (\<lambda>(name, t, schema). schema) active)) (runtime_of prompt turns) msgs (map fc_name calls) images k ids \<Longrightarrow>
    transcript env params active kw prompt w (turns @ [ToolTokens k ids]) w2"

lemma turns_snoc [simp]:
  "stream_of prompt (turns @ [t]) = add_turn (stream_of prompt turns) t" "logprobs_of (turns @ [t]) = add_logprobs (logprobs_of turns) t"
  "scored_of (turns @ [t]) = add_scored (scored_of turns) t" "after_generated (turns @ [t]) = (\<exists>out. t = Generated out)"
  by (simp_all add: stream_of_def logprobs_of_def scored_of_def after_generated_def)

lemma turns_Nil [simp]: "stream_of prompt [] = (prompt, [])" "logprobs_of [] = []" "scored_of [] = []" "\<not> after_generated []"
  "runtime_of prompt [] = prompt"
  by (simp_all add: stream_of_def logprobs_of_def scored_of_def after_generated_def runtime_of_def)

lemma runtime_snoc [simp]:
  "runtime_of prompt (turns @ [Generated out]) = runtime_of prompt turns @ to_token_ids out"
  "runtime_of prompt (turns @ [ToolTokens k ids]) = take (length (runtime_of prompt turns) - k) (runtime_of prompt turns) @ ids"
proof -
  obtain P R where s: "stream_of prompt turns = (P, R)" by (cases "stream_of prompt turns")
  show "runtime_of prompt (turns @ [Generated out]) = runtime_of prompt turns @ to_token_ids out"
    by (simp add: runtime_of_def s comp_def)
  show "runtime_of prompt (turns @ [ToolTokens k ids]) = take (length (runtime_of prompt turns) - k) (runtime_of prompt turns) @ ids"
    by (cases "k \<le> length R") (simp_all add: runtime_of_def s comp_def take_map)
qed

lemma masks_snoc:
  "map snd (snd (stream_of prompt (turns @ [Generated out])))
     = map snd (snd (stream_of prompt turns)) @ replicate (length (to_token_ids out)) 1"
  "map snd (snd (stream_of prompt (turns @ [ToolTokens k ids])))
     = take (length (snd (stream_of prompt turns)) - k) (map snd (snd (stream_of prompt turns))) @ replicate (length ids) 0"
  by (cases "stream_of prompt turns"; simp add: comp_def take_map map_replicate_const)+

lemma given_default: "the_default [] (given_logprobs out) = the_default [] (to_log_probs out)"
  by (auto simp: given_logprobs_def split: option.splits list.splits)

lemma scored_prefix: "scored_turns prompt (turns @ [t]) \<Longrightarrow> scored_turns prompt turns"
  unfolding scored_turns_def by (metis Un_iff append.assoc append_Cons set_append)

text \<open>When turns are scored, log-probabilities stand token by token.\<close>

lemma scored_aligned:
  "scored_turns prompt turns \<Longrightarrow> length (logprobs_of turns) = length (snd (stream_of prompt turns))
     \<and> zip (snd (stream_of prompt turns)) (logprobs_of turns) = scored_of turns"
proof (induction turns rule: rev_induct)
  case (snoc t turns)
  obtain P R where s: "stream_of prompt turns = (P, R)" by (cases "stream_of prompt turns")
  have ih: "length (logprobs_of turns) = length R" "zip R (logprobs_of turns) = scored_of turns"
    using snoc.IH[OF scored_prefix[OF snoc.prems]] by (simp_all add: s)
  show ?case
  proof (cases t)
    case (Generated out)
    then have "length (the_default [] (to_log_probs out)) = length (to_token_ids out)"
      using snoc.prems unfolding scored_turns_def by simp
    then show ?thesis using ih by (simp add: Generated s given_default)
  next
    case (ToolTokens k ids)
    have ne: "R \<noteq> []" using snoc.prems unfolding scored_turns_def ToolTokens by (metis s snd_conv)
    have z: "zip (map (\<lambda>t. (t, 0::int)) ids) (replicate (length ids) (0::real)) = map (\<lambda>t. ((t, 0), 0)) ids"
      by (simp add: list_eq_iff_nth_eq)
    have "logprobs_of turns \<noteq> []" "length (scored_of turns) = length R" using ne ih by (auto simp: ih(2)[symmetric])
    then show ?thesis using ih by (simp add: ToolTokens s z take_zip[symmetric])
  qed
qed simp

lemma unscored_none: "(\<forall>out. Generated out \<in> set turns \<longrightarrow> given_logprobs out = None) \<Longrightarrow> logprobs_of turns = []"
proof (induction turns rule: rev_induct)
  case (snoc t turns)
  then show ?case by (cases t) auto
qed simp

lemma plain_keeps_prompt:
  "transcript env params active kw prompt w turns w1 \<Longrightarrow> le_builder env = None \<Longrightarrow> fst (stream_of prompt turns) = prompt"
proof (induction rule: transcript.induct)
  case (generate turns w1 req out w2)
  then show ?case by (cases "stream_of prompt turns") simp
next
  case (use_tools turns w1 before out content found calls results w2 msgs images rewards k ids)
  then have "k = 0" by (simp add: answer_tokens_def)
  then show ?case using use_tools.IH use_tools.prems by (cases "stream_of prompt turns") simp
qed simp

fun waiting_for :: "'w loop_env \<Rightarrow> agent_state \<Rightarrow> turn list \<Rightarrow> 'w agent_data \<Rightarrow> bool" where
  "waiting_for env PENDING turns ad = False"
| "waiting_for env GENERATING turns ad = (\<not> after_generated turns)"
| "waiting_for env PROCESSING_TOOLS turns ad =
     (\<exists>before out content. turns = before @ [Generated out] \<and> le_extract env (to_token_ids out) (active_schemas ad) = Inr (content, ad_tool_calls ad))"
| "waiting_for env TERMINATED turns ad = (turns \<noteq> [])"

definition tracks :: "int list \<Rightarrow> turn list \<Rightarrow> 'w agent_data \<Rightarrow> bool" where
  "tracks prompt turns ad \<longleftrightarrow> ad_prompt_ids ad = runtime_of prompt turns \<and> ad_response_mask ad = map snd (snd (stream_of prompt turns))
     \<and> ad_logprobs ad = logprobs_of turns \<and> ad_user_turns ad + ad_assistant_turns ad = length turns"

lemma generating_tracks:
  assumes g: "handle_generating env params ign ad w1 = Inr (st, ad', w')"
    and tr: "transcript env params (ad_active ad) (ad_tools_kwargs ad) prompt w turns w1" "\<not> after_generated turns" "tracks prompt turns ad"
  shows "\<exists>turns'. transcript env params (ad_active ad') (ad_tools_kwargs ad') prompt w turns' w' \<and> waiting_for env st turns' ad'
    \<and> tracks prompt turns' ad'"
proof -
  obtain ps out where req: "request_params env params = Inr ps" "le_generate env w1 (generate_request ad ps) = Inr (out, w')"
    and new: "ad_prompt_ids ad' = ad_prompt_ids ad @ to_token_ids out"
    "ad_response_mask ad' = ad_response_mask ad @ replicate (length (to_token_ids out)) 1"
    "ad_logprobs ad' = ad_logprobs ad @ the_default [] (given_logprobs out)"
    and same: "ad_active ad' = ad_active ad" "ad_tools_kwargs ad' = ad_tools_kwargs ad"
    "ad_user_turns ad' = ad_user_turns ad" "ad_assistant_turns ad' = ad_assistant_turns ad + 1"
    and st: "st = TERMINATED \<or> st = PROCESSING_TOOLS"
    "st = PROCESSING_TOOLS \<longrightarrow> (\<exists>content. le_extract env (to_token_ids out) (active_schemas ad) = Inr (content, ad_tool_calls ad'))"
    using generating_Inr[OF g] by (elim exE conjE) blast
  have "transcript env params (ad_active ad) (ad_tools_kwargs ad) prompt w (turns @ [Generated out]) w'"
    using req tr by (intro transcript.generate[where req = "generate_request ad ps"]) (simp_all add: generate_request_def tracks_def)
  moreover have "waiting_for env st (turns @ [Generated out]) ad'"
    using st same(1) by (auto simp: active_schemas_def)
  moreover have "tracks prompt (turns @ [Generated out]) ad'"
    using tr(3) new same(3,4) unfolding tracks_def masks_snoc by simp
  ultimately show ?thesis unfolding same by blast
qed

lemma processing_tracks:
  assumes p: "handle_processing_tools env ad w1 = Inr (st, ad', w')"
    and tr: "transcript env params (ad_active ad) (ad_tools_kwargs ad) prompt w turns w1" "waiting_for env PROCESSING_TOOLS turns ad"
    "tracks prompt turns ad"
  shows "\<exists>turns' w2. transcript env params (ad_active ad') (ad_tools_kwargs ad') prompt w turns' w2 \<and> (st = GENERATING \<longrightarrow> w2 = w')
    \<and> waiting_for env st turns' ad' \<and> tracks prompt turns' ad'"
proof (cases "st = TERMINATED")
  case True
  then have "tracks prompt turns ad'" "ad_active ad' = ad_active ad" "ad_tools_kwargs ad' = ad_tools_kwargs ad"
    using processing_Inr[OF p] tr(3) by (simp_all add: tracks_def)
  then show ?thesis using tr True by (intro exI[of _ turns] exI[of _ w1]) auto
next
  case False
  then have st: "st = GENERATING" and turns: "ad_user_turns ad' = ad_user_turns ad + 1" "ad_assistant_turns ad' = ad_assistant_turns ad"
    and same: "ad_active ad' = ad_active ad" "ad_tools_kwargs ad' = ad_tools_kwargs ad"
    using processing_Inr[OF p] by blast+
  obtain calls results msgs images rewards k ids where calls: "calls = take (le_max_parallel env) (ad_tool_calls ad)"
    "call_tools env (ad_active ad) (ad_tools_kwargs ad) calls w1 = (Inr results, w')"
    "tool_messages env (zip calls results) = Inr (msgs, images, rewards)"
    "answer_tokens env (PList (active_schemas ad)) (ad_prompt_ids ad) msgs (map fc_name calls) images k ids"
    and new: "ad_prompt_ids ad' = take (length (ad_prompt_ids ad) - k) (ad_prompt_ids ad) @ ids"
    "ad_response_mask ad' = take (length (ad_response_mask ad) - k) (ad_response_mask ad) @ replicate (length ids) 0"
    "ad_logprobs ad' = (if ad_logprobs ad \<noteq> [] then take (length (ad_logprobs ad) - k) (ad_logprobs ad) @ replicate (length ids) 0 else [])"
    using processing_Inr[OF p, THEN conjunct2, THEN conjunct2, THEN conjunct2, THEN conjunct2, THEN conjunct2, THEN mp, OF st]
    by (elim exE conjE) (rule that)
  obtain before out content where last: "turns = before @ [Generated out]"
    "le_extract env (to_token_ids out) (active_schemas ad) = Inr (content, ad_tool_calls ad)" using tr(2) by auto
  have "ad_prompt_ids ad = runtime_of prompt turns" using tr(3) by (simp add: tracks_def)
  then have "transcript env params (ad_active ad) (ad_tools_kwargs ad) prompt w (turns @ [ToolTokens k ids]) w'"
    using transcript.use_tools[OF tr(1) last(1) last(2)[unfolded active_schemas_def] calls(1,2,3)] calls(4)
    by (simp add: active_schemas_def)
  moreover have "tracks prompt (turns @ [ToolTokens k ids]) ad'"
    using tr(3) new turns unfolding tracks_def masks_snoc by simp
  moreover have "waiting_for env GENERATING (turns @ [ToolTokens k ids]) ad'" by simp
  ultimately show ?thesis unfolding same st by blast
qed

definition tracked :: "'w loop_env \<Rightarrow> pydict \<Rightarrow> int list \<Rightarrow> 'w \<Rightarrow> agent_state \<Rightarrow> 'w agent_data \<Rightarrow> 'w \<Rightarrow> turn list \<Rightarrow> bool" where
  "tracked env params prompt w0 st ad w turns \<longleftrightarrow>
     (\<exists>w1. transcript env params (ad_active ad) (ad_tools_kwargs ad) prompt w0 turns w1 \<and> (st \<noteq> TERMINATED \<longrightarrow> w1 = w))
     \<and> waiting_for env st turns ad \<and> tracks prompt turns ad"

lemma step_tracked:
  assumes "agent_step env params st ad w = Inr (st', ad', w')" "st \<noteq> TERMINATED" "tracked env params prompt w0 st ad w turns"
  shows "\<exists>turns'. tracked env params prompt w0 st' ad' w' turns' \<and> ad_active ad' = ad_active ad \<and> ad_tools_kwargs ad' = ad_tools_kwargs ad"
proof (cases st)
  case GENERATING
  then have g: "handle_generating env params False ad w = Inr (st', ad', w')" using assms(1) by (simp add: agent_step_def)
  then have "ad_active ad' = ad_active ad" "ad_tools_kwargs ad' = ad_tools_kwargs ad" using generating_Inr[OF g] by blast+
  then show ?thesis using generating_tracks[OF g, of prompt w0 turns] assms(3) unfolding GENERATING tracked_def by auto
next
  case PROCESSING_TOOLS
  then have p: "handle_processing_tools env ad w = Inr (st', ad', w')" using assms(1) by (simp add: agent_step_def)
  then have "ad_active ad' = ad_active ad" "ad_tools_kwargs ad' = ad_tools_kwargs ad" "st' = TERMINATED \<or> st' = GENERATING"
    using processing_Inr[OF p] by blast+
  then show ?thesis using processing_tracks[OF p, of params prompt w0 turns] assms(3) unfolding PROCESSING_TOOLS tracked_def by auto
qed (use assms in \<open>auto simp: tracked_def\<close>)

lemma loop_tracked:
  assumes "agent_loop env params st ad w = Some r" "tracked env params prompt w0 st ad w turns" "r = Inr (ad', w')"
  shows "\<exists>turns' w'. tracked env params prompt w0 TERMINATED ad' w' turns' \<and> ad_active ad' = ad_active ad \<and> ad_tools_kwargs ad' = ad_tools_kwargs ad"
  using assms
proof (induction env params st ad w r arbitrary: turns rule: agent_loop.raw_induct[rotated, consumes 1, case_names step])
  case (step loop env params st ad w r)
  show ?case
  proof (cases "st = TERMINATED")
    case True
    then show ?thesis using step by auto
  next
    case False
    then obtain st1 ad1 w1 where one: "agent_step env params st ad w = Inr (st1, ad1, w1)"
      using step.hyps step.prems(2) by (cases "agent_step env params st ad w") auto
    then have rest: "loop env params st1 ad1 w1 = Some r" using step.hyps False by simp
    obtain turns1 where one: "tracked env params prompt w0 st1 ad1 w1 turns1" "ad_active ad1 = ad_active ad" "ad_tools_kwargs ad1 = ad_tools_kwargs ad"
      using step_tracked[OF one False step.prems(1)] by blast
    then show ?thesis using step.IH[OF rest one(1) step.prems(2)] by simp
  qed
qed

text \<open>The tokens of the first prompt.\<close>

definition first_prompt :: "'w loop_env \<Rightarrow> 'w agent_data \<Rightarrow> int list res" where
  "first_prompt env ad =
     (case le_builder env of
        Some b \<Rightarrow> ct_build_initial_tokens env b (ad_messages ad) (PList (active_schemas ad))
      | None \<Rightarrow> prompt_template env (ad_messages ad) (PList (active_schemas ad)) (ad_images ad) (ad_videos ad) (ad_audios ad)
           (Some (ad_mm_kwargs ad)) False)"

lemma run_tracked:
  assumes ad: "ad = new_agent_data env rid messages images videos audios kw info"
    and run: "run_tool_agent env params ad w = Some (Inr (out, w'))"
  shows "\<exists>prompt turns w1 ad'. first_prompt env ad = Inr prompt \<and> transcript env params (ad_active ad) kw prompt w turns w1
    \<and> turns \<noteq> [] \<and> tracks prompt turns ad' \<and> out = finalize env ad'"
proof -
  obtain r0 where r0: "agent_loop env params PENDING ad w = Some r0" "map_sum id (\<lambda>(ad, w). (finalize env ad, w)) r0 = Inr (out, w')"
    using run by (auto simp: run_tool_agent_def)
  then obtain ad' where loop: "agent_loop env params PENDING ad w = Some (Inr (ad', w'))" and out: "out = finalize env ad'"
    by (cases r0) auto
  have pending: "handle_pending env ad = bind_res (first_prompt env ad) (\<lambda>ids. Inr (ad\<lparr>ad_prompt_ids := ids\<rparr>))"
    by (simp add: handle_pending_def first_prompt_def split: option.split)
  obtain prompt where prompt: "first_prompt env ad = Inr prompt"
    using loop by (subst (asm) agent_loop.simps) (cases "first_prompt env ad"; simp add: agent_step_def pending)
  let ?ad = "ad\<lparr>ad_prompt_ids := prompt\<rparr>"
  have "agent_loop env params GENERATING ?ad w = Some (Inr (ad', w'))"
    using loop by (subst (asm) agent_loop.simps) (simp add: agent_step_def pending prompt)
  moreover have "tracked env params prompt w GENERATING ?ad w []"
    by (auto simp: tracked_def tracks_def ad new_agent_data_def intro: transcript.start)
  ultimately obtain turns w1 where "tracked env params prompt w TERMINATED ad' w1 turns" "ad_active ad' = ad_active ad" "ad_tools_kwargs ad' = kw"
    using loop_tracked[of env params GENERATING ?ad w _ prompt w "[]" ad' w'] by (auto simp: ad new_agent_data_def)
  then show ?thesis using prompt out unfolding tracked_def by auto
qed

lemma finalize_tracked:
  assumes "tracks prompt turns ad" "stream_of prompt turns = (P, R)"
  shows "ao_prompt_ids (finalize env ad) = P
    \<and> ao_response_ids (finalize env ad) = take (le_response_length env) (if R = [] then P else map fst R)
    \<and> ao_response_mask (finalize env ad) = take (le_response_length env) (map snd R)
    \<and> ao_logprobs (finalize env ad) = (if logprobs_of turns = [] then None else Some (take (le_response_length env) (logprobs_of turns)))
    \<and> ao_num_turns (finalize env ad) = length turns + 1"
  using assms by (simp add: tracks_def finalize_def Let_def runtime_of_def last_n_def)

lemma agent_output_exact_core:
  assumes run: "run_tool_agent env params (new_agent_data env rid messages images videos audios kw info) w = Some (Inr (out, w'))"
  shows "\<exists>prompt turns w1. first_prompt env (new_agent_data env rid messages images videos audios kw info) = Inr prompt
    \<and> transcript env params (select_tools (le_tools env) info) kw prompt w turns w1 \<and> turns \<noteq> []
    \<and> (case stream_of prompt turns of (P, R) \<Rightarrow> ao_prompt_ids out = P \<and> (le_builder env = None \<longrightarrow> P = prompt)
         \<and> ao_response_ids out = take (le_response_length env) (if R = [] then P else map fst R)
         \<and> ao_response_mask out = take (le_response_length env) (map snd R)
         \<and> (scored_turns prompt turns \<longrightarrow> length (logprobs_of turns) = length R \<and> zip R (logprobs_of turns) = scored_of turns))
    \<and> ao_logprobs out = (if logprobs_of turns = [] then None else Some (take (le_response_length env) (logprobs_of turns)))
    \<and> ((\<forall>out. Generated out \<in> set turns \<longrightarrow> given_logprobs out = None) \<longrightarrow> ao_logprobs out = None)
    \<and> ao_num_turns out = length turns + 1"
proof -
  let ?ad = "new_agent_data env rid messages images videos audios kw info"
  obtain prompt turns w1 ad' where prompt: "first_prompt env ?ad = Inr prompt"
    and tr: "transcript env params (ad_active ?ad) kw prompt w turns w1" "turns \<noteq> []" and t: "tracks prompt turns ad'" "out = finalize env ad'"
    using run_tracked[OF refl run] by blast
  obtain P R where s: "stream_of prompt turns = (P, R)" by (cases "stream_of prompt turns")
  have active: "ad_active ?ad = select_tools (le_tools env) info" by (simp add: new_agent_data_def)
  have "le_builder env = None \<longrightarrow> P = prompt" using plain_keeps_prompt[OF tr(1)] s by simp
  moreover have "scored_turns prompt turns \<longrightarrow> length (logprobs_of turns) = length R \<and> zip R (logprobs_of turns) = scored_of turns"
    using scored_aligned[of prompt turns] s by simp
  ultimately show ?thesis
    using prompt tr finalize_tracked[OF t(1) s, of env] unscored_none[of turns] unfolding active t(2)
    by (intro exI[of _ prompt] exI[of _ turns] exI[of _ w1]) (simp add: s)
qed

text \<open>
  C39. Whatever the server answers, aborted answers without tokens or log-probabilities included, and with and without continuous
  tokens, the output of the tool agent is its transcript. The first prompt is the rendered conversation; each generation is asked
  for with exactly the tokens before it; tools run in the order of the calls that the answer before them holds, and their messages
  give the tokens after it. The response is the stream of generated tokens, with mask one, and of tokens of tools, with mask zero,
  cut at the response length; without any such token the prompt is returned in its place. Log-probabilities are those the server
  gave, zero on tokens of tools: aligned token by token when each answer brings one per token and no tool answers an empty response,
  and absent when no answer brings any.
\<close>

theorem agent_output_exact:
  assumes run: "run_tool_agent env params (new_agent_data env rid messages images videos audios kw info) w = Some (Inr (out, w'))"
  shows "\<exists>prompt turns w1. first_prompt env (new_agent_data env rid messages images videos audios kw info) = Inr prompt
    \<and> transcript env params (select_tools (le_tools env) info) kw prompt w turns w1 \<and> turns \<noteq> []
    \<and> (case stream_of prompt turns of (P, R) \<Rightarrow> ao_prompt_ids out = P \<and> (le_builder env = None \<longrightarrow> P = prompt)
         \<and> ao_response_ids out = take (le_response_length env) (if R = [] then P else map fst R)
         \<and> ao_response_mask out = take (le_response_length env) (map snd R)
         \<and> (scored_turns prompt turns \<longrightarrow> length (logprobs_of turns) = length R \<and> zip R (logprobs_of turns) = scored_of turns))
    \<and> ao_logprobs out = (if logprobs_of turns = [] then None else Some (take (le_response_length env) (logprobs_of turns)))
    \<and> ((\<forall>out. Generated out \<in> set turns \<longrightarrow> given_logprobs out = None) \<longrightarrow> ao_logprobs out = None)
    \<and> ao_num_turns out = length turns + 1"
  by (rule agent_output_exact_core[OF run])

text \<open>An example: two turns that call a tool, and an aborted answer.\<close>

definition ex_server :: "nat \<Rightarrow> gen_request \<Rightarrow> (token_output \<times> nat) res" where
  "ex_server w req = Inr (if w = 0
       then \<lparr>to_token_ids = [5, 6], to_log_probs = Some [-1, -2], to_routed = None, to_preempted = None, to_extra = []\<rparr>
     else if w = 1
       then \<lparr>to_token_ids = [7], to_log_probs = Some [-3], to_routed = None, to_preempted = None, to_extra = []\<rparr>
     else \<lparr>to_token_ids = [], to_log_probs = None, to_routed = None, to_preempted = None, to_extra = []\<rparr>, w + 1)"

definition ex_env :: "nat loop_env" where
  "ex_env = \<lparr>le_prompt_length = 8, le_response_length = 8, le_max_user_turns = None, le_max_assistant_turns = Some 5,
     le_max_parallel = 1, le_max_tool_response = 9, le_truncate_side = ''left'', le_parser_name = ''hermes'', le_stop_token_ids = [],
     le_extract = (\<lambda>ids tools. Inr ([], if ids = [] then [] else [\<lparr>fc_arguments = [], fc_name = ''f'', fc_id = None\<rparr>])),
     le_render = (\<lambda>ms tools im vi au mm. Inr (if tools = PNone then [9] else [1, 2])), le_mm_kwargs = [], le_sampling_rate = None,
     le_encode = (\<lambda>s. []), le_system_prompt = [], le_builder = None, le_image_processor = False, le_json = (\<lambda>s. Inr (PDict [])),
     le_tuple_text = (\<lambda>xs. []), le_dumps = (\<lambda>v. []), le_repr = (\<lambda>v. []), le_float = (\<lambda>s. None), le_error_text = (\<lambda>e. []),
     le_tools = [(''f'', FunctionTool (\<lambda>w args. (Inr (RVal (PStr ''ok'')), w)), PNone)], le_generate = ex_server\<rparr>"

definition ex_agent :: "nat agent_data" where
  "ex_agent = new_agent_data ex_env ''r'' [] PNone PNone PNone [] []"

lemma ex_run:
  "\<exists>out w. run_tool_agent ex_env [] ex_agent 0 = Some (Inr (out, w)) \<and> ao_response_ids out = [5, 6, 9, 7, 9]
     \<and> ao_response_mask out = [1, 1, 0, 1, 0] \<and> ao_logprobs out = Some [-1, -2, 0, -3, 0] \<and> ao_num_turns out = 6"
proof -
  let ?f = "\<lambda>out. (ao_response_ids out, ao_response_mask out, ao_logprobs out, ao_num_turns out)"
  have "map_option (map_sum id (\<lambda>(out, w). ?f out)) (run_tool_agent ex_env [] ex_agent 0)
      = Some (Inr ([5, 6, 9, 7, 9], [1, 1, 0, 1, 0], Some [-1, -2, 0, -3, 0], 6))"
    by code_simp
  then obtain z where "run_tool_agent ex_env [] ex_agent 0 = Some z"
    "map_sum id (\<lambda>(out, w). ?f out) z = Inr ([5, 6, 9, 7, 9], [1, 1, 0, 1, 0], Some [-1, -2, 0, -3, 0], 6)" by auto
  then show ?thesis by (cases z) auto
qed

theorem agent_loop_ends_witness: "\<exists>r. run_tool_agent ex_env [] ex_agent 0 = Some r"
proof -
  have "loop_bounded ex_env" by (simp add: loop_bounded_def ex_env_def)
  then show ?thesis by (rule agent_loop_ends)
qed

theorem agent_output_exact_witness:
  "\<exists>out w w1 turns. run_tool_agent ex_env [] ex_agent 0 = Some (Inr (out, w))
     \<and> transcript ex_env [] (le_tools ex_env) [] [1, 2] 0 turns w1 \<and> length turns = 5
     \<and> take 8 (snd (stream_of [1, 2] turns)) = [(5, 1), (6, 1), (9, 0), (7, 1), (9, 0)]
     \<and> take 8 (logprobs_of turns) = [-1, -2, 0, -3, 0]"
proof -
  obtain out w where run: "run_tool_agent ex_env [] ex_agent 0 = Some (Inr (out, w))"
    and out: "ao_response_ids out = [5, 6, 9, 7, 9]" "ao_response_mask out = [1, 1, 0, 1, 0]"
      "ao_logprobs out = Some [-1, -2, 0, -3, 0]" "ao_num_turns out = 6"
    using ex_run by blast
  have env: "le_response_length ex_env = 8" "select_tools (le_tools ex_env) [] = le_tools ex_env"
    "first_prompt ex_env (new_agent_data ex_env ''r'' [] PNone PNone PNone [] []) = Inr [1, 2]"
    by (simp add: ex_env_def, simp add: select_tools_def ex_env_def d_get_def, code_simp)
  obtain turns w1 where tr: "transcript ex_env [] (le_tools ex_env) [] [1, 2] 0 turns w1"
    and s: "ao_response_ids out = take 8 (if snd (stream_of [1, 2] turns) = [] then fst (stream_of [1, 2] turns) else map fst (snd (stream_of [1, 2] turns)))"
      "ao_response_mask out = take 8 (map snd (snd (stream_of [1, 2] turns)))"
    and l: "ao_logprobs out = (if logprobs_of turns = [] then None else Some (take 8 (logprobs_of turns)))" "ao_num_turns out = length turns + 1"
    using agent_output_exact[OF run[unfolded ex_agent_def]] unfolding env case_prod_beta by auto
  obtain P R where pr: "stream_of [1, 2] turns = (P, R)" by (cases "stream_of [1, 2] turns")
  have "R \<noteq> []" using s(2) out(2) by (auto simp: pr)
  then have "map fst (take 8 R) = [5, 6, 9, 7, 9]" "map snd (take 8 R) = [1, 1, 0, 1, 0]" using s out by (simp_all add: pr take_map)
  then have "take 8 R = zip [5, 6, 9, 7, 9] [1, 1, 0, 1, 0]" by (metis zip_map_fst_snd)
  then show ?thesis using run tr l out(3,4)
    by (intro exI[of _ out] exI[of _ w] exI[of _ w1] exI[of _ turns]) (auto simp: pr split: if_splits)
qed

section \<open>Further facts\<close>

text \<open>With no response token, the slice \<open>prompt_ids[-0:]\<close> is the whole prompt.\<close>

lemma empty_response_repeats_prompt:
  "ad_response_mask ad = [] \<Longrightarrow>
     ao_response_ids (finalize env ad) = take (le_response_length env) (ad_prompt_ids ad) \<and> ao_response_mask (finalize env ad) = []"
  by (simp add: finalize_def last_n_def Let_def)

text \<open>
  Arguments that are not JSON: a tool call answers the model with a message, but with continuous tokens the message of the
  assistant is built first and raises.
\<close>

lemma malformed_arguments:
  assumes "le_json env (fc_arguments c) = Inl e" "c \<in> set (take (le_max_parallel env) (ad_tool_calls ad))"
  shows "\<exists>e'. build_assistant_message env content ad = Inl e'"
    and "\<exists>r. call_tool env active kw c w = (Inr r, w)"
proof -
  have "parsed_call env c = Inl (ValueError ''Invalid tool call arguments: expected a JSON object string'')"
    using assms(1) by (simp add: parsed_call_def)
  then have "map_res (parsed_call env) (take (le_max_parallel env) (ad_tool_calls ad)) \<noteq> Inr ys" for ys
    using assms(2) by (auto simp: map_res_Inr_iff list_all2_conv_all_nth in_set_conv_nth)
  then obtain e' where "map_res (parsed_call env) (take (le_max_parallel env) (ad_tool_calls ad)) = Inl e'"
    by (cases "map_res (parsed_call env) (take (le_max_parallel env) (ad_tool_calls ad))") auto
  moreover have "ad_tool_calls ad \<noteq> []" using assms(2) by auto
  ultimately show "\<exists>e'. build_assistant_message env content ad = Inl e'" by (simp add: build_assistant_message_def)
  show "\<exists>r. call_tool env active kw c w = (Inr r, w)"
    using assms(1) by (auto simp: call_tool_def Let_def split: option.splits)
qed

lemma zero_limit_keeps_text:
  "le_max_tool_response env = 0 \<Longrightarrow> le_truncate_side env = ''left'' \<Longrightarrow> t \<noteq> [] \<Longrightarrow> truncate_text env t = ''(truncated)...'' @ t"
  by (simp add: truncate_text_def last_n_def Let_def)

section \<open>The single-turn loop\<close>

definition run_single_turn ::
  "'w loop_env \<Rightarrow> pydict \<Rightarrow> int \<Rightarrow> string \<Rightarrow> pydict list \<Rightarrow> pyval \<Rightarrow> pyval \<Rightarrow> pyval \<Rightarrow> 'w \<Rightarrow> (agent_output \<times> 'w) res" where
  "run_single_turn env params priority request_id messages images videos audios w =
     (let multi_modal = present ''images'' images @ present ''videos'' videos @ present ''audios'' audios;
          mm_kwargs = get_mm_processor_kwargs env audios;
          use_builder = (if multi_modal = [] then le_builder env else None)
      in bind_res (case use_builder of
             Some b \<Rightarrow> ct_build_initial_tokens env b messages PNone
           | None \<Rightarrow> prompt_template env messages PNone images videos audios (Some mm_kwargs) False) (\<lambda>prompt.
         bind_res (le_generate env w \<lparr>gr_request_id = request_id, gr_prompt_ids = prompt, gr_params = params, gr_images = images,
             gr_videos = videos, gr_audios = audios, gr_mm_kwargs = mm_kwargs, gr_priority = Some priority\<rparr>) (\<lambda>(out, w1).
         bind_res (case use_builder of
             Some b \<Rightarrow>
               bind_res (ct_merge_assistant_token prompt (to_token_ids out) []
                   (if given_logprobs out \<noteq> None then Some [] else None) (given_logprobs out)) (\<lambda>(mr, msk, lps).
                 Inr (take (length (mr_token_ids mr) - length msk) (mr_token_ids mr),
                      if msk = [] then [] else last_n (length msk) (mr_token_ids mr), msk, lps))
           | None \<Rightarrow> Inr (prompt, to_token_ids out, replicate (length (to_token_ids out)) 1, to_log_probs out)) (\<lambda>(prompt, ids, msk, lps).
           let cap = le_response_length env
           in Inr (\<lparr>ao_prompt_ids = prompt, ao_response_ids = take cap ids, ao_response_mask = take cap msk,
                    ao_logprobs = (case lps of Some (x # xs) \<Rightarrow> Some (take cap (x # xs)) | _ \<Rightarrow> None),
                    ao_multi_modal = multi_modal, ao_mm_kwargs = Some mm_kwargs, ao_num_turns = 2, ao_preempted = Some (the_default (-1) (to_preempted out)),
                    ao_routed = map_option (take (length prompt + cap)) (to_routed out),
                    ao_extra = d_set ''tool_rewards'' (PList []) (d_set ''turn_scores'' (PList []) (to_extra out))\<rparr>, w1)))))"

lemma ct_assistant_fresh:
  assumes "ct_merge_assistant_token prompt ids [] lps alps = Inr (mr, msk, lps')"
  shows "mr_token_ids mr = prompt @ ids \<and> msk = replicate (length ids) 1"
  using assms by (auto simp: ct_merge_assistant_token_def align_response_metadata_def merge_assistant_tokens_def trim_end_def Let_def
      split: option.splits if_splits)

text \<open>Both ways of building the stream give the generated tokens, with mask one.\<close>

lemma single_turn_exact:
  assumes "run_single_turn env params priority rid messages images videos audios w = Inr (r, w')"
  shows "\<exists>req out. le_generate env w req = Inr (out, w') \<and> gr_prompt_ids req = ao_prompt_ids r
    \<and> ao_response_ids r = take (le_response_length env) (to_token_ids out)
    \<and> ao_response_mask r = replicate (length (ao_response_ids r)) 1"
proof -
  let ?mm = "present ''images'' images @ present ''videos'' videos @ present ''audios'' audios"
  let ?mmk = "get_mm_processor_kwargs env audios"
  let ?req = "\<lambda>prompt. \<lparr>gr_request_id = rid, gr_prompt_ids = prompt, gr_params = params, gr_images = images, gr_videos = videos,
    gr_audios = audios, gr_mm_kwargs = ?mmk, gr_priority = Some priority\<rparr>"
  let ?b = "if ?mm = [] then le_builder env else None"
  obtain prompt out where prompt: "(case ?b of Some b \<Rightarrow> ct_build_initial_tokens env b messages PNone
       | None \<Rightarrow> prompt_template env messages PNone images videos audios (Some ?mmk) False) = Inr prompt"
    and out: "le_generate env w (?req prompt) = Inr (out, w')"
    using assms unfolding run_single_turn_def Let_def by (force simp: bind_res_Inr)
  have tail: "ao_prompt_ids r = prompt \<and> ao_response_ids r = take (le_response_length env) (to_token_ids out)
      \<and> ao_response_mask r = take (le_response_length env) (replicate (length (to_token_ids out)) 1)"
  proof (cases ?b)
    case None
    then show ?thesis using assms out prompt unfolding run_single_turn_def Let_def by (auto simp: bind_res_Inr)
  next
    case (Some b)
    let ?lp = "if given_logprobs out \<noteq> None then Some [] else None"
    obtain mr msk lps where ct: "ct_merge_assistant_token prompt (to_token_ids out) [] ?lp (given_logprobs out) = Inr (mr, msk, lps)"
      using assms out prompt Some unfolding run_single_turn_def Let_def by (auto simp: bind_res_Inr)
    then show ?thesis using assms out prompt Some ct_assistant_fresh[OF ct] unfolding run_single_turn_def Let_def
      by (auto simp: last_n_def)
  qed
  show ?thesis using out tail by (intro exI[of _ "?req prompt"] exI[of _ out])
      (simp add: take_replicate min_def)
qed

end
