(* ===== verification/AgentBatch.thy ===== *)
theory AgentBatch
  imports AgentLoop
begin

text \<open>
  From the outputs of the agent loops to a training batch: the padding of \<open>AgentLoopWorker\<close> and the joining of padded outputs in
  \<open>verl/experimental/agent_loop/agent_loop.py\<close>, for text without images. The tokenizer's \<open>pad\<close> is a parameter, with its documented
  behaviour as a law, and so is the scoring of the reward workers; an output comes with the reward its loop gave it, if any.
  Rows of a tensor are lists. Teacher log-probabilities of distillation are not modelled.
\<close>

section \<open>Padding of one output\<close>

type_synonym pad_fn = "int list \<Rightarrow> nat \<Rightarrow> bool \<Rightarrow> int list \<times> int list"

text \<open>\<open>tokenizer.pad\<close> with \<open>padding="max_length"\<close>: tokens and attention mask, padded on the left or on the right.\<close>

definition pad_law :: "int \<Rightarrow> pad_fn \<Rightarrow> bool" where
  "pad_law pad_id pad \<longleftrightarrow>
     (\<forall>ids n left. pad ids n left =
        (let fill = n - length ids
         in if left then (replicate fill pad_id @ ids, replicate fill 0 @ replicate (length ids) 1)
            else (ids @ replicate fill pad_id, replicate (length ids) 1 @ replicate fill 0)))"

definition pad_token_ids :: "pad_fn \<Rightarrow> int option \<Rightarrow> int list \<Rightarrow> nat \<Rightarrow> bool \<Rightarrow> int list \<times> int list" where
  "pad_token_ids pad pad_token_id ids max_length left =
     (if ids = [] then (replicate max_length (the_default 0 pad_token_id), replicate max_length 0) else pad ids max_length left)"

definition compute_position_id_with_mask :: "int list \<Rightarrow> int list" where
  "compute_position_id_with_mask msk = map (\<lambda>x. max 0 (x - 1)) (cumsum 0 msk)"

record padded_output =
  po_prompt_ids :: "int list"
  po_response_ids :: "int list"
  po_input_ids :: "int list"
  po_position_ids :: "int list"
  po_response_mask :: "int list"
  po_attention_mask :: "int list"
  po_logprobs :: "real list option"
  po_routed :: "pyval list option"
  po_reward :: "real option"
  po_num_turns :: nat
  po_extra :: pydict

text \<open>Expert indices start where the prompt starts; \<open>zero\<close> is the row of zeros.\<close>

definition place_experts :: "pyval \<Rightarrow> nat \<Rightarrow> nat \<Rightarrow> nat \<Rightarrow> pyval list \<Rightarrow> pyval list res" where
  "place_experts zero prompt_width prompt_length total_length rows =
     (if prompt_width < prompt_length then Inl (ValueError ''Invalid position range'')
      else let start = prompt_width - prompt_length; stop = min (start + length rows) total_length
           in if stop - start = length rows then Inr (replicate start zero @ rows @ replicate (total_length - stop) zero)
              else if length rows = 1 then Inr (replicate start zero @ replicate (stop - start) (hd rows) @ replicate (total_length - stop) zero)
              else Inl (RuntimeError ''The expanded size of the tensor must match the existing size''))"

text \<open>
  The score of an output without one, when there are reward workers; what they tell of it goes to the extra fields. The workers
  are a function of the output and of the fields of its row.
\<close>

type_synonym score_fn = "(pyval \<Rightarrow> agent_output \<Rightarrow> (real \<times> pydict) res) option"

definition agent_compute_score :: "score_fn \<Rightarrow> pyval \<Rightarrow> agent_output \<times> real option \<Rightarrow> (agent_output \<times> real option) res" where
  "agent_compute_score workers kwargs =
     (\<lambda>(out, reward).
       case (reward, workers) of
         (None, Some score) \<Rightarrow>
           bind_res (score kwargs out) (\<lambda>(r, info).
             Inr (out\<lparr>ao_extra := d_set ''reward_extra_info'' (PDict info) (ao_extra out)\<rparr>, Some r))
       | _ \<Rightarrow> Inr (out, reward))"

definition agent_loop_postprocess ::
  "pad_fn \<Rightarrow> int option \<Rightarrow> pyval \<Rightarrow> nat \<Rightarrow> nat \<Rightarrow> score_fn \<Rightarrow> pyval \<Rightarrow> agent_output \<times> real option \<Rightarrow> padded_output res" where
  "agent_loop_postprocess pad pad_id zero prompt_length response_length workers raw_prompt =
     (\<lambda>(out, reward).
       let (prompt_ids, prompt_att) = pad_token_ids pad pad_id (ao_prompt_ids out) prompt_length True;
           (response_ids, response_att) = pad_token_ids pad pad_id (ao_response_ids out) response_length False;
           (padded_mask, _) = pad_token_ids pad pad_id (ao_response_mask out) response_length False;
           lps = map_option (\<lambda>l. l @ replicate (response_length - length l) 0) (ao_logprobs out);
           attention = prompt_att @ response_att;
           input_ids = prompt_ids @ response_ids
       in if length padded_mask \<noteq> length response_att then Inl (RuntimeError ''The size of tensor a must match the size of tensor b'')
          else bind_res (case ao_routed out of
                 None \<Rightarrow> Inr None
               | Some rows \<Rightarrow> bind_res (place_experts zero (length prompt_ids) (length (ao_prompt_ids out)) (length input_ids) rows) (\<lambda>e. Inr (Some e)))
               (\<lambda>routed. bind_res (agent_compute_score workers raw_prompt (out, reward)) (\<lambda>(out, reward). Inr \<lparr>po_prompt_ids = prompt_ids, po_response_ids = response_ids, po_input_ids = input_ids,
                  po_position_ids = compute_position_id_with_mask attention, po_response_mask = map2 (*) padded_mask response_att,
                  po_attention_mask = attention, po_logprobs = lps, po_routed = routed, po_reward = reward,
                  po_num_turns = ao_num_turns out, po_extra = d_set ''raw_prompt'' raw_prompt (ao_extra out)\<rparr>)))"

section \<open>Joining a batch\<close>

record agent_batch =
  ab_prompts :: "int list list"
  ab_responses :: "int list list"
  ab_response_mask :: "int list list"
  ab_input_ids :: "int list list"
  ab_attention_mask :: "int list list"
  ab_position_ids :: "int list list"
  ab_rollout_log_probs :: "real list list option"
  ab_routed :: "pyval list list option"
  ab_rm_scores :: "real list list option"
  ab_num_turns :: "nat list"
  ab_extra :: "(string \<times> pyval list) list"
  ab_reward_extra :: "(string \<times> pyval list) list"

text \<open>\<open>torch.cat\<close> of one-row tensors: there must be one, and the widths must agree.\<close>

definition cat_rows :: "'a list list \<Rightarrow> 'a list list res" where
  "cat_rows rows =
     (if rows = [] \<or> (\<exists>r\<in>set rows. length r \<noteq> length (hd rows)) then Inl (RuntimeError ''Sizes of tensors must match'') else Inr rows)"

text \<open>An optional column, decided by the first output.\<close>

definition cat_optional :: "('r \<Rightarrow> 'a list option) \<Rightarrow> 'r list \<Rightarrow> 'a list list option res" where
  "cat_optional col inputs =
     (case col (hd inputs) of
        None \<Rightarrow> Inr None
      | Some _ \<Rightarrow>
          bind_res (map_res (\<lambda>i. case col i of None \<Rightarrow> Inl (TypeError ''expected Tensor'') | Some r \<Rightarrow> Inr r) inputs) (\<lambda>rows.
          bind_res (cat_rows rows) (\<lambda>rows. Inr (Some rows))))"

text \<open>The score goes to the last attended response position; an index of -1 is the last column.\<close>

definition score_row :: "int list \<Rightarrow> nat \<Rightarrow> nat \<Rightarrow> real \<Rightarrow> real list res" where
  "score_row attention prompt_width response_width score =
     (let pos = sum_list (drop prompt_width attention) - 1;
          pos = (if pos < 0 then pos + int response_width else pos)
      in if pos < 0 \<or> int response_width \<le> pos then Inl IndexError
         else Inr ((replicate response_width 0)[nat pos := score]))"

definition rm_scores :: "padded_output list \<Rightarrow> real list list option res" where
  "rm_scores inputs =
     (if \<exists>i\<in>set inputs. po_reward i = None then Inr None
      else bind_res (map_res (\<lambda>i. score_row (po_attention_mask i) (length (po_prompt_ids i)) (length (po_response_mask i))
                                 (the_default 0 (po_reward i))) inputs) (\<lambda>rows. Inr (Some rows)))"

definition default_extra_keys :: "string list" where
  "default_extra_keys = [''turn_scores'', ''tool_rewards'', ''min_global_steps'', ''max_global_steps'', ''extras'']"

definition extra_columns :: "padded_output list \<Rightarrow> (string \<times> pyval list) list" where
  "extra_columns inputs =
     map (\<lambda>k. (k, map (\<lambda>i. d_get k (po_extra i)) inputs)) (remdups (concat (map (map fst \<circ> po_extra) inputs) @ default_extra_keys))"

definition reward_info :: "pydict \<Rightarrow> pyval" where
  "reward_info extra = d_get_or ''reward_extra_info'' (PDict []) extra"

definition info_keys :: "pyval \<Rightarrow> string list res" where
  "info_keys v = (case v of PDict d \<Rightarrow> Inr (map fst d) | _ \<Rightarrow> Inl (TypeError ''object has no attribute keys''))"

definition info_at :: "string \<Rightarrow> pyval \<Rightarrow> pyval res" where
  "info_at k v = (case v of PDict d \<Rightarrow> d_index k d | _ \<Rightarrow> Inl (TypeError ''object is not subscriptable''))"

definition reward_columns :: "padded_output list \<Rightarrow> (string \<times> pyval list) list res" where
  "reward_columns inputs =
     (let infos = map (reward_info \<circ> po_extra) inputs
      in bind_res (info_keys (hd infos)) (\<lambda>keys.
           map_res (\<lambda>k. bind_res (map_res (info_at k) infos) (\<lambda>vs. Inr (k, vs))) keys))"

definition join_outputs :: "padded_output list \<Rightarrow> agent_batch res" where
  "join_outputs inputs =
     bind_res (cat_rows (map po_prompt_ids inputs)) (\<lambda>prompts.
     bind_res (cat_rows (map po_response_ids inputs)) (\<lambda>responses.
     bind_res (cat_rows (map po_response_mask inputs)) (\<lambda>msk.
     bind_res (cat_rows (map po_attention_mask inputs)) (\<lambda>att.
     bind_res (cat_rows (map po_input_ids inputs)) (\<lambda>ids.
     bind_res (cat_rows (map po_position_ids inputs)) (\<lambda>pos.
     bind_res (cat_optional po_logprobs inputs) (\<lambda>lps.
     bind_res (cat_optional po_routed inputs) (\<lambda>routed.
     bind_res (rm_scores inputs) (\<lambda>scores.
     bind_res (reward_columns inputs) (\<lambda>rewards.
       Inr \<lparr>ab_prompts = prompts, ab_responses = responses, ab_response_mask = msk, ab_input_ids = ids, ab_attention_mask = att,
            ab_position_ids = pos, ab_rollout_log_probs = lps, ab_routed = routed, ab_rm_scores = scores,
            ab_num_turns = map po_num_turns inputs, ab_extra = extra_columns inputs, ab_reward_extra = rewards\<rparr>))))))))))"

definition agent_batch_of ::
  "pad_fn \<Rightarrow> int option \<Rightarrow> pyval \<Rightarrow> nat \<Rightarrow> nat \<Rightarrow> score_fn \<Rightarrow> (agent_output \<times> real option) list \<Rightarrow> pyval list \<Rightarrow> agent_batch res" where
  "agent_batch_of pad pad_id zero prompt_length response_length workers outs raw_prompts =
     bind_res (map_res (\<lambda>(out, raw). agent_loop_postprocess pad pad_id zero prompt_length response_length workers raw out) (zip outs raw_prompts))
       join_outputs"

section \<open>Trajectory information\<close>

record trajectory =
  tj_step :: int
  tj_sample_index :: int
  tj_rollout_n :: nat
  tj_validate :: bool

fun trajectory_from :: "int \<Rightarrow> bool \<Rightarrow> int option \<Rightarrow> nat \<Rightarrow> int list \<Rightarrow> trajectory list" where
  "trajectory_from step validate prev n [] = []"
| "trajectory_from step validate prev n (i # rest) =
     (let n = (if prev = Some i then n + 1 else 0)
      in \<lparr>tj_step = step, tj_sample_index = i, tj_rollout_n = n, tj_validate = validate\<rparr> # trajectory_from step validate (Some i) n rest)"

definition get_trajectory_info :: "int \<Rightarrow> int list \<Rightarrow> bool \<Rightarrow> trajectory list" where
  "get_trajectory_info step index validate = trajectory_from step validate None 0 index"

section \<open>The batch holds the outputs\<close>

definition select :: "'a list \<Rightarrow> int list \<Rightarrow> 'a list" where
  "select xs att = map fst (filter (\<lambda>(x, a). a = 1) (zip xs att))"

lemma select_append: "length xs = length a \<Longrightarrow> select (xs @ ys) (a @ b) = select xs a @ select ys b"
  by (simp add: select_def)

lemma select_ones [simp]: "length xs = n \<Longrightarrow> select xs (replicate n 1) = xs"
  by (induction xs arbitrary: n) (auto simp: select_def)

lemma select_zeros [simp]: "select xs (replicate n 0) = []"
  by (auto simp: select_def filter_empty_conv set_zip)

lemma cumsum_ones: "cumsum a (replicate n 1) = map (\<lambda>i. a + 1 + int i) [0..<n]"
proof (induction n arbitrary: a)
  case (Suc n)
  have "[0..<Suc n] = 0 # map Suc [0..<n]" by (simp add: map_Suc_upt upt_conv_Cons)
  then show ?case using Suc[of "a + 1"] by (simp add: comp_def algebra_simps)
qed simp

lemma positions_of:
  "compute_position_id_with_mask (replicate a 0 @ replicate n 1 @ replicate b 0)
     = replicate a 0 @ map int [0..<n] @ replicate b (max 0 (int n - 1))"
  by (simp add: compute_position_id_with_mask_def cumsum_append cumsum_ones sum_list_replicate comp_def)

lemma pad_token_ids_eq:
  assumes "pad_law pid pad"
  shows "pad_token_ids pad (Some pid) ids n left =
    (if left then (replicate (n - length ids) pid @ ids, replicate (n - length ids) 0 @ replicate (length ids) 1)
     else (ids @ replicate (n - length ids) pid, replicate (length ids) 1 @ replicate (n - length ids) 0))"
  using assms by (auto simp: pad_token_ids_def pad_law_def Let_def)

text \<open>An output that fits the widths of the batch, with log-probabilities and a score.\<close>

definition output_fits :: "nat \<Rightarrow> nat \<Rightarrow> agent_output \<times> real option \<Rightarrow> bool" where
  "output_fits P R = (\<lambda>(out, reward). length (ao_prompt_ids out) \<le> P \<and> ao_response_ids out \<noteq> [] \<and> length (ao_response_ids out) \<le> R
     \<and> length (ao_response_mask out) = length (ao_response_ids out)
     \<and> (\<exists>lps. ao_logprobs out = Some lps \<and> length lps = length (ao_response_ids out))
     \<and> ao_routed out = None \<and> (\<exists>r. reward = Some r))"

lemma mask_times: "length m = k \<Longrightarrow> map2 (*) m (replicate k 1) = (m :: int list)"
  by (induction m arbitrary: k) auto

lemma fill_times: "map2 (*) (replicate d p) (replicate d 0) = (replicate d 0 :: int list)"
  by (induction d) auto

lemma postprocess_eq:
  assumes law: "pad_law pid pad" and fit: "output_fits P R (out, Some score)"
  shows "\<exists>p. agent_loop_postprocess pad (Some pid) zero P R None raw (out, Some score) = Inr p
    \<and> po_prompt_ids p = replicate (P - length (ao_prompt_ids out)) pid @ ao_prompt_ids out
    \<and> po_response_ids p = ao_response_ids out @ replicate (R - length (ao_response_ids out)) pid
    \<and> po_input_ids p = po_prompt_ids p @ po_response_ids p
    \<and> po_attention_mask p = replicate (P - length (ao_prompt_ids out)) 0 @ replicate (length (ao_prompt_ids out) + length (ao_response_ids out)) 1
          @ replicate (R - length (ao_response_ids out)) 0
    \<and> po_position_ids p = compute_position_id_with_mask (po_attention_mask p)
    \<and> po_response_mask p = ao_response_mask out @ replicate (R - length (ao_response_ids out)) 0
    \<and> po_logprobs p = map_option (\<lambda>l. l @ replicate (R - length (ao_response_ids out)) 0) (ao_logprobs out)
    \<and> po_routed p = None \<and> po_reward p = Some score \<and> reward_info (po_extra p) = reward_info (ao_extra out)"
proof -
  obtain lps where f: "length (ao_prompt_ids out) \<le> P" "length (ao_response_ids out) \<le> R"
    "length (ao_response_mask out) = length (ao_response_ids out)" "ao_logprobs out = Some lps" "length lps = length (ao_response_ids out)"
    "ao_routed out = None"
    using fit by (auto simp: output_fits_def)
  show ?thesis using f
    by (simp add: agent_loop_postprocess_def agent_compute_score_def pad_token_ids_eq[OF law] Let_def mask_times fill_times replicate_add
        reward_info_def d_get_or_def)
qed

lemma score_row_eq:
  assumes "0 < k" "k \<le> R" "length att = a"
  shows "score_row (att @ replicate k 1 @ replicate (R - k) 0) a R score = Inr (replicate (k - 1) 0 @ [score] @ replicate (R - k) 0)"
proof -
  have "sum_list (replicate k 1 @ replicate (R - k) 0 :: int list) - 1 = int (k - 1)" using assms(1) by (simp add: sum_list_replicate of_nat_diff)
  moreover have "(replicate R 0)[k - 1 := score] = replicate (k - 1) 0 @ [score] @ replicate (R - k) 0"
  proof -
    have "replicate R 0 = replicate (k - 1) 0 @ 0 # replicate (R - k) (0 :: real)"
      using assms by (metis Suc_diff_le Suc_diff_1 add_diff_inverse_nat append_Cons less_Suc_eq_le not_less replicate_Suc replicate_add Suc_pred le_add_diff_inverse add_Suc_shift)
    then show ?thesis by (simp add: list_update_append)
  qed
  moreover have "nat (int k - 1) = k - 1" by simp
  ultimately show ?thesis using assms by (simp add: score_row_def Let_def del: nat_diff_distrib')
qed

lemma cat_rows_Inr: "rows \<noteq> [] \<Longrightarrow> \<forall>r\<in>set rows. length r = n \<Longrightarrow> cat_rows rows = Inr rows"
  by (cases rows) (auto simp: cat_rows_def)

text \<open>The widths of padded outputs.\<close>

definition padded_ok :: "nat \<Rightarrow> nat \<Rightarrow> padded_output \<Rightarrow> bool" where
  "padded_ok P R p \<longleftrightarrow> length (po_prompt_ids p) = P \<and> length (po_response_ids p) = R \<and> length (po_response_mask p) = R
      \<and> length (po_attention_mask p) = P + R \<and> length (po_input_ids p) = P + R \<and> length (po_position_ids p) = P + R
      \<and> (\<exists>l. po_logprobs p = Some l \<and> length l = R) \<and> po_routed p = None \<and> po_reward p \<noteq> None"

definition joined :: "padded_output list \<Rightarrow> real list list \<Rightarrow> real list list \<Rightarrow> (string \<times> pyval list) list \<Rightarrow> agent_batch" where
  "joined ps lps scores rewards = \<lparr>ab_prompts = map po_prompt_ids ps, ab_responses = map po_response_ids ps,
    ab_response_mask = map po_response_mask ps, ab_input_ids = map po_input_ids ps, ab_attention_mask = map po_attention_mask ps,
    ab_position_ids = map po_position_ids ps, ab_rollout_log_probs = Some lps, ab_routed = None, ab_rm_scores = Some scores,
    ab_num_turns = map po_num_turns ps, ab_extra = extra_columns ps, ab_reward_extra = rewards\<rparr>"

lemma join_exact:
  assumes ne: "ps \<noteq> []" and ok: "\<forall>p\<in>set ps. padded_ok P R p" and scores: "rm_scores ps = Inr (Some scores)"
    and rewards: "reward_columns ps = Inr rewards"
  shows "join_outputs ps = Inr (joined ps (map (the \<circ> po_logprobs) ps) scores rewards)"
proof -
  have cat: "cat_rows (map col ps) = Inr (map col ps)" if "\<forall>p\<in>set ps. length (col p) = n" for col :: "padded_output \<Rightarrow> int list" and n
    using ne that by (intro cat_rows_Inr[of _ n]) auto
  have cats: "cat_rows (map po_prompt_ids ps) = Inr (map po_prompt_ids ps)" "cat_rows (map po_response_ids ps) = Inr (map po_response_ids ps)"
    "cat_rows (map po_response_mask ps) = Inr (map po_response_mask ps)" "cat_rows (map po_attention_mask ps) = Inr (map po_attention_mask ps)"
    "cat_rows (map po_input_ids ps) = Inr (map po_input_ids ps)" "cat_rows (map po_position_ids ps) = Inr (map po_position_ids ps)"
    using cat[of po_prompt_ids P] cat[of po_response_ids R] cat[of po_response_mask R] cat[of po_attention_mask "P + R"]
      cat[of po_input_ids "P + R"] cat[of po_position_ids "P + R"] ok by (simp_all add: padded_ok_def)
  have first: "padded_ok P R (hd ps)" using ne ok by simp
  have rows: "map_res (\<lambda>i. case po_logprobs i of None \<Rightarrow> Inl (TypeError ''expected Tensor'') | Some r \<Rightarrow> Inr r) ps
      = Inr (map (the \<circ> po_logprobs) ps)"
    using ok by (intro map_res_pure) (auto simp: padded_ok_def)
  have "cat_rows (map (the \<circ> po_logprobs) ps) = Inr (map (the \<circ> po_logprobs) ps)"
  proof (rule cat_rows_Inr)
    show "\<forall>r\<in>set (map (the \<circ> po_logprobs) ps). length r = R" using ok by (auto simp: padded_ok_def)
  qed (use ne in simp)
  then have lps: "cat_optional po_logprobs ps = Inr (Some (map (the \<circ> po_logprobs) ps))"
    using first rows by (auto simp: cat_optional_def padded_ok_def)
  have routed: "cat_optional po_routed ps = Inr None" using first by (simp add: cat_optional_def padded_ok_def)
  show ?thesis by (simp add: join_outputs_def cats lps routed scores rewards joined_def)
qed

text \<open>The rewards of the batch: the keys of the first output, which every output must have.\<close>

definition info_dict :: "agent_output \<times> real option \<Rightarrow> pydict" where
  "info_dict y = (case reward_info (ao_extra (fst y)) of PDict d \<Rightarrow> d | _ \<Rightarrow> [])"

definition infos_fit :: "(agent_output \<times> real option) list \<Rightarrow> bool" where
  "infos_fit ys \<longleftrightarrow> (\<forall>y\<in>set ys. reward_info (ao_extra (fst y)) = PDict (info_dict y) \<and> fst ` set (info_dict (hd ys)) \<subseteq> fst ` set (info_dict y))"

lemma reward_columns_eq:
  assumes "infos_fit ys" "ys \<noteq> []" "map (reward_info \<circ> po_extra) ps = map (\<lambda>y. reward_info (ao_extra (fst y))) ys"
  shows "reward_columns ps = Inr (map (\<lambda>k. (k, map (\<lambda>y. the (map_of (info_dict y) k)) ys)) (map fst (info_dict (hd ys))))"
proof -
  have infos: "map (\<lambda>y. reward_info (ao_extra (fst y))) ys = map (PDict \<circ> info_dict) ys" using assms(1) by (simp add: infos_fit_def)
  have at: "map_res (info_at k) (map (PDict \<circ> info_dict) ys) = Inr (map (\<lambda>y. the (map_of (info_dict y) k)) ys)"
    if k: "k \<in> fst ` set (info_dict (hd ys))" for k
    unfolding map_res_map
  proof (rule map_res_pure)
    fix y assume "y \<in> set ys"
    then have "k \<in> fst ` set (info_dict y)" using k assms(1) unfolding infos_fit_def by blast
    then obtain v where "map_of (info_dict y) k = Some v" by (metis map_of_eq_None_iff not_None_eq)
    then show "info_at k ((PDict \<circ> info_dict) y) = Inr (the (map_of (info_dict y) k))" by (simp add: info_at_def d_index_def)
  qed
  have "map_res (\<lambda>k. bind_res (map_res (info_at k) (map (PDict \<circ> info_dict) ys)) (\<lambda>vs. Inr (k, vs))) (map fst (info_dict (hd ys)))
      = Inr (map (\<lambda>k. (k, map (\<lambda>y. the (map_of (info_dict y) k)) ys)) (map fst (info_dict (hd ys))))"
    by (rule map_res_pure) (simp add: at)
  moreover have "info_keys (hd (map (PDict \<circ> info_dict) ys)) = Inr (map fst (info_dict (hd ys)))"
    using assms(2) by (cases ys) (simp_all add: info_keys_def)
  ultimately show ?thesis unfolding reward_columns_def Let_def assms(3) infos by simp
qed

text \<open>Scoring an output only adds to it, so that the outputs may be scored first.\<close>

lemma agent_compute_score_same:
  assumes "agent_compute_score workers raw x = Inr y"
  shows "\<exists>extra. fst y = fst x\<lparr>ao_extra := extra\<rparr>"
proof -
  have same: "\<exists>extra. out = out\<lparr>ao_extra := extra\<rparr>" for out :: agent_output by (rule exI[of _ "ao_extra out"]) simp
  then show ?thesis using assms unfolding agent_compute_score_def by (cases x) (auto split: option.splits simp: bind_res_Inr)
qed

lemma postprocess_scored:
  assumes "agent_compute_score workers raw x = Inr y"
  shows "agent_loop_postprocess pad pid zero P R workers raw x = agent_loop_postprocess pad pid zero P R None raw y"
proof -
  obtain extra where same: "fst y = fst x\<lparr>ao_extra := extra\<rparr>" using agent_compute_score_same[OF assms] by blast
  obtain out r out' r' where x: "x = (out, r)" and y: "y = (out', r')" by (cases x; cases y) auto
  have none: "agent_compute_score None raw z = Inr z" for z by (cases z) (simp add: agent_compute_score_def split: option.splits)
  have out': "out' = out\<lparr>ao_extra := extra\<rparr>" using same x y by simp
  have fields: "ao_prompt_ids out' = ao_prompt_ids out" "ao_response_ids out' = ao_response_ids out" "ao_response_mask out' = ao_response_mask out"
    "ao_logprobs out' = ao_logprobs out" "ao_routed out' = ao_routed out" "ao_num_turns out' = ao_num_turns out"
    unfolding out' by simp_all
  show ?thesis
    unfolding x y agent_loop_postprocess_def prod.case assms[unfolded x y] none bind_res_simps fields ..
qed

lemma map_res_all2: "list_all2 (\<lambda>x y. f x = g y) xs ys \<Longrightarrow> map_res f xs = map_res g ys"
  by (induction rule: list_all2_induct) (simp_all split: sum.split)

lemma batch_scored:
  assumes "map_res (\<lambda>(x, raw). agent_compute_score workers raw x) (zip outs raws) = Inr ys" "length raws = length outs"
  shows "agent_batch_of pad pid zero P R workers outs raws = agent_batch_of pad pid zero P R None ys raws"
    and "length ys = length outs" and "\<And>i. i < length outs \<Longrightarrow> \<exists>extra. fst (ys ! i) = fst (outs ! i)\<lparr>ao_extra := extra\<rparr>"
proof -
  have all: "list_all2 (\<lambda>(x, raw) y. agent_compute_score workers raw x = Inr y) (zip outs raws) ys"
    using assms(1)[unfolded map_res_Inr_iff] by (simp add: case_prod_unfold)
  then show len: "length ys = length outs" using assms(2) by (simp add: list_all2_lengthD[symmetric])
  have each: "agent_compute_score workers (raws ! i) (outs ! i) = Inr (ys ! i)" if "i < length outs" for i
    using list_all2_nthD[OF all, of i] that assms(2) by simp
  then show "\<exists>extra. fst (ys ! i) = fst (outs ! i)\<lparr>ao_extra := extra\<rparr>" if "i < length outs" for i
    using agent_compute_score_same that by blast
  have "map_res (\<lambda>(out, raw). agent_loop_postprocess pad pid zero P R workers raw out) (zip outs raws)
      = map_res (\<lambda>(out, raw). agent_loop_postprocess pad pid zero P R None raw out) (zip ys raws)"
    using each len assms(2) by (intro map_res_all2) (simp add: list_all2_conv_all_nth postprocess_scored)
  then show "agent_batch_of pad pid zero P R workers outs raws = agent_batch_of pad pid zero P R None ys raws"
    by (simp add: agent_batch_of_def)
qed

lemma scored_batch_exact:
  assumes law: "pad_law pid pad" and outs: "outs \<noteq> []" "length raws = length outs" and fit: "\<forall>x\<in>set outs. output_fits P R x"
    and infos: "infos_fit outs"
  shows "\<exists>b lps scores. agent_batch_of pad (Some pid) zero P R None outs raws = Inr b
    \<and> ab_rollout_log_probs b = Some lps \<and> ab_rm_scores b = Some scores
    \<and> ab_reward_extra b = map (\<lambda>k. (k, map (\<lambda>y. the (map_of (info_dict y) k)) outs)) (map fst (info_dict (hd outs)))
    \<and> (\<forall>i < length outs. let out = fst (outs ! i); n = length (ao_response_ids out) in
         length (ab_input_ids b ! i) = P + R
         \<and> select (ab_input_ids b ! i) (ab_attention_mask b ! i) = ao_prompt_ids out @ ao_response_ids out
         \<and> select (ab_position_ids b ! i) (ab_attention_mask b ! i) = map int [0..<length (ao_prompt_ids out) + n]
         \<and> ab_response_mask b ! i = ao_response_mask out @ replicate (R - n) 0
         \<and> lps ! i = the (ao_logprobs out) @ replicate (R - n) 0
         \<and> scores ! i = replicate (n - 1) 0 @ [the (snd (outs ! i))] @ replicate (R - n) 0)"
proof -
  let ?post = "\<lambda>(out, raw). agent_loop_postprocess pad (Some pid) zero P R None raw out"
  let ?Q = "\<lambda>((out, reward), raw) p. po_prompt_ids p = replicate (P - length (ao_prompt_ids out)) pid @ ao_prompt_ids out
    \<and> po_response_ids p = ao_response_ids out @ replicate (R - length (ao_response_ids out)) pid
    \<and> po_input_ids p = po_prompt_ids p @ po_response_ids p
    \<and> po_attention_mask p = replicate (P - length (ao_prompt_ids out)) 0 @ replicate (length (ao_prompt_ids out) + length (ao_response_ids out)) 1
          @ replicate (R - length (ao_response_ids out)) 0
    \<and> po_position_ids p = compute_position_id_with_mask (po_attention_mask p)
    \<and> po_response_mask p = ao_response_mask out @ replicate (R - length (ao_response_ids out)) 0
    \<and> po_logprobs p = map_option (\<lambda>l. l @ replicate (R - length (ao_response_ids out)) 0) (ao_logprobs out)
    \<and> po_routed p = None \<and> po_reward p = reward \<and> reward_info (po_extra p) = reward_info (ao_extra out)"
  let ?zs = "zip outs raws"
  have fits: "output_fits P R (fst z)" if "z \<in> set ?zs" for z using fit that by (cases z) (auto dest: set_zip_leftD)
  have "\<forall>z\<in>set ?zs. \<exists>p. ?post z = Inr p \<and> ?Q z p"
  proof
    fix z assume z: "z \<in> set ?zs"
    obtain out reward raw where zo: "z = ((out, reward), raw)" by (metis surj_pair)
    then obtain score where "reward = Some score" using fits[OF z] by (auto simp: output_fits_def)
    then show "\<exists>p. ?post z = Inr p \<and> ?Q z p" using postprocess_eq[OF law, of P R out score zero raw] fits[OF z] by (simp add: zo)
  qed
  from bchoice[OF this] obtain g where g: "\<forall>z\<in>set ?zs. ?post z = Inr (g z) \<and> ?Q z (g z)" by blast
  let ?ps = "map g ?zs"
  have posts: "map_res ?post ?zs = Inr ?ps" using g by (intro map_res_pure) auto
  have ne: "?ps \<noteq> []" using outs by (cases outs; cases raws) auto
  have Q: "?Q z (g z)" if "z \<in> set ?zs" for z using g that by blast
  have widths: "padded_ok P R p" if p: "p \<in> set ?ps" for p
  proof -
    obtain z where z: "z \<in> set ?zs" "p = g z" using p unfolding set_map by blast
    obtain out reward raw where zo: "z = ((out, reward), raw)" by (metis surj_pair)
    show ?thesis using Q[OF z(1)] fits[OF z(1)] unfolding z(2) zo output_fits_def padded_ok_def
      by (auto simp: compute_position_id_with_mask_def)
  qed
  define score where "score z = replicate (length (ao_response_ids (fst (fst z))) - 1) 0 @ [the (snd (fst z))]
    @ replicate (R - length (ao_response_ids (fst (fst z)))) 0" for z :: "(agent_output \<times> real option) \<times> pyval"
  have scores: "rm_scores ?ps = Inr (Some (map score ?zs))"
  proof -
    have "map_res (\<lambda>z. score_row (po_attention_mask (g z)) (length (po_prompt_ids (g z))) (length (po_response_mask (g z)))
        (the_default 0 (po_reward (g z)))) ?zs = Inr (map score ?zs)"
    proof (rule map_res_pure)
      fix z assume z: "z \<in> set ?zs"
      obtain out reward raw where zo: "z = ((out, reward), raw)" by (metis surj_pair)
      let ?n = "length (ao_response_ids out)" and ?l = "length (ao_prompt_ids out)"
      obtain sc where f: "?l \<le> P" "0 < ?n" "?n \<le> R" "reward = Some sc" using fits[OF z] by (auto simp: zo output_fits_def)
      have "po_attention_mask (g z) = (replicate (P - ?l) 0 @ replicate ?l 1) @ replicate ?n 1 @ replicate (R - ?n) 0"
        using Q[OF z] by (simp add: zo replicate_add)
      moreover have "g z \<in> set ?ps" using z by simp
      moreover have "po_reward (g z) = Some sc" using Q[OF z] f by (simp add: zo)
      ultimately show "score_row (po_attention_mask (g z)) (length (po_prompt_ids (g z))) (length (po_response_mask (g z)))
          (the_default 0 (po_reward (g z))) = Inr (score z)"
        using score_row_eq[OF f(2,3), of "replicate (P - ?l) 0 @ replicate ?l 1" P sc] widths[of "g z"] f(1,4)
        by (simp add: score_def zo padded_ok_def)
    qed
    moreover have "\<not> (\<exists>p\<in>set ?ps. po_reward p = None)" using widths unfolding padded_ok_def by blast
    ultimately show ?thesis by (simp only: rm_scores_def if_False map_res_map bind_res_simps)
  qed
  let ?rw = "map (\<lambda>k. (k, map (\<lambda>y. the (map_of (info_dict y) k)) outs)) (map fst (info_dict (hd outs)))"
  let ?J = "joined ?ps (map (the \<circ> po_logprobs) ?ps) (map score ?zs) ?rw"
  have "map (reward_info \<circ> po_extra) ?ps = map (\<lambda>z. reward_info (ao_extra (fst (fst z)))) ?zs"
    using Q by (fastforce simp: case_prod_beta)
  also have "\<dots> = map (\<lambda>y. reward_info (ao_extra (fst y))) (map fst ?zs)" by (simp only: map_map comp_def)
  finally have "map (reward_info \<circ> po_extra) ?ps = map (\<lambda>y. reward_info (ao_extra (fst y))) outs"
    using outs(2) by (simp only: map_fst_zip)
  then have rewards: "reward_columns ?ps = Inr ?rw" by (rule reward_columns_eq[OF infos outs(1)])
  have "join_outputs ?ps = Inr ?J"
    by (rule join_exact[OF ne ballI[OF widths] scores rewards])
  then have batch: "agent_batch_of pad (Some pid) zero P R None outs raws = Inr ?J"
    by (simp only: agent_batch_of_def posts bind_res_simps)
  have row: "length (po_input_ids (g z)) = P + R
      \<and> select (po_input_ids (g z)) (po_attention_mask (g z)) = ao_prompt_ids out @ ao_response_ids out
      \<and> select (po_position_ids (g z)) (po_attention_mask (g z)) = map int [0..<length (ao_prompt_ids out) + length (ao_response_ids out)]
      \<and> po_response_mask (g z) = ao_response_mask out @ replicate (R - length (ao_response_ids out)) 0
      \<and> the (po_logprobs (g z)) = the (ao_logprobs out) @ replicate (R - length (ao_response_ids out)) 0"
    if z: "z \<in> set ?zs" "out = fst (fst z)" for z out
  proof -
    obtain reward raw where zo: "z = ((out, reward), raw)" using z(2) by (metis prod.collapse)
    let ?l = "length (ao_prompt_ids out)" and ?n = "length (ao_response_ids out)"
    have att: "po_attention_mask (g z) = replicate (P - ?l) 0 @ (replicate ?l 1 @ replicate ?n 1) @ replicate (R - ?n) 0"
      using Q[OF z(1)] by (simp add: zo replicate_add)
    have ids: "po_input_ids (g z) = replicate (P - ?l) pid @ (ao_prompt_ids out @ ao_response_ids out) @ replicate (R - ?n) pid"
      using Q[OF z(1)] by (simp add: zo)
    have pos: "po_position_ids (g z) = replicate (P - ?l) 0 @ map int [0..<?l + ?n] @ replicate (R - ?n) (max 0 (int (?l + ?n) - 1))"
      using Q[OF z(1)] positions_of[of "P - ?l" "?l + ?n" "R - ?n"] by (simp add: zo)
    have f: "?l \<le> P" "?n \<le> R" "\<exists>lps. ao_logprobs out = Some lps" using fits[OF z(1)] by (auto simp: zo output_fits_def)
    have "select (po_input_ids (g z)) (po_attention_mask (g z)) = ao_prompt_ids out @ ao_response_ids out"
      unfolding ids att by (simp add: select_append)
    moreover have "select (po_position_ids (g z)) (po_attention_mask (g z)) = map int [0..<?l + ?n]"
      unfolding pos att replicate_add[symmetric] by (simp add: select_append)
    moreover have "length (po_input_ids (g z)) = P + R" using f(1,2) unfolding ids by simp
    moreover have "po_response_mask (g z) = ao_response_mask out @ replicate (R - ?n) 0"
      using Q[OF z(1)] unfolding zo prod.case by (elim conjE)
    moreover have "po_logprobs (g z) = map_option (\<lambda>l. l @ replicate (R - ?n) 0) (ao_logprobs out)"
      using Q[OF z(1)] unfolding zo prod.case by (elim conjE)
    ultimately show ?thesis using f(3) by force
  qed
  show ?thesis
  proof (intro exI conjI allI impI)
    show "agent_batch_of pad (Some pid) zero P R None outs raws = Inr ?J" by (rule batch)
    show "ab_rollout_log_probs ?J = Some (map (the \<circ> po_logprobs) ?ps)"
      "ab_rm_scores ?J = Some (map score ?zs)" "ab_reward_extra ?J = ?rw" by (simp_all add: joined_def)
    fix i assume i: "i < length outs"
    then have "i < length ?zs" using outs(2) by simp
    then have z: "?zs ! i \<in> set ?zs" "fst (outs ! i) = fst (fst (?zs ! i))" by (rule nth_mem) (use i outs(2) in simp)
    show "let out = fst (outs ! i); n = length (ao_response_ids out) in
         length (ab_input_ids ?J ! i) = P + R
         \<and> select (ab_input_ids ?J ! i)
             (ab_attention_mask ?J ! i) = ao_prompt_ids out @ ao_response_ids out
         \<and> select (ab_position_ids ?J ! i)
             (ab_attention_mask ?J ! i) = map int [0..<length (ao_prompt_ids out) + n]
         \<and> ab_response_mask ?J ! i = ao_response_mask out @ replicate (R - n) 0
         \<and> map (the \<circ> po_logprobs) ?ps ! i = the (ao_logprobs out) @ replicate (R - n) 0
         \<and> map score ?zs ! i = replicate (n - 1) 0 @ [the (snd (outs ! i))] @ replicate (R - n) 0"
      using row[OF z] i outs(2) by (simp add: joined_def Let_def score_def)
  qed
qed

text \<open>
  C40. The batch holds the outputs of the agent loops: outputs whose scored form fits the widths are joined without an exception; in
  every row the attended tokens are the prompt and the response of the output, with positions from zero; the response mask and the
  log-probabilities are those of the output, and zero on padding; the score, given by the loop or by the reward workers, stands at
  the last response token; and every reward key of the first row is a column of the batch.
\<close>

theorem agent_batch_exact:
  assumes law: "pad_law pid pad" and outs: "outs \<noteq> []" "length raws = length outs"
    and scored: "map_res (\<lambda>(x, raw). agent_compute_score workers raw x) (zip outs raws) = Inr ys"
    and fit: "\<forall>y\<in>set ys. output_fits P R y" "infos_fit ys"
  shows "\<exists>b lps scores. agent_batch_of pad (Some pid) zero P R workers outs raws = Inr b
    \<and> ab_rollout_log_probs b = Some lps \<and> ab_rm_scores b = Some scores
    \<and> ab_reward_extra b = map (\<lambda>k. (k, map (\<lambda>y. the (map_of (info_dict y) k)) ys)) (map fst (info_dict (hd ys)))
    \<and> (\<forall>i < length outs. let out = fst (outs ! i); n = length (ao_response_ids out) in
         length (ab_input_ids b ! i) = P + R
         \<and> select (ab_input_ids b ! i) (ab_attention_mask b ! i) = ao_prompt_ids out @ ao_response_ids out
         \<and> select (ab_position_ids b ! i) (ab_attention_mask b ! i) = map int [0..<length (ao_prompt_ids out) + n]
         \<and> ab_response_mask b ! i = ao_response_mask out @ replicate (R - n) 0
         \<and> lps ! i = the (ao_logprobs out) @ replicate (R - n) 0
         \<and> scores ! i = replicate (n - 1) 0 @ [the (snd (ys ! i))] @ replicate (R - n) 0)"
proof -
  note ys = batch_scored[OF scored outs(2)]
  have ne: "ys \<noteq> []" and len: "length raws = length ys" using outs ys(2) by auto
  have same: "ao_prompt_ids (fst (ys ! i)) = ao_prompt_ids (fst (outs ! i))" "ao_response_ids (fst (ys ! i)) = ao_response_ids (fst (outs ! i))"
    "ao_response_mask (fst (ys ! i)) = ao_response_mask (fst (outs ! i))" "ao_logprobs (fst (ys ! i)) = ao_logprobs (fst (outs ! i))"
    if "i < length outs" for i using ys(3)[OF that] by auto
  show ?thesis using scored_batch_exact[OF law ne len fit, of zero] unfolding ys(1,2) by (simp add: same Let_def)
qed

definition ex_pad :: pad_fn where
  "ex_pad ids n left =
     (if left then (replicate (n - length ids) 0 @ ids, replicate (n - length ids) 0 @ replicate (length ids) 1)
      else (ids @ replicate (n - length ids) 0, replicate (length ids) 1 @ replicate (n - length ids) 0))"

definition ex_output :: agent_output where
  "ex_output = \<lparr>ao_prompt_ids = [1, 2], ao_response_ids = [5, 6, 9], ao_response_mask = [1, 1, 0], ao_logprobs = Some [-1, -2, 0],
     ao_multi_modal = [], ao_mm_kwargs = None, ao_num_turns = 3, ao_preempted = None, ao_routed = None, ao_extra = []\<rparr>"

definition ex_reward_workers :: score_fn where
  "ex_reward_workers = Some (\<lambda>kwargs out. Inr (1, [(''acc'', PBool True)]))"

theorem agent_batch_exact_witness:
  "\<exists>b scores. agent_batch_of ex_pad (Some 0) PNone 3 4 ex_reward_workers [(ex_output, None)] [PNone] = Inr b
    \<and> ab_response_mask b ! 0 = [1, 1, 0, 0] \<and> ab_rm_scores b = Some scores \<and> scores ! 0 = [0, 0, 1, 0]
    \<and> ab_reward_extra b = [(''acc'', [PBool True])]
    \<and> select (ab_input_ids b ! 0) (ab_attention_mask b ! 0) = [1, 2, 5, 6, 9]"
proof -
  let ?y = "(ex_output\<lparr>ao_extra := [(''reward_extra_info'', PDict [(''acc'', PBool True)])]\<rparr>, Some (1 :: real))"
  have law: "pad_law 0 ex_pad" by (simp add: pad_law_def ex_pad_def Let_def)
  have scored: "map_res (\<lambda>(x, raw). agent_compute_score ex_reward_workers raw x) (zip [(ex_output, None)] [PNone]) = Inr [?y]"
    by (simp add: agent_compute_score_def ex_reward_workers_def ex_output_def d_set_def)
  have fit: "\<forall>y\<in>set [?y]. output_fits 3 4 y" "infos_fit [?y]"
    and info: "info_dict ?y = [(''acc'', PBool True)]"
    by (simp_all add: output_fits_def ex_output_def infos_fit_def info_dict_def reward_info_def d_get_or_def)
  obtain b lps scores where "agent_batch_of ex_pad (Some 0) PNone 3 4 ex_reward_workers [(ex_output, None)] [PNone] = Inr b"
    "ab_rm_scores b = Some scores"
    "ab_reward_extra b = map (\<lambda>k. (k, map (\<lambda>y. the (map_of (info_dict y) k)) [?y])) (map fst (info_dict (hd [?y])))"
    and row: "\<forall>i < length [(ex_output, None :: real option)]. let out = fst ([(ex_output, None :: real option)] ! i); n = length (ao_response_ids out) in
         length (ab_input_ids b ! i) = 3 + 4
         \<and> select (ab_input_ids b ! i) (ab_attention_mask b ! i) = ao_prompt_ids out @ ao_response_ids out
         \<and> select (ab_position_ids b ! i) (ab_attention_mask b ! i) = map int [0..<length (ao_prompt_ids out) + n]
         \<and> ab_response_mask b ! i = ao_response_mask out @ replicate (4 - n) 0
         \<and> lps ! i = the (ao_logprobs out) @ replicate (4 - n) 0
         \<and> scores ! i = replicate (n - 1) 0 @ [the (snd ([?y] ! i))] @ replicate (4 - n) 0"
    using agent_batch_exact[OF law _ _ scored fit, of PNone] by auto
  then show ?thesis using row[rule_format, of 0] info by (auto simp: ex_output_def Let_def numeral_eq_Suc)
qed

text \<open>A response without a token: its score goes to the last padding position.\<close>

lemma score_of_empty_response:
  "0 < R \<Longrightarrow> score_row (att @ replicate R 0) (length att) R score = Inr ((replicate R 0)[R - 1 := score])"
proof -
  assume R: "0 < R"
  have "nat (-1 + int R) = R - 1" by simp
  then show ?thesis using R by (simp add: score_row_def Let_def)
qed

section \<open>The outputs of the tool agent fit\<close>

lemma cap_fits: "0 < le_prompt_length env \<Longrightarrow> length (cap_text_prompt_length env xs) \<le> le_prompt_length env"
  by (simp add: cap_text_prompt_length_def last_n_def)

lemma prompt_fits:
  assumes "prompt_template env ms tools im vi au mm rm = Inr ids" "0 < le_prompt_length env"
  shows "length ids \<le> le_prompt_length env"
proof -
  have "(\<exists>xs. ids = cap_text_prompt_length env xs) \<or> length ids \<le> le_prompt_length env"
    using assms(1) unfolding prompt_template_def Let_def bind_res_Inr by (auto split: if_splits) metis+
  then show ?thesis using cap_fits[OF assms(2)] by auto
qed

lemma first_prompt_fits:
  assumes "first_prompt env ad = Inr ids" "0 < le_prompt_length env"
  shows "length ids \<le> le_prompt_length env"
proof (cases "le_builder env")
  case None
  then show ?thesis using assms prompt_fits by (auto simp: first_prompt_def)
next
  case (Some b)
  then obtain xs where "ids = cap_text_prompt_length env xs"
    using assms(1) unfolding first_prompt_def ct_build_initial_tokens_def by (auto simp: bind_res_Inr)
  then show ?thesis using cap_fits[OF assms(2)] by simp
qed

lemma stream_prompt_le: "length (fst (stream_of prompt turns)) \<le> length prompt"
proof (induction turns rule: rev_induct)
  case (snoc t turns)
  then show ?case by (cases "stream_of prompt turns"; cases t) auto
qed simp

text \<open>
  An output of the tool agent that has a response token and a log-probability for each can be joined into a batch of the configured
  widths, whatever the server answered.
\<close>

lemma tool_agent_fits:
  assumes len: "0 < le_prompt_length env"
    and run: "run_tool_agent env params (new_agent_data env rid messages images videos audios kw info) w = Some (Inr (out, w'))"
    and answered: "ao_response_mask out \<noteq> []" "ao_logprobs out = Some lps" "length lps = length (ao_response_mask out)"
    and plain: "ao_routed out = None"
  shows "output_fits (le_prompt_length env) (le_response_length env) (out, Some r)"
proof -
  let ?L = "le_response_length env"
  obtain prompt turns where prompt: "first_prompt env (new_agent_data env rid messages images videos audios kw info) = Inr prompt"
    and s: "ao_prompt_ids out = fst (stream_of prompt turns)"
      "ao_response_ids out = take ?L (if snd (stream_of prompt turns) = [] then fst (stream_of prompt turns) else map fst (snd (stream_of prompt turns)))"
      "ao_response_mask out = take ?L (map snd (snd (stream_of prompt turns)))"
    using agent_output_exact_core[OF run] unfolding case_prod_beta by blast
  have "length (ao_prompt_ids out) \<le> le_prompt_length env"
    using first_prompt_fits[OF prompt len] stream_prompt_le[of prompt turns] s(1) by simp
  moreover have "snd (stream_of prompt turns) \<noteq> []" "0 < ?L" using answered(1) s(3) by auto
  ultimately show ?thesis using s answered plain by (simp add: output_fits_def)
qed

end
