(* ===== verification/Spec2Isabelle.thy ===== *)
theory Spec2Isabelle
  imports Rlsd TrainerHook MicroBatch Padding Scorer ScoreBatch Prompt Reward Seqlen MsgQueue DataProto
    CoreAdv CoreLoss SftData EvalTools ReplayBuffer TdUtils Dispatch RolloutCorr ValMetrics ContToken AgentLoop AgentBatch
begin

text \<open>
  A verification development for Extpi-RLSD, a trainer that teaches a language model from its own rollouts and from
  privileged traces of a teacher, and for the parts of verl it runs on. Paths below are under \<open>src/\<close>.

  \<^bold>\<open>The program.\<close> Offline tools (\<open>tools/extpi_rlsd\<close>) prepare problems, generate traces, measure how much a trace helps the
  student, split the problems, and write training and evaluation files. The trainer (\<open>verl/trainer/extpi_rlsd\<close>) is a PPO
  trainer whose hook, before every update of the actor, scores the responses under the prompt with and without the
  trace, turns the difference of log-probabilities into evidence per token, and reweights the GRPO advantages by it. It
  stands on the batch containers of verl (\<open>verl/protocol.py\<close>, \<open>verl/utils/tensordict_utils.py\<close>), which a controller
  spreads over worker groups (\<open>verl/single_controller\<close>), on the estimators and losses of \<open>verl/trainer/ppo\<close>, and on the
  queue and the replay buffer between rollout and training. Later tools evaluate the runs and select one of them.

  \<^bold>\<open>Shared theories.\<close>
  \<^item> \<open>Prelude\<close>: exceptions as the values of a sum type (\<open>'a res\<close>, \<open>bind_res\<close>, \<open>map_res\<close>), slices, strides, running sums and
    rank-2 tensors with their shapes. \<open>PyStrings\<close>: the string methods of Python on lists of characters. \<open>PyValues\<close>:
    dynamically typed values of rows and configurations. \<open>Floats\<close>: tensor elements, a real number, an infinity or NaN.
    \<open>TorchFn\<close>: the masked statistics of \<open>verl/utils/torch_functional.py\<close>. \<open>Heapq\<close>: the binary heap of Python's \<open>heapq\<close>.

  \<^bold>\<open>Theories and files.\<close> Definitions have the names of the functions, methods and fields they model.
  \<^item> \<open>Rlsd\<close>: \<open>verl/trainer/extpi_rlsd/rlsd.py\<close>, the evidence-weighted advantages with all guards and metrics.
  \<^item> \<open>Prompt\<close>: \<open>prompt_assembly.py\<close>, prompts with and without the trace and the leak check.
  \<^item> \<open>Reward\<close>: \<open>recipes/extpi_rlsd/rewards/math_verify_reward.py\<close>, extraction and verification of answers.
  \<^item> \<open>Scorer\<close>, \<open>MicroBatch\<close>: \<open>scorer.py\<close> and the micro-batches of the inline teacher, log-probabilities of given tokens.
  \<^item> \<open>ScoreBatch\<close>, \<open>TrainerHook\<close>: \<open>trainer.py\<close>; first the temporary scoring batches and the diagnostics, then the trainer
    class. Its state is the record of the trainer, the batch and the log of the calls to workers.
  \<^item> \<open>Padding\<close>: \<open>verl/workers/utils/padding.py\<close>. \<open>Seqlen\<close>: \<open>verl/utils/seqlen_balancing.py\<close>, Karmarkar-Karp and greedy
    partitions and dynamic micro-batches.
  \<^item> \<open>DataProto\<close>, \<open>TdUtils\<close>: the two batch containers. \<open>Dispatch\<close>: \<open>verl/single_controller\<close>, how arguments of a call are
    split over workers, how results are collected, and the registry of modes.
  \<^item> \<open>CoreAdv\<close>, \<open>CoreLoss\<close>: the estimators, controllers and losses of \<open>verl/trainer/ppo/core_algos.py\<close>. \<open>RolloutCorr\<close>:
    \<open>rollout_corr_helper.py\<close>, rejection and importance weights. \<open>ValMetrics\<close>: the validation metrics of \<open>metric_utils.py\<close>.
  \<^item> \<open>MsgQueue\<close>: \<open>verl/experimental/fully_async_policy/message_queue.py\<close>, an actor whose calls interleave. \<open>ReplayBuffer\<close>:
    \<open>verl/trainer/ppo/v1/replay_buffer.py\<close> with its producers and its consumer.
  \<^item> \<open>DataTools\<close>, \<open>Frontier\<close>, \<open>TraceGen\<close>, \<open>SftData\<close>, \<open>EvalTools\<close>: the tools, in the order of the pipeline.

  \<^bold>\<open>What the lemmas show.\<close> For the advantages: signs are kept, weights are bounded, and a result exists exactly when no
  guard raises. For scoring: every token gets the log-probability of exactly its own prefix, in any division into
  micro-batches. For the containers: padding, splitting and joining are inverse to each other, and the operations refine
  the operations on lists of rows. For worker groups: a call over a mesh or with automatic padding gives what one worker
  gives on the whole batch. For balancing: partitions are exact, and the gap is bounded. For estimators: the optimised forms
  equal the loop forms, and GAE skips observation tokens. For losses: aggregation does not depend on the division over
  ranks. For the queue and the buffer: order, loss accounting, no lost wake-up, and that only complete groups are sampled, at the first
  poll that can sample. For the tools: splits are disjoint, shards resume without repetition, files agree with each other, and
  gates and selection decide as they document.

  \<^bold>\<open>Interfaces.\<close> The locale \<open>priority_queue\<close> states what the partitioner relies on; \<open>weak_order\<close> extends the order of
  the elements to the heap, a sublocale of it, and the interpretation \<open>kk\<close> is the order of the states of the
  partitioner. The locale \<open>fifo_buffer\<close> states the accounting of a queue under a step relation; the interpretations
  \<open>samples\<close> and \<open>validation\<close> are the two queues of the actor.

  \<^bold>\<open>Loops and fuel.\<close> Loops with a bound are structural recursion or functions with a measure. Loops that wait for the
  world (the poll of the replay buffer, the loop of the subset sizes) are partial functions into options; that they return
  is a theorem of its own. The loop of the dynamic micro-batches and the heap sifts have measures.

  \<^bold>\<open>Not modelled.\<close> Rounding of floating-point numbers, gradients, devices and dtypes; characters above 255; the texts of exceptions, and
  attribute errors, which count as type errors; the state that a raised exception leaves in Python objects, unless a
  property speaks of it; broadcasting beyond what the sources use, since the types carry the ranks. Files are lists of their
  rows or lines; argument parsing, hashing, manifests and printing are left out. Models, tokenizers, chat templates,
  \<open>math_verify\<close>, random generators, the transfer queue, clocks and remote methods are parameters, with documented laws as
  hypotheses where a property needs them. Engines, rollout servers, Megatron, FSDP and the kernels are wrappers of
  libraries that are not in the repository. Of the modelled files, these parts are missing: pickling and folded batch dimensions
  of \<open>DataProto\<close>, the estimators and losses named in the component list as missing, placement of workers and fused workers.

  \<^bold>\<open>What modelling showed.\<close> Automatic padding lengthens the batch of the caller; results of workers are dropped in the mode
  that computes metrics; vectorised and loop RLOO differ on groups of one; all-zero importance weights divide by zero; a
  producer of the replay buffer can mark a prompt while its sessions run; the shuffled control can keep a trace at its own
  problem. Each is stated at the definitions concerned.
\<close>

end
